(* ===== verification/PyPrelude.thy ===== *)
theory PyPrelude
  imports Main "HOL-Library.Char_ord" "HOL-Library.List_Lexorder"
begin

text \<open>
  The part of Python that the modelled modules share: results (a value or the exception
  that was raised), strings with the methods of \<^verbatim>\<open>str\<close> the code calls, insertion-ordered
  dictionaries, and the generic facts about them that the component theories use.

  A \<^typ>\<open>string\<close> is a list of \<^typ>\<open>char\<close>, and a \<^typ>\<open>char\<close> is read as the Unicode code
  point with its number, so the model's strings are the Python strings over the code points
  0 to 255. \<open>is_space\<close>, \<open>lower_char\<close> and their kin are \<^verbatim>\<open>str.isspace\<close>,
  \<^verbatim>\<open>str.lower\<close> on exactly these code points. Modules whose behaviour depends on larger
  code points (\<open>TextTruncate\<close>) work on lists of code points instead.
\<close>

section \<open>Collections of facts\<close>

named_theorems py_defs \<open>definitions of the small Python helpers, for unfolding\<close>
named_theorems py_simps \<open>rewrite rules on results, strings and dictionaries\<close>

section \<open>Exceptions and results\<close>

text \<open>
  The error codes of \<^verbatim>\<open>harness_types.py\<close> and the exceptions the code raises. The codes of
  \<^verbatim>\<open>BranchSummaryError\<close> are those of \<^verbatim>\<open>CompactionError\<close> without \<open>unknown\<close>.
\<close>

datatype session_error_code =
    NotFound | InvalidSession | InvalidEntry | InvalidForkTarget | StorageCode | UnknownSessionCode

datatype compaction_error_code =
    CompactionAborted | SummarizationFailed | CompactionInvalidSession | CompactionUnknown

datatype harness_error_code =
    BusyCode | InvalidStateCode | InvalidArgumentCode | SessionFailure | HookFailure | AuthFailure
  | CompactionFailure | BranchSummaryFailure | UnknownFailure

datatype pyexn =
    PyTypeError
  | PyAttributeError string
  | PyKeyError
  | PyIndexError
  | PyValueError
  | SessionError session_error_code string
  | CompactionError compaction_error_code string
  | BranchSummaryError compaction_error_code string
  | ToolPlanContractError string string string
  | AgentHarnessError harness_error_code string
  | PyRuntimeError string
  | PlainException string

type_synonym 'a res = "pyexn + 'a"

definition bind_res :: "'a res \<Rightarrow> ('a \<Rightarrow> 'b res) \<Rightarrow> 'b res" where
  "bind_res m f = (case m of Inl e \<Rightarrow> Inl e | Inr x \<Rightarrow> f x)"

fun map_res :: "('a \<Rightarrow> 'b res) \<Rightarrow> 'a list \<Rightarrow> 'b list res" where
  "map_res f [] = Inr []"
| "map_res f (x # xs) =
     bind_res (f x) (\<lambda>y. bind_res (map_res f xs) (\<lambda>ys. Inr (y # ys)))"

fun fold_res :: "('a \<Rightarrow> 's \<Rightarrow> 's res) \<Rightarrow> 'a list \<Rightarrow> 's \<Rightarrow> 's res" where
  "fold_res f [] s = Inr s"
| "fold_res f (x # xs) s = bind_res (f x s) (fold_res f xs)"

lemma bind_res_Inl [simp]: "bind_res (Inl e) f = Inl e"
  by (simp add: bind_res_def)

lemma bind_res_Inr [simp]: "bind_res (Inr x) f = f x"
  by (simp add: bind_res_def)

lemma bind_res_eq_Inr: "bind_res m f = Inr y \<longleftrightarrow> (\<exists>x. m = Inr x \<and> f x = Inr y)"
  by (cases m) auto

lemma bind_res_eq_Inl:
  "bind_res m f = Inl e \<longleftrightarrow> m = Inl e \<or> (\<exists>x. m = Inr x \<and> f x = Inl e)"
  by (cases m) auto

lemma bind_res_split:
  "P (bind_res m f) \<longleftrightarrow> (\<forall>e. m = Inl e \<longrightarrow> P (Inl e)) \<and> (\<forall>x. m = Inr x \<longrightarrow> P (f x))"
  by (cases m) auto

lemma bind_res_assoc: "bind_res (bind_res m f) g = bind_res m (\<lambda>x. bind_res (f x) g)"
  by (cases m) auto

lemma bind_res_cong [fundef_cong]:
  "m = m' \<Longrightarrow> (\<And>x. m' = Inr x \<Longrightarrow> f x = f' x) \<Longrightarrow> bind_res m f = bind_res m' f'"
  by (cases m') auto

lemma map_res_length: "map_res f xs = Inr ys \<Longrightarrow> length ys = length xs"
  by (induction xs arbitrary: ys) (auto simp: bind_res_eq_Inr)

lemma map_res_total:
  "(\<And>x. x \<in> set xs \<Longrightarrow> f x = Inr (g x)) \<Longrightarrow> map_res f xs = Inr (map g xs)"
  by (induction xs) auto

lemma map_res_append:
  "map_res f (xs @ ys) =
     bind_res (map_res f xs) (\<lambda>us. bind_res (map_res f ys) (\<lambda>vs. Inr (us @ vs)))"
  by (induction xs) (auto simp: bind_res_assoc bind_res_def split: sum.splits)

lemma map_res_set:
  "map_res f xs = Inr ys \<Longrightarrow> y \<in> set ys \<Longrightarrow> \<exists>x\<in>set xs. f x = Inr y"
  by (induction xs arbitrary: ys) (auto simp: bind_res_eq_Inr)

lemma fold_res_append:
  "fold_res f (xs @ ys) s = bind_res (fold_res f xs s) (fold_res f ys)"
  by (induction xs arbitrary: s) (auto simp: bind_res_assoc bind_res_def split: sum.splits)

lemma fold_res_invariant:
  assumes "fold_res f xs s = Inr t" and "I s"
    and "\<And>x s s'. x \<in> set xs \<Longrightarrow> I s \<Longrightarrow> f x s = Inr s' \<Longrightarrow> I s'"
  shows "I t"
  using assms
proof (induction xs arbitrary: s)
  case (Cons x xs)
  from Cons.prems(1) obtain s' where s': "f x s = Inr s'" "fold_res f xs s' = Inr t"
    by (auto simp: bind_res_eq_Inr)
  with Cons.prems have "I s'" by (meson list.set_intros(1))
  with s' Cons show ?case by (meson list.set_intros(2))
qed simp

section \<open>Characters and strings\<close>

definition ord_char :: "char \<Rightarrow> nat" where
  "ord_char c = of_char c"

text \<open>\<^verbatim>\<open>str.isspace\<close> on the code points below 256.\<close>

definition is_space :: "char \<Rightarrow> bool" where
  "is_space c =
     (let n = ord_char c
      in (9 \<le> n \<and> n \<le> 13) \<or> (28 \<le> n \<and> n \<le> 32) \<or> n = 133 \<or> n = 160)"

definition lower_char :: "char \<Rightarrow> char" where
  "lower_char c =
     (let n = ord_char c
      in if (65 \<le> n \<and> n \<le> 90) \<or> (192 \<le> n \<and> n \<le> 222 \<and> n \<noteq> 215)
         then char_of (n + 32) else c)"

definition is_ascii_lower :: "char \<Rightarrow> bool" where
  "is_ascii_lower c = (97 \<le> ord_char c \<and> ord_char c \<le> 122)"

definition is_ascii_upper :: "char \<Rightarrow> bool" where
  "is_ascii_upper c = (65 \<le> ord_char c \<and> ord_char c \<le> 90)"

definition is_digit :: "char \<Rightarrow> bool" where
  "is_digit c = (48 \<le> ord_char c \<and> ord_char c \<le> 57)"

definition py_lower :: "string \<Rightarrow> string" where
  "py_lower s = map lower_char s"

definition lstrip_with :: "('a \<Rightarrow> bool) \<Rightarrow> 'a list \<Rightarrow> 'a list" where
  "lstrip_with p s = dropWhile p s"

definition rstrip_with :: "('a \<Rightarrow> bool) \<Rightarrow> 'a list \<Rightarrow> 'a list" where
  "rstrip_with p s = rev (dropWhile p (rev s))"

definition strip_with :: "('a \<Rightarrow> bool) \<Rightarrow> 'a list \<Rightarrow> 'a list" where
  "strip_with p s = rstrip_with p (lstrip_with p s)"

text \<open>\<^verbatim>\<open>s.strip()\<close>\<close>

definition py_strip :: "string \<Rightarrow> string" where
  "py_strip s = strip_with is_space s"

definition py_startswith :: "'a list \<Rightarrow> 'a list \<Rightarrow> bool" where
  "py_startswith s p = (take (length p) s = p)"

definition py_endswith :: "'a list \<Rightarrow> 'a list \<Rightarrow> bool" where
  "py_endswith s p = py_startswith (rev s) (rev p)"

text \<open>\<^verbatim>\<open>s.find(p)\<close>: the first position, \<^term>\<open>None\<close> for Python's \<open>-1\<close>.\<close>

fun py_find :: "'a list \<Rightarrow> 'a list \<Rightarrow> nat option" where
  "py_find [] p = (if p = [] then Some 0 else None)"
| "py_find (c # s) p =
     (if py_startswith (c # s) p then Some 0 else map_option Suc (py_find s p))"

text \<open>\<^verbatim>\<open>s.split(c)\<close> for a one-character separator, and \<^verbatim>\<open>sep.join(xs)\<close>.\<close>

fun py_split :: "'a \<Rightarrow> 'a list \<Rightarrow> 'a list list" where
  "py_split c [] = [[]]"
| "py_split c (x # s) =
     (if x = c then [] # py_split c s
      else (case py_split c s of [] \<Rightarrow> [[x]] | w # ws \<Rightarrow> (x # w) # ws))"

fun py_join :: "'a list \<Rightarrow> 'a list list \<Rightarrow> 'a list" where
  "py_join sep [] = []"
| "py_join sep [x] = x"
| "py_join sep (x # y # ys) = x @ sep @ py_join sep (y # ys)"

abbreviation newline :: char where
  "newline \<equiv> CHR 0x0A"

abbreviation nl :: string where
  "nl \<equiv> [newline]"

text \<open>Decimal notation, \<^verbatim>\<open>str(n)\<close>.\<close>

fun digits_of :: "nat \<Rightarrow> string" where
  "digits_of n =
     (if n < 10 then [char_of (48 + n)] else digits_of (n div 10) @ [char_of (48 + n mod 10)])"

declare digits_of.simps [simp del]

definition str_of_int :: "int \<Rightarrow> string" where
  "str_of_int i = (if i < 0 then ''-'' @ digits_of (nat (- i)) else digits_of (nat i))"

definition str_of_nat :: "nat \<Rightarrow> string" where
  "str_of_nat n = digits_of n"

text \<open>Hexadecimal digits, as in the format specification \<^verbatim>\<open>02x\<close> and \<^verbatim>\<open>04x\<close>.\<close>

definition hex_digit :: "nat \<Rightarrow> char" where
  "hex_digit n = (if n < 10 then char_of (48 + n) else char_of (87 + n))"

definition hex2 :: "nat \<Rightarrow> string" where
  "hex2 n = [hex_digit (n div 16 mod 16), hex_digit (n mod 16)]"

lemma hex_digit_simps [simp]:
  "hex_digit 0 = CHR ''0''"
  "hex_digit (Suc 0) = CHR ''1''"
  "hex_digit 2 = CHR ''2''"
  "hex_digit 3 = CHR ''3''"
  "hex_digit 4 = CHR ''4''"
  "hex_digit 5 = CHR ''5''"
  "hex_digit 6 = CHR ''6''"
  "hex_digit 7 = CHR ''7''"
  "hex_digit 8 = CHR ''8''"
  "hex_digit 9 = CHR ''9''"
  "hex_digit 10 = CHR ''a''"
  "hex_digit 11 = CHR ''b''"
  "hex_digit 12 = CHR ''c''"
  "hex_digit 13 = CHR ''d''"
  "hex_digit 14 = CHR ''e''"
  "hex_digit 15 = CHR ''f''"
  by (simp_all add: hex_digit_def char_of_def bit_Suc_0_iff)

subsection \<open>Facts about strings\<close>

lemma py_startswith_append [simp]: "py_startswith (p @ s) p"
  by (simp add: py_startswith_def)

lemma py_startswith_iff: "py_startswith s p \<longleftrightarrow> (\<exists>t. s = p @ t)"
  by (metis append_take_drop_id append_eq_conv_conj py_startswith_def)

lemma py_startswith_Nil [simp]: "py_startswith s []"
  by (simp add: py_startswith_def)

lemma dropWhile_all: "(\<And>x. x \<in> set xs \<Longrightarrow> \<not> p x) \<Longrightarrow> dropWhile p xs = xs"
  by (cases xs) auto

lemma dropWhile_idem [simp]: "dropWhile p (dropWhile p xs) = dropWhile p xs"
  by (induction xs) auto

lemma strip_with_hd_last:
  "strip_with p s = [] \<or> (\<not> p (hd (strip_with p s)) \<and> \<not> p (last (strip_with p s)))"
proof (cases "strip_with p s = []")
  case False
  let ?l = "dropWhile p s"
  let ?r = "dropWhile p (rev ?l)"
  from False have r: "?r \<noteq> []"
    by (simp add: strip_with_def rstrip_with_def lstrip_with_def)
  have last: "\<not> p (last (rev ?r))"
    using r by (simp add: last_rev hd_dropWhile)
  obtain d where d: "rev ?l = d @ ?r"
    by (metis takeWhile_dropWhile_id)
  then have "?l = rev ?r @ rev d"
    by (metis rev_append rev_rev_ident)
  then have "hd (rev ?r) = hd ?l"
    using r by (metis hd_append2 rev_is_Nil_conv)
  moreover have "\<not> p (hd ?l)"
    using r by (metis dropWhile.simps(1) hd_dropWhile rev.simps(1))
  ultimately show ?thesis
    using last by (simp add: strip_with_def rstrip_with_def lstrip_with_def)
qed simp

lemma strip_with_fixpoint:
  "s = [] \<or> (\<not> p (hd s) \<and> \<not> p (last s)) \<Longrightarrow> strip_with p s = s"
  by (auto simp: strip_with_def rstrip_with_def lstrip_with_def hd_rev
       dropWhile_eq_self_iff [THEN iffD2])

lemma strip_with_idem [simp]: "strip_with p (strip_with p s) = strip_with p s"
  by (rule strip_with_fixpoint) (rule strip_with_hd_last)

lemma py_strip_idem [simp]: "py_strip (py_strip s) = py_strip s"
  by (simp add: py_strip_def)

lemma py_strip_Nil [simp]: "py_strip [] = []"
  by (simp add: py_strip_def strip_with_def lstrip_with_def rstrip_with_def)

lemma py_strip_hd_last:
  "py_strip s = [] \<or> (\<not> is_space (hd (py_strip s)) \<and> \<not> is_space (last (py_strip s)))"
  unfolding py_strip_def by (rule strip_with_hd_last)

lemma py_strip_fixpoint:
  "s \<noteq> [] \<Longrightarrow> \<not> is_space (hd s) \<Longrightarrow> \<not> is_space (last s) \<Longrightarrow> py_strip s = s"
  unfolding py_strip_def by (rule strip_with_fixpoint) simp

lemma last_py_lower: "s \<noteq> [] \<Longrightarrow> last (py_lower s) = lower_char (last s)"
  by (simp add: py_lower_def last_map)

lemma set_lstrip_with: "set (lstrip_with p s) \<subseteq> set s"
  by (auto simp: lstrip_with_def dest: set_dropWhileD)

lemma set_rstrip_with: "set (rstrip_with p s) \<subseteq> set s"
  by (auto simp: rstrip_with_def dest: set_dropWhileD)

lemma set_strip_with: "set (strip_with p s) \<subseteq> set s"
  using set_rstrip_with set_lstrip_with unfolding strip_with_def by fastforce

lemma strip_with_no_match: "(\<And>x. x \<in> set s \<Longrightarrow> \<not> p x) \<Longrightarrow> strip_with p s = s"
  by (rule strip_with_fixpoint) (cases s; auto)

lemma length_py_lower [simp]: "length (py_lower s) = length s"
  by (simp add: py_lower_def)

lemma py_lower_append [simp]: "py_lower (s @ t) = py_lower s @ py_lower t"
  by (simp add: py_lower_def)

lemma py_lower_Nil [simp]: "py_lower [] = []"
  by (simp add: py_lower_def)

lemma py_lower_eq_Nil [simp]: "py_lower s = [] \<longleftrightarrow> s = []"
  by (simp add: py_lower_def)

lemma ord_char_less [simp]: "ord_char c < 256"
  by (simp add: ord_char_def)

lemma ord_char_char_of [simp]: "n < 256 \<Longrightarrow> ord_char (char_of n) = n"
  by (simp add: ord_char_def)

lemma ord_char_inject [simp]: "ord_char c = ord_char d \<longleftrightarrow> c = d"
  by (simp add: ord_char_def)

lemma ord_lower_char:
  "ord_char (lower_char c) =
     (if (65 \<le> ord_char c \<and> ord_char c \<le> 90)
         \<or> (192 \<le> ord_char c \<and> ord_char c \<le> 222 \<and> ord_char c \<noteq> 215)
      then ord_char c + 32 else ord_char c)"
  by (simp add: lower_char_def Let_def)

lemma lower_char_idem [simp]: "lower_char (lower_char c) = lower_char c"
proof -
  have "ord_char (lower_char (lower_char c)) = ord_char (lower_char c)"
    by (simp add: ord_lower_char)
  then show ?thesis by simp
qed

lemma py_lower_idem [simp]: "py_lower (py_lower s) = py_lower s"
  by (simp add: py_lower_def)

lemma is_space_lower_char [simp]: "is_space (lower_char c) = is_space c"
  by (simp add: is_space_def ord_lower_char Let_def)

lemma dropWhile_map_comp: "dropWhile p (map f xs) = map f (dropWhile (p \<circ> f) xs)"
  by (induction xs) auto

lemma strip_with_map:
  "(\<And>x. p (f x) = p x) \<Longrightarrow> strip_with p (map f s) = map f (strip_with p s)"
proof -
  assume "\<And>x. p (f x) = p x"
  then have "p \<circ> f = p" by auto
  then show ?thesis
    by (simp add: strip_with_def rstrip_with_def lstrip_with_def dropWhile_map_comp rev_map)
qed

lemma py_strip_lower: "py_strip (py_lower s) = py_lower (py_strip s)"
  by (simp add: py_strip_def py_lower_def strip_with_map)

lemma py_split_not_Nil [simp]: "py_split c s \<noteq> []"
  by (cases s) (auto split: list.splits)

lemma py_join_split [simp]: "py_join [c] (py_split c s) = s"
proof (induction s)
  case (Cons x s)
  then show ?case
    by (cases "py_split c s"; cases "tl (py_split c s)") (auto split: list.splits)
qed simp

lemma py_split_no_sep: "w \<in> set (py_split c s) \<Longrightarrow> c \<notin> set w"
  by (induction s arbitrary: w) (auto split: if_splits list.splits)

lemma append_sep_inject:
  "c \<notin> set k \<Longrightarrow> c \<notin> set k' \<Longrightarrow> k @ c # i = k' @ c # i' \<Longrightarrow> k = k' \<and> i = i'"
proof (induction k arbitrary: k')
  case Nil
  then show ?case by (cases k') auto
next
  case (Cons x k)
  then show ?case by (cases k') auto
qed

lemma append_sep_inject_last:
  assumes "c \<notin> set i" "c \<notin> set i'" "k @ c # i = k' @ c # i'"
  shows "k = k' \<and> i = i'"
proof -
  have "rev i @ c # rev k = rev i' @ c # rev k'"
    using arg_cong [OF assms(3), of rev] by simp
  with assms(1,2) have "rev i = rev i' \<and> rev k = rev k'"
    by (intro append_sep_inject) simp_all
  then show ?thesis by simp
qed

lemma py_split_join:
  "xs \<noteq> [] \<Longrightarrow> (\<And>w. w \<in> set xs \<Longrightarrow> c \<notin> set w) \<Longrightarrow> py_split c (py_join [c] xs) = xs"
proof (induction xs rule: induct_list012)
  case (2 x)
  have "c \<notin> set y \<Longrightarrow> py_split c y = [y]" for y
    by (induction y) auto
  with 2 show ?case by simp
next
  case (3 x y zs)
  have aux: "c \<notin> set w \<Longrightarrow> py_split c (w @ c # r) = w # py_split c r" for w r
    by (induction w) auto
  from 3 show ?case by (simp add: aux)
qed simp

lemma length_py_join:
  "length (py_join sep xs) = sum_list (map length xs) + length sep * (length xs - 1)"
  by (induction sep xs rule: py_join.induct) auto

lemma digits_of_nonempty [simp]: "digits_of n \<noteq> []"
  by (subst digits_of.simps) simp

lemma digits_of_digits: "c \<in> set (digits_of n) \<Longrightarrow> is_digit c"
proof (induction n rule: digits_of.induct)
  case (1 n)
  have small: "m < 10 \<Longrightarrow> is_digit (char_of (48 + m))" for m :: nat
    by (simp add: is_digit_def)
  show ?case
  proof (cases "n < 10")
    case True
    with "1.prems" small show ?thesis by (simp add: digits_of.simps [of n])
  next
    case False
    with 1 small [of "n mod 10"] show ?thesis
      by (auto simp: digits_of.simps [of n])
  qed
qed

section \<open>Dictionaries in insertion order\<close>

text \<open>
  Where the order of a \<^verbatim>\<open>dict\<close> is observable (iteration, lists built from
  \<^verbatim>\<open>items()\<close>), it is an association list without repeated keys: assigning to a key that
  is present keeps its position, a new key goes to the end. Where only lookups matter the
  component theories use maps.
\<close>

type_synonym ('k, 'v) dict = "('k \<times> 'v) list"

definition dict_get :: "('k, 'v) dict \<Rightarrow> 'k \<Rightarrow> 'v option" where
  "dict_get d k = map_of d k"

fun dict_set :: "('k, 'v) dict \<Rightarrow> 'k \<Rightarrow> 'v \<Rightarrow> ('k, 'v) dict" where
  "dict_set [] k v = [(k, v)]"
| "dict_set ((k', v') # d) k v =
     (if k' = k then (k, v) # d else (k', v') # dict_set d k v)"

definition dict_keys :: "('k, 'v) dict \<Rightarrow> 'k list" where
  "dict_keys d = map fst d"

definition dict_ok :: "('k, 'v) dict \<Rightarrow> bool" where
  "dict_ok d = distinct (map fst d)"

lemma dict_get_Nil [simp]: "dict_get [] k = None"
  by (simp add: dict_get_def)

lemma dict_get_Cons [simp]:
  "dict_get ((k', v) # d) k = (if k' = k then Some v else dict_get d k)"
  by (simp add: dict_get_def)

lemma dict_get_set [simp]:
  "dict_get (dict_set d k v) k' = (if k' = k then Some v else dict_get d k')"
  by (induction d k v rule: dict_set.induct) auto

lemma dict_set_keys: "fst ` set (dict_set d k v) = insert k (fst ` set d)"
  by (induction d k v rule: dict_set.induct) auto

lemma dict_set_ok [simp]: "dict_ok d \<Longrightarrow> dict_ok (dict_set d k v)"
  unfolding dict_ok_def
  by (induction d k v rule: dict_set.induct) (auto simp: dict_set_keys)

lemma dict_get_None: "dict_get d k = None \<longleftrightarrow> k \<notin> set (map fst d)"
  by (simp add: dict_get_def map_of_eq_None_iff)

lemma dict_get_in_set: "dict_get d k = Some v \<Longrightarrow> (k, v) \<in> set d"
  by (simp add: dict_get_def map_of_SomeD)

section \<open>Lists\<close>

text \<open>Python's \<^verbatim>\<open>xs[i:]\<close>, \<^verbatim>\<open>xs[:i]\<close> for a possibly negative \<open>i\<close>.\<close>

definition slice_from :: "'a list \<Rightarrow> int \<Rightarrow> 'a list" where
  "slice_from xs i =
     (if 0 \<le> i then drop (nat i) xs else drop (length xs - nat (- i)) xs)"

definition slice_upto :: "'a list \<Rightarrow> int \<Rightarrow> 'a list" where
  "slice_upto xs i =
     (if 0 \<le> i then take (nat i) xs else take (length xs - nat (- i)) xs)"

text \<open>The first index that satisfies a predicate: \<^verbatim>\<open>next((i for i, e in enumerate(xs) if p(e)), -1)\<close>.\<close>

fun find_index :: "('a \<Rightarrow> bool) \<Rightarrow> 'a list \<Rightarrow> nat option" where
  "find_index p [] = None"
| "find_index p (x # xs) = (if p x then Some 0 else map_option Suc (find_index p xs))"

lemma find_index_Some:
  "find_index p xs = Some i \<Longrightarrow> i < length xs \<and> p (xs ! i) \<and> (\<forall>j<i. \<not> p (xs ! j))"
proof (induction xs arbitrary: i)
  case (Cons x xs)
  show ?case
  proof (cases "p x")
    case True
    with Cons.prems show ?thesis by simp
  next
    case False
    with Cons obtain k where k: "find_index p xs = Some k" "i = Suc k" by auto
    with Cons.IH [of k] False show ?thesis by (auto simp: less_Suc_eq_0_disj)
  qed
qed simp

lemma find_index_None: "find_index p xs = None \<longleftrightarrow> (\<forall>x\<in>set xs. \<not> p x)"
  by (induction xs) auto

lemma find_index_append:
  "find_index p (xs @ ys) =
     (case find_index p xs of Some i \<Rightarrow> Some i
      | None \<Rightarrow> map_option (\<lambda>j. j + length xs) (find_index p ys))"
  by (induction xs) (auto simp: option.map_comp comp_def option.map_ident split: option.splits)

lemma find_index_unique:
  "i < length xs \<Longrightarrow> p (xs ! i) \<Longrightarrow> (\<And>j. j < length xs \<Longrightarrow> p (xs ! j) \<Longrightarrow> j = i) \<Longrightarrow>
   find_index p xs = Some i"
  by (metis find_index_None find_index_Some not_None_eq nth_mem)

end
