(* ===== verification/PyVal.thy ===== *)
theory PyVal
  imports PyPrelude
begin

text \<open>
  Dynamically typed Python values, for the places where the code handles \<^verbatim>\<open>Any\<close> or
  \<^verbatim>\<open>dict[str, Any]\<close>: messages, tool arguments, details, configuration. The operations
  are those of the language and its standard library on such values: truth, \<^verbatim>\<open>isinstance\<close>,
  \<^verbatim>\<open>dict.get\<close>, \<^verbatim>\<open>getattr\<close>, \<^verbatim>\<open>len\<close>, \<^verbatim>\<open>repr\<close> and \<^verbatim>\<open>json.dumps\<close>, each raising what
  Python raises.

  A float is carried by its \<^verbatim>\<open>repr\<close> text, since no modelled code computes with one.
  An instance of a class is \<open>VObj r fields\<close>: its own \<^verbatim>\<open>repr\<close> text and its attributes.
\<close>

datatype pyval =
    VNone
  | VBool bool
  | VInt int
  | VFloat string
  | VStr string
  | VList "pyval list"
  | VDict "(string \<times> pyval) list"
  | VObj string "(string \<times> pyval) list"

section \<open>Truth, types, access\<close>

fun truthy :: "pyval \<Rightarrow> bool" where
  "truthy VNone = False"
| "truthy (VBool b) = b"
| "truthy (VInt i) = (i \<noteq> 0)"
| "truthy (VFloat r) = (r \<noteq> ''0.0'' \<and> r \<noteq> ''-0.0'')"
| "truthy (VStr s) = (s \<noteq> [])"
| "truthy (VList xs) = (xs \<noteq> [])"
| "truthy (VDict d) = (d \<noteq> [])"
| "truthy (VObj r fs) = True"

text \<open>\<open>a or b\<close> for values.\<close>

definition py_or :: "pyval \<Rightarrow> pyval \<Rightarrow> pyval" where
  "py_or a b = (if truthy a then a else b)"

fun is_str :: "pyval \<Rightarrow> bool" where
  "is_str (VStr s) = True"
| "is_str _ = False"

fun is_dict :: "pyval \<Rightarrow> bool" where
  "is_dict (VDict d) = True"
| "is_dict _ = False"

fun is_list :: "pyval \<Rightarrow> bool" where
  "is_list (VList xs) = True"
| "is_list _ = False"

text \<open>The content of a value whose type the code has just tested.\<close>

fun the_str :: "pyval \<Rightarrow> string" where
  "the_str (VStr s) = s"
| "the_str _ = []"

fun the_list :: "pyval \<Rightarrow> pyval list" where
  "the_list (VList xs) = xs"
| "the_list _ = []"

fun the_dict :: "pyval \<Rightarrow> (string \<times> pyval) list" where
  "the_dict (VDict d) = d"
| "the_dict _ = []"

text \<open>\<^verbatim>\<open>v.get(k)\<close>: only dictionaries have the method.\<close>

fun py_get :: "pyval \<Rightarrow> string \<Rightarrow> pyval res" where
  "py_get (VDict d) k = Inr (case map_of d k of None \<Rightarrow> VNone | Some v \<Rightarrow> v)"
| "py_get v k = Inl (PyAttributeError ''get'')"

text \<open>\<^verbatim>\<open>v.get(k, dflt)\<close>\<close>

fun py_get_default :: "pyval \<Rightarrow> string \<Rightarrow> pyval \<Rightarrow> pyval res" where
  "py_get_default (VDict d) k dflt = Inr (case map_of d k of None \<Rightarrow> dflt | Some v \<Rightarrow> v)"
| "py_get_default v k dflt = Inl (PyAttributeError ''get'')"

text \<open>\<^verbatim>\<open>getattr(v, k, dflt)\<close> and \<^verbatim>\<open>hasattr(v, k)\<close> on instances; the built-in types
  have none of the attributes the code asks for.\<close>

fun py_getattr :: "pyval \<Rightarrow> string \<Rightarrow> pyval \<Rightarrow> pyval" where
  "py_getattr (VObj r fs) k dflt = (case map_of fs k of None \<Rightarrow> dflt | Some v \<Rightarrow> v)"
| "py_getattr _ k dflt = dflt"

fun py_hasattr :: "pyval \<Rightarrow> string \<Rightarrow> bool" where
  "py_hasattr (VObj r fs) k = (map_of fs k \<noteq> None)"
| "py_hasattr _ k = False"

text \<open>\<^verbatim>\<open>v.k\<close>\<close>

definition py_attr :: "pyval \<Rightarrow> string \<Rightarrow> pyval res" where
  "py_attr v k =
     (if py_hasattr v k then Inr (py_getattr v k VNone) else Inl (PyAttributeError k))"

text \<open>\<^verbatim>\<open>k in d\<close> for a dictionary.\<close>

fun py_has_key :: "pyval \<Rightarrow> string \<Rightarrow> bool" where
  "py_has_key (VDict d) k = (map_of d k \<noteq> None)"
| "py_has_key _ k = False"

fun py_len :: "pyval \<Rightarrow> nat res" where
  "py_len (VStr s) = Inr (length s)"
| "py_len (VList xs) = Inr (length xs)"
| "py_len (VDict d) = Inr (length d)"
| "py_len _ = Inl PyTypeError"

text \<open>Iterating over a value, as in a \<^verbatim>\<open>for\<close> loop.\<close>

fun py_iter :: "pyval \<Rightarrow> pyval list res" where
  "py_iter (VList xs) = Inr xs"
| "py_iter (VStr s) = Inr (map (\<lambda>c. VStr [c]) s)"
| "py_iter (VDict d) = Inr (map (VStr \<circ> fst) d)"
| "py_iter _ = Inl PyTypeError"

text \<open>A value where only a string does (concatenation, \<^verbatim>\<open>str.join\<close>).\<close>

fun need_str :: "pyval \<Rightarrow> string res" where
  "need_str (VStr s) = Inr s"
| "need_str _ = Inl PyTypeError"

section \<open>\<^verbatim>\<open>repr\<close>, \<^verbatim>\<open>str\<close> and \<^verbatim>\<open>json.dumps\<close>\<close>

definition unicode_escape :: "char \<Rightarrow> string" where
  "unicode_escape c = (CHR 0x5C # ''u00'') @ hex2 (ord_char c)"

definition json_char :: "char \<Rightarrow> string" where
  "json_char c =
     (let n = ord_char c in
      if n = 34 then [CHR 0x5C, CHR 0x22]
      else if n = 92 then [CHR 0x5C, CHR 0x5C]
      else if n = 10 then [CHR 0x5C, CHR ''n'']
      else if n = 13 then [CHR 0x5C, CHR ''r'']
      else if n = 9 then [CHR 0x5C, CHR ''t'']
      else if n = 12 then [CHR 0x5C, CHR ''f'']
      else if n = 8 then [CHR 0x5C, CHR ''b'']
      else if 32 \<le> n \<and> n \<le> 126 then [c]
      else unicode_escape c)"

definition json_string :: "string \<Rightarrow> string" where
  "json_string s = [CHR 0x22] @ concat (map json_char s) @ [CHR 0x22]"

definition json_float :: "string \<Rightarrow> string" where
  "json_float r =
     (if r = ''nan'' then ''NaN'' else if r = ''inf'' then ''Infinity''
      else if r = ''-inf'' then ''-Infinity'' else r)"

fun json_dumps :: "pyval \<Rightarrow> string res"
  and json_items :: "pyval list \<Rightarrow> string list res"
  and json_pairs :: "(string \<times> pyval) list \<Rightarrow> string list res" where
  "json_dumps VNone = Inr ''null''"
| "json_dumps (VBool b) = Inr (if b then ''true'' else ''false'')"
| "json_dumps (VInt i) = Inr (str_of_int i)"
| "json_dumps (VFloat r) = Inr (json_float r)"
| "json_dumps (VStr s) = Inr (json_string s)"
| "json_dumps (VList xs) =
     bind_res (json_items xs) (\<lambda>ps. Inr (''['' @ py_join '', '' ps @ '']''))"
| "json_dumps (VDict d) =
     bind_res (json_pairs d) (\<lambda>ps. Inr (''{'' @ py_join '', '' ps @ ''}''))"
| "json_dumps (VObj r fs) = Inl PyTypeError"
| "json_items [] = Inr []"
| "json_items (v # vs) =
     bind_res (json_dumps v) (\<lambda>p. bind_res (json_items vs) (\<lambda>ps. Inr (p # ps)))"
| "json_pairs [] = Inr []"
| "json_pairs ((k, v) # d) =
     bind_res (json_dumps v)
       (\<lambda>p. bind_res (json_pairs d) (\<lambda>ps. Inr ((json_string k @ '': '' @ p) # ps)))"

definition repr_char :: "char \<Rightarrow> char \<Rightarrow> string" where
  "repr_char q c =
     (let n = ord_char c in
      if c = q then [CHR 0x5C, c]
      else if n = 92 then [CHR 0x5C, CHR 0x5C]
      else if n = 10 then [CHR 0x5C, CHR ''n'']
      else if n = 13 then [CHR 0x5C, CHR ''r'']
      else if n = 9 then [CHR 0x5C, CHR ''t'']
      else if n < 32 \<or> (127 \<le> n \<and> n \<le> 160) \<or> n = 173 then (CHR 0x5C # ''x'') @ hex2 n
      else [c])"

definition repr_string :: "string \<Rightarrow> string" where
  "repr_string s =
     (let q = (if CHR 0x27 \<in> set s \<and> CHR 0x22 \<notin> set s then CHR 0x22 else CHR 0x27)
      in [q] @ concat (map (repr_char q) s) @ [q])"

fun py_repr :: "pyval \<Rightarrow> string"
  and repr_items :: "pyval list \<Rightarrow> string list"
  and repr_pairs :: "(string \<times> pyval) list \<Rightarrow> string list" where
  "py_repr VNone = ''None''"
| "py_repr (VBool b) = (if b then ''True'' else ''False'')"
| "py_repr (VInt i) = str_of_int i"
| "py_repr (VFloat r) = r"
| "py_repr (VStr s) = repr_string s"
| "py_repr (VList xs) = ''['' @ py_join '', '' (repr_items xs) @ '']''"
| "py_repr (VDict d) = ''{'' @ py_join '', '' (repr_pairs d) @ ''}''"
| "py_repr (VObj r fs) = r"
| "repr_items [] = []"
| "repr_items (v # vs) = py_repr v # repr_items vs"
| "repr_pairs [] = []"
| "repr_pairs ((k, v) # d) = (repr_string k @ '': '' @ py_repr v) # repr_pairs d"

text \<open>\<^verbatim>\<open>str(v)\<close>, and a value inside an f-string.\<close>

fun py_str :: "pyval \<Rightarrow> string" where
  "py_str (VStr s) = s"
| "py_str v = py_repr v"

section \<open>Facts\<close>

lemma truthy_VDict_Cons [simp]: "truthy (VDict (p # d))"
  by simp

lemma py_get_dict [simp]: "is_dict v \<Longrightarrow> \<exists>w. py_get v k = Inr w"
  by (cases v) auto

lemma is_dict_iff: "is_dict v \<longleftrightarrow> (\<exists>d. v = VDict d)"
  by (cases v) auto

lemma is_str_iff: "is_str v \<longleftrightarrow> (\<exists>s. v = VStr s)"
  by (cases v) auto

lemma is_list_iff: "is_list v \<longleftrightarrow> (\<exists>xs. v = VList xs)"
  by (cases v) auto

text \<open>Values that \<^verbatim>\<open>json.dumps\<close> can write: no instance anywhere in them.\<close>

fun json_ok :: "pyval \<Rightarrow> bool"
  and json_ok_items :: "pyval list \<Rightarrow> bool"
  and json_ok_pairs :: "(string \<times> pyval) list \<Rightarrow> bool" where
  "json_ok VNone = True"
| "json_ok (VBool b) = True"
| "json_ok (VInt i) = True"
| "json_ok (VFloat r) = True"
| "json_ok (VStr s) = True"
| "json_ok (VList xs) = json_ok_items xs"
| "json_ok (VDict d) = json_ok_pairs d"
| "json_ok (VObj r fs) = False"
| "json_ok_items [] = True"
| "json_ok_items (v # vs) = (json_ok v \<and> json_ok_items vs)"
| "json_ok_pairs [] = True"
| "json_ok_pairs ((k, v) # d) = (json_ok v \<and> json_ok_pairs d)"

lemma json_dumps_total:
  "(json_ok v \<longleftrightarrow> (\<exists>s. json_dumps v = Inr s))"
  "(json_ok_items vs \<longleftrightarrow> (\<exists>ss. json_items vs = Inr ss))"
  "(json_ok_pairs d \<longleftrightarrow> (\<exists>ss. json_pairs d = Inr ss))"
  by (induction v and vs and d rule: json_dumps_json_items_json_pairs.induct)
     (auto simp: bind_res_eq_Inr)

end
