(* ===== verification/HarnessTypes.thy ===== *)
theory HarnessTypes
  imports PyVal
begin

text \<open>
  The data of the agent harness: session tree entries (\<^verbatim>\<open>harness_types.py\<close>), the agent
  messages built from them and their conversion to model messages (\<^verbatim>\<open>messages.py\<close>),
  and the session timestamps (\<^verbatim>\<open>session/timestamps.py\<close>). An agent message is a Python
  dictionary, so it is a \<^typ>\<open>pyval\<close>; an entry is a record with the base fields and a
  datatype with the fields of its dataclass.

  \<^verbatim>\<open>datetime.fromisoformat\<close> (with the conversion to milliseconds that follows it) and the
  truncation of a float are parameters, the fields of \<open>pylib\<close>.
\<close>

record pylib =
  lib_iso_ms :: "string \<Rightarrow> int option"
  lib_float_trunc :: "string \<Rightarrow> int res"

section \<open>Session tree entries\<close>

datatype append_mode = Side

datatype entry_body =
    MessageE (me_message: pyval)
  | ThinkingLevelChangeE (tl_thinkingLevel: string)
  | ModelChangeE (mc_provider: string) (mc_modelId: string)
  | CompactionE (ce_summary: string) (ce_firstKeptEntryId: string) (ce_tokensBefore: int)
      (ce_details: pyval) (ce_fromHook: "bool option")
  | BranchSummaryE (bs_fromId: string) (bs_summary: string) (bs_details: pyval)
      (bs_fromHook: "bool option")
  | CustomE (cu_customType: string) (cu_data: pyval)
  | CustomMessageE (cm_customType: string) (cm_content: pyval) (cm_details: pyval) (cm_display: bool)
  | LabelE (la_targetId: string) (la_label: "string option")
  | SessionInfoE (si_name: "string option")
  | LeafE (le_targetId: "string option") (le_appendParentId: "string option")

record session_tree_entry =
  e_id :: string
  e_parentId :: "string option"
  e_timestamp :: string
  e_appendMode :: "append_mode option"
  e_body :: entry_body

text \<open>The tag \<open>type\<close> of an entry, which the code compares with string literals.\<close>

definition entry_type :: "session_tree_entry \<Rightarrow> string" where
  "entry_type e =
     (case e_body e of
        MessageE _ \<Rightarrow> ''message''
      | ThinkingLevelChangeE _ \<Rightarrow> ''thinking_level_change''
      | ModelChangeE _ _ \<Rightarrow> ''model_change''
      | CompactionE _ _ _ _ _ \<Rightarrow> ''compaction''
      | BranchSummaryE _ _ _ _ \<Rightarrow> ''branch_summary''
      | CustomE _ _ \<Rightarrow> ''custom''
      | CustomMessageE _ _ _ _ \<Rightarrow> ''custom_message''
      | LabelE _ _ \<Rightarrow> ''label''
      | SessionInfoE _ \<Rightarrow> ''session_info''
      | LeafE _ _ \<Rightarrow> ''leaf'')"

definition is_leaf :: "session_tree_entry \<Rightarrow> bool" where
  "is_leaf e = (entry_type e = ''leaf'')"

definition is_compaction :: "session_tree_entry \<Rightarrow> bool" where
  "is_compaction e = (entry_type e = ''compaction'')"

record session_context =
  sc_messages :: "pyval list"
  sc_thinkingLevel :: string
  sc_model :: "(pyval \<times> pyval) option"

record session_metadata =
  md_id :: string
  md_createdAt :: string

record compaction_settings =
  cs_enabled :: bool
  cs_reserveTokens :: int
  cs_keepRecentTokens :: int

section \<open>Timestamps\<close>

definition parse_session_timestamp_ms :: "pylib \<Rightarrow> pyval \<Rightarrow> int option" where
  "parse_session_timestamp_ms L v =
     (case v of
        VStr s \<Rightarrow> (let trimmed = py_strip s in if trimmed = [] then None else lib_iso_ms L trimmed)
      | VInt i \<Rightarrow> (if i < 0 then None else Some i)
      | VBool b \<Rightarrow> Some (if b then 1 else 0)
      | VFloat r \<Rightarrow>
          (case lib_float_trunc L r of Inl _ \<Rightarrow> None | Inr i \<Rightarrow> if i < 0 then None else Some i)
      | _ \<Rightarrow> None)"

definition require_session_timestamp_ms :: "pylib \<Rightarrow> string \<Rightarrow> string \<Rightarrow> int res" where
  "require_session_timestamp_ms L v lbl =
     (case parse_session_timestamp_ms L (VStr v) of
        None \<Rightarrow> Inl (PlainException (lbl @ '' must be a valid timestamp''))
      | Some i \<Rightarrow> Inr i)"

section \<open>Messages made from entries\<close>

definition COMPACTION_SUMMARY_PREFIX :: string where
  "COMPACTION_SUMMARY_PREFIX =
     ''The conversation history before this point was compacted into the following summary:''
       @ nl @ nl @ ''<summary>'' @ nl"

definition COMPACTION_SUMMARY_SUFFIX :: string where
  "COMPACTION_SUMMARY_SUFFIX = nl @ ''</summary>''"

definition BRANCH_SUMMARY_PREFIX :: string where
  "BRANCH_SUMMARY_PREFIX =
     ''The following is a summary of a branch that this conversation came back from:''
       @ nl @ nl @ ''<summary>'' @ nl"

definition BRANCH_SUMMARY_SUFFIX :: string where
  "BRANCH_SUMMARY_SUFFIX = ''</summary>''"

definition create_branch_summary_message ::
  "pylib \<Rightarrow> string \<Rightarrow> string \<Rightarrow> string \<Rightarrow> pyval res" where
  "create_branch_summary_message L smry from_id ts =
     bind_res (require_session_timestamp_ms L ts ''branch summary timestamp'')
       (\<lambda>ms. Inr (VDict [(''role'', VStr ''branchSummary''), (''summary'', VStr smry),
                         (''fromId'', VStr from_id), (''timestamp'', VInt ms)]))"

definition create_compaction_summary_message ::
  "pylib \<Rightarrow> string \<Rightarrow> int \<Rightarrow> string \<Rightarrow> pyval res" where
  "create_compaction_summary_message L smry tokens_before ts =
     bind_res (require_session_timestamp_ms L ts ''compaction summary timestamp'')
       (\<lambda>ms. Inr (VDict [(''role'', VStr ''compactionSummary''), (''summary'', VStr smry),
                         (''tokensBefore'', VInt tokens_before), (''timestamp'', VInt ms)]))"

definition create_custom_message ::
  "pylib \<Rightarrow> string \<Rightarrow> pyval \<Rightarrow> bool \<Rightarrow> pyval \<Rightarrow> string \<Rightarrow> pyval res" where
  "create_custom_message L custom_type content display details ts =
     bind_res (require_session_timestamp_ms L ts ''custom message timestamp'')
       (\<lambda>ms. Inr (VDict [(''role'', VStr ''custom''), (''customType'', VStr custom_type),
                         (''content'', content), (''display'', VBool display),
                         (''details'', details), (''timestamp'', VInt ms)]))"

section \<open>Conversion to model messages\<close>

definition normalize_compaction_summary_timestamp :: "pylib \<Rightarrow> pyval \<Rightarrow> int res" where
  "normalize_compaction_summary_timestamp L ts =
     (case ts of
        VInt i \<Rightarrow> Inr i
      | VBool b \<Rightarrow> Inr (if b then 1 else 0)
      | VFloat r \<Rightarrow> lib_float_trunc L r
      | _ \<Rightarrow> (case parse_session_timestamp_ms L ts of None \<Rightarrow> Inr 0 | Some i \<Rightarrow> Inr i))"

text \<open>\<^verbatim>\<open>x not in (None, 0)\<close> for an exit code: \<^verbatim>\<open>False\<close> and \<^verbatim>\<open>0.0\<close> equal zero too.\<close>

fun not_none_or_zero :: "pyval \<Rightarrow> bool" where
  "not_none_or_zero VNone = False"
| "not_none_or_zero (VInt i) = (i \<noteq> 0)"
| "not_none_or_zero (VBool b) = b"
| "not_none_or_zero (VFloat r) = truthy (VFloat r)"
| "not_none_or_zero _ = True"

definition bash_execution_to_text :: "pyval \<Rightarrow> string res" where
  "bash_execution_to_text msg =
     bind_res (py_get_default msg ''command'' (VStr [])) (\<lambda>command.
     bind_res (py_get msg ''output'') (\<lambda>output.
     bind_res (py_get msg ''cancelled'') (\<lambda>cancelled.
     bind_res (py_get msg ''exitCode'') (\<lambda>exit_code.
     bind_res (py_get msg ''truncated'') (\<lambda>truncated.
     bind_res (py_get msg ''fullOutputPath'') (\<lambda>full_path.
       let text0 = ''Ran `'' @ py_str command @ ''`'' @ nl;
           text1 = text0 @
             (if truthy output then ''```'' @ nl @ py_str output @ nl @ ''```''
              else ''(no output)'');
           text2 = text1 @
             (if truthy cancelled then nl @ nl @ ''(command cancelled)''
              else if not_none_or_zero exit_code
              then nl @ nl @ ''Command exited with code '' @ py_str exit_code
              else []);
           text3 = text2 @
             (if truthy truncated \<and> truthy full_path
              then nl @ nl @ ''[Output truncated. Full output: '' @ py_str full_path @ '']''
              else [])
       in Inr text3))))))"

text \<open>An instance of \<^verbatim>\<open>TextContent\<close>.\<close>

definition text_content :: "string \<Rightarrow> pyval" where
  "text_content t =
     VObj (''TextContent(type='' @ repr_string ''text'' @ '', text='' @ repr_string t @ '')'')
       [(''type'', VStr ''text''), (''text'', VStr t)]"

definition user_message :: "pyval \<Rightarrow> pyval \<Rightarrow> pyval" where
  "user_message content ts =
     VDict [(''role'', VStr ''user''), (''content'', content), (''timestamp'', ts)]"

text \<open>\<^verbatim>\<open>m.get("role") if isinstance(m, dict) else getattr(m, "role", None)\<close>\<close>

definition message_field :: "pyval \<Rightarrow> string \<Rightarrow> pyval" where
  "message_field m k =
     (case m of
        VDict d \<Rightarrow> (case map_of d k of None \<Rightarrow> VNone | Some v \<Rightarrow> v)
      | _ \<Rightarrow> py_getattr m k VNone)"

definition message_role :: "pyval \<Rightarrow> pyval" where
  "message_role m = message_field m ''role''"

text \<open>One step of the loop: \<open>None\<close> where the message is left out.\<close>

definition convert_one_to_llm :: "pylib \<Rightarrow> pyval \<Rightarrow> pyval option res" where
  "convert_one_to_llm L message =
     (let role = message_role message in
     if role = VStr ''bashExecution'' then
       bind_res (py_get message ''excludeFromContext'') (\<lambda>ex.
       if truthy ex then Inr None
       else
         bind_res (bash_execution_to_text message) (\<lambda>text.
         bind_res (py_get message ''timestamp'') (\<lambda>ts.
         Inr (Some (user_message (VList [text_content text]) ts)))))
     else if role = VStr ''custom'' then
       bind_res (py_get message ''content'') (\<lambda>content.
       bind_res (py_get message ''timestamp'') (\<lambda>ts.
       Inr (Some (user_message
         (case content of VStr s \<Rightarrow> VList [text_content s] | _ \<Rightarrow> content) ts))))
     else if role = VStr ''branchSummary'' then
       bind_res (py_get_default message ''summary'' (VStr [])) (\<lambda>smry.
       bind_res (need_str smry) (\<lambda>s.
       bind_res (py_get message ''timestamp'') (\<lambda>ts.
       Inr (Some (user_message
         (VList [text_content (BRANCH_SUMMARY_PREFIX @ s @ BRANCH_SUMMARY_SUFFIX)]) ts)))))
     else if role = VStr ''compactionSummary'' then
       bind_res (py_get_default message ''summary'' (VStr [])) (\<lambda>smry.
       bind_res (need_str smry) (\<lambda>s.
       bind_res (py_get message ''timestamp'') (\<lambda>ts.
       bind_res (normalize_compaction_summary_timestamp L ts) (\<lambda>ms.
       Inr (Some (user_message
         (VList [text_content (COMPACTION_SUMMARY_PREFIX @ s @ COMPACTION_SUMMARY_SUFFIX)])
         (VInt ms)))))))
     else if role = VStr ''user'' \<or> role = VStr ''assistant'' \<or> role = VStr ''toolResult''
     then Inr (Some message)
     else Inr None)"

fun convert_to_llm :: "pylib \<Rightarrow> pyval list \<Rightarrow> pyval list res" where
  "convert_to_llm L [] = Inr []"
| "convert_to_llm L (m # ms) =
     bind_res (convert_one_to_llm L m) (\<lambda>r.
     bind_res (convert_to_llm L ms) (\<lambda>rs.
     Inr (case r of None \<Rightarrow> rs | Some x \<Rightarrow> x # rs)))"

section \<open>Facts\<close>

lemma entry_type_cases [simp]:
  "e_body e = MessageE m \<Longrightarrow> entry_type e = ''message''"
  "e_body e = ThinkingLevelChangeE t \<Longrightarrow> entry_type e = ''thinking_level_change''"
  "e_body e = ModelChangeE p mid \<Longrightarrow> entry_type e = ''model_change''"
  "e_body e = CompactionE s f tb d h \<Longrightarrow> entry_type e = ''compaction''"
  "e_body e = BranchSummaryE fi s d h \<Longrightarrow> entry_type e = ''branch_summary''"
  "e_body e = CustomE ct x \<Longrightarrow> entry_type e = ''custom''"
  "e_body e = CustomMessageE ct c d bb \<Longrightarrow> entry_type e = ''custom_message''"
  "e_body e = LabelE lt lb \<Longrightarrow> entry_type e = ''label''"
  "e_body e = SessionInfoE nm \<Longrightarrow> entry_type e = ''session_info''"
  "e_body e = LeafE tgt ap \<Longrightarrow> entry_type e = ''leaf''"
  by (simp_all add: entry_type_def)

lemma is_leaf_iff: "is_leaf e \<longleftrightarrow> (\<exists>t a. e_body e = LeafE t a)"
  by (cases "e_body e") (auto simp: is_leaf_def)

lemma is_compaction_iff: "is_compaction e \<longleftrightarrow> (\<exists>s f tb d h. e_body e = CompactionE s f tb d h)"
  by (cases "e_body e") (auto simp: is_compaction_def)

lemma entry_type_message_iff: "entry_type e = ''message'' \<longleftrightarrow> (\<exists>m. e_body e = MessageE m)"
  by (cases "e_body e") (auto simp: entry_type_def)

text \<open>Every message that reaches a model has one of the three roles of the model API.\<close>

definition llm_role_ok :: "pyval \<Rightarrow> bool" where
  "llm_role_ok m \<longleftrightarrow>
     message_role m = VStr ''user'' \<or> message_role m = VStr ''assistant''
     \<or> message_role m = VStr ''toolResult''"

lemma llm_role_ok_user_message [simp]: "llm_role_ok (user_message c t)"
  by (simp add: llm_role_ok_def message_role_def message_field_def user_message_def)

lemma convert_one_role_ok:
  assumes "convert_one_to_llm L m = Inr (Some x)"
  shows "llm_role_ok x"
proof -
  consider "\<exists>c t. x = user_message c t" | "x = m" "llm_role_ok m"
    using assms unfolding convert_one_to_llm_def Let_def
    by (auto simp: bind_res_eq_Inr llm_role_ok_def split: if_split_asm)
  then show ?thesis by cases auto
qed

lemma convert_to_llm_role_ok: "convert_to_llm L ms = Inr xs \<Longrightarrow> x \<in> set xs \<Longrightarrow> llm_role_ok x"
  by (induction ms arbitrary: xs)
     (auto simp: bind_res_eq_Inr split: option.splits dest: convert_one_role_ok)

lemma convert_to_llm_length: "convert_to_llm L ms = Inr xs \<Longrightarrow> length xs \<le> length ms"
  by (induction ms arbitrary: xs) (fastforce simp: bind_res_eq_Inr split: option.splits)+

lemma convert_to_llm_append:
  "convert_to_llm L (ms @ ns) =
     bind_res (convert_to_llm L ms) (\<lambda>xs. bind_res (convert_to_llm L ns) (\<lambda>ys. Inr (xs @ ys)))"
  by (induction ms)
     (auto simp: bind_res_assoc bind_res_def split: sum.splits option.splits)

end
