(* ===== verification/CompactionUtils.thy ===== *)
theory CompactionUtils
  imports HarnessTypes
begin

text \<open>
  \<^verbatim>\<open>compaction/utils.py\<close>: the files that a conversation read and changed, and the text
  form of a conversation that is sent to the summarising model.

  A Python set of strings is a list without repetitions; only membership and \<^verbatim>\<open>sorted\<close>
  are observable.
\<close>

section \<open>File operations\<close>

definition TOOL_RESULT_MAX_CHARS :: nat where
  "TOOL_RESULT_MAX_CHARS = 2000"

record file_operations =
  fo_read :: "string list"
  fo_written :: "string list"
  fo_edited :: "string list"

definition create_file_ops :: file_operations where
  "create_file_ops = \<lparr>fo_read = [], fo_written = [], fo_edited = []\<rparr>"

definition add_file_op :: "pyval \<Rightarrow> string \<Rightarrow> file_operations \<Rightarrow> file_operations" where
  "add_file_op name p ops =
     (if name = VStr ''read'' then ops\<lparr>fo_read := List.insert p (fo_read ops)\<rparr>
      else if name = VStr ''write'' then ops\<lparr>fo_written := List.insert p (fo_written ops)\<rparr>
      else if name = VStr ''edit'' then ops\<lparr>fo_edited := List.insert p (fo_edited ops)\<rparr>
      else ops)"

text \<open>One block of the loop of \<open>extract_file_ops_from_message\<close>.\<close>

definition extract_file_ops_from_block ::
  "pyval \<Rightarrow> file_operations \<Rightarrow> file_operations res" where
  "extract_file_ops_from_block block ops =
     (if \<not> is_dict block then Inr ops
      else
        bind_res (py_get block ''type'') (\<lambda>ty.
        if ty \<noteq> VStr ''toolCall'' then Inr ops
        else if \<not> py_has_key block ''arguments'' \<or> \<not> py_has_key block ''name'' then Inr ops
        else
          bind_res (py_get block ''arguments'') (\<lambda>args.
          if \<not> truthy args then Inr ops
          else
            bind_res (if is_dict args then py_get args ''path'' else Inr VNone) (\<lambda>path.
            if \<not> truthy path \<or> \<not> is_str path then Inr ops
            else
              bind_res (py_get block ''name'') (\<lambda>name.
              Inr (add_file_op name (the_str path) ops))))))"

definition extract_file_ops_from_message ::
  "pyval \<Rightarrow> file_operations \<Rightarrow> file_operations res" where
  "extract_file_ops_from_message message ops =
     bind_res (py_get message ''role'') (\<lambda>role.
     if role \<noteq> VStr ''assistant'' then Inr ops
     else
       bind_res (py_get message ''content'') (\<lambda>content.
       if \<not> is_list content then Inr ops
       else fold_res extract_file_ops_from_block (the_list content) ops))"

definition compute_file_lists :: "file_operations \<Rightarrow> string list \<times> string list" where
  "compute_file_lists ops =
     (let modified = remdups (fo_edited ops @ fo_written ops);
          read_only = sort (filter (\<lambda>f. f \<notin> set modified) (remdups (fo_read ops)))
      in (read_only, sort modified))"

definition format_file_operations :: "string list \<Rightarrow> string list \<Rightarrow> string" where
  "format_file_operations read_files modified_files =
     (let sections =
        (if read_files \<noteq> []
         then [''<read-files>'' @ nl @ py_join nl read_files @ nl @ ''</read-files>''] else [])
        @ (if modified_files \<noteq> []
           then [''<modified-files>'' @ nl @ py_join nl modified_files @ nl @ ''</modified-files>'']
           else [])
      in if sections = [] then [] else nl @ nl @ py_join nl sections)"

section \<open>Conversations as text\<close>

definition safe_json_stringify :: "pyval \<Rightarrow> string" where
  "safe_json_stringify v =
     (if v = VNone then ''undefined''
      else case json_dumps v of Inr s \<Rightarrow> s | Inl _ \<Rightarrow> ''[unserializable]'')"

definition truncate_for_summary :: "string \<Rightarrow> nat \<Rightarrow> string" where
  "truncate_for_summary text max_chars =
     (if length text \<le> max_chars then text
      else take max_chars text @ nl @ nl @ ''[... '' @ str_of_nat (length text - max_chars)
        @ '' more characters truncated]'')"

text \<open>\<open>"".join(text of c for c in content if the type of c is "text")\<close>\<close>

definition block_text :: "pyval \<Rightarrow> string res" where
  "block_text c =
     (if is_dict c then bind_res (py_get_default c ''text'' (VStr [])) need_str
      else need_str (py_getattr c ''text'' (VStr [])))"

fun joined_texts :: "pyval list \<Rightarrow> string res" where
  "joined_texts [] = Inr []"
| "joined_texts (c # cs) =
     (if message_field c ''type'' = VStr ''text''
      then bind_res (block_text c) (\<lambda>t. bind_res (joined_texts cs) (\<lambda>ts. Inr (t @ ts)))
      else joined_texts cs)"

text \<open>The loop over the blocks of an assistant message: texts, thinking parts, tool calls.\<close>

record assistant_parts =
  ap_text :: "pyval list"
  ap_thinking :: "pyval list"
  ap_tool_calls :: "string list"

definition tool_call_args :: "pyval \<Rightarrow> string" where
  "tool_call_args args =
     (case args of
        VDict d \<Rightarrow> py_join '', '' (map (\<lambda>(k, v). k @ ''='' @ safe_json_stringify v) d)
      | _ \<Rightarrow> safe_json_stringify args)"

definition assistant_block :: "pyval \<Rightarrow> assistant_parts \<Rightarrow> assistant_parts res" where
  "assistant_block block ps =
     (if \<not> is_dict block then Inr ps
      else
        bind_res (py_get block ''type'') (\<lambda>ty.
        if ty = VStr ''text'' then
          bind_res (py_get_default block ''text'' (VStr [])) (\<lambda>t.
          Inr (ps\<lparr>ap_text := ap_text ps @ [t]\<rparr>))
        else if ty = VStr ''thinking'' then
          bind_res (py_get_default block ''thinking'' (VStr [])) (\<lambda>t.
          Inr (ps\<lparr>ap_thinking := ap_thinking ps @ [t]\<rparr>))
        else if ty = VStr ''toolCall'' then
          bind_res (py_get_default block ''arguments'' (VDict [])) (\<lambda>args.
          bind_res (py_get block ''name'') (\<lambda>name.
          Inr (ps\<lparr>ap_tool_calls := ap_tool_calls ps @
            [py_str name @ ''('' @ tool_call_args args @ '')'']\<rparr>)))
        else Inr ps))"

definition assistant_sections :: "assistant_parts \<Rightarrow> string list res" where
  "assistant_sections ps =
     bind_res (if ap_thinking ps \<noteq> []
       then bind_res (map_res need_str (ap_thinking ps))
         (\<lambda>ts. Inr [''[Assistant thinking]: '' @ py_join nl ts]) else Inr []) (\<lambda>thinking.
     bind_res (if ap_text ps \<noteq> []
       then bind_res (map_res need_str (ap_text ps))
         (\<lambda>ts. Inr [''[Assistant]: '' @ py_join nl ts]) else Inr []) (\<lambda>texts.
     Inr (thinking @ texts @
       (if ap_tool_calls ps \<noteq> []
        then [''[Assistant tool calls]: '' @ py_join ''; '' (ap_tool_calls ps)] else []))))"

definition serialize_message :: "pyval \<Rightarrow> string list res" where
  "serialize_message msg =
     (let role = message_role msg; content = message_field msg ''content'' in
      if role = VStr ''user'' then
        bind_res (case content of
            VStr s \<Rightarrow> Inr s
          | VList cs \<Rightarrow> joined_texts cs
          | _ \<Rightarrow> Inr []) (\<lambda>text.
        Inr (if text \<noteq> [] then [''[User]: '' @ text] else []))
      else if role = VStr ''assistant'' then
        bind_res (case content of
            VList blocks \<Rightarrow> fold_res assistant_block blocks
              \<lparr>ap_text = [], ap_thinking = [], ap_tool_calls = []\<rparr>
          | _ \<Rightarrow> Inr \<lparr>ap_text = [], ap_thinking = [], ap_tool_calls = []\<rparr>)
          assistant_sections
      else if role = VStr ''toolResult'' then
        bind_res (case content of VList cs \<Rightarrow> joined_texts cs | _ \<Rightarrow> Inr []) (\<lambda>text.
        Inr (if text \<noteq> []
             then [''[Tool result]: '' @ truncate_for_summary text TOOL_RESULT_MAX_CHARS] else []))
      else Inr [])"

fun conversation_parts :: "pyval list \<Rightarrow> string list res" where
  "conversation_parts [] = Inr []"
| "conversation_parts (m # ms) =
     bind_res (serialize_message m) (\<lambda>p. bind_res (conversation_parts ms) (\<lambda>ps. Inr (p @ ps)))"

definition serialize_conversation :: "pyval list \<Rightarrow> string res" where
  "serialize_conversation messages =
     bind_res (conversation_parts messages) (\<lambda>ps. Inr (py_join (nl @ nl) ps))"

section \<open>Facts about file lists\<close>

lemma compute_file_lists_sets:
  "compute_file_lists ops = (r, m) \<Longrightarrow>
     set r = set (fo_read ops) - (set (fo_edited ops) \<union> set (fo_written ops))
     \<and> set m = set (fo_edited ops) \<union> set (fo_written ops)
     \<and> sorted r \<and> sorted m \<and> distinct r \<and> distinct m"
  by (auto simp: compute_file_lists_def Let_def)

text \<open>Collecting from a message only adds files.\<close>

definition file_ops_le :: "file_operations \<Rightarrow> file_operations \<Rightarrow> bool" where
  "file_ops_le a b \<longleftrightarrow>
     set (fo_read a) \<subseteq> set (fo_read b) \<and> set (fo_written a) \<subseteq> set (fo_written b)
     \<and> set (fo_edited a) \<subseteq> set (fo_edited b)"

lemma file_ops_le_refl [simp]: "file_ops_le a a"
  by (simp add: file_ops_le_def)

lemma file_ops_le_trans: "file_ops_le a b \<Longrightarrow> file_ops_le b c \<Longrightarrow> file_ops_le a c"
  by (auto simp: file_ops_le_def)

lemma add_file_op_mono: "file_ops_le ops (add_file_op name p ops)"
  by (auto simp: add_file_op_def file_ops_le_def)

lemma extract_block_mono:
  "extract_file_ops_from_block b ops = Inr ops' \<Longrightarrow> file_ops_le ops ops'"
  using add_file_op_mono
  by (auto simp: extract_file_ops_from_block_def bind_res_eq_Inr split: if_split_asm)

lemma extract_blocks_mono:
  "fold_res extract_file_ops_from_block bs ops = Inr ops' \<Longrightarrow> file_ops_le ops ops'"
  by (induction bs arbitrary: ops) (auto simp: bind_res_eq_Inr dest: extract_block_mono file_ops_le_trans)

lemma extract_message_mono:
  "extract_file_ops_from_message m ops = Inr ops' \<Longrightarrow> file_ops_le ops ops'"
  by (auto simp: extract_file_ops_from_message_def bind_res_eq_Inr
      split: if_split_asm dest: extract_blocks_mono)

lemma extract_messages_mono:
  "fold_res extract_file_ops_from_message ms ops = Inr ops' \<Longrightarrow> file_ops_le ops ops'"
  by (induction ms arbitrary: ops)
     (auto simp: bind_res_eq_Inr dest: extract_message_mono file_ops_le_trans)

lemma extract_role:
  "py_get m ''role'' = Inr r \<Longrightarrow> r \<noteq> VStr ''assistant'' \<Longrightarrow>
   extract_file_ops_from_message m ops = Inr ops"
  by (simp add: extract_file_ops_from_message_def)

section \<open>Facts about the text form\<close>

lemma length_truncate_for_summary_bound:
  "length (truncate_for_summary text n) \<le> n + 37 + length (str_of_nat (length text - n))"
  by (simp add: truncate_for_summary_def)

lemma serialize_message_parts:
  assumes "serialize_message m = Inr ps"
  shows "length ps \<le> 3 \<and> [] \<notin> set ps"
proof -
  have "assistant_sections a = Inr qs \<Longrightarrow> length qs \<le> 3 \<and> [] \<notin> set qs" for a qs
    by (auto simp: assistant_sections_def bind_res_eq_Inr split: if_split_asm)
  then show ?thesis
    using assms
    by (auto simp: serialize_message_def Let_def bind_res_eq_Inr split: if_split_asm)
qed

lemma conversation_parts_append:
  "conversation_parts (xs @ ys) =
     bind_res (conversation_parts xs) (\<lambda>a. bind_res (conversation_parts ys) (\<lambda>b. Inr (a @ b)))"
  by (induction xs) (auto simp: bind_res_assoc bind_res_def split: sum.splits)

end
