(* ===== verification/CompactionPrompts.thy ===== *)
theory CompactionPrompts
  imports PyPrelude
begin

text \<open>
  The prompts of \<^verbatim>\<open>compaction/compaction.py\<close> and \<^verbatim>\<open>compaction/branch_summarization.py\<close>:
  the text that the summarising model is given around a conversation.
\<close>

definition SUMMARIZATION_SYSTEM_PROMPT :: string where
  "SUMMARIZATION_SYSTEM_PROMPT =
     ''You are a context summarization assistant. Your task is to read a conversation between a user and an AI coding assistant, then produce a structured summary following the exact format specified.''
     @ nl @ nl
     @ ''Do NOT continue the conversation. Do NOT respond to any questions in the conversation. ONLY output the structured summary.''"

definition SUMMARIZATION_PROMPT :: string where
  "SUMMARIZATION_PROMPT =
     ''The messages above are a conversation to summarize. Create a structured context checkpoint summary that another LLM will use to continue the work.''
     @ nl @ nl @ ''Use this EXACT format:'' @ nl @ nl @ ''## Goal'' @ nl
     @ ''[What is the user trying to accomplish? Can be multiple items if the session covers different tasks.]''
     @ nl @ nl @ ''## Constraints & Preferences'' @ nl
     @ ''- [Any constraints, preferences, or requirements mentioned by user]'' @ nl @ ''- [Or ''
     @ [CHR 0x22] @ ''(none)'' @ [CHR 0x22] @ '' if none were mentioned]'' @ nl @ nl
     @ ''## Progress'' @ nl @ ''### Done'' @ nl @ ''- [x] [Completed tasks/changes]'' @ nl @ nl
     @ ''### In Progress'' @ nl @ ''- [ ] [Current work]'' @ nl @ nl @ ''### Blocked'' @ nl
     @ ''- [Issues preventing progress, if any]'' @ nl @ nl @ ''## Key Decisions'' @ nl
     @ ''- **[Decision]**: [Brief rationale]'' @ nl @ nl @ ''## Next Steps'' @ nl
     @ ''1. [Ordered list of what should happen next]'' @ nl @ nl @ ''## Critical Context'' @ nl
     @ ''- [Any data, examples, or references needed to continue]'' @ nl @ ''- [Or ''
     @ [CHR 0x22] @ ''(none)'' @ [CHR 0x22] @ '' if not applicable]'' @ nl @ nl
     @ ''Keep each section concise. Preserve exact file paths, function names, and error messages.''"

definition UPDATE_SUMMARIZATION_PROMPT :: string where
  "UPDATE_SUMMARIZATION_PROMPT =
     ''The messages above are NEW conversation messages to incorporate into the existing summary provided in <previous-summary> tags.''
     @ nl @ nl @ ''Update the existing structured summary with new information. RULES:'' @ nl
     @ ''- PRESERVE all existing information from the previous summary'' @ nl
     @ ''- ADD new progress, decisions, and context from the new messages'' @ nl
     @ ''- UPDATE the Progress section: move items from '' @ [CHR 0x22] @ ''In Progress''
     @ [CHR 0x22] @ '' to '' @ [CHR 0x22] @ ''Done'' @ [CHR 0x22] @ '' when completed'' @ nl
     @ ''- UPDATE '' @ [CHR 0x22] @ ''Next Steps'' @ [CHR 0x22]
     @ '' based on what was accomplished'' @ nl
     @ ''- PRESERVE exact file paths, function names, and error messages'' @ nl
     @ ''- If something is no longer relevant, you may remove it'' @ nl @ nl
     @ ''Use this EXACT format:'' @ nl @ nl @ ''## Goal'' @ nl
     @ ''[Preserve existing goals, add new ones if the task expanded]'' @ nl @ nl
     @ ''## Constraints & Preferences'' @ nl
     @ ''- [Preserve existing, add new ones discovered]'' @ nl @ nl @ ''## Progress'' @ nl
     @ ''### Done'' @ nl @ ''- [x] [Include previously done items AND newly completed items]''
     @ nl @ nl @ ''### In Progress'' @ nl @ ''- [ ] [Current work - update based on progress]''
     @ nl @ nl @ ''### Blocked'' @ nl @ ''- [Current blockers - remove if resolved]'' @ nl @ nl
     @ ''## Key Decisions'' @ nl
     @ ''- **[Decision]**: [Brief rationale] (preserve all previous, add new)'' @ nl @ nl
     @ ''## Next Steps'' @ nl @ ''1. [Update based on current state]'' @ nl @ nl
     @ ''## Critical Context'' @ nl @ ''- [Preserve important context, add new if needed]'' @ nl
     @ nl
     @ ''Keep each section concise. Preserve exact file paths, function names, and error messages.''"

definition TURN_PREFIX_SUMMARIZATION_PROMPT :: string where
  "TURN_PREFIX_SUMMARIZATION_PROMPT =
     ''This is the PREFIX of a turn that was too large to keep. The SUFFIX (recent work) is retained.''
     @ nl @ nl @ ''Summarize the prefix to provide context for the retained suffix:'' @ nl @ nl
     @ ''## Original Request'' @ nl @ ''[What did the user ask for in this turn?]'' @ nl @ nl
     @ ''## Early Progress'' @ nl @ ''- [Key decisions and work done in the prefix]'' @ nl @ nl
     @ ''## Context for Suffix'' @ nl
     @ ''- [Information needed to understand the retained recent work]'' @ nl @ nl
     @ ''Be concise. Focus on what'' @ [CHR 0x27] @ ''s needed to understand the kept suffix.''"


definition BRANCH_SUMMARY_PREAMBLE :: string where
  "BRANCH_SUMMARY_PREAMBLE =
     ''The user explored a different conversation branch before returning here.'' @ nl
     @ ''Summary of that exploration:'' @ nl @ nl"

definition BRANCH_SUMMARY_PROMPT :: string where
  "BRANCH_SUMMARY_PROMPT =
     ''Create a structured summary of this conversation branch for context when returning later.''
     @ nl @ nl @ ''Use this EXACT format:'' @ nl @ nl @ ''## Goal'' @ nl
     @ ''[What was the user trying to accomplish in this branch?]'' @ nl @ nl
     @ ''## Constraints & Preferences'' @ nl
     @ ''- [Any constraints, preferences, or requirements mentioned]'' @ nl @ ''- [Or ''
     @ [CHR 0x22] @ ''(none)'' @ [CHR 0x22] @ '' if none were mentioned]'' @ nl @ nl
     @ ''## Progress'' @ nl @ ''### Done'' @ nl @ ''- [x] [Completed tasks/changes]'' @ nl @ nl
     @ ''### In Progress'' @ nl @ ''- [ ] [Work that was started but not finished]'' @ nl @ nl
     @ ''### Blocked'' @ nl @ ''- [Issues preventing progress, if any]'' @ nl @ nl
     @ ''## Key Decisions'' @ nl @ ''- **[Decision]**: [Brief rationale]'' @ nl @ nl
     @ ''## Next Steps'' @ nl @ ''1. [What should happen next to continue this work]'' @ nl @ nl
     @ ''Keep each section concise. Preserve exact file paths, function names, and error messages.''"


end
