(* ===== verification/EntryIds.thy ===== *)
theory EntryIds
  imports PyPrelude "HOL-Library.Word"
begin

unbundle bit_operations_syntax

text \<open>
  Entry identifiers: \<^verbatim>\<open>session/uuid.py\<close> and \<open>_generate_entry_id\<close> of
  \<^verbatim>\<open>session/storage_base.py\<close>. The module's globals \<open>_last_timestamp\<close> and
  \<open>_sequence\<close> are the record \<open>uuid_state\<close> (\<^term>\<open>None\<close> for the initial minus
  infinity, the 32-bit counter as a word); what a call reads from the clock and from
  \<^verbatim>\<open>secrets.token_bytes(16)\<close> is a \<open>uuid_sample\<close>, and a supply of samples indexed by
  the number of calls made so far stands for the outside world.
\<close>

record uuid_state =
  last_timestamp :: "int option"
  sequence_no :: "32 word"

record uuid_sample =
  smp_now_ms :: int
  smp_random :: "8 word list"

definition initial_uuid_state :: uuid_state where
  "initial_uuid_state = \<lparr>last_timestamp = None, sequence_no = 0\<rparr>"

section \<open>The generator\<close>

text \<open>The counter read from four random bytes, the first one the highest.\<close>

definition seed_sequence :: "8 word list \<Rightarrow> 32 word" where
  "seed_sequence r =
     ucast (r ! 6) * 0x1000000 + ucast (r ! 7) * 0x10000 + ucast (r ! 8) * 0x100 + ucast (r ! 9)"

definition step_uuid :: "uuid_sample \<Rightarrow> uuid_state \<Rightarrow> uuid_state" where
  "step_uuid smp st =
     (if (case last_timestamp st of None \<Rightarrow> True | Some l \<Rightarrow> l < smp_now_ms smp)
      then \<lparr>last_timestamp = Some (smp_now_ms smp),
            sequence_no = seed_sequence (smp_random smp)\<rparr>
      else
        (let sq = (sequence_no st + 1) AND 0xFFFFFFFF
         in \<lparr>last_timestamp =
               (if sq = 0 then map_option (\<lambda>l. l + 1) (last_timestamp st) else last_timestamp st),
             sequence_no = sq\<rparr>))"

definition uuid_bytes :: "int \<Rightarrow> 32 word \<Rightarrow> 8 word list \<Rightarrow> 8 word list" where
  "uuid_bytes ts sq r =
     [word_of_int (ts div 0x10000000000),
      word_of_int (ts div 0x100000000),
      word_of_int (ts div 0x1000000),
      word_of_int (ts div 0x10000),
      word_of_int (ts div 0x100),
      word_of_int ts,
      0x70 OR (ucast (drop_bit 28 sq) AND 0x0F),
      ucast (drop_bit 20 sq) AND 0xFF,
      0x80 OR (ucast (drop_bit 14 sq) AND 0x3F),
      ucast (drop_bit 6 sq) AND 0xFF,
      push_bit 2 (ucast sq AND 0x3F) OR (r ! 10 AND 0x03),
      r ! 11, r ! 12, r ! 13, r ! 14, r ! 15]"

definition hex_parts :: "8 word list \<Rightarrow> string" where
  "hex_parts bs = concat (map (\<lambda>b. hex2 (unat b)) bs)"

definition format_uuid :: "8 word list \<Rightarrow> string" where
  "format_uuid bs =
     hex_parts (take 4 bs) @ ''-'' @
     hex_parts (take 2 (drop 4 bs)) @ ''-'' @
     hex_parts (take 2 (drop 6 bs)) @ ''-'' @
     hex_parts (take 2 (drop 8 bs)) @ ''-'' @
     hex_parts (take 6 (drop 10 bs))"

definition uuidv7 :: "uuid_sample \<Rightarrow> uuid_state \<Rightarrow> string \<times> uuid_state" where
  "uuidv7 smp st =
     (let st' = step_uuid smp st;
          ts = (case last_timestamp st' of None \<Rightarrow> 0 | Some t \<Rightarrow> t)
      in (format_uuid (uuid_bytes ts (sequence_no st') (smp_random smp)), st'))"

section \<open>Entry ids\<close>

record id_gen =
  ig_state :: uuid_state
  ig_calls :: nat

definition next_uuid :: "(nat \<Rightarrow> uuid_sample) \<Rightarrow> id_gen \<Rightarrow> string \<times> id_gen" where
  "next_uuid supply g =
     (let (u, st) = uuidv7 (supply (ig_calls g)) (ig_state g)
      in (u, \<lparr>ig_state = st, ig_calls = Suc (ig_calls g)\<rparr>))"

text \<open>The loop of \<open>_generate_entry_id\<close>: \<open>n\<close> tries with the first eight characters, then
  the whole identifier.\<close>

fun try_entry_id ::
  "nat \<Rightarrow> (nat \<Rightarrow> uuid_sample) \<Rightarrow> (string \<Rightarrow> bool) \<Rightarrow> id_gen \<Rightarrow> string \<times> id_gen" where
  "try_entry_id 0 supply taken g = next_uuid supply g"
| "try_entry_id (Suc n) supply taken g =
     (let (u, g') = next_uuid supply g; entry_id = take 8 u
      in if \<not> taken entry_id then (entry_id, g') else try_entry_id n supply taken g')"

definition generate_entry_id ::
  "(nat \<Rightarrow> uuid_sample) \<Rightarrow> (string \<Rightarrow> bool) \<Rightarrow> id_gen \<Rightarrow> string \<times> id_gen" where
  "generate_entry_id supply taken g = try_entry_id 100 supply taken g"

section \<open>Shape of an identifier\<close>

lemma length_hex2 [simp]: "length (hex2 n) = 2"
  by (simp add: hex2_def)

lemma length_hex_parts [simp]: "length (hex_parts bs) = 2 * length bs"
  by (induction bs) (simp_all add: hex_parts_def)

lemma length_uuid_bytes [simp]: "length (uuid_bytes ts sq r) = 16"
  by (simp add: uuid_bytes_def)

lemma length_format_uuid [simp]: "length bs = 16 \<Longrightarrow> length (format_uuid bs) = 36"
  by (simp add: format_uuid_def)

lemma uuidv7_length [simp]: "length (fst (uuidv7 smp st)) = 36"
  by (simp add: uuidv7_def Let_def)

lemma hex_parts_Nil [simp]: "hex_parts [] = []"
  by (simp add: hex_parts_def)

lemma hex_parts_Cons: "hex_parts (b # bs) = hex2 (unat b) @ hex_parts bs"
  by (simp add: hex_parts_def)

lemma take8_format_uuid: "length bs = 16 \<Longrightarrow> take 8 (format_uuid bs) = hex_parts (take 4 bs)"
  by (simp add: format_uuid_def)

lemma next_uuid_length [simp]: "length (fst (next_uuid supply g)) = 36"
  by (simp add: next_uuid_def split_beta Let_def)

lemma hex_digit_inject: "m < 16 \<Longrightarrow> n < 16 \<Longrightarrow> hex_digit m = hex_digit n \<Longrightarrow> m = n"
proof -
  assume a: "m < 16" "n < 16" "hex_digit m = hex_digit n"
  have "ord_char (hex_digit k) = (if k < 10 then 48 + k else 87 + k)" if "k < 16" for k
    using that by (simp add: hex_digit_def)
  moreover from a(3) have "ord_char (hex_digit m) = ord_char (hex_digit n)" by simp
  ultimately show ?thesis using a(1,2) by (auto split: if_splits)
qed

lemma hex2_inject: "m < 256 \<Longrightarrow> n < 256 \<Longrightarrow> hex2 m = hex2 n \<longleftrightarrow> m = n"
proof
  assume a: "m < 256" "n < 256" "hex2 m = hex2 n"
  then have "m mod 16 = n mod 16" "m div 16 mod 16 = n div 16 mod 16"
    by (auto simp: hex2_def intro: hex_digit_inject)
  moreover from a have "m div 16 < 16" "n div 16 < 16" by auto
  ultimately have "m mod 16 = n mod 16" "m div 16 = n div 16" by simp_all
  then show "m = n" by (metis div_mult_mod_eq)
qed simp

lemma hex_parts_inject: "length xs = length ys \<Longrightarrow> hex_parts xs = hex_parts ys \<longleftrightarrow> xs = ys"
proof (induction xs ys rule: list_induct2)
  case (Cons x xs y ys)
  have "unat x < 256" "unat y < 256"
    using unsigned_less [of x, where 'a=nat] unsigned_less [of y, where 'a=nat] by simp_all
  with Cons show ?case by (auto simp: hex_parts_Cons hex2_inject word_unat_eq_iff)
qed simp

lemma take2_drop: "take m xs = take m ys \<Longrightarrow> drop m xs = drop m ys \<Longrightarrow> xs = ys"
  by (metis append_take_drop_id)

lemma format_uuid_inject:
  assumes "length xs = 16" "length ys = 16" "format_uuid xs = format_uuid ys"
  shows "xs = ys"
proof -
  have seg: "take 4 xs = take 4 ys" "take 2 (drop 4 xs) = take 2 (drop 4 ys)"
    "take 2 (drop 6 xs) = take 2 (drop 6 ys)" "take 2 (drop 8 xs) = take 2 (drop 8 ys)"
    "take 6 (drop 10 xs) = take 6 (drop 10 ys)"
    using assms unfolding format_uuid_def by (simp_all add: hex_parts_inject)
  have "drop 10 xs = drop 10 ys" using seg(5) assms(1,2) by simp
  then have "drop 8 xs = drop 8 ys" using seg(4) by - (rule take2_drop [of 2], simp_all)
  then have "drop 6 xs = drop 6 ys" using seg(3) by - (rule take2_drop [of 2], simp_all)
  then have "drop 4 xs = drop 4 ys" using seg(2) by - (rule take2_drop [of 2], simp_all)
  then show ?thesis using seg(1) by - (rule take2_drop [of 4], simp_all)
qed

text \<open>
  The version digit is 7 and the variant is one of 8, 9, a, b: what RFC 9562 asks of a version
  7 identifier.
\<close>

definition uuid_shape :: "string \<Rightarrow> bool" where
  "uuid_shape u \<longleftrightarrow>
     length u = 36 \<and> u ! 8 = CHR ''-'' \<and> u ! 13 = CHR ''-'' \<and> u ! 18 = CHR ''-'' \<and> u ! 23 = CHR ''-''
     \<and> u ! 14 = CHR ''7'' \<and> u ! 19 \<in> {CHR ''8'', CHR ''9'', CHR ''a'', CHR ''b''}"

lemma low_bits_cases:
  fixes y :: "8 word"
  assumes "unat y < n" and "\<And>k. k < n \<Longrightarrow> P (word_of_nat k)"
  shows "P y"
  using assms(2) [OF assms(1)] by simp

lemma version_byte:
  "hex2 (unat (0x70 OR (x AND 0x0F) :: 8 word)) ! 0 = CHR ''7''"
proof (rule low_bits_cases [where y = "x AND 0x0F" and n = 16])
  show "unat (x AND 0x0F) < 16"
    using word_and_le1 [of x "0x0F"] by (simp add: word_le_nat_alt)
  fix k :: nat
  assume "k < 16"
  then have "k = 0 \<or> k = 1 \<or> k = 2 \<or> k = 3 \<or> k = 4 \<or> k = 5 \<or> k = 6 \<or> k = 7
\<or> k = 8 \<or> k = 9 \<or> k = 10 \<or> k = 11 \<or> k = 12 \<or> k = 13 \<or> k = 14
\<or> k = 15"
    by presburger
  then show "hex2 (unat (0x70 OR word_of_nat k :: 8 word)) ! 0 = CHR ''7''"
    by (elim disjE) (simp_all add: hex2_def)
qed

lemma variant_byte:
  "hex2 (unat (0x80 OR (x AND 0x3F) :: 8 word)) ! 0 \<in> {CHR ''8'', CHR ''9'', CHR ''a'', CHR ''b''}"
proof (rule low_bits_cases [where y = "x AND 0x3F" and n = 64])
  show "unat (x AND 0x3F) < 64"
    using word_and_le1 [of x "0x3F"] by (simp add: word_le_nat_alt)
  fix k :: nat
  assume "k < 64"
  then have "k = 0 \<or> k = 1 \<or> k = 2 \<or> k = 3 \<or> k = 4 \<or> k = 5 \<or> k = 6 \<or> k = 7
\<or> k = 8 \<or> k = 9 \<or> k = 10 \<or> k = 11 \<or> k = 12 \<or> k = 13 \<or> k = 14
\<or> k = 15 \<or> k = 16 \<or> k = 17 \<or> k = 18 \<or> k = 19 \<or> k = 20 \<or> k = 21
\<or> k = 22 \<or> k = 23 \<or> k = 24 \<or> k = 25 \<or> k = 26 \<or> k = 27 \<or> k = 28
\<or> k = 29 \<or> k = 30 \<or> k = 31 \<or> k = 32 \<or> k = 33 \<or> k = 34 \<or> k = 35
\<or> k = 36 \<or> k = 37 \<or> k = 38 \<or> k = 39 \<or> k = 40 \<or> k = 41 \<or> k = 42
\<or> k = 43 \<or> k = 44 \<or> k = 45 \<or> k = 46 \<or> k = 47 \<or> k = 48 \<or> k = 49
\<or> k = 50 \<or> k = 51 \<or> k = 52 \<or> k = 53 \<or> k = 54 \<or> k = 55 \<or> k = 56
\<or> k = 57 \<or> k = 58 \<or> k = 59 \<or> k = 60 \<or> k = 61 \<or> k = 62 \<or> k = 63"
    by presburger
  then show "hex2 (unat (0x80 OR word_of_nat k :: 8 word)) ! 0
      \<in> {CHR ''8'', CHR ''9'', CHR ''a'', CHR ''b''}"
    by (elim disjE) (simp_all add: hex2_def)
qed

lemma uuid_bytes_shape: "uuid_shape (format_uuid (uuid_bytes ts sq r))"
  using version_byte variant_byte
  by (simp add: uuid_shape_def format_uuid_def uuid_bytes_def hex_parts_Cons nth_append)

section \<open>Reading an identifier back\<close>

text \<open>The time and the counter of an identifier's bytes.\<close>

definition uuid_time :: "8 word list \<Rightarrow> int" where
  "uuid_time bs =
     uint (bs ! 0) * 0x10000000000 + uint (bs ! 1) * 0x100000000 + uint (bs ! 2) * 0x1000000
     + uint (bs ! 3) * 0x10000 + uint (bs ! 4) * 0x100 + uint (bs ! 5)"

definition uuid_counter :: "8 word list \<Rightarrow> 32 word" where
  "uuid_counter bs =
     push_bit 28 (ucast (bs ! 6) AND 0x0F) OR push_bit 20 (ucast (bs ! 7))
     OR push_bit 14 (ucast (bs ! 8) AND 0x3F) OR push_bit 6 (ucast (bs ! 9))
     OR drop_bit 2 (ucast (bs ! 10))"

lemma uuid_counter_bytes: "uuid_counter (uuid_bytes ts sq r) = sq"
proof (rule bit_word_eqI)
  fix n
  assume "n < LENGTH(32)"
  then have "n < 32" by simp
  then have "n \<in> {0, 1, 2, 3, 4, 5, 6, 7, 8, 9, 10, 11, 12, 13, 14, 15, 16, 17, 18, 19, 20,
      21, 22, 23, 24, 25, 26, 27, 28, 29, 30, 31}"
    by (simp only: insert_iff empty_iff) presburger
  then show "bit (uuid_counter (uuid_bytes ts sq r)) n = bit sq n"
    unfolding uuid_counter_def uuid_bytes_def
    by (elim insertE emptyE) (simp_all add: bit_simps)
qed

lemma uuid_time_bytes: "uuid_time (uuid_bytes ts sq r) = ts mod 0x1000000000000"
proof -
  have e: "uint (word_of_int k :: 8 word) = k mod 256" for k
    by (simp add: unsigned_of_int take_bit_eq_mod)
  have split: "(ts div m) mod 256 * m + ts mod m = ts mod (256 * m)" if "0 < m" for m :: int
    using zmod_zmult2_eq [where a = ts and b = m and c = 256] by (simp add: mult.commute)
  have s1: "(ts div 0x100) mod 256 * 0x100 + ts mod 0x100 = ts mod 0x10000"
    using split [of "0x100"] by simp
  have s2: "(ts div 0x10000) mod 256 * 0x10000 + ts mod 0x10000 = ts mod 0x1000000"
    using split [of "0x10000"] by simp
  have s3: "(ts div 0x1000000) mod 256 * 0x1000000 + ts mod 0x1000000 = ts mod 0x100000000"
    using split [of "0x1000000"] by simp
  have s4: "(ts div 0x100000000) mod 256 * 0x100000000 + ts mod 0x100000000 = ts mod 0x10000000000"
    using split [of "0x100000000"] by simp
  have s5: "(ts div 0x10000000000) mod 256 * 0x10000000000 + ts mod 0x10000000000 = ts mod 0x1000000000000"
    using split [of "0x10000000000"] by simp
  have "uuid_time (uuid_bytes ts sq r) =
      (ts div 0x10000000000) mod 256 * 0x10000000000 + (ts div 0x100000000) mod 256 * 0x100000000
      + (ts div 0x1000000) mod 256 * 0x1000000 + (ts div 0x10000) mod 256 * 0x10000
      + (ts div 0x100) mod 256 * 0x100 + ts mod 0x100"
    by (simp only: uuid_time_def uuid_bytes_def nth_Cons_0 nth_Cons_Suc numeral_nat e)
  with s1 s2 s3 s4 s5 show ?thesis by linarith
qed

section \<open>Successive calls\<close>

text \<open>
  The order in which the generator's state grows: first by time, then by counter. Every call
  moves it strictly up, whatever the clock and the random source return.
\<close>

definition uuid_key :: "uuid_state \<Rightarrow> (int \<times> nat) option" where
  "uuid_key st = map_option (\<lambda>l. (l, unat (sequence_no st))) (last_timestamp st)"

fun uuid_less :: "(int \<times> nat) option \<Rightarrow> (int \<times> nat) option \<Rightarrow> bool" where
  "uuid_less None (Some y) = True"
| "uuid_less (Some (t, n)) (Some (t', n')) = (t < t' \<or> (t = t' \<and> n < n'))"
| "uuid_less _ None = False"

lemma uuid_less_trans: "uuid_less a b \<Longrightarrow> uuid_less b c \<Longrightarrow> uuid_less a c"
  by (cases a; cases b; cases c) auto

lemma uuid_less_irrefl: "\<not> uuid_less a a"
  by (cases a) auto

lemma and_all_ones: "(x :: 32 word) AND 0xFFFFFFFF = x"
proof -
  have "(0xFFFFFFFF :: 32 word) = - 1" by simp
  then show ?thesis by (simp only: and.right_neutral)
qed

lemma step_uuid_increases: "uuid_less (uuid_key st) (uuid_key (step_uuid smp st))"
proof (cases "last_timestamp st")
  case None
  then show ?thesis by (simp add: uuid_key_def step_uuid_def)
next
  case (Some l)
  show ?thesis
  proof (cases "l < smp_now_ms smp")
    case True
    with Some show ?thesis by (simp add: uuid_key_def step_uuid_def)
  next
    case False
    have "sequence_no st + 1 \<noteq> 0 \<Longrightarrow> unat (sequence_no st + 1) = Suc (unat (sequence_no st))"
      by (metis Suc_eq_plus1 add.commute unatSuc)
    with Some False show ?thesis
      by (auto simp: uuid_key_def step_uuid_def and_all_ones Let_def)
  qed
qed

text \<open>The identifiers of a run of calls, and the state after it.\<close>

fun uuid_run :: "uuid_sample list \<Rightarrow> uuid_state \<Rightarrow> string list" where
  "uuid_run [] st = []"
| "uuid_run (smp # smps) st = fst (uuidv7 smp st) # uuid_run smps (snd (uuidv7 smp st))"

fun uuid_final :: "uuid_sample list \<Rightarrow> uuid_state \<Rightarrow> uuid_state" where
  "uuid_final [] st = st"
| "uuid_final (smp # smps) st = uuid_final smps (step_uuid smp st)"

lemma snd_uuidv7 [simp]: "snd (uuidv7 smp st) = step_uuid smp st"
  by (simp add: uuidv7_def Let_def)

lemma step_uuid_time: "\<exists>t. last_timestamp (step_uuid smp st) = Some t"
  by (cases "last_timestamp st") (auto simp: step_uuid_def Let_def)

lemma uuid_final_above:
  "uuid_final smps st = st \<and> smps = [] \<or> uuid_less (uuid_key st) (uuid_key (uuid_final smps st))"
proof (induction smps arbitrary: st)
  case (Cons smp smps)
  then show ?case
    using step_uuid_increases [of st smp] uuid_less_trans by (metis uuid_final.simps(2))
qed simp

text \<open>Time and counter of the identifier that a state produces.\<close>

lemma uuidv7_key:
  assumes "last_timestamp (step_uuid smp st) = Some t" "0 \<le> t" "t < 0x1000000000000"
    and "fst (uuidv7 smp st) = format_uuid bs" "length bs = 16"
  shows "uuid_key (step_uuid smp st) = Some (uuid_time bs, unat (uuid_counter bs))"
proof -
  have "bs = uuid_bytes t (sequence_no (step_uuid smp st)) (smp_random smp)"
    using assms by (intro format_uuid_inject) (simp_all add: uuidv7_def Let_def)
  with assms(1-3) show ?thesis
    by (simp add: uuid_key_def uuid_time_bytes uuid_counter_bytes)
qed

definition time_in_range :: "uuid_state \<Rightarrow> bool" where
  "time_in_range st =
     (case last_timestamp st of None \<Rightarrow> True | Some t \<Rightarrow> 0 \<le> t \<and> t < 0x1000000000000)"

lemma uuid_same_key:
  assumes "fst (uuidv7 a st) = fst (uuidv7 b st')"
    and "time_in_range (step_uuid a st)" "time_in_range (step_uuid b st')"
  shows "uuid_key (step_uuid a st) = uuid_key (step_uuid b st')"
proof -
  obtain t t' where t: "last_timestamp (step_uuid a st) = Some t"
      "last_timestamp (step_uuid b st') = Some t'"
    using step_uuid_time by meson
  let ?bs = "uuid_bytes t' (sequence_no (step_uuid b st')) (smp_random b)"
  have "fst (uuidv7 b st') = format_uuid ?bs" by (simp add: uuidv7_def Let_def t)
  with assms t show ?thesis
    using uuidv7_key [of a st t ?bs] uuidv7_key [of b st' t' ?bs]
    by (simp add: time_in_range_def)
qed

lemma time_in_range_below:
  assumes "uuid_less (uuid_key st) (uuid_key st')" "time_in_range st'"
    and "case last_timestamp st of None \<Rightarrow> True | Some t \<Rightarrow> 0 \<le> t"
  shows "time_in_range st"
  using assms
  by (cases "last_timestamp st"; cases "last_timestamp st'") (auto simp: time_in_range_def uuid_key_def)

lemma step_uuid_nonneg:
  "0 \<le> smp_now_ms smp \<Longrightarrow> (case last_timestamp st of None \<Rightarrow> True | Some t \<Rightarrow> 0 \<le> t) \<Longrightarrow>
   (case last_timestamp (step_uuid smp st) of None \<Rightarrow> True | Some t \<Rightarrow> 0 \<le> t)"
  by (cases "last_timestamp st") (auto simp: step_uuid_def Let_def)

text \<open>An identifier made in a run comes from a state above the run's start.\<close>

lemma uuid_run_member:
  assumes "u \<in> set (uuid_run smps st)"
  shows "\<exists>pre smp post. smps = pre @ smp # post \<and> u = fst (uuidv7 smp (uuid_final pre st))"
  using assms
proof (induction smps arbitrary: st)
  case (Cons smp smps)
  show ?case
  proof (cases "u = fst (uuidv7 smp st)")
    case True
    then show ?thesis by (intro exI [of _ "[]"]) auto
  next
    case False
    with Cons.prems have "u \<in> set (uuid_run smps (step_uuid smp st))" by simp
    from Cons.IH [OF this] obtain pre s' post
      where "smps = pre @ s' # post" "u = fst (uuidv7 s' (uuid_final pre (step_uuid smp st)))"
      by blast
    then show ?thesis by (intro exI [of _ "smp # pre"]) auto
  qed
qed simp

lemma uuid_final_append: "uuid_final (xs @ ys) st = uuid_final ys (uuid_final xs st)"
  by (induction xs arbitrary: st) auto

definition nonneg_time :: "uuid_state \<Rightarrow> bool" where
  "nonneg_time st = (case last_timestamp st of None \<Rightarrow> True | Some t \<Rightarrow> 0 \<le> t)"

lemma uuid_final_nonneg:
  "list_all (\<lambda>s. 0 \<le> smp_now_ms s) smps \<Longrightarrow> nonneg_time st \<Longrightarrow> nonneg_time (uuid_final smps st)"
  by (induction smps arbitrary: st) (auto simp: nonneg_time_def step_uuid_nonneg)

lemma uuid_prefix_in_range:
  assumes "list_all (\<lambda>s. 0 \<le> smp_now_ms s) (xs @ ys)" "nonneg_time st"
    and "time_in_range (uuid_final (xs @ ys) st)"
  shows "time_in_range (uuid_final xs st)"
proof -
  have "nonneg_time (uuid_final xs st)"
    using assms(1,2) by (intro uuid_final_nonneg) auto
  then show ?thesis
    using uuid_final_above [of ys "uuid_final xs st"] assms(3)
    by (auto simp: uuid_final_append nonneg_time_def intro: time_in_range_below)
qed

lemma uuid_head_fresh:
  assumes "list_all (\<lambda>s. 0 \<le> smp_now_ms s) (smp # smps)" "nonneg_time st"
    and "time_in_range (uuid_final (smp # smps) st)"
  shows "fst (uuidv7 smp st) \<notin> set (uuid_run smps (step_uuid smp st))"
proof
  let ?st = "step_uuid smp st"
  assume "fst (uuidv7 smp st) \<in> set (uuid_run smps ?st)"
  then obtain pre s' post where d: "smps = pre @ s' # post"
      "fst (uuidv7 smp st) = fst (uuidv7 s' (uuid_final pre ?st))"
    using uuid_run_member by blast
  have "time_in_range (uuid_final [smp] st)"
    by (rule uuid_prefix_in_range [of _ smps]) (use assms in simp_all)
  moreover have "time_in_range (uuid_final (smp # pre @ [s']) st)"
    by (rule uuid_prefix_in_range [of _ post]) (use assms d in simp_all)
  ultimately have "uuid_key ?st = uuid_key (step_uuid s' (uuid_final pre ?st))"
    using d(2) by (intro uuid_same_key) (simp_all add: uuid_final_append)
  moreover have "uuid_less (uuid_key ?st) (uuid_key (step_uuid s' (uuid_final pre ?st)))"
    using uuid_final_above [of "pre @ [s']" ?st] by (simp add: uuid_final_append)
  ultimately show False by (simp add: uuid_less_irrefl)
qed

lemma uuid_run_distinct_aux:
  assumes "list_all (\<lambda>s. 0 \<le> smp_now_ms s) smps" "nonneg_time st"
    and "time_in_range (uuid_final smps st)"
  shows "distinct (uuid_run smps st)"
  using assms
proof (induction smps arbitrary: st)
  case (Cons smp smps)
  have "nonneg_time (step_uuid smp st)"
    using Cons.prems uuid_final_nonneg [of "[smp]" st] by simp
  with Cons uuid_head_fresh [of smp smps st] show ?case by simp
qed simp

section \<open>Fresh entry ids\<close>

lemma try_entry_id_fresh:
  "try_entry_id n supply taken g = (eid, g') \<Longrightarrow> taken eid \<Longrightarrow> length eid = 36"
proof (induction n arbitrary: g)
  case 0
  then have "eid = fst (next_uuid supply g)" by simp
  then show ?case by simp
next
  case (Suc n)
  then show ?case by (auto simp: Let_def split: prod.splits if_splits)
qed

text \<open>The first eight characters are the time in steps of 65536 milliseconds.\<close>

definition window_prefix :: "int \<Rightarrow> string" where
  "window_prefix w =
     hex_parts [word_of_int (w div 0x1000000), word_of_int (w div 0x10000),
                word_of_int (w div 0x100), word_of_int w]"

lemma take8_uuidv7:
  assumes "last_timestamp (step_uuid smp st) = Some t"
  shows "take 8 (fst (uuidv7 smp st)) = window_prefix (t div 0x10000)"
proof -
  have "t div 0x10000 div 0x1000000 = t div (0x10000 * 0x1000000)"
    "t div 0x10000 div 0x10000 = t div (0x10000 * 0x10000)"
    "t div 0x10000 div 0x100 = t div (0x10000 * 0x100)"
    by (rule zdiv_zmult2_eq [symmetric]; simp)+
  then have "t div 0x10000000000 = t div 0x10000 div 0x1000000"
    "t div 0x100000000 = t div 0x10000 div 0x10000"
    "t div 0x1000000 = t div 0x10000 div 0x100"
    by (simp_all only: arith_simps num.simps)
  moreover have "take 8 (fst (uuidv7 smp st)) =
      hex_parts [word_of_int (t div 0x10000000000), word_of_int (t div 0x100000000),
                 word_of_int (t div 0x1000000), word_of_int (t div 0x10000)]"
    using assms by (simp add: uuidv7_def Let_def take8_format_uuid uuid_bytes_def)
  ultimately show ?thesis by (simp only: window_prefix_def)
qed

definition last_at_most :: "int \<Rightarrow> uuid_state \<Rightarrow> bool" where
  "last_at_most b st = (case last_timestamp st of None \<Rightarrow> True | Some l \<Rightarrow> l \<le> b)"

lemma step_uuid_window:
  assumes "a \<le> smp_now_ms smp" "smp_now_ms smp \<le> b" "last_at_most b st"
  shows "\<exists>t. last_timestamp (step_uuid smp st) = Some t \<and> a \<le> t \<and> t \<le> b + 1"
proof (cases "last_timestamp st")
  case None
  with assms show ?thesis by (simp add: step_uuid_def Let_def)
next
  case (Some l)
  with assms show ?thesis by (simp add: step_uuid_def last_at_most_def Let_def)
qed

lemma try_entry_id_window:
  assumes "\<And>i. w * 0x10000 \<le> smp_now_ms (supply i)" "\<And>i. smp_now_ms (supply i) \<le> b"
    and "b + int n < (w + 1) * 0x10000" "last_at_most b (ig_state g)" "taken (window_prefix w)"
  shows "length (fst (try_entry_id n supply taken g)) = 36
    \<and> ig_calls (snd (try_entry_id n supply taken g)) = ig_calls g + Suc n"
  using assms(2-4)
proof (induction n arbitrary: g b)
  case 0
  then show ?case by (simp add: next_uuid_def split_beta Let_def)
next
  case (Suc n)
  let ?s = "supply (ig_calls g)"
  let ?g' = "snd (next_uuid supply g)"
  obtain t where t: "last_timestamp (step_uuid ?s (ig_state g)) = Some t" "w * 0x10000 \<le> t" "t \<le> b + 1"
    using step_uuid_window [OF assms(1) Suc.prems(1) Suc.prems(3)] by blast
  have w: "t div 0x10000 = w"
    using t(2,3) Suc.prems(2) by (simp add: int_div_pos_eq [of _ _ _ "t - w * 0x10000"])
  have "fst (next_uuid supply g) = fst (uuidv7 ?s (ig_state g))"
    by (simp add: next_uuid_def split_beta Let_def)
  then have "take 8 (fst (next_uuid supply g)) = window_prefix w"
    using take8_uuidv7 [OF t(1)] by (simp only: w)
  with assms(5) have "try_entry_id (Suc n) supply taken g = try_entry_id n supply taken ?g'"
    by (simp add: Let_def split_beta)
  moreover have g': "ig_calls ?g' = Suc (ig_calls g)" "ig_state ?g' = step_uuid ?s (ig_state g)"
    by (simp_all add: next_uuid_def split_beta Let_def)
  moreover have "length (fst (try_entry_id n supply taken ?g')) = 36
    \<and> ig_calls (snd (try_entry_id n supply taken ?g')) = ig_calls ?g' + Suc n"
  proof (rule Suc.IH)
    show "smp_now_ms (supply i) \<le> b + 1" for i
      using Suc.prems(1) [of i] by linarith
    show "b + 1 + int n < (w + 1) * 0x10000"
      using Suc.prems(2) by simp
    show "last_at_most (b + 1) (ig_state ?g')"
      using t by (simp add: g' last_at_most_def)
  qed
  ultimately show ?case by (simp only: add_Suc_shift)
qed

section \<open>Properties\<close>

text \<open>
  Every identifier has the layout of a version 7 UUID: 36 characters with the dashes, the
  version digit and the variant digit in place, whatever the clock, the counter and the random
  bytes are.
\<close>

theorem uuidv7_shape: "uuid_shape (fst (uuidv7 smp st))"
  by (simp add: uuidv7_def Let_def uuid_bytes_shape)

text \<open>
  C26. Identifiers never repeat: any run of calls of \<open>uuidv7\<close>, from any state, whatever the
  random bytes are and also when the clock stands still or goes back, gives pairwise distinct
  identifiers, as long as the clock is not negative and the time stays below 2 to the power 48.
\<close>

theorem uuidv7_run_distinct:
  assumes "list_all (\<lambda>s. 0 \<le> smp_now_ms s) smps" "nonneg_time st"
    and "time_in_range (uuid_final smps st)"
  shows "distinct (uuid_run smps st)"
  using assms by (rule uuid_run_distinct_aux)

theorem uuidv7_run_distinct_witness:
  "distinct (uuid_run [\<lparr>smp_now_ms = 1700000000000, smp_random = replicate 16 255\<rparr>,
      \<lparr>smp_now_ms = 1700000000000, smp_random = replicate 16 0\<rparr>,
      \<lparr>smp_now_ms = 1699999999999, smp_random = replicate 16 7\<rparr>] initial_uuid_state)"
  by (rule uuidv7_run_distinct)
     (simp_all add: nonneg_time_def time_in_range_def initial_uuid_state_def step_uuid_def
        seed_sequence_def Let_def)

text \<open>
  The short identifiers of \<open>_generate_entry_id\<close> hold only the time in steps of 65536
  milliseconds. While the clock stays inside one such window (and 100 milliseconds away from its
  end), a second call burns all hundred tries and falls back to the full 36 character identifier.
\<close>

theorem entry_id_window_exhausted:
  assumes "\<And>i. w * 0x10000 \<le> smp_now_ms (supply i)"
    and "\<And>i. smp_now_ms (supply i) < (w + 1) * 0x10000 - 100"
    and "last_at_most ((w + 1) * 0x10000 - 101) (ig_state g)" "taken (window_prefix w)"
  shows "length (fst (generate_entry_id supply taken g)) = 36
    \<and> ig_calls (snd (generate_entry_id supply taken g)) = ig_calls g + 101"
proof -
  have "smp_now_ms (supply i) \<le> (w + 1) * 0x10000 - 101" for i
    using assms(2) [of i] by linarith
  from try_entry_id_window [of w "supply" "(w + 1) * 0x10000 - 101" 100 g taken, OF assms(1) this]
    assms(3,4)
  show ?thesis by (simp add: generate_entry_id_def)
qed

theorem entry_id_window_exhausted_witness:
  "length (fst (generate_entry_id (\<lambda>i. \<lparr>smp_now_ms = 65536, smp_random = replicate 16 0\<rparr>)
      (\<lambda>k. k = window_prefix 1) \<lparr>ig_state = initial_uuid_state, ig_calls = 0\<rparr>)) = 36"
  using entry_id_window_exhausted [of 1 "\<lambda>i. \<lparr>smp_now_ms = 65536, smp_random = replicate 16 0\<rparr>"
      "\<lparr>ig_state = initial_uuid_state, ig_calls = 0\<rparr>" "\<lambda>k. k = window_prefix 1"]
  by (simp add: last_at_most_def initial_uuid_state_def)

end
