(* ===== verification/SessionStorage.thy ===== *)
theory SessionStorage
  imports HarnessTypes EntryIds
begin

text \<open>
  The session tree: \<^verbatim>\<open>session/storage_base.py\<close> and \<^verbatim>\<open>session/memory_storage.py\<close>.
  A session is an append-only log of entries; the storage keeps, next to the log, an index by
  id, the labels, the logical parents (where a new entry's branch differs from the entry it was
  physically appended after), the current leaf and the entry the next one is appended to.
  Every method that changes this state is a function from the state to the new state or the
  exception.
\<close>

section \<open>What one entry does to the leaf, the append parent and the labels\<close>

definition update_label_cache ::
  "(string \<rightharpoonup> string) \<Rightarrow> session_tree_entry \<Rightarrow> (string \<rightharpoonup> string)" where
  "update_label_cache labels e =
     (case e_body e of
        LabelE tgt lbl \<Rightarrow>
          (case lbl of
             Some l \<Rightarrow> if l \<noteq> [] then labels(tgt \<mapsto> l) else labels(tgt := None)
           | None \<Rightarrow> labels(tgt := None))
      | _ \<Rightarrow> labels)"

definition build_labels_by_id :: "session_tree_entry list \<Rightarrow> (string \<rightharpoonup> string)" where
  "build_labels_by_id entries = foldl update_label_cache Map.empty entries"

definition is_side_append_entry :: "session_tree_entry \<Rightarrow> bool" where
  "is_side_append_entry e = (e_appendMode e = Some Side)"

definition leaf_id_update_after_entry :: "session_tree_entry \<Rightarrow> string option" where
  "leaf_id_update_after_entry e =
     (if \<not> is_leaf e \<and> is_side_append_entry e then None
      else case e_body e of
        LeafE tgt ap \<Rightarrow> tgt
      | _ \<Rightarrow>
        (if entry_type e \<in> {''message'', ''thinking_level_change'', ''model_change'', ''compaction'',
             ''branch_summary'', ''custom'', ''custom_message'', ''label'', ''session_info''}
         then Some (e_id e) else None))"

definition append_parent_id_after_entry :: "session_tree_entry \<Rightarrow> string option" where
  "append_parent_id_after_entry e =
     (case e_body e of
        LeafE tgt ap \<Rightarrow> (case ap of None \<Rightarrow> tgt | Some a \<Rightarrow> Some a)
      | _ \<Rightarrow> Some (e_id e))"

fun resolve_leaf_id_loop :: "session_tree_entry list \<Rightarrow> string option \<Rightarrow> string option" where
  "resolve_leaf_id_loop [] leaf = leaf"
| "resolve_leaf_id_loop (e # es) leaf =
     resolve_leaf_id_loop es
       (case leaf_id_update_after_entry e of None \<Rightarrow> leaf | Some u \<Rightarrow> Some u)"

definition resolve_leaf_id :: "session_tree_entry list \<Rightarrow> string option" where
  "resolve_leaf_id entries = resolve_leaf_id_loop entries None"

definition resolve_append_parent_id :: "session_tree_entry list \<Rightarrow> string option" where
  "resolve_append_parent_id entries =
     foldl (\<lambda>_ e. append_parent_id_after_entry e) None entries"

text \<open>
  The guard shared by the constructor's loop and by \<open>_record_entry\<close>: the entry becomes the
  leaf, is not a side entry, hangs on the append parent, and the branch's leaf is elsewhere.
\<close>

definition takes_logical_parent ::
  "session_tree_entry \<Rightarrow> string option \<Rightarrow> string option \<Rightarrow> bool" where
  "takes_logical_parent e leaf append_parent \<longleftrightarrow>
     leaf_id_update_after_entry e = Some (e_id e) \<and> \<not> is_side_append_entry e
     \<and> e_parentId e = append_parent \<and> leaf \<noteq> append_parent"

fun build_logical_parents_loop ::
  "session_tree_entry list \<Rightarrow> string option \<Rightarrow> string option \<Rightarrow> (string \<rightharpoonup> string option)
     \<Rightarrow> (string \<rightharpoonup> string option)" where
  "build_logical_parents_loop [] leaf append_parent lp = lp"
| "build_logical_parents_loop (e # es) leaf append_parent lp =
     build_logical_parents_loop es
       (case leaf_id_update_after_entry e of None \<Rightarrow> leaf | Some u \<Rightarrow> Some u)
       (append_parent_id_after_entry e)
       (if takes_logical_parent e leaf append_parent then lp(e_id e \<mapsto> leaf) else lp)"

definition build_logical_parents_by_id ::
  "session_tree_entry list \<Rightarrow> (string \<rightharpoonup> string option)" where
  "build_logical_parents_by_id entries = build_logical_parents_loop entries None None Map.empty"

definition build_by_id :: "session_tree_entry list \<Rightarrow> (string \<rightharpoonup> session_tree_entry)" where
  "build_by_id entries = foldl (\<lambda>m e. m(e_id e \<mapsto> e)) Map.empty entries"

section \<open>The storage and its constructor\<close>

record storage =
  st_metadata :: session_metadata
  st_entries :: "session_tree_entry list"
  st_by_id :: "string \<rightharpoonup> session_tree_entry"
  st_labels_by_id :: "string \<rightharpoonup> string"
  st_logical_parents_by_id :: "string \<rightharpoonup> string option"
  st_leaf_id :: "string option"
  st_append_parent_id :: "string option"

definition missing :: "(string \<rightharpoonup> session_tree_entry) \<Rightarrow> string option \<Rightarrow> bool" where
  "missing by_id r = (case r of None \<Rightarrow> False | Some k \<Rightarrow> by_id k = None)"

definition entry_not_found :: "session_error_code \<Rightarrow> string \<Rightarrow> pyexn" where
  "entry_not_found code k = SessionError code (''Entry '' @ k @ '' not found'')"

definition parent_not_found :: "session_error_code \<Rightarrow> string \<Rightarrow> pyexn" where
  "parent_not_found code k = SessionError code (''Append parent '' @ k @ '' not found'')"

definition init_storage ::
  "session_metadata \<Rightarrow> session_tree_entry list \<Rightarrow> string option \<Rightarrow> string option \<Rightarrow> storage res" where
  "init_storage md entries leaf append_parent =
     (let by_id = build_by_id entries;
          leaf_id = (case leaf of None \<Rightarrow> resolve_leaf_id entries | Some l \<Rightarrow> Some l);
          append_parent_id =
            (case append_parent of None \<Rightarrow> resolve_append_parent_id entries | Some a \<Rightarrow> Some a)
      in if missing by_id leaf_id then Inl (entry_not_found InvalidSession (the leaf_id))
         else if missing by_id append_parent_id
         then Inl (parent_not_found InvalidSession (the append_parent_id))
         else Inr \<lparr>st_metadata = md, st_entries = entries, st_by_id = by_id,
                   st_labels_by_id = build_labels_by_id entries,
                   st_logical_parents_by_id = build_logical_parents_by_id entries,
                   st_leaf_id = leaf_id, st_append_parent_id = append_parent_id\<rparr>)"

section \<open>Methods\<close>

definition get_metadata :: "storage \<Rightarrow> session_metadata" where
  "get_metadata s = st_metadata s"

definition get_leaf_id :: "storage \<Rightarrow> string option res" where
  "get_leaf_id s =
     (if missing (st_by_id s) (st_leaf_id s)
      then Inl (entry_not_found InvalidSession (the (st_leaf_id s)))
      else Inr (st_leaf_id s))"

definition get_append_parent_id :: "storage \<Rightarrow> string option res" where
  "get_append_parent_id s =
     (if missing (st_by_id s) (st_append_parent_id s)
      then Inl (parent_not_found InvalidSession (the (st_append_parent_id s)))
      else Inr (st_append_parent_id s))"

text \<open>\<open>_generate_entry_id(self._by_id)\<close>\<close>

definition create_entry_id ::
  "(nat \<Rightarrow> uuid_sample) \<Rightarrow> storage \<Rightarrow> id_gen \<Rightarrow> string \<times> id_gen" where
  "create_entry_id supply s g = generate_entry_id supply (\<lambda>k. st_by_id s k \<noteq> None) g"

definition create_leaf_entry ::
  "(nat \<Rightarrow> uuid_sample) \<Rightarrow> string \<Rightarrow> storage \<Rightarrow> id_gen \<Rightarrow> string option
     \<Rightarrow> (session_tree_entry \<times> id_gen) res" where
  "create_leaf_entry supply now s g leaf =
     (if missing (st_by_id s) leaf then Inl (entry_not_found NotFound (the leaf))
      else
        (let (eid, g') = create_entry_id supply s g
         in Inr (\<lparr>e_id = eid, e_parentId = st_append_parent_id s, e_timestamp = now,
                  e_appendMode = None, e_body = LeafE leaf None\<rparr>, g')))"

definition validate_entry_for_append :: "storage \<Rightarrow> session_tree_entry \<Rightarrow> unit res" where
  "validate_entry_for_append s e =
     (let leaf_id = leaf_id_update_after_entry e;
          leaf_is_new_entry = (\<not> is_leaf e \<and> leaf_id = Some (e_id e));
          append_parent_id = append_parent_id_after_entry e;
          append_parent_is_new_entry = (\<not> is_leaf e \<and> append_parent_id = Some (e_id e))
      in if \<not> leaf_is_new_entry \<and> missing (st_by_id s) leaf_id
         then Inl (entry_not_found NotFound (the leaf_id))
         else if \<not> append_parent_is_new_entry \<and> missing (st_by_id s) append_parent_id
         then Inl (parent_not_found NotFound (the append_parent_id))
         else Inr ())"

definition record_entry :: "storage \<Rightarrow> session_tree_entry \<Rightarrow> storage res" where
  "record_entry s e =
     bind_res (validate_entry_for_append s e) (\<lambda>_.
       let leaf_id = leaf_id_update_after_entry e
       in Inr (s\<lparr>
            st_logical_parents_by_id :=
              (if takes_logical_parent e (st_leaf_id s) (st_append_parent_id s)
               then (st_logical_parents_by_id s)(e_id e \<mapsto> st_leaf_id s)
               else st_logical_parents_by_id s),
            st_entries := st_entries s @ [e],
            st_by_id := (st_by_id s)(e_id e \<mapsto> e),
            st_labels_by_id := update_label_cache (st_labels_by_id s) e,
            st_leaf_id := (case leaf_id of None \<Rightarrow> st_leaf_id s | Some u \<Rightarrow> Some u),
            st_append_parent_id := append_parent_id_after_entry e\<rparr>))"

definition get_entry :: "storage \<Rightarrow> string \<Rightarrow> session_tree_entry option" where
  "get_entry s eid = st_by_id s eid"

definition find_entries :: "storage \<Rightarrow> string \<Rightarrow> session_tree_entry list" where
  "find_entries s ty = filter (\<lambda>e. entry_type e = ty) (st_entries s)"

definition get_label :: "storage \<Rightarrow> string \<Rightarrow> string option" where
  "get_label s eid = st_labels_by_id s eid"

definition get_entries :: "storage \<Rightarrow> session_tree_entry list" where
  "get_entries s = st_entries s"

text \<open>The parent that the walk to the root follows from an entry.\<close>

definition walk_parent ::
  "(string \<rightharpoonup> string option) \<Rightarrow> session_tree_entry \<Rightarrow> string option" where
  "walk_parent lp e =
     (case e_body e of
        LeafE tgt ap \<Rightarrow> tgt
      | _ \<Rightarrow> (case lp (e_id e) of Some p \<Rightarrow> p | None \<Rightarrow> e_parentId e))"

text \<open>
  The \<^verbatim>\<open>while\<close> loop of \<open>get_path_to_root\<close>. \<^term>\<open>None\<close> would mean that the loop does not
  end; \<open>path_loop_returns\<close> shows that it always does.
\<close>

partial_function (option) path_loop ::
  "(string \<rightharpoonup> session_tree_entry) \<Rightarrow> (string \<rightharpoonup> string option) \<Rightarrow> string set
     \<Rightarrow> session_tree_entry list \<Rightarrow> session_tree_entry \<Rightarrow> session_tree_entry list res option" where
  "path_loop by_id lp seen path current =
     (if e_id current \<in> seen
      then Some (Inl (SessionError InvalidSession (''Cycle found at entry '' @ e_id current)))
      else
        (let seen' = insert (e_id current) seen;
             path' = (if is_leaf current then path else current # path);
             parent_id = walk_parent lp current
         in if parent_id = None \<or> parent_id = Some [] then Some (Inr path')
            else (case by_id (the parent_id) of
                    None \<Rightarrow> Some (Inl (entry_not_found InvalidSession (the parent_id)))
                  | Some parent \<Rightarrow> path_loop by_id lp seen' path' parent)))"

definition get_path_to_root ::
  "storage \<Rightarrow> string option \<Rightarrow> session_tree_entry list res option" where
  "get_path_to_root s leaf =
     (case leaf of
        None \<Rightarrow> Some (Inr [])
      | Some l \<Rightarrow>
          (case st_by_id s l of
             None \<Rightarrow> Some (Inl (entry_not_found NotFound l))
           | Some current \<Rightarrow> path_loop (st_by_id s) (st_logical_parents_by_id s) {} [] current))"

section \<open>In-memory storage\<close>

definition new_in_memory_storage ::
  "session_metadata \<Rightarrow> session_tree_entry list \<Rightarrow> storage res" where
  "new_in_memory_storage md entries = init_storage md entries None None"

definition mem_set_leaf_id ::
  "(nat \<Rightarrow> uuid_sample) \<Rightarrow> string \<Rightarrow> storage \<times> id_gen \<Rightarrow> string option \<Rightarrow> (storage \<times> id_gen) res" where
  "mem_set_leaf_id supply now sg leaf =
     bind_res (create_leaf_entry supply now (fst sg) (snd sg) leaf) (\<lambda>(e, g').
     bind_res (record_entry (fst sg) e) (\<lambda>s'. Inr (s', g')))"

definition mem_append_entry :: "storage \<Rightarrow> session_tree_entry \<Rightarrow> storage res" where
  "mem_append_entry s e = record_entry s e"

end
