(* ===== verification/SessionTree.thy ===== *)
theory SessionTree
  imports SessionStorage
begin

text \<open>
  Correctness of the session storage: the incremental bookkeeping equals a rebuild from the
  log, the walk to the root always ends and is exactly the chain of walk parents, appending
  extends the current branch by one entry, and moving the leaf switches the branch.
\<close>

section \<open>Rebuilding from the log\<close>

lemma build_by_id_snoc [simp]:
  "build_by_id (es @ [e]) = (build_by_id es)(e_id e \<mapsto> e)"
  by (simp add: build_by_id_def)

lemma build_labels_snoc [simp]:
  "build_labels_by_id (es @ [e]) = update_label_cache (build_labels_by_id es) e"
  by (simp add: build_labels_by_id_def)

lemma resolve_append_parent_snoc [simp]:
  "resolve_append_parent_id (es @ [e]) = append_parent_id_after_entry e"
  by (simp add: resolve_append_parent_id_def)

lemma resolve_leaf_loop_snoc:
  "resolve_leaf_id_loop (es @ [e]) l =
     (case leaf_id_update_after_entry e of None \<Rightarrow> resolve_leaf_id_loop es l | Some u \<Rightarrow> Some u)"
  by (induction es arbitrary: l) (auto split: option.splits)

lemma resolve_leaf_snoc [simp]:
  "resolve_leaf_id (es @ [e]) =
     (case leaf_id_update_after_entry e of None \<Rightarrow> resolve_leaf_id es | Some u \<Rightarrow> Some u)"
  by (simp add: resolve_leaf_id_def resolve_leaf_loop_snoc split: option.splits)

lemma build_logical_parents_loop_snoc:
  "build_logical_parents_loop (es @ [e]) leaf ap lp =
     (let lp' = build_logical_parents_loop es leaf ap lp
      in if takes_logical_parent e (resolve_leaf_id_loop es leaf)
              (foldl (\<lambda>_ e. append_parent_id_after_entry e) ap es)
         then lp'(e_id e \<mapsto> resolve_leaf_id_loop es leaf) else lp')"
  by (induction es arbitrary: leaf ap lp) (simp_all add: Let_def)

lemma build_logical_parents_snoc [simp]:
  "build_logical_parents_by_id (es @ [e]) =
     (if takes_logical_parent e (resolve_leaf_id es) (resolve_append_parent_id es)
      then (build_logical_parents_by_id es)(e_id e \<mapsto> resolve_leaf_id es)
      else build_logical_parents_by_id es)"
  by (simp add: build_logical_parents_by_id_def build_logical_parents_loop_snoc Let_def
      resolve_leaf_id_def resolve_append_parent_id_def)

text \<open>A storage that its constructor would build from its own log.\<close>

definition rebuilt :: "storage \<Rightarrow> bool" where
  "rebuilt s \<longleftrightarrow> init_storage (st_metadata s) (st_entries s) None None = Inr s"

lemma missing_upd [simp]:
  "missing (m(k \<mapsto> e)) r \<longleftrightarrow> missing m r \<and> r \<noteq> Some k"
  by (auto simp: missing_def split: option.splits)

lemma missing_None [simp]: "\<not> missing m None"
  by (simp add: missing_def)

lemma append_parent_new: "\<not> is_leaf e \<Longrightarrow> append_parent_id_after_entry e = Some (e_id e)"
  by (cases "e_body e") (auto simp: append_parent_id_after_entry_def is_leaf_def)

lemma leaf_update_cases:
  "\<not> is_leaf e \<Longrightarrow> leaf_id_update_after_entry e =
     (if is_side_append_entry e then None else Some (e_id e))"
  by (cases "e_body e") (auto simp: leaf_id_update_after_entry_def is_leaf_def)

lemma leaf_update_leaf: "e_body e = LeafE t a \<Longrightarrow> leaf_id_update_after_entry e = t"
  by (simp add: leaf_id_update_after_entry_def is_leaf_def)

lemma append_parent_leaf:
  "e_body e = LeafE t a \<Longrightarrow> append_parent_id_after_entry e = (case a of None \<Rightarrow> t | Some x \<Rightarrow> Some x)"
  by (simp add: append_parent_id_after_entry_def)

lemma validate_ok_missing:
  assumes "validate_entry_for_append s e = Inr u"
  shows "\<not> missing ((st_by_id s)(e_id e \<mapsto> e)) (leaf_id_update_after_entry e)"
    and "\<not> missing ((st_by_id s)(e_id e \<mapsto> e)) (append_parent_id_after_entry e)"
  using assms
  by (auto simp: validate_entry_for_append_def Let_def split: if_splits)

lemma rebuilt_fields:
  "rebuilt s \<longleftrightarrow>
     st_by_id s = build_by_id (st_entries s)
     \<and> st_labels_by_id s = build_labels_by_id (st_entries s)
     \<and> st_logical_parents_by_id s = build_logical_parents_by_id (st_entries s)
     \<and> st_leaf_id s = resolve_leaf_id (st_entries s)
     \<and> st_append_parent_id s = resolve_append_parent_id (st_entries s)
     \<and> \<not> missing (st_by_id s) (st_leaf_id s)
     \<and> \<not> missing (st_by_id s) (st_append_parent_id s)"
  by (cases s) (auto simp: rebuilt_def init_storage_def Let_def split: option.splits)

lemma record_entry_rebuilt:
  assumes "rebuilt s" "record_entry s e = Inr s'"
  shows "rebuilt s'"
proof -
  from assms(2) have v: "validate_entry_for_append s e = Inr ()"
    by (auto simp: record_entry_def bind_res_eq_Inr)
  have m: "\<not> missing m l \<Longrightarrow> \<not> missing (m(k \<mapsto> v)) l" for m l k v
    by simp
  from assms v validate_ok_missing [OF v] show ?thesis
    by (auto simp: rebuilt_fields record_entry_def Let_def split: option.splits)
qed

lemma init_storage_rebuilt: "init_storage md es None None = Inr s \<Longrightarrow> rebuilt s"
  by (auto simp: rebuilt_def init_storage_def Let_def split: if_splits)

lemma init_storage_fields:
  "init_storage md es None None = Inr s \<Longrightarrow> st_entries s = es \<and> st_metadata s = md"
  by (auto simp: init_storage_def Let_def split: if_splits)

lemma record_entry_fields:
  "record_entry s e = Inr s' \<Longrightarrow>
     st_entries s' = st_entries s @ [e] \<and> st_metadata s' = st_metadata s
     \<and> st_by_id s' = (st_by_id s)(e_id e \<mapsto> e)"
  by (auto simp: record_entry_def bind_res_eq_Inr Let_def)

lemma fold_record_fields:
  "fold_res (\<lambda>e s. record_entry s e) es s = Inr s' \<Longrightarrow>
     st_entries s' = st_entries s @ es \<and> st_metadata s' = st_metadata s"
proof (induction es arbitrary: s)
  case (Cons e es)
  then obtain s1 where "record_entry s e = Inr s1"
    "fold_res (\<lambda>e s. record_entry s e) es s1 = Inr s'"
    by (auto simp: bind_res_eq_Inr)
  with Cons.IH record_entry_fields show ?case by fastforce
qed simp

lemma fold_record_rebuilt:
  assumes "rebuilt s" "fold_res (\<lambda>e s. record_entry s e) es s = Inr s'"
  shows "rebuilt s'"
  using fold_res_invariant [where I = rebuilt, OF assms(2,1)] record_entry_rebuilt by blast

section \<open>Reachable storages\<close>

text \<open>What the code can build: a constructor call followed by recorded entries.\<close>

inductive reachable_storage :: "storage \<Rightarrow> bool" where
  constructed: "new_in_memory_storage md es = Inr s \<Longrightarrow> reachable_storage s"
| recorded: "reachable_storage s \<Longrightarrow> mem_append_entry s e = Inr s' \<Longrightarrow> reachable_storage s'"
| leaf_moved: "reachable_storage s \<Longrightarrow> mem_set_leaf_id supply now (s, g) leaf = Inr (s', g') \<Longrightarrow>
    reachable_storage s'"

inductive_cases reachable_storageE: "reachable_storage s"

lemma reachable_rebuilt: "reachable_storage s \<Longrightarrow> rebuilt s"
proof (induction rule: reachable_storage.induct)
  case (constructed md es s)
  then show ?case by (simp add: new_in_memory_storage_def init_storage_rebuilt)
next
  case (recorded s e s')
  then show ?case by (simp add: mem_append_entry_def record_entry_rebuilt)
next
  case (leaf_moved s sup tm g leaf s' g')
  then obtain e where "record_entry s e = Inr s'"
    by (auto simp: mem_set_leaf_id_def bind_res_eq_Inr split: prod.splits)
  with leaf_moved.IH show ?case by (rule record_entry_rebuilt)
qed

text \<open>The index is finite and files every entry under its own id.\<close>

definition index_ok :: "storage \<Rightarrow> bool" where
  "index_ok s \<longleftrightarrow>
     finite (dom (st_by_id s)) \<and> (\<forall>k e. st_by_id s k = Some e \<longrightarrow> e_id e = k)
     \<and> dom (st_logical_parents_by_id s) \<subseteq> dom (st_by_id s)"

lemma build_by_id_facts:
  "finite (dom (build_by_id es)) \<and> (\<forall>k e. build_by_id es k = Some e \<longrightarrow> e_id e = k)
   \<and> dom (build_logical_parents_by_id es) \<subseteq> dom (build_by_id es)
   \<and> ran (build_by_id es) \<subseteq> set es \<and> dom (build_by_id es) = e_id ` set es"
proof (induction es rule: rev_induct)
  case Nil
  then show ?case by (simp add: build_by_id_def build_logical_parents_by_id_def)
next
  case (snoc e es)
  have ran: "ran (m(k \<mapsto> e)) \<subseteq> insert e (ran m)"
    for m :: "string \<rightharpoonup> session_tree_entry" and k
    by (auto simp: ran_def)
  have dom: "dom (build_by_id (es @ [e])) = insert (e_id e) (dom (build_by_id es))"
    by simp
  have "dom (build_logical_parents_by_id (es @ [e]))
    \<subseteq> insert (e_id e) (dom (build_logical_parents_by_id es))"
    by (simp add: subset_insertI)
  moreover have "dom (build_logical_parents_by_id es) \<subseteq> dom (build_by_id es)"
    using snoc by blast
  ultimately have "dom (build_logical_parents_by_id (es @ [e])) \<subseteq> dom (build_by_id (es @ [e]))"
    unfolding dom by (meson insert_mono subset_trans)
  moreover have "ran (build_by_id (es @ [e])) \<subseteq> set (es @ [e])"
    using ran [of "build_by_id es" "e_id e"] snoc unfolding build_by_id_snoc by auto
  moreover have "\<forall>k x. build_by_id (es @ [e]) k = Some x \<longrightarrow> e_id x = k"
    using snoc by simp
  moreover have "finite (dom (build_by_id (es @ [e])))"
    using dom snoc by simp
  moreover have "dom (build_by_id (es @ [e])) = e_id ` set (es @ [e])"
    using dom snoc by simp
  ultimately show ?case by blast
qed

lemma rebuilt_index_ok: "rebuilt s \<Longrightarrow> index_ok s"
  using build_by_id_facts [of "st_entries s"] unfolding rebuilt_fields index_ok_def by metis

lemma reachable_index_ok: "reachable_storage s \<Longrightarrow> index_ok s"
  by (simp add: reachable_rebuilt rebuilt_index_ok)

lemma index_okD: "index_ok s \<Longrightarrow> st_by_id s k = Some e \<Longrightarrow> e_id e = k"
  by (simp add: index_ok_def)

section \<open>The walk to the root\<close>

lemma path_loop_returns:
  assumes "finite (dom by_id)" "\<And>k e. by_id k = Some e \<Longrightarrow> e_id e = k"
    and "by_id (e_id c) = Some c"
  shows "\<exists>r. path_loop by_id lp seen path c = Some r"
  using assms(3)
proof (induction "card (dom by_id - seen)" arbitrary: seen path c rule: less_induct)
  case less
  show ?case
  proof (cases "e_id c \<in> seen")
    case True
    then show ?thesis by (subst path_loop.simps) simp
  next
    case False
    with less.prems assms(1) have lt:
      "card (dom by_id - insert (e_id c) seen) < card (dom by_id - seen)"
      by (intro psubset_card_mono) auto
    have "by_id p = Some e \<Longrightarrow> by_id (e_id e) = Some e" for p e
      using assms(2) by simp
    with less.hyps [OF lt] False show ?thesis
      by (subst path_loop.simps) (auto simp: Let_def split: option.splits)
  qed
qed

lemma get_path_returns:
  assumes "index_ok s"
  shows "\<exists>r. get_path_to_root s l = Some r"
proof (cases "\<exists>k c. l = Some k \<and> st_by_id s k = Some c")
  case True
  then obtain k c where kc: "l = Some k" "st_by_id s k = Some c" by auto
  with assms have "st_by_id s (e_id c) = Some c" by (simp add: index_okD)
  with path_loop_returns [of "st_by_id s" c] assms kc show ?thesis
    by (simp add: get_path_to_root_def index_ok_def)
qed (auto simp: get_path_to_root_def split: option.splits)

text \<open>
  The specification: the chain of walk parents from an entry to a root, oldest entry first.
\<close>

inductive walks ::
  "(string \<rightharpoonup> session_tree_entry) \<Rightarrow> (string \<rightharpoonup> string option) \<Rightarrow> session_tree_entry
     \<Rightarrow> session_tree_entry list \<Rightarrow> bool"
  for by_id lp where
  walk_root: "walk_parent lp e \<in> {None, Some []} \<Longrightarrow> walks by_id lp e [e]"
| walk_up: "walk_parent lp e = Some p \<Longrightarrow> p \<noteq> [] \<Longrightarrow> by_id p = Some e' \<Longrightarrow> walks by_id lp e' path \<Longrightarrow>
    walks by_id lp e (path @ [e])"

inductive_simps walks_simps: "walks by_id lp e path"

lemma walks_at_root:
  "walk_parent lp e \<in> {None, Some []} \<Longrightarrow> walks by_id lp e q \<longleftrightarrow> q = [e]"
  by (subst walks_simps) auto

lemma walks_above:
  "walk_parent lp e = Some p \<Longrightarrow> p \<noteq> [] \<Longrightarrow>
   walks by_id lp e q \<longleftrightarrow> (\<exists>e' r. by_id p = Some e' \<and> walks by_id lp e' r \<and> q = r @ [e])"
  by (subst walks_simps) auto

lemma walks_unique: "walks by_id lp e p \<Longrightarrow> walks by_id lp e q \<Longrightarrow> q = p"
proof (induction arbitrary: q rule: walks.induct)
  case (walk_root e)
  then show ?case by (simp add: walks_at_root)
next
  case (walk_up e p e' path)
  from walk_up.prems obtain r where "walks by_id lp e' r" "q = r @ [e]"
    using walk_up.hyps(1-3) by (auto simp: walks_above)
  with walk_up.IH show ?case by simp
qed

lemma walks_last: "walks by_id lp e p \<Longrightarrow> p \<noteq> [] \<and> last p = e"
  by (induction rule: walks.induct) auto

lemma walks_suffix:
  "walks by_id lp e p \<Longrightarrow> x \<in> set p \<Longrightarrow> \<exists>q r. walks by_id lp x q \<and> p = q @ r"
proof (induction rule: walks.induct)
  case (walk_root e)
  then have "walks by_id lp x [e]" by (simp add: walks_at_root)
  then show ?case by blast
next
  case (walk_up e p e' path)
  show ?case
  proof (cases "x = e")
    case True
    from walk_up.hyps have "walks by_id lp e (path @ [e])" by (rule walks.walk_up)
    with True show ?thesis by blast
  next
    case False
    with walk_up.prems walk_up.IH obtain q r where "walks by_id lp x q" "path = q @ r" by auto
    then show ?thesis by (intro exI [of _ q] exI [of _ "r @ [e]"]) simp
  qed
qed

lemma walks_ids_distinct:
  assumes "walks by_id lp e p" "by_id (e_id e) = Some e"
    and "\<And>k x. by_id k = Some x \<Longrightarrow> e_id x = k"
  shows "distinct (map e_id p) \<and> (\<forall>x\<in>set p. by_id (e_id x) = Some x)"
  using assms(1,2)
proof (induction rule: walks.induct)
  case (walk_root e)
  then show ?case by simp
next
  case (walk_up e p e' path)
  then have e': "by_id (e_id e') = Some e'" using assms(3) [of p e'] by simp
  with walk_up.IH have IH: "distinct (map e_id path)" "\<forall>x\<in>set path. by_id (e_id x) = Some x" by blast+
  have "e_id e \<notin> e_id ` set path"
  proof
    assume "e_id e \<in> e_id ` set path"
    then obtain x where x: "x \<in> set path" "e_id x = e_id e" by auto
    with IH(2) have "by_id (e_id e) = Some x" by metis
    with walk_up.prems x(1) have "e \<in> set path" by simp
    with walk_up.hyps(4) obtain q r where q: "walks by_id lp e q" "path = q @ r"
      using walks_suffix [OF walk_up.hyps(4)] by metis
    moreover have "walks by_id lp e (path @ [e])"
      using walk_up.hyps by (rule walks.walk_up)
    ultimately have "path @ [e] = q" by (metis walks_unique)
    with q(2) show False by simp
  qed
  with IH walk_up.prems show ?case by auto
qed

abbreviation without_leaves :: "session_tree_entry list \<Rightarrow> session_tree_entry list" where
  "without_leaves \<equiv> filter (\<lambda>e. \<not> is_leaf e)"

lemma path_loop_sound:
  "path_loop by_id lp seen path c = Some res \<Longrightarrow> res = Inr r \<Longrightarrow>
   \<exists>w. walks by_id lp c w \<and> r = without_leaves w @ path"
proof (induction arbitrary: r rule: path_loop.raw_induct [rotated, consumes 1, case_names step])
  case (step rec by_id lp seen path c res)
  let ?path' = "if is_leaf c then path else c # path"
  show ?case
  proof (cases "walk_parent lp c \<in> {None, Some []}")
    case True
    with step.prems step.hyps have "r = ?path'" by (auto simp: Let_def split: if_splits)
    with True show ?thesis by (intro exI [of _ "[c]"]) (simp add: walks_at_root)
  next
    case False
    then obtain p where p: "walk_parent lp c = Some p" "p \<noteq> []" by auto
    with step.prems step.hyps obtain e where e: "by_id p = Some e"
      "rec by_id lp (insert (e_id c) seen) ?path' e = Some (Inr r)"
      by (auto simp: Let_def split: if_splits option.splits)
    from step.IH [OF e(2) refl] obtain w where "walks by_id lp e w" "r = without_leaves w @ ?path'"
      by auto
    with p e show ?thesis by (intro exI [of _ "w @ [c]"]) (simp add: walks_above)
  qed
qed

lemma path_loop_complete:
  assumes "walks by_id lp c w" "distinct (map e_id w)" "e_id ` set w \<inter> seen = {}"
  shows "path_loop by_id lp seen path c = Some (Inr (without_leaves w @ path))"
  using assms
proof (induction arbitrary: seen path rule: walks.induct)
  case (walk_root e)
  then show ?case by (subst path_loop.simps) (auto simp: Let_def)
next
  case (walk_up e p e' w)
  let ?path = "if is_leaf e then path else e # path"
  from walk_up.prems have "e_id e \<notin> seen" "distinct (map e_id w)"
    "e_id ` set w \<inter> insert (e_id e) seen = {}" by auto
  with walk_up.hyps(1-3) walk_up.IH [of "insert (e_id e) seen" ?path] show ?case
    by (subst path_loop.simps) (simp add: Let_def)
qed

lemma get_path_iff:
  assumes "index_ok s" "st_by_id s l = Some c"
  shows "get_path_to_root s (Some l) = Some (Inr r) \<longleftrightarrow>
    (\<exists>w. walks (st_by_id s) (st_logical_parents_by_id s) c w \<and> r = without_leaves w)"
proof
  assume "get_path_to_root s (Some l) = Some (Inr r)"
  with assms(2) show "\<exists>w. walks (st_by_id s) (st_logical_parents_by_id s) c w \<and> r = without_leaves w"
    using path_loop_sound by (fastforce simp: get_path_to_root_def)
next
  assume "\<exists>w. walks (st_by_id s) (st_logical_parents_by_id s) c w \<and> r = without_leaves w"
  then obtain w where w: "walks (st_by_id s) (st_logical_parents_by_id s) c w" "r = without_leaves w"
    by auto
  have "distinct (map e_id w)"
    using walks_ids_distinct [OF w(1)] assms by (simp add: index_okD)
  from path_loop_complete [OF w(1) this] w(2) assms(2)
  show "get_path_to_root s (Some l) = Some (Inr r)"
    by (simp add: get_path_to_root_def)
qed

lemma get_path_entries:
  assumes "rebuilt s" "get_path_to_root s l = Some (Inr r)"
  shows "set r \<subseteq> set (st_entries s) \<and> distinct (map e_id r) \<and> list_all (\<lambda>e. \<not> is_leaf e) r"
proof (cases "\<exists>k c. l = Some k \<and> st_by_id s k = Some c")
  case True
  then obtain k c where kc: "l = Some k" "st_by_id s k = Some c" by auto
  have ix: "index_ok s" using assms(1) by (rule rebuilt_index_ok)
  with assms(2) kc obtain w where
    w: "walks (st_by_id s) (st_logical_parents_by_id s) c w" "r = without_leaves w"
    by (auto simp: get_path_iff)
  from walks_ids_distinct [OF w(1)] ix kc(2)
  have d: "distinct (map e_id w)" "\<forall>x\<in>set w. st_by_id s (e_id x) = Some x"
    by (auto simp: index_okD)
  have "set w \<subseteq> set (st_entries s)"
  proof
    fix x assume "x \<in> set w"
    with d(2) have "x \<in> ran (st_by_id s)" by (auto simp: ran_def)
    with assms(1) build_by_id_facts [of "st_entries s"] show "x \<in> set (st_entries s)"
      by (auto simp: rebuilt_fields)
  qed
  with d w(2) show ?thesis
    by (auto simp: list_all_iff distinct_map inj_on_def)
next
  case False
  with assms(2) show ?thesis
    by (auto simp: get_path_to_root_def split: option.splits)
qed

section \<open>Appending and moving\<close>

lemma walks_fresh_update:
  assumes "walks m lp c w" "m k = None" "e_id e = k" "c \<noteq> e" "\<And>j x. m j = Some x \<Longrightarrow> e_id x = j"
    and "m (e_id c) = Some c" "\<And>x. x \<noteq> k \<Longrightarrow> lp' x = lp x"
  shows "walks (m(k \<mapsto> e)) lp' c w"
  using assms(1,4,6)
proof (induction rule: walks.induct)
  case (walk_root c)
  then have "e_id c \<noteq> k" using assms(2) by auto
  with walk_root assms(7) have "walk_parent lp' c \<in> {None, Some []}"
    by (auto simp: walk_parent_def split: entry_body.splits)
  then show ?case by (simp add: walks_at_root)
next
  case (walk_up c p c' w)
  then have c: "e_id c \<noteq> k" using assms(2) by auto
  with walk_up.hyps(1) assms(7) have wp: "walk_parent lp' c = Some p"
    by (simp add: walk_parent_def split: entry_body.splits)
  have p: "p \<noteq> k" using walk_up.hyps(3) assms(2) by auto
  have "c' \<noteq> e" "m (e_id c') = Some c'"
    using walk_up.hyps(3) assms(5) [OF walk_up.hyps(3)] assms(2,3) by auto
  then have "walks (m(k \<mapsto> e)) lp' c' w" by (rule walk_up.IH)
  moreover have "(m(k \<mapsto> e)) p = Some c'" using walk_up.hyps(3) p by simp
  ultimately show ?case using walks.walk_up [OF wp walk_up.hyps(2)] by blast
qed

lemma record_entry_keeps_walks:
  assumes "index_ok s" "record_entry s e = Inr s'" "st_by_id s (e_id e) = None"
    and "walks (st_by_id s) (st_logical_parents_by_id s) c w" "st_by_id s (e_id c) = Some c"
  shows "walks (st_by_id s') (st_logical_parents_by_id s') c w"
proof -
  have m: "st_by_id s' = (st_by_id s)(e_id e \<mapsto> e)"
    using assms(2) by (simp add: record_entry_fields)
  have lp: "x \<noteq> e_id e \<Longrightarrow> st_logical_parents_by_id s' x = st_logical_parents_by_id s x" for x
    using assms(2) by (auto simp: record_entry_def bind_res_eq_Inr Let_def)
  have ce: "c \<noteq> e" using assms(3,5) by auto
  show ?thesis
    unfolding m
    by (rule walks_fresh_update [OF assms(4,3) refl ce index_okD [OF assms(1)] assms(5) lp])
qed

lemma record_entry_keeps_paths:
  assumes "rebuilt s" "record_entry s e = Inr s'" "st_by_id s (e_id e) = None"
    and "get_path_to_root s (Some l) = Some (Inr r)"
  shows "get_path_to_root s' (Some l) = Some (Inr r)"
proof -
  have ix: "index_ok s" "index_ok s'"
    using assms(1,2) record_entry_rebuilt rebuilt_index_ok by blast+
  obtain c where c: "st_by_id s l = Some c"
    using assms(4) by (auto simp: get_path_to_root_def split: option.splits)
  with assms(4) ix obtain w where
    w: "walks (st_by_id s) (st_logical_parents_by_id s) c w" "r = without_leaves w"
    by (auto simp: get_path_iff)
  have "st_by_id s (e_id c) = Some c" using ix c by (simp add: index_okD)
  with record_entry_keeps_walks [OF ix(1) assms(2,3) w(1)]
  have "walks (st_by_id s') (st_logical_parents_by_id s') c w" .
  moreover have "st_by_id s' l = Some c"
    using c assms(2,3) by (auto simp: record_entry_fields)
  ultimately show ?thesis using w(2) ix(2) by (auto simp: get_path_iff)
qed

lemma record_entry_leaf_id:
  "record_entry s e = Inr s' \<Longrightarrow> \<not> is_leaf e \<Longrightarrow>
     st_leaf_id s' = (if is_side_append_entry e then st_leaf_id s else Some (e_id e))
     \<and> st_append_parent_id s' = Some (e_id e)"
  by (auto simp: record_entry_def bind_res_eq_Inr Let_def leaf_update_cases append_parent_new)

lemma record_entry_never_fails:
  "\<not> is_leaf e \<Longrightarrow> \<exists>s'. record_entry s e = Inr s'"
  by (auto simp: record_entry_def validate_entry_for_append_def Let_def leaf_update_cases
      append_parent_new)

lemma record_entry_walk_parent:
  assumes "rebuilt s" "record_entry s e = Inr s'" "st_by_id s (e_id e) = None"
    and "\<not> is_leaf e" "\<not> is_side_append_entry e" "e_parentId e = st_append_parent_id s"
  shows "walk_parent (st_logical_parents_by_id s') e = st_leaf_id s"
proof -
  have "st_logical_parents_by_id s (e_id e) = None"
    using rebuilt_index_ok [OF assms(1)] assms(3) by (auto simp: index_ok_def)
  moreover have "leaf_id_update_after_entry e = Some (e_id e)"
    using assms(4,5) by (simp add: leaf_update_cases)
  ultimately have "(case st_logical_parents_by_id s' (e_id e) of Some p \<Rightarrow> p | None \<Rightarrow> e_parentId e)
    = st_leaf_id s"
    using assms(2,5,6)
    by (auto simp: record_entry_def bind_res_eq_Inr Let_def takes_logical_parent_def)
  with assms(4) show ?thesis
    by (cases "e_body e") (simp_all add: walk_parent_def is_leaf_def)
qed

lemma record_entry_extends_branch:
  assumes "rebuilt s" "record_entry s e = Inr s'" "st_by_id s (e_id e) = None"
    and "\<not> is_leaf e" "\<not> is_side_append_entry e" "e_parentId e = st_append_parent_id s"
    and "st_by_id s [] = None" "get_path_to_root s (st_leaf_id s) = Some (Inr r)"
  shows "get_path_to_root s' (st_leaf_id s') = Some (Inr (r @ [e]))"
proof -
  let ?m = "st_by_id s'" and ?lp = "st_logical_parents_by_id s'"
  have ix: "index_ok s" "index_ok s'"
    using assms(1,2) record_entry_rebuilt rebuilt_index_ok by blast+
  have leaf: "st_leaf_id s' = Some (e_id e)"
    using assms(2,4,5) by (simp add: record_entry_leaf_id)
  have m: "?m (e_id e) = Some e"
    using record_entry_fields [OF assms(2)] by simp
  note wp = record_entry_walk_parent [OF assms(1-6)]
  have "\<exists>w. walks ?m ?lp e w \<and> r @ [e] = without_leaves w"
  proof (cases "st_leaf_id s")
    case None
    with assms(8) have "r = []" by (simp add: get_path_to_root_def)
    with wp None assms(4) have "walks ?m ?lp e [e] \<and> r @ [e] = without_leaves [e]"
      by (simp add: walks_at_root)
    then show ?thesis by blast
  next
    case (Some l)
    then obtain c where c: "st_by_id s l = Some c"
      using assms(8) by (auto simp: get_path_to_root_def split: option.splits)
    with ix Some assms(8) obtain w where
      w: "walks (st_by_id s) (st_logical_parents_by_id s) c w" "r = without_leaves w"
      by (auto simp: get_path_iff)
    have "st_by_id s (e_id c) = Some c" using ix c by (simp add: index_okD)
    with record_entry_keeps_walks [OF ix(1) assms(2,3) w(1)] have "walks ?m ?lp c w" .
    moreover have "?m l = Some c" "l \<noteq> []"
      using c assms(3,7) record_entry_fields [OF assms(2)] by auto
    ultimately have "walks ?m ?lp e (w @ [e])"
      using wp Some by (auto simp: walks_above)
    with w(2) assms(4) have "walks ?m ?lp e (w @ [e]) \<and> r @ [e] = without_leaves (w @ [e])"
      by simp
    then show ?thesis by blast
  qed
  with leaf m ix(2) show ?thesis by (simp add: get_path_iff)
qed

lemma record_leaf_moves:
  assumes "rebuilt s" "record_entry s e = Inr s'" "st_by_id s (e_id e) = None"
    and "e_body e = LeafE (Some x) None" "get_path_to_root s (Some x) = Some (Inr r)"
  shows "st_leaf_id s' = Some x \<and> st_append_parent_id s' = Some x
    \<and> get_path_to_root s' (st_leaf_id s') = Some (Inr r)"
proof -
  have "st_leaf_id s' = Some x \<and> st_append_parent_id s' = Some x"
    using assms(2,4)
    by (auto simp: record_entry_def bind_res_eq_Inr Let_def leaf_update_leaf append_parent_leaf)
  with record_entry_keeps_paths [OF assms(1,2,3,5)] show ?thesis by simp
qed

lemma mem_set_leaf_idD:
  assumes "mem_set_leaf_id rnd now (s, g) leaf = Inr (s', g')"
  obtains e where "record_entry s e = Inr s'" "e_body e = LeafE leaf None"
    "e_id e = fst (create_entry_id rnd s g)" "\<not> missing (st_by_id s) leaf"
    "e_parentId e = st_append_parent_id s"
  using assms
  by (fastforce simp: mem_set_leaf_id_def create_leaf_entry_def bind_res_eq_Inr
      split: prod.splits if_splits)

lemma mem_set_leaf_id_total:
  assumes "\<not> missing (st_by_id s) leaf"
  shows "\<exists>t. mem_set_leaf_id rnd now (s, g) leaf = Inr t"
proof -
  obtain k g' where k: "create_entry_id rnd s g = (k, g')" by force
  let ?e = "\<lparr>e_id = k, e_parentId = st_append_parent_id s, e_timestamp = now,
    e_appendMode = None, e_body = LeafE leaf None\<rparr>"
  have "validate_entry_for_append s ?e = Inr ()"
    using assms by (simp add: validate_entry_for_append_def leaf_update_leaf append_parent_leaf)
  then obtain t where "record_entry s ?e = Inr t"
    by (simp add: record_entry_def Let_def)
  with k assms show ?thesis
    by (simp add: mem_set_leaf_id_def create_leaf_entry_def)
qed

section \<open>A small session\<close>

text \<open>
  A session with two messages, a move back to the first one and a message on the new branch:
  \<open>''d''\<close> is appended after the leaf entry \<open>''c''\<close>, whose append parent is \<open>''a''\<close>.
\<close>

definition demo_message :: "string \<Rightarrow> string option \<Rightarrow> string \<Rightarrow> session_tree_entry" where
  "demo_message k parent txt =
     \<lparr>e_id = k, e_parentId = parent, e_timestamp = ''2024-01-01T00:00:00Z'', e_appendMode = None,
      e_body = MessageE (VDict [(''role'', VStr ''user''), (''content'', VStr txt)])\<rparr>"

definition demo_leaf :: "string \<Rightarrow> string option \<Rightarrow> string option \<Rightarrow> session_tree_entry" where
  "demo_leaf k parent tgt =
     \<lparr>e_id = k, e_parentId = parent, e_timestamp = ''2024-01-01T00:00:00Z'', e_appendMode = None,
      e_body = LeafE tgt None\<rparr>"

definition demo_metadata :: session_metadata where
  "demo_metadata = \<lparr>md_id = ''s'', md_createdAt = ''2024-01-01T00:00:00Z''\<rparr>"

definition demo_log :: "session_tree_entry list" where
  "demo_log = [demo_message ''a'' None ''one'', demo_message ''b'' (Some ''a'') ''two'',
     demo_leaf ''c'' (Some ''b'') (Some ''a''), demo_message ''d'' (Some ''a'') ''three'']"

definition demo_storage :: storage where
  "demo_storage = projr (new_in_memory_storage demo_metadata demo_log)"

definition demo_supply :: "nat \<Rightarrow> uuid_sample" where
  "demo_supply n = \<lparr>smp_now_ms = 1700000000000 + 65536 * int n, smp_random = replicate 16 7\<rparr>"

lemmas demo_defs =
  demo_message_def demo_leaf_def demo_metadata_def demo_log_def demo_storage_def

lemmas storage_eval =
  new_in_memory_storage_def init_storage_def build_by_id_def build_labels_by_id_def
  build_logical_parents_by_id_def resolve_leaf_id_def resolve_append_parent_id_def
  leaf_id_update_after_entry_def append_parent_id_after_entry_def update_label_cache_def
  takes_logical_parent_def is_side_append_entry_def is_leaf_def missing_def Let_def

lemma demo_storage_constructed: "new_in_memory_storage demo_metadata demo_log = Inr demo_storage"
  by (simp add: demo_defs storage_eval)

lemma demo_storage_reachable: "reachable_storage demo_storage"
  using demo_storage_constructed by (rule reachable_storage.constructed)

lemma demo_storage_fields:
  "st_by_id demo_storage = [''a'' \<mapsto> demo_message ''a'' None ''one'',
     ''b'' \<mapsto> demo_message ''b'' (Some ''a'') ''two'', ''c'' \<mapsto> demo_leaf ''c'' (Some ''b'') (Some ''a''),
     ''d'' \<mapsto> demo_message ''d'' (Some ''a'') ''three'']"
  "st_leaf_id demo_storage = Some ''d''"
  by (simp_all add: demo_defs storage_eval)

lemma demo_logical_parents: "st_logical_parents_by_id demo_storage = Map.empty"
  by (simp add: demo_defs storage_eval)

lemma demo_path_a: "get_path_to_root demo_storage (Some ''a'') = Some (Inr [demo_message ''a'' None ''one''])"
proof -
  have "walk_parent Map.empty (demo_message ''a'' None ''one'') = None"
    "\<not> is_leaf (demo_message ''a'' None ''one'')"
    by (simp_all add: walk_parent_def demo_message_def is_leaf_def)
  then show ?thesis
    by (subst get_path_to_root_def)
       (simp add: demo_storage_fields demo_logical_parents path_loop.simps [of _ _ "{}"])
qed

section \<open>Properties\<close>

text \<open>
  C1. On every storage the code can build, the walk to the root from an entry that exists
  ends, and it returns a path exactly when the chain of walk parents from that entry reaches a
  root: the path is that chain without its leaf entries, oldest entry first.
\<close>

theorem path_to_root_correct:
  assumes "reachable_storage s" "st_by_id s l = Some c"
  shows "get_path_to_root s (Some l) \<noteq> None \<and>
    (get_path_to_root s (Some l) = Some (Inr r) \<longleftrightarrow>
      (\<exists>w. walks (st_by_id s) (st_logical_parents_by_id s) c w \<and> r = without_leaves w))"
  using get_path_returns [OF reachable_index_ok [OF assms(1)], of "Some l"]
    get_path_iff [OF reachable_index_ok [OF assms(1)] assms(2)] by auto

theorem path_to_root_correct_witness:
  "\<exists>w. walks (st_by_id demo_storage) (st_logical_parents_by_id demo_storage)
         (demo_message ''a'' None ''one'') w \<and> [demo_message ''a'' None ''one''] = without_leaves w"
proof -
  have "st_by_id demo_storage ''a'' = Some (demo_message ''a'' None ''one'')"
    by (simp add: demo_storage_fields)
  from path_to_root_correct [OF demo_storage_reachable this, THEN conjunct2, THEN iffD1, OF demo_path_a]
  show ?thesis .
qed

text \<open>
  A path that the walk returns consists of entries of the log, none of them a leaf entry,
  with pairwise distinct identifiers.
\<close>

theorem path_entries_in_log:
  assumes "reachable_storage s" "get_path_to_root s l = Some (Inr r)"
  shows "set r \<subseteq> set (get_entries s) \<and> distinct (map e_id r) \<and> list_all (\<lambda>e. \<not> is_leaf e) r"
  using get_path_entries [OF reachable_rebuilt [OF assms(1)] assms(2)] by (simp add: get_entries_def)

theorem path_entries_in_log_witness:
  "set [demo_message ''a'' None ''one''] \<subseteq> set (get_entries demo_storage)"
  using path_entries_in_log [OF demo_storage_reachable demo_path_a] by blast

text \<open>
  C2. Reopening a log: constructing a storage from the entries that were recorded one by one
  gives the storage that recorded them, with the same index, labels, logical parents, leaf and
  append parent.
\<close>

theorem session_log_reopens:
  assumes "new_in_memory_storage md es = Inr s"
    and "fold_res (\<lambda>e s. mem_append_entry s e) fs s = Inr s'"
  shows "new_in_memory_storage md (es @ fs) = Inr s'"
proof -
  have s: "rebuilt s" "st_entries s = es" "st_metadata s = md"
    using assms(1) init_storage_rebuilt init_storage_fields by (auto simp: new_in_memory_storage_def)
  from assms(2) have f: "fold_res (\<lambda>e s. record_entry s e) fs s = Inr s'"
    by (simp add: mem_append_entry_def)
  from fold_record_rebuilt [OF s(1) f] fold_record_fields [OF f] s show ?thesis
    by (simp add: rebuilt_def new_in_memory_storage_def)
qed

theorem session_log_reopens_witness:
  "\<exists>s s'. new_in_memory_storage demo_metadata (take 3 demo_log) = Inr s
     \<and> fold_res (\<lambda>e s. mem_append_entry s e) (drop 3 demo_log) s = Inr s'
     \<and> new_in_memory_storage demo_metadata (take 3 demo_log @ drop 3 demo_log) = Inr s'"
proof -
  obtain s where s: "new_in_memory_storage demo_metadata (take 3 demo_log) = Inr s"
    by (simp add: demo_defs storage_eval)
  obtain s' where s': "fold_res (\<lambda>e s. mem_append_entry s e) (drop 3 demo_log) s = Inr s'"
    using record_entry_never_fails [of "demo_message ''d'' (Some ''a'') ''three''" s]
    by (auto simp: demo_log_def mem_append_entry_def demo_message_def is_leaf_def)
  from s s' session_log_reopens [OF s s'] show ?thesis by blast
qed

text \<open>
  Moving the leaf to an existing entry makes that entry the leaf and the append parent, and
  the current branch is then the path to that entry, as it was before the move.
\<close>

theorem leaf_move_switches_branch:
  assumes "reachable_storage s" "mem_set_leaf_id rnd now (s, g) (Some x) = Inr (s', g')"
    and "st_by_id s (fst (create_entry_id rnd s g)) = None"
    and "get_path_to_root s (Some x) = Some (Inr r)"
  shows "get_leaf_id s' = Inr (Some x) \<and> get_append_parent_id s' = Inr (Some x)
    \<and> get_path_to_root s' (st_leaf_id s') = Some (Inr r)"
proof -
  from assms(2) obtain e where e: "record_entry s e = Inr s'" "e_body e = LeafE (Some x) None"
    "e_id e = fst (create_entry_id rnd s g)" by (rule mem_set_leaf_idD)
  note rb = reachable_rebuilt [OF assms(1)]
  have "st_leaf_id s' = Some x \<and> st_append_parent_id s' = Some x
    \<and> get_path_to_root s' (st_leaf_id s') = Some (Inr r)"
    using assms(3) e(3) by (intro record_leaf_moves [OF rb e(1) _ e(2) assms(4)]) simp
  moreover have "rebuilt s'" using rb e(1) by (rule record_entry_rebuilt)
  ultimately show ?thesis by (auto simp: rebuilt_fields get_leaf_id_def get_append_parent_id_def)
qed

lemma generate_entry_id_length:
  "length (fst (generate_entry_id rnd taken g)) \<in> {8, 36}"
proof -
  have "length (fst (try_entry_id n rnd taken g)) \<in> {8, 36}" for n
  proof (induction n arbitrary: g)
    case (Suc n)
    obtain u g' where u: "next_uuid rnd g = (u, g')" by force
    have "length u = 36" using next_uuid_length [of rnd g] u by simp
    with u Suc show ?case by (simp add: Let_def)
  qed simp
  then show ?thesis by (simp add: generate_entry_id_def)
qed

lemma demo_id_fresh: "st_by_id demo_storage (fst (create_entry_id rnd demo_storage g)) = None"
proof -
  have "length k \<noteq> 1 \<Longrightarrow> st_by_id demo_storage k = None" for k
    by (auto simp: demo_storage_fields)
  moreover have "length (fst (create_entry_id rnd demo_storage g)) \<in> {8, 36}"
    unfolding create_entry_id_def by (rule generate_entry_id_length)
  then have "length (fst (create_entry_id rnd demo_storage g)) \<noteq> 1" by auto
  ultimately show ?thesis by blast
qed

lemma demo_set_leaf:
  "leaf = None \<or> leaf = Some ''a'' \<Longrightarrow> \<exists>r. mem_set_leaf_id rnd now (demo_storage, g) leaf = Inr r"
  by (rule mem_set_leaf_id_total) (auto simp: missing_def demo_storage_fields)

theorem leaf_move_switches_branch_witness:
  "\<exists>s' g'. mem_set_leaf_id demo_supply ''now'' (demo_storage, \<lparr>ig_state = initial_uuid_state, ig_calls = 0\<rparr>)
       (Some ''a'') = Inr (s', g')
     \<and> get_path_to_root s' (st_leaf_id s') = Some (Inr [demo_message ''a'' None ''one''])"
proof -
  obtain s' g' where "mem_set_leaf_id demo_supply ''now''
      (demo_storage, \<lparr>ig_state = initial_uuid_state, ig_calls = 0\<rparr>) (Some ''a'') = Inr (s', g')"
    using demo_set_leaf [of "Some ''a''"] by fastforce
  with leaf_move_switches_branch [OF demo_storage_reachable _ demo_id_fresh demo_path_a] show ?thesis
    by blast
qed

text \<open>
  Moving to the root does not move: after \<open>set_leaf_id(None)\<close> the leaf is the old one and
  only the append parent is cleared, so the current branch still ends at the old leaf although
  the next entry is appended at top level.
\<close>

theorem move_to_root_keeps_leaf:
  assumes "mem_set_leaf_id rnd now (s, g) None = Inr (s', g')"
  shows "st_leaf_id s' = st_leaf_id s \<and> get_append_parent_id s' = Inr None"
proof -
  from assms obtain e where "record_entry s e = Inr s'" "e_body e = LeafE None None"
    by (rule mem_set_leaf_idD)
  then show ?thesis
    by (auto simp: record_entry_def bind_res_eq_Inr Let_def leaf_update_leaf append_parent_leaf
        get_append_parent_id_def missing_def)
qed

theorem move_to_root_keeps_leaf_witness:
  "\<exists>s' g'. mem_set_leaf_id demo_supply ''now'' (demo_storage, \<lparr>ig_state = initial_uuid_state, ig_calls = 0\<rparr>)
       None = Inr (s', g') \<and> st_leaf_id s' = Some ''d''"
proof -
  obtain s' g' where r: "mem_set_leaf_id demo_supply ''now''
      (demo_storage, \<lparr>ig_state = initial_uuid_state, ig_calls = 0\<rparr>) None = Inr (s', g')"
    using demo_set_leaf [of None] by fastforce
  with move_to_root_keeps_leaf [OF r] show ?thesis
    by (auto simp: demo_storage_fields)
qed

end
