(* ===== verification/PyEffects.thy ===== *)
theory PyEffects
  imports PyPrelude
begin

text \<open>
  Computations with a state that may raise: a function from the state to a result and the new
  state, which is returned on the error branches too. \<open>bind_act\<close> is the sequencing of statements,
  \<open>catch_act\<close> a \<^verbatim>\<open>try\<close> with an \<^verbatim>\<open>except Exception\<close>, \<open>each_act\<close> a \<^verbatim>\<open>for\<close> loop over a list.
\<close>

type_synonym ('s, 'a) act = "'s \<Rightarrow> 'a res \<times> 's"

definition ret_act :: "'a \<Rightarrow> ('s, 'a) act" where
  "ret_act x s = (Inr x, s)"

definition raise_act :: "pyexn \<Rightarrow> ('s, 'a) act" where
  "raise_act e s = (Inl e, s)"

definition bind_act :: "('s, 'a) act \<Rightarrow> ('a \<Rightarrow> ('s, 'b) act) \<Rightarrow> ('s, 'b) act" where
  "bind_act m f s = (case m s of (Inl e, s') \<Rightarrow> (Inl e, s') | (Inr x, s') \<Rightarrow> f x s')"

definition then_act :: "('s, 'a) act \<Rightarrow> ('s, 'b) act \<Rightarrow> ('s, 'b) act" where
  "then_act m k = bind_act m (\<lambda>_. k)"

definition catch_act :: "('s, 'a) act \<Rightarrow> (pyexn \<Rightarrow> ('s, 'a) act) \<Rightarrow> ('s, 'a) act" where
  "catch_act m h s = (case m s of (Inl e, s') \<Rightarrow> h e s' | (Inr x, s') \<Rightarrow> (Inr x, s'))"

definition of_res :: "'a res \<Rightarrow> ('s, 'a) act" where
  "of_res r s = (r, s)"

definition get_act :: "('s \<Rightarrow> 'a) \<Rightarrow> ('s, 'a) act" where
  "get_act f s = (Inr (f s), s)"

definition modify_act :: "('s \<Rightarrow> 's) \<Rightarrow> ('s, unit) act" where
  "modify_act f s = (Inr (), f s)"

fun each_act :: "('a \<Rightarrow> ('s, unit) act) \<Rightarrow> 'a list \<Rightarrow> ('s, unit) act" where
  "each_act f [] = ret_act ()"
| "each_act f (x # xs) = then_act (f x) (each_act f xs)"

section \<open>Facts about normal returns\<close>

lemma ret_act_Inr [simp]: "ret_act x s = (Inr y, s') \<longleftrightarrow> y = x \<and> s' = s"
  by (auto simp: ret_act_def)

lemma raise_act_Inr [simp]: "raise_act e s = (Inr y, s') \<longleftrightarrow> False"
  by (simp add: raise_act_def)

lemma bind_act_Inr:
  "bind_act m f s = (Inr y, s') \<longleftrightarrow> (\<exists>x t. m s = (Inr x, t) \<and> f x t = (Inr y, s'))"
  by (auto simp: bind_act_def split: prod.splits sum.splits)

lemma then_act_Inr:
  "then_act m k s = (Inr y, s') \<longleftrightarrow> (\<exists>x t. m s = (Inr x, t) \<and> k t = (Inr y, s'))"
  by (simp add: then_act_def bind_act_Inr)

lemma catch_act_Inr:
  "catch_act m h s = (Inr y, s') \<longleftrightarrow>
     m s = (Inr y, s') \<or> (\<exists>e t. m s = (Inl e, t) \<and> h e t = (Inr y, s'))"
  by (auto simp: catch_act_def split: prod.splits sum.splits)

lemma of_res_Inr [simp]: "of_res r s = (Inr y, s') \<longleftrightarrow> r = Inr y \<and> s' = s"
  by (auto simp: of_res_def)

lemma get_act_Inr [simp]: "get_act f s = (Inr y, s') \<longleftrightarrow> y = f s \<and> s' = s"
  by (auto simp: get_act_def)

lemma modify_act_Inr [simp]: "modify_act f s = (Inr y, s') \<longleftrightarrow> s' = f s"
  by (auto simp: modify_act_def)

lemmas act_Inr = bind_act_Inr then_act_Inr catch_act_Inr

section \<open>Invariants\<close>

text \<open>A computation keeps a relation between the states before and after, also when it raises.\<close>

definition keeps :: "('s \<Rightarrow> 's \<Rightarrow> bool) \<Rightarrow> ('s, 'a) act \<Rightarrow> bool" where
  "keeps R m \<longleftrightarrow> (\<forall>s. R s (snd (m s)))"

lemma keepsD: "keeps R m \<Longrightarrow> m s = (r, s') \<Longrightarrow> R s s'"
  unfolding keeps_def by (metis snd_conv)

lemma keepsI: "(\<And>s r s'. m s = (r, s') \<Longrightarrow> R s s') \<Longrightarrow> keeps R m"
  unfolding keeps_def by (metis prod.collapse)

lemma keeps_ret: "reflp R \<Longrightarrow> keeps R (ret_act x)"
  by (simp add: keeps_def ret_act_def reflpD)

lemma keeps_raise: "reflp R \<Longrightarrow> keeps R (raise_act e)"
  by (simp add: keeps_def raise_act_def reflpD)

lemma keeps_of_res: "reflp R \<Longrightarrow> keeps R (of_res r)"
  by (simp add: keeps_def of_res_def reflpD)

lemma keeps_get: "reflp R \<Longrightarrow> keeps R (get_act f)"
  by (simp add: keeps_def get_act_def reflpD)

lemma keeps_bind:
  assumes "transp R" "keeps R m" "\<And>x. keeps R (f x)"
  shows "keeps R (bind_act m f)"
proof (rule keepsI)
  fix s r s'
  assume h: "bind_act m f s = (r, s')"
  obtain r1 t where m: "m s = (r1, t)" by (cases "m s")
  then have 1: "R s t" using assms(2) by (rule keepsD [rotated])
  show "R s s'"
  proof (cases r1)
    case (Inl e)
    with h m 1 show ?thesis by (simp add: bind_act_def)
  next
    case (Inr x)
    with h m have "f x t = (r, s')" by (simp add: bind_act_def)
    with assms(3) have "R t s'" by (rule keepsD)
    with 1 assms(1) show ?thesis by (meson transpD)
  qed
qed

lemma keeps_then: "transp R \<Longrightarrow> keeps R m \<Longrightarrow> keeps R k \<Longrightarrow> keeps R (then_act m k)"
  unfolding then_act_def by (rule keeps_bind)

lemma keeps_catch:
  assumes "transp R" "keeps R m" "\<And>e. keeps R (h e)"
  shows "keeps R (catch_act m h)"
proof (rule keepsI)
  fix s r s'
  assume c: "catch_act m h s = (r, s')"
  obtain r1 t where m: "m s = (r1, t)" by (cases "m s")
  then have 1: "R s t" using assms(2) by (rule keepsD [rotated])
  show "R s s'"
  proof (cases r1)
    case (Inl e)
    with c m have "h e t = (r, s')" by (simp add: catch_act_def)
    with assms(3) have "R t s'" by (rule keepsD)
    with 1 assms(1) show ?thesis by (meson transpD)
  next
    case (Inr x)
    with c m 1 show ?thesis by (simp add: catch_act_def)
  qed
qed

lemma keeps_each:
  "reflp R \<Longrightarrow> transp R \<Longrightarrow> (\<And>x. keeps R (f x)) \<Longrightarrow> keeps R (each_act f xs)"
  by (induction xs) (simp_all add: keeps_ret keeps_then)

lemmas keeps_rules = keeps_ret keeps_raise keeps_of_res keeps_get keeps_bind keeps_then keeps_catch keeps_each

section \<open>Triples\<close>

text \<open>
  \<open>valid P m Q R\<close>: from a state with \<open>P\<close>, the computation ends normally in a state with \<open>Q x\<close> for
  its result \<open>x\<close>, or raises in a state with \<open>R\<close>.
\<close>

definition valid ::
  "('s \<Rightarrow> bool) \<Rightarrow> ('s, 'a) act \<Rightarrow> ('a \<Rightarrow> 's \<Rightarrow> bool) \<Rightarrow> ('s \<Rightarrow> bool) \<Rightarrow> bool" where
  "valid P m Q R \<longleftrightarrow>
     (\<forall>s. P s \<longrightarrow> (case m s of (Inl e, t) \<Rightarrow> R t | (Inr x, t) \<Rightarrow> Q x t))"

lemma validI:
  assumes "\<And>s x t. P s \<Longrightarrow> m s = (Inr x, t) \<Longrightarrow> Q x t" "\<And>s e t. P s \<Longrightarrow> m s = (Inl e, t) \<Longrightarrow> R t"
  shows "valid P m Q R"
  using assms by (auto simp: valid_def split: prod.split sum.split)

lemma validD:
  assumes "valid P m Q R" "P s" "m s = (Inr x, t)"
  shows "Q x t"
proof -
  have "case m s of (Inl e, t) \<Rightarrow> R t | (Inr x, t) \<Rightarrow> Q x t"
    using assms(1,2) by (simp add: valid_def)
  with assms(3) show ?thesis by simp
qed

lemma validE:
  assumes "valid P m Q R" "P s" "m s = (Inl e, t)"
  shows "R t"
proof -
  have "case m s of (Inl e, t) \<Rightarrow> R t | (Inr x, t) \<Rightarrow> Q x t"
    using assms(1,2) by (simp add: valid_def)
  with assms(3) show ?thesis by simp
qed

lemma valid_conseq:
  assumes "valid P' m Q' R'" "\<And>s. P s \<Longrightarrow> P' s" "\<And>x s. Q' x s \<Longrightarrow> Q x s" "\<And>s. R' s \<Longrightarrow> R s"
  shows "valid P m Q R"
proof (rule validI)
  show "Q x t" if "P s" "m s = (Inr x, t)" for s x t
    by (rule assms(3), rule validD [OF assms(1) assms(2) [OF that(1)] that(2)])
  show "R t" if "P s" "m s = (Inl e, t)" for s e t
    by (rule assms(4), rule validE [OF assms(1) assms(2) [OF that(1)] that(2)])
qed

lemma valid_pre: "valid P' m Q R \<Longrightarrow> (\<And>s. P s \<Longrightarrow> P' s) \<Longrightarrow> valid P m Q R"
  by (erule valid_conseq) assumption

lemma valid_post: "valid P m Q' R \<Longrightarrow> (\<And>x s. Q' x s \<Longrightarrow> Q x s) \<Longrightarrow> valid P m Q R"
  by (erule valid_conseq) assumption

lemma valid_ret: "(\<And>s. P s \<Longrightarrow> Q x s) \<Longrightarrow> valid P (ret_act x) Q R"
  by (auto simp: valid_def ret_act_def)

lemma valid_raise: "(\<And>s. P s \<Longrightarrow> R s) \<Longrightarrow> valid P (raise_act e) Q R"
  by (auto simp: valid_def raise_act_def)

lemma valid_of_res: "(\<And>s x. P s \<Longrightarrow> r = Inr x \<Longrightarrow> Q x s) \<Longrightarrow> (\<And>s. P s \<Longrightarrow> R s) \<Longrightarrow> valid P (of_res r) Q R"
  by (auto simp: valid_def of_res_def split: sum.split)

lemma valid_get: "(\<And>s. P s \<Longrightarrow> Q (f s) s) \<Longrightarrow> valid P (get_act f) Q R"
  by (auto simp: valid_def get_act_def)

lemma valid_modify: "(\<And>s. P s \<Longrightarrow> Q () (f s)) \<Longrightarrow> valid P (modify_act f) Q R"
  by (auto simp: valid_def modify_act_def)

lemma valid_bind:
  assumes "valid P m M R" "\<And>x. valid (M x) (f x) Q R"
  shows "valid P (bind_act m f) Q R"
  unfolding valid_def
proof (intro allI impI)
  fix s assume P: "P s"
  obtain r t where m: "m s = (r, t)" by (cases "m s")
  show "case bind_act m f s of (Inl e, t) \<Rightarrow> R t | (Inr x, t) \<Rightarrow> Q x t"
  proof (cases r)
    case (Inl e)
    with m validE [OF assms(1) P] show ?thesis by (simp add: bind_act_def)
  next
    case (Inr x)
    with m validD [OF assms(1) P] have "M x t" by simp
    with m Inr assms(2) [of x] show ?thesis by (simp add: bind_act_def valid_def)
  qed
qed

lemma valid_then: "valid P m (\<lambda>_. M) R \<Longrightarrow> valid M k Q R \<Longrightarrow> valid P (then_act m k) Q R"
  unfolding then_act_def by (rule valid_bind)

lemma valid_catch:
  assumes "valid P m Q H" "\<And>e. valid H (h e) Q R"
  shows "valid P (catch_act m h) Q R"
  unfolding valid_def
proof (intro allI impI)
  fix s assume P: "P s"
  obtain r t where m: "m s = (r, t)" by (cases "m s")
  show "case catch_act m h s of (Inl e, t) \<Rightarrow> R t | (Inr x, t) \<Rightarrow> Q x t"
  proof (cases r)
    case (Inl e)
    with m validE [OF assms(1) P] have "H t" by simp
    with m Inl assms(2) [of e] show ?thesis by (simp add: catch_act_def valid_def)
  next
    case (Inr x)
    with m validD [OF assms(1) P] show ?thesis by (simp add: catch_act_def)
  qed
qed

lemma valid_if:
  "(b \<Longrightarrow> valid P m Q R) \<Longrightarrow> (\<not> b \<Longrightarrow> valid P k Q R) \<Longrightarrow> valid P (if b then m else k) Q R"
  by simp

text \<open>A fact that does not speak of the state may be assumed.\<close>

lemma valid_fact: "(A \<Longrightarrow> valid P m Q R) \<Longrightarrow> valid (\<lambda>s. P s \<and> A) m Q R"
  by (cases A) (simp_all add: valid_def)

lemma valid_ex:
  assumes "\<And>x. valid (P x) m Q R"
  shows "valid (\<lambda>s. \<exists>x. P x s) m Q R"
  by (rule validI) (use assms validD validE in metis)+

text \<open>A loop over a list, with an invariant that may speak of the elements still to come.\<close>

lemma valid_each:
  assumes "\<And>x ys. valid (I (x # ys)) (f x) (\<lambda>_. I ys) R"
  shows "valid (I xs) (each_act f xs) (\<lambda>_. I []) R"
proof (induction xs)
  case Nil
  show ?case by (simp add: valid_ret)
next
  case (Cons x xs)
  show ?case using assms Cons.IH by (auto intro: valid_then)
qed

text \<open>A computation that keeps a relation keeps what the relation keeps.\<close>

lemma keeps_valid:
  assumes "keeps K m" "\<And>s t. K s t \<Longrightarrow> P s \<Longrightarrow> P t"
  shows "valid P m (\<lambda>_. P) P"
proof (rule validI)
  show "P t" if "P s" "m s = (Inr x, t)" for s x t
    by (rule assms(2) [OF keepsD [OF assms(1) that(2)] that(1)])
  show "P t" if "P s" "m s = (Inl e, t)" for s e t
    by (rule assms(2) [OF keepsD [OF assms(1) that(2)] that(1)])
qed

section \<open>Results\<close>

text \<open>Every value that a computation returns has a property.\<close>

definition yields :: "('a \<Rightarrow> bool) \<Rightarrow> ('s, 'a) act \<Rightarrow> bool" where
  "yields V m \<longleftrightarrow> (\<forall>s x t. m s = (Inr x, t) \<longrightarrow> V x)"

lemma yieldsD: "yields V m \<Longrightarrow> m s = (Inr x, t) \<Longrightarrow> V x"
  by (auto simp: yields_def)

lemma yields_ret: "V x \<Longrightarrow> yields V (ret_act x)"
  by (simp add: yields_def)

lemma yields_raise: "yields V (raise_act e)"
  by (simp add: yields_def)

lemma yields_bind: "yields W m \<Longrightarrow> (\<And>x. W x \<Longrightarrow> yields V (f x)) \<Longrightarrow> yields V (bind_act m f)"
  unfolding yields_def bind_act_Inr by blast

lemma yields_bind_any: "(\<And>x. yields V (f x)) \<Longrightarrow> yields V (bind_act m f)"
  unfolding yields_def bind_act_Inr by blast

lemma yields_then: "yields V k \<Longrightarrow> yields V (then_act m k)"
  by (auto simp: yields_def then_act_Inr)

lemma yields_catch: "yields V m \<Longrightarrow> (\<And>e. yields V (h e)) \<Longrightarrow> yields V (catch_act m h)"
  unfolding yields_def catch_act_Inr by blast

lemma valid_yields:
  assumes "valid P m Q R" "yields V m"
  shows "valid P m (\<lambda>x s. Q x s \<and> V x) R"
proof (rule validI)
  show "Q x t \<and> V x" if "P s" "m s = (Inr x, t)" for s x t
    using validD [OF assms(1) that] yieldsD [OF assms(2) that(2)] by simp
  show "R t" if "P s" "m s = (Inl e, t)" for s e t
    by (rule validE [OF assms(1) that])
qed

lemma keeps_bind_yields:
  assumes "transp R" "keeps R m" "yields V m" "\<And>x. V x \<Longrightarrow> keeps R (f x)"
  shows "keeps R (bind_act m f)"
proof (rule keepsI)
  fix s r s'
  assume h: "bind_act m f s = (r, s')"
  obtain r1 t where m: "m s = (r1, t)" by (cases "m s")
  then have 1: "R s t" using assms(2) by (rule keepsD [rotated])
  show "R s s'"
  proof (cases r1)
    case (Inl e)
    with h m 1 show ?thesis by (simp add: bind_act_def)
  next
    case (Inr x)
    with m assms(3) have "keeps R (f x)" by (intro assms(4)) (auto dest: yieldsD)
    moreover from h m Inr have "f x t = (r, s')" by (simp add: bind_act_def)
    ultimately have "R t s'" by (rule keepsD)
    with 1 assms(1) show ?thesis by (meson transpD)
  qed
qed

lemmas yields_rules = yields_ret yields_raise yields_then yields_catch

end
