(* ===== verification/AgentSession.thy ===== *)
theory AgentSession
  imports SessionTree PyEffects
begin

text \<open>
  \<^verbatim>\<open>session/session.py\<close>: the context that a branch of the session tree gives to the model,
  and the class \<^verbatim>\<open>Session\<close>. A session works on any storage with the operations of the
  protocol \<^verbatim>\<open>SessionStorage\<close>; they are the fields of \<open>session_ops\<close>, over a state
  of the storage's own, and every theorem about a session is about every such storage.

  No class of the repository implements the protocol: its storages have the operations under
  snake-case names, so that a session on one of them raises \<^verbatim>\<open>AttributeError\<close>
  (\<open>snake_case_ops\<close>). The locale \<open>session_storage\<close> states what a session relies on in a
  storage that does implement it. That the laws can hold is shown with \<open>memory_ops\<close>, the
  in-memory storage under the protocol's names: an instance for the witnesses, which is no code
  of the repository and about which no property is stated.
\<close>

section \<open>The context of a branch\<close>

text \<open>The first loop: thinking level, model and last compaction.\<close>

type_synonym context_scan = "string \<times> (pyval \<times> pyval) option \<times> session_tree_entry option"

definition scan_entry :: "session_tree_entry \<Rightarrow> context_scan \<Rightarrow> context_scan res" where
  "scan_entry e st =
     (case st of (level, model, compaction) \<Rightarrow>
       (case e_body e of
          ThinkingLevelChangeE t \<Rightarrow> Inr (t, model, compaction)
        | ModelChangeE p m \<Rightarrow> Inr (level, Some (VStr p, VStr m), compaction)
        | MessageE msg \<Rightarrow>
            bind_res (py_get msg ''role'') (\<lambda>role.
            if role = VStr ''assistant'' then
              bind_res (py_get_default msg ''provider'' (VStr [])) (\<lambda>p.
              bind_res (py_get_default msg ''model'' (VStr [])) (\<lambda>m.
              Inr (level, Some (p, m), compaction)))
            else Inr (level, model, compaction))
        | CompactionE _ _ _ _ _ \<Rightarrow> Inr (level, model, Some e)
        | _ \<Rightarrow> Inr (level, model, compaction)))"

text \<open>\<open>_append_message\<close>: the messages, at most one, that an entry adds.\<close>

definition entry_messages :: "pylib \<Rightarrow> session_tree_entry \<Rightarrow> pyval list res" where
  "entry_messages L e =
     (case e_body e of
        MessageE msg \<Rightarrow> Inr [msg]
      | CustomMessageE ct content details display \<Rightarrow>
          bind_res (create_custom_message L ct content display details (e_timestamp e)) (\<lambda>m. Inr [m])
      | BranchSummaryE from_id smry details from_hook \<Rightarrow>
          (if smry \<noteq> []
           then bind_res (create_branch_summary_message L smry from_id (e_timestamp e)) (\<lambda>m. Inr [m])
           else Inr [])
      | _ \<Rightarrow> Inr [])"

fun append_messages :: "pylib \<Rightarrow> session_tree_entry list \<Rightarrow> pyval list res" where
  "append_messages L [] = Inr []"
| "append_messages L (e # es) =
     bind_res (entry_messages L e) (\<lambda>m. bind_res (append_messages L es) (\<lambda>ms. Inr (m @ ms)))"

text \<open>The loop before the compaction, with its flag \<open>found_first_kept\<close>.\<close>

fun kept_entries :: "string \<Rightarrow> bool \<Rightarrow> session_tree_entry list \<Rightarrow> session_tree_entry list" where
  "kept_entries first_kept found [] = []"
| "kept_entries first_kept found (e # es) =
     (let found' = (found \<or> e_id e = first_kept)
      in (if found' then [e] else []) @ kept_entries first_kept found' es)"

definition compaction_messages ::
  "pylib \<Rightarrow> session_tree_entry \<Rightarrow> session_tree_entry list \<Rightarrow> pyval list res" where
  "compaction_messages L c path =
     (case e_body c of
        CompactionE smry first_kept tokens_before details from_hook \<Rightarrow>
          bind_res (create_compaction_summary_message L smry tokens_before (e_timestamp c)) (\<lambda>m.
          let (before, after) =
            (case find_index (\<lambda>e. is_compaction e \<and> e_id e = e_id c) path of
               None \<Rightarrow> ([], path)
             | Some i \<Rightarrow> (take i path, drop (i + 1) path))
          in bind_res (append_messages L (kept_entries first_kept False before)) (\<lambda>pre.
             bind_res (append_messages L after) (\<lambda>post.
             Inr (m # pre @ post))))
      | _ \<Rightarrow> Inr [])"

definition build_session_context :: "pylib \<Rightarrow> session_tree_entry list \<Rightarrow> session_context res" where
  "build_session_context L path =
     bind_res (fold_res scan_entry path (''off'', None, None)) (\<lambda>(level, model, compaction).
     bind_res (case compaction of
                 None \<Rightarrow> append_messages L path
               | Some c \<Rightarrow> compaction_messages L c path) (\<lambda>msgs.
     Inr \<lparr>sc_messages = msgs, sc_thinkingLevel = level, sc_model = model\<rparr>))"

section \<open>The storage protocol and the session\<close>

text \<open>
  The operations a session calls on its storage. The writes thread the state on the branches that
  raise too, so that a failed write may leave a trace (an id that was used up, a line that was half
  written) and may succeed when it is repeated; the reads are functions of the state. An operation
  that the storage does not have is one that raises \<^verbatim>\<open>AttributeError\<close>, except for the
  optional \<open>getAppendParentId\<close>, which the session asks for with \<^verbatim>\<open>hasattr\<close>.
  \<open>getPathToRoot\<close> may run forever, which is the value \<^term>\<open>None\<close>.
\<close>

record 's session_ops =
  so_getMetadata :: "'s \<Rightarrow> session_metadata res"
  so_getLeafId :: "'s \<Rightarrow> string option res"
  so_getAppendParentId :: "('s \<Rightarrow> string option res) option"
  so_setLeafId :: "string option \<Rightarrow> ('s, unit) act"
  so_createEntryId :: "('s, string) act"
  so_appendEntry :: "session_tree_entry \<Rightarrow> ('s, unit) act"
  so_getEntry :: "'s \<Rightarrow> string \<Rightarrow> session_tree_entry option res"
  so_find_entries :: "'s \<Rightarrow> string \<Rightarrow> session_tree_entry list res"
  so_getLabel :: "'s \<Rightarrow> string \<Rightarrow> string option res"
  so_getPathToRoot :: "'s \<Rightarrow> string option \<Rightarrow> session_tree_entry list res option"
  so_getEntries :: "'s \<Rightarrow> session_tree_entry list res"

text \<open>\<open>_get_append_parent_id\<close>: storages without append parents fall back to the leaf.\<close>

definition session_append_parent :: "'s session_ops \<Rightarrow> 's \<Rightarrow> string option res" where
  "session_append_parent ops s =
     (case so_getAppendParentId ops of
        Some f \<Rightarrow> f s
      | None \<Rightarrow> so_getLeafId ops s)"

definition get_branch ::
  "'s session_ops \<Rightarrow> 's \<Rightarrow> string option \<Rightarrow> session_tree_entry list res option" where
  "get_branch ops s from_id =
     (case from_id of
        Some k \<Rightarrow> so_getPathToRoot ops s (Some k)
      | None \<Rightarrow>
          (case so_getLeafId ops s of
             Inl ex \<Rightarrow> Some (Inl ex)
           | Inr leaf \<Rightarrow> so_getPathToRoot ops s leaf))"

definition build_context :: "pylib \<Rightarrow> 's session_ops \<Rightarrow> 's \<Rightarrow> session_context res option" where
  "build_context L ops s =
     map_option (\<lambda>r. bind_res r (build_session_context L)) (get_branch ops s None)"

definition get_session_name :: "'s session_ops \<Rightarrow> 's \<Rightarrow> string option res" where
  "get_session_name ops s =
     bind_res (so_find_entries ops s ''session_info'') (\<lambda>entries.
     if entries = [] then Inr None
     else case e_body (last entries) of
       SessionInfoE (Some name) \<Rightarrow> Inr (if name = [] then None else Some (py_strip name))
     | _ \<Rightarrow> Inr None)"

text \<open>
  The body that the \<open>append_*\<close> methods share: a new id, then the append parent, then the entry
  with the current time; the id is the result.
\<close>

definition append_typed_entry ::
  "'s session_ops \<Rightarrow> string \<Rightarrow> entry_body \<Rightarrow> ('s, string) act" where
  "append_typed_entry ops now body =
     bind_act (so_createEntryId ops) (\<lambda>entry_id.
     bind_act (\<lambda>s. (session_append_parent ops s, s)) (\<lambda>parent.
     then_act (so_appendEntry ops
       \<lparr>e_id = entry_id, e_parentId = parent, e_timestamp = now, e_appendMode = None,
        e_body = body\<rparr>)
     (ret_act entry_id)))"

definition append_message ::
  "'s session_ops \<Rightarrow> string \<Rightarrow> pyval \<Rightarrow> ('s, string) act" where
  "append_message ops now message = append_typed_entry ops now (MessageE message)"

definition append_thinking_level_change ::
  "'s session_ops \<Rightarrow> string \<Rightarrow> string \<Rightarrow> ('s, string) act" where
  "append_thinking_level_change ops now level =
     append_typed_entry ops now (ThinkingLevelChangeE level)"

definition append_model_change ::
  "'s session_ops \<Rightarrow> string \<Rightarrow> string \<Rightarrow> string \<Rightarrow> ('s, string) act" where
  "append_model_change ops now provider model_id =
     append_typed_entry ops now (ModelChangeE provider model_id)"

definition append_compaction ::
  "'s session_ops \<Rightarrow> string \<Rightarrow> string \<Rightarrow> string \<Rightarrow> int \<Rightarrow> pyval \<Rightarrow> bool option
     \<Rightarrow> ('s, string) act" where
  "append_compaction ops now smry first_kept tokens_before details from_hook =
     append_typed_entry ops now (CompactionE smry first_kept tokens_before details from_hook)"

definition append_custom_entry ::
  "'s session_ops \<Rightarrow> string \<Rightarrow> string \<Rightarrow> pyval \<Rightarrow> ('s, string) act" where
  "append_custom_entry ops now custom_type data =
     append_typed_entry ops now (CustomE custom_type data)"

definition append_custom_message_entry ::
  "'s session_ops \<Rightarrow> string \<Rightarrow> string \<Rightarrow> pyval \<Rightarrow> bool \<Rightarrow> pyval \<Rightarrow> ('s, string) act" where
  "append_custom_message_entry ops now custom_type content display details =
     append_typed_entry ops now (CustomMessageE custom_type content details display)"

definition append_label ::
  "'s session_ops \<Rightarrow> string \<Rightarrow> string \<Rightarrow> string option \<Rightarrow> ('s, string) act" where
  "append_label ops now target_id lbl =
     bind_act (\<lambda>s. (so_getEntry ops s target_id, s)) (\<lambda>entry.
     if entry = None then raise_act (entry_not_found NotFound target_id)
     else append_typed_entry ops now (LabelE target_id lbl))"

definition append_session_name ::
  "'s session_ops \<Rightarrow> string \<Rightarrow> string \<Rightarrow> ('s, string) act" where
  "append_session_name ops now name =
     append_typed_entry ops now (SessionInfoE (Some (py_strip name)))"

text \<open>
  The argument \<open>summary\<close> of \<open>move_to\<close>: the keys the method reads. \<^term>\<open>None\<close> stands for
  \<^verbatim>\<open>None\<close> and for the empty dictionary.
\<close>

record branch_summary_arg =
  ba_summary :: "string option"
  ba_details :: pyval
  ba_fromHook :: "bool option"

definition move_to ::
  "'s session_ops \<Rightarrow> string \<Rightarrow> string option \<Rightarrow> branch_summary_arg option
     \<Rightarrow> ('s, string option) act" where
  "move_to ops now target smry =
     bind_act (\<lambda>s. (case target of None \<Rightarrow> Inr True
                    | Some k \<Rightarrow> bind_res (so_getEntry ops s k) (\<lambda>e. Inr (e \<noteq> None)), s)) (\<lambda>found.
     if \<not> found then raise_act (entry_not_found NotFound (the target))
     else
       then_act (so_setLeafId ops target)
       (case smry of
          None \<Rightarrow> ret_act None
        | Some a \<Rightarrow>
            bind_act (so_createEntryId ops) (\<lambda>entry_id.
            then_act (so_appendEntry ops
              \<lparr>e_id = entry_id, e_parentId = target, e_timestamp = now, e_appendMode = None,
               e_body = BranchSummaryE
                 (case target of None \<Rightarrow> ''root'' | Some k \<Rightarrow> if k = [] then ''root'' else k)
                 (case ba_summary a of None \<Rightarrow> [] | Some t \<Rightarrow> t) (ba_details a) (ba_fromHook a)\<rparr>)
            (ret_act (Some entry_id)))))"

section \<open>What a session relies on\<close>

text \<open>
  \<open>inv\<close> is the storage's invariant and \<open>id_free\<close> says that the next generated id is not
  taken. Generating an id is not visible through the other operations; appending an entry to
  the append parent extends the current branch; setting the leaf to an entry makes the path to
  that entry the current branch.
\<close>

definition same_view :: "'s session_ops \<Rightarrow> 's \<Rightarrow> 's \<Rightarrow> bool" where
  "same_view ops s t \<longleftrightarrow>
     so_getEntry ops t = so_getEntry ops s \<and> so_getPathToRoot ops t = so_getPathToRoot ops s
     \<and> so_getLeafId ops t = so_getLeafId ops s
     \<and> session_append_parent ops t = session_append_parent ops s"

lemma get_branch_same_view: "same_view ops s t \<Longrightarrow> get_branch ops t k = get_branch ops s k"
  by (auto simp: same_view_def get_branch_def split: option.splits sum.splits)

locale session_storage =
  fixes ops :: "'s session_ops"
    and inv :: "'s \<Rightarrow> bool"
    and id_free :: "'s \<Rightarrow> bool"
  assumes create_id:
      "inv s \<Longrightarrow> \<exists>k s'. so_createEntryId ops s = (Inr k, s') \<and> inv s' \<and> same_view ops s s' \<and> k \<noteq> []
         \<and> (id_free s \<longrightarrow> so_getEntry ops s k = Inr None)"
    and append_parent: "inv s \<Longrightarrow> \<exists>p. session_append_parent ops s = Inr p"
    and leaf: "inv s \<Longrightarrow> \<exists>k. so_getLeafId ops s = Inr k"
    and append_extends:
      "inv s \<Longrightarrow> so_getEntry ops s (e_id e) = Inr None \<Longrightarrow> e_id e \<noteq> [] \<Longrightarrow> \<not> is_leaf e \<Longrightarrow>
       \<not> is_side_append_entry e \<Longrightarrow> session_append_parent ops s = Inr (e_parentId e) \<Longrightarrow>
       get_branch ops s None = Some (Inr r) \<Longrightarrow>
         \<exists>s'. so_appendEntry ops e s = (Inr (), s') \<and> inv s' \<and> so_getLeafId ops s' = Inr (Some (e_id e))
           \<and> so_getEntry ops s' (e_id e) = Inr (Some e) \<and> get_branch ops s' None = Some (Inr (r @ [e]))"
    and set_leaf_switches:
      "inv s \<Longrightarrow> id_free s \<Longrightarrow> get_branch ops s (Some k) = Some (Inr r) \<Longrightarrow>
         \<exists>s'. so_setLeafId ops (Some k) s = (Inr (), s') \<and> inv s'
           \<and> session_append_parent ops s' = Inr (Some k) \<and> get_branch ops s' None = Some (Inr r)"
begin

lemma append_extends_branch:
  assumes "inv s" "id_free s" "get_branch ops s None = Some (Inr r)"
    and "\<not> is_leaf \<lparr>e_id = [], e_parentId = None, e_timestamp = now, e_appendMode = None, e_body = body\<rparr>"
  shows "\<exists>k p s' e. append_typed_entry ops now body s = (Inr k, s') \<and> inv s'
    \<and> so_getLeafId ops s' = Inr (Some k)
    \<and> e = \<lparr>e_id = k, e_parentId = p, e_timestamp = now, e_appendMode = None, e_body = body\<rparr>
    \<and> so_getEntry ops s' k = Inr (Some e) \<and> get_branch ops s' None = Some (Inr (r @ [e]))"
proof -
  obtain k s1 where k: "so_createEntryId ops s = (Inr k, s1)"
    and s1: "inv s1" "same_view ops s s1" "k \<noteq> []" "so_getEntry ops s k = Inr None"
    using create_id assms(1,2) by blast
  obtain p where p: "session_append_parent ops s1 = Inr p"
    using append_parent s1(1) by blast
  let ?e = "\<lparr>e_id = k, e_parentId = p, e_timestamp = now, e_appendMode = None, e_body = body\<rparr>"
  have "\<not> is_leaf ?e" "\<not> is_side_append_entry ?e"
    using assms(4) by (auto simp: is_leaf_iff is_side_append_entry_def)
  moreover have "get_branch ops s1 None = Some (Inr r)" "so_getEntry ops s1 k = Inr None"
    using s1 assms(3) by (simp_all add: get_branch_same_view) (simp add: same_view_def)
  ultimately obtain s' where "so_appendEntry ops ?e s1 = (Inr (), s')" "inv s'"
    "so_getLeafId ops s' = Inr (Some k)" "so_getEntry ops s' k = Inr (Some ?e)"
    "get_branch ops s' None = Some (Inr (r @ [?e]))"
    using append_extends [of s1 ?e r] s1 p by auto
  with k p show ?thesis
    by (intro exI [of _ k] exI [of _ p] exI [of _ s'] exI [of _ ?e])
       (simp add: append_typed_entry_def bind_act_def then_act_def ret_act_def)
qed

lemma session_append_message:
  assumes "inv s" "id_free s" "get_branch ops s None = Some (Inr r)"
  shows "\<exists>k p s' e. append_message ops now m s = (Inr k, s') \<and> inv s'
    \<and> so_getLeafId ops s' = Inr (Some k)
    \<and> e = \<lparr>e_id = k, e_parentId = p, e_timestamp = now, e_appendMode = None, e_body = MessageE m\<rparr>
    \<and> so_getEntry ops s' k = Inr (Some e) \<and> get_branch ops s' None = Some (Inr (r @ [e]))"
  unfolding append_message_def
  by (rule append_extends_branch [OF assms]) (simp add: is_leaf_iff)

lemma move_to_switches_branch:
  assumes "inv s" "id_free s" "get_branch ops s (Some k) = Some (Inr r)"
    and "so_getEntry ops s k = Inr (Some e)"
  shows "\<exists>s'. move_to ops now (Some k) None s = (Inr None, s') \<and> inv s'
    \<and> get_branch ops s' None = Some (Inr r)"
  using set_leaf_switches [OF assms(1-3)] assms(4)
  by (auto simp: move_to_def bind_act_def then_act_def ret_act_def)

end

section \<open>An instance of the protocol\<close>

text \<open>
  The in-memory storage with its methods renamed to those of the protocol, and with the state of
  the identifier generator: it keeps the laws.
\<close>

definition memory_ops ::
  "(nat \<Rightarrow> uuid_sample) \<Rightarrow> string \<Rightarrow> (storage \<times> id_gen) session_ops" where
  "memory_ops rnd now =
     \<lparr>so_getMetadata = (\<lambda>s. Inr (get_metadata (fst s))),
      so_getLeafId = (\<lambda>s. get_leaf_id (fst s)),
      so_getAppendParentId = Some (\<lambda>s. get_append_parent_id (fst s)),
      so_setLeafId = (\<lambda>k s. case mem_set_leaf_id rnd now s k of Inl ex \<Rightarrow> (Inl ex, s) | Inr t \<Rightarrow> (Inr (), t)),
      so_createEntryId = (\<lambda>s. let (k, g) = create_entry_id rnd (fst s) (snd s) in (Inr k, (fst s, g))),
      so_appendEntry = (\<lambda>e s. case mem_append_entry (fst s) e of
                                Inl ex \<Rightarrow> (Inl ex, s) | Inr t \<Rightarrow> (Inr (), (t, snd s))),
      so_getEntry = (\<lambda>s k. Inr (get_entry (fst s) k)),
      so_find_entries = (\<lambda>s t. Inr (find_entries (fst s) t)),
      so_getLabel = (\<lambda>s k. Inr (get_label (fst s) k)),
      so_getPathToRoot = (\<lambda>s. get_path_to_root (fst s)),
      so_getEntries = (\<lambda>s. Inr (get_entries (fst s)))\<rparr>"

definition memory_inv :: "storage \<times> id_gen \<Rightarrow> bool" where
  "memory_inv s \<longleftrightarrow> reachable_storage (fst s) \<and> st_by_id (fst s) [] = None"

definition memory_id_free :: "(nat \<Rightarrow> uuid_sample) \<Rightarrow> storage \<times> id_gen \<Rightarrow> bool" where
  "memory_id_free rnd s \<longleftrightarrow>
     st_by_id (fst s) (fst (create_entry_id rnd (fst s) (snd s))) = None"

lemma memory_inv_present:
  assumes "memory_inv s"
  shows "\<not> missing (st_by_id (fst s)) (st_leaf_id (fst s))"
    and "\<not> missing (st_by_id (fst s)) (st_append_parent_id (fst s))"
proof -
  have "rebuilt (fst s)" using assms by (simp add: memory_inv_def reachable_rebuilt)
  then show "\<not> missing (st_by_id (fst s)) (st_leaf_id (fst s))"
    "\<not> missing (st_by_id (fst s)) (st_append_parent_id (fst s))"
    unfolding rebuilt_fields by blast+
qed

lemma memory_append_parent:
  "memory_inv s \<Longrightarrow>
     session_append_parent (memory_ops rnd now) s = Inr (st_append_parent_id (fst s))"
  by (simp add: session_append_parent_def memory_ops_def get_append_parent_id_def
      memory_inv_present)

lemma memory_leaf: "memory_inv s \<Longrightarrow> so_getLeafId (memory_ops rnd now) s = Inr (st_leaf_id (fst s))"
  by (simp add: memory_ops_def get_leaf_id_def memory_inv_present)

lemma memory_branch:
  "memory_inv s \<Longrightarrow>
     get_branch (memory_ops rnd now) s None = get_path_to_root (fst s) (st_leaf_id (fst s))"
  using memory_leaf [of s rnd now] by (simp add: get_branch_def) (simp add: memory_ops_def)

lemma memory_create_id_nonempty: "fst (create_entry_id rnd s g) \<noteq> []"
  using generate_entry_id_length [of rnd "\<lambda>k. st_by_id s k \<noteq> None" g]
  unfolding create_entry_id_def by auto

interpretation memory: session_storage "memory_ops rnd now" memory_inv "memory_id_free rnd"
proof
  fix s :: "storage \<times> id_gen"
  assume s: "memory_inv s"
  obtain k g where k: "create_entry_id rnd (fst s) (snd s) = (k, g)" by force
  have s': "memory_inv (fst s, g)" using s by (simp add: memory_inv_def)
  have "so_createEntryId (memory_ops rnd now) s = (Inr k, (fst s, g))"
    by (simp add: memory_ops_def k)
  moreover have "same_view (memory_ops rnd now) s (fst s, g)"
    using memory_append_parent [OF s] memory_append_parent [OF s']
    by (simp add: same_view_def) (simp add: memory_ops_def)
  moreover have "k \<noteq> []" using memory_create_id_nonempty [of rnd "fst s" "snd s"] k by simp
  moreover have "memory_id_free rnd s \<longrightarrow> so_getEntry (memory_ops rnd now) s k = Inr None"
    by (simp add: memory_ops_def get_entry_def memory_id_free_def k)
  ultimately show "\<exists>k s'. so_createEntryId (memory_ops rnd now) s = (Inr k, s') \<and> memory_inv s'
      \<and> same_view (memory_ops rnd now) s s' \<and> k \<noteq> []
      \<and> (memory_id_free rnd s \<longrightarrow> so_getEntry (memory_ops rnd now) s k = Inr None)"
    using s' by blast
next
  fix s
  assume "memory_inv s"
  then show "\<exists>p. session_append_parent (memory_ops rnd now) s = Inr p"
    "\<exists>k. so_getLeafId (memory_ops rnd now) s = Inr k"
    by (simp_all add: memory_append_parent memory_leaf)
next
  fix s e r
  assume s: "memory_inv s" and fresh: "so_getEntry (memory_ops rnd now) s (e_id e) = Inr None"
    and e: "e_id e \<noteq> []" "\<not> is_leaf e" "\<not> is_side_append_entry e"
    and p: "session_append_parent (memory_ops rnd now) s = Inr (e_parentId e)"
    and r: "get_branch (memory_ops rnd now) s None = Some (Inr r)"
  from s have rb: "rebuilt (fst s)" "st_by_id (fst s) [] = None" "reachable_storage (fst s)"
    by (simp_all add: memory_inv_def reachable_rebuilt)
  obtain t where t: "record_entry (fst s) e = Inr t"
    using record_entry_never_fails e(2) by blast
  have "st_by_id (fst s) (e_id e) = None" "e_parentId e = st_append_parent_id (fst s)"
    "get_path_to_root (fst s) (st_leaf_id (fst s)) = Some (Inr r)"
    using fresh p r s by (simp_all add: memory_append_parent memory_branch)
       (simp add: memory_ops_def get_entry_def)
  from record_entry_extends_branch [OF rb(1) t this(1) e(2,3) this(2) rb(2) this(3)]
  have branch: "get_path_to_root t (st_leaf_id t) = Some (Inr (r @ [e]))" .
  have inv: "memory_inv (t, snd s)"
    using rb t e(1) reachable_storage.recorded [OF rb(3)] record_entry_fields [OF t]
    by (auto simp: memory_inv_def mem_append_entry_def)
  have "so_appendEntry (memory_ops rnd now) e s = (Inr (), (t, snd s))"
    using t by (simp add: memory_ops_def mem_append_entry_def)
  moreover have "so_getLeafId (memory_ops rnd now) (t, snd s) = Inr (Some (e_id e))"
    using memory_leaf [OF inv] record_entry_leaf_id [OF t e(2)] e(3) by simp
  moreover have "get_branch (memory_ops rnd now) (t, snd s) None = Some (Inr (r @ [e]))"
    using memory_branch [OF inv] branch by simp
  moreover have "so_getEntry (memory_ops rnd now) (t, snd s) (e_id e) = Inr (Some e)"
    using record_entry_fields [OF t] by (simp add: memory_ops_def get_entry_def)
  ultimately show "\<exists>s'. so_appendEntry (memory_ops rnd now) e s = (Inr (), s') \<and> memory_inv s'
      \<and> so_getLeafId (memory_ops rnd now) s' = Inr (Some (e_id e))
      \<and> so_getEntry (memory_ops rnd now) s' (e_id e) = Inr (Some e)
      \<and> get_branch (memory_ops rnd now) s' None = Some (Inr (r @ [e]))"
    using inv by blast
next
  fix s k r
  assume s: "memory_inv s" "memory_id_free rnd s"
    and r: "get_branch (memory_ops rnd now) s (Some k) = Some (Inr r)"
  from s have rb: "rebuilt (fst s)" "st_by_id (fst s) [] = None" "reachable_storage (fst s)"
    by (simp_all add: memory_inv_def reachable_rebuilt)
  from r have path: "get_path_to_root (fst s) (Some k) = Some (Inr r)"
    by (simp add: get_branch_def memory_ops_def)
  then have "st_by_id (fst s) k \<noteq> None"
    by (auto simp: get_path_to_root_def split: option.splits)
  then obtain t where t: "mem_set_leaf_id rnd now s (Some k) = Inr t"
    using mem_set_leaf_id_total [of "fst s" "Some k" rnd now "snd s"] by (auto simp: missing_def)
  then have t': "mem_set_leaf_id rnd now (fst s, snd s) (Some k) = Inr (fst t, snd t)" by simp
  then obtain e where e: "record_entry (fst s) e = Inr (fst t)" "e_body e = LeafE (Some k) None"
    "e_id e = fst (create_entry_id rnd (fst s) (snd s))" by (rule mem_set_leaf_idD)
  have "st_by_id (fst s) (e_id e) = None" using s(2) e(3) by (simp add: memory_id_free_def)
  note moved = record_leaf_moves [OF rb(1) e(1) this e(2) path]
  have "e_id e \<noteq> []" using e(3) memory_create_id_nonempty by simp
  then have inv: "memory_inv t"
    using rb(2) reachable_storage.leaf_moved [OF rb(3) t'] record_entry_fields [OF e(1)]
    by (simp add: memory_inv_def)
  with moved have "session_append_parent (memory_ops rnd now) t = Inr (Some k)"
    "get_branch (memory_ops rnd now) t None = Some (Inr r)"
    by (auto simp: memory_append_parent memory_branch)
  moreover have "so_setLeafId (memory_ops rnd now) (Some k) s = (Inr (), t)"
    using t by (simp add: memory_ops_def)
  ultimately show "\<exists>s'. so_setLeafId (memory_ops rnd now) (Some k) s = (Inr (), s') \<and> memory_inv s'
      \<and> session_append_parent (memory_ops rnd now) s' = Inr (Some k)
      \<and> get_branch (memory_ops rnd now) s' None = Some (Inr r)"
    using inv by blast
qed

section \<open>Facts about contexts\<close>

lemma append_messages_append:
  "append_messages L (xs @ ys) =
     bind_res (append_messages L xs) (\<lambda>a. bind_res (append_messages L ys) (\<lambda>b. Inr (a @ b)))"
  by (induction xs) (auto simp: bind_res_assoc bind_res_def split: sum.splits)

lemma kept_entries_found [simp]: "kept_entries k True es = es"
  by (induction es) (simp_all add: Let_def)

lemma kept_entries_skip:
  "list_all (\<lambda>e. e_id e \<noteq> k) old \<Longrightarrow> kept_entries k False (old @ es) = kept_entries k False es"
  by (induction old) (simp_all add: Let_def)

lemma scan_entry_compaction:
  "scan_entry e (l, m, c) = Inr (l', m', c') \<Longrightarrow> c' = (if is_compaction e then Some e else c)"
  by (cases "e_body e")
     (auto simp: scan_entry_def is_compaction_def bind_res_eq_Inr split: if_splits)

text \<open>The scan finds the last compaction of the branch.\<close>

fun last_compaction :: "session_tree_entry list \<Rightarrow> session_tree_entry option \<Rightarrow> session_tree_entry option" where
  "last_compaction [] c = c"
| "last_compaction (e # es) c = last_compaction es (if is_compaction e then Some e else c)"

lemma scan_finds_last_compaction:
  "fold_res scan_entry es (l, m, c) = Inr (l', m', c') \<Longrightarrow> c' = last_compaction es c"
proof (induction es arbitrary: l m c)
  case (Cons e es)
  then obtain l1 m1 c1 where 1: "scan_entry e (l, m, c) = Inr (l1, m1, c1)"
    "fold_res scan_entry es (l1, m1, c1) = Inr (l', m', c')"
    by (auto simp: bind_res_eq_Inr)
  with Cons.IH scan_entry_compaction [OF 1(1)] show ?case by simp
qed simp

lemma last_compaction_append:
  "last_compaction (xs @ ys) c = last_compaction ys (last_compaction xs c)"
  by (induction xs arbitrary: c) simp_all

lemma last_compaction_none: "list_all (\<lambda>e. \<not> is_compaction e) es \<Longrightarrow> last_compaction es c = c"
  by (induction es) simp_all

lemma last_compaction_in:
  "last_compaction es c = Some x \<Longrightarrow> c = Some x \<or> (x \<in> set es \<and> is_compaction x)"
  by (induction es arbitrary: c) (auto split: if_splits)

lemma compaction_context:
  assumes "build_session_context L (old @ k # kept @ c # post) = Inr ctx"
    and "e_body c = CompactionE smry (e_id k) tokens details hook"
    and "list_all (\<lambda>e. \<not> is_compaction e) post" "distinct (map e_id (old @ k # kept @ [c]))"
  shows "\<exists>m ks ps. create_compaction_summary_message L smry tokens (e_timestamp c) = Inr m
    \<and> append_messages L (k # kept) = Inr ks \<and> append_messages L post = Inr ps
    \<and> sc_messages ctx = m # ks @ ps"
proof -
  let ?pre = "old @ k # kept"
  let ?path = "old @ k # kept @ c # post"
  have path: "?path = ?pre @ c # post" by simp
  from assms(1) obtain l m c' msgs where
    scan: "fold_res scan_entry ?path (''off'', None, None) = Inr (l, m, c')"
    and msgs: "(case c' of None \<Rightarrow> append_messages L ?path | Some c \<Rightarrow> compaction_messages L c ?path) = Inr msgs"
    and ctx: "sc_messages ctx = msgs"
    by (auto simp: build_session_context_def bind_res_eq_Inr)
  have cc: "is_compaction c" using assms(2) by (auto simp: is_compaction_iff)
  have "last_compaction ?path None = last_compaction (c # post) (last_compaction ?pre None)"
    unfolding path by (rule last_compaction_append)
  then have "c' = Some c"
    using scan_finds_last_compaction [OF scan] assms(3) cc by (simp add: last_compaction_none)
  have "find_index (\<lambda>e. is_compaction e \<and> e_id e = e_id c) ?path = Some (length ?pre)"
  proof -
    have "find_index (\<lambda>e. is_compaction e \<and> e_id e = e_id c) ?pre = None"
    proof -
      have "e_id c \<notin> e_id ` set ?pre" using assms(4) by auto
      then show ?thesis unfolding find_index_None by (metis imageI)
    qed
    then show ?thesis using cc unfolding path find_index_append by simp
  qed
  moreover have "list_all (\<lambda>e. e_id e \<noteq> e_id k) old"
  proof -
    have "e_id k \<notin> e_id ` set old" using assms(4) by auto
    then show ?thesis unfolding list_all_iff by (metis imageI)
  qed
  then have "kept_entries (e_id k) False ?pre = k # kept"
    by (simp add: kept_entries_skip)
  moreover have "take (length ?pre) ?path = ?pre" "drop (length ?pre + 1) ?path = post" by simp_all
  ultimately show ?thesis
    using msgs ctx assms(2) unfolding \<open>c' = Some c\<close>
    by (simp add: compaction_messages_def bind_res_eq_Inr del: append_messages.simps kept_entries.simps) blast
qed

lemma compaction_messages_snoc:
  assumes "c \<in> set path" "is_compaction c" "compaction_messages L c path = Inr ms"
    "entry_messages L e = Inr ns"
  shows "compaction_messages L c (path @ [e]) = Inr (ms @ ns)"
proof -
  have "find_index (\<lambda>e. is_compaction e \<and> e_id e = e_id c) path \<noteq> None"
    using assms(1,2) by (auto simp: find_index_None)
  then obtain i where i: "find_index (\<lambda>e. is_compaction e \<and> e_id e = e_id c) path = Some i" by auto
  then have "i < length path" by (rule find_index_Some [THEN conjunct1])
  with i assms(2-4) show ?thesis
    by (auto simp: is_compaction_iff compaction_messages_def find_index_append bind_res_eq_Inr
        append_messages_append)
qed

lemma build_context_snoc:
  assumes "build_session_context L path = Inr ctx" "e_body e = MessageE m" "is_dict m"
  shows "\<exists>ctx'. build_session_context L (path @ [e]) = Inr ctx'
    \<and> sc_messages ctx' = sc_messages ctx @ [m]
    \<and> sc_thinkingLevel ctx' = sc_thinkingLevel ctx"
proof -
  from assms(1) obtain l md c msgs where
    scan: "fold_res scan_entry path (''off'', None, None) = Inr (l, md, c)"
    and msgs: "(case c of None \<Rightarrow> append_messages L path | Some c \<Rightarrow> compaction_messages L c path) = Inr msgs"
    and ctx: "ctx = \<lparr>sc_messages = msgs, sc_thinkingLevel = l, sc_model = md\<rparr>"
    by (auto simp: build_session_context_def bind_res_eq_Inr)
  obtain d where d: "m = VDict d" using assms(3) by (cases m) auto
  have "\<exists>md'. scan_entry e (l, md, c) = Inr (l, md', c)"
    using assms(2) d by (simp add: scan_entry_def)
  then obtain md' where "scan_entry e (l, md, c) = Inr (l, md', c)" by blast
  with scan have scan': "fold_res scan_entry (path @ [e]) (''off'', None, None) = Inr (l, md', c)"
    by (simp add: fold_res_append)
  have e: "entry_messages L e = Inr [m]" using assms(2) by (simp add: entry_messages_def)
  have "(case c of None \<Rightarrow> append_messages L (path @ [e])
      | Some c \<Rightarrow> compaction_messages L c (path @ [e])) = Inr (msgs @ [m])"
  proof (cases c)
    case None
    with msgs e show ?thesis by (simp add: append_messages_append)
  next
    case (Some x)
    then have "x \<in> set path \<and> is_compaction x"
      using scan_finds_last_compaction [OF scan] last_compaction_in [of path None x] by auto
    with compaction_messages_snoc [OF _ _ _ e] Some msgs show ?thesis by simp
  qed
  with scan' ctx show ?thesis by (simp add: build_session_context_def)
qed

section \<open>Properties\<close>

definition empty_memory :: "storage \<times> id_gen" where
  "empty_memory =
     (projr (new_in_memory_storage demo_metadata []), \<lparr>ig_state = initial_uuid_state, ig_calls = 0\<rparr>)"

lemma empty_memory_ok:
  "memory_inv empty_memory" "memory_id_free rnd empty_memory"
  "get_branch (memory_ops rnd now) empty_memory None = Some (Inr [])"
proof -
  have s: "new_in_memory_storage demo_metadata [] = Inr (fst empty_memory)"
    by (simp add: empty_memory_def storage_eval)
  have "st_by_id (fst empty_memory) = Map.empty" "st_leaf_id (fst empty_memory) = None"
    by (simp_all add: empty_memory_def storage_eval)
  with reachable_storage.constructed [OF s]
  show inv: "memory_inv empty_memory"
    and "memory_id_free rnd empty_memory"
    by (simp_all add: memory_inv_def memory_id_free_def)
  from memory_branch [OF inv] \<open>st_leaf_id (fst empty_memory) = None\<close>
  show "get_branch (memory_ops rnd now) empty_memory None = Some (Inr [])"
    by (simp add: get_path_to_root_def)
qed

text \<open>
  C10. What a turn adds to the context, on every storage that keeps the protocol's laws
  (\<open>session_storage\<close>): when the next generated id is not taken and the message is a
  dictionary, \<open>append_message\<close> returns an id, and the context of the branch then holds the
  messages it held before, followed by the new one, with the same thinking level, whether or not
  the branch holds a compaction; the branch ends in the entry with that id.
\<close>

theorem append_message_extends_context:
  assumes "session_storage ops ok id_free" "ok s" "id_free s" "is_dict m"
    and "build_context L ops s = Some (Inr ctx)"
  shows "\<exists>k s' ctx' path e. append_message ops tm m s = (Inr k, s') \<and> ok s'
    \<and> build_context L ops s' = Some (Inr ctx')
    \<and> sc_messages ctx' = sc_messages ctx @ [m]
    \<and> sc_thinkingLevel ctx' = sc_thinkingLevel ctx
    \<and> so_getLeafId ops s' = Inr (Some k) \<and> so_getEntry ops s' k = Inr (Some e)
    \<and> get_branch ops s' None = Some (Inr (path @ [e]))
    \<and> e_id e = k \<and> e_body e = MessageE m \<and> e_timestamp e = tm"
proof -
  from assms(5) obtain r where r: "get_branch ops s None = Some (Inr r)"
    "build_session_context L r = Inr ctx"
    by (auto simp: build_context_def bind_res_eq_Inr)
  from session_storage.session_append_message [OF assms(1-3) r(1), of tm m] obtain k s' e where
    s': "append_message ops tm m s = (Inr k, s')" "ok s'" "so_getLeafId ops s' = Inr (Some k)"
    "so_getEntry ops s' k = Inr (Some e)" "get_branch ops s' None = Some (Inr (r @ [e]))"
    and e: "e_body e = MessageE m" "e_id e = k" "e_timestamp e = tm" by auto
  from build_context_snoc [OF r(2) e(1) assms(4)] s' e show ?thesis
    by (auto simp: build_context_def)
qed

theorem append_message_extends_context_witness:
  "\<exists>k s' ctx'. append_message (memory_ops demo_supply ''now'') ''t'' (VDict [(''role'', VStr ''user'')]) empty_memory
       = (Inr k, s')
     \<and> build_context \<lparr>lib_iso_ms = (\<lambda>_. None), lib_float_trunc = (\<lambda>_. Inr 0)\<rparr>
         (memory_ops demo_supply ''now'') s' = Some (Inr ctx')
     \<and> sc_messages ctx' = [VDict [(''role'', VStr ''user'')]]"
proof -
  have "build_context \<lparr>lib_iso_ms = (\<lambda>_. None), lib_float_trunc = (\<lambda>_. Inr 0)\<rparr>
      (memory_ops demo_supply ''now'') empty_memory
    = Some (Inr \<lparr>sc_messages = [], sc_thinkingLevel = ''off'', sc_model = None\<rparr>)"
    by (simp add: build_context_def empty_memory_ok build_session_context_def)
  from append_message_extends_context [OF memory.session_storage_axioms empty_memory_ok(1,2) _ this, of
      "VDict [(''role'', VStr ''user'')]" "''t''"]
  show ?thesis by auto
qed

section \<open>A session on the storages of the repository\<close>

text \<open>
  \<^verbatim>\<open>BaseSessionStorage\<close> and the two classes that extend it, read with the names a session
  asks for: the only method they have under such a name is \<open>find_entries\<close>; every other
  attribute is missing.
\<close>

definition snake_case_ops :: "storage session_ops" where
  "snake_case_ops =
     \<lparr>so_getMetadata = (\<lambda>s. Inl (PyAttributeError ''getMetadata'')),
      so_getLeafId = (\<lambda>s. Inl (PyAttributeError ''getLeafId'')),
      so_getAppendParentId = None,
      so_setLeafId = (\<lambda>k. raise_act (PyAttributeError ''setLeafId'')),
      so_createEntryId = raise_act (PyAttributeError ''createEntryId''),
      so_appendEntry = (\<lambda>e. raise_act (PyAttributeError ''appendEntry'')),
      so_getEntry = (\<lambda>s k. Inl (PyAttributeError ''getEntry'')),
      so_find_entries = (\<lambda>s t. Inr (find_entries s t)),
      so_getLabel = (\<lambda>s k. Inl (PyAttributeError ''getLabel'')),
      so_getPathToRoot = (\<lambda>s k. Some (Inl (PyAttributeError ''getPathToRoot''))),
      so_getEntries = (\<lambda>s. Inl (PyAttributeError ''getEntries''))\<rparr>"

text \<open>
  A session on a storage of the repository stores nothing: in every state of the storage
  each of the methods that append an entry, and \<open>move_to\<close>, raises \<^verbatim>\<open>AttributeError\<close>
  and leaves the storage as it was, and so does the reading of the branch and of the context;
  only \<open>get_session_name\<close> finds its method.
\<close>

theorem session_on_repository_storage:
  "append_typed_entry snake_case_ops now body s = (Inl (PyAttributeError ''createEntryId''), s)
   \<and> append_message snake_case_ops now m s = (Inl (PyAttributeError ''createEntryId''), s)
   \<and> append_compaction snake_case_ops now smry kept tokens details hook s
       = (Inl (PyAttributeError ''createEntryId''), s)
   \<and> append_label snake_case_ops now target lbl s = (Inl (PyAttributeError ''getEntry''), s)
   \<and> move_to snake_case_ops now (Some target) arg s = (Inl (PyAttributeError ''getEntry''), s)
   \<and> move_to snake_case_ops now None arg s = (Inl (PyAttributeError ''setLeafId''), s)
   \<and> get_branch snake_case_ops s None = Some (Inl (PyAttributeError ''getLeafId''))
   \<and> get_branch snake_case_ops s (Some k) = Some (Inl (PyAttributeError ''getPathToRoot''))
   \<and> build_context L snake_case_ops s = Some (Inl (PyAttributeError ''getLeafId''))
   \<and> (\<exists>name. get_session_name snake_case_ops s = Inr name)"
proof -
  have "\<exists>name. get_session_name snake_case_ops s = Inr name"
    by (auto simp: get_session_name_def snake_case_ops_def split: entry_body.split option.split)
  then show ?thesis
    by (auto simp: append_message_def append_compaction_def append_typed_entry_def append_label_def
        move_to_def build_context_def get_branch_def snake_case_ops_def bind_act_def then_act_def
        raise_act_def)
qed

text \<open>
  What a compaction leaves of a branch: when the entries after the last compaction \<open>c\<close> are
  \<open>post\<close> and \<open>k\<close> is the entry it names as first kept, the context holds the summary
  message, then the messages of \<open>k\<close> and the entries between \<open>k\<close> and \<open>c\<close>, then those of
  \<open>post\<close>; no entry before \<open>k\<close> contributes a message.
\<close>

theorem compacted_context:
  assumes "build_session_context L (old @ k # kept @ c # post) = Inr ctx"
    and "e_body c = CompactionE smry (e_id k) tokens details hook"
    and "list_all (\<lambda>e. \<not> is_compaction e) post" "distinct (map e_id (old @ k # kept @ [c]))"
  shows "\<exists>m ks ps. create_compaction_summary_message L smry tokens (e_timestamp c) = Inr m
    \<and> append_messages L (k # kept) = Inr ks \<and> append_messages L post = Inr ps
    \<and> sc_messages ctx = m # ks @ ps"
  using assms by (rule compaction_context)

definition demo_compaction :: session_tree_entry where
  "demo_compaction =
     \<lparr>e_id = ''c'', e_parentId = Some ''b'', e_timestamp = ''2024-01-01T00:00:00Z'', e_appendMode = None,
      e_body = CompactionE ''sum'' ''b'' 7 VNone None\<rparr>"

theorem compacted_context_witness:
  "\<exists>ctx. build_session_context \<lparr>lib_iso_ms = (\<lambda>_. Some 5), lib_float_trunc = (\<lambda>_. Inr 0)\<rparr>
       [demo_message ''a'' None ''one'', demo_message ''b'' (Some ''a'') ''two'', demo_compaction,
        demo_message ''d'' (Some ''c'') ''three''] = Inr ctx
     \<and> length (sc_messages ctx) = 3"
proof -
  let ?L = "\<lparr>lib_iso_ms = (\<lambda>_. Some 5), lib_float_trunc = (\<lambda>_. Inr 0)\<rparr>"
  let ?p = "[demo_message ''a'' None ''one''] @ demo_message ''b'' (Some ''a'') ''two'' # [] @ demo_compaction
      # [demo_message ''d'' (Some ''c'') ''three'']"
  obtain ctx where ctx: "build_session_context ?L ?p = Inr ctx"
    by (simp add: build_session_context_def scan_entry_def demo_message_def demo_compaction_def
        compaction_messages_def is_compaction_def entry_messages_def Let_def
        create_compaction_summary_message_def require_session_timestamp_ms_def
        parse_session_timestamp_ms_def py_strip_def strip_with_def rstrip_with_def lstrip_with_def
        is_space_def ord_char_def)
  have "\<exists>m ks ps. create_compaction_summary_message ?L ''sum'' 7 (e_timestamp demo_compaction) = Inr m
    \<and> append_messages ?L (demo_message ''b'' (Some ''a'') ''two'' # []) = Inr ks
    \<and> append_messages ?L [demo_message ''d'' (Some ''c'') ''three''] = Inr ps
    \<and> sc_messages ctx = m # ks @ ps"
    by (rule compacted_context [OF ctx, of _ _ VNone None])
       (simp_all add: demo_compaction_def demo_message_def is_compaction_def)
  then have "length (sc_messages ctx) = 3"
    by (auto simp: entry_messages_def demo_message_def)
  with ctx show ?thesis by auto
qed

end
