(* ===== verification/Compaction.thy ===== *)
theory Compaction
  imports CompactionUtils CompactionPrompts AgentSession
begin

text \<open>
  \<^verbatim>\<open>compaction/compaction.py\<close>: how full a context is, where a branch may be cut, what a
  compaction summarises and what it keeps, and the compaction itself. The model that writes the
  summaries is a parameter.
\<close>

section \<open>Data\<close>

definition DEFAULT_COMPACTION_SETTINGS :: compaction_settings where
  "DEFAULT_COMPACTION_SETTINGS =
     \<lparr>cs_enabled = True, cs_reserveTokens = 16384, cs_keepRecentTokens = 20000\<rparr>"

definition IMAGE_BLOCK_CHARS :: nat where
  "IMAGE_BLOCK_CHARS = 4800"

record compaction_details =
  cd_read_files :: "string list"
  cd_modified_files :: "string list"

record compaction_result =
  cr_summary :: string
  cr_firstKeptEntryId :: string
  cr_tokensBefore :: int
  cr_details :: compaction_details

text \<open>A turn start of \<open>-1\<close> is \<^term>\<open>None\<close>.\<close>

record cut_point_result =
  cp_firstKeptEntryIndex :: nat
  cp_turnStartIndex :: "nat option"
  cp_isSplitTurn :: bool

record compaction_preparation =
  pr_firstKeptEntryId :: string
  pr_messagesToSummarize :: "pyval list"
  pr_turnPrefixMessages :: "pyval list"
  pr_isSplitTurn :: bool
  pr_tokensBefore :: int
  pr_previousSummary :: "string option"
  pr_fileOps :: file_operations
  pr_settings :: compaction_settings

section \<open>Usage and token estimates\<close>

text \<open>A value that must be an \<^verbatim>\<open>int\<close>, as the fields of \<^verbatim>\<open>Usage\<close> are.\<close>

fun need_int :: "pyval \<Rightarrow> int res" where
  "need_int (VInt i) = Inr i"
| "need_int (VBool b) = Inr (if b then 1 else 0)"
| "need_int _ = Inl PyTypeError"

definition calculate_context_tokens :: "pyval \<Rightarrow> int res" where
  "calculate_context_tokens usage =
     bind_res (py_attr usage ''total_tokens'') (\<lambda>total.
     if truthy total then need_int total
     else
       bind_res (bind_res (py_attr usage ''input'') need_int) (\<lambda>a.
       bind_res (bind_res (py_attr usage ''output'') need_int) (\<lambda>b.
       bind_res (bind_res (py_attr usage ''cache_read'') need_int) (\<lambda>c.
       bind_res (bind_res (py_attr usage ''cache_write'') need_int) (\<lambda>d.
       Inr (a + b + c + d))))))"

definition get_assistant_usage :: "pyval \<Rightarrow> pyval option res" where
  "get_assistant_usage msg =
     bind_res (py_get msg ''role'') (\<lambda>role.
     if role \<noteq> VStr ''assistant'' then Inr None
     else
       bind_res (py_get msg ''stopReason'') (\<lambda>stop.
       if stop = VStr ''aborted'' \<or> stop = VStr ''error'' then Inr None
       else
         bind_res (py_get msg ''usage'') (\<lambda>usage.
         Inr (if usage = VNone then None else Some usage))))"

text \<open>The search goes through the entries in reverse order.\<close>

fun first_assistant_usage :: "session_tree_entry list \<Rightarrow> pyval option res" where
  "first_assistant_usage [] = Inr None"
| "first_assistant_usage (e # es) =
     (case e_body e of
        MessageE m \<Rightarrow>
          bind_res (get_assistant_usage m) (\<lambda>u.
          if u \<noteq> None then Inr u else first_assistant_usage es)
      | _ \<Rightarrow> first_assistant_usage es)"

definition get_last_assistant_usage :: "session_tree_entry list \<Rightarrow> pyval option res" where
  "get_last_assistant_usage entries = first_assistant_usage (rev entries)"

fun usage_info_loop :: "pyval list \<Rightarrow> nat \<Rightarrow> (pyval \<times> nat) option res" where
  "usage_info_loop messages 0 = Inr None"
| "usage_info_loop messages (Suc i) =
     bind_res (get_assistant_usage (messages ! i)) (\<lambda>u.
     case u of Some usage \<Rightarrow> Inr (Some (usage, i)) | None \<Rightarrow> usage_info_loop messages i)"

definition get_last_assistant_usage_info :: "pyval list \<Rightarrow> (pyval \<times> nat) option res" where
  "get_last_assistant_usage_info messages = usage_info_loop messages (length messages)"

text \<open>\<open>len(v.get(k, ""))\<close>\<close>

definition len_of :: "pyval \<Rightarrow> string \<Rightarrow> nat res" where
  "len_of v k = bind_res (py_get_default v k (VStr [])) py_len"

definition content_block_chars :: "pyval \<Rightarrow> nat res" where
  "content_block_chars block =
     (if \<not> is_dict block then Inr 0
      else
        bind_res (py_get block ''type'') (\<lambda>ty.
        if ty = VStr ''text'' then len_of block ''text''
        else if ty = VStr ''image'' then Inr IMAGE_BLOCK_CHARS
        else Inr 0))"

definition assistant_block_chars :: "pyval \<Rightarrow> nat res" where
  "assistant_block_chars block =
     (if \<not> is_dict block then Inr 0
      else
        bind_res (py_get block ''type'') (\<lambda>ty.
        if ty = VStr ''text'' then len_of block ''text''
        else if ty = VStr ''thinking'' then len_of block ''thinking''
        else if ty = VStr ''toolCall'' then
          bind_res (py_get_default block ''arguments'' (VDict [])) (\<lambda>args.
          bind_res (len_of block ''name'') (\<lambda>n.
          Inr (n + length (case json_dumps args of Inr s \<Rightarrow> s | Inl _ \<Rightarrow> py_str args))))
        else Inr 0))"

definition sum_res :: "('a \<Rightarrow> nat res) \<Rightarrow> 'a list \<Rightarrow> nat res" where
  "sum_res f xs = bind_res (map_res f xs) (\<lambda>ns. Inr (sum_list ns))"

definition count_content_block_chars :: "pyval \<Rightarrow> nat res" where
  "count_content_block_chars content =
     bind_res (py_iter content) (sum_res content_block_chars)"

definition estimate_tokens :: "pyval \<Rightarrow> nat res" where
  "estimate_tokens message =
     bind_res (py_get message ''content'') (\<lambda>content.
     bind_res (py_get message ''role'') (\<lambda>role.
     if role = VStr ''user'' \<or> role = VStr ''custom'' \<or> role = VStr ''toolResult'' then
       (if is_str content then Inr (max 1 (length (the_str content) div 4))
        else
          bind_res (count_content_block_chars (py_or content (VList []))) (\<lambda>chars.
          Inr (max 1 (chars div 4))))
     else if role = VStr ''assistant'' then
       bind_res (if is_list content then sum_res assistant_block_chars (the_list content) else Inr 0)
         (\<lambda>chars. Inr (max 1 (chars div 4)))
     else if role = VStr ''bashExecution'' then
       bind_res (len_of message ''command'') (\<lambda>a.
       bind_res (len_of message ''output'') (\<lambda>b.
       Inr (max 1 ((a + b) div 4))))
     else if role = VStr ''branchSummary'' \<or> role = VStr ''compactionSummary'' then
       bind_res (len_of message ''summary'') (\<lambda>chars. Inr (max 1 (chars div 4)))
     else Inr 0))"

record context_usage_estimate =
  ue_tokens :: int
  ue_usageTokens :: int
  ue_trailingTokens :: int
  ue_lastUsageIndex :: "nat option"

definition estimate_context_tokens :: "pyval list \<Rightarrow> context_usage_estimate res" where
  "estimate_context_tokens messages =
     bind_res (get_last_assistant_usage_info messages) (\<lambda>info.
     case info of
       None \<Rightarrow>
         bind_res (sum_res estimate_tokens messages) (\<lambda>estimated.
         Inr \<lparr>ue_tokens = int estimated, ue_usageTokens = 0, ue_trailingTokens = int estimated,
              ue_lastUsageIndex = None\<rparr>)
     | Some (usage, index) \<Rightarrow>
         bind_res (calculate_context_tokens usage) (\<lambda>usage_tokens.
         bind_res (sum_res estimate_tokens (drop (index + 1) messages)) (\<lambda>trailing.
         Inr \<lparr>ue_tokens = usage_tokens + int trailing, ue_usageTokens = usage_tokens,
              ue_trailingTokens = int trailing, ue_lastUsageIndex = Some index\<rparr>)))"

definition should_compact :: "int \<Rightarrow> int \<Rightarrow> compaction_settings \<Rightarrow> bool" where
  "should_compact context_tokens context_window settings =
     (if \<not> cs_enabled settings then False
      else context_tokens > context_window - cs_reserveTokens settings)"

section \<open>Where to cut\<close>

text \<open>\<open>entry.message.get("role") if isinstance(entry.message, dict) else None\<close> for a message entry.\<close>

definition entry_role :: "session_tree_entry \<Rightarrow> pyval" where
  "entry_role e =
     (case e_body e of
        MessageE m \<Rightarrow> (if is_dict m then message_field m ''role'' else VNone)
      | _ \<Rightarrow> VNone)"

definition is_cut_point :: "session_tree_entry \<Rightarrow> bool" where
  "is_cut_point e \<longleftrightarrow>
     (entry_type e = ''message'' \<and>
        entry_role e \<in> {VStr ''bashExecution'', VStr ''custom'', VStr ''branchSummary'',
          VStr ''compactionSummary'', VStr ''user'', VStr ''assistant''})
     \<or> entry_type e \<in> {''branch_summary'', ''custom_message''}"

definition find_valid_cut_points :: "session_tree_entry list \<Rightarrow> nat \<Rightarrow> nat \<Rightarrow> nat list res" where
  "find_valid_cut_points entries s t =
     (if s < t \<and> length entries < t then Inl PyIndexError
      else Inr (filter (\<lambda>i. is_cut_point (entries ! i)) [s..<t]))"

definition is_turn_start :: "session_tree_entry \<Rightarrow> bool" where
  "is_turn_start e \<longleftrightarrow>
     entry_type e \<in> {''branch_summary'', ''custom_message''}
     \<or> (entry_type e = ''message'' \<and> entry_role e \<in> {VStr ''user'', VStr ''bashExecution''})"

fun turn_start_loop :: "session_tree_entry list \<Rightarrow> nat \<Rightarrow> nat \<Rightarrow> nat option" where
  "turn_start_loop entries s i =
     (if i < s then None
      else if is_turn_start (entries ! i) then Some i
      else if i = 0 then None
      else turn_start_loop entries s (i - 1))"

declare turn_start_loop.simps [simp del]

definition find_turn_start_index :: "session_tree_entry list \<Rightarrow> nat \<Rightarrow> nat \<Rightarrow> nat option res" where
  "find_turn_start_index entries entry_index s =
     (if s \<le> entry_index \<and> length entries \<le> entry_index then Inl PyIndexError
      else Inr (turn_start_loop entries s entry_index))"

text \<open>The cut for the entry at which the kept tokens reach the limit: the first cut point at or
  after it, the last one when there is none.\<close>

definition cut_from :: "nat list \<Rightarrow> nat \<Rightarrow> nat" where
  "cut_from cut_points i =
     (case List.find (\<lambda>cp. i \<le> cp) cut_points of Some cp \<Rightarrow> cp | None \<Rightarrow> last cut_points)"

fun cut_scan ::
  "session_tree_entry list \<Rightarrow> nat list \<Rightarrow> int \<Rightarrow> nat list \<Rightarrow> int \<Rightarrow> nat res" where
  "cut_scan entries cut_points keep [] accumulated = Inr (hd cut_points)"
| "cut_scan entries cut_points keep (i # is) accumulated =
     (case e_body (entries ! i) of
        MessageE m \<Rightarrow>
          bind_res (estimate_tokens m) (\<lambda>t.
          if accumulated + int t \<ge> keep then Inr (cut_from cut_points i)
          else cut_scan entries cut_points keep is (accumulated + int t))
      | _ \<Rightarrow> cut_scan entries cut_points keep is accumulated)"

text \<open>The loop that moves the cut back over entries that are neither messages nor compactions.\<close>

fun cut_back :: "session_tree_entry list \<Rightarrow> nat \<Rightarrow> nat \<Rightarrow> nat" where
  "cut_back entries s 0 = 0"
| "cut_back entries s (Suc i) =
     (if s < Suc i \<and> entry_type (entries ! i) \<notin> {''compaction'', ''message''}
      then cut_back entries s i else Suc i)"

definition find_cut_point ::
  "session_tree_entry list \<Rightarrow> nat \<Rightarrow> nat \<Rightarrow> int \<Rightarrow> cut_point_result res" where
  "find_cut_point entries s t keep =
     bind_res (find_valid_cut_points entries s t) (\<lambda>cut_points.
     if cut_points = []
     then Inr \<lparr>cp_firstKeptEntryIndex = s, cp_turnStartIndex = None, cp_isSplitTurn = False\<rparr>
     else
       bind_res (cut_scan entries cut_points keep (rev [s..<t]) 0) (\<lambda>cut0.
       let cut = cut_back entries s cut0;
           cut_entry = entries ! cut;
           is_user_message = (entry_type cut_entry = ''message'' \<and> entry_role cut_entry = VStr ''user'')
       in bind_res (if is_user_message then Inr None else find_turn_start_index entries cut s) (\<lambda>ts.
          Inr \<lparr>cp_firstKeptEntryIndex = cut, cp_turnStartIndex = ts,
               cp_isSplitTurn = (\<not> is_user_message \<and> ts \<noteq> None)\<rparr>)))"

section \<open>What is summarised\<close>

definition get_message_from_entry :: "pylib \<Rightarrow> session_tree_entry \<Rightarrow> pyval option res" where
  "get_message_from_entry L e =
     (case e_body e of
        MessageE m \<Rightarrow> Inr (if m = VNone then None else Some m)
      | CustomMessageE ct content details display \<Rightarrow>
          bind_res (create_custom_message L ct content display details (e_timestamp e)) (\<lambda>m. Inr (Some m))
      | BranchSummaryE from_id smry details hook \<Rightarrow>
          bind_res (create_branch_summary_message L smry from_id (e_timestamp e)) (\<lambda>m. Inr (Some m))
      | CompactionE smry first tokens details hook \<Rightarrow>
          bind_res (create_compaction_summary_message L smry tokens (e_timestamp e)) (\<lambda>m. Inr (Some m))
      | _ \<Rightarrow> Inr None)"

definition get_message_from_entry_for_compaction ::
  "pylib \<Rightarrow> session_tree_entry \<Rightarrow> pyval option res" where
  "get_message_from_entry_for_compaction L e =
     (if is_compaction e then Inr None else get_message_from_entry L e)"

text \<open>The two loops that collect the messages of a range of entries.\<close>

fun collect_messages :: "pylib \<Rightarrow> session_tree_entry list \<Rightarrow> pyval list res" where
  "collect_messages L [] = Inr []"
| "collect_messages L (e # es) =
     bind_res (get_message_from_entry_for_compaction L e) (\<lambda>m.
     bind_res (collect_messages L es) (\<lambda>ms.
     Inr (case m of None \<Rightarrow> ms | Some x \<Rightarrow> x # ms)))"

text \<open>The files that the details of an earlier summary name: the loops over \<open>readFiles\<close> and
  \<open>modifiedFiles\<close>, guarded by \<^verbatim>\<open>hasattr\<close>. File names are strings, as declared.\<close>

definition add_detail_files :: "pyval \<Rightarrow> file_operations \<Rightarrow> file_operations res" where
  "add_detail_files details ops =
     bind_res (if py_hasattr details ''readFiles''
       then bind_res (py_iter (py_getattr details ''readFiles'' VNone)) (map_res need_str)
       else Inr []) (\<lambda>reads.
     bind_res (if py_hasattr details ''modifiedFiles''
       then bind_res (py_iter (py_getattr details ''modifiedFiles'' VNone)) (map_res need_str)
       else Inr []) (\<lambda>edits.
     Inr (ops\<lparr>fo_read := fold List.insert reads (fo_read ops),
              fo_edited := fold List.insert edits (fo_edited ops)\<rparr>)))"

definition extract_file_operations ::
  "pyval list \<Rightarrow> session_tree_entry list \<Rightarrow> nat option \<Rightarrow> file_operations res" where
  "extract_file_operations messages entries prev_index =
     bind_res (case prev_index of
         None \<Rightarrow> Inr create_file_ops
       | Some i \<Rightarrow>
           (case e_body (entries ! i) of
              CompactionE smry first tokens details hook \<Rightarrow>
                (if hook \<noteq> Some True \<and> truthy details then add_detail_files details create_file_ops
                 else Inr create_file_ops)
            | _ \<Rightarrow> Inr create_file_ops))
       (fold_res extract_file_ops_from_message messages)"

text \<open>The last compaction of the branch, and where its kept part starts.\<close>

fun last_compaction_index :: "session_tree_entry list \<Rightarrow> nat \<Rightarrow> nat option" where
  "last_compaction_index entries 0 = None"
| "last_compaction_index entries (Suc i) =
     (if is_compaction (entries ! i) then Some i else last_compaction_index entries i)"

definition compaction_boundary :: "session_tree_entry list \<Rightarrow> nat option \<Rightarrow> nat \<times> string option" where
  "compaction_boundary entries prev_index =
     (case prev_index of
        None \<Rightarrow> (0, None)
      | Some i \<Rightarrow>
          (case e_body (entries ! i) of
             CompactionE smry first tokens details hook \<Rightarrow>
               ((case find_index (\<lambda>e. e_id e = first) entries of Some j \<Rightarrow> j | None \<Rightarrow> i + 1),
                Some smry)
           | _ \<Rightarrow> (0, None)))"

definition prepare_compaction ::
  "pylib \<Rightarrow> session_tree_entry list \<Rightarrow> compaction_settings \<Rightarrow> compaction_preparation option res" where
  "prepare_compaction L path settings =
     (if path = [] \<or> is_compaction (last path) then Inr None
      else
        let prev_index = last_compaction_index path (length path);
            (boundary_start, previous_summary) = compaction_boundary path prev_index;
            boundary_end = length path
        in bind_res (build_session_context L path) (\<lambda>ctx.
           bind_res (estimate_context_tokens (sc_messages ctx)) (\<lambda>est.
           bind_res (find_cut_point path boundary_start boundary_end (cs_keepRecentTokens settings))
             (\<lambda>cut.
           let first_kept = cp_firstKeptEntryIndex cut in
           if length path \<le> first_kept then Inl PyIndexError
           else if e_id (path ! first_kept) = []
           then Inl (CompactionError CompactionInvalidSession
             ''First kept entry has no UUID - session may need migration'')
           else
             let history_end = (if cp_isSplitTurn cut then the (cp_turnStartIndex cut) else first_kept)
             in bind_res (collect_messages L (take (history_end - boundary_start) (drop boundary_start path)))
                  (\<lambda>to_summarize.
                bind_res (if cp_isSplitTurn cut
                    then collect_messages L (take (first_kept - history_end) (drop history_end path))
                    else Inr []) (\<lambda>turn_prefix.
                bind_res (extract_file_operations to_summarize path prev_index) (\<lambda>ops.
                bind_res (if cp_isSplitTurn cut
                    then fold_res extract_file_ops_from_message turn_prefix ops else Inr ops) (\<lambda>ops'.
                Inr (Some \<lparr>pr_firstKeptEntryId = e_id (path ! first_kept),
                   pr_messagesToSummarize = to_summarize, pr_turnPrefixMessages = turn_prefix,
                   pr_isSplitTurn = cp_isSplitTurn cut, pr_tokensBefore = ue_tokens est,
                   pr_previousSummary = previous_summary, pr_fileOps = ops',
                   pr_settings = settings\<rparr>)))))))))"

section \<open>Summaries\<close>

text \<open>
  The model and the call that runs it are parameters. \<open>lr_stream_fn\<close> is the caller's
  \<open>stream_fn\<close> followed by \<open>result()\<close> (\<^term>\<open>None\<close> where the stream has no
  \<open>result\<close>), \<open>lr_complete\<close> the runtime's \<open>completeSimple\<close>.
\<close>

record llm_model =
  mo_context_window :: int
  mo_max_tokens :: int

type_synonym llm_call = "llm_model \<Rightarrow> pyval \<Rightarrow> pyval \<Rightarrow> pyval res"

record llm_runtime =
  lr_stream_fn :: "(llm_model \<Rightarrow> pyval \<Rightarrow> pyval \<Rightarrow> pyval res option) option"
  lr_complete :: "llm_call option"

definition missing_dep :: "string \<Rightarrow> pyexn" where
  "missing_dep name =
     PlainException (''@openclaw/agent-core runtime dependency '' @ [CHR 0x22] @ name @ [CHR 0x22]
       @ '' is not configured. Pass an AgentCoreRuntimeDeps instance or a streamFn explicitly.'')"

definition resolve_agent_core_complete_fn :: "llm_runtime \<Rightarrow> llm_call res" where
  "resolve_agent_core_complete_fn rt =
     (case lr_complete rt of Some f \<Rightarrow> Inr f | None \<Rightarrow> Inl (missing_dep ''completeSimple''))"

definition complete_summarization :: "llm_runtime \<Rightarrow> llm_call" where
  "complete_summarization rt model context options =
     (case (case lr_stream_fn rt of None \<Rightarrow> None | Some f \<Rightarrow> f model context options) of
        Some r \<Rightarrow> r
      | None \<Rightarrow> bind_res (resolve_agent_core_complete_fn rt) (\<lambda>f. f model context options))"

text \<open>
  \<^verbatim>\<open>int(0.8 * n)\<close> and \<^verbatim>\<open>int(0.5 * n)\<close>, which truncate towards zero; exact on integers
  below \<open>2^50\<close> in size, where the rounding of the product never crosses an integer.
\<close>

definition trunc_frac :: "int \<Rightarrow> int \<Rightarrow> int \<Rightarrow> int" where
  "trunc_frac n num den = (if 0 \<le> n then n * num div den else - ((- n) * num div den))"

definition summary_max_tokens :: "llm_model \<Rightarrow> int \<Rightarrow> int" where
  "summary_max_tokens model budget =
     min budget (if mo_max_tokens model > 0 then mo_max_tokens model else 10 ^ 12)"

record call_options =
  co_api_key :: pyval
  co_headers :: pyval
  co_signal :: pyval

definition summarization_context :: "string \<Rightarrow> int \<Rightarrow> pyval" where
  "summarization_context prompt_text now =
     VDict [(''systemPrompt'', VStr SUMMARIZATION_SYSTEM_PROMPT),
       (''messages'', VList [VDict [(''role'', VStr ''user''),
          (''content'', VList [VDict [(''type'', VStr ''text''), (''text'', VStr prompt_text)]]),
          (''timestamp'', VInt now)]])]"

definition summarization_options :: "int \<Rightarrow> call_options \<Rightarrow> pyval" where
  "summarization_options max_tokens co =
     VDict [(''maxTokens'', VInt max_tokens), (''signal'', co_signal co),
       (''apiKey'', co_api_key co), (''headers'', co_headers co)]"

fun text_blocks :: "pyval list \<Rightarrow> string list res" where
  "text_blocks [] = Inr []"
| "text_blocks (c # cs) =
     (if is_dict c \<and> message_field c ''type'' = VStr ''text''
      then bind_res (bind_res (py_get_default c ''text'' (VStr [])) need_str) (\<lambda>t.
           bind_res (text_blocks cs) (\<lambda>ts. Inr (t # ts)))
      else text_blocks cs)"

text \<open>What both summary functions do with the response; \<open>what\<close> is the word of the messages.\<close>

definition summary_text :: "string \<Rightarrow> pyval \<Rightarrow> string res" where
  "summary_text what response =
     bind_res (py_get response ''stopReason'') (\<lambda>stop.
     bind_res (py_get response ''errorMessage'') (\<lambda>err.
     if stop = VStr ''aborted''
     then Inl (CompactionError CompactionAborted (py_str (py_or err (VStr (what @ '' aborted'')))))
     else if stop = VStr ''error''
     then Inl (CompactionError SummarizationFailed
       (what @ '' failed: '' @ py_str (py_or err (VStr ''Unknown error''))))
     else
       bind_res (py_get_default response ''content'' (VList [])) (\<lambda>content.
       if is_list content then bind_res (text_blocks (the_list content)) (\<lambda>ts. Inr (py_join nl ts))
       else Inr (py_str content))))"

definition summary_prompt :: "string \<Rightarrow> string option \<Rightarrow> string option \<Rightarrow> string" where
  "summary_prompt conversation custom previous =
     (let base = (if previous \<noteq> None \<and> previous \<noteq> Some []
                  then UPDATE_SUMMARIZATION_PROMPT else SUMMARIZATION_PROMPT);
          base' = (case custom of
              Some c \<Rightarrow> if c \<noteq> [] then base @ nl @ nl @ ''Additional focus: '' @ c else base
            | None \<Rightarrow> base);
          prev = (case previous of
              Some p \<Rightarrow> if p \<noteq> [] then ''<previous-summary>'' @ nl @ p @ nl @ ''</previous-summary>'' @ nl @ nl
                        else []
            | None \<Rightarrow> [])
      in ''<conversation>'' @ nl @ conversation @ nl @ ''</conversation>'' @ nl @ nl @ prev @ base')"

definition generate_summary ::
  "pylib \<Rightarrow> llm_runtime \<Rightarrow> llm_model \<Rightarrow> int \<Rightarrow> call_options \<Rightarrow> pyval list \<Rightarrow> int
     \<Rightarrow> string option \<Rightarrow> string option \<Rightarrow> string res" where
  "generate_summary L rt model now co messages reserve custom previous =
     bind_res (convert_to_llm L messages) (\<lambda>llm_messages.
     bind_res (serialize_conversation llm_messages) (\<lambda>conversation.
     bind_res (complete_summarization rt model
         (summarization_context (summary_prompt conversation custom previous) now)
         (summarization_options (summary_max_tokens model (trunc_frac reserve 4 5)) co))
       (summary_text ''Summarization'')))"

definition generate_turn_prefix_summary ::
  "pylib \<Rightarrow> llm_runtime \<Rightarrow> llm_model \<Rightarrow> int \<Rightarrow> call_options \<Rightarrow> pyval list \<Rightarrow> int \<Rightarrow> string res" where
  "generate_turn_prefix_summary L rt model now co messages reserve =
     bind_res (convert_to_llm L messages) (\<lambda>llm_messages.
     bind_res (serialize_conversation llm_messages) (\<lambda>conversation.
     bind_res (complete_summarization rt model
         (summarization_context (''<conversation>'' @ nl @ conversation @ nl @ ''</conversation>''
            @ nl @ nl @ TURN_PREFIX_SUMMARIZATION_PROMPT) now)
         (summarization_options (summary_max_tokens model (trunc_frac reserve 1 2)) co))
       (summary_text ''Turn prefix summarization'')))"

text \<open>\<^verbatim>\<open>asyncio.gather\<close> of two tasks: both results, or the exception of the task that
  fails first; \<open>second_first\<close> says that the second task finishes first.\<close>

definition gather2 :: "bool \<Rightarrow> 'a res \<Rightarrow> 'b res \<Rightarrow> ('a \<times> 'b) res" where
  "gather2 second_first a b =
     (case (a, b) of
        (Inr x, Inr y) \<Rightarrow> Inr (x, y)
      | (Inl e, Inr _) \<Rightarrow> Inl e
      | (Inr _, Inl f) \<Rightarrow> Inl f
      | (Inl e, Inl f) \<Rightarrow> Inl (if second_first then f else e))"

definition compact ::
  "pylib \<Rightarrow> llm_runtime \<Rightarrow> llm_model \<Rightarrow> int \<Rightarrow> call_options \<Rightarrow> bool \<Rightarrow> compaction_preparation
     \<Rightarrow> string option \<Rightarrow> compaction_result res" where
  "compact L rt model now co second_first p custom =
     (if pr_firstKeptEntryId p = []
      then Inl (CompactionError CompactionInvalidSession
        ''First kept entry has no UUID - session may need migration'')
      else
        bind_res
          (if pr_isSplitTurn p \<and> pr_turnPrefixMessages p \<noteq> [] then
             bind_res (gather2 second_first
               (if pr_messagesToSummarize p \<noteq> []
                then generate_summary L rt model now co (pr_messagesToSummarize p)
                       (cs_reserveTokens (pr_settings p)) custom (pr_previousSummary p)
                else Inr ''No prior history.'')
               (generate_turn_prefix_summary L rt model now co (pr_turnPrefixMessages p)
                  (cs_reserveTokens (pr_settings p)))) (\<lambda>(history, turn_prefix).
             Inr (history @ nl @ nl @ ''---'' @ nl @ nl @ ''**Turn Context (split turn):**''
               @ nl @ nl @ turn_prefix))
           else
             generate_summary L rt model now co (pr_messagesToSummarize p)
               (cs_reserveTokens (pr_settings p)) custom (pr_previousSummary p))
          (\<lambda>smry.
           let (read_files, modified_files) = compute_file_lists (pr_fileOps p)
           in Inr \<lparr>cr_summary = smry @ format_file_operations read_files modified_files,
                cr_firstKeptEntryId = pr_firstKeptEntryId p,
                cr_tokensBefore = pr_tokensBefore p,
                cr_details = \<lparr>cd_read_files = read_files, cd_modified_files = modified_files\<rparr>\<rparr>))"

section \<open>Facts about cut points\<close>

lemma cut_from_in: "cps \<noteq> [] \<Longrightarrow> cut_from cps i \<in> set cps"
  by (auto simp: cut_from_def find_Some_iff split: option.splits)

lemma cut_scan_in:
  "cut_scan entries cps keep is acc = Inr c \<Longrightarrow> cps \<noteq> [] \<Longrightarrow> c \<in> set cps"
proof (induction entries cps keep "is" acc rule: cut_scan.induct)
  case (2 entries cps keep i "is" acc)
  then show ?case
    by (cases "e_body (entries ! i)")
       (auto simp: bind_res_eq_Inr cut_from_in split: if_split_asm)
qed auto

lemma cut_back_bounds: "s \<le> c \<Longrightarrow> s \<le> cut_back entries s c \<and> cut_back entries s c \<le> c"
  by (induction entries s c rule: cut_back.induct) auto

lemma cut_back_entry:
  "cut_back entries s c = c
   \<or> entry_type (entries ! cut_back entries s c) \<notin> {''compaction'', ''message''}"
  by (induction entries s c rule: cut_back.induct) auto

lemma turn_start_bounds:
  "turn_start_loop entries s i = Some j \<Longrightarrow> s \<le> j \<and> j \<le> i \<and> is_turn_start (entries ! j)"
proof (induction entries s i rule: turn_start_loop.induct)
  case (1 entries s i)
  from "1.prems" show ?case
    by (subst (asm) turn_start_loop.simps) (use "1.IH" in \<open>fastforce split: if_split_asm\<close>)
qed

lemma valid_cut_points:
  "find_valid_cut_points entries s t = Inr cps \<Longrightarrow> c \<in> set cps \<Longrightarrow>
   s \<le> c \<and> c < t \<and> t \<le> length entries \<and> is_cut_point (entries ! c)"
  by (auto simp: find_valid_cut_points_def split: if_split_asm)

definition is_tool_result_entry :: "session_tree_entry \<Rightarrow> bool" where
  "is_tool_result_entry e \<longleftrightarrow> entry_role e = VStr ''toolResult''"

lemma cut_point_not_tool_result: "is_cut_point e \<Longrightarrow> \<not> is_tool_result_entry e \<and> \<not> is_compaction e"
  by (cases "e_body e")
     (auto simp: is_cut_point_def is_tool_result_entry_def entry_role_def is_compaction_def)

lemma non_message_not_tool_result: "entry_type e \<noteq> ''message'' \<Longrightarrow> \<not> is_tool_result_entry e"
  by (cases "e_body e") (auto simp: is_tool_result_entry_def entry_role_def)

lemma find_cut_point_bounds:
  assumes "find_cut_point entries s t keep = Inr r" "s < t"
  shows "s \<le> cp_firstKeptEntryIndex r \<and> cp_firstKeptEntryIndex r < t
    \<and> (cp_isSplitTurn r \<longleftrightarrow> cp_turnStartIndex r \<noteq> None)
    \<and> (\<forall>j. cp_turnStartIndex r = Some j \<longrightarrow>
         s \<le> j \<and> j \<le> cp_firstKeptEntryIndex r \<and> is_turn_start (entries ! j))
    \<and> t \<le> length entries"
proof -
  obtain cps where cps: "find_valid_cut_points entries s t = Inr cps"
    using assms(1) by (auto simp: find_cut_point_def bind_res_eq_Inr)
  then have len: "t \<le> length entries"
    using assms(2) by (auto simp: find_valid_cut_points_def split: if_split_asm)
  show ?thesis
  proof (cases "cps = []")
    case True
    with assms cps len show ?thesis by (auto simp: find_cut_point_def)
  next
    case False
    with assms cps obtain c where c: "cut_scan entries cps keep (rev [s..<t]) 0 = Inr c"
      by (auto simp: find_cut_point_def bind_res_eq_Inr)
    have "c \<in> set cps" using c False by (rule cut_scan_in)
    with cps have b: "s \<le> c" "c < t" by (auto dest: valid_cut_points)
    with cut_back_bounds [OF b(1), of entries] have
      b': "s \<le> cut_back entries s c" "cut_back entries s c < t" by auto
    with assms cps c False len show ?thesis
      by (auto simp: find_cut_point_def find_turn_start_index_def Let_def bind_res_eq_Inr
          dest: turn_start_bounds split: if_split_asm)
  qed
qed

lemma find_cut_point_kept:
  assumes "find_cut_point entries s t keep = Inr r" "find_valid_cut_points entries s t = Inr cps" "cps \<noteq> []"
  shows "\<not> is_tool_result_entry (entries ! cp_firstKeptEntryIndex r)
    \<and> \<not> is_compaction (entries ! cp_firstKeptEntryIndex r)"
proof -
  from assms obtain c where c: "cut_scan entries cps keep (rev [s..<t]) 0 = Inr c"
    and r: "cp_firstKeptEntryIndex r = cut_back entries s c"
    by (auto simp: find_cut_point_def bind_res_eq_Inr Let_def)
  from c assms(3) have "c \<in> set cps" by (rule cut_scan_in)
  with assms(2) have cp: "is_cut_point (entries ! c)" by (auto dest: valid_cut_points)
  from cut_back_entry [of entries s c] show ?thesis
  proof
    assume "cut_back entries s c = c"
    with cp r show ?thesis by (simp add: cut_point_not_tool_result)
  next
    assume "entry_type (entries ! cut_back entries s c) \<notin> {''compaction'', ''message''}"
    with r show ?thesis by (simp add: non_message_not_tool_result is_compaction_def)
  qed
qed

text \<open>The turn start is the last one up to the cut, and there is none only when none is in the range.\<close>

lemma turn_start_last:
  "case turn_start_loop entries s i of
     Some j \<Rightarrow> \<forall>l. j < l \<and> l \<le> i \<longrightarrow> \<not> is_turn_start (entries ! l)
   | None \<Rightarrow> \<forall>l. s \<le> l \<and> l \<le> i \<longrightarrow> \<not> is_turn_start (entries ! l)"
proof (induction entries s i rule: turn_start_loop.induct)
  case (1 entries s i)
  have step: "l < i \<or> l = i" if "l \<le> i" for l using that by auto
  have down: "l \<le> i - 1" if "l < i" for l using that by simp
  show ?case
  proof (cases "i < s \<or> is_turn_start (entries ! i) \<or> i = 0")
    case True
    then show ?thesis by (subst turn_start_loop.simps) auto
  next
    case False
    then have "turn_start_loop entries s i = turn_start_loop entries s (i - 1)"
      by (subst turn_start_loop.simps) simp
    with "1.IH" False step down show ?thesis by (fastforce split: option.splits)
  qed
qed

definition user_message_entry :: "session_tree_entry \<Rightarrow> bool" where
  "user_message_entry e \<longleftrightarrow> entry_type e = ''message'' \<and> entry_role e = VStr ''user''"

lemma find_cut_point_turn:
  assumes "find_cut_point entries s t keep = Inr r" "find_valid_cut_points entries s t = Inr cps" "cps \<noteq> []"
  shows "cp_turnStartIndex r = (if user_message_entry (entries ! cp_firstKeptEntryIndex r) then None
    else turn_start_loop entries s (cp_firstKeptEntryIndex r))"
  using assms
  by (auto simp: find_cut_point_def find_turn_start_index_def bind_res_eq_Inr Let_def user_message_entry_def
      split: if_split_asm)

section \<open>Facts about a preparation\<close>

lemma collect_messages_append:
  "collect_messages L (xs @ ys) =
     bind_res (collect_messages L xs) (\<lambda>a. bind_res (collect_messages L ys) (\<lambda>b. Inr (a @ b)))"
  by (induction xs) (auto simp: bind_res_assoc bind_res_def split: sum.splits option.splits)

lemma last_compaction_index_Some:
  "last_compaction_index entries n = Some i \<Longrightarrow> i < n \<and> is_compaction (entries ! i)"
  by (induction entries n rule: last_compaction_index.induct) (auto split: if_split_asm)

lemma compaction_boundary_less:
  assumes "path \<noteq> []" "\<not> is_compaction (last path)"
  shows "fst (compaction_boundary path (last_compaction_index path (length path))) < length path"
proof (cases "last_compaction_index path (length path)")
  case None
  with assms(1) show ?thesis by (simp add: compaction_boundary_def)
next
  case (Some i)
  then have i: "i < length path" "is_compaction (path ! i)"
    by (auto dest: last_compaction_index_Some)
  with assms have "i \<noteq> length path - 1" by (auto simp: last_conv_nth)
  with i(1) have "i + 1 < length path" by simp
  with Some assms(1) i show ?thesis
    by (auto simp: compaction_boundary_def is_compaction_iff split: option.splits
        dest: find_index_Some)
qed

lemma prepare_compaction_partition:
  assumes "prepare_compaction L path settings = Inr (Some p)"
  obtains b k where
    "b = fst (compaction_boundary path (last_compaction_index path (length path)))"
    "b \<le> k" "k < length path" "pr_firstKeptEntryId p = e_id (path ! k)"
    "collect_messages L (take (k - b) (drop b path)) = Inr (pr_messagesToSummarize p @ pr_turnPrefixMessages p)"
proof -
  let ?b = "fst (compaction_boundary path (last_compaction_index path (length path)))"
  have ne: "path \<noteq> []" "\<not> is_compaction (last path)"
    using assms by (auto simp: prepare_compaction_def split: if_split_asm)
  note b = compaction_boundary_less [OF ne]
  from assms ne obtain cut to_sum prefix where
    cut: "find_cut_point path ?b (length path) (cs_keepRecentTokens settings) = Inr cut"
    and kept: "pr_firstKeptEntryId p = e_id (path ! cp_firstKeptEntryIndex cut)"
    and h: "collect_messages L (take ((if cp_isSplitTurn cut then the (cp_turnStartIndex cut)
        else cp_firstKeptEntryIndex cut) - ?b) (drop ?b path)) = Inr to_sum"
    and t: "(if cp_isSplitTurn cut then collect_messages L
        (take (cp_firstKeptEntryIndex cut - the (cp_turnStartIndex cut)) (drop (the (cp_turnStartIndex cut)) path))
        else Inr []) = Inr prefix"
    and p: "pr_messagesToSummarize p = to_sum" "pr_turnPrefixMessages p = prefix"
    by (auto simp: prepare_compaction_def Let_def bind_res_eq_Inr split: if_split_asm prod.splits)
  let ?k = "cp_firstKeptEntryIndex cut"
  note bounds = find_cut_point_bounds [OF cut b]
  have "collect_messages L (take (?k - ?b) (drop ?b path)) = Inr (to_sum @ prefix)"
  proof (cases "cp_isSplitTurn cut")
    case False
    with h t show ?thesis by simp
  next
    case True
    with bounds obtain j where j: "cp_turnStartIndex cut = Some j" "?b \<le> j" "j \<le> ?k" by auto
    have "take (?k - ?b) (drop ?b path)
        = take (j - ?b) (drop ?b path) @ take (?k - j) (drop j path)"
      using j(2,3) take_add [of "j - ?b" "?k - j" "drop ?b path"] by simp
    with h t True j(1) show ?thesis by (simp add: collect_messages_append)
  qed
  with bounds kept p that show thesis by blast
qed

text \<open>The estimate of a message of a known role is positive.\<close>

lemma estimate_tokens_pos:
  assumes "estimate_tokens m = Inr t" "llm_role_ok m"
  shows "1 \<le> t"
proof -
  from assms(1) have "is_dict m"
    by (cases m) (auto simp: estimate_tokens_def)
  then obtain d where "m = VDict d" by (auto simp: is_dict_iff)
  with assms show ?thesis
    by (auto simp: estimate_tokens_def llm_role_ok_def message_role_def message_field_def bind_res_eq_Inr
        split: if_split_asm)
qed

section \<open>Properties\<close>

text \<open>
  C25. Where a compaction cuts a range of entries that is not empty. When the range holds a valid cut
  point, the first kept entry lies in the range and is neither a tool result nor a compaction. When
  it is a message of the user no turn is split; otherwise the turn that is split begins at the last turn start of the
  range up to the cut, and no turn is split only when there is none. A range without a valid cut point
  is kept from its first entry on, whatever that entry is.
\<close>

theorem cut_point_valid:
  assumes "find_cut_point entries s t keep = Inr r" "s < t" "k = cp_firstKeptEntryIndex r"
  shows "if \<forall>i. s \<le> i \<and> i < t \<longrightarrow> \<not> is_cut_point (entries ! i)
    then k = s \<and> cp_turnStartIndex r = None \<and> \<not> cp_isSplitTurn r
    else s \<le> k \<and> k < t \<and> \<not> is_tool_result_entry (entries ! k) \<and> \<not> is_compaction (entries ! k)
      \<and> (cp_isSplitTurn r \<longleftrightarrow> cp_turnStartIndex r \<noteq> None)
      \<and> (case cp_turnStartIndex r of
           Some j \<Rightarrow> \<not> user_message_entry (entries ! k) \<and> s \<le> j \<and> j \<le> k \<and> is_turn_start (entries ! j)
             \<and> (\<forall>l. j < l \<and> l \<le> k \<longrightarrow> \<not> is_turn_start (entries ! l))
         | None \<Rightarrow> user_message_entry (entries ! k) \<or> (\<forall>l. s \<le> l \<and> l \<le> k \<longrightarrow> \<not> is_turn_start (entries ! l)))"
proof -
  obtain cps where cps: "find_valid_cut_points entries s t = Inr cps"
    using assms(1) by (auto simp: find_cut_point_def bind_res_eq_Inr)
  then have empty: "cps = [] \<longleftrightarrow> (\<forall>i. s \<le> i \<and> i < t \<longrightarrow> \<not> is_cut_point (entries ! i))"
    by (auto simp: find_valid_cut_points_def filter_empty_conv split: if_split_asm)
  note bounds = find_cut_point_bounds [OF assms(1,2)]
  show ?thesis
  proof (cases "cps = []")
    case True
    with assms cps empty show ?thesis by (auto simp: find_cut_point_def)
  next
    case False
    from find_cut_point_kept [OF assms(1) cps False] bounds assms(3)
    have "s \<le> k" "k < t" "\<not> is_tool_result_entry (entries ! k)" "\<not> is_compaction (entries ! k)"
      "cp_isSplitTurn r \<longleftrightarrow> cp_turnStartIndex r \<noteq> None" by blast+
    moreover have "case cp_turnStartIndex r of
           Some j \<Rightarrow> \<not> user_message_entry (entries ! k) \<and> s \<le> j \<and> j \<le> k \<and> is_turn_start (entries ! j)
             \<and> (\<forall>l. j < l \<and> l \<le> k \<longrightarrow> \<not> is_turn_start (entries ! l))
         | None \<Rightarrow> user_message_entry (entries ! k) \<or> (\<forall>l. s \<le> l \<and> l \<le> k \<longrightarrow> \<not> is_turn_start (entries ! l))"
      using find_cut_point_turn [OF assms(1) cps False] turn_start_last [where entries = entries and s = s and i = k] bounds assms(3)
      by (auto split: option.splits if_split_asm)
    moreover have "\<not> (\<forall>i. s \<le> i \<and> i < t \<longrightarrow> \<not> is_cut_point (entries ! i))" using False empty by simp
    ultimately show ?thesis by (simp only: if_False) blast
  qed
qed

definition demo_entry :: "string \<Rightarrow> string \<Rightarrow> string \<Rightarrow> session_tree_entry" where
  "demo_entry k role txt =
     \<lparr>e_id = k, e_parentId = None, e_timestamp = ''t'', e_appendMode = None,
      e_body = MessageE (VDict [(''role'', VStr role), (''content'', VStr txt)])\<rparr>"

definition demo_path :: "session_tree_entry list" where
  "demo_path = [demo_entry ''u'' ''user'' ''question'', demo_entry ''x'' ''assistant'' ''call'',
     demo_entry ''r'' ''toolResult'' ''result'', demo_entry ''y'' ''assistant'' ''answer'']"

lemma demo_cut: "find_cut_point demo_path 0 4 2 =
    Inr \<lparr>cp_firstKeptEntryIndex = 3, cp_turnStartIndex = Some 0, cp_isSplitTurn = True\<rparr>"
  by code_simp

theorem cut_point_valid_witness:
  "\<not> is_tool_result_entry (demo_path ! 3) \<and> is_turn_start (demo_path ! 0) \<and> \<not> is_turn_start (demo_path ! 2)"
proof -
  have "is_cut_point (demo_path ! 3)" by code_simp
  then have "\<not> (\<forall>i. 0 \<le> i \<and> i < (4::nat) \<longrightarrow> \<not> is_cut_point (demo_path ! i))" by force
  from cut_point_valid [OF demo_cut _ refl, unfolded if_not_P [OF this]] show ?thesis
    by (auto dest: spec [of _ 2])
qed

text \<open>
  C8. A compaction loses nothing: from the boundary that the previous compaction left to the
  first kept entry, every entry's message is handed to one of the two summaries, in order; and
  once the compaction entry that names the first kept entry is appended, the context of the
  branch is the new summary followed by exactly the messages of the entries that were kept.
\<close>

theorem compaction_partitions_branch:
  assumes "prepare_compaction L path settings = Inr (Some p)" "distinct (map e_id (path @ [c]))"
    and "e_body c = CompactionE smry (pr_firstKeptEntryId p) tokens details hook"
    and "build_session_context L (path @ [c]) = Inr ctx"
  shows "\<exists>k m ks. k < length path
    \<and> fst (compaction_boundary path (last_compaction_index path (length path))) \<le> k
    \<and> collect_messages L (drop (fst (compaction_boundary path (last_compaction_index path (length path))))
          (take k path)) = Inr (pr_messagesToSummarize p @ pr_turnPrefixMessages p)
    \<and> create_compaction_summary_message L smry tokens (e_timestamp c) = Inr m
    \<and> append_messages L (drop k path) = Inr ks
    \<and> sc_messages ctx = m # ks"
proof -
  let ?b = "fst (compaction_boundary path (last_compaction_index path (length path)))"
  from assms(1) obtain b k where b: "b = ?b" and k: "b \<le> k" "k < length path"
    and kept: "pr_firstKeptEntryId p = e_id (path ! k)"
    and coll: "collect_messages L (take (k - b) (drop b path))
      = Inr (pr_messagesToSummarize p @ pr_turnPrefixMessages p)"
    by (rule prepare_compaction_partition)
  have split: "path = take k path @ path ! k # drop (Suc k) path"
    using k(2) by (rule id_take_nth_drop)
  then have eq: "take k path @ path ! k # drop (Suc k) path @ c # [] = path @ [c]" by simp
  have "build_session_context L (take k path @ path ! k # drop (Suc k) path @ c # []) = Inr ctx"
    using assms(4) unfolding eq .
  moreover have "distinct (map e_id (take k path @ path ! k # drop (Suc k) path @ [c]))"
    using assms(2) unfolding eq .
  ultimately obtain m ks where "create_compaction_summary_message L smry tokens (e_timestamp c) = Inr m"
    "append_messages L (path ! k # drop (Suc k) path) = Inr ks" "sc_messages ctx = m # ks"
    using compaction_context [of L "take k path" "path ! k" "drop (Suc k) path" c "[]" ctx smry tokens details hook]
      assms(3) kept by auto
  moreover have "path ! k # drop (Suc k) path = drop k path"
    using k(2) by (rule Cons_nth_drop_Suc)
  ultimately show ?thesis
    using b k coll by (auto simp: drop_take)
qed

definition demo_lib :: pylib where
  "demo_lib = \<lparr>lib_iso_ms = (\<lambda>_. Some 5), lib_float_trunc = (\<lambda>_. Inr 0)\<rparr>"

definition demo_settings :: compaction_settings where
  "demo_settings = \<lparr>cs_enabled = True, cs_reserveTokens = 100, cs_keepRecentTokens = 2\<rparr>"

definition demo_preparation :: compaction_preparation where
  "demo_preparation =
     \<lparr>pr_firstKeptEntryId = ''y'', pr_messagesToSummarize = [],
      pr_turnPrefixMessages = map (me_message \<circ> e_body) (take 3 demo_path),
      pr_isSplitTurn = True, pr_tokensBefore = 5, pr_previousSummary = None,
      pr_fileOps = create_file_ops, pr_settings = demo_settings\<rparr>"

definition demo_compaction_entry :: session_tree_entry where
  "demo_compaction_entry =
     \<lparr>e_id = ''z'', e_parentId = Some ''y'', e_timestamp = ''t'', e_appendMode = None,
      e_body = CompactionE ''sum'' ''y'' 5 VNone None\<rparr>"

definition demo_context :: session_context where
  "demo_context =
     \<lparr>sc_messages = [VDict [(''role'', VStr ''compactionSummary''), (''summary'', VStr ''sum''),
          (''tokensBefore'', VInt 5), (''timestamp'', VInt 5)],
        VDict [(''role'', VStr ''assistant''), (''content'', VStr ''answer'')]],
      sc_thinkingLevel = ''off'', sc_model = Some (VStr [], VStr [])\<rparr>"

lemma demo_prepared: "prepare_compaction demo_lib demo_path demo_settings = Inr (Some demo_preparation)"
  by code_simp

lemma demo_built: "build_session_context demo_lib (demo_path @ [demo_compaction_entry]) = Inr demo_context"
  by code_simp

theorem compaction_partitions_branch_witness:
  "\<exists>k<4. \<exists>m ks. append_messages demo_lib (drop k demo_path) = Inr ks
     \<and> sc_messages demo_context = m # ks"
proof -
  have "distinct (map e_id (demo_path @ [demo_compaction_entry]))" "length demo_path = 4"
    by (simp_all add: demo_path_def demo_entry_def demo_compaction_entry_def)
  moreover have "e_body demo_compaction_entry
    = CompactionE ''sum'' (pr_firstKeptEntryId demo_preparation) 5 VNone None"
    by (simp add: demo_compaction_entry_def demo_preparation_def)
  ultimately show ?thesis
    using compaction_partitions_branch [OF demo_prepared _ _ demo_built] by auto
qed

definition details_value :: "compaction_details \<Rightarrow> pyval" where
  "details_value d =
     VObj ''CompactionDetails'' [(''read_files'', VList (map VStr (cd_read_files d))),
       (''modified_files'', VList (map VStr (cd_modified_files d)))]"

text \<open>
  The files of an earlier compaction are forgotten: the details that \<open>compact\<close> stores have
  the attributes \<open>read_files\<close> and \<open>modified_files\<close>, which \<open>_extract_file_operations\<close>
  never reads, so for such details the result is the one without a previous compaction.
\<close>

theorem earlier_file_lists_dropped:
  assumes "e_body (entries ! i) = CompactionE smry first tokens (details_value d) hook"
  shows "extract_file_operations messages entries (Some i) = extract_file_operations messages entries None"
  using assms
  by (simp add: extract_file_operations_def add_detail_files_def details_value_def create_file_ops_def)

theorem earlier_file_lists_dropped_witness:
  "extract_file_operations [] [demo_compaction_entry\<lparr>e_body := CompactionE ''s'' ''y'' 5
       (details_value \<lparr>cd_read_files = [''a.py''], cd_modified_files = [''b.py'']\<rparr>) None\<rparr>] (Some 0)
   = Inr create_file_ops"
  by (subst earlier_file_lists_dropped [of _ _ "''s''" "''y''" 5
        "\<lparr>cd_read_files = [''a.py''], cd_modified_files = [''b.py'']\<rparr>" None])
     (simp_all add: extract_file_operations_def)

text \<open>
  The file lists of a compaction: what \<open>compact\<close> reports as read and as modified is sorted
  and without repetitions, no file is in both lists, the modified ones are exactly the edited and
  written ones, and the read ones are those read and not modified; the entry keeps the prepared
  first kept entry and token count.
\<close>

theorem compact_file_lists:
  assumes "compact L rt model now co second_first p custom = Inr r"
  shows "set (cd_modified_files (cr_details r))
        = set (fo_edited (pr_fileOps p)) \<union> set (fo_written (pr_fileOps p))
    \<and> set (cd_read_files (cr_details r))
        = set (fo_read (pr_fileOps p)) - set (cd_modified_files (cr_details r))
    \<and> sorted (cd_read_files (cr_details r)) \<and> distinct (cd_read_files (cr_details r))
    \<and> sorted (cd_modified_files (cr_details r)) \<and> distinct (cd_modified_files (cr_details r))
    \<and> cr_firstKeptEntryId r = pr_firstKeptEntryId p \<and> cr_firstKeptEntryId r \<noteq> []
    \<and> cr_tokensBefore r = pr_tokensBefore p"
proof -
  obtain rd md where l: "compute_file_lists (pr_fileOps p) = (rd, md)" by force
  with assms have "cr_details r = \<lparr>cd_read_files = rd, cd_modified_files = md\<rparr>"
    "cr_firstKeptEntryId r = pr_firstKeptEntryId p" "pr_firstKeptEntryId p \<noteq> []"
    "cr_tokensBefore r = pr_tokensBefore p"
    by (auto simp: compact_def bind_res_eq_Inr split: if_split_asm)
  with compute_file_lists_sets [OF l] show ?thesis by simp
qed

definition demo_runtime :: llm_runtime where
  "demo_runtime = \<lparr>lr_stream_fn = None, lr_complete = Some (\<lambda>_ _ _.
     Inr (VDict [(''content'', VList [VDict [(''type'', VStr ''text''), (''text'', VStr ''short'')]])]))\<rparr>"

definition demo_options :: call_options where
  "demo_options = \<lparr>co_api_key = VNone, co_headers = VNone, co_signal = VNone\<rparr>"

definition demo_files_preparation :: compaction_preparation where
  "demo_files_preparation = demo_preparation\<lparr>pr_isSplitTurn := False,
     pr_fileOps := \<lparr>fo_read = [''b'', ''a''], fo_written = [''b''], fo_edited = []\<rparr>\<rparr>"

theorem compact_file_lists_witness:
  "\<exists>r. compact demo_lib demo_runtime \<lparr>mo_context_window = 9, mo_max_tokens = 9\<rparr> 0 demo_options False
       demo_files_preparation None = Inr r \<and> set (cd_read_files (cr_details r)) = {''a''}"
proof -
  obtain r where r: "compact demo_lib demo_runtime \<lparr>mo_context_window = 9, mo_max_tokens = 9\<rparr> 0 demo_options False
       demo_files_preparation None = Inr r"
    by (simp add: compact_def demo_files_preparation_def demo_preparation_def generate_summary_def
        serialize_conversation_def complete_summarization_def resolve_agent_core_complete_fn_def
        demo_runtime_def summary_text_def message_field_def compute_file_lists_def Let_def)
  from compact_file_lists [OF r] r show ?thesis
    by (auto simp: demo_files_preparation_def)
qed

end
