(* ===== verification/BranchSummary.thy ===== *)
theory BranchSummary
  imports Compaction
begin

text \<open>
  \<^verbatim>\<open>compaction/branch_summarization.py\<close>: which entries of the branch that is left are
  summarised, how many of them fit the model's window, and the call that summarises them.
\<close>

section \<open>The entries that are left behind\<close>

record branch_path_entry =
  bp_id :: string
  bp_parentId :: "string option"

record collect_branch_path_result =
  cb_entries :: "branch_path_entry list"
  cb_commonAncestorId :: "string option"

definition collect_entries_for_branch_summary_from_branches ::
  "branch_path_entry list \<Rightarrow> branch_path_entry list \<Rightarrow> collect_branch_path_result" where
  "collect_entries_for_branch_summary_from_branches old_branch target_branch =
     (let ancestor = map_option bp_id
            (List.find (\<lambda>e. bp_id e \<in> set (map bp_id old_branch)) (rev target_branch));
          first_summarized = (case ancestor of
              None \<Rightarrow> 0
            | Some a \<Rightarrow> (case find_index (\<lambda>e. bp_id e = a) old_branch of Some i \<Rightarrow> i + 1 | None \<Rightarrow> 0))
      in \<lparr>cb_entries = drop first_summarized old_branch, cb_commonAncestorId = ancestor\<rparr>)"

definition branch_path_entry_of :: "session_tree_entry \<Rightarrow> branch_path_entry" where
  "branch_path_entry_of e = \<lparr>bp_id = e_id e, bp_parentId = e_parentId e\<rparr>"

text \<open>
  The result of the session's \<open>get_branch\<close> is an argument twice: once for the old leaf, once
  for the target. The last line takes a slice with a negative start.
\<close>

definition collect_entries_for_branch_summary ::
  "'s session_ops \<Rightarrow> 's \<Rightarrow> string option \<Rightarrow> string
     \<Rightarrow> (session_tree_entry list \<times> string option) res option" where
  "collect_entries_for_branch_summary ops s old_leaf target =
     (if old_leaf = None \<or> old_leaf = Some [] then Some (Inr ([], None))
      else
        (case get_branch ops s old_leaf of
           None \<Rightarrow> None
         | Some (Inl ex) \<Rightarrow> Some (Inl ex)
         | Some (Inr old_branch) \<Rightarrow>
             (case get_branch ops s (Some target) of
                None \<Rightarrow> None
              | Some (Inl ex) \<Rightarrow> Some (Inl ex)
              | Some (Inr target_path) \<Rightarrow>
                  (let r = collect_entries_for_branch_summary_from_branches
                             (map branch_path_entry_of old_branch) (map branch_path_entry_of target_path)
                   in Some (Inr
                        (if cb_entries r \<noteq> [] then slice_from old_branch (- int (length (cb_entries r)))
                         else [], cb_commonAncestorId r))))))"

section \<open>What fits\<close>

definition branch_message_from_entry :: "pylib \<Rightarrow> session_tree_entry \<Rightarrow> pyval option res" where
  "branch_message_from_entry L e =
     (case e_body e of
        MessageE m \<Rightarrow>
          (if is_dict m \<and> message_field m ''role'' = VStr ''toolResult'' then Inr None
           else Inr (if m = VNone then None else Some m))
      | _ \<Rightarrow> get_message_from_entry L e)"

record branch_preparation =
  bq_messages :: "pyval list"
  bq_fileOps :: file_operations
  bq_totalTokens :: int

text \<open>The files named by the summaries among the entries.\<close>

definition add_summary_files :: "session_tree_entry \<Rightarrow> file_operations \<Rightarrow> file_operations res" where
  "add_summary_files e ops =
     (case e_body e of
        BranchSummaryE from_id smry details hook \<Rightarrow>
          (if hook \<noteq> Some True \<and> truthy details then add_detail_files details ops else Inr ops)
      | _ \<Rightarrow> Inr ops)"

text \<open>
  The backward loop, over the entries in reverse. \<^verbatim>\<open>total < budget * 0.9\<close> compares an
  \<^verbatim>\<open>int\<close> with a product that is exact at integers for budgets below \<open>2^50\<close>.
\<close>

fun branch_loop ::
  "pylib \<Rightarrow> int \<Rightarrow> session_tree_entry list \<Rightarrow> branch_preparation \<Rightarrow> branch_preparation res" where
  "branch_loop L budget [] st = Inr st"
| "branch_loop L budget (e # es) st =
     bind_res (branch_message_from_entry L e) (\<lambda>m.
     case m of
       None \<Rightarrow> branch_loop L budget es st
     | Some message \<Rightarrow>
         bind_res (extract_file_ops_from_message message (bq_fileOps st)) (\<lambda>ops.
         bind_res (estimate_tokens message) (\<lambda>tokens.
         let total = bq_totalTokens st;
             st' = st\<lparr>bq_fileOps := ops\<rparr>;
             taken = st'\<lparr>bq_messages := message # bq_messages st, bq_totalTokens := total + int tokens\<rparr>
         in if budget > 0 \<and> total + int tokens > budget
            then (if entry_type e \<in> {''compaction'', ''branch_summary''} \<and> 10 * total < 9 * budget
                  then Inr taken else Inr st')
            else branch_loop L budget es taken)))"

definition prepare_branch_entries ::
  "pylib \<Rightarrow> session_tree_entry list \<Rightarrow> int \<Rightarrow> branch_preparation res" where
  "prepare_branch_entries L entries budget =
     bind_res (fold_res add_summary_files entries create_file_ops) (\<lambda>ops.
     branch_loop L budget (rev entries)
       \<lparr>bq_messages = [], bq_fileOps = ops, bq_totalTokens = 0\<rparr>)"

section \<open>The summary\<close>

record branch_summary_result =
  br_summary :: string
  br_readFiles :: "string list"
  br_modifiedFiles :: "string list"

text \<open>
  A call of the dataclass \<open>BranchSummaryResult\<close> with keyword arguments: a keyword that is not
  a field raises \<^verbatim>\<open>TypeError\<close>, a field that is not given has its default.
\<close>

definition construct_branch_summary_result ::
  "(string \<times> pyval) list \<Rightarrow> branch_summary_result res" where
  "construct_branch_summary_result kwargs =
     (if list_all (\<lambda>(k, v). k \<in> {''summary'', ''readFiles'', ''modifiedFiles''}) kwargs
      then
        bind_res (py_get_default (VDict kwargs) ''summary'' (VStr [])) (\<lambda>s.
        bind_res (need_str s) (\<lambda>smry.
        bind_res (bind_res (py_get_default (VDict kwargs) ''readFiles'' (VList [])) py_iter)
          (\<lambda>r. bind_res (map_res need_str r) (\<lambda>reads.
        bind_res (bind_res (py_get_default (VDict kwargs) ''modifiedFiles'' (VList [])) py_iter)
          (\<lambda>m. bind_res (map_res need_str m) (\<lambda>mods.
        Inr \<lparr>br_summary = smry, br_readFiles = reads, br_modifiedFiles = mods\<rparr>))))))
      else Inl PyTypeError)"

record branch_options =
  bo_model :: llm_model
  bo_call :: call_options
  bo_customInstructions :: "string option"
  bo_replaceInstructions :: bool
  bo_reserveTokens :: int
  bo_runtime :: llm_runtime

definition branch_instructions :: "branch_options \<Rightarrow> string" where
  "branch_instructions opts =
     (case bo_customInstructions opts of
        Some c \<Rightarrow>
          (if c = [] then BRANCH_SUMMARY_PROMPT
           else if bo_replaceInstructions opts then c
           else BRANCH_SUMMARY_PROMPT @ nl @ nl @ ''Additional focus: '' @ c)
      | None \<Rightarrow> BRANCH_SUMMARY_PROMPT)"

text \<open>Unlike \<open>complete_summarization\<close>, a given stream must have a \<open>result\<close>.\<close>

definition branch_response :: "llm_runtime \<Rightarrow> llm_call" where
  "branch_response rt model context options =
     (case lr_stream_fn rt of
        Some f \<Rightarrow>
          (case f model context options of
             Some r \<Rightarrow> r
           | None \<Rightarrow> Inl (PyAttributeError ''result''))
      | None \<Rightarrow> bind_res (resolve_agent_core_complete_fn rt) (\<lambda>f. f model context options))"

definition branch_summary_text :: "pyval \<Rightarrow> string res" where
  "branch_summary_text response =
     bind_res (py_get response ''stopReason'') (\<lambda>stop.
     bind_res (py_get response ''errorMessage'') (\<lambda>err.
     if stop = VStr ''aborted''
     then Inl (BranchSummaryError CompactionAborted (py_str (py_or err (VStr ''Branch summary aborted''))))
     else if stop = VStr ''error''
     then Inl (BranchSummaryError SummarizationFailed
       (''Branch summary failed: '' @ py_str (py_or err (VStr ''Unknown error''))))
     else
       bind_res (py_get_default response ''content'' (VList [])) (\<lambda>content.
       if is_list content then bind_res (text_blocks (the_list content)) (\<lambda>ts. Inr (py_join nl ts))
       else Inr (py_str content))))"

definition generate_branch_summary ::
  "pylib \<Rightarrow> int \<Rightarrow> session_tree_entry list \<Rightarrow> branch_options \<Rightarrow> branch_summary_result res" where
  "generate_branch_summary L now entries opts =
     (let model = bo_model opts;
          context_window = (if mo_context_window model = 0 then 128000 else mo_context_window model);
          token_budget = context_window - bo_reserveTokens opts
      in bind_res (prepare_branch_entries L entries token_budget) (\<lambda>prep.
         if bq_messages prep = []
         then construct_branch_summary_result
           [(''summary'', VStr ''No content to summarize''), (''read_files'', VList []),
            (''modified_files'', VList [])]
         else
           bind_res (convert_to_llm L (bq_messages prep)) (\<lambda>llm_messages.
           bind_res (serialize_conversation llm_messages) (\<lambda>conversation.
           bind_res (branch_response (bo_runtime opts) model
               (summarization_context (''<conversation>'' @ nl @ conversation @ nl @ ''</conversation>''
                  @ nl @ nl @ branch_instructions opts) now)
               (VDict [(''apiKey'', co_api_key (bo_call opts)), (''headers'', co_headers (bo_call opts)),
                  (''signal'', co_signal (bo_call opts)), (''maxTokens'', VInt 2048)])) (\<lambda>response.
           bind_res (branch_summary_text response) (\<lambda>text.
           let (read_files, modified_files) = compute_file_lists (bq_fileOps prep);
               smry = BRANCH_SUMMARY_PREAMBLE @ text @ format_file_operations read_files modified_files
           in construct_branch_summary_result
                [(''summary'', VStr (if smry \<noteq> [] then smry else ''No summary generated'')),
                 (''read_files'', VList (map VStr read_files)),
                 (''modified_files'', VList (map VStr modified_files))]))))))"

section \<open>Facts\<close>

lemma construct_rejects:
  "(''read_files'', v) \<in> set kw \<Longrightarrow> construct_branch_summary_result kw = Inl PyTypeError"
  by (auto simp: construct_branch_summary_result_def list_all_iff)

lemma collect_prefix:
  assumes "map bp_id old = a @ xs" "map bp_id tgt = a @ ys" "set xs \<inter> set ys = {}"
    and "distinct (a @ xs)" "set a \<inter> set ys = {}"
  shows "map bp_id (cb_entries (collect_entries_for_branch_summary_from_branches old tgt)) = xs
    \<and> cb_commonAncestorId (collect_entries_for_branch_summary_from_branches old tgt)
      = (if a = [] then None else Some (last a))"
proof -
  let ?P = "\<lambda>e. bp_id e \<in> set (map bp_id old)"
  have find: "map_option bp_id (List.find ?P es)
    = List.find (\<lambda>k. k \<in> set (a @ xs)) (map bp_id es)" for es
    by (induction es) (simp_all flip: set_map add: assms(1) del: set_map)
  have find_app: "List.find p (us @ vs)
    = (case List.find p us of Some x \<Rightarrow> Some x | None \<Rightarrow> List.find p vs)"
    for p :: "string \<Rightarrow> bool" and us vs
    by (induction us) auto
  have none: "List.find (\<lambda>k. k \<in> set (a @ xs)) (rev ys) = None"
    using assms(3,5) by (auto simp: find_None_iff)
  have "List.find (\<lambda>k. k \<in> set (a @ xs)) (rev a) = (if a = [] then None else Some (last a))"
    by (cases a rule: rev_cases) simp_all
  with none have "List.find (\<lambda>k. k \<in> set (a @ xs)) (rev (a @ ys)) = (if a = [] then None else Some (last a))"
    unfolding rev_append find_app by simp
  moreover have "map bp_id (rev tgt) = rev (a @ ys)" using assms(2) by (simp flip: rev_map)
  ultimately have anc: "map_option bp_id (List.find ?P (rev tgt)) = (if a = [] then None else Some (last a))"
    unfolding find by (simp only:)
  have ix: "find_index (\<lambda>e. bp_id e = k) es = find_index (\<lambda>i. i = k) (map bp_id es)" for k es
    by (induction es) simp_all
  have "map bp_id (cb_entries (collect_entries_for_branch_summary_from_branches old tgt)) = xs"
  proof (cases a rule: rev_cases)
    case Nil
    then show ?thesis
      unfolding collect_entries_for_branch_summary_from_branches_def Let_def anc
      using assms(1) by simp
  next
    case (snoc b l)
    then have "find_index (\<lambda>i. i = l) (a @ xs) = Some (length b)"
    proof -
      have "find_index (\<lambda>i. i = l) b = None"
        using assms(4) snoc by (auto simp: find_index_None)
      then show ?thesis using snoc by (simp add: find_index_append)
    qed
    then have "find_index (\<lambda>e. bp_id e = l) old = Some (length b)"
      unfolding ix assms(1) .
    then show ?thesis
      unfolding collect_entries_for_branch_summary_from_branches_def Let_def anc
      using snoc assms(1) by (simp flip: drop_map)
  qed
  then show ?thesis
    unfolding collect_entries_for_branch_summary_from_branches_def Let_def anc by simp
qed

fun branch_messages :: "pylib \<Rightarrow> session_tree_entry list \<Rightarrow> pyval list res" where
  "branch_messages L [] = Inr []"
| "branch_messages L (e # es) =
     bind_res (branch_message_from_entry L e) (\<lambda>m.
     bind_res (branch_messages L es) (\<lambda>ms.
     Inr (case m of None \<Rightarrow> ms | Some x \<Rightarrow> x # ms)))"

lemma branch_messages_snoc:
  "branch_messages L es = Inr ms \<Longrightarrow> branch_message_from_entry L e = Inr m \<Longrightarrow>
   branch_messages L (es @ [e]) = Inr (ms @ (case m of None \<Rightarrow> [] | Some x \<Rightarrow> [x]))"
  by (induction es arbitrary: ms) (auto simp: bind_res_eq_Inr split: option.splits)

text \<open>
  When the loop stops, with the entries \<open>es1\<close> taken and \<open>es2\<close> left: without a positive budget
  nothing is left. Within the budget the last entry of \<open>es2\<close> is one that would exceed it and was not
  admitted as a summary. Over the budget the first of \<open>es1\<close> is a compaction or a branch summary that was
  admitted while less than nine tenths of the budget was used.
\<close>

definition summary_entry :: "session_tree_entry \<Rightarrow> bool" where
  "summary_entry e \<longleftrightarrow> entry_type e \<in> {''compaction'', ''branch_summary''}"

definition budget_kept ::
  "pylib \<Rightarrow> int \<Rightarrow> session_tree_entry list \<Rightarrow> session_tree_entry list \<Rightarrow> int \<Rightarrow> bool" where
  "budget_kept L budget es2 es1 tot \<longleftrightarrow>
     (if budget \<le> 0 then es2 = []
      else if tot \<le> budget then es2 = [] \<or>
        (\<exists>e x t. last es2 = e \<and> branch_message_from_entry L e = Inr (Some x) \<and> estimate_tokens x = Inr t
           \<and> budget < tot + int t \<and> (summary_entry e \<longrightarrow> 9 * budget \<le> 10 * tot))
      else es1 \<noteq> [] \<and>
        (\<exists>e x t. hd es1 = e \<and> branch_message_from_entry L e = Inr (Some x) \<and> estimate_tokens x = Inr t
           \<and> summary_entry e \<and> 10 * (tot - int t) < 9 * budget))"

lemma sum_res_Cons:
  "sum_res f (x # xs) = bind_res (f x) (\<lambda>a. bind_res (sum_res f xs) (\<lambda>b. Inr (a + b)))"
  by (auto simp: sum_res_def bind_res_def split: sum.splits)

lemma branch_loop_spec:
  assumes "branch_loop L budget es st = Inr p"
    and "sum_res estimate_tokens (bq_messages st) = Inr n" "bq_totalTokens st = int n"
    and "branch_messages L done = Inr (bq_messages st)" "budget \<le> 0 \<or> int n \<le> budget"
  shows "\<exists>es1 es2 n'. rev es = es2 @ es1 \<and> branch_messages L (es1 @ done) = Inr (bq_messages p)
    \<and> sum_res estimate_tokens (bq_messages p) = Inr n' \<and> bq_totalTokens p = int n'
    \<and> budget_kept L budget es2 (es1 @ done) (int n')"
  using assms
proof (induction es arbitrary: st n "done")
  case Nil
  then show ?case by (intro exI [of _ "[]"]) (auto simp: budget_kept_def)
next
  case (Cons e es)
  from Cons.prems(1) obtain m where m: "branch_message_from_entry L e = Inr m"
    by (auto simp: bind_res_eq_Inr)
  have more: "\<exists>es1 es2 n'. rev (e # es) = es2 @ es1 \<and> Q es2 es1 n'"
    if "\<exists>es1 es2 n'. rev es = es2 @ es1 \<and> Q es2 (es1 @ [e]) n'" for Q
    using that by force
  show ?case
  proof (cases m)
    case None
    with m Cons.prems(4) have d: "branch_messages L (e # done) = Inr (bq_messages st)" by simp
    from None m Cons.prems(1) have "branch_loop L budget es st = Inr p" by simp
    from Cons.IH [OF this Cons.prems(2,3) d Cons.prems(5)] show ?thesis
      by (intro more) simp
  next
    case (Some x)
    with m Cons.prems(4) have d: "branch_messages L (e # done) = Inr (x # bq_messages st)" by simp
    from Cons.prems(1) m Some obtain ops t where
      t: "extract_file_ops_from_message x (bq_fileOps st) = Inr ops" "estimate_tokens x = Inr t"
      by (auto simp: bind_res_eq_Inr)
    let ?st = "st\<lparr>bq_fileOps := ops, bq_messages := x # bq_messages st,
      bq_totalTokens := bq_totalTokens st + int t\<rparr>"
    have s: "sum_res estimate_tokens (x # bq_messages st) = Inr (t + n)"
      using t Cons.prems(2) by (simp add: sum_res_Cons)
    show ?thesis
    proof (cases "budget > 0 \<and> bq_totalTokens st + int t > budget")
      case False
      with Cons.prems(1) m Some t have "branch_loop L budget es ?st = Inr p"
        by (auto simp: Let_def)
      from Cons.IH [OF this, of "t + n" "e # done"] s d False Cons.prems(3) show ?thesis
        by (intro more) auto
    next
      case True
      with Cons.prems(1) m Some t consider "p = st\<lparr>bq_fileOps := ops\<rparr>"
          "summary_entry e \<longrightarrow> 9 * budget \<le> 10 * int n"
        | "p = ?st" "summary_entry e" "10 * int n < 9 * budget"
        using Cons.prems(3) by (auto simp: Let_def summary_entry_def split: if_split_asm)
      then show ?thesis
      proof cases
        case 1
        have "budget_kept L budget (rev (e # es)) done (int n)"
          using 1(2) True Cons.prems(3,5) m Some t(2) by (auto simp: budget_kept_def)
        with 1 Cons.prems show ?thesis
          by (intro exI [of _ "[]"] exI [of _ "rev (e # es)"] exI [of _ n]) simp
      next
        case 2
        have "budget_kept L budget (rev es) (e # done) (int (t + n))"
          using 2 True Cons.prems(3) m Some t(2) by (auto simp: budget_kept_def)
        with 2(1) t s d Cons.prems(3) show ?thesis
          by (intro exI [of _ "[e]"] exI [of _ "rev es"] exI [of _ "t + n"]) auto
      qed
    qed
  qed
qed

section \<open>Properties\<close>

text \<open>
  Leaving a branch: when the old branch and the target branch share exactly the entries \<open>a\<close>
  and then part, the entries to summarise are those of the old branch after the common part, and
  the common ancestor is the last shared entry.
\<close>

theorem branch_entries_after_ancestor:
  assumes "map bp_id old = a @ xs" "map bp_id tgt = a @ ys" "set xs \<inter> set ys = {}"
    and "distinct (a @ xs)" "set a \<inter> set ys = {}"
  shows "map bp_id (cb_entries (collect_entries_for_branch_summary_from_branches old tgt)) = xs
    \<and> cb_commonAncestorId (collect_entries_for_branch_summary_from_branches old tgt)
      = (if a = [] then None else Some (last a))"
  using assms by (rule collect_prefix)

theorem branch_entries_after_ancestor_witness:
  "map bp_id (cb_entries (collect_entries_for_branch_summary_from_branches
      [\<lparr>bp_id = ''a'', bp_parentId = None\<rparr>, \<lparr>bp_id = ''b'', bp_parentId = Some ''a''\<rparr>]
      [\<lparr>bp_id = ''a'', bp_parentId = None\<rparr>, \<lparr>bp_id = ''c'', bp_parentId = Some ''a''\<rparr>])) = [''b'']"
  using branch_entries_after_ancestor [of
      "[\<lparr>bp_id = ''a'', bp_parentId = None\<rparr>, \<lparr>bp_id = ''b'', bp_parentId = Some ''a''\<rparr>]" "[''a'']" "[''b'']"
      "[\<lparr>bp_id = ''a'', bp_parentId = None\<rparr>, \<lparr>bp_id = ''c'', bp_parentId = Some ''a''\<rparr>]" "[''c'']"]
  by simp

text \<open>
  C38. What a branch summary sees: the messages of the last entries of the branch, without gaps and in order,
  whose estimates add up to the reported total. Without a positive budget these are all the entries. With
  one, either the total is within it, and the first entry left out would have exceeded it; or the
  total exceeds it by the oldest entry taken only, which is a compaction or a branch summary that was
  admitted while less than nine tenths of the budget was used. A summary that would exceed the budget
  is left out only when nine tenths or more were used.
\<close>

theorem branch_preparation_budget:
  assumes "prepare_branch_entries L entries budget = Inr p"
  shows "\<exists>es1 es2 n. entries = es2 @ es1 \<and> branch_messages L es1 = Inr (bq_messages p)
    \<and> sum_res estimate_tokens (bq_messages p) = Inr n \<and> bq_totalTokens p = int n
    \<and> budget_kept L budget es2 es1 (int n)"
proof -
  from assms obtain ops where loop: "branch_loop L budget (rev entries)
      \<lparr>bq_messages = [], bq_fileOps = ops, bq_totalTokens = 0\<rparr> = Inr p"
    by (auto simp: prepare_branch_entries_def bind_res_eq_Inr)
  let ?st = "\<lparr>bq_messages = [], bq_fileOps = ops, bq_totalTokens = 0\<rparr>"
  have start: "sum_res estimate_tokens (bq_messages ?st) = Inr 0" "bq_totalTokens ?st = int 0"
    "branch_messages L [] = Inr (bq_messages ?st)"
    by (simp_all add: sum_res_def)
  have "budget \<le> 0 \<or> int 0 \<le> budget" by (simp, rule linear)
  from branch_loop_spec [OF loop start this] show ?thesis by simp
qed

lemma demo_branch_prepared:
  "prepare_branch_entries demo_lib demo_path 3 = Inr
     \<lparr>bq_messages = map (me_message \<circ> e_body) [demo_path ! 1, demo_path ! 3],
      bq_fileOps = create_file_ops, bq_totalTokens = 2\<rparr>"
  by code_simp

theorem branch_preparation_budget_witness:
  "\<exists>es1 es2. demo_path = es2 @ es1 \<and> branch_messages demo_lib es1
     = Inr (map (me_message \<circ> e_body) [demo_path ! 1, demo_path ! 3])"
  using branch_preparation_budget [OF demo_branch_prepared] by auto

text \<open>
  \<open>generate_branch_summary\<close> never returns a result: both of its \<^verbatim>\<open>return\<close> statements call
  the dataclass \<open>BranchSummaryResult\<close> with the keywords \<open>read_files\<close> and
  \<open>modified_files\<close>, but its fields are \<open>readFiles\<close> and \<open>modifiedFiles\<close>, so when
  nothing else fails the call raises \<^verbatim>\<open>TypeError\<close>.
\<close>

theorem generate_branch_summary_raises:
  "\<exists>ex. generate_branch_summary L now entries opts = Inl ex"
proof (cases "generate_branch_summary L now entries opts")
  case (Inr r)
  then show ?thesis
    by (auto simp: generate_branch_summary_def Let_def bind_res_eq_Inr construct_rejects
        split: if_split_asm prod.split_asm)
qed simp

end
