(* ===== verification/TextTruncate.thy ===== *)
theory TextTruncate
  imports PyPrelude
begin

text \<open>
  \<^verbatim>\<open>harness/utils/truncate.py\<close>: cutting tool output to a number of lines and bytes, from
  the head or from the tail. A Python string is here the list of its code points (which may be
  surrogates), since the number of bytes of a character is what the code counts.
\<close>

type_synonym cps = "nat list"

section \<open>Lines and bytes\<close>

definition DEFAULT_MAX_LINES :: int where
  "DEFAULT_MAX_LINES = 2000"

definition DEFAULT_MAX_BYTES :: int where
  "DEFAULT_MAX_BYTES = 50 * 1024"

definition GREP_MAX_LINE_LENGTH :: int where
  "GREP_MAX_LINE_LENGTH = 500"

datatype truncated_by = ByLines | ByBytes

record truncation_result =
  tr_content :: cps
  tr_truncated :: bool
  tr_truncatedBy :: "truncated_by option"
  tr_totalLines :: nat
  tr_totalBytes :: nat
  tr_outputLines :: nat
  tr_outputBytes :: nat
  tr_lastLinePartial :: bool
  tr_firstLineExceedsLimit :: bool
  tr_maxLines :: int
  tr_maxBytes :: int

record truncation_options =
  to_maxLines :: "int option"
  to_maxBytes :: "int option"

abbreviation lf :: nat where
  "lf \<equiv> 10"

definition split_lines_for_counting :: "cps \<Rightarrow> cps list" where
  "split_lines_for_counting content =
     (if content = [] then []
      else
        let lines = py_split lf content
        in if py_endswith content [lf] then butlast lines else lines)"

definition find_first_non_ascii :: "cps \<Rightarrow> nat option" where
  "find_first_non_ascii content = find_index (\<lambda>c. c > 0x7F) content"

definition is_surrogate :: "nat \<Rightarrow> bool" where
  "is_surrogate c \<longleftrightarrow> 0xD800 \<le> c \<and> c \<le> 0xDFFF"

definition is_high :: "nat \<Rightarrow> bool" where
  "is_high c \<longleftrightarrow> 0xD800 \<le> c \<and> c \<le> 0xDBFF"

definition is_low :: "nat \<Rightarrow> bool" where
  "is_low c \<longleftrightarrow> 0xDC00 \<le> c \<and> c \<le> 0xDFFF"

text \<open>
  UTF-8: one to four bytes for a code point; a surrogate cannot be encoded and is replaced by
  one question mark (\<^verbatim>\<open>errors="replace"\<close>), which changes nothing for a string without
  surrogates, so one sum describes both branches of \<open>utf8_byte_length\<close>.
\<close>

definition cp_bytes :: "nat \<Rightarrow> nat" where
  "cp_bytes c =
     (if is_surrogate c then 1 else if c \<le> 0x7F then 1 else if c \<le> 0x7FF then 2
      else if c \<le> 0xFFFF then 3 else 4)"

definition utf8_byte_length :: "cps \<Rightarrow> nat" where
  "utf8_byte_length content = sum_list (map cp_bytes content)"

fun replace_unpaired_surrogates :: "cps \<Rightarrow> cps" where
  "replace_unpaired_surrogates [] = []"
| "replace_unpaired_surrogates [c] = (if is_surrogate c then [0xFFFD] else [c])"
| "replace_unpaired_surrogates (c # d # cs) =
     (if is_high c then
        (if is_low d then c # d # replace_unpaired_surrogates cs
         else 0xFFFD # replace_unpaired_surrogates (d # cs))
      else if is_low c then 0xFFFD # replace_unpaired_surrogates (d # cs)
      else c # replace_unpaired_surrogates (d # cs))"

text \<open>
  \<^verbatim>\<open>{x:.1f}\<close> of a quotient by a power of two: exact below \<open>2^53\<close>, rounded half to even
  to tenths.
\<close>

definition round_half_even :: "nat \<Rightarrow> nat \<Rightarrow> nat" where
  "round_half_even n d =
     (let q = n div d; r = n mod d
      in if 2 * r < d then q else if d < 2 * r then q + 1 else if even q then q else q + 1)"

definition format_tenths :: "nat \<Rightarrow> nat \<Rightarrow> string" where
  "format_tenths n d =
     (let t = round_half_even (10 * n) d in str_of_nat (t div 10) @ ''.'' @ str_of_nat (t mod 10))"

definition format_size :: "nat \<Rightarrow> string" where
  "format_size n =
     (if n < 1024 then str_of_nat n @ ''B''
      else if n < 1024 * 1024 then format_tenths n 1024 @ ''KB''
      else format_tenths n (1024 * 1024) @ ''MB'')"

section \<open>Truncation from the head\<close>

record truncation_input =
  ti_lines :: "cps list"
  ti_totalLines :: nat
  ti_totalBytes :: nat
  ti_maxLines :: int
  ti_maxBytes :: int

definition resolve_truncation_input :: "cps \<Rightarrow> truncation_options option \<Rightarrow> truncation_input" where
  "resolve_truncation_input content opts =
     (let lines = split_lines_for_counting content
      in \<lparr>ti_lines = lines, ti_totalLines = length lines, ti_totalBytes = utf8_byte_length content,
          ti_maxLines = (case Option.bind opts to_maxLines of Some n \<Rightarrow> n | None \<Rightarrow> DEFAULT_MAX_LINES),
          ti_maxBytes = (case Option.bind opts to_maxBytes of Some n \<Rightarrow> n | None \<Rightarrow> DEFAULT_MAX_BYTES)\<rparr>)"

definition build_truncation_result ::
  "truncation_input \<Rightarrow> cps \<Rightarrow> bool \<Rightarrow> truncated_by option \<Rightarrow> nat \<Rightarrow> nat option \<Rightarrow> bool \<Rightarrow> bool
     \<Rightarrow> truncation_result" where
  "build_truncation_result inp content truncated by_what output_lines output_bytes last_partial first_exceeds =
     \<lparr>tr_content = content, tr_truncated = truncated, tr_truncatedBy = by_what,
      tr_totalLines = ti_totalLines inp, tr_totalBytes = ti_totalBytes inp,
      tr_outputLines = output_lines,
      tr_outputBytes = (case output_bytes of Some n \<Rightarrow> n | None \<Rightarrow> utf8_byte_length content),
      tr_lastLinePartial = last_partial, tr_firstLineExceedsLimit = first_exceeds,
      tr_maxLines = ti_maxLines inp, tr_maxBytes = ti_maxBytes inp\<rparr>"

text \<open>The loop: the lines taken, their bytes with the newlines between, and whether the byte
  limit ended it.\<close>

fun head_loop :: "int \<Rightarrow> cps list \<Rightarrow> cps list \<Rightarrow> nat \<Rightarrow> cps list \<times> nat \<times> bool" where
  "head_loop max_bytes [] out bytes = (out, bytes, False)"
| "head_loop max_bytes (line # lines) out bytes =
     (let line_bytes = utf8_byte_length line + (if out \<noteq> [] then 1 else 0)
      in if int (bytes + line_bytes) > max_bytes then (out, bytes, True)
         else head_loop max_bytes lines (out @ [line]) (bytes + line_bytes))"

text \<open>The final adjustment of the reason, shared by both directions.\<close>

definition truncation_reason :: "truncation_input \<Rightarrow> cps list \<Rightarrow> nat \<Rightarrow> bool \<Rightarrow> truncated_by" where
  "truncation_reason inp out bytes by_bytes =
     (if int (ti_totalLines inp) > ti_maxLines inp \<and> int (length out) \<ge> ti_maxLines inp
         \<and> int bytes \<le> ti_maxBytes inp then ByLines
      else if by_bytes then ByBytes
      else if int (ti_totalLines inp) > ti_maxLines inp then ByLines else ByBytes)"

definition within_limits :: "truncation_input \<Rightarrow> bool" where
  "within_limits inp \<longleftrightarrow>
     int (ti_totalLines inp) \<le> ti_maxLines inp \<and> int (ti_totalBytes inp) \<le> ti_maxBytes inp"

definition untruncated :: "truncation_input \<Rightarrow> cps \<Rightarrow> truncation_result" where
  "untruncated inp content =
     build_truncation_result inp content False None (ti_totalLines inp) (Some (ti_totalBytes inp)) False False"

definition truncate_head :: "cps \<Rightarrow> truncation_options option \<Rightarrow> truncation_result res" where
  "truncate_head content opts =
     (let inp = resolve_truncation_input content opts
      in if within_limits inp then Inr (untruncated inp content)
         else if ti_lines inp = [] then Inl PyIndexError
         else if int (utf8_byte_length (hd (ti_lines inp))) > ti_maxBytes inp
         then Inr (build_truncation_result inp [] True (Some ByBytes) 0 (Some 0) False True)
         else
           (let (out, bytes, by_bytes) =
                  head_loop (ti_maxBytes inp) (take (nat (ti_maxLines inp)) (ti_lines inp)) [] 0
            in Inr (build_truncation_result inp (py_join [lf] out) True
                 (Some (truncation_reason inp out bytes by_bytes)) (length out) None False False)))"

section \<open>Truncation from the tail\<close>

text \<open>
  The \<^verbatim>\<open>while\<close> loop of \<open>_truncate_string_to_bytes_from_end\<close>: \<open>i\<close> characters are left
  to look at; the result is the start of the kept suffix and whether it holds an unpaired
  surrogate.
\<close>

fun tail_chars :: "cps \<Rightarrow> int \<Rightarrow> nat \<Rightarrow> nat \<Rightarrow> nat \<Rightarrow> bool \<Rightarrow> nat \<times> bool" where
  "tail_chars s max_bytes 0 start bytes needs = (start, needs)"
| "tail_chars s max_bytes (Suc k) start bytes needs =
     (let code = s ! k;
          paired = (is_low code \<and> 0 < k \<and> is_high (s ! (k - 1)));
          character_start = (if paired then k - 1 else k);
          unpaired = (\<not> paired \<and> ((is_low code \<and> 0 < k) \<or> is_high code));
          character_bytes =
            (if paired then 4 else if unpaired then 3
             else if code \<le> 0x7F then 1 else if code \<le> 0x7FF then 2 else 3)
      in if int (bytes + character_bytes) > max_bytes then (start, needs)
         else tail_chars s max_bytes character_start character_start (bytes + character_bytes)
                (needs \<or> unpaired))"

definition truncate_string_to_bytes_from_end :: "cps \<Rightarrow> int \<Rightarrow> cps" where
  "truncate_string_to_bytes_from_end s max_bytes =
     (if max_bytes \<le> 0 then []
      else
        let (start, needs) = tail_chars s max_bytes (length s) (length s) 0 False;
            output = drop start s
        in if needs then replace_unpaired_surrogates output else output)"

text \<open>The loop over the lines from the last one: lines, bytes, stopped by bytes, last line cut.\<close>

fun tail_loop ::
  "int \<Rightarrow> int \<Rightarrow> cps list \<Rightarrow> cps list \<Rightarrow> nat \<Rightarrow> cps list \<times> nat \<times> bool \<times> bool" where
  "tail_loop max_lines max_bytes [] out bytes = (out, bytes, False, False)"
| "tail_loop max_lines max_bytes (line # lines) out bytes =
     (if int (length out) \<ge> max_lines then (out, bytes, False, False)
      else
        let line_bytes = utf8_byte_length line + (if out \<noteq> [] then 1 else 0)
        in if int (bytes + line_bytes) > max_bytes then
             (if out = [] then
                (let cut = truncate_string_to_bytes_from_end line max_bytes
                 in ([cut], utf8_byte_length cut, True, True))
              else (out, bytes, True, False))
           else tail_loop max_lines max_bytes lines (line # out) (bytes + line_bytes))"

definition truncate_tail :: "cps \<Rightarrow> truncation_options option \<Rightarrow> truncation_result" where
  "truncate_tail content opts =
     (let inp = resolve_truncation_input content opts
      in if within_limits inp then untruncated inp content
         else
           (let (out, bytes, by_bytes, partial) =
                  tail_loop (ti_maxLines inp) (ti_maxBytes inp) (rev (ti_lines inp)) [] 0
            in build_truncation_result inp (py_join [lf] out) True
                 (Some (truncation_reason inp out bytes by_bytes)) (length out) None partial False))"

definition TRUNCATED_SUFFIX :: string where
  "TRUNCATED_SUFFIX = ''... [truncated]''"

definition truncate_line :: "cps \<Rightarrow> int \<Rightarrow> cps \<times> bool" where
  "truncate_line line max_chars =
     (if int (length line) \<le> max_chars then (line, False)
      else (slice_upto line max_chars @ map ord_char TRUNCATED_SUFFIX, True))"

section \<open>Facts\<close>

lemma utf8_append [simp]: "utf8_byte_length (a @ b) = utf8_byte_length a + utf8_byte_length b"
  by (simp add: utf8_byte_length_def)

lemma utf8_Nil [simp]: "utf8_byte_length [] = 0"
  by (simp add: utf8_byte_length_def)

lemma utf8_lf [simp]: "utf8_byte_length [lf] = 1"
  by (simp add: utf8_byte_length_def cp_bytes_def is_surrogate_def)

definition joined_bytes :: "cps list \<Rightarrow> nat" where
  "joined_bytes out = sum_list (map utf8_byte_length out) + (length out - 1)"

lemma utf8_join: "utf8_byte_length (py_join [lf] out) = joined_bytes out"
proof (induction "[lf]" out rule: py_join.induct)
  case (3 x y ys)
  have "py_join [lf] (x # y # ys) = (x @ [lf]) @ py_join [lf] (y # ys)" by simp
  then have "utf8_byte_length (py_join [lf] (x # y # ys))
    = utf8_byte_length x + utf8_byte_length [lf] + utf8_byte_length (py_join [lf] (y # ys))"
    by (simp only: utf8_append)
  with 3 show ?case by (simp add: joined_bytes_def)
qed (simp_all add: joined_bytes_def)

lemma joined_bytes_snoc:
  "joined_bytes (out @ [l]) = joined_bytes out + utf8_byte_length l + (if out \<noteq> [] then 1 else 0)"
  by (cases out) (simp_all add: joined_bytes_def)

lemma joined_bytes_Cons:
  "joined_bytes (l # out) = joined_bytes out + utf8_byte_length l + (if out \<noteq> [] then 1 else 0)"
  by (cases out) (simp_all add: joined_bytes_def)

lemma head_loop_spec:
  "head_loop mb lines out b = (out', b', by) \<Longrightarrow> b = joined_bytes out \<Longrightarrow> int b \<le> mb \<Longrightarrow>
   b' = joined_bytes out' \<and> int b' \<le> mb \<and> (\<exists>k\<le>length lines. out' = out @ take k lines)
   \<and> (\<not> by \<longrightarrow> out' = out @ lines)"
proof (induction mb lines out b rule: head_loop.induct)
  case (2 mb line lines out b)
  show ?case
  proof (cases "int (b + (utf8_byte_length line + (if out \<noteq> [] then 1 else 0))) > mb")
    case True
    with 2 show ?thesis by (auto simp: Let_def intro: exI [of _ 0])
  next
    case False
    let ?lb = "utf8_byte_length line + (if out \<noteq> [] then 1 else 0)"
    from False "2.prems" have "head_loop mb lines (out @ [line]) (b + ?lb) = (out', b', by)"
      "b + ?lb = joined_bytes (out @ [line])" "int (b + ?lb) \<le> mb"
      by (auto simp: Let_def joined_bytes_snoc)
    from "2.IH" [OF refl False this] obtain k where
      "b' = joined_bytes out'" "int b' \<le> mb" "k \<le> length lines" "out' = (out @ [line]) @ take k lines"
      "\<not> by \<longrightarrow> out' = (out @ [line]) @ lines" by blast
    then show ?thesis by (auto intro: exI [of _ "Suc k"])
  qed
qed auto

text \<open>Text of the basic multilingual plane without surrogates.\<close>

definition bmp_text :: "cps \<Rightarrow> bool" where
  "bmp_text s \<longleftrightarrow> list_all (\<lambda>c. c \<le> 0xFFFF \<and> \<not> is_surrogate c) s"

lemma bmp_char:
  assumes "bmp_text s" "k < length s"
  shows "\<not> is_low (s ! k)" "\<not> is_high (s ! k)"
    "(if s ! k \<le> 0x7F then 1 else if s ! k \<le> 0x7FF then 2 else 3) = cp_bytes (s ! k)"
proof -
  from assms have c: "s ! k \<le> 0xFFFF" "\<not> is_surrogate (s ! k)"
    by (auto simp: bmp_text_def list_all_length)
  then show "\<not> is_low (s ! k)" "\<not> is_high (s ! k)"
    by (auto simp: is_low_def is_high_def is_surrogate_def)
  from c show "(if s ! k \<le> 0x7F then 1 else if s ! k \<le> 0x7FF then 2 else 3) = cp_bytes (s ! k)"
    by (simp add: cp_bytes_def)
qed

lemma tail_chars_spec:
  assumes "tail_chars s mb i i b False = (start, needs)" "bmp_text s" "i \<le> length s"
    and "b = utf8_byte_length (drop i s)" "int b \<le> mb"
  shows "\<not> needs \<and> start \<le> i \<and> int (utf8_byte_length (drop start s)) \<le> mb
    \<and> (0 < start \<longrightarrow> mb < int (utf8_byte_length (drop (start - 1) s)))"
  using assms
proof (induction i arbitrary: b)
  case (Suc k)
  then have k: "k < length s" by simp
  note c = bmp_char [OF Suc.prems(2) k]
  have d: "utf8_byte_length (drop k s) = cp_bytes (s ! k) + utf8_byte_length (drop (Suc k) s)"
    using k by (simp add: utf8_byte_length_def flip: Cons_nth_drop_Suc)
  show ?case
  proof (cases "int (b + cp_bytes (s ! k)) > mb")
    case True
    with Suc.prems(1,4,5) c have "start = Suc k" "\<not> needs" by (auto simp: Let_def)
    with True d Suc.prems(4,5) show ?thesis by simp
  next
    case False
    with Suc.prems(1) c have "tail_chars s mb k k (b + cp_bytes (s ! k)) False = (start, needs)"
      by (simp add: Let_def)
    from Suc.IH [OF this Suc.prems(2)] k d Suc.prems(4) False show ?thesis by simp
  qed
qed simp

text \<open>The longest end of a text that fits.\<close>

lemma truncate_from_end_longest:
  assumes "bmp_text s" "0 \<le> mb" "mb < int (utf8_byte_length s)"
  shows "\<exists>k. 0 < k \<and> truncate_string_to_bytes_from_end s mb = drop k s
    \<and> int (utf8_byte_length (drop k s)) \<le> mb \<and> mb < int (utf8_byte_length (drop (k - 1) s))"
proof (cases "mb = 0")
  case True
  with assms(3) obtain c r where s: "s = r @ [c]" by (cases s rule: rev_cases) auto
  have "0 < cp_bytes c" by (simp add: cp_bytes_def)
  with True s show ?thesis
    by (intro exI [of _ "length s"])
       (simp add: truncate_string_to_bytes_from_end_def utf8_byte_length_def)
next
  case False
  obtain start needs where t: "tail_chars s mb (length s) (length s) 0 False = (start, needs)" by force
  from tail_chars_spec [OF t assms(1)] False assms(2)
  have r: "\<not> needs" "int (utf8_byte_length (drop start s)) \<le> mb"
    "0 < start \<longrightarrow> mb < int (utf8_byte_length (drop (start - 1) s))" by simp_all
  moreover have "0 < start" using r(2) assms(3) by (cases start) simp_all
  ultimately show ?thesis
    using t False assms(2) by (intro exI [of _ start]) (auto simp: truncate_string_to_bytes_from_end_def)
qed

lemma tail_loop_not_partial:
  "tail_loop ml mb ls out b = (o2, b2, y, q) \<Longrightarrow> out \<noteq> [] \<Longrightarrow> \<not> q"
  by (induction ls arbitrary: out b) (auto simp: Let_def split: if_split_asm)

lemma tail_loop_spec:
  assumes "tail_loop ml mb lines out b = (out', b', byb, partial)" "b = joined_bytes out"
    and "int b \<le> mb" "int (length out) \<le> ml" "0 < ml"
  shows "if partial then out = [] \<and> lines \<noteq> [] \<and> mb < int (utf8_byte_length (hd lines))
      \<and> out' = [truncate_string_to_bytes_from_end (hd lines) mb]
    else int (joined_bytes out') \<le> mb \<and> int (length out') \<le> ml
      \<and> (\<exists>k\<le>length lines. out' = rev (take k lines) @ out
          \<and> (k = length lines \<or> int (length out') = ml
             \<or> (out' \<noteq> [] \<and> mb < int (joined_bytes (lines ! k # out')))))"
  using assms
proof (induction ml mb lines out b rule: tail_loop.induct)
  case (2 ml mb line lines out b)
  let ?lb = "utf8_byte_length line + (if out \<noteq> [] then 1 else 0)"
  consider "int (length out) \<ge> ml" | "int (length out) < ml" "int (b + ?lb) > mb" "out \<noteq> []"
    | "int (length out) < ml" "int (b + ?lb) > mb" "out = []"
    | "int (length out) < ml" "int (b + ?lb) \<le> mb" by linarith
  then show ?case
  proof cases
    case 1
    with "2.prems" show ?thesis by (auto intro!: exI [of _ 0])
  next
    case 2
    with "2.prems" show ?thesis by (auto simp: Let_def joined_bytes_Cons intro!: exI [of _ 0])
  next
    case 3
    with "2.prems" show ?thesis by (auto simp: Let_def joined_bytes_def)
  next
    case 4
    have c: "\<not> ml \<le> int (length out)" "\<not> mb < int (b + ?lb)" using 4 by simp_all
    from c "2.prems"(1) have l: "tail_loop ml mb lines (line # out) (b + ?lb) = (out', b', byb, partial)"
      by (simp add: Let_def)
    then have np: "\<not> partial" by (rule tail_loop_not_partial) simp
    have pre: "b + ?lb = joined_bytes (line # out)" "int (b + ?lb) \<le> mb" "int (length (line # out)) \<le> ml" "0 < ml"
      using c "2.prems" by (simp_all add: joined_bytes_Cons)
    have "\<not> partial \<Longrightarrow> (if partial then A else B) \<Longrightarrow> B" for A B by simp
    from this [OF np "2.IH" [OF c(1) refl c(2) l pre]] obtain k where "int (joined_bytes out') \<le> mb" "int (length out') \<le> ml" "k \<le> length lines"
      "out' = rev (take k lines) @ line # out"
      "k = length lines \<or> int (length out') = ml \<or> (out' \<noteq> [] \<and> mb < int (joined_bytes (lines ! k # out')))"
      by blast
    with np show ?thesis by (auto intro!: exI [of _ "Suc k"])
  qed
qed (auto intro!: exI [of _ 0])

lemma set_py_split: "w \<in> set (py_split c s) \<Longrightarrow> set w \<subseteq> set s"
proof (induction s arbitrary: w)
  case (Cons x s)
  obtain v vs where v: "py_split c s = v # vs" by (cases "py_split c s") simp_all
  with Cons.IH have "set v \<subseteq> set s" "\<And>u. u \<in> set vs \<Longrightarrow> set u \<subseteq> set s"
    by auto
  with Cons.prems v show ?case by (fastforce split: if_split_asm)
qed simp

lemma length_py_split: "length (py_split c s) = Suc (length (filter (\<lambda>x. x = c) s))"
  by (induction s) (auto split: list.splits)

lemma split_lines_nonempty:
  assumes "content \<noteq> []"
  shows "split_lines_for_counting content \<noteq> []"
proof -
  have "1 < length (py_split lf content)" if "py_endswith content [lf]"
  proof -
    from that obtain t where "rev content = [lf] @ t"
      unfolding py_endswith_def py_startswith_iff by auto
    then have "lf \<in> set content" by (metis append_Cons in_set_conv_decomp rev_swap set_rev append_Nil)
    then have "filter (\<lambda>x. x = lf) content \<noteq> []" by (simp add: filter_empty_conv)
    then show ?thesis by (simp add: length_py_split)
  qed
  then have "butlast (py_split lf content) \<noteq> []" if "py_endswith content [lf]"
    using that by (metis length_butlast length_greater_0_conv zero_less_diff)
  with assms show ?thesis by (simp add: split_lines_for_counting_def Let_def)
qed

lemma bmp_lines: "bmp_text content \<Longrightarrow> list_all bmp_text (split_lines_for_counting content)"
  by (auto simp: bmp_text_def list_all_iff split_lines_for_counting_def Let_def
      dest!: in_set_butlastD set_py_split split: if_split_asm)

lemma resolve_fields [simp]:
  "ti_lines (resolve_truncation_input c opts) = split_lines_for_counting c"
  "ti_totalLines (resolve_truncation_input c opts) = length (split_lines_for_counting c)"
  "ti_totalBytes (resolve_truncation_input c opts) = utf8_byte_length c"
  by (simp_all add: resolve_truncation_input_def Let_def)

text \<open>The lines have no newline in them, so that joining them again gives as many lines, or one less.\<close>

lemma py_split_parts_no_sep: "w \<in> set (py_split c s) \<Longrightarrow> c \<notin> set w"
proof (induction s arbitrary: w)
  case (Cons x s)
  then show ?case by (cases "py_split c s") (auto split: if_split_asm)
qed simp

lemma split_lines_no_lf: "w \<in> set (split_lines_for_counting s) \<Longrightarrow> lf \<notin> set w"
  by (auto simp: split_lines_for_counting_def Let_def dest!: in_set_butlastD py_split_parts_no_sep split: if_split_asm)

lemma count_join:
  "\<forall>w \<in> set out. lf \<notin> set w \<Longrightarrow> length (filter (\<lambda>x. x = lf) (py_join [lf] out)) = length out - 1"
  by (induction "[lf]" out rule: py_join.induct) (auto simp: filter_empty_conv)

lemma lines_of_join:
  assumes "\<forall>w \<in> set out. lf \<notin> set w"
  shows "length (split_lines_for_counting (py_join [lf] out)) \<le> length out"
proof (cases out)
  case (Cons w ws)
  have "length (split_lines_for_counting s) \<le> length (py_split lf s)" for s
    by (simp add: split_lines_for_counting_def Let_def)
  also have "length (py_split lf (py_join [lf] out)) = length out"
    using count_join [OF assms] Cons by (simp add: length_py_split)
  finally show ?thesis .
qed (simp add: split_lines_for_counting_def)

text \<open>
  What a result promises: its count of bytes is that of its content, its content has no more lines
  than it reports, and both counts respect its limits.
\<close>

definition respects_limits :: "truncation_result \<Rightarrow> bool" where
  "respects_limits r \<longleftrightarrow>
     tr_outputBytes r = utf8_byte_length (tr_content r)
     \<and> length (split_lines_for_counting (tr_content r)) \<le> tr_outputLines r
     \<and> int (tr_outputBytes r) \<le> tr_maxBytes r \<and> int (tr_outputLines r) \<le> tr_maxLines r"

lemma untruncated_ok:
  "within_limits (resolve_truncation_input c opts) \<Longrightarrow>
     respects_limits (untruncated (resolve_truncation_input c opts) c)
     \<and> tr_content (untruncated (resolve_truncation_input c opts) c) = c
     \<and> \<not> tr_truncated (untruncated (resolve_truncation_input c opts) c)"
  by (simp add: untruncated_def build_truncation_result_def respects_limits_def within_limits_def)

section \<open>Properties\<close>

text \<open>
  Truncation from the head keeps to its limits: when the limits are not negative it returns,
  the content has the bytes it reports, at most \<open>maxBytes\<close> of them and at most \<open>maxLines\<close> lines;
  the content is either untouched, with \<open>truncated\<close> false, or the first lines of the
  input, joined by newlines.
\<close>

theorem truncate_head_limits:
  assumes "0 \<le> ti_maxLines (resolve_truncation_input content opts)"
    and "0 \<le> ti_maxBytes (resolve_truncation_input content opts)"
  shows "\<exists>r. truncate_head content opts = Inr r \<and> respects_limits r
    \<and> (if tr_truncated r
       then tr_content r = py_join [lf] (take (tr_outputLines r) (split_lines_for_counting content))
       else tr_content r = content)"
proof -
  let ?inp = "resolve_truncation_input content opts"
  show ?thesis
  proof (cases "within_limits ?inp")
    case True
    then show ?thesis using untruncated_ok by (auto simp: truncate_head_def Let_def)
  next
    case False
    then have ne: "split_lines_for_counting content \<noteq> []"
      using assms split_lines_nonempty [of content]
      by (cases "content = []") (auto simp: within_limits_def)
    show ?thesis
    proof (cases "int (utf8_byte_length (hd (ti_lines ?inp))) > ti_maxBytes ?inp")
      case True
      with False ne assms show ?thesis
        by (auto simp: truncate_head_def build_truncation_result_def respects_limits_def Let_def
            split_lines_for_counting_def [of "[]"])
    next
      case short: False
      let ?lines = "take (nat (ti_maxLines ?inp)) (ti_lines ?inp)"
      obtain out b byb where l: "head_loop (ti_maxBytes ?inp) ?lines [] 0 = (out, b, byb)"
        by (metis prod_cases3)
      have z: "0 = joined_bytes []" "int 0 \<le> ti_maxBytes ?inp"
        using assms(2) by (simp_all add: joined_bytes_def)
      from head_loop_spec [OF l z] obtain k where
        k: "b = joined_bytes out" "int b \<le> ti_maxBytes ?inp" "k \<le> length ?lines"
          "out = [] @ take k ?lines"
        by blast
      have kl: "k \<le> length (split_lines_for_counting content)" "k \<le> nat (ti_maxLines ?inp)"
        using k(3) by simp_all
      then have o: "out = take k (split_lines_for_counting content)"
        using k(4) by (simp add: min_absorb1)
      with kl assms(1) have len: "length out = k" "int (length out) \<le> ti_maxLines ?inp"
        "out = take (length out) (split_lines_for_counting content)"
        by simp_all
      from False short ne l have "truncate_head content opts
        = Inr (build_truncation_result ?inp (py_join [lf] out) True
            (Some (truncation_reason ?inp out b byb)) (length out) None False False)"
        by (simp add: truncate_head_def Let_def)
      moreover have "length (split_lines_for_counting (py_join [lf] out)) \<le> length out"
        using o by (intro lines_of_join ballI split_lines_no_lf [of _ content]) (auto dest: in_set_takeD)
      ultimately show ?thesis using k(1,2) len(2,3)
        by (simp add: build_truncation_result_def respects_limits_def utf8_join)
    qed
  qed
qed

definition demo_limits :: "truncation_options option" where
  "demo_limits = Some \<lparr>to_maxLines = Some 2, to_maxBytes = Some 6\<rparr>"

lemma demo_limits_simps [simp]:
  "ti_maxLines (resolve_truncation_input c demo_limits) = 2"
  "ti_maxBytes (resolve_truncation_input c demo_limits) = 6"
  by (simp_all add: resolve_truncation_input_def demo_limits_def Let_def)

theorem truncate_head_limits_witness:
  "\<exists>r. truncate_head [97, 10, 98, 10, 99] demo_limits = Inr r \<and> respects_limits r"
  using truncate_head_limits [of "[97, 10, 98, 10, 99]" demo_limits] by auto

lemma tail_loop_partial:
  assumes "tail_loop ml mb (rev ls) [] 0 = (out, b, byb, True)" "0 < ml" "0 \<le> mb" "bmp_text (last ls)"
  shows "mb < int (utf8_byte_length (last ls)) \<and> (\<exists>k. 0 < k \<and> out = [drop k (last ls)] \<and>
    int (utf8_byte_length (drop k (last ls))) \<le> mb \<and> mb < int (utf8_byte_length (drop (k - 1) (last ls))))"
proof -
  have z: "0 = joined_bytes []" by (simp add: joined_bytes_def)
  from tail_loop_spec [OF assms(1) z] assms(2,3) have o: "out = [truncate_string_to_bytes_from_end (last ls) mb]"
    "mb < int (utf8_byte_length (last ls))" by (auto simp: hd_rev)
  from truncate_from_end_longest [OF assms(4,3) o(2)] o show ?thesis by auto
qed

lemma tail_loop_whole:
  assumes "tail_loop ml mb (rev ls) [] 0 = (out, b, byb, False)" "0 < ml" "0 \<le> mb"
  shows "int (joined_bytes out) \<le> mb \<and> int (length out) \<le> ml \<and> length out \<le> length ls \<and>
    out = drop (length ls - length out) ls \<and>
    (length out = length ls \<or> int (length out) = ml \<or>
     (0 < length out \<and> mb < int (joined_bytes (drop (length ls - Suc (length out)) ls))))"
proof -
  have z: "0 = joined_bytes []" by (simp add: joined_bytes_def)
  from tail_loop_spec [OF assms(1) z] assms(2,3)
  have "int (joined_bytes out) \<le> mb \<and> int (length out) \<le> ml \<and>
      (\<exists>k\<le>length (rev ls). out = rev (take k (rev ls)) @ [] \<and> (k = length (rev ls) \<or> int (length out) = ml
        \<or> (out \<noteq> [] \<and> mb < int (joined_bytes (rev ls ! k # out)))))" by simp
  then obtain k where k: "int (joined_bytes out) \<le> mb"
    "int (length out) \<le> ml" "k \<le> length ls" "out = rev (take k (rev ls))"
    "k = length ls \<or> int (length out) = ml \<or> (out \<noteq> [] \<and> mb < int (joined_bytes (rev ls ! k # out)))"
    unfolding append_Nil2 length_rev by blast
  then have len: "length out = k" "out = drop (length ls - k) ls" by (simp_all add: take_rev)
  have "rev ls ! k # out = drop (length ls - Suc k) ls" if "k \<noteq> length ls"
    using that k(3) by (simp add: len(2) rev_nth Cons_nth_drop_Suc [symmetric] Suc_diff_Suc)
  then show ?thesis using k(1-3,5) len by auto
qed

text \<open>
  C37. Truncation from the tail, on text of the basic multilingual plane without surrogates, with a
  positive line limit and a byte limit that is not negative: the content has the bytes it reports, no more
  lines than it reports, and both are within the limits. A content that is not cut is the input.
  Otherwise it is made of the last \<open>outputLines\<close> lines of the input, as many as the limits admit: they
  are all the lines, or as many as \<open>maxLines\<close>, or one line more would exceed \<open>maxBytes\<close>. Only when
  the last line alone exceeds \<open>maxBytes\<close> the content is a part of it, the longest end that fits.
\<close>

theorem truncate_tail_limits:
  assumes "0 < ti_maxLines (resolve_truncation_input content opts)"
    and "0 \<le> ti_maxBytes (resolve_truncation_input content opts)" "bmp_text content"
    and "r = truncate_tail content opts" "ls = split_lines_for_counting content"
  shows "respects_limits r \<and>
    (if \<not> tr_truncated r then tr_content r = content
     else if tr_lastLinePartial r then tr_outputLines r = 1 \<and> tr_maxBytes r < int (utf8_byte_length (last ls)) \<and>
       (\<exists>k. 0 < k \<and> tr_content r = drop k (last ls) \<and> tr_maxBytes r < int (utf8_byte_length (drop (k - 1) (last ls))))
     else tr_outputLines r \<le> length ls \<and>
       tr_content r = py_join [lf] (drop (length ls - tr_outputLines r) ls) \<and>
       (tr_outputLines r = length ls \<or> int (tr_outputLines r) = tr_maxLines r \<or>
        (0 < tr_outputLines r \<and>
         tr_maxBytes r < int (utf8_byte_length (py_join [lf] (drop (length ls - Suc (tr_outputLines r)) ls))))))"
proof (cases "within_limits (resolve_truncation_input content opts)")
  case True
  then show ?thesis
    using untruncated_ok [OF True] by (simp add: truncate_tail_def Let_def assms(4))
next
  case False
  let ?inp = "resolve_truncation_input content opts"
  have ne: "ls \<noteq> []"
    using False assms(1,2,5) split_lines_nonempty [of content] by (cases "content = []") (auto simp: within_limits_def)
  obtain out b byb partial where
    l: "tail_loop (ti_maxLines ?inp) (ti_maxBytes ?inp) (rev ls) [] 0 = (out, b, byb, partial)"
    by (metis prod_cases4)
  have r: "r = build_truncation_result ?inp (py_join [lf] out) True
        (Some (truncation_reason ?inp out b byb)) (length out) None partial False"
    using False l assms(5) by (simp add: truncate_tail_def Let_def assms(4))
  have bmp: "bmp_text (last ls)"
    using bmp_lines [OF assms(3)] ne assms(5) by (simp add: list_all_iff)
  have nolf: "lf \<notin> set w" if "w \<in> set ls" for w using that assms(5) split_lines_no_lf by blast
  show ?thesis
  proof (cases partial)
    case True
    with l have "tail_loop (ti_maxLines ?inp) (ti_maxBytes ?inp) (rev ls) [] 0 = (out, b, byb, True)" by simp
    from tail_loop_partial [OF this assms(1,2) bmp] obtain k where
      k: "0 < k" "out = [drop k (last ls)]" "int (utf8_byte_length (drop k (last ls))) \<le> ti_maxBytes ?inp"
        "ti_maxBytes ?inp < int (utf8_byte_length (last ls))"
        "ti_maxBytes ?inp < int (utf8_byte_length (drop (k - 1) (last ls)))" by blast
    have "length (split_lines_for_counting (py_join [lf] out)) \<le> length out"
      using k(2) nolf [of "last ls"] ne by (intro lines_of_join) (auto dest: in_set_dropD)
    then show ?thesis
      using k True assms(1) unfolding r
      by (simp add: build_truncation_result_def respects_limits_def k(2)) (rule exI [of _ k], simp)
  next
    case False
    with l have "tail_loop (ti_maxLines ?inp) (ti_maxBytes ?inp) (rev ls) [] 0 = (out, b, byb, False)" by simp
    note w = tail_loop_whole [OF this assms(1,2)]
    then have "length (split_lines_for_counting (py_join [lf] out)) \<le> length out"
      using nolf by (intro lines_of_join ballI) (metis in_set_dropD)
    moreover have "out = drop (length ls - length out) ls" using w by blast
    ultimately show ?thesis
      using w False unfolding r
      by (simp add: build_truncation_result_def respects_limits_def utf8_join)
  qed
qed

theorem truncate_tail_limits_witness:
  "respects_limits (truncate_tail [97, 98, 99, 100, 101, 102, 103, 104] demo_limits)"
  using truncate_tail_limits [of "[97, 98, 99, 100, 101, 102, 103, 104]" demo_limits, OF _ _ _ refl refl]
  by (simp add: bmp_text_def is_surrogate_def)

text \<open>
  Outside the basic multilingual plane the byte limit of \<open>truncate_tail\<close> does not hold: a
  code point above \<open>U+FFFF\<close> is counted as three bytes where UTF-8 uses four, so one line of
  three such characters cut to six bytes keeps two of them, which are eight bytes.
\<close>

theorem truncate_tail_exceeds_bytes:
  "tr_content (truncate_tail [0x1F600, 0x1F600, 0x1F600] demo_limits) = [0x1F600, 0x1F600]
   \<and> tr_outputBytes (truncate_tail [0x1F600, 0x1F600, 0x1F600] demo_limits) = 8
   \<and> tr_maxBytes (truncate_tail [0x1F600, 0x1F600, 0x1F600] demo_limits) = 6"
  by (simp add: truncate_tail_def within_limits_def split_lines_for_counting_def py_endswith_def
      py_startswith_def build_truncation_result_def utf8_byte_length_def cp_bytes_def is_surrogate_def
      truncate_string_to_bytes_from_end_def is_low_def is_high_def Let_def)

lemma replace_unpaired_shape:
  "length (replace_unpaired_surrogates s) = length s
   \<and> (s \<noteq> [] \<longrightarrow> hd (replace_unpaired_surrogates s) \<in> {hd s, 0xFFFD})
   \<and> replace_unpaired_surrogates (replace_unpaired_surrogates s) = replace_unpaired_surrogates s"
proof (induction s rule: replace_unpaired_surrogates.induct)
  case (3 c d cs)
  have plain: "replace_unpaired_surrogates (x # xs) = x # replace_unpaired_surrogates xs"
    if "\<not> is_high x" "\<not> is_low x" for x xs
    using that by (cases xs) (auto simp: is_surrogate_def is_high_def is_low_def)
  have fffd: "\<not> is_high 0xFFFD" "\<not> is_low 0xFFFD" by (simp_all add: is_high_def is_low_def)
  have "is_high c \<Longrightarrow> \<not> is_low c" by (simp add: is_high_def is_low_def)
  with 3 fffd show ?case by (auto simp: plain)
qed (auto simp: is_surrogate_def)

text \<open>
  After \<open>replace_unpaired_surrogates\<close> every surrogate is half of a pair: the result
  has the length of the input and cannot be changed by another pass.
\<close>

theorem replace_unpaired_idem:
  "length (replace_unpaired_surrogates s) = length s
   \<and> replace_unpaired_surrogates (replace_unpaired_surrogates s) = replace_unpaired_surrogates s"
  using replace_unpaired_shape by blast

end
