(* ===== verification/StringCoerce.thy ===== *)
theory StringCoerce
  imports HarnessTypes
begin

text \<open>
  \<^verbatim>\<open>normalization_core/string_coerce.py\<close>: reading strings, flags and identifiers out of
  values of any type.
\<close>

definition read_string_value :: "pyval \<Rightarrow> string option" where
  "read_string_value v = (case v of VStr s \<Rightarrow> Some s | _ \<Rightarrow> None)"

definition normalize_nullable_string :: "pyval \<Rightarrow> string option" where
  "normalize_nullable_string v =
     (case v of VStr s \<Rightarrow> (let trimmed = py_strip s in if trimmed = [] then None else Some trimmed)
      | _ \<Rightarrow> None)"

definition normalize_optional_string :: "pyval \<Rightarrow> string option" where
  "normalize_optional_string v = normalize_nullable_string v"

text \<open>\<open>math.isnan(v) or math.isinf(v)\<close> for a float given by its text.\<close>

definition float_not_finite :: "string \<Rightarrow> bool" where
  "float_not_finite r = (r = ''nan'' \<or> r = ''inf'' \<or> r = ''-inf'')"

definition normalize_stringified_optional_string :: "pyval \<Rightarrow> string option" where
  "normalize_stringified_optional_string v =
     (case v of
        VStr s \<Rightarrow> normalize_optional_string (VStr s)
      | VBool b \<Rightarrow> normalize_optional_string (VStr (if b then ''true'' else ''false''))
      | VInt i \<Rightarrow> normalize_optional_string (VStr (str_of_int i))
      | VFloat r \<Rightarrow> (if float_not_finite r then None else normalize_optional_string (VStr r))
      | _ \<Rightarrow> None)"

definition normalize_stringified_entries :: "pyval list option \<Rightarrow> string list" where
  "normalize_stringified_entries vs =
     List.map_filter normalize_stringified_optional_string (case vs of Some xs \<Rightarrow> xs | None \<Rightarrow> [])"

definition normalize_optional_lowercase_string :: "pyval \<Rightarrow> string option" where
  "normalize_optional_lowercase_string v = map_option py_lower (normalize_optional_string v)"

definition normalize_lowercase_string_or_empty :: "pyval \<Rightarrow> string" where
  "normalize_lowercase_string_or_empty v =
     (case normalize_optional_lowercase_string v of Some s \<Rightarrow> s | None \<Rightarrow> [])"

datatype fast_mode = FastOn | FastOff | FastAuto

definition normalize_fast_mode :: "pyval \<Rightarrow> fast_mode option" where
  "normalize_fast_mode raw =
     (case raw of
        VBool b \<Rightarrow> Some (if b then FastOn else FastOff)
      | _ \<Rightarrow>
          (if \<not> truthy raw then None
           else
             let key = normalize_lowercase_string_or_empty raw in
             if key \<in> {''off'', ''false'', ''no'', ''0'', ''disable'', ''disabled'', ''normal''}
             then Some FastOff
             else if key \<in> {''on'', ''true'', ''yes'', ''1'', ''enable'', ''enabled'', ''fast''}
             then Some FastOn
             else if key \<in> {''auto'', ''automatic''} then Some FastAuto
             else None))"

definition resolve_primary_string_value :: "pyval \<Rightarrow> string option" where
  "resolve_primary_string_value v =
     (case v of
        VStr s \<Rightarrow> normalize_optional_string v
      | VDict d \<Rightarrow>
          (if d = [] then None
           else normalize_optional_string (case map_of d ''primary'' of Some x \<Rightarrow> x | None \<Rightarrow> VNone))
      | _ \<Rightarrow> None)"

datatype thread_value = ThreadStr string | ThreadInt int

definition normalize_optional_thread_value :: "pylib \<Rightarrow> pyval \<Rightarrow> thread_value option res" where
  "normalize_optional_thread_value L v =
     (case v of
        VBool b \<Rightarrow> Inr None
      | VInt i \<Rightarrow> Inr (Some (ThreadInt i))
      | VFloat r \<Rightarrow>
          (if float_not_finite r then Inr None
           else bind_res (lib_float_trunc L r) (\<lambda>i. Inr (Some (ThreadInt i))))
      | _ \<Rightarrow> Inr (map_option ThreadStr (normalize_optional_string v)))"

definition normalize_optional_stringified_id :: "pylib \<Rightarrow> pyval \<Rightarrow> string option res" where
  "normalize_optional_stringified_id L v =
     bind_res (normalize_optional_thread_value L v) (\<lambda>t.
     Inr (case t of
            None \<Rightarrow> None
          | Some (ThreadStr s) \<Rightarrow> Some s
          | Some (ThreadInt i) \<Rightarrow> Some (str_of_int i)))"

definition has_non_empty_string :: "pyval \<Rightarrow> bool" where
  "has_non_empty_string v = (normalize_optional_string v \<noteq> None)"

section \<open>Facts\<close>

lemma normalize_optional_string_VStr:
  "normalize_optional_string (VStr s) = (if py_strip s = [] then None else Some (py_strip s))"
  by (simp add: normalize_optional_string_def normalize_nullable_string_def Let_def)

lemma normalize_lowercase_VStr [simp]:
  "normalize_lowercase_string_or_empty (VStr s) = py_lower (py_strip s)"
  by (simp add: normalize_lowercase_string_or_empty_def normalize_optional_lowercase_string_def
      normalize_optional_string_VStr)

lemma normalize_lowercase_idem [simp]:
  "normalize_lowercase_string_or_empty (VStr (normalize_lowercase_string_or_empty v))
   = normalize_lowercase_string_or_empty v"
  by (cases v)
     (simp_all add: normalize_lowercase_string_or_empty_def normalize_optional_lowercase_string_def
      normalize_optional_string_def normalize_nullable_string_def Let_def py_strip_lower)

lemma normalize_stringified_trimmed:
  "normalize_stringified_optional_string v = Some s \<Longrightarrow> s \<noteq> [] \<and> py_strip s = s"
  by (cases v)
     (auto simp: normalize_stringified_optional_string_def normalize_optional_string_VStr
      split: if_split_asm)

end
