(* ===== verification/RoutingIds.thy ===== *)
theory RoutingIds
  imports StringCoerce
begin

text \<open>
  Identifiers and session keys of the router: \<^verbatim>\<open>routing/account_id.py\<close>,
  \<^verbatim>\<open>routing/session_key.py\<close>, \<^verbatim>\<open>channels/chat_type.py\<close> and
  \<^verbatim>\<open>infra/prototype_keys.py\<close>. The regular expressions are written out as the functions
  they denote. A parameter dictionary is a record of the keys that the function reads, with
  \<^term>\<open>None\<close> for a missing key.
\<close>

section \<open>Patterns\<close>

text \<open>
  The class \<^verbatim>\<open>[a-z0-9_-]\<close>, and \<open>_VALID_ID_RE\<close>, which ignores case. On code points below 256 ignoring
  case adds the upper case letters only. Beyond, it also adds U+0130, U+0131, U+017F and U+212A, so
  that an identifier with one of them is accepted by the code and not made canonical; the strings of this
  development do not reach there, and what is proved of identifiers is about code points below 256.
\<close>

definition id_char :: "char \<Rightarrow> bool" where
  "id_char c \<longleftrightarrow> is_ascii_lower c \<or> is_digit c \<or> c = CHR ''_'' \<or> c = CHR ''-''"

definition valid_id :: "string \<Rightarrow> bool" where
  "valid_id s \<longleftrightarrow>
     s \<noteq> [] \<and> length s \<le> 64
     \<and> (is_ascii_lower (lower_char (hd s)) \<or> is_digit (hd s))
     \<and> list_all (\<lambda>c. id_char c \<or> is_ascii_upper c) s"

text \<open>\<open>_INVALID_CHARS_RE.sub("-", s)\<close>: a maximal run of other characters becomes one dash.\<close>

fun sub_invalid :: "bool \<Rightarrow> string \<Rightarrow> string" where
  "sub_invalid in_run [] = []"
| "sub_invalid in_run (c # s) =
     (if id_char c then c # sub_invalid False s
      else if in_run then sub_invalid True s
      else CHR ''-'' # sub_invalid True s)"

definition is_dash :: "char \<Rightarrow> bool" where
  "is_dash c = (c = CHR ''-'')"

text \<open>\<open>sub("-", normalized).lstrip("-").rstrip("-")[:64]\<close>\<close>

definition slug :: "string \<Rightarrow> string" where
  "slug normalized = take 64 (strip_with is_dash (sub_invalid False normalized))"

section \<open>Account ids\<close>

definition DEFAULT_ACCOUNT_ID :: string where
  "DEFAULT_ACCOUNT_ID = ''default''"

definition is_blocked_object_key :: "string \<Rightarrow> bool" where
  "is_blocked_object_key key \<longleftrightarrow> key \<in> {''__proto__'', ''prototype'', ''constructor''}"

definition canonicalize_account_id :: "string \<Rightarrow> string" where
  "canonicalize_account_id v =
     (let normalized = normalize_lowercase_string_or_empty (VStr v)
      in if valid_id v then normalized else slug normalized)"

definition normalize_canonical_account_id :: "string \<Rightarrow> string option" where
  "normalize_canonical_account_id v =
     (let canonical = canonicalize_account_id v
      in if canonical = [] \<or> is_blocked_object_key canonical then None else Some canonical)"

definition or_empty :: "string option \<Rightarrow> string" where
  "or_empty v = (case v of Some s \<Rightarrow> s | None \<Rightarrow> [])"

definition normalize_account_id :: "string option \<Rightarrow> string" where
  "normalize_account_id v =
     (let trimmed = py_strip (or_empty v)
      in if trimmed = [] then DEFAULT_ACCOUNT_ID
         else case normalize_canonical_account_id trimmed of
           Some c \<Rightarrow> c | None \<Rightarrow> DEFAULT_ACCOUNT_ID)"

definition normalize_optional_account_id :: "string option \<Rightarrow> string option" where
  "normalize_optional_account_id v =
     (let trimmed = py_strip (or_empty v)
      in if trimmed = [] then None else normalize_canonical_account_id trimmed)"

section \<open>Chat types\<close>

definition normalize_chat_type :: "string option \<Rightarrow> string option" where
  "normalize_chat_type raw =
     (let v = py_lower (py_strip (or_empty raw)) in
      if v = [] then None
      else if v = ''direct'' \<or> v = ''dm'' then Some ''direct''
      else if v = ''group'' then Some ''group''
      else if v = ''channel'' then Some ''channel''
      else None)"

section \<open>Agent session keys\<close>

definition DEFAULT_AGENT_ID :: string where
  "DEFAULT_AGENT_ID = ''main''"

definition DEFAULT_MAIN_KEY :: string where
  "DEFAULT_MAIN_KEY = ''main''"

definition normalize_token :: "string option \<Rightarrow> string" where
  "normalize_token v =
     normalize_lowercase_string_or_empty (case v of Some s \<Rightarrow> VStr s | None \<Rightarrow> VNone)"

record parsed_session_key =
  ps_agentId :: string
  ps_rest :: string

text \<open>
  \<open>_AGENT_SESSION_KEY_RE\<close>: the agent id ends at the first colon, since it cannot contain
  one; the rest is not empty and has no newline.
\<close>

definition parse_agent_session_key :: "string option \<Rightarrow> parsed_session_key option" where
  "parse_agent_session_key session_key =
     (let raw = py_strip (or_empty session_key) in
      if raw = [] then None
      else if py_lower (take 6 raw) \<noteq> ''agent:'' then None
      else
        let body = drop 6 raw;
            agent_id = takeWhile (\<lambda>c. c \<noteq> CHR '':'') body;
            rest = drop (length agent_id + 1) body
        in if valid_id agent_id \<and> length agent_id < length body \<and> rest \<noteq> [] \<and> newline \<notin> set rest
           then Some \<lparr>ps_agentId = agent_id, ps_rest = rest\<rparr>
           else None)"

definition rest_starts_with :: "string \<Rightarrow> string option \<Rightarrow> bool" where
  "rest_starts_with p session_key =
     (case parse_agent_session_key session_key of
        None \<Rightarrow> False
      | Some parsed \<Rightarrow> py_startswith (ps_rest parsed) p)"

definition is_cron_run_session_key :: "string option \<Rightarrow> bool" where
  "is_cron_run_session_key k = rest_starts_with ''cron:'' k"

definition is_cron_session_key :: "string option \<Rightarrow> bool" where
  "is_cron_session_key k = is_cron_run_session_key k"

definition is_acp_session_key :: "string option \<Rightarrow> bool" where
  "is_acp_session_key k = rest_starts_with ''acp:'' k"

definition is_subagent_session_key :: "string option \<Rightarrow> bool" where
  "is_subagent_session_key k = rest_starts_with ''subagent:'' k"

text \<open>
  \<^verbatim>\<open>int(s)\<close> for a string: surrounding white space, a sign, digits with single
  underscores between them; \<^term>\<open>None\<close> is \<^verbatim>\<open>ValueError\<close>.
\<close>

fun int_digits :: "bool \<Rightarrow> nat \<Rightarrow> string \<Rightarrow> nat option" where
  "int_digits after_digit acc [] = (if after_digit then Some acc else None)"
| "int_digits after_digit acc (c # s) =
     (if is_digit c then int_digits True (acc * 10 + (ord_char c - 48)) s
      else if c = CHR ''_'' \<and> after_digit then int_digits False acc s
      else None)"

definition py_int :: "string \<Rightarrow> int option" where
  "py_int s =
     (case py_strip s of
        [] \<Rightarrow> None
      | c # t \<Rightarrow>
          (if c = CHR ''-'' then map_option (\<lambda>n. - int n) (int_digits False 0 t)
           else if c = CHR ''+'' then map_option int (int_digits False 0 t)
           else map_option int (int_digits False 0 (c # t))))"

definition get_subagent_depth :: "string option \<Rightarrow> int" where
  "get_subagent_depth session_key =
     (case parse_agent_session_key session_key of
        None \<Rightarrow> 0
      | Some parsed \<Rightarrow>
          (if \<not> py_startswith (ps_rest parsed) ''subagent:'' then 0
           else
             let parts = py_split (CHR '':'') (ps_rest parsed)
             in if length parts < 2 then 0
                else case py_int (parts ! 1) of Some i \<Rightarrow> i | None \<Rightarrow> 0))"

definition thread_marker :: string where
  "thread_marker = '':thread:''"

definition parse_thread_session_suffix :: "string option \<Rightarrow> string option" where
  "parse_thread_session_suffix session_key =
     (case parse_agent_session_key session_key of
        None \<Rightarrow> None
      | Some parsed \<Rightarrow>
          (case py_find (ps_rest parsed) thread_marker of
             None \<Rightarrow> None
           | Some idx \<Rightarrow> Some (drop (idx + length thread_marker) (ps_rest parsed))))"

definition normalize_main_key :: "string option \<Rightarrow> string" where
  "normalize_main_key v = (let t = normalize_token v in if t = [] then DEFAULT_MAIN_KEY else t)"

definition normalize_agent_id :: "string option \<Rightarrow> string" where
  "normalize_agent_id v =
     (let trimmed = py_strip (or_empty v) in
      if trimmed = [] then DEFAULT_AGENT_ID
      else
        let normalized = normalize_lowercase_string_or_empty (VStr trimmed) in
        if valid_id trimmed then normalized
        else if slug normalized = [] then DEFAULT_AGENT_ID else slug normalized)"

definition normalize_optional_agent_id :: "pyval \<Rightarrow> string option" where
  "normalize_optional_agent_id v =
     (case v of
        VStr s \<Rightarrow> (let trimmed = py_strip s
                   in if trimmed = [] then None else Some (normalize_agent_id (Some trimmed)))
      | _ \<Rightarrow> None)"

definition is_valid_agent_id :: "string option \<Rightarrow> bool" where
  "is_valid_agent_id v = (let trimmed = py_strip (or_empty v) in trimmed \<noteq> [] \<and> valid_id trimmed)"

definition sanitize_agent_id :: "string option \<Rightarrow> string" where
  "sanitize_agent_id v = normalize_agent_id v"

definition agent_key :: "string \<Rightarrow> string \<Rightarrow> string" where
  "agent_key agent_id rest = ''agent:'' @ agent_id @ '':'' @ rest"

definition build_agent_main_session_key :: "string option \<Rightarrow> string option \<Rightarrow> string" where
  "build_agent_main_session_key agent_id main_key =
     agent_key (normalize_agent_id agent_id) (normalize_main_key main_key)"

text \<open>
  \<open>_resolve_linked_peer_id\<close>. The links map a canonical name to a list of identities, which
  may be any values; the loop returns the first name with an identity among the candidates.
\<close>

definition link_candidates :: "string option \<Rightarrow> string \<Rightarrow> string list" where
  "link_candidates channel peer_id =
     (let raw = normalize_token (Some peer_id);
          ch = normalize_token channel;
          scoped = normalize_token (Some (ch @ '':'' @ peer_id))
      in (if raw \<noteq> [] then [raw] else []) @ (if ch \<noteq> [] \<and> scoped \<noteq> [] then [scoped] else []))"

fun first_linked :: "string list \<Rightarrow> (string \<times> pyval) list \<Rightarrow> string option" where
  "first_linked candidates [] = None"
| "first_linked candidates ((canonical, ids) # links) =
     (let name = py_strip canonical in
      if name \<noteq> [] \<and> is_list ids
         \<and> list_ex (\<lambda>i. normalize_lowercase_string_or_empty i \<noteq> []
              \<and> normalize_lowercase_string_or_empty i \<in> set candidates) (the_list ids)
      then Some name
      else first_linked candidates links)"

definition resolve_linked_peer_id ::
  "(string \<times> pyval) list option \<Rightarrow> string option \<Rightarrow> string option \<Rightarrow> string option" where
  "resolve_linked_peer_id identity_links channel peer =
     (case identity_links of
        None \<Rightarrow> None
      | Some links \<Rightarrow>
          (let peer_id = py_strip (or_empty peer) in
           if links = [] \<or> peer_id = [] then None
           else if link_candidates channel peer_id = [] then None
           else first_linked (link_candidates channel peer_id) links))"

definition normalize_session_peer_id :: "string option \<Rightarrow> string" where
  "normalize_session_peer_id peer =
     (let peer_id = py_strip (or_empty peer)
      in if peer_id = [] then [] else normalize_token (Some peer_id))"

record peer_key_params =
  pk_agentId :: "string option"
  pk_mainKey :: "string option"
  pk_channel :: "string option"
  pk_accountId :: "string option"
  pk_peerKind :: "string option"
  pk_peerId :: "string option"
  pk_dmScope :: pyval
  pk_identityLinks :: "(string \<times> pyval) list option"

definition or_else :: "string \<Rightarrow> string \<Rightarrow> string" where
  "or_else s d = (if s = [] then d else s)"

definition build_agent_peer_session_key :: "peer_key_params \<Rightarrow> string" where
  "build_agent_peer_session_key p =
     (let peer_kind = or_else (or_empty (pk_peerKind p)) ''direct'';
          agent_id = normalize_agent_id (pk_agentId p);
          channel = or_else (normalize_token (pk_channel p)) ''unknown'' in
      if peer_kind = ''direct'' then
        let dm_scope = py_or (pk_dmScope p) (VStr ''main'');
            peer_id0 = py_strip (or_empty (pk_peerId p));
            linked = (if dm_scope = VStr ''main'' then None
                      else resolve_linked_peer_id (pk_identityLinks p) (pk_channel p) (Some peer_id0));
            peer_id = normalize_token (Some (case linked of
                Some l \<Rightarrow> if l \<noteq> [] then l else peer_id0 | None \<Rightarrow> peer_id0))
        in if dm_scope = VStr ''per-account-channel-peer'' \<and> peer_id \<noteq> [] then
             agent_key agent_id (channel @ '':'' @ normalize_account_id (pk_accountId p)
               @ '':direct:'' @ peer_id)
           else if dm_scope = VStr ''per-channel-peer'' \<and> peer_id \<noteq> [] then
             agent_key agent_id (channel @ '':direct:'' @ peer_id)
           else if dm_scope = VStr ''per-peer'' \<and> peer_id \<noteq> [] then
             agent_key agent_id (''direct:'' @ peer_id)
           else build_agent_main_session_key (pk_agentId p) (pk_mainKey p)
      else
        agent_key agent_id (channel @ '':'' @ peer_kind @ '':''
          @ or_else (normalize_session_peer_id (pk_peerId p)) ''unknown''))"

record route_peer =
  rp_kind :: string
  rp_id :: string

text \<open>The function of \<^verbatim>\<open>session_key.py\<close>; the peer's id is a token.\<close>

definition build_agent_session_key ::
  "string option \<Rightarrow> string option \<Rightarrow> string option \<Rightarrow> route_peer option \<Rightarrow> pyval
     \<Rightarrow> (string \<times> pyval) list option \<Rightarrow> string" where
  "build_agent_session_key agent_id channel account_id peer dm_scope links =
     build_agent_peer_session_key
       \<lparr>pk_agentId = agent_id, pk_mainKey = Some DEFAULT_MAIN_KEY,
        pk_channel = Some (or_else (normalize_token channel) ''unknown''),
        pk_accountId = account_id,
        pk_peerKind = (case peer of Some q \<Rightarrow> Some (rp_kind q) | None \<Rightarrow> Some ''direct''),
        pk_peerId = (case peer of
            Some q \<Rightarrow> Some (or_else (normalize_token (Some (rp_id q))) ''unknown'') | None \<Rightarrow> None),
        pk_dmScope = dm_scope, pk_identityLinks = links\<rparr>"

definition to_agent_request_session_key :: "string option \<Rightarrow> string option" where
  "to_agent_request_session_key store_key =
     (let raw = py_strip (or_empty store_key) in
      if raw = [] then None
      else case parse_agent_session_key (Some raw) of
        Some parsed \<Rightarrow> Some (ps_rest parsed) | None \<Rightarrow> Some raw)"

definition agent_session_keys_match_by_request_key ::
  "string option \<Rightarrow> string option \<Rightarrow> bool" where
  "agent_session_keys_match_by_request_key left right =
     (let left_raw = py_strip (or_empty left); right_raw = py_strip (or_empty right) in
      if left_raw = [] \<or> right_raw = [] then False
      else left_raw = right_raw
        \<or> to_agent_request_session_key (Some left_raw) = to_agent_request_session_key (Some right_raw))"

definition to_agent_store_session_key ::
  "string option \<Rightarrow> string option \<Rightarrow> string option \<Rightarrow> string" where
  "to_agent_store_session_key agent_id request_key main_key =
     (let raw = py_strip (or_empty request_key);
          lowered = normalize_token (Some raw) in
      if raw = [] \<or> lowered = DEFAULT_MAIN_KEY then build_agent_main_session_key agent_id main_key
      else case parse_agent_session_key (Some raw) of
        Some parsed \<Rightarrow> agent_key (ps_agentId parsed) (ps_rest parsed)
      | None \<Rightarrow>
          (if py_startswith lowered ''agent:'' then lowered
           else agent_key (normalize_agent_id agent_id) lowered))"

definition resolve_agent_id_from_session_key :: "string option \<Rightarrow> string" where
  "resolve_agent_id_from_session_key session_key =
     normalize_agent_id (Some (case parse_agent_session_key session_key of
       Some parsed \<Rightarrow> ps_agentId parsed | None \<Rightarrow> DEFAULT_AGENT_ID))"

datatype session_key_shape = ShapeMissing | ShapeAgent | ShapeLegacyOrAlias | ShapeMalformedAgent

definition classify_session_key_shape :: "string option \<Rightarrow> session_key_shape" where
  "classify_session_key_shape session_key =
     (let raw = py_strip (or_empty session_key) in
      if raw = [] then ShapeMissing
      else if parse_agent_session_key (Some raw) \<noteq> None then ShapeAgent
      else if py_startswith (normalize_token (Some raw)) ''agent:'' then ShapeMalformedAgent
      else ShapeLegacyOrAlias)"

definition is_unscoped_session_key_sentinel :: "string option \<Rightarrow> bool" where
  "is_unscoped_session_key_sentinel k =
     (let lowered = normalize_token k in lowered = ''global'' \<or> lowered = ''unknown'')"

definition scope_legacy_session_key_to_agent ::
  "string option \<Rightarrow> string option \<Rightarrow> string option \<Rightarrow> string option" where
  "scope_legacy_session_key_to_agent session_key agent main_key =
     (let raw = py_strip (or_empty session_key) in
      if raw = [] then None
      else
        let agent_id = py_strip (or_empty agent) in
        if agent_id = [] \<or> classify_session_key_shape (Some raw) \<noteq> ShapeLegacyOrAlias then Some raw
        else Some (to_agent_store_session_key (Some agent_id) (Some raw) main_key))"

definition scoped_heartbeat_wake_options ::
  "string \<Rightarrow> (string, pyval) dict \<Rightarrow> string option \<Rightarrow> string option \<Rightarrow> (string, pyval) dict" where
  "scoped_heartbeat_wake_options session_key wake_options main_key scope =
     (case parse_agent_session_key (Some session_key) of
        None \<Rightarrow> wake_options
      | Some parsed \<Rightarrow>
          (if is_cron_run_session_key (Some session_key) then
             (if scope = Some ''global'' then dict_set wake_options ''agentId'' (VStr (ps_agentId parsed))
              else dict_set wake_options ''sessionKey''
                (VStr (build_agent_main_session_key (Some (ps_agentId parsed)) main_key)))
           else dict_set wake_options ''sessionKey'' (VStr session_key)))"

definition resolve_event_session_key ::
  "string \<Rightarrow> string option \<Rightarrow> string option \<Rightarrow> string" where
  "resolve_event_session_key session_key main_key scope =
     (case parse_agent_session_key (Some session_key) of
        None \<Rightarrow> session_key
      | Some parsed \<Rightarrow>
          (if \<not> is_cron_run_session_key (Some session_key) then session_key
           else if scope = Some ''global'' then ''global''
           else build_agent_main_session_key (Some (ps_agentId parsed)) main_key))"

text \<open>An f-string shows a missing value as \<open>None\<close>.\<close>

definition shown :: "string option \<Rightarrow> string" where
  "shown v = (case v of Some s \<Rightarrow> s | None \<Rightarrow> ''None'')"

definition build_group_history_key ::
  "string option \<Rightarrow> string option \<Rightarrow> string option \<Rightarrow> string option \<Rightarrow> string" where
  "build_group_history_key channel account_id peer_kind peer_id =
     (let ch = or_else (normalize_token channel) ''unknown'' in
      ch @ '':'' @ normalize_account_id account_id @ '':'' @ shown peer_kind @ '':''
      @ or_else (normalize_session_peer_id peer_id) ''unknown'')"

record thread_key_params =
  tk_baseSessionKey :: "string option"
  tk_threadId :: "string option"
  tk_parentSessionKey :: "string option"
  tk_useSuffix :: "bool option"
  tk_normalizeThreadId :: "(string \<Rightarrow> string) option"

definition resolve_thread_session_keys :: "thread_key_params \<Rightarrow> string option \<times> string option" where
  "resolve_thread_session_keys p =
     (let thread_id = py_strip (or_empty (tk_threadId p)) in
      if thread_id = [] then (tk_baseSessionKey p, None)
      else
        let normalized = (case tk_normalizeThreadId p of
                Some f \<Rightarrow> f thread_id | None \<Rightarrow> normalize_token (Some thread_id));
            use_suffix = (case tk_useSuffix p of Some b \<Rightarrow> b | None \<Rightarrow> True);
            session_key = (if use_suffix
                then Some (shown (tk_baseSessionKey p) @ thread_marker @ normalized)
                else tk_baseSessionKey p)
        in (session_key, tk_parentSessionKey p))"

section \<open>Facts about identifiers\<close>

lemma id_char_not_special:
  "id_char c \<Longrightarrow> \<not> is_space c \<and> c \<noteq> CHR '':'' \<and> c \<noteq> newline"
  by (auto simp: id_char_def is_ascii_lower_def is_digit_def is_space_def Let_def ord_char_def)

lemma lower_id_char:
  "id_char c \<or> is_ascii_upper c \<Longrightarrow> id_char (lower_char c)"
  "id_char c \<Longrightarrow> lower_char c = c"
proof -
  show "id_char c \<Longrightarrow> lower_char c = c"
    by (auto simp: id_char_def is_ascii_lower_def is_digit_def lower_char_def Let_def ord_char_def)
  then show "id_char c \<or> is_ascii_upper c \<Longrightarrow> id_char (lower_char c)"
    by (auto simp: id_char_def is_ascii_upper_def is_ascii_lower_def ord_lower_char)
qed

lemma sub_invalid_id_chars: "c \<in> set (sub_invalid b s) \<Longrightarrow> id_char c"
  by (induction b s rule: sub_invalid.induct) (auto simp: id_char_def split: if_split_asm)

lemma sub_invalid_fixpoint: "list_all id_char s \<Longrightarrow> sub_invalid b s = s"
  by (induction s arbitrary: b) auto

lemma slug_shape:
  "length (slug s) \<le> 64 \<and> list_all id_char (slug s) \<and> (slug s = [] \<or> hd (slug s) \<noteq> CHR ''-'')"
proof -
  let ?t = "strip_with is_dash (sub_invalid False s)"
  have "list_all id_char ?t"
    using set_strip_with [of is_dash "sub_invalid False s"]
    by (auto simp: list_all_iff dest: sub_invalid_id_chars)
  then have "list_all id_char (slug s)"
    by (auto simp: slug_def list_all_iff dest: in_set_takeD)
  moreover have "slug s = [] \<or> hd (slug s) \<noteq> CHR ''-''"
    using strip_with_hd_last [of is_dash "sub_invalid False s"]
    by (cases ?t) (auto simp: slug_def is_dash_def)
  ultimately show ?thesis by (simp add: slug_def)
qed

text \<open>A normalised identifier: not empty, at most 64 characters of the class, no dash in front.\<close>

definition canonical_id :: "string \<Rightarrow> bool" where
  "canonical_id s \<longleftrightarrow>
     s \<noteq> [] \<and> length s \<le> 64 \<and> list_all id_char s \<and> hd s \<noteq> CHR ''-''"

lemma valid_id_lower:
  assumes "valid_id s"
  shows "canonical_id (py_lower s)" "hd (py_lower s) \<noteq> CHR ''_''"
proof -
  from assms obtain c t where s: "s = c # t" by (cases s) (auto simp: valid_id_def)
  with assms have "is_ascii_lower (lower_char c) \<or> is_digit c" by (simp add: valid_id_def)
  then have c: "lower_char c \<noteq> CHR ''-''" "lower_char c \<noteq> CHR ''_''"
    by (auto simp: is_ascii_lower_def is_digit_def lower_char_def ord_char_def Let_def)
  have "list_all id_char (py_lower s)"
    using assms lower_id_char(1) by (auto simp: valid_id_def list_all_iff py_lower_def)
  with assms s c show "canonical_id (py_lower s)" "hd (py_lower s) \<noteq> CHR ''_''"
    by (auto simp: canonical_id_def valid_id_def py_lower_def)
qed

lemma canonical_valid_id:
  assumes "canonical_id s" "hd s \<noteq> CHR ''_''"
  shows "valid_id s"
proof -
  from assms have "id_char (hd s)" "hd s \<noteq> CHR ''-''"
    by (auto simp: canonical_id_def list_all_iff)
  with assms(2) have "is_ascii_lower (lower_char (hd s)) \<or> is_digit (hd s)"
    using lower_id_char(2) [of "hd s"] by (auto simp: id_char_def)
  with assms(1) show ?thesis by (auto simp: canonical_id_def valid_id_def list_all_iff)
qed

lemma canonical_id_no_space:
  assumes "canonical_id s"
  shows "py_strip s = s" "py_lower s = s"
proof -
  from assms have "\<not> is_space (hd s)" "\<not> is_space (last s)" "s \<noteq> []"
    using id_char_not_special by (auto simp: canonical_id_def list_all_iff)
  then show "py_strip s = s" by (intro py_strip_fixpoint)
  from assms show "py_lower s = s"
    unfolding py_lower_def canonical_id_def
    by (intro map_idI) (auto simp: list_all_iff lower_id_char(2))
qed

lemma normalize_agent_id_canonical: "canonical_id (normalize_agent_id v)"
proof -
  let ?t = "py_strip (or_empty v)"
  have d: "canonical_id DEFAULT_AGENT_ID"
    by (simp add: canonical_id_def DEFAULT_AGENT_ID_def id_char_def is_ascii_lower_def ord_char_def)
  have "py_lower (py_strip ?t) = py_lower ?t" by simp
  with d slug_shape [of "py_lower ?t"] valid_id_lower(1) [of ?t] show ?thesis
    by (auto simp: normalize_agent_id_def Let_def canonical_id_def)
qed

lemma normalize_account_id_canonical: "canonical_id (normalize_account_id v)"
proof -
  have d: "canonical_id DEFAULT_ACCOUNT_ID" by code_simp
  have "canonical_id (canonicalize_account_id s)" if "canonicalize_account_id s \<noteq> []" "py_strip s = s" for s
  proof (cases "valid_id s")
    case True
    with that(2) show ?thesis using valid_id_lower(1) [OF True] by (simp add: canonicalize_account_id_def)
  next
    case False
    with that(1) show ?thesis
      using slug_shape [of "normalize_lowercase_string_or_empty (VStr s)"]
      by (simp add: canonicalize_account_id_def canonical_id_def Let_def)
  qed
  with d show ?thesis
    by (simp add: normalize_account_id_def normalize_canonical_account_id_def Let_def split: option.split)
qed

lemma normalize_agent_id_idem:
  assumes "hd (normalize_agent_id v) \<noteq> CHR ''_''"
  shows "normalize_agent_id (Some (normalize_agent_id v)) = normalize_agent_id v"
proof -
  note c = normalize_agent_id_canonical [of v]
  from canonical_valid_id [OF c assms] canonical_id_no_space [OF c] c show ?thesis
    by (simp add: normalize_agent_id_def [of "Some (normalize_agent_id v)"] or_empty_def Let_def
        canonical_id_def)
qed

section \<open>Facts about session keys\<close>

lemma normalize_token_trimmed:
  "normalize_token v = [] \<or> (\<not> is_space (hd (normalize_token v)) \<and> \<not> is_space (last (normalize_token v)))"
proof (cases v)
  case (Some s)
  then show ?thesis
    using py_strip_hd_last [of s]
    by (cases "py_strip s = []") (auto simp: normalize_token_def py_lower_def hd_map last_map)
qed (simp add: normalize_token_def normalize_lowercase_string_or_empty_def
    normalize_optional_lowercase_string_def normalize_optional_string_def normalize_nullable_string_def)

lemma parse_agent_key:
  assumes "valid_id a" "rest \<noteq> []" "\<not> is_space (last rest)" "newline \<notin> set rest"
  shows "parse_agent_session_key (Some (agent_key a rest)) = Some \<lparr>ps_agentId = a, ps_rest = rest\<rparr>"
proof -
  let ?k = "agent_key a rest"
  have k: "?k = ''agent:'' @ a @ CHR '':'' # rest" by (simp add: agent_key_def)
  have "\<not> is_space (hd ?k)" "\<not> is_space (last ?k)"
    using assms(2,3) by (simp_all add: k is_space_def ord_char_def Let_def)
  then have strip: "py_strip ?k = ?k" by (intro py_strip_fixpoint) (simp_all add: k)
  have "\<not> id_char (CHR '':'')" "\<not> is_ascii_upper (CHR '':'')"
    by (simp_all add: id_char_def is_ascii_lower_def is_digit_def is_ascii_upper_def ord_char_def)
  then have "CHR '':'' \<notin> set a"
    using assms(1) by (auto simp: valid_id_def list_all_iff)
  then have tw: "takeWhile (\<lambda>c. c \<noteq> CHR '':'') (a @ CHR '':'' # rest) = a"
    by (intro takeWhile_tail [THEN trans]) (auto simp: takeWhile_eq_all_conv [THEN iffD2])
  have "py_lower ''agent:'' = ''agent:''"
    by (simp add: py_lower_def lower_char_def ord_char_def Let_def)
  with assms tw show ?thesis
    unfolding parse_agent_session_key_def or_empty_def
    by (simp add: strip) (simp add: k Let_def)
qed

text \<open>Text that may follow the agent id: not empty, and no white space at its end.\<close>

definition ends_well :: "string \<Rightarrow> bool" where
  "ends_well r \<longleftrightarrow> r \<noteq> [] \<and> \<not> is_space (last r)"

lemma ends_well_simps [simp]:
  "ends_well (c # r) \<longleftrightarrow> (if r = [] then \<not> is_space c else ends_well r)"
  "ends_well r \<Longrightarrow> ends_well (s @ r)"
  by (auto simp: ends_well_def)

lemma ends_well_token [simp]: "normalize_token v \<noteq> [] \<Longrightarrow> ends_well (normalize_token v)"
  using normalize_token_trimmed [of v] by (simp add: ends_well_def)

lemma ends_well_literals [simp]: "ends_well ''unknown''" "ends_well ''main''"
  by (simp_all add: is_space_def ord_char_def)

lemma ends_well_main_key [simp]: "ends_well (normalize_main_key v)"
  by (simp add: normalize_main_key_def DEFAULT_MAIN_KEY_def Let_def del: ends_well_simps)

lemma ends_well_session_peer [simp]:
  "ends_well (or_else (normalize_session_peer_id v) ''unknown'')"
  by (simp add: or_else_def normalize_session_peer_id_def Let_def del: ends_well_simps)

lemma ends_well_Cons [simp]: "ends_well r \<Longrightarrow> ends_well (c # r)"
  by (auto simp: ends_well_def)

definition key_of_agent :: "string \<Rightarrow> string \<Rightarrow> bool" where
  "key_of_agent k a \<longleftrightarrow> (\<exists>rest. k = agent_key a rest \<and> ends_well rest)"

lemma key_of_agentI: "ends_well rest \<Longrightarrow> key_of_agent (agent_key a rest) a"
  by (auto simp: key_of_agent_def)

lemma peer_key_shape:
  "key_of_agent (build_agent_peer_session_key p) (normalize_agent_id (pk_agentId p))"
  unfolding build_agent_peer_session_key_def Let_def build_agent_main_session_key_def
  by (auto intro!: key_of_agentI simp del: ends_well_simps(1))

lemma peer_key_agent:
  assumes "newline \<notin> set (build_agent_peer_session_key p)"
    and "hd (normalize_agent_id (pk_agentId p)) \<noteq> CHR ''_''"
  shows "resolve_agent_id_from_session_key (Some (build_agent_peer_session_key p))
    = normalize_agent_id (pk_agentId p)"
proof -
  obtain rest where r: "build_agent_peer_session_key p = agent_key (normalize_agent_id (pk_agentId p)) rest"
    "rest \<noteq> []" "\<not> is_space (last rest)"
    using peer_key_shape [of p] by (auto simp: key_of_agent_def ends_well_def)
  with assms(1) have "newline \<notin> set rest" by (simp add: agent_key_def)
  moreover have "valid_id (normalize_agent_id (pk_agentId p))"
    using assms(2) normalize_agent_id_canonical by (rule canonical_valid_id [rotated])
  ultimately show ?thesis
    using r assms(2)
    by (simp add: resolve_agent_id_from_session_key_def parse_agent_key normalize_agent_id_idem)
qed

section \<open>Properties\<close>

text \<open>
  On texts of code points below 256: a normalised agent id is not empty, has at most 64 characters, all of them lower case
  letters, digits, underscores and dashes, and no leading dash; unless it begins with an
  underscore it is a valid agent id, and normalising it again does not change it.
\<close>

theorem normalize_agent_id_sound:
  "canonical_id (normalize_agent_id v)
   \<and> (hd (normalize_agent_id v) \<noteq> CHR ''_'' \<longrightarrow>
        is_valid_agent_id (Some (normalize_agent_id v))
        \<and> normalize_agent_id (Some (normalize_agent_id v)) = normalize_agent_id v)"
proof -
  note c = normalize_agent_id_canonical [of v]
  show ?thesis
    using c canonical_valid_id [OF c] canonical_id_no_space [OF c] normalize_agent_id_idem [of v]
    by (auto simp: is_valid_agent_id_def or_empty_def Let_def canonical_id_def)
qed

theorem normalize_agent_id_sound_witness:
  "canonical_id (normalize_agent_id (Some ''Ops Bot''))
   \<and> is_valid_agent_id (Some (normalize_agent_id (Some ''Ops Bot'')))"
proof -
  have "normalize_agent_id (Some ''Ops Bot'') = ''ops-bot''" by code_simp
  then show ?thesis using normalize_agent_id_sound [of "Some ''Ops Bot''"] by simp
qed

text \<open>
  Session keys are read back: the key built for an agent and a main key parses into the
  normalised agent id and the normalised main key, when the id does not begin with an underscore
  and the main key has no line break.
\<close>

theorem main_session_key_roundtrip:
  assumes "hd (normalize_agent_id agent) \<noteq> CHR ''_''" "newline \<notin> set (normalize_main_key main_key)"
  shows "parse_agent_session_key (Some (build_agent_main_session_key agent main_key))
    = Some \<lparr>ps_agentId = normalize_agent_id agent, ps_rest = normalize_main_key main_key\<rparr>"
  unfolding build_agent_main_session_key_def
  using canonical_valid_id [OF normalize_agent_id_canonical assms(1)] assms(2)
    ends_well_main_key [of main_key]
  by (intro parse_agent_key) (simp_all add: ends_well_def)

theorem main_session_key_roundtrip_witness:
  "parse_agent_session_key (Some (build_agent_main_session_key (Some ''Bob'') None))
   = Some \<lparr>ps_agentId = ''bob'', ps_rest = ''main''\<rparr>"
proof -
  have "normalize_agent_id (Some ''Bob'') = ''bob''" "normalize_main_key None = ''main''"
    by code_simp+
  with main_session_key_roundtrip [of "Some ''Bob''" None] show ?thesis by simp
qed

text \<open>
  C34. On texts of code points below 256: whatever the peer, the channel, the account, the direct-message
  scope and the identity links are, the session key built for an agent is resolved to that agent
  again, as long as the key has no line break and the normalised agent id does not begin with an
  underscore.
\<close>

theorem peer_session_key_agent:
  assumes "newline \<notin> set (build_agent_peer_session_key p)"
    and "hd (normalize_agent_id (pk_agentId p)) \<noteq> CHR ''_''"
  shows "resolve_agent_id_from_session_key (Some (build_agent_peer_session_key p))
    = normalize_agent_id (pk_agentId p)"
  using assms by (rule peer_key_agent)

definition demo_key_params :: peer_key_params where
  "demo_key_params =
     \<lparr>pk_agentId = Some ''Bob'', pk_mainKey = None, pk_channel = Some ''telegram'', pk_accountId = None,
      pk_peerKind = Some ''direct'', pk_peerId = Some ''42'', pk_dmScope = VStr ''per-peer'',
      pk_identityLinks = None\<rparr>"

theorem peer_session_key_agent_witness:
  "resolve_agent_id_from_session_key (Some (build_agent_peer_session_key demo_key_params)) = ''bob''"
proof -
  have "build_agent_peer_session_key demo_key_params = ''agent:bob:direct:42''"
    "normalize_agent_id (pk_agentId demo_key_params) = ''bob''"
    by code_simp+
  with peer_session_key_agent [of demo_key_params] show ?thesis by simp
qed

text \<open>
  An agent whose id begins with an underscore loses its sessions: \<open>normalize_agent_id\<close>
  keeps the underscore, but the key pattern does not allow it, so the main session key of agent
  \<open>_ops\<close> is not an agent key at all and is resolved to the agent \<open>main\<close>.
\<close>

theorem underscore_agent_resolves_to_main:
  "normalize_agent_id (Some ''_ops'') = ''_ops''
   \<and> parse_agent_session_key (Some (build_agent_main_session_key (Some ''_ops'') None)) = None
   \<and> resolve_agent_id_from_session_key (Some (build_agent_main_session_key (Some ''_ops'') None)) = ''main''"
  by code_simp

end
