(* ===== verification/RouteBindings.thy ===== *)
theory RouteBindings
  imports RoutingIds
begin

text \<open>
  The configured bindings of the router: \<^verbatim>\<open>routing/binding_scope.py\<close>,
  \<^verbatim>\<open>routing/bindings.py\<close>, \<^verbatim>\<open>routing/peer_kind_match.py\<close>,
  \<^verbatim>\<open>routing/bound_account_read.py\<close>, \<^verbatim>\<open>routing/account_lookup.py\<close> and
  \<^verbatim>\<open>routing/default_account_warnings.py\<close>. The configuration is user data, so bindings are
  values of any type; reading them raises what Python raises.
\<close>

section \<open>The configuration\<close>

text \<open>
  A configuration object: the identity of the object (\<^verbatim>\<open>id(cfg)\<close>), and for each attribute
  the router reads its value and the identity that \<^verbatim>\<open>is\<close> compares. The attribute
  \<open>session\<close>, when it is a dictionary, is given by the two keys the router reads.
\<close>

record session_config =
  sn_dmScope :: "pyval option"
  sn_identityLinks :: "(string \<times> pyval) list option"

record route_config =
  cf_id :: nat
  cf_agents_ref :: nat
  cf_agents :: pyval
  cf_bindings_ref :: nat
  cf_bindings :: pyval
  cf_session_ref :: nat
  cf_session :: "session_config option"
  cf_channels :: pyval

text \<open>\<open>(v or "").strip()\<close> needs a string when \<open>v\<close> is true.\<close>

definition strip_arg :: "pyval \<Rightarrow> string option res" where
  "strip_arg v =
     (if \<not> truthy v then Inr None
      else case v of VStr s \<Rightarrow> Inr (Some s) | _ \<Rightarrow> Inl (PyAttributeError ''strip''))"

section \<open>Scopes\<close>

definition normalize_route_binding_id :: "pyval \<Rightarrow> string" where
  "normalize_route_binding_id v =
     (case v of
        VStr s \<Rightarrow> py_strip s
      | VInt i \<Rightarrow> py_strip (str_of_int i)
      | VBool b \<Rightarrow> (if b then ''True'' else ''False'')
      | VFloat r \<Rightarrow> py_strip r
      | _ \<Rightarrow> [])"

definition normalize_route_binding_roles :: "pyval \<Rightarrow> pyval list option" where
  "normalize_route_binding_roles v =
     (case v of VList xs \<Rightarrow> (if xs \<noteq> [] then Some xs else None) | _ \<Rightarrow> None)"

text \<open>\<^verbatim>\<open>channels/ids.py\<close> declares \<open>normalize_chat_channel_id\<close> with an empty body.\<close>

definition normalize_chat_channel_id :: "pyval \<Rightarrow> string option" where
  "normalize_chat_channel_id raw = None"

definition normalize_route_binding_channel_id :: "pyval \<Rightarrow> string option" where
  "normalize_route_binding_channel_id raw =
     (case normalize_chat_channel_id raw of
        Some c \<Rightarrow> Some c
      | None \<Rightarrow>
          (let fallback = normalize_lowercase_string_or_empty raw
           in if fallback = [] then None else Some fallback))"

record binding_match =
  bm_agentId :: string
  bm_accountId :: string
  bm_channelId :: string

definition resolve_normalized_route_binding_match :: "pyval \<Rightarrow> binding_match option res" where
  "resolve_normalized_route_binding_match binding =
     (if \<not> truthy binding \<or> \<not> is_dict binding then Inr None
      else
        bind_res (py_get binding ''match'') (\<lambda>m.
        if \<not> truthy m \<or> \<not> is_dict m then Inr None
        else
          bind_res (py_get m ''channel'') (\<lambda>channel.
          case normalize_route_binding_channel_id channel of
            None \<Rightarrow> Inr None
          | Some channel_id \<Rightarrow>
              bind_res (py_get m ''accountId'') (\<lambda>acc.
              let account_id = (if is_str acc then py_strip (the_str acc) else []) in
              if account_id = [] \<or> account_id = ''*'' then Inr None
              else
                bind_res (py_get binding ''agentId'') (\<lambda>agent.
                bind_res (strip_arg agent) (\<lambda>agent_id.
                Inr (Some \<lparr>bm_agentId = normalize_agent_id agent_id,
                  bm_accountId = normalize_account_id (Some account_id),
                  bm_channelId = channel_id\<rparr>)))))))"

definition scope_id_matches :: "string option \<Rightarrow> string \<Rightarrow> string \<Rightarrow> bool" where
  "scope_id_matches constraint exact group_space =
     (case constraint of
        None \<Rightarrow> True
      | Some c \<Rightarrow> c = [] \<or> c = exact \<or> c = group_space)"

definition has_any_route_binding_role :: "pyval list \<Rightarrow> pyval list \<Rightarrow> bool" where
  "has_any_route_binding_role roles member_role_ids =
     (member_role_ids \<noteq> [] \<and> list_ex (\<lambda>r. r \<in> set member_role_ids) roles)"

record route_scope =
  rs_guildId :: pyval
  rs_teamId :: pyval
  rs_groupSpace :: pyval
  rs_memberRoleIds :: "pyval list"

definition route_binding_scope_matches ::
  "string option \<Rightarrow> string option \<Rightarrow> pyval \<Rightarrow> route_scope \<Rightarrow> bool" where
  "route_binding_scope_matches guild team roles scope =
     (let guild_id = normalize_route_binding_id (rs_guildId scope);
          team_id = normalize_route_binding_id (rs_teamId scope);
          group_space = normalize_route_binding_id (rs_groupSpace scope)
      in if \<not> scope_id_matches guild guild_id group_space then False
         else if \<not> scope_id_matches team team_id group_space then False
         else case normalize_route_binding_roles roles of
           None \<Rightarrow> True
         | Some rs \<Rightarrow> has_any_route_binding_role rs (rs_memberRoleIds scope))"

section \<open>Peer kinds\<close>

definition peer_kind_matches :: "string \<Rightarrow> string \<Rightarrow> bool" where
  "peer_kind_matches binding_kind scope_kind =
     (binding_kind = scope_kind
      \<or> (binding_kind = ''group'' \<and> scope_kind = ''channel'')
      \<or> (binding_kind = ''channel'' \<and> scope_kind = ''group''))"

section \<open>Lists of bindings\<close>

definition list_bindings :: "route_config \<Rightarrow> pyval list" where
  "list_bindings cfg =
     (case cf_bindings cfg of
        VList xs \<Rightarrow> xs
      | VDict d \<Rightarrow> concat (map (\<lambda>(k, v). case v of VList xs \<Rightarrow> xs | _ \<Rightarrow> [v]) d)
      | _ \<Rightarrow> [])"

definition resolve_default_agent_id :: "route_config \<Rightarrow> string" where
  "resolve_default_agent_id cfg =
     (case cf_agents cfg of
        VDict d \<Rightarrow>
          (case map_of d ''default'' of
             Some (VStr s) \<Rightarrow> (if py_strip s \<noteq> [] then py_strip s else ''main'')
           | _ \<Rightarrow> ''main'')
      | _ \<Rightarrow> ''main'')"

definition list_bound_account_ids :: "route_config \<Rightarrow> pyval \<Rightarrow> string list res" where
  "list_bound_account_ids cfg channel_id =
     (case normalize_route_binding_channel_id channel_id of
        None \<Rightarrow> Inr []
      | Some channel \<Rightarrow>
          bind_res (map_res resolve_normalized_route_binding_match (list_bindings cfg)) (\<lambda>rs.
          Inr (sort (remdups (List.map_filter (\<lambda>r. case r of
              Some m \<Rightarrow> (if bm_channelId m = channel then Some (bm_accountId m) else None)
            | None \<Rightarrow> None) rs)))))"

fun first_default_bound :: "string \<Rightarrow> string \<Rightarrow> pyval list \<Rightarrow> string option res" where
  "first_default_bound channel agent [] = Inr None"
| "first_default_bound channel agent (b # bs) =
     bind_res (resolve_normalized_route_binding_match b) (\<lambda>r.
     case r of
       Some m \<Rightarrow>
         (if bm_channelId m \<noteq> channel \<or> bm_agentId m \<noteq> agent then first_default_bound channel agent bs
          else Inr (Some (bm_accountId m)))
     | None \<Rightarrow> first_default_bound channel agent bs)"

definition resolve_default_agent_bound_account_id :: "route_config \<Rightarrow> pyval \<Rightarrow> string option res" where
  "resolve_default_agent_bound_account_id cfg channel_id =
     (case normalize_route_binding_channel_id channel_id of
        None \<Rightarrow> Inr None
      | Some channel \<Rightarrow>
          first_default_bound channel (normalize_agent_id (Some (resolve_default_agent_id cfg)))
            (list_bindings cfg))"

type_synonym channel_account_bindings = "(string, (string, string list) dict) dict"

definition add_channel_account ::
  "pyval \<Rightarrow> channel_account_bindings \<Rightarrow> channel_account_bindings res" where
  "add_channel_account binding result =
     bind_res (resolve_normalized_route_binding_match binding) (\<lambda>r.
     case r of
       None \<Rightarrow> Inr result
     | Some m \<Rightarrow>
         (let by_agent = (case dict_get result (bm_channelId m) of Some d \<Rightarrow> d | None \<Rightarrow> []);
              accounts = (case dict_get by_agent (bm_agentId m) of Some l \<Rightarrow> l | None \<Rightarrow> []);
              accounts' = (if bm_accountId m \<in> set accounts then accounts else accounts @ [bm_accountId m])
          in Inr (dict_set result (bm_channelId m) (dict_set by_agent (bm_agentId m) accounts'))))"

definition build_channel_account_bindings :: "route_config \<Rightarrow> channel_account_bindings res" where
  "build_channel_account_bindings cfg = fold_res add_channel_account (list_bindings cfg) []"

definition resolve_preferred_account_id :: "string list option \<Rightarrow> string option \<Rightarrow> string" where
  "resolve_preferred_account_id bound_accounts default_account =
     (case bound_accounts of Some (a # as) \<Rightarrow> a | _ \<Rightarrow> or_empty default_account)"

section \<open>The first bound account\<close>

record bound_match =
  bo_agentId :: string
  bo_accountId :: string
  bo_channelId :: string
  bo_peerId :: "string option"
  bo_peerKind :: "string option"
  bo_guildId :: "string option"
  bo_teamId :: "string option"
  bo_roles :: pyval

definition non_empty :: "string \<Rightarrow> string option" where
  "non_empty s = (if s = [] then None else Some s)"

definition resolve_normalized_bound_account_match :: "pyval \<Rightarrow> bound_match option res" where
  "resolve_normalized_bound_account_match binding =
     bind_res (resolve_normalized_route_binding_match binding) (\<lambda>base.
     bind_res (py_get binding ''match'') (\<lambda>m.
     case base of
       None \<Rightarrow> Inr None
     | Some b \<Rightarrow>
         (if \<not> truthy m \<or> \<not> is_dict m then Inr None
          else
            bind_res (py_get m ''peer'') (\<lambda>p.
            let peer = (if is_dict p then p else VNone);
                peer_id = (if truthy peer \<and> is_str (message_field peer ''id'')
                   then non_empty (py_strip (the_str (message_field peer ''id''))) else None)
            in bind_res (if truthy peer
                  then bind_res (strip_arg (message_field peer ''kind'')) (\<lambda>k. Inr (normalize_chat_type k))
                  else Inr None) (\<lambda>peer_kind.
               bind_res (py_get m ''guildId'') (\<lambda>guild.
               bind_res (py_get m ''teamId'') (\<lambda>team.
               bind_res (py_get m ''roles'') (\<lambda>roles.
               Inr (Some \<lparr>bo_agentId = bm_agentId b, bo_accountId = bm_accountId b,
                 bo_channelId = bm_channelId b, bo_peerId = peer_id, bo_peerKind = peer_kind,
                 bo_guildId = non_empty (normalize_route_binding_id guild),
                 bo_teamId = non_empty (normalize_route_binding_id team), bo_roles = roles\<rparr>)))))))))"

definition build_exact_peer_id_set :: "string option \<Rightarrow> pyval list option \<Rightarrow> string list" where
  "build_exact_peer_id_set peer_id aliases =
     (let p = py_strip (or_empty peer_id)
      in (if p \<noteq> [] then [p] else [])
         @ List.map_filter (\<lambda>a. if is_str a then non_empty (py_strip (the_str a)) else None)
             (case aliases of Some as \<Rightarrow> as | None \<Rightarrow> []))"

record first_bound_params =
  fb_channelId :: pyval
  fb_agentId :: "string option"
  fb_peerId :: pyval
  fb_exactPeerIdAliases :: "pyval list option"
  fb_peerKind :: "string option"
  fb_groupSpace :: pyval
  fb_memberRoleIds :: "pyval list"

text \<open>
  What one resolved binding means for the search: skipped, an exact match that ends it, a
  wildcard match or a match of the channel alone, both remembered when they are the first.
\<close>

datatype bound_verdict = BvSkip | BvExact | BvWildcard | BvChannelOnly

definition bound_verdict_of ::
  "string \<Rightarrow> string \<Rightarrow> string list \<Rightarrow> string option \<Rightarrow> first_bound_params \<Rightarrow> bound_match option
     \<Rightarrow> bound_verdict" where
  "bound_verdict_of channel agent exact_ids peer_kind p r =
     (case r of
        None \<Rightarrow> BvSkip
      | Some m \<Rightarrow>
          (if bo_channelId m \<noteq> channel \<or> bo_agentId m \<noteq> agent then BvSkip
           else if \<not> route_binding_scope_matches (bo_guildId m) (bo_teamId m) (bo_roles m)
               \<lparr>rs_guildId = VNone, rs_teamId = VNone, rs_groupSpace = fb_groupSpace p,
                rs_memberRoleIds = fb_memberRoleIds p\<rparr> then BvSkip
           else if exact_ids = [] then BvExact
           else if bo_peerId m = Some ''*'' then
             (case (bo_peerKind m, peer_kind) of
                (Some a, Some b) \<Rightarrow> if peer_kind_matches a b then BvWildcard else BvSkip
              | _ \<Rightarrow> BvSkip)
           else
             (case bo_peerId m of
                Some pid \<Rightarrow>
                  (case (bo_peerKind m, peer_kind) of
                     (Some a, Some b) \<Rightarrow>
                       if \<not> peer_kind_matches a b then BvSkip
                       else if pid \<in> set exact_ids then BvExact else BvSkip
                   | _ \<Rightarrow> if pid \<in> set exact_ids then BvExact else BvSkip)
              | None \<Rightarrow> BvChannelOnly)))"

fun first_bound_loop ::
  "(bound_match option \<Rightarrow> bound_verdict) \<Rightarrow> pyval list \<Rightarrow> string option \<Rightarrow> string option
     \<Rightarrow> string option res" where
  "first_bound_loop judge [] wildcard fallback =
     Inr (if wildcard \<noteq> None then wildcard else fallback)"
| "first_bound_loop judge (b # bs) wildcard fallback =
     bind_res (resolve_normalized_bound_account_match b) (\<lambda>r.
     case judge r of
       BvSkip \<Rightarrow> first_bound_loop judge bs wildcard fallback
     | BvExact \<Rightarrow> Inr (map_option bo_accountId r)
     | BvWildcard \<Rightarrow>
         first_bound_loop judge bs (if wildcard = None then map_option bo_accountId r else wildcard) fallback
     | BvChannelOnly \<Rightarrow>
         first_bound_loop judge bs wildcard (if fallback = None then map_option bo_accountId r else fallback))"

definition resolve_first_bound_account_id ::
  "route_config \<Rightarrow> first_bound_params \<Rightarrow> string option res" where
  "resolve_first_bound_account_id cfg p =
     (case normalize_route_binding_channel_id (fb_channelId p) of
        None \<Rightarrow> Inr None
      | Some channel \<Rightarrow>
          (let peer_id = (if is_str (fb_peerId p) then Some (py_strip (the_str (fb_peerId p))) else None);
               exact_ids = build_exact_peer_id_set peer_id (fb_exactPeerIdAliases p)
           in first_bound_loop
                (bound_verdict_of channel (normalize_agent_id (fb_agentId p)) exact_ids
                   (normalize_chat_type (fb_peerKind p)) p)
                (list_bindings cfg) None None))"

section \<open>Account lookup and warnings\<close>

definition resolve_account_entry :: "(string, 'a) dict option \<Rightarrow> string \<Rightarrow> 'a option" where
  "resolve_account_entry accounts account_id =
     (case accounts of
        None \<Rightarrow> None
      | Some d \<Rightarrow>
          (case dict_get d account_id of
             Some v \<Rightarrow> Some v
           | None \<Rightarrow>
               map_option snd (List.find (\<lambda>(k, v). normalize_lowercase_string_or_empty (VStr k)
                  = normalize_lowercase_string_or_empty (VStr account_id)) d)))"

definition resolve_normalized_account_entry ::
  "(string, 'a) dict option \<Rightarrow> string \<Rightarrow> (string \<Rightarrow> string) \<Rightarrow> 'a option" where
  "resolve_normalized_account_entry accounts account_id norm_fn =
     (case accounts of
        None \<Rightarrow> None
      | Some d \<Rightarrow>
          (if dict_get d account_id \<noteq> None \<and> \<not> is_blocked_object_key account_id then dict_get d account_id
           else
             map_option snd (List.find (\<lambda>(k, v). \<not> is_blocked_object_key k
                \<and> normalize_optional_account_id (Some k) \<noteq> None
                \<and> \<not> is_blocked_object_key (norm_fn k) \<and> norm_fn k = norm_fn account_id) d)))"

definition format_channel_default_account_path :: "string \<Rightarrow> string" where
  "format_channel_default_account_path channel_key = ''channels.'' @ channel_key @ ''.defaultAccount''"

definition format_channel_accounts_default_path :: "string \<Rightarrow> string" where
  "format_channel_accounts_default_path channel_key = ''channels.'' @ channel_key @ ''.accounts.default''"

definition format_set_explicit_default_instruction :: "string \<Rightarrow> string" where
  "format_set_explicit_default_instruction channel_key =
     ''Set '' @ format_channel_default_account_path channel_key @ '' or add ''
       @ format_channel_accounts_default_path channel_key"

definition format_set_explicit_default_to_configured_instruction :: "string \<Rightarrow> string" where
  "format_set_explicit_default_to_configured_instruction channel_key =
     ''Set '' @ format_channel_default_account_path channel_key @ '' to one of these accounts, or add ''
       @ format_channel_accounts_default_path channel_key"

section \<open>Facts\<close>

lemma scope_id_matches_None [simp]: "scope_id_matches None e g"
  by (simp add: scope_id_matches_def)

text \<open>The search against its specification over the resolved bindings.\<close>

definition first_with ::
  "(bound_match option \<Rightarrow> bound_verdict) \<Rightarrow> bound_verdict \<Rightarrow> bound_match option list \<Rightarrow> string option" where
  "first_with judge v rs = Option.bind (List.find (\<lambda>r. judge r = v) rs) (map_option bo_accountId)"

lemma first_with_Cons:
  "first_with judge v (r # rs) = (if judge r = v then map_option bo_accountId r else first_with judge v rs)"
  by (simp add: first_with_def)

lemma first_bound_loop_spec:
  assumes "map_res resolve_normalized_bound_account_match bs = Inr rs"
    and "judge None = BvSkip"
  shows "first_bound_loop judge bs w f = Inr
    (if first_with judge BvExact rs \<noteq> None then first_with judge BvExact rs
     else if w \<noteq> None then w
     else if first_with judge BvWildcard rs \<noteq> None then first_with judge BvWildcard rs
     else if f \<noteq> None then f
     else first_with judge BvChannelOnly rs)"
  using assms(1)
proof (induction bs arbitrary: rs w f)
  case Nil
  then show ?case by (auto simp: first_with_def)
next
  case (Cons b bs)
  then obtain r rs' where r: "resolve_normalized_bound_account_match b = Inr r"
    "map_res resolve_normalized_bound_account_match bs = Inr rs'" "rs = r # rs'"
    by (auto simp: bind_res_eq_Inr)
  have "judge r \<noteq> BvSkip \<Longrightarrow> \<exists>m. r = Some m"
    using assms(2) by (cases r) auto
  with r Cons.IH [OF r(2)] show ?case
    by (cases "judge r") (auto simp: first_with_Cons)
qed

lemma bound_verdict_None: "bound_verdict_of c a e k p None = BvSkip"
  by (simp add: bound_verdict_of_def)

section \<open>Properties\<close>

text \<open>
  The first bound account: when every binding can be read, an account whose binding matches
  the peer exactly wins over one with a wildcard peer, which wins over one bound to the channel
  alone, and among bindings of the same strength the first one wins, whatever their order is.
\<close>

theorem first_bound_account_precedence:
  assumes "normalize_route_binding_channel_id (fb_channelId p) = Some channel"
    and "map_res resolve_normalized_bound_account_match (list_bindings cfg) = Inr rs"
    and "judge = bound_verdict_of channel (normalize_agent_id (fb_agentId p))
      (build_exact_peer_id_set
         (if is_str (fb_peerId p) then Some (py_strip (the_str (fb_peerId p))) else None)
         (fb_exactPeerIdAliases p)) (normalize_chat_type (fb_peerKind p)) p"
  shows "resolve_first_bound_account_id cfg p = Inr
    (if first_with judge BvExact rs \<noteq> None then first_with judge BvExact rs
     else if first_with judge BvWildcard rs \<noteq> None then first_with judge BvWildcard rs
     else first_with judge BvChannelOnly rs)"
  using first_bound_loop_spec [OF assms(2), of judge None None] assms(1,3) bound_verdict_None
  by (simp add: resolve_first_bound_account_id_def Let_def)

definition demo_bound_binding :: "string \<Rightarrow> pyval \<Rightarrow> pyval" where
  "demo_bound_binding acc peer =
     VDict [(''agentId'', VStr ''main''), (''match'', VDict [(''channel'', VStr ''telegram''),
       (''accountId'', VStr acc), (''peer'', peer)])]"

definition demo_bound_config :: route_config where
  "demo_bound_config =
     \<lparr>cf_id = 1, cf_agents_ref = 0, cf_agents = VNone, cf_bindings_ref = 1,
      cf_bindings = VList [demo_bound_binding ''any'' VNone,
        demo_bound_binding ''one'' (VDict [(''kind'', VStr ''direct''), (''id'', VStr ''7'')])],
      cf_session_ref = 0, cf_session = None, cf_channels = VNone\<rparr>"

definition demo_bound_params :: first_bound_params where
  "demo_bound_params =
     \<lparr>fb_channelId = VStr ''telegram'', fb_agentId = Some ''main'', fb_peerId = VStr ''7'',
      fb_exactPeerIdAliases = None, fb_peerKind = Some ''direct'', fb_groupSpace = VNone,
      fb_memberRoleIds = []\<rparr>"

lemma demo_bound_resolved:
  "map_res resolve_normalized_bound_account_match (list_bindings demo_bound_config) = Inr
     [Some \<lparr>bo_agentId = ''main'', bo_accountId = ''any'', bo_channelId = ''telegram'', bo_peerId = None,
        bo_peerKind = None, bo_guildId = None, bo_teamId = None, bo_roles = VNone\<rparr>,
      Some \<lparr>bo_agentId = ''main'', bo_accountId = ''one'', bo_channelId = ''telegram'',
        bo_peerId = Some ''7'', bo_peerKind = Some ''direct'', bo_guildId = None, bo_teamId = None,
        bo_roles = VNone\<rparr>]"
  by code_simp

theorem first_bound_account_precedence_witness:
  "resolve_first_bound_account_id demo_bound_config demo_bound_params = Inr (Some ''one'')"
proof -
  have c: "normalize_route_binding_channel_id (fb_channelId demo_bound_params) = Some ''telegram''"
    by code_simp
  show ?thesis
    unfolding first_bound_account_precedence [OF c demo_bound_resolved refl] by code_simp
qed

end
