(* ===== verification/ResolveRoute.thy ===== *)
theory ResolveRoute
  imports RouteBindings
begin

text \<open>
  \<^verbatim>\<open>routing/resolve_route.py\<close>: the agent and the session that an inbound message is routed
  to. The bindings of a channel and account are evaluated, indexed and searched tier by tier; the
  agents, the evaluated bindings and the resolved routes are cached per configuration object. The
  three module-level caches are one state, \<open>route_caches\<close>, that every function takes and
  returns, on the error branches too.
\<close>

section \<open>Evaluated bindings\<close>

datatype peer_constraint =
    PcNone | PcInvalid | PcWildcardKind string | PcValid string string

record route_match =
  rm_accountPattern :: string
  rm_peer :: peer_constraint
  rm_guildId :: string
  rm_teamId :: string
  rm_roles :: "pyval list option"

record evaluated_binding =
  eb_agentId :: pyval
  eb_session :: pyval
  eb_match :: route_match
  eb_order :: nat

definition normalize_peer_constraint :: "pyval \<Rightarrow> peer_constraint res" where
  "normalize_peer_constraint peer =
     (if \<not> truthy peer then Inr PcNone
      else
        bind_res (py_get peer ''kind'') (\<lambda>k.
        bind_res (strip_arg k) (\<lambda>ks.
        bind_res (py_get peer ''id'') (\<lambda>i.
        let id_value = normalize_route_binding_id i in
        Inr (case normalize_chat_type ks of
               None \<Rightarrow> PcInvalid
             | Some kind \<Rightarrow>
                 (if id_value = [] then PcInvalid
                  else if id_value = ''*'' then PcWildcardKind kind
                  else PcValid kind id_value))))))"

text \<open>The argument is the dictionary \<open>match\<close>, or a value that is not true for a missing one.\<close>

definition normalize_binding_match :: "pyval \<Rightarrow> route_match res" where
  "normalize_binding_match m =
     (if \<not> truthy m then
        Inr \<lparr>rm_accountPattern = [], rm_peer = PcNone, rm_guildId = [], rm_teamId = [], rm_roles = None\<rparr>
      else
        bind_res (py_get m ''roles'') (\<lambda>roles.
        bind_res (bind_res (py_get m ''accountId'') strip_arg) (\<lambda>acc.
        bind_res (bind_res (py_get m ''peer'') normalize_peer_constraint) (\<lambda>peer.
        bind_res (py_get m ''guildId'') (\<lambda>guild.
        bind_res (py_get m ''teamId'') (\<lambda>team.
        Inr \<lparr>rm_accountPattern = py_strip (or_empty acc), rm_peer = peer,
             rm_guildId = normalize_route_binding_id guild,
             rm_teamId = normalize_route_binding_id team,
             rm_roles = normalize_route_binding_roles roles\<rparr>))))))"

definition resolve_account_pattern_key :: "string \<Rightarrow> string" where
  "resolve_account_pattern_key pat =
     (if py_strip pat = [] then DEFAULT_ACCOUNT_ID else normalize_account_id (Some pat))"

record binding_bucket =
  bk_byAccount :: "string \<rightharpoonup> evaluated_binding list"
  bk_byAnyAccount :: "evaluated_binding list"

type_synonym bindings_by_channel = "string \<rightharpoonup> binding_bucket"

definition add_to_bucket :: "evaluated_binding \<Rightarrow> binding_bucket \<Rightarrow> binding_bucket" where
  "add_to_bucket ev bucket =
     (if rm_accountPattern (eb_match ev) = ''*''
      then bucket\<lparr>bk_byAnyAccount := bk_byAnyAccount bucket @ [ev]\<rparr>
      else
        let key = resolve_account_pattern_key (rm_accountPattern (eb_match ev));
            old = (case bk_byAccount bucket key of Some l \<Rightarrow> l | None \<Rightarrow> [])
        in bucket\<lparr>bk_byAccount := (bk_byAccount bucket)(key \<mapsto> old @ [ev])\<rparr>)"

definition empty_bucket :: binding_bucket where
  "empty_bucket = \<lparr>bk_byAccount = Map.empty, bk_byAnyAccount = []\<rparr>"

definition add_evaluated_binding ::
  "pyval \<Rightarrow> bindings_by_channel \<times> nat \<Rightarrow> (bindings_by_channel \<times> nat) res" where
  "add_evaluated_binding binding st =
     (let (by_channel, order) = st in
      if \<not> truthy binding \<or> \<not> is_dict binding then Inr st
      else
        let match_obj = message_field binding ''match'';
            channel = (if is_dict match_obj
              then normalize_lowercase_string_or_empty (message_field match_obj ''channel'') else [])
        in if channel = [] then Inr st
           else
             bind_res (normalize_binding_match (if is_dict match_obj then match_obj else VNone)) (\<lambda>m.
             let ev = \<lparr>eb_agentId = message_field binding ''agentId'',
                       eb_session = message_field binding ''session'', eb_match = m, eb_order = order\<rparr>;
                 bucket = (case by_channel channel of Some b \<Rightarrow> b | None \<Rightarrow> empty_bucket)
             in Inr (by_channel(channel \<mapsto> add_to_bucket ev bucket), order + 1)))"

definition build_evaluated_bindings_by_channel :: "route_config \<Rightarrow> bindings_by_channel res" where
  "build_evaluated_bindings_by_channel cfg =
     bind_res (fold_res add_evaluated_binding (list_bindings cfg) (Map.empty, 0)) (\<lambda>st. Inr (fst st))"

fun merge_loop :: "evaluated_binding list \<Rightarrow> evaluated_binding list \<Rightarrow> evaluated_binding list" where
  "merge_loop [] bs = bs"
| "merge_loop as [] = as"
| "merge_loop (a # as) (b # bs) =
     (if eb_order a \<le> eb_order b then a # merge_loop as (b # bs) else b # merge_loop (a # as) bs)"

definition merge_evaluated_bindings_in_source_order ::
  "evaluated_binding list \<Rightarrow> evaluated_binding list \<Rightarrow> evaluated_binding list" where
  "merge_evaluated_bindings_in_source_order account_scoped any_account =
     (if account_scoped = [] then any_account
      else if any_account = [] then account_scoped
      else merge_loop account_scoped any_account)"

section \<open>The index\<close>

type_synonym index_map = "string \<rightharpoonup> evaluated_binding list"

definition push_to_index_map :: "index_map \<Rightarrow> string \<Rightarrow> evaluated_binding \<Rightarrow> index_map" where
  "push_to_index_map m key ev =
     (if key = [] then m
      else m(key \<mapsto> (case m key of Some l \<Rightarrow> l | None \<Rightarrow> []) @ [ev]))"

definition peer_lookup_keys :: "string \<Rightarrow> string \<Rightarrow> string list" where
  "peer_lookup_keys kind id_value =
     (if kind = ''group'' then [''group:'' @ id_value, ''channel:'' @ id_value]
      else if kind = ''channel'' then [''channel:'' @ id_value, ''group:'' @ id_value]
      else [kind @ '':'' @ id_value])"

record bindings_index =
  ix_byPeer :: index_map
  ix_byPeerWildcard :: "evaluated_binding list"
  ix_byGuildWithRoles :: index_map
  ix_byGuild :: index_map
  ix_byTeam :: index_map
  ix_byAccount :: "evaluated_binding list"
  ix_byChannel :: "evaluated_binding list"

definition empty_index :: bindings_index where
  "empty_index =
     \<lparr>ix_byPeer = Map.empty, ix_byPeerWildcard = [], ix_byGuildWithRoles = Map.empty,
      ix_byGuild = Map.empty, ix_byTeam = Map.empty, ix_byAccount = [], ix_byChannel = []\<rparr>"

definition index_binding :: "bindings_index \<Rightarrow> evaluated_binding \<Rightarrow> bindings_index" where
  "index_binding ix ev =
     (let m = eb_match ev in
      case rm_peer m of
        PcValid kind i \<Rightarrow>
          ix\<lparr>ix_byPeer := foldl (\<lambda>mp key. push_to_index_map mp key ev) (ix_byPeer ix) (peer_lookup_keys kind i)\<rparr>
      | PcWildcardKind kind \<Rightarrow> ix\<lparr>ix_byPeerWildcard := ix_byPeerWildcard ix @ [ev]\<rparr>
      | _ \<Rightarrow>
          (if rm_guildId m \<noteq> [] \<and> rm_roles m \<noteq> None
           then ix\<lparr>ix_byGuildWithRoles := push_to_index_map (ix_byGuildWithRoles ix) (rm_guildId m) ev\<rparr>
           else if rm_guildId m \<noteq> [] \<and> rm_roles m = None
           then ix\<lparr>ix_byGuild := push_to_index_map (ix_byGuild ix) (rm_guildId m) ev\<rparr>
           else if rm_teamId m \<noteq> []
           then ix\<lparr>ix_byTeam := push_to_index_map (ix_byTeam ix) (rm_teamId m) ev\<rparr>
           else if rm_accountPattern m \<noteq> ''*'' then ix\<lparr>ix_byAccount := ix_byAccount ix @ [ev]\<rparr>
           else ix\<lparr>ix_byChannel := ix_byChannel ix @ [ev]\<rparr>))"

definition build_evaluated_bindings_index :: "evaluated_binding list \<Rightarrow> bindings_index" where
  "build_evaluated_bindings_index bindings = foldl index_binding empty_index bindings"

section \<open>Caches\<close>

record agent_lookup =
  al_byNormalizedId :: "(string, string) dict"
  al_fallbackDefaultAgentId :: string

record agent_cache_entry =
  ac_agentsRef :: nat
  ac_lookup :: agent_lookup

record bindings_cache_entry =
  bc_bindingsRef :: nat
  bc_byChannel :: bindings_by_channel
  bc_byChannelAccount :: "(string, evaluated_binding list) dict"
  bc_byChannelAccountIndex :: "(string, bindings_index) dict"

datatype last_route_policy = PolicyMain | PolicySession

record resolved_route =
  ro_agentId :: string
  ro_channel :: string
  ro_accountId :: string
  ro_sessionKey :: string
  ro_mainSessionKey :: string
  ro_lastRoutePolicy :: last_route_policy
  ro_matchedBy :: string

record route_cache_entry =
  re_bindingsRef :: nat
  re_agentsRef :: nat
  re_sessionRef :: nat
  re_byKey :: "(string, resolved_route) dict"

record route_caches =
  rc_agents :: "nat \<rightharpoonup> agent_cache_entry"
  rc_bindings :: "nat \<rightharpoonup> bindings_cache_entry"
  rc_routes :: "nat \<rightharpoonup> route_cache_entry"

definition empty_caches :: route_caches where
  "empty_caches = \<lparr>rc_agents = Map.empty, rc_bindings = Map.empty, rc_routes = Map.empty\<rparr>"

definition MAX_EVALUATED_BINDINGS_CACHE_KEYS :: nat where
  "MAX_EVALUATED_BINDINGS_CACHE_KEYS = 2000"

definition MAX_RESOLVED_ROUTE_CACHE_KEYS :: nat where
  "MAX_RESOLVED_ROUTE_CACHE_KEYS = 4000"

section \<open>Agents\<close>

definition list_agents :: "route_config \<Rightarrow> pyval list" where
  "list_agents cfg =
     (case cf_agents cfg of
        VDict d \<Rightarrow> (case map_of d ''list'' of Some (VList xs) \<Rightarrow> xs | _ \<Rightarrow> [])
      | _ \<Rightarrow> [])"

definition add_agent :: "(string, string) dict \<Rightarrow> pyval \<Rightarrow> (string, string) dict" where
  "add_agent d agent =
     (let raw = (if is_dict agent then message_field agent ''id'' else VNone);
          raw_id = (if is_str raw then py_strip (the_str raw) else [])
      in if raw_id = [] then d
         else dict_set d (normalize_agent_id (Some raw_id)) (sanitize_agent_id (Some raw_id)))"

definition build_agent_lookup :: "route_config \<Rightarrow> agent_lookup" where
  "build_agent_lookup cfg =
     \<lparr>al_byNormalizedId = foldl add_agent [] (list_agents cfg),
      al_fallbackDefaultAgentId = sanitize_agent_id (Some (resolve_default_agent_id cfg))\<rparr>"

definition resolve_agent_lookup_cache ::
  "route_caches \<Rightarrow> route_config \<Rightarrow> agent_lookup \<times> route_caches" where
  "resolve_agent_lookup_cache c cfg =
     (case rc_agents c (cf_id cfg) of
        Some en \<Rightarrow>
          (if ac_agentsRef en = cf_agents_ref cfg then (ac_lookup en, c)
           else (build_agent_lookup cfg, c\<lparr>rc_agents := (rc_agents c)(cf_id cfg \<mapsto>
             \<lparr>ac_agentsRef = cf_agents_ref cfg, ac_lookup = build_agent_lookup cfg\<rparr>)\<rparr>))
      | None \<Rightarrow> (build_agent_lookup cfg, c\<lparr>rc_agents := (rc_agents c)(cf_id cfg \<mapsto>
             \<lparr>ac_agentsRef = cf_agents_ref cfg, ac_lookup = build_agent_lookup cfg\<rparr>)\<rparr>))"

definition pick_from_lookup :: "agent_lookup \<Rightarrow> string option \<Rightarrow> string" where
  "pick_from_lookup al agent_id =
     (let trimmed = py_strip (or_empty agent_id) in
      if trimmed = [] then al_fallbackDefaultAgentId al
      else if al_byNormalizedId al = [] then sanitize_agent_id (Some trimmed)
      else case dict_get (al_byNormalizedId al) (normalize_agent_id (Some trimmed)) of
             Some r \<Rightarrow> (if r \<noteq> [] then r else al_fallbackDefaultAgentId al)
           | None \<Rightarrow> al_fallbackDefaultAgentId al)"

definition pick_first_existing_agent_id ::
  "route_caches \<Rightarrow> route_config \<Rightarrow> pyval \<Rightarrow> string res \<times> route_caches" where
  "pick_first_existing_agent_id c cfg agent_id =
     (let (al, c') = resolve_agent_lookup_cache c cfg
      in (bind_res (strip_arg agent_id) (\<lambda>a. Inr (pick_from_lookup al a)), c'))"

section \<open>Cached bindings\<close>

definition tab_key :: "string \<Rightarrow> string \<Rightarrow> string" where
  "tab_key channel account_id = channel @ [CHR 0x09] @ account_id"

text \<open>The bindings of a channel and account, from the evaluated bindings of all channels.\<close>

definition evaluated_of :: "bindings_by_channel \<Rightarrow> string \<Rightarrow> string \<Rightarrow> evaluated_binding list" where
  "evaluated_of by_channel channel account_id =
     (case by_channel channel of
        None \<Rightarrow> merge_evaluated_bindings_in_source_order [] []
      | Some b \<Rightarrow>
          merge_evaluated_bindings_in_source_order
            (case bk_byAccount b account_id of Some l \<Rightarrow> l | None \<Rightarrow> []) (bk_byAnyAccount b))"

definition bindings_entry ::
  "route_caches \<Rightarrow> route_config \<Rightarrow> bindings_cache_entry res \<times> route_caches" where
  "bindings_entry c cfg =
     (let fresh =
        (case build_evaluated_bindings_by_channel cfg of
           Inl e \<Rightarrow> (Inl e, c)
         | Inr by_channel \<Rightarrow>
             (let en = \<lparr>bc_bindingsRef = cf_bindings_ref cfg, bc_byChannel = by_channel,
                        bc_byChannelAccount = [], bc_byChannelAccountIndex = []\<rparr>
              in (Inr en, c\<lparr>rc_bindings := (rc_bindings c)(cf_id cfg \<mapsto> en)\<rparr>)))
      in case rc_bindings c (cf_id cfg) of
           Some en \<Rightarrow> (if bc_bindingsRef en = cf_bindings_ref cfg then (Inr en, c) else fresh)
         | None \<Rightarrow> fresh)"

definition store_evaluated :: "bindings_cache_entry \<Rightarrow> string \<Rightarrow> evaluated_binding list \<Rightarrow> bindings_cache_entry" where
  "store_evaluated en key evaluated =
     (let ix = build_evaluated_bindings_index evaluated;
          en' = en\<lparr>bc_byChannelAccount := dict_set (bc_byChannelAccount en) key evaluated,
                   bc_byChannelAccountIndex := dict_set (bc_byChannelAccountIndex en) key ix\<rparr>
      in if length (bc_byChannelAccount en') > MAX_EVALUATED_BINDINGS_CACHE_KEYS
         then en\<lparr>bc_byChannelAccount := [(key, evaluated)], bc_byChannelAccountIndex := [(key, ix)]\<rparr>
         else en')"

definition get_evaluated_bindings_for_channel_account ::
  "route_caches \<Rightarrow> route_config \<Rightarrow> string \<Rightarrow> string \<Rightarrow> evaluated_binding list res \<times> route_caches" where
  "get_evaluated_bindings_for_channel_account c cfg channel account_id =
     (case bindings_entry c cfg of
        (Inl e, c') \<Rightarrow> (Inl e, c')
      | (Inr en, c') \<Rightarrow>
          (let key = tab_key channel account_id;
               evaluated = evaluated_of (bc_byChannel en) channel account_id;
               fresh = (Inr evaluated,
                 c'\<lparr>rc_bindings := (rc_bindings c')(cf_id cfg \<mapsto> store_evaluated en key evaluated)\<rparr>)
           in case dict_get (bc_byChannelAccount en) key of
                Some hit \<Rightarrow> (if hit \<noteq> [] then (Inr hit, c') else fresh)
              | None \<Rightarrow> fresh))"

definition get_evaluated_binding_index_for_channel_account ::
  "route_caches \<Rightarrow> route_config \<Rightarrow> string \<Rightarrow> string \<Rightarrow> bindings_index res \<times> route_caches" where
  "get_evaluated_binding_index_for_channel_account c cfg channel account_id =
     (case get_evaluated_bindings_for_channel_account c cfg channel account_id of
        (Inl e, c1) \<Rightarrow> (Inl e, c1)
      | (Inr _, c1) \<Rightarrow>
          (let key = tab_key channel account_id in
           case (case rc_bindings c1 (cf_id cfg) of
                   Some en \<Rightarrow> dict_get (bc_byChannelAccountIndex en) key | None \<Rightarrow> None) of
             Some indexed \<Rightarrow> (Inr indexed, c1)
           | None \<Rightarrow>
               (case get_evaluated_bindings_for_channel_account c1 cfg channel account_id of
                  (Inl e, c2) \<Rightarrow> (Inl e, c2)
                | (Inr evs, c2) \<Rightarrow>
                    (let built = build_evaluated_bindings_index evs
                     in (Inr built,
                         case rc_bindings c2 (cf_id cfg) of
                           None \<Rightarrow> c2
                         | Some en \<Rightarrow> c2\<lparr>rc_bindings := (rc_bindings c2)(cf_id cfg \<mapsto>
                             en\<lparr>bc_byChannelAccountIndex :=
                                  dict_set (bc_byChannelAccountIndex en) key built\<rparr>)\<rparr>)))))"

section \<open>The question that is asked\<close>

record route_peer_input =
  pi_kind :: string
  pi_id :: pyval

record route_input =
  in_channel :: "string option"
  in_accountId :: "string option"
  in_peer :: "route_peer_input option"
  in_parentPeer :: "route_peer_input option"
  in_guildId :: pyval
  in_teamId :: pyval
  in_memberRoleIds :: "string list"

text \<open>The normalised input, as the first lines of \<open>resolve_agent_route\<close> compute it.\<close>

record route_query =
  rq_channel :: string
  rq_accountId :: string
  rq_peer :: "route_peer option"
  rq_parentPeer :: "route_peer option"
  rq_guildId :: string
  rq_teamId :: string
  rq_memberRoleIds :: "string list"

definition normalize_peer_input :: "route_peer_input \<Rightarrow> route_peer" where
  "normalize_peer_input p =
     \<lparr>rp_kind = (case normalize_chat_type (Some (pi_kind p)) of Some k \<Rightarrow> k | None \<Rightarrow> pi_kind p),
      rp_id = normalize_route_binding_id (pi_id p)\<rparr>"

definition normalize_route_input :: "route_input \<Rightarrow> route_query" where
  "normalize_route_input i =
     \<lparr>rq_channel = normalize_token (in_channel i),
      rq_accountId = normalize_account_id (in_accountId i),
      rq_peer = map_option normalize_peer_input (in_peer i),
      rq_parentPeer = map_option normalize_peer_input (in_parentPeer i),
      rq_guildId = normalize_route_binding_id (in_guildId i),
      rq_teamId = normalize_route_binding_id (in_teamId i),
      rq_memberRoleIds = in_memberRoleIds i\<rparr>"

definition config_dm_scope :: "route_config \<Rightarrow> pyval" where
  "config_dm_scope cfg =
     (case Option.bind (cf_session cfg) sn_dmScope of Some v \<Rightarrow> v | None \<Rightarrow> VStr ''main'')"

definition config_identity_links :: "route_config \<Rightarrow> (string \<times> pyval) list option" where
  "config_identity_links cfg = Option.bind (cf_session cfg) sn_identityLinks"

section \<open>The cache key\<close>

definition format_route_cache_peer :: "route_peer option \<Rightarrow> string" where
  "format_route_cache_peer peer =
     (case peer of
        None \<Rightarrow> ''-''
      | Some p \<Rightarrow> (if rp_id p = [] then ''-'' else rp_kind p @ '':'' @ rp_id p))"

definition format_role_ids_cache_key :: "string list \<Rightarrow> string" where
  "format_role_ids_cache_key role_ids =
     (case role_ids of
        [] \<Rightarrow> ''-''
      | [a] \<Rightarrow> or_else a ''-''
      | [a, b] \<Rightarrow> (if a \<le> b then a @ '','' @ b else b @ '','' @ a)
      | _ \<Rightarrow> py_join '','' (sort role_ids))"

definition build_resolved_route_cache_key :: "route_query \<Rightarrow> pyval \<Rightarrow> string res" where
  "build_resolved_route_cache_key q dm_scope =
     bind_res (need_str dm_scope) (\<lambda>scope.
     Inr (py_join [CHR 0x09]
       [rq_channel q, rq_accountId q, format_route_cache_peer (rq_peer q),
        format_route_cache_peer (rq_parentPeer q), or_else (rq_guildId q) ''-'',
        or_else (rq_teamId q) ''-'', format_role_ids_cache_key (rq_memberRoleIds q), scope]))"

section \<open>Tiers\<close>

definition matches_binding_scope :: "route_match \<Rightarrow> route_query \<Rightarrow> route_peer option \<Rightarrow> bool" where
  "matches_binding_scope m q scope_peer =
     ((case rm_peer m of
         PcInvalid \<Rightarrow> False
       | PcValid kind i \<Rightarrow>
           (case scope_peer of
              None \<Rightarrow> False
            | Some p \<Rightarrow> peer_kind_matches kind (rp_kind p) \<and> rp_id p = i)
       | PcWildcardKind kind \<Rightarrow>
           (case scope_peer of None \<Rightarrow> False | Some p \<Rightarrow> peer_kind_matches kind (rp_kind p))
       | PcNone \<Rightarrow> True)
      \<and> route_binding_scope_matches (Some (rm_guildId m)) (Some (rm_teamId m))
           (case rm_roles m of Some rs \<Rightarrow> VList rs | None \<Rightarrow> VNone)
           \<lparr>rs_guildId = VStr (rq_guildId q), rs_teamId = VStr (rq_teamId q), rs_groupSpace = VNone,
            rs_memberRoleIds = map VStr (rq_memberRoleIds q)\<rparr>)"

text \<open>
  The loop over the lookup keys keeps the first occurrence of each evaluated binding; the objects
  are told apart by their order numbers, which are distinct within one evaluation.
\<close>

fun add_unseen :: "evaluated_binding list \<Rightarrow> evaluated_binding list \<Rightarrow> evaluated_binding list" where
  "add_unseen out [] = out"
| "add_unseen out (m # ms) =
     add_unseen (if eb_order m \<in> set (map eb_order out) then out else out @ [m]) ms"

definition collect_peer_indexed_bindings ::
  "bindings_index \<Rightarrow> route_peer option \<Rightarrow> evaluated_binding list" where
  "collect_peer_indexed_bindings ix peer =
     (case peer of
        None \<Rightarrow> []
      | Some p \<Rightarrow>
          foldl (\<lambda>out key. add_unseen out (case ix_byPeer ix key of Some l \<Rightarrow> l | None \<Rightarrow> []))
            [] (peer_lookup_keys (rp_kind p) (rp_id p)))"

record tier =
  ti_matchedBy :: string
  ti_enabled :: bool
  ti_scopePeer :: "route_peer option"
  ti_candidates :: "evaluated_binding list"
  ti_predicate :: "evaluated_binding \<Rightarrow> bool"

definition is_valid_peer :: "evaluated_binding \<Rightarrow> bool" where
  "is_valid_peer e = (case rm_peer (eb_match e) of PcValid k i \<Rightarrow> True | _ \<Rightarrow> False)"

definition is_wildcard_peer :: "evaluated_binding \<Rightarrow> bool" where
  "is_wildcard_peer e = (case rm_peer (eb_match e) of PcWildcardKind k \<Rightarrow> True | _ \<Rightarrow> False)"

definition has_guild :: "evaluated_binding \<Rightarrow> bool" where
  "has_guild e = (rm_guildId (eb_match e) \<noteq> [])"

definition has_team :: "evaluated_binding \<Rightarrow> bool" where
  "has_team e = (rm_teamId (eb_match e) \<noteq> [])"

definition has_roles :: "evaluated_binding \<Rightarrow> bool" where
  "has_roles e = (rm_roles (eb_match e) \<noteq> None)"

definition any_account :: "evaluated_binding \<Rightarrow> bool" where
  "any_account e = (rm_accountPattern (eb_match e) = ''*'')"

definition lookup_index :: "index_map \<Rightarrow> string \<Rightarrow> evaluated_binding list" where
  "lookup_index m key = (if key = [] then [] else case m key of Some l \<Rightarrow> l | None \<Rightarrow> [])"

definition usable_parent :: "route_query \<Rightarrow> route_peer option" where
  "usable_parent q =
     (case rq_parentPeer q of Some p \<Rightarrow> (if rp_id p = [] then None else Some p) | None \<Rightarrow> None)"

definition route_tiers :: "route_query \<Rightarrow> bindings_index \<Rightarrow> tier list" where
  "route_tiers q ix =
     [\<lparr>ti_matchedBy = ''binding.peer'', ti_enabled = (rq_peer q \<noteq> None), ti_scopePeer = rq_peer q,
       ti_candidates = collect_peer_indexed_bindings ix (rq_peer q), ti_predicate = is_valid_peer\<rparr>,
      \<lparr>ti_matchedBy = ''binding.peer.parent'', ti_enabled = (usable_parent q \<noteq> None),
       ti_scopePeer = usable_parent q,
       ti_candidates = collect_peer_indexed_bindings ix (rq_parentPeer q), ti_predicate = is_valid_peer\<rparr>,
      \<lparr>ti_matchedBy = ''binding.peer.wildcard'', ti_enabled = (rq_peer q \<noteq> None),
       ti_scopePeer = rq_peer q, ti_candidates = ix_byPeerWildcard ix, ti_predicate = is_wildcard_peer\<rparr>,
      \<lparr>ti_matchedBy = ''binding.guild+roles'',
       ti_enabled = (rq_guildId q \<noteq> [] \<and> rq_memberRoleIds q \<noteq> []), ti_scopePeer = rq_peer q,
       ti_candidates = lookup_index (ix_byGuildWithRoles ix) (rq_guildId q),
       ti_predicate = (\<lambda>e. has_guild e \<and> has_roles e)\<rparr>,
      \<lparr>ti_matchedBy = ''binding.guild'', ti_enabled = (rq_guildId q \<noteq> []), ti_scopePeer = rq_peer q,
       ti_candidates = lookup_index (ix_byGuild ix) (rq_guildId q),
       ti_predicate = (\<lambda>e. has_guild e \<and> \<not> has_roles e)\<rparr>,
      \<lparr>ti_matchedBy = ''binding.team'', ti_enabled = (rq_teamId q \<noteq> []), ti_scopePeer = rq_peer q,
       ti_candidates = lookup_index (ix_byTeam ix) (rq_teamId q), ti_predicate = has_team\<rparr>,
      \<lparr>ti_matchedBy = ''binding.account'', ti_enabled = True, ti_scopePeer = rq_peer q,
       ti_candidates = ix_byAccount ix, ti_predicate = (\<lambda>e. \<not> any_account e)\<rparr>,
      \<lparr>ti_matchedBy = ''binding.channel'', ti_enabled = True, ti_scopePeer = rq_peer q,
       ti_candidates = ix_byChannel ix, ti_predicate = any_account\<rparr>]"

definition tier_match :: "route_query \<Rightarrow> tier \<Rightarrow> evaluated_binding option" where
  "tier_match q t =
     (if \<not> ti_enabled t then None
      else List.find (\<lambda>e. ti_predicate t e \<and> matches_binding_scope (eb_match e) q (ti_scopePeer t))
             (ti_candidates t))"

fun first_tier_match :: "route_query \<Rightarrow> tier list \<Rightarrow> (evaluated_binding \<times> string) option" where
  "first_tier_match q [] = None"
| "first_tier_match q (t # ts) =
     (case tier_match q t of Some e \<Rightarrow> Some (e, ti_matchedBy t) | None \<Rightarrow> first_tier_match q ts)"

section \<open>The route\<close>

definition derive_last_route_policy :: "string \<Rightarrow> string \<Rightarrow> last_route_policy" where
  "derive_last_route_policy session_key main_session_key =
     (if session_key = main_session_key then PolicyMain else PolicySession)"

definition resolve_inbound_last_route_session_key :: "resolved_route \<Rightarrow> string \<Rightarrow> string" where
  "resolve_inbound_last_route_session_key route session_key =
     (if ro_lastRoutePolicy route = PolicyMain then ro_mainSessionKey route else session_key)"

text \<open>\<open>build_agent_session_key\<close> of this module: the peer's id is normalised as a binding id.\<close>

definition build_route_session_key ::
  "string \<Rightarrow> string \<Rightarrow> string \<Rightarrow> route_peer option \<Rightarrow> pyval \<Rightarrow> (string \<times> pyval) list option \<Rightarrow> string" where
  "build_route_session_key agent_id channel account_id peer dm_scope links =
     build_agent_peer_session_key
       \<lparr>pk_agentId = Some agent_id, pk_mainKey = Some DEFAULT_MAIN_KEY,
        pk_channel = Some (or_else (normalize_token (Some channel)) ''unknown''),
        pk_accountId = Some account_id,
        pk_peerKind = (case peer of Some p \<Rightarrow> Some (rp_kind p) | None \<Rightarrow> Some ''direct''),
        pk_peerId = (case peer of
            Some p \<Rightarrow> Some (or_else (normalize_route_binding_id (VStr (rp_id p))) ''unknown'') | None \<Rightarrow> None),
        pk_dmScope = dm_scope, pk_identityLinks = links\<rparr>"

text \<open>The route that \<open>choose\<close> builds once the agent is known.\<close>

definition make_route ::
  "route_config \<Rightarrow> route_query \<Rightarrow> string \<Rightarrow> string \<Rightarrow> pyval \<Rightarrow> resolved_route" where
  "make_route cfg q matched_by agent_id dm_scope =
     (let session_key = build_route_session_key agent_id (rq_channel q) (rq_accountId q) (rq_peer q)
            dm_scope (config_identity_links cfg);
          main_session_key = normalize_lowercase_string_or_empty
            (VStr (build_agent_main_session_key (Some agent_id) (Some DEFAULT_MAIN_KEY)))
      in \<lparr>ro_agentId = agent_id, ro_channel = rq_channel q, ro_accountId = rq_accountId q,
          ro_sessionKey = session_key, ro_mainSessionKey = main_session_key,
          ro_lastRoutePolicy = derive_last_route_policy session_key main_session_key,
          ro_matchedBy = matched_by\<rparr>)"

definition effective_dm_scope :: "route_config \<Rightarrow> pyval \<Rightarrow> pyval res" where
  "effective_dm_scope cfg override =
     (if truthy override then py_get_default override ''dmScope'' (config_dm_scope cfg)
      else Inr (config_dm_scope cfg))"

text \<open>What the tiers decide: the agent id, the tier's name and the session override to choose.\<close>

definition decide :: "route_config \<Rightarrow> route_query \<Rightarrow> bindings_index \<Rightarrow> pyval \<times> string \<times> pyval" where
  "decide cfg q ix =
     (case first_tier_match q (route_tiers q ix) of
        Some (e, matched_by) \<Rightarrow> (eb_agentId e, matched_by, eb_session e)
      | None \<Rightarrow> (VStr (resolve_default_agent_id cfg), ''default'', VNone))"

definition routes_entry :: "route_caches \<Rightarrow> route_config \<Rightarrow> (string, resolved_route) dict \<times> route_caches" where
  "routes_entry c cfg =
     (let fresh = ([], c\<lparr>rc_routes := (rc_routes c)(cf_id cfg \<mapsto>
            \<lparr>re_bindingsRef = cf_bindings_ref cfg, re_agentsRef = cf_agents_ref cfg,
             re_sessionRef = cf_session_ref cfg, re_byKey = []\<rparr>)\<rparr>)
      in case rc_routes c (cf_id cfg) of
           Some en \<Rightarrow>
             (if re_bindingsRef en = cf_bindings_ref cfg \<and> re_agentsRef en = cf_agents_ref cfg
                 \<and> re_sessionRef en = cf_session_ref cfg
              then (re_byKey en, c) else fresh)
         | None \<Rightarrow> fresh)"

definition store_route :: "route_caches \<Rightarrow> route_config \<Rightarrow> string \<Rightarrow> resolved_route \<Rightarrow> route_caches" where
  "store_route c cfg key route =
     (case rc_routes c (cf_id cfg) of
        None \<Rightarrow> c
      | Some en \<Rightarrow>
          (let d = dict_set (re_byKey en) key route;
               d' = (if length d > MAX_RESOLVED_ROUTE_CACHE_KEYS then [(key, route)] else d)
           in c\<lparr>rc_routes := (rc_routes c)(cf_id cfg \<mapsto> en\<lparr>re_byKey := d'\<rparr>)\<rparr>))"

text \<open>\<open>choose\<close>; \<open>key\<close> is \<^term>\<open>None\<close> where the routes are not cached.\<close>

definition choose_route ::
  "route_caches \<Rightarrow> route_config \<Rightarrow> route_query \<Rightarrow> string option \<Rightarrow> pyval \<times> string \<times> pyval
     \<Rightarrow> resolved_route res \<times> route_caches" where
  "choose_route c cfg q key decision =
     (let (agent, matched_by, override) = decision;
          (picked, c1) = pick_first_existing_agent_id c cfg agent
      in case bind_res picked (\<lambda>agent_id.
                bind_res (effective_dm_scope cfg override) (\<lambda>scope.
                Inr (make_route cfg q matched_by agent_id scope))) of
           Inl e \<Rightarrow> (Inl e, c1)
         | Inr route \<Rightarrow>
             (Inr route, case key of Some k \<Rightarrow> store_route c1 cfg k route | None \<Rightarrow> c1))"

definition resolve_uncached_part ::
  "route_caches \<Rightarrow> route_config \<Rightarrow> route_query \<Rightarrow> string option \<Rightarrow> resolved_route res \<times> route_caches" where
  "resolve_uncached_part c cfg q key =
     (case get_evaluated_bindings_for_channel_account c cfg (rq_channel q) (rq_accountId q) of
        (Inl e, c1) \<Rightarrow> (Inl e, c1)
      | (Inr _, c1) \<Rightarrow>
          (case get_evaluated_binding_index_for_channel_account c1 cfg (rq_channel q) (rq_accountId q) of
             (Inl e, c2) \<Rightarrow> (Inl e, c2)
           | (Inr ix, c2) \<Rightarrow> choose_route c2 cfg q key (decide cfg q ix)))"

definition resolve_agent_route ::
  "route_caches \<Rightarrow> route_config \<Rightarrow> route_input \<Rightarrow> resolved_route res \<times> route_caches" where
  "resolve_agent_route c cfg inp =
     (let q = normalize_route_input inp in
      if config_identity_links cfg \<noteq> None \<and> config_identity_links cfg \<noteq> Some []
      then resolve_uncached_part c cfg q None
      else
        let (by_key, c1) = routes_entry c cfg in
        case build_resolved_route_cache_key q (config_dm_scope cfg) of
          Inl e \<Rightarrow> (Inl e, c1)
        | Inr key \<Rightarrow>
            (case dict_get by_key key of
               Some cached \<Rightarrow> (Inr cached, c1)
             | None \<Rightarrow> resolve_uncached_part c1 cfg q (Some key)))"

end
