(* ===== verification/RouteSpec.thy ===== *)
theory RouteSpec
  imports ResolveRoute
begin

text \<open>
  What the router promises, and that its buckets, its merge and its index implement it. The
  specification goes through the configured bindings in the order of the configuration: the
  bindings that apply to a channel and account are a sublist of them, and a route is decided by
  the first tier for which one of them matches, and by the first binding that does.
\<close>

section \<open>Bindings in source order\<close>

fun eval_all :: "pyval list \<Rightarrow> nat \<Rightarrow> (string \<times> evaluated_binding) list res" where
  "eval_all [] n = Inr []"
| "eval_all (b # bs) n =
     (let match_obj = message_field b ''match'';
          channel = (if is_dict match_obj
            then normalize_lowercase_string_or_empty (message_field match_obj ''channel'') else [])
      in if \<not> truthy b \<or> \<not> is_dict b \<or> channel = [] then eval_all bs n
         else
           bind_res (normalize_binding_match match_obj) (\<lambda>m.
           bind_res (eval_all bs (n + 1)) (\<lambda>es.
           Inr ((channel, \<lparr>eb_agentId = message_field b ''agentId'', eb_session = message_field b ''session'',
             eb_match = m, eb_order = n\<rparr>) # es))))"

definition account_key :: "evaluated_binding \<Rightarrow> string" where
  "account_key e = resolve_account_pattern_key (rm_accountPattern (eb_match e))"

definition applies_to :: "string \<Rightarrow> string \<Rightarrow> string \<times> evaluated_binding \<Rightarrow> bool" where
  "applies_to channel account ce \<longleftrightarrow>
     fst ce = channel \<and> (any_account (snd ce) \<or> account_key (snd ce) = account)"

definition applicable_bindings ::
  "route_config \<Rightarrow> string \<Rightarrow> string \<Rightarrow> evaluated_binding list res" where
  "applicable_bindings cfg channel account =
     bind_res (eval_all (list_bindings cfg) 0) (\<lambda>all.
     Inr (map snd (filter (applies_to channel account) all)))"

definition account_list :: "bindings_by_channel \<Rightarrow> string \<Rightarrow> string \<Rightarrow> evaluated_binding list" where
  "account_list by_channel channel k =
     (case by_channel channel of
        None \<Rightarrow> []
      | Some b \<Rightarrow> (case bk_byAccount b k of Some l \<Rightarrow> l | None \<Rightarrow> []))"

definition any_list :: "bindings_by_channel \<Rightarrow> string \<Rightarrow> evaluated_binding list" where
  "any_list by_channel channel =
     (case by_channel channel of None \<Rightarrow> [] | Some b \<Rightarrow> bk_byAnyAccount b)"

lemma evaluated_of_lists:
  "evaluated_of by ch acc =
     merge_evaluated_bindings_in_source_order (account_list by ch acc) (any_list by ch)"
  by (auto simp: evaluated_of_def account_list_def any_list_def split: option.splits)

lemma merge_loop_Nil [simp]: "merge_loop as [] = as"
  by (cases as) simp_all

lemma merge_is_loop: "merge_evaluated_bindings_in_source_order as bs = merge_loop as bs"
  by (simp add: merge_evaluated_bindings_in_source_order_def)

text \<open>Merging two sublists of a list that is sorted by order number gives their union.\<close>

lemma merge_filters:
  assumes "sorted_wrt (<) (map (eb_order \<circ> snd) xs)" "\<And>x. x \<in> set xs \<Longrightarrow> \<not> (P x \<and> Q x)"
  shows "merge_loop (map snd (filter P xs)) (map snd (filter Q xs))
    = map snd (filter (\<lambda>x. P x \<or> Q x) xs)"
  using assms
proof (induction xs)
  case (Cons x xs)
  have later: "eb_order (snd x) < eb_order (snd y)" if "y \<in> set xs" for y
    using Cons.prems(1) that by auto
  have IH: "merge_loop (map snd (filter P xs)) (map snd (filter Q xs))
    = map snd (filter (\<lambda>x. P x \<or> Q x) xs)"
    using Cons by auto
  consider "P x" "\<not> Q x" | "\<not> P x" "Q x" | "\<not> P x" "\<not> Q x"
    using Cons.prems(2) [of x] by auto
  then show ?case
  proof cases
    case 1
    show ?thesis
    proof (cases "filter Q xs")
      case Nil
      with 1 IH show ?thesis by simp
    next
      case (Cons y ys)
      then have "y \<in> set xs" by (metis filter_eq_ConsD in_set_conv_decomp)
      with later have "eb_order (snd x) \<le> eb_order (snd y)" by fastforce
      with 1 Cons IH show ?thesis by simp
    qed
  next
    case 2
    show ?thesis
    proof (cases "filter P xs")
      case Nil
      with 2 IH show ?thesis by simp
    next
      case (Cons y ys)
      then have "y \<in> set xs" by (metis filter_eq_ConsD in_set_conv_decomp)
      with later have "\<not> eb_order (snd y) \<le> eb_order (snd x)" by fastforce
      with 2 Cons IH show ?thesis by simp
    qed
  next
    case 3
    with IH show ?thesis by simp
  qed
qed simp

lemma add_to_bucket_lists:
  "account_list (by(ch \<mapsto> add_to_bucket ev (case by ch of Some b \<Rightarrow> b | None \<Rightarrow> empty_bucket))) ch' k
     = (if ch' = ch \<and> \<not> any_account ev \<and> account_key ev = k
        then account_list by ch' k @ [ev] else account_list by ch' k)"
  "any_list (by(ch \<mapsto> add_to_bucket ev (case by ch of Some b \<Rightarrow> b | None \<Rightarrow> empty_bucket))) ch'
     = (if ch' = ch \<and> any_account ev then any_list by ch' @ [ev] else any_list by ch')"
  by (auto simp: account_list_def any_list_def add_to_bucket_def any_account_def account_key_def
      empty_bucket_def Let_def split: option.splits)

lemma fold_add_evaluated:
  assumes "\<And>ch k. account_list by0 ch k
      = map snd (filter (\<lambda>ce. fst ce = ch \<and> \<not> any_account (snd ce) \<and> account_key (snd ce) = k) pre)"
    and "\<And>ch. any_list by0 ch = map snd (filter (\<lambda>ce. fst ce = ch \<and> any_account (snd ce)) pre)"
  shows "bind_res (fold_res add_evaluated_binding bs (by0, n)) (\<lambda>st. Inr (account_list (fst st), any_list (fst st)))
    = bind_res (eval_all bs n) (\<lambda>all. Inr
        (\<lambda>ch k. map snd (filter (\<lambda>ce. fst ce = ch \<and> \<not> any_account (snd ce) \<and> account_key (snd ce) = k) (pre @ all)),
         \<lambda>ch. map snd (filter (\<lambda>ce. fst ce = ch \<and> any_account (snd ce)) (pre @ all))))"
  using assms
proof (induction bs arbitrary: by0 n pre)
  case Nil
  then show ?case by (simp add: fun_eq_iff)
next
  case (Cons b bs)
  let ?mo = "message_field b ''match''"
  let ?ch = "if is_dict ?mo then normalize_lowercase_string_or_empty (message_field ?mo ''channel'') else []"
  show ?case
  proof (cases "\<not> truthy b \<or> \<not> is_dict b \<or> ?ch = []")
    case True
    then have "add_evaluated_binding b (by0, n) = Inr (by0, n)"
      by (auto simp: add_evaluated_binding_def Let_def)
    moreover have "eval_all (b # bs) n = eval_all bs n"
      using True by (simp only: eval_all.simps Let_def if_True)
    ultimately show ?thesis
      using Cons.IH [OF Cons.prems] by simp
  next
    case False
    then have d: "is_dict ?mo" by (auto split: if_split_asm)
    show ?thesis
    proof (cases "normalize_binding_match ?mo")
      case (Inl e)
      with False d show ?thesis
        by (simp add: add_evaluated_binding_def Let_def)
    next
      case (Inr m)
      let ?ev = "\<lparr>eb_agentId = message_field b ''agentId'', eb_session = message_field b ''session'',
        eb_match = m, eb_order = n\<rparr>"
      let ?by = "by0(?ch \<mapsto> add_to_bucket ?ev (case by0 ?ch of Some b \<Rightarrow> b | None \<Rightarrow> empty_bucket))"
      have 1: "add_evaluated_binding b (by0, n) = Inr (?by, n + 1)"
        using False d Inr by (simp add: add_evaluated_binding_def Let_def)
      have 2: "eval_all (b # bs) n = bind_res (eval_all bs (n + 1)) (\<lambda>es. Inr ((?ch, ?ev) # es))"
        using False d Inr by (simp add: Let_def)
      have "bind_res (fold_res add_evaluated_binding bs (?by, n + 1))
          (\<lambda>st. Inr (account_list (fst st), any_list (fst st)))
        = bind_res (eval_all bs (n + 1)) (\<lambda>all. Inr
          (\<lambda>ch k. map snd (filter (\<lambda>ce. fst ce = ch \<and> \<not> any_account (snd ce) \<and> account_key (snd ce) = k)
             ((pre @ [(?ch, ?ev)]) @ all)),
           \<lambda>ch. map snd (filter (\<lambda>ce. fst ce = ch \<and> any_account (snd ce)) ((pre @ [(?ch, ?ev)]) @ all))))"
        by (rule Cons.IH) (auto simp: add_to_bucket_lists Cons.prems simp del: fun_upd_apply)
      then show ?thesis
        unfolding fold_res.simps 1 2 bind_res_Inr bind_res_assoc by simp
    qed
  qed
qed

lemma eval_all_orders:
  "eval_all bs n = Inr all \<Longrightarrow> sorted_wrt (<) (map (eb_order \<circ> snd) all)
     \<and> (\<forall>ce\<in>set all. n \<le> eb_order (snd ce))"
proof (induction bs arbitrary: n all)
  case (Cons b bs)
  let ?mo = "message_field b ''match''"
  let ?ch = "if is_dict ?mo then normalize_lowercase_string_or_empty (message_field ?mo ''channel'') else []"
  show ?case
  proof (cases "\<not> truthy b \<or> \<not> is_dict b \<or> ?ch = []")
    case True
    then have "eval_all (b # bs) n = eval_all bs n"
      by (simp only: eval_all.simps Let_def if_True)
    with Cons.prems Cons.IH show ?thesis by metis
  next
    case False
    then have "eval_all (b # bs) n =
        bind_res (normalize_binding_match ?mo) (\<lambda>m. bind_res (eval_all bs (n + 1)) (\<lambda>es.
          Inr ((?ch, \<lparr>eb_agentId = message_field b ''agentId'', eb_session = message_field b ''session'',
             eb_match = m, eb_order = n\<rparr>) # es)))"
      by (simp only: eval_all.simps Let_def if_False)
    with Cons.prems obtain m es where es: "eval_all bs (n + 1) = Inr es"
      "all = (?ch, \<lparr>eb_agentId = message_field b ''agentId'', eb_session = message_field b ''session'',
             eb_match = m, eb_order = n\<rparr>) # es"
      by (auto simp: bind_res_eq_Inr simp del: eval_all.simps)
    from Cons.IH [OF es(1)] show ?thesis
      unfolding es(2) by fastforce
  qed
qed simp

lemma evaluated_is_applicable:
  "bind_res (build_evaluated_bindings_by_channel cfg) (\<lambda>by. Inr (evaluated_of by ch acc))
   = applicable_bindings cfg ch acc"
proof -
  have "bind_res (fold_res add_evaluated_binding (list_bindings cfg) (Map.empty, 0))
      (\<lambda>st. Inr (account_list (fst st), any_list (fst st)))
    = bind_res (eval_all (list_bindings cfg) 0) (\<lambda>all. Inr
        (\<lambda>ch k. map snd (filter (\<lambda>ce. fst ce = ch \<and> \<not> any_account (snd ce) \<and> account_key (snd ce) = k) ([] @ all)),
         \<lambda>ch. map snd (filter (\<lambda>ce. fst ce = ch \<and> any_account (snd ce)) ([] @ all))))"
    by (rule fold_add_evaluated) (simp_all add: account_list_def any_list_def)
  then have f: "bind_res (bind_res (fold_res add_evaluated_binding (list_bindings cfg) (Map.empty, 0))
      (\<lambda>st. Inr (account_list (fst st), any_list (fst st)))) (\<lambda>(a, y). Inr (merge_loop (a ch acc) (y ch)))
    = bind_res (bind_res (eval_all (list_bindings cfg) 0) (\<lambda>all. Inr
        (\<lambda>ch k. map snd (filter (\<lambda>ce. fst ce = ch \<and> \<not> any_account (snd ce) \<and> account_key (snd ce) = k) all),
         \<lambda>ch. map snd (filter (\<lambda>ce. fst ce = ch \<and> any_account (snd ce)) all))))
      (\<lambda>(a, y). Inr (merge_loop (a ch acc) (y ch)))"
    by simp
  have m: "merge_loop (map snd (filter (\<lambda>ce. fst ce = ch \<and> \<not> any_account (snd ce) \<and> account_key (snd ce) = acc) all))
      (map snd (filter (\<lambda>ce. fst ce = ch \<and> any_account (snd ce)) all))
    = map snd (filter (applies_to ch acc) all)"
    if "eval_all (list_bindings cfg) 0 = Inr all" for all
  proof -
    have "(\<lambda>ce. (fst ce = ch \<and> \<not> any_account (snd ce) \<and> account_key (snd ce) = acc)
        \<or> (fst ce = ch \<and> any_account (snd ce))) = applies_to ch acc"
      by (auto simp: applies_to_def fun_eq_iff)
    with merge_filters [of all "\<lambda>ce. fst ce = ch \<and> \<not> any_account (snd ce) \<and> account_key (snd ce) = acc"
        "\<lambda>ce. fst ce = ch \<and> any_account (snd ce)"] eval_all_orders [OF that]
    show ?thesis by auto
  qed
  show ?thesis
    using f m
    by (cases "eval_all (list_bindings cfg) 0")
       (simp_all add: build_evaluated_bindings_by_channel_def applicable_bindings_def bind_res_assoc
         evaluated_of_lists merge_is_loop)
qed

section \<open>The index and the scan\<close>

text \<open>
  The tiers with every binding as a candidate. A binding with a peer, a guild or a team is not a
  candidate of the later tiers of the index: the theorem below says that none is missed, since an
  earlier tier has already matched such a binding.
\<close>

definition scan_tiers :: "route_query \<Rightarrow> evaluated_binding list \<Rightarrow> tier list" where
  "scan_tiers q bs = map (\<lambda>t. t\<lparr>ti_candidates := bs\<rparr>) (route_tiers q empty_index)"

definition entries :: "index_map \<Rightarrow> string \<Rightarrow> evaluated_binding list" where
  "entries m key = (case m key of Some l \<Rightarrow> l | None \<Rightarrow> [])"

definition peer_keys :: "evaluated_binding \<Rightarrow> string set" where
  "peer_keys e = (case rm_peer (eb_match e) of PcValid k i \<Rightarrow> set (peer_lookup_keys k i) | _ \<Rightarrow> {})"

definition peerless :: "evaluated_binding \<Rightarrow> bool" where
  "peerless e \<longleftrightarrow> \<not> is_valid_peer e \<and> \<not> is_wildcard_peer e"

lemma entries_push [simp]:
  "entries (push_to_index_map m k e) k' = (if k = k' \<and> k \<noteq> [] then entries m k' @ [e] else entries m k')"
  by (auto simp: entries_def push_to_index_map_def split: option.splits)

lemma lookup_entries: "lookup_index m k = (if k = [] then [] else entries m k)"
  by (simp add: lookup_index_def entries_def)

lemma peer_lookup_keys_props: "distinct (peer_lookup_keys k i)" "[] \<notin> set (peer_lookup_keys k i)"
  by (auto simp: peer_lookup_keys_def)

lemma entries_push_all:
  "distinct keys \<Longrightarrow> [] \<notin> set keys \<Longrightarrow>
     entries (foldl (\<lambda>mp key. push_to_index_map mp key e) m keys) k
       = (if k \<in> set keys then entries m k @ [e] else entries m k)"
  by (induction keys arbitrary: m) auto

lemma index_binding_fields:
  "entries (ix_byPeer (index_binding ix e)) k
     = entries (ix_byPeer ix) k @ (if k \<in> peer_keys e then [e] else [])"
  "ix_byPeerWildcard (index_binding ix e)
     = ix_byPeerWildcard ix @ (if is_wildcard_peer e then [e] else [])"
  "g \<noteq> [] \<Longrightarrow> entries (ix_byGuildWithRoles (index_binding ix e)) g = entries (ix_byGuildWithRoles ix) g
     @ (if peerless e \<and> rm_guildId (eb_match e) = g \<and> has_roles e then [e] else [])"
  "g \<noteq> [] \<Longrightarrow> entries (ix_byGuild (index_binding ix e)) g = entries (ix_byGuild ix) g
     @ (if peerless e \<and> rm_guildId (eb_match e) = g \<and> \<not> has_roles e then [e] else [])"
  "g \<noteq> [] \<Longrightarrow> entries (ix_byTeam (index_binding ix e)) g = entries (ix_byTeam ix) g
     @ (if peerless e \<and> \<not> has_guild e \<and> rm_teamId (eb_match e) = g then [e] else [])"
  "ix_byAccount (index_binding ix e) = ix_byAccount ix
     @ (if peerless e \<and> \<not> has_guild e \<and> \<not> has_team e \<and> \<not> any_account e then [e] else [])"
  "ix_byChannel (index_binding ix e) = ix_byChannel ix
     @ (if peerless e \<and> \<not> has_guild e \<and> \<not> has_team e \<and> any_account e then [e] else [])"
  by (cases "rm_peer (eb_match e)";
      simp add: index_binding_def Let_def peer_keys_def peerless_def is_valid_peer_def is_wildcard_peer_def
        has_guild_def has_team_def has_roles_def any_account_def entries_push_all peer_lookup_keys_props;
      auto)+

lemma foldl_append_filter:
  "(\<And>x e. f (h x e) = f x @ (if P e then [e] else [])) \<Longrightarrow> f (foldl h x es) = f x @ filter P es"
  by (induction es arbitrary: x) auto

lemma built_index:
  "entries (ix_byPeer (build_evaluated_bindings_index bs)) k = filter (\<lambda>e. k \<in> peer_keys e) bs"
  "ix_byPeerWildcard (build_evaluated_bindings_index bs) = filter is_wildcard_peer bs"
  "g \<noteq> [] \<Longrightarrow> entries (ix_byGuildWithRoles (build_evaluated_bindings_index bs)) g
     = filter (\<lambda>e. peerless e \<and> rm_guildId (eb_match e) = g \<and> has_roles e) bs"
  "g \<noteq> [] \<Longrightarrow> entries (ix_byGuild (build_evaluated_bindings_index bs)) g
     = filter (\<lambda>e. peerless e \<and> rm_guildId (eb_match e) = g \<and> \<not> has_roles e) bs"
  "g \<noteq> [] \<Longrightarrow> entries (ix_byTeam (build_evaluated_bindings_index bs)) g
     = filter (\<lambda>e. peerless e \<and> \<not> has_guild e \<and> rm_teamId (eb_match e) = g) bs"
  "ix_byAccount (build_evaluated_bindings_index bs)
     = filter (\<lambda>e. peerless e \<and> \<not> has_guild e \<and> \<not> has_team e \<and> \<not> any_account e) bs"
  "ix_byChannel (build_evaluated_bindings_index bs)
     = filter (\<lambda>e. peerless e \<and> \<not> has_guild e \<and> \<not> has_team e \<and> any_account e) bs"
  unfolding build_evaluated_bindings_index_def
  by (simp_all add: foldl_append_filter [OF index_binding_fields(1)]
      foldl_append_filter [OF index_binding_fields(2)] foldl_append_filter [OF index_binding_fields(3)]
      foldl_append_filter [OF index_binding_fields(4)] foldl_append_filter [OF index_binding_fields(5)]
      foldl_append_filter [OF index_binding_fields(6)] foldl_append_filter [OF index_binding_fields(7)],
      simp_all add: empty_index_def entries_def)

lemma find_filter_superset:
  "(\<And>e. e \<in> set bs \<Longrightarrow> P e \<Longrightarrow> R e) \<Longrightarrow> List.find P (filter R bs) = List.find P bs"
  by (induction bs) auto

lemma find_append_same:
  assumes "List.find P xs = List.find P bs" "set ys \<subseteq> set bs"
  shows "List.find P (xs @ ys) = List.find P bs"
proof (cases "List.find P xs")
  case None
  with assms have "\<forall>y\<in>set (xs @ ys). \<not> P y"
    by (metis List.find_None_iff2 Un_iff set_append subsetD)
  with None assms(1) show ?thesis by (metis List.find_None_iff)
next
  case (Some x)
  then have "List.find P (xs @ ys) = Some x" by (induction xs) auto
  with Some assms(1) show ?thesis by simp
qed

lemma add_unseen_new: "distinct (map eb_order (out @ ms)) \<Longrightarrow> add_unseen out ms = out @ ms"
  by (induction ms arbitrary: out) auto

lemma add_unseen_extends: "\<exists>xs. add_unseen out ms = out @ xs \<and> set xs \<subseteq> set ms"
proof (induction ms arbitrary: out)
  case (Cons m ms)
  obtain xs where xs: "add_unseen (if eb_order m \<in> set (map eb_order out) then out else out @ [m]) ms
      = (if eb_order m \<in> set (map eb_order out) then out else out @ [m]) @ xs" "set xs \<subseteq> set ms"
    using Cons.IH by blast
  then show ?case
    by (cases "eb_order m \<in> set (map eb_order out)") (auto intro!: exI)
qed simp

lemma fold_add_unseen_extends:
  "(\<And>k. set (f k) \<subseteq> B) \<Longrightarrow>
     \<exists>xs. foldl (\<lambda>out key. add_unseen out (f key)) out ks = out @ xs \<and> set xs \<subseteq> B"
proof (induction ks arbitrary: out)
  case (Cons k ks)
  obtain xs where xs: "add_unseen out (f k) = out @ xs" "set xs \<subseteq> set (f k)"
    using add_unseen_extends by blast
  obtain ys where "foldl (\<lambda>out key. add_unseen out (f key)) (out @ xs) ks = (out @ xs) @ ys" "set ys \<subseteq> B"
    using Cons by blast
  with xs Cons.prems show ?case
    by (intro exI [of _ "xs @ ys"]) auto
qed simp

lemma distinct_filter_orders: "distinct (map eb_order bs) \<Longrightarrow> distinct (map eb_order (filter P bs))"
  by (rule distinct_map_filter)

lemma scope_match_keys:
  assumes "is_valid_peer e" "matches_binding_scope (eb_match e) q (Some p)"
  shows "hd (peer_lookup_keys (rp_kind p) (rp_id p)) \<in> peer_keys e"
  using assms
  by (auto simp: is_valid_peer_def matches_binding_scope_def peer_keys_def peer_lookup_keys_def
      peer_kind_matches_def split: peer_constraint.splits)

lemma collect_find:
  fixes p q bs
  assumes "distinct (map eb_order bs)"
  defines "P \<equiv> \<lambda>e. is_valid_peer e \<and> matches_binding_scope (eb_match e) q (Some p)"
  shows "List.find P (collect_peer_indexed_bindings (build_evaluated_bindings_index bs) (Some p))
    = List.find P bs"
proof -
  let ?ix = "build_evaluated_bindings_index bs"
  let ?keys = "peer_lookup_keys (rp_kind p) (rp_id p)"
  have e: "(case ix_byPeer ?ix k of Some l \<Rightarrow> l | None \<Rightarrow> []) = filter (\<lambda>e. k \<in> peer_keys e) bs" for k
    using built_index(1) [of bs k] by (simp add: entries_def)
  obtain k ks where ks: "?keys = k # ks"
    by (cases ?keys) (auto simp: peer_lookup_keys_def split: if_split_asm)
  have 1: "add_unseen [] (filter (\<lambda>e. k \<in> peer_keys e) bs) = filter (\<lambda>e. k \<in> peer_keys e) bs"
    using assms(1) by (subst add_unseen_new) (simp_all add: distinct_filter_orders)
  obtain xs where xs: "foldl (\<lambda>out key. add_unseen out (filter (\<lambda>e. key \<in> peer_keys e) bs))
      (filter (\<lambda>e. k \<in> peer_keys e) bs) ks = filter (\<lambda>e. k \<in> peer_keys e) bs @ xs" "set xs \<subseteq> set bs"
    using fold_add_unseen_extends [of "\<lambda>key. filter (\<lambda>e. key \<in> peer_keys e) bs" "set bs"
        "filter (\<lambda>e. k \<in> peer_keys e) bs" ks] by auto
  have "List.find P (filter (\<lambda>e. k \<in> peer_keys e) bs) = List.find P bs"
    by (rule find_filter_superset) (use scope_match_keys ks in \<open>fastforce simp: P_def\<close>)
  with xs(2) have "List.find P (filter (\<lambda>e. k \<in> peer_keys e) bs @ xs) = List.find P bs"
    by (rule find_append_same [rotated])
  then show ?thesis
    by (simp add: collect_peer_indexed_bindings_def e ks 1 xs(1))
qed

text \<open>The bindings that an evaluation produces, and the questions that a normalised input asks.\<close>

definition roles_given :: "evaluated_binding \<Rightarrow> bool" where
  "roles_given e \<longleftrightarrow> rm_roles (eb_match e) \<noteq> Some []"

definition trimmed_query :: "route_query \<Rightarrow> bool" where
  "trimmed_query q \<longleftrightarrow> py_strip (rq_guildId q) = rq_guildId q \<and> py_strip (rq_teamId q) = rq_teamId q"

lemma matching_guild_and_team:
  assumes "matches_binding_scope (eb_match e) q sp" "trimmed_query q" "roles_given e"
  shows "has_guild e \<Longrightarrow> rm_guildId (eb_match e) = rq_guildId q"
    and "has_team e \<Longrightarrow> rm_teamId (eb_match e) = rq_teamId q"
    and "has_roles e \<Longrightarrow> rq_memberRoleIds q \<noteq> []"
  using assms
  by (auto simp: matches_binding_scope_def route_binding_scope_matches_def Let_def has_guild_def
      has_team_def has_roles_def trimmed_query_def roles_given_def normalize_route_binding_id_def
      scope_id_matches_def normalize_route_binding_roles_def has_any_route_binding_role_def
      split: if_split_asm peer_constraint.splits option.splits)

lemma first_tier_step:
  assumes "ti_matchedBy t = ti_matchedBy u" "tier_match q t = tier_match q u"
    "tier_match q u = None \<Longrightarrow> first_tier_match q ts = first_tier_match q us"
  shows "first_tier_match q (t # ts) = first_tier_match q (u # us)"
  using assms by (auto split: option.splits)

lemma tier_match_None:
  "tier_match q t = None \<longleftrightarrow> (ti_enabled t \<longrightarrow>
     (\<forall>e\<in>set (ti_candidates t). \<not> (ti_predicate t e \<and> matches_binding_scope (eb_match e) q (ti_scopePeer t))))"
  by (auto simp: tier_match_def List.find_None_iff)

lemma tier_match_filter:
  assumes "ti_candidates t = filter R bs" "ti_candidates u = bs" "ti_enabled t = ti_enabled u"
    "ti_scopePeer t = ti_scopePeer u" "ti_predicate t = ti_predicate u"
    "\<And>e. ti_enabled u \<Longrightarrow> e \<in> set bs \<Longrightarrow> ti_predicate u e \<Longrightarrow>
       matches_binding_scope (eb_match e) q (ti_scopePeer u) \<Longrightarrow> R e"
  shows "tier_match q t = tier_match q u"
  using assms by (auto simp: tier_match_def intro!: find_filter_superset)

lemma peerless_if_unmatched:
  assumes "rq_peer q \<noteq> None \<longrightarrow> (\<forall>e\<in>set bs. \<not> (is_valid_peer e \<and> matches_binding_scope (eb_match e) q (rq_peer q)))"
    "rq_peer q \<noteq> None \<longrightarrow> (\<forall>e\<in>set bs. \<not> (is_wildcard_peer e \<and> matches_binding_scope (eb_match e) q (rq_peer q)))"
    "e \<in> set bs" "matches_binding_scope (eb_match e) q (rq_peer q)"
  shows "peerless e"
proof (cases "rq_peer q")
  case None
  with assms(4) show ?thesis
    by (auto simp: peerless_def is_valid_peer_def is_wildcard_peer_def matches_binding_scope_def
        split: peer_constraint.splits)
next
  case (Some p)
  with assms show ?thesis by (auto simp: peerless_def)
qed

lemma index_is_scan:
  assumes q: "trimmed_query q" and bs: "\<And>e. e \<in> set bs \<Longrightarrow> roles_given e" "distinct (map eb_order bs)"
  shows "first_tier_match q (route_tiers q (build_evaluated_bindings_index bs))
    = first_tier_match q (scan_tiers q bs)"
proof -
  define T where "T i = route_tiers q (build_evaluated_bindings_index bs) ! i" for i
  define S where "S i = scan_tiers q bs ! i" for i
  have T: "route_tiers q (build_evaluated_bindings_index bs) = [T 0, T 1, T 2, T 3, T 4, T 5, T 6, T 7]"
    by (simp add: T_def route_tiers_def)
  have S: "scan_tiers q bs = [S 0, S 1, S 2, S 3, S 4, S 5, S 6, S 7]"
    by (simp add: S_def scan_tiers_def route_tiers_def)
  note defs = T_def S_def scan_tiers_def route_tiers_def
  have name: "ti_matchedBy (T i) = ti_matchedBy (S i)" if "i \<in> {0, 1, 2, 3, 4, 5, 6, 7}" for i
    using that by (auto simp: defs)
  note mg = matching_guild_and_team [OF _ q bs(1)]
  have m0: "tier_match q (T 0) = tier_match q (S 0)"
    by (auto simp: defs tier_match_def collect_find [OF bs(2)])
  have m1: "tier_match q (T 1) = tier_match q (S 1)"
    by (auto simp: defs tier_match_def usable_parent_def collect_find [OF bs(2)] split: option.splits)
  have m2: "tier_match q (T 2) = tier_match q (S 2)"
    by (rule tier_match_filter [where R = is_wildcard_peer and bs = bs]) (simp_all add: defs built_index)
  have pl: "peerless e" if "tier_match q (S 0) = None" "tier_match q (S 2) = None" "e \<in> set bs"
    "matches_binding_scope (eb_match e) q (rq_peer q)" for e
    by (rule peerless_if_unmatched [OF _ _ that(3,4)]) (use that(1,2) in \<open>simp_all add: tier_match_None defs\<close>)
  have m3: "tier_match q (T 3) = tier_match q (S 3)"
    if "tier_match q (S 0) = None" "tier_match q (S 2) = None"
  proof (cases "rq_guildId q = []")
    case False
    show ?thesis
      by (rule tier_match_filter [where bs = bs and
        R = "\<lambda>e. peerless e \<and> rm_guildId (eb_match e) = rq_guildId q \<and> has_roles e"])
         (use False pl [OF that] mg(1) in \<open>simp_all add: defs lookup_entries built_index(3)\<close>)
  qed (simp add: defs tier_match_def)
  have m4: "tier_match q (T 4) = tier_match q (S 4)"
    if "tier_match q (S 0) = None" "tier_match q (S 2) = None"
  proof (cases "rq_guildId q = []")
    case False
    show ?thesis
      by (rule tier_match_filter [where bs = bs and
        R = "\<lambda>e. peerless e \<and> rm_guildId (eb_match e) = rq_guildId q \<and> \<not> has_roles e"])
         (use False pl [OF that] mg(1) in \<open>simp_all add: defs lookup_entries built_index(4)\<close>)
  qed (simp add: defs tier_match_def)
  have ng: "\<not> has_guild e" if "tier_match q (S 3) = None" "tier_match q (S 4) = None" "e \<in> set bs"
    "matches_binding_scope (eb_match e) q (rq_peer q)" for e
  proof
    assume g: "has_guild e"
    then have "rq_guildId q \<noteq> []"
      using mg(1) [OF that(4,3)] by (auto simp: has_guild_def)
    with g that mg(3) [OF that(4,3)] show False
      by (cases "has_roles e") (auto simp: tier_match_None defs)
  qed
  have m5: "tier_match q (T 5) = tier_match q (S 5)"
    if "tier_match q (S 0) = None" "tier_match q (S 2) = None" "tier_match q (S 3) = None" "tier_match q (S 4) = None"
  proof (cases "rq_teamId q = []")
    case False
    show ?thesis
      by (rule tier_match_filter [where bs = bs and
        R = "\<lambda>e. peerless e \<and> \<not> has_guild e \<and> rm_teamId (eb_match e) = rq_teamId q"])
         (use False pl [OF that(1,2)] ng [OF that(3,4)] mg(2) in \<open>simp_all add: defs lookup_entries built_index(5)\<close>)
  qed (simp add: defs tier_match_def)
  have nt: "\<not> has_team e" if "tier_match q (S 5) = None" "e \<in> set bs"
    "matches_binding_scope (eb_match e) q (rq_peer q)" for e
  proof
    assume t: "has_team e"
    then have "rq_teamId q \<noteq> []"
      using mg(2) [OF that(3,2)] by (auto simp: has_team_def)
    with t that show False by (auto simp: tier_match_None defs)
  qed
  have m6: "tier_match q (T 6) = tier_match q (S 6)"
    if "tier_match q (S 0) = None" "tier_match q (S 2) = None" "tier_match q (S 3) = None" "tier_match q (S 4) = None"
      "tier_match q (S 5) = None"
    by (rule tier_match_filter [where bs = bs and
        R = "\<lambda>e. peerless e \<and> \<not> has_guild e \<and> \<not> has_team e \<and> \<not> any_account e"])
       (use pl [OF that(1,2)] ng [OF that(3,4)] nt [OF that(5)] in \<open>simp_all add: defs built_index(6)\<close>)
  have m7: "tier_match q (T 7) = tier_match q (S 7)"
    if "tier_match q (S 0) = None" "tier_match q (S 2) = None" "tier_match q (S 3) = None" "tier_match q (S 4) = None"
      "tier_match q (S 5) = None"
    by (rule tier_match_filter [where bs = bs and
        R = "\<lambda>e. peerless e \<and> \<not> has_guild e \<and> \<not> has_team e \<and> any_account e"])
       (use pl [OF that(1,2)] ng [OF that(3,4)] nt [OF that(5)] in \<open>simp_all add: defs built_index(7)\<close>)
  show ?thesis
    unfolding T S
    by (intro first_tier_step m0 m1 m2 m3 m4 m5 m6 m7; (assumption | simp add: name))
qed

lemma normalize_roles_given: "normalize_route_binding_roles v \<noteq> Some []"
  by (simp add: normalize_route_binding_roles_def split: pyval.split)

lemma match_roles_given: "normalize_binding_match v = Inr m \<Longrightarrow> rm_roles m \<noteq> Some []"
  unfolding normalize_binding_match_def
  by (auto simp: bind_res_eq_Inr normalize_roles_given split: if_split_asm)

lemma binding_id_trimmed: "py_strip (normalize_route_binding_id v) = normalize_route_binding_id v"
proof -
  have "py_strip ''True'' = ''True''" "py_strip ''False'' = ''False''"
    by code_simp+
  then show ?thesis by (simp add: normalize_route_binding_id_def split: pyval.split)
qed

lemma eval_all_roles: "eval_all bs n = Inr all \<Longrightarrow> \<forall>ce\<in>set all. roles_given (snd ce)"
proof (induction bs arbitrary: n all)
  case (Cons b bs)
  let ?mo = "message_field b ''match''"
  let ?ch = "if is_dict ?mo then normalize_lowercase_string_or_empty (message_field ?mo ''channel'') else []"
  show ?case
  proof (cases "\<not> truthy b \<or> \<not> is_dict b \<or> ?ch = []")
    case True
    then have "eval_all (b # bs) n = eval_all bs n"
      by (simp only: eval_all.simps Let_def if_True)
    with Cons.prems Cons.IH show ?thesis by metis
  next
    case False
    then have "eval_all (b # bs) n =
        bind_res (normalize_binding_match ?mo) (\<lambda>m. bind_res (eval_all bs (n + 1)) (\<lambda>es.
          Inr ((?ch, \<lparr>eb_agentId = message_field b ''agentId'', eb_session = message_field b ''session'',
             eb_match = m, eb_order = n\<rparr>) # es)))"
      by (simp only: eval_all.simps Let_def if_False)
    with Cons.prems obtain m es where es: "eval_all bs (n + 1) = Inr es" "normalize_binding_match ?mo = Inr m"
      "all = (?ch, \<lparr>eb_agentId = message_field b ''agentId'', eb_session = message_field b ''session'',
             eb_match = m, eb_order = n\<rparr>) # es"
      by (auto simp: bind_res_eq_Inr simp del: eval_all.simps)
    from es(2) have "rm_roles m \<noteq> Some []"
      by (rule match_roles_given)
    with Cons.IH [OF es(1)] show ?thesis
      unfolding es(3) by (simp add: roles_given_def)
  qed
qed simp

lemma applicable_bindings_props:
  assumes "applicable_bindings cfg ch acc = Inr bs"
  shows "distinct (map eb_order bs)" "e \<in> set bs \<Longrightarrow> roles_given e"
proof -
  obtain all where all: "eval_all (list_bindings cfg) 0 = Inr all"
    "bs = map snd (filter (applies_to ch acc) all)"
    using assms by (auto simp: applicable_bindings_def bind_res_eq_Inr)
  have "sorted_wrt (<) (map (eb_order \<circ> snd) (filter (applies_to ch acc) all))"
    using eval_all_orders [OF all(1)] by (simp add: sorted_wrt_filter sorted_wrt_map)
  then show "distinct (map eb_order bs)"
    by (simp add: all(2) strict_sorted_iff del: sorted_wrt_map)
  show "roles_given e" if "e \<in> set bs"
    using that eval_all_roles [OF all(1)] by (auto simp: all(2))
qed

lemma normalized_query_trimmed [simp]: "trimmed_query (normalize_route_input inp)"
  by (simp add: trimmed_query_def normalize_route_input_def binding_id_trimmed)

end
