(* ===== verification/RouteCaching.thy ===== *)
theory RouteCaching
  imports RouteSpec
begin

text \<open>
  The three caches of the router do not change what it answers. Each cache has an invariant that
  says what its entries hold; the invariants relate an entry to every configuration it is used
  for, so they hold for configurations that share their lists of bindings or agents as well.
\<close>

section \<open>What the router answers without caches\<close>

definition choose_binding ::
  "route_config \<Rightarrow> route_query \<Rightarrow> evaluated_binding list \<Rightarrow> pyval \<times> string \<times> pyval" where
  "choose_binding cfg q bs =
     (case first_tier_match q (scan_tiers q bs) of
        Some (e, matched_by) \<Rightarrow> (eb_agentId e, matched_by, eb_session e)
      | None \<Rightarrow> (VStr (resolve_default_agent_id cfg), ''default'', VNone))"

definition route_of_choice ::
  "route_config \<Rightarrow> route_query \<Rightarrow> pyval \<times> string \<times> pyval \<Rightarrow> resolved_route res" where
  "route_of_choice cfg q choice =
     bind_res (strip_arg (fst choice)) (\<lambda>a.
     bind_res (effective_dm_scope cfg (snd (snd choice))) (\<lambda>scope.
     Inr (make_route cfg q (fst (snd choice)) (pick_from_lookup (build_agent_lookup cfg) a) scope)))"

definition route_spec :: "route_config \<Rightarrow> route_query \<Rightarrow> resolved_route res" where
  "route_spec cfg q =
     bind_res (applicable_bindings cfg (rq_channel q) (rq_accountId q)) (\<lambda>bs.
     route_of_choice cfg q (choose_binding cfg q bs))"

definition links_given :: "route_config \<Rightarrow> bool" where
  "links_given cfg \<longleftrightarrow> config_identity_links cfg \<noteq> None \<and> config_identity_links cfg \<noteq> Some []"

text \<open>The scope of direct messages is part of a cache key, and has to be a string there.\<close>

definition route_promise :: "route_config \<Rightarrow> route_input \<Rightarrow> resolved_route res" where
  "route_promise cfg inp =
     (if links_given cfg then route_spec cfg (normalize_route_input inp)
      else bind_res (need_str (config_dm_scope cfg)) (\<lambda>_. route_spec cfg (normalize_route_input inp)))"

lemma decide_is_choice:
  assumes "trimmed_query q" "applicable_bindings cfg ch acc = Inr bs"
  shows "decide cfg q (build_evaluated_bindings_index bs) = choose_binding cfg q bs"
  using applicable_bindings_props [OF assms(2)]
  by (simp add: decide_def choose_binding_def index_is_scan [OF assms(1)])

section \<open>Configurations that share objects\<close>

text \<open>The identity of an object determines its contents, as long as nobody changes the object.\<close>

definition same_objects :: "route_config list \<Rightarrow> bool" where
  "same_objects cfgs \<longleftrightarrow>
     list_all (\<lambda>a. list_all (\<lambda>b.
       (cf_agents_ref a = cf_agents_ref b \<longrightarrow> cf_agents a = cf_agents b)
       \<and> (cf_bindings_ref a = cf_bindings_ref b \<longrightarrow> cf_bindings a = cf_bindings b)
       \<and> (cf_session_ref a = cf_session_ref b \<longrightarrow> cf_session a = cf_session b)) cfgs) cfgs"

lemma same_objectsD:
  assumes "same_objects cfgs" "a \<in> set cfgs" "b \<in> set cfgs"
  shows "cf_agents_ref a = cf_agents_ref b \<Longrightarrow> cf_agents a = cf_agents b"
    and "cf_bindings_ref a = cf_bindings_ref b \<Longrightarrow> cf_bindings a = cf_bindings b"
    and "cf_session_ref a = cf_session_ref b \<Longrightarrow> cf_session a = cf_session b"
  using assms unfolding same_objects_def list_all_iff by blast+

lemma same_agents_lookup: "cf_agents a = cf_agents b \<Longrightarrow> build_agent_lookup a = build_agent_lookup b"
  by (simp add: build_agent_lookup_def list_agents_def resolve_default_agent_id_def)

lemma same_bindings_built:
  "cf_bindings a = cf_bindings b \<Longrightarrow>
     build_evaluated_bindings_by_channel a = build_evaluated_bindings_by_channel b"
  by (simp add: build_evaluated_bindings_by_channel_def list_bindings_def)

lemma same_objects_choice:
  assumes "cf_agents a = cf_agents b" "cf_session a = cf_session b"
  shows "route_of_choice a q choice = route_of_choice b q choice"
proof -
  have "build_agent_lookup a = build_agent_lookup b"
    using assms(1) by (rule same_agents_lookup)
  moreover have "effective_dm_scope a v = effective_dm_scope b v" for v
    by (simp add: effective_dm_scope_def config_dm_scope_def assms(2))
  moreover have "make_route a q m i v = make_route b q m i v" for m i v
    by (simp add: make_route_def config_identity_links_def assms(2))
  ultimately show ?thesis by (simp add: route_of_choice_def)
qed

lemma same_objects_spec:
  assumes "cf_agents a = cf_agents b" "cf_bindings a = cf_bindings b" "cf_session a = cf_session b"
  shows "route_spec a q = route_spec b q"
proof -
  have "applicable_bindings a = applicable_bindings b"
    by (simp add: applicable_bindings_def list_bindings_def assms(2) fun_eq_iff)
  moreover have "resolve_default_agent_id a = resolve_default_agent_id b"
    by (simp add: resolve_default_agent_id_def assms(1))
  then have "choose_binding a q bs = choose_binding b q bs" for bs
    by (simp only: choose_binding_def)
  ultimately show ?thesis
    by (simp add: route_spec_def same_objects_choice [OF assms(1,3)])
qed

section \<open>The cache of agents\<close>

definition agents_ok :: "route_config list \<Rightarrow> route_caches \<Rightarrow> bool" where
  "agents_ok cfgs c \<longleftrightarrow>
     (\<forall>i en. rc_agents c i = Some en \<longrightarrow>
        (\<forall>cfg\<in>set cfgs. cf_agents_ref cfg = ac_agentsRef en \<longrightarrow> ac_lookup en = build_agent_lookup cfg))"

lemma agent_lookup_cached:
  assumes "same_objects cfgs" "cfg \<in> set cfgs" "agents_ok cfgs c"
    "resolve_agent_lookup_cache c cfg = (al, c')"
  shows "al = build_agent_lookup cfg" "agents_ok cfgs c'"
    "rc_bindings c' = rc_bindings c" "rc_routes c' = rc_routes c"
proof -
  have same: "build_agent_lookup cfg = build_agent_lookup b"
    if "b \<in> set cfgs" "cf_agents_ref b = cf_agents_ref cfg" for b
    using same_objectsD(1) [OF assms(1) that(1) assms(2) that(2)] by (metis same_agents_lookup)
  let ?fresh = "c\<lparr>rc_agents := (rc_agents c)(cf_id cfg \<mapsto>
             \<lparr>ac_agentsRef = cf_agents_ref cfg, ac_lookup = build_agent_lookup cfg\<rparr>)\<rparr>"
  have fresh: "agents_ok cfgs ?fresh"
    unfolding agents_ok_def
  proof (intro allI impI ballI)
    fix i en b
    assume "rc_agents ?fresh i = Some en" "b \<in> set cfgs" "cf_agents_ref b = ac_agentsRef en"
    then show "ac_lookup en = build_agent_lookup b"
      using assms(3) same [of b] by (cases "i = cf_id cfg") (auto simp: agents_ok_def)
  qed
  consider (hit) en where "rc_agents c (cf_id cfg) = Some en" "ac_agentsRef en = cf_agents_ref cfg"
      "al = ac_lookup en" "c' = c"
    | (miss) "al = build_agent_lookup cfg" "c' = ?fresh"
    using assms(4) by (auto simp: resolve_agent_lookup_cache_def split: option.splits if_split_asm)
  then have "al = build_agent_lookup cfg \<and> agents_ok cfgs c'
    \<and> rc_bindings c' = rc_bindings c \<and> rc_routes c' = rc_routes c"
  proof cases
    case hit
    then have "ac_lookup en = build_agent_lookup cfg"
      using assms(2,3) unfolding agents_ok_def by metis
    with hit assms(3) show ?thesis by simp
  next
    case miss
    with fresh show ?thesis by simp
  qed
  then show "al = build_agent_lookup cfg" "agents_ok cfgs c'"
    "rc_bindings c' = rc_bindings c" "rc_routes c' = rc_routes c" by auto
qed

section \<open>The cache of bindings\<close>

definition account_tabfree :: "string \<Rightarrow> bool" where
  "account_tabfree acc \<longleftrightarrow> CHR 0x09 \<notin> set acc"

definition table_ok :: "(string \<Rightarrow> string \<Rightarrow> 'a) \<Rightarrow> (string, 'a) dict \<Rightarrow> bool" where
  "table_ok f d \<longleftrightarrow>
     (\<forall>ch acc v. account_tabfree acc \<longrightarrow> dict_get d (tab_key ch acc) = Some v \<longrightarrow> v = f ch acc)"

definition tables_ok :: "bindings_cache_entry \<Rightarrow> bool" where
  "tables_ok en \<longleftrightarrow>
     table_ok (evaluated_of (bc_byChannel en)) (bc_byChannelAccount en)
     \<and> table_ok (\<lambda>ch acc. build_evaluated_bindings_index (evaluated_of (bc_byChannel en) ch acc))
         (bc_byChannelAccountIndex en)"

definition built_ok :: "route_config list \<Rightarrow> bindings_cache_entry \<Rightarrow> bool" where
  "built_ok cfgs en \<longleftrightarrow>
     (\<forall>cfg\<in>set cfgs. cf_bindings_ref cfg = bc_bindingsRef en
        \<longrightarrow> build_evaluated_bindings_by_channel cfg = Inr (bc_byChannel en))"

definition bindings_ok :: "route_config list \<Rightarrow> route_caches \<Rightarrow> bool" where
  "bindings_ok cfgs c \<longleftrightarrow> (\<forall>i en. rc_bindings c i = Some en \<longrightarrow> tables_ok en \<and> built_ok cfgs en)"

lemma tab_key_inject:
  assumes "account_tabfree acc" "account_tabfree acc'" "tab_key ch acc = tab_key ch' acc'"
  shows "ch = ch' \<and> acc = acc'"
  using append_sep_inject_last [of "CHR 0x09" acc acc' ch ch'] assms
  by (simp add: tab_key_def account_tabfree_def)

lemma table_okD:
  "table_ok f d \<Longrightarrow> account_tabfree acc \<Longrightarrow> dict_get d (tab_key ch acc) = Some v \<Longrightarrow> v = f ch acc"
  by (simp add: table_ok_def)

lemma table_ok_Nil [simp]: "table_ok f []"
  by (simp add: table_ok_def)

lemma table_ok_set:
  assumes "table_ok f d" "account_tabfree acc"
  shows "table_ok f (dict_set d (tab_key ch acc) (f ch acc))"
  unfolding table_ok_def
proof (intro allI impI)
  fix ch' acc' v
  assume "account_tabfree acc'" "dict_get (dict_set d (tab_key ch acc) (f ch acc)) (tab_key ch' acc') = Some v"
  then show "v = f ch' acc'"
    using assms tab_key_inject [of acc' acc ch' ch]
    by (cases "tab_key ch' acc' = tab_key ch acc") (auto simp: table_ok_def)
qed

lemma table_ok_single: "account_tabfree acc \<Longrightarrow> table_ok f [(tab_key ch acc, f ch acc)]"
  using table_ok_set [of f "[]" acc ch] by simp

lemma bindings_entry_cached:
  assumes "same_objects cfgs" "cfg \<in> set cfgs" "bindings_ok cfgs c" "bindings_entry c cfg = (r, c')"
  shows "bindings_ok cfgs c'" "rc_agents c' = rc_agents c" "rc_routes c' = rc_routes c"
    "bind_res r (\<lambda>en. Inr (bc_byChannel en)) = build_evaluated_bindings_by_channel cfg"
    "r = Inr en \<Longrightarrow> rc_bindings c' (cf_id cfg) = Some en \<and> bc_bindingsRef en = cf_bindings_ref cfg
       \<and> tables_ok en \<and> built_ok cfgs en"
proof -
  have same: "build_evaluated_bindings_by_channel b = build_evaluated_bindings_by_channel cfg"
    if "b \<in> set cfgs" "cf_bindings_ref b = cf_bindings_ref cfg" for b
    using same_objectsD(2) [OF assms(1) that(1) assms(2) that(2)] by (rule same_bindings_built)
  let ?new = "\<lambda>by. \<lparr>bc_bindingsRef = cf_bindings_ref cfg, bc_byChannel = by,
      bc_byChannelAccount = [], bc_byChannelAccountIndex = []\<rparr>"
  have new: "tables_ok (?new by) \<and> built_ok cfgs (?new by)"
    if "build_evaluated_bindings_by_channel cfg = Inr by" for "by"
    using that same by (simp add: tables_ok_def built_ok_def)
  consider (hit) e where "rc_bindings c (cf_id cfg) = Some e" "bc_bindingsRef e = cf_bindings_ref cfg"
      "r = Inr e" "c' = c"
    | (bad) e where "build_evaluated_bindings_by_channel cfg = Inl e" "r = Inl e" "c' = c"
    | (miss) "by" where "build_evaluated_bindings_by_channel cfg = Inr by" "r = Inr (?new by)"
      "c' = c\<lparr>rc_bindings := (rc_bindings c)(cf_id cfg \<mapsto> ?new by)\<rparr>"
    using assms(4) unfolding bindings_entry_def Let_def
    by (auto split: option.splits if_split_asm sum.splits)
  then have all: "bindings_ok cfgs c' \<and> rc_agents c' = rc_agents c \<and> rc_routes c' = rc_routes c
    \<and> bind_res r (\<lambda>en. Inr (bc_byChannel en)) = build_evaluated_bindings_by_channel cfg
    \<and> (\<forall>en. r = Inr en \<longrightarrow> rc_bindings c' (cf_id cfg) = Some en \<and> bc_bindingsRef en = cf_bindings_ref cfg
       \<and> tables_ok en \<and> built_ok cfgs en)"
  proof cases
    case hit
    then have ok: "tables_ok e" "built_ok cfgs e"
      using assms(3) by (auto simp: bindings_ok_def)
    then have "build_evaluated_bindings_by_channel cfg = Inr (bc_byChannel e)"
      using assms(2) hit by (simp add: built_ok_def)
    with hit ok assms(3) show ?thesis by simp
  next
    case bad
    with assms(3) show ?thesis by simp
  next
    case miss
    with new [OF miss(1)] assms(3) show ?thesis by (auto simp: bindings_ok_def)
  qed
  then show "bindings_ok cfgs c'" "rc_agents c' = rc_agents c" "rc_routes c' = rc_routes c"
    "bind_res r (\<lambda>en. Inr (bc_byChannel en)) = build_evaluated_bindings_by_channel cfg"
    by simp_all
  show "rc_bindings c' (cf_id cfg) = Some en \<and> bc_bindingsRef en = cf_bindings_ref cfg
       \<and> tables_ok en \<and> built_ok cfgs en" if "r = Inr en"
    using all that by blast
qed

lemma store_evaluated_ok:
  assumes "tables_ok en" "account_tabfree acc"
  shows "tables_ok (store_evaluated en (tab_key ch acc) (evaluated_of (bc_byChannel en) ch acc))"
  using assms
  by (simp add: tables_ok_def store_evaluated_def Let_def table_ok_set table_ok_single)
     (simp add: table_ok_set [where f = "\<lambda>ch acc. build_evaluated_bindings_index (evaluated_of (bc_byChannel en) ch acc)"]
       table_ok_single [where f = "\<lambda>ch acc. build_evaluated_bindings_index (evaluated_of (bc_byChannel en) ch acc)"])

lemma store_evaluated_fields [simp]:
  "bc_bindingsRef (store_evaluated en k l) = bc_bindingsRef en"
  "bc_byChannel (store_evaluated en k l) = bc_byChannel en"
  by (simp_all add: store_evaluated_def Let_def)

lemma built_ok_fields:
  "bc_bindingsRef en' = bc_bindingsRef en \<Longrightarrow> bc_byChannel en' = bc_byChannel en \<Longrightarrow>
     built_ok cfgs en \<Longrightarrow> built_ok cfgs en'"
  by (simp add: built_ok_def)

lemma set_bindings_ok:
  assumes "bindings_ok cfgs c" "tables_ok en" "built_ok cfgs en"
  shows "bindings_ok cfgs (c\<lparr>rc_bindings := (rc_bindings c)(i \<mapsto> en)\<rparr>)"
  using assms by (simp add: bindings_ok_def)

lemma evaluated_cached:
  assumes "same_objects cfgs" "cfg \<in> set cfgs" "bindings_ok cfgs c" "account_tabfree acc"
    "get_evaluated_bindings_for_channel_account c cfg ch acc = (r, c')"
  shows "r = applicable_bindings cfg ch acc" "bindings_ok cfgs c'"
    "rc_agents c' = rc_agents c" "rc_routes c' = rc_routes c"
    "r = Inr bs \<Longrightarrow> \<exists>en. rc_bindings c' (cf_id cfg) = Some en \<and> bc_bindingsRef en = cf_bindings_ref cfg"
proof -
  obtain r0 c0 where e: "bindings_entry c cfg = (r0, c0)"
    by (cases "bindings_entry c cfg")
  note be = bindings_entry_cached [OF assms(1-3) e]
  have spec: "applicable_bindings cfg ch acc
    = bind_res r0 (\<lambda>en. Inr (evaluated_of (bc_byChannel en) ch acc))"
    unfolding evaluated_is_applicable [symmetric] be(4) [symmetric] bind_res_assoc by simp
  have "r = applicable_bindings cfg ch acc \<and> bindings_ok cfgs c'
    \<and> rc_agents c' = rc_agents c \<and> rc_routes c' = rc_routes c
    \<and> (r = Inr bs \<longrightarrow> (\<exists>en. rc_bindings c' (cf_id cfg) = Some en \<and> bc_bindingsRef en = cf_bindings_ref cfg))"
  proof (cases r0)
    case (Inl ex)
    then show ?thesis
      using assms(5) be(1-3) spec e by (auto simp: get_evaluated_bindings_for_channel_account_def)
  next
    case (Inr en)
    note en = be(5) [OF Inr]
    let ?ev = "evaluated_of (bc_byChannel en) ch acc"
    let ?fresh = "c0\<lparr>rc_bindings := (rc_bindings c0)(cf_id cfg \<mapsto> store_evaluated en (tab_key ch acc) ?ev)\<rparr>"
    have fresh: "bindings_ok cfgs ?fresh"
      by (rule set_bindings_ok [OF be(1)])
         (use en assms(4) in \<open>auto intro: store_evaluated_ok built_ok_fields [of _ en]\<close>)
    consider (hit) "r = Inr ?ev" "c' = c0" | (miss) "r = Inr ?ev" "c' = ?fresh"
      using assms(4,5) e Inr en
      by (auto simp: get_evaluated_bindings_for_channel_account_def Let_def tables_ok_def table_ok_def
          split: option.splits if_split_asm)
    then show ?thesis
      by cases (use be(1-3) fresh spec Inr en in simp_all)
  qed
  then show "r = applicable_bindings cfg ch acc" "bindings_ok cfgs c'"
    "rc_agents c' = rc_agents c" "rc_routes c' = rc_routes c"
    "r = Inr bs \<Longrightarrow> \<exists>en. rc_bindings c' (cf_id cfg) = Some en \<and> bc_bindingsRef en = cf_bindings_ref cfg"
    by auto
qed

lemma index_cached:
  assumes "same_objects cfgs" "cfg \<in> set cfgs" "bindings_ok cfgs c" "account_tabfree acc"
    "get_evaluated_binding_index_for_channel_account c cfg ch acc = (r, c')"
  shows "r = bind_res (applicable_bindings cfg ch acc) (\<lambda>bs. Inr (build_evaluated_bindings_index bs))"
    "bindings_ok cfgs c'" "rc_agents c' = rc_agents c" "rc_routes c' = rc_routes c"
proof -
  obtain r1 c1 where e1: "get_evaluated_bindings_for_channel_account c cfg ch acc = (r1, c1)"
    by (cases "get_evaluated_bindings_for_channel_account c cfg ch acc")
  note ev1 = evaluated_cached [OF assms(1-4) e1]
  obtain r2 c2 where e2: "get_evaluated_bindings_for_channel_account c1 cfg ch acc = (r2, c2)"
    by (cases "get_evaluated_bindings_for_channel_account c1 cfg ch acc")
  note ev2 = evaluated_cached [OF assms(1,2) ev1(2) assms(4) e2]
  have "r = bind_res (applicable_bindings cfg ch acc) (\<lambda>bs. Inr (build_evaluated_bindings_index bs))
    \<and> bindings_ok cfgs c' \<and> rc_agents c' = rc_agents c \<and> rc_routes c' = rc_routes c"
  proof (cases "applicable_bindings cfg ch acc")
    case (Inl ex)
    with assms(5) e1 ev1(1) have "(r, c') = (Inl ex, c1)"
      by (simp add: get_evaluated_binding_index_for_channel_account_def)
    with Inl ev1 show ?thesis by simp
  next
    case (Inr bs)
    let ?ix = "build_evaluated_bindings_index bs"
    have "\<exists>en. rc_bindings c1 (cf_id cfg) = Some en \<and> bc_bindingsRef en = cf_bindings_ref cfg"
      using ev1(5) [of bs] ev1(1) Inr by simp
    then obtain en where en: "rc_bindings c1 (cf_id cfg) = Some en" "bc_bindingsRef en = cf_bindings_ref cfg" by blast
    have "\<exists>en. rc_bindings c2 (cf_id cfg) = Some en \<and> bc_bindingsRef en = cf_bindings_ref cfg"
      using ev2(5) [of bs] ev2(1) Inr by simp
    then obtain en2 where en2: "rc_bindings c2 (cf_id cfg) = Some en2" "bc_bindingsRef en2 = cf_bindings_ref cfg" by blast
    have ok: "tables_ok en" "built_ok cfgs en" "tables_ok en2" "built_ok cfgs en2"
      using ev1(2) ev2(2) en(1) en2(1) by (auto simp: bindings_ok_def)
    have bs: "evaluated_of (bc_byChannel e) ch acc = bs"
      if "built_ok cfgs e" "bc_bindingsRef e = cf_bindings_ref cfg" for e
      using that assms(2) evaluated_is_applicable [of cfg ch acc] Inr by (simp add: built_ok_def)
    let ?en' = "en2\<lparr>bc_byChannelAccountIndex := dict_set (bc_byChannelAccountIndex en2) (tab_key ch acc) ?ix\<rparr>"
    let ?fresh = "c2\<lparr>rc_bindings := (rc_bindings c2)(cf_id cfg \<mapsto> ?en')\<rparr>"
    have "table_ok (\<lambda>ch acc. build_evaluated_bindings_index (evaluated_of (bc_byChannel en2) ch acc))
        (dict_set (bc_byChannelAccountIndex en2) (tab_key ch acc)
          (build_evaluated_bindings_index (evaluated_of (bc_byChannel en2) ch acc)))"
      using ok(3) assms(4) by (intro table_ok_set) (simp_all add: tables_ok_def)
    then have "tables_ok ?en'"
      using ok(3) bs [OF ok(4) en2(2)] by (simp add: tables_ok_def)
    then have fresh: "bindings_ok cfgs ?fresh"
      by (rule set_bindings_ok [OF ev2(2) _ built_ok_fields [of _ en2]]) (simp_all add: ok)
    consider (hit) "r = Inr ?ix" "c' = c1" | (miss) "r = Inr ?ix" "c' = ?fresh"
    proof (cases "dict_get (bc_byChannelAccountIndex en) (tab_key ch acc)")
      case None
      with assms(5) e1 e2 ev1(1) ev2(1) Inr en en2 miss show ?thesis
        by (simp add: get_evaluated_binding_index_for_channel_account_def Let_def)
    next
      case (Some ix)
      from ok(1) have "table_ok (\<lambda>ch acc. build_evaluated_bindings_index (evaluated_of (bc_byChannel en) ch acc))
          (bc_byChannelAccountIndex en)"
        by (simp add: tables_ok_def)
      from table_okD [OF this assms(4) Some] have "ix = ?ix"
        using bs [OF ok(2) en(2)] by simp
      with Some assms(5) e1 ev1(1) Inr en hit show ?thesis
        by (simp add: get_evaluated_binding_index_for_channel_account_def Let_def)
    qed
    then show ?thesis
      by cases (use fresh ev1 ev2 Inr in simp_all)
  qed
  then show "r = bind_res (applicable_bindings cfg ch acc) (\<lambda>bs. Inr (build_evaluated_bindings_index bs))"
    "bindings_ok cfgs c'" "rc_agents c' = rc_agents c" "rc_routes c' = rc_routes c" by auto
qed

section \<open>The cache of routes\<close>

text \<open>
  A question that the cache key describes without loss: no tab in the channel and no separator in
  the parts where the key uses one, and no part that looks like the mark for a missing one.
\<close>

definition plain_part :: "string \<Rightarrow> bool" where
  "plain_part s \<longleftrightarrow> CHR 0x09 \<notin> set s \<and> s \<noteq> ''-''"

definition plain_peer :: "route_peer option \<Rightarrow> bool" where
  "plain_peer p \<longleftrightarrow> (case p of None \<Rightarrow> True
     | Some r \<Rightarrow> rp_id r \<noteq> [] \<and> CHR 0x09 \<notin> set (rp_id r) \<and> CHR 0x09 \<notin> set (rp_kind r) \<and> CHR '':'' \<notin> set (rp_kind r))"

definition plain_role :: "string \<Rightarrow> bool" where
  "plain_role r \<longleftrightarrow> r \<noteq> [] \<and> plain_part r \<and> CHR '','' \<notin> set r"

definition plain_query :: "route_query \<Rightarrow> bool" where
  "plain_query q \<longleftrightarrow> CHR 0x09 \<notin> set (rq_channel q) \<and> account_tabfree (rq_accountId q)
     \<and> plain_peer (rq_peer q) \<and> plain_peer (usable_parent q)
     \<and> plain_part (rq_guildId q) \<and> plain_part (rq_teamId q) \<and> list_all plain_role (rq_memberRoleIds q)"

text \<open>Two questions that differ only in the order of the roles, or in a parent without an id.\<close>

definition same_question :: "route_query \<Rightarrow> route_query \<Rightarrow> bool" where
  "same_question a b \<longleftrightarrow> rq_channel a = rq_channel b \<and> rq_accountId a = rq_accountId b
     \<and> rq_peer a = rq_peer b \<and> usable_parent a = usable_parent b
     \<and> rq_guildId a = rq_guildId b \<and> rq_teamId a = rq_teamId b
     \<and> sort (rq_memberRoleIds a) = sort (rq_memberRoleIds b)"

lemma peer_key_inject:
  assumes "plain_peer p" "plain_peer p'" "format_route_cache_peer p = format_route_cache_peer p'"
  shows "p = p'"
proof -
  have no: "k @ '':'' @ i \<noteq> ''-''" for k i :: string
    by (cases k) auto
  have key: "format_route_cache_peer (Some r) = rp_kind r @ '':'' @ rp_id r" if "plain_peer (Some r)" for r
    using that by (simp add: plain_peer_def format_route_cache_peer_def)
  have none: "format_route_cache_peer None = ''-''"
    by (simp add: format_route_cache_peer_def)
  show ?thesis
  proof (cases p)
    case None
    with assms key none no show ?thesis by (cases p') metis+
  next
    case p: (Some r)
    show ?thesis
    proof (cases p')
      case None
      with p assms key none no show ?thesis by metis
    next
      case (Some r')
      with p assms key have "rp_kind r @ CHR '':'' # rp_id r = rp_kind r' @ CHR '':'' # rp_id r'" by simp
      then have "rp_kind r = rp_kind r' \<and> rp_id r = rp_id r'"
        by (rule append_sep_inject [rotated 2]) (use p Some assms(1,2) in \<open>simp_all add: plain_peer_def\<close>)
      with p Some show ?thesis by simp
    qed
  qed
qed

lemma part_key_inject:
  "plain_part s \<Longrightarrow> plain_part t \<Longrightarrow> or_else s ''-'' = or_else t ''-'' \<Longrightarrow> s = t"
  by (auto simp: plain_part_def or_else_def split: if_split_asm)

lemma role_key_join:
  assumes "list_all plain_role rs" "rs \<noteq> []"
  shows "format_role_ids_cache_key rs = py_join '','' (sort rs)"
proof -
  consider a where "rs = [a]" | a b where "rs = [a, b]" | a b c ts where "rs = a # b # c # ts"
    using assms(2) by (metis list.exhaust)
  then show ?thesis
    by cases (use assms(1) in \<open>auto simp: format_role_ids_cache_key_def or_else_def plain_role_def\<close>)
qed

lemma role_key_split:
  assumes "list_all plain_role rs"
  shows "sort rs = (if format_role_ids_cache_key rs = ''-'' then []
    else py_split (CHR '','') (format_role_ids_cache_key rs))"
proof (cases "rs = []")
  case False
  have free: "CHR '','' \<notin> set w" if "w \<in> set (sort rs)" for w
    using that assms by (auto simp: list_all_iff plain_role_def)
  have "sort rs \<noteq> []"
    using False by (metis set_empty set_sort)
  from py_split_join [OF this free]
  have split: "py_split (CHR '','') (format_role_ids_cache_key rs) = sort rs"
    unfolding role_key_join [OF assms False] by blast
  have "format_role_ids_cache_key rs \<noteq> ''-''"
  proof
    assume "format_role_ids_cache_key rs = ''-''"
    with split have "sort rs = [''-'']" by simp
    then have "''-'' \<in> set rs" by (metis list.set_intros(1) set_sort)
    with assms show False by (auto simp: list_all_iff plain_role_def plain_part_def)
  qed
  with split show ?thesis by simp
qed (simp add: format_role_ids_cache_key_def)

lemma set_py_join: "set (py_join sep xs) \<subseteq> set sep \<union> (\<Union>x\<in>set xs. set x)"
  by (induction sep xs rule: py_join.induct) auto

lemma role_key_tabfree:
  assumes "list_all plain_role rs"
  shows "CHR 0x09 \<notin> set (format_role_ids_cache_key rs)"
proof (cases "rs = []")
  case False
  show ?thesis
    unfolding role_key_join [OF assms False]
    using set_py_join [of "'',''" "sort rs"] assms
    by (auto simp: list_all_iff plain_role_def plain_part_def)
qed (simp add: format_role_ids_cache_key_def)

lemma peer_key_tabfree: "plain_peer p \<Longrightarrow> CHR 0x09 \<notin> set (format_route_cache_peer p)"
  by (auto simp: plain_peer_def format_route_cache_peer_def split: option.splits)

lemma part_key_tabfree: "plain_part s \<Longrightarrow> CHR 0x09 \<notin> set (or_else s ''-'')"
  by (simp add: plain_part_def or_else_def)

lemma join_snoc: "xs \<noteq> [] \<Longrightarrow> py_join [c] (xs @ [x]) = py_join [c] xs @ c # x"
  by (induction "[c]" xs rule: py_join.induct) simp_all

definition key_fields :: "route_query \<Rightarrow> string list" where
  "key_fields q =
     [rq_channel q, rq_accountId q, format_route_cache_peer (rq_peer q),
      format_route_cache_peer (rq_parentPeer q), or_else (rq_guildId q) ''-'',
      or_else (rq_teamId q) ''-'', format_role_ids_cache_key (rq_memberRoleIds q)]"

lemma cache_key_fields:
  "build_resolved_route_cache_key q v
     = bind_res (need_str v) (\<lambda>s. Inr (py_join [CHR 0x09] (key_fields q) @ CHR 0x09 # s))"
  unfolding build_resolved_route_cache_key_def
  by (subst join_snoc [symmetric]) (simp_all add: key_fields_def)

lemma parent_key: "format_route_cache_peer (rq_parentPeer q) = format_route_cache_peer (usable_parent q)"
  by (cases "rq_parentPeer q") (auto simp: format_route_cache_peer_def usable_parent_def)

lemma key_fields_tabfree: "plain_query q \<Longrightarrow> w \<in> set (key_fields q) \<Longrightarrow> CHR 0x09 \<notin> set w"
  using peer_key_tabfree [of "rq_peer q"] peer_key_tabfree [of "usable_parent q"]
    part_key_tabfree [of "rq_guildId q"] part_key_tabfree [of "rq_teamId q"]
    role_key_tabfree [of "rq_memberRoleIds q"]
  by (auto simp: plain_query_def key_fields_def parent_key account_tabfree_def)

lemma cache_key_inject:
  assumes "plain_query a" "plain_query b"
    and "build_resolved_route_cache_key a v = Inr k" "build_resolved_route_cache_key b v = Inr k"
  shows "same_question a b"
proof -
  have "py_join [CHR 0x09] (key_fields a) = py_join [CHR 0x09] (key_fields b)"
    using assms(3,4) by (auto simp: cache_key_fields bind_res_eq_Inr)
  then have "py_split (CHR 0x09) (py_join [CHR 0x09] (key_fields a))
    = py_split (CHR 0x09) (py_join [CHR 0x09] (key_fields b))" by simp
  moreover have "py_split (CHR 0x09) (py_join [CHR 0x09] (key_fields q)) = key_fields q" if "plain_query q" for q
    by (rule py_split_join) (use key_fields_tabfree [OF that] in \<open>auto simp: key_fields_def\<close>)
  ultimately have f: "key_fields a = key_fields b" using assms(1,2) by simp
  have "rq_peer a = rq_peer b" "usable_parent a = usable_parent b"
    "rq_guildId a = rq_guildId b" "rq_teamId a = rq_teamId b"
    using f assms(1,2) by (auto simp: key_fields_def parent_key plain_query_def
      intro: peer_key_inject part_key_inject)
  moreover have "sort (rq_memberRoleIds a) = sort (rq_memberRoleIds b)"
    using f assms(1,2) role_key_split [of "rq_memberRoleIds a"] role_key_split [of "rq_memberRoleIds b"]
    by (simp add: key_fields_def plain_query_def)
  ultimately show ?thesis using f by (simp add: same_question_def key_fields_def)
qed

lemma same_question_scope:
  assumes "same_question a b"
  shows "matches_binding_scope m a sp = matches_binding_scope m b sp"
proof -
  have "set (sort (rq_memberRoleIds a)) = set (sort (rq_memberRoleIds b))"
    using assms by (simp add: same_question_def)
  then have "set (rq_memberRoleIds a) = set (rq_memberRoleIds b)" by simp
  then have "has_any_route_binding_role rs (map VStr (rq_memberRoleIds a))
    = has_any_route_binding_role rs (map VStr (rq_memberRoleIds b))" for rs
    unfolding has_any_route_binding_role_def by (metis map_is_Nil_conv set_empty set_map)
  with assms show ?thesis
    by (simp add: matches_binding_scope_def route_binding_scope_matches_def same_question_def Let_def
        cong: option.case_cong)
qed

lemma same_question_choice:
  assumes "same_question a b"
  shows "choose_binding cfg a bs = choose_binding cfg b bs"
proof -
  have "length (sort (rq_memberRoleIds a)) = length (sort (rq_memberRoleIds b))"
    using assms by (simp add: same_question_def)
  then have r: "rq_memberRoleIds a = [] \<longleftrightarrow> rq_memberRoleIds b = []" by auto
  have "tier_match a t = tier_match b t" for t
    by (simp add: tier_match_def same_question_scope [OF assms])
  then have "first_tier_match a ts = first_tier_match b ts" for ts
    by (induction ts) (auto split: option.splits)
  moreover have "scan_tiers a bs = scan_tiers b bs"
    using assms r by (simp add: scan_tiers_def route_tiers_def same_question_def)
  ultimately show ?thesis by (simp add: choose_binding_def)
qed

lemma same_question_spec:
  assumes "same_question a b"
  shows "route_spec cfg a = route_spec cfg b"
proof -
  have "make_route cfg a m i v = make_route cfg b m i v" for m i v
    using assms by (simp add: make_route_def same_question_def)
  then have "route_of_choice cfg a c = route_of_choice cfg b c" for c
    by (simp add: route_of_choice_def)
  with assms show ?thesis
    by (simp add: route_spec_def same_question_choice [OF assms] same_question_def)
qed

definition routes_ok :: "route_config list \<Rightarrow> route_caches \<Rightarrow> bool" where
  "routes_ok cfgs c \<longleftrightarrow>
     (\<forall>i en. rc_routes c i = Some en \<longrightarrow>
       (\<forall>cfg\<in>set cfgs. re_bindingsRef en = cf_bindings_ref cfg \<and> re_agentsRef en = cf_agents_ref cfg
          \<and> re_sessionRef en = cf_session_ref cfg \<longrightarrow>
         (\<forall>q k r. plain_query q \<longrightarrow> build_resolved_route_cache_key q (config_dm_scope cfg) = Inr k
            \<longrightarrow> dict_get (re_byKey en) k = Some r \<longrightarrow> route_spec cfg q = Inr r)))"

definition coherent :: "route_config list \<Rightarrow> route_caches \<Rightarrow> bool" where
  "coherent cfgs c \<longleftrightarrow> agents_ok cfgs c \<and> bindings_ok cfgs c \<and> routes_ok cfgs c"

lemma empty_coherent: "coherent cfgs empty_caches"
  by (simp add: coherent_def agents_ok_def bindings_ok_def routes_ok_def empty_caches_def)

lemma uncached_part:
  assumes "same_objects cfgs" "cfg \<in> set cfgs" "agents_ok cfgs c" "bindings_ok cfgs c"
    "trimmed_query q" "account_tabfree (rq_accountId q)" "resolve_uncached_part c cfg q key = (r, c')"
  shows "r = route_spec cfg q" "agents_ok cfgs c'" "bindings_ok cfgs c'"
    "rc_routes c' = (case (key, r) of
        (Some k, Inr route) \<Rightarrow> rc_routes (store_route c cfg k route) | _ \<Rightarrow> rc_routes c)"
proof -
  obtain r1 c1 where e1: "get_evaluated_bindings_for_channel_account c cfg (rq_channel q) (rq_accountId q) = (r1, c1)"
    by (cases "get_evaluated_bindings_for_channel_account c cfg (rq_channel q) (rq_accountId q)")
  note ev = evaluated_cached [OF assms(1,2,4,6) e1]
  obtain r2 c2 where e2: "get_evaluated_binding_index_for_channel_account c1 cfg (rq_channel q) (rq_accountId q) = (r2, c2)"
    by (cases "get_evaluated_binding_index_for_channel_account c1 cfg (rq_channel q) (rq_accountId q)")
  note ix = index_cached [OF assms(1,2) ev(2) assms(6) e2]
  have ag2: "agents_ok cfgs c2"
    using assms(3) ev(3) ix(3) by (simp add: agents_ok_def)
  have "r = route_spec cfg q \<and> agents_ok cfgs c' \<and> bindings_ok cfgs c' \<and>
    rc_routes c' = (case (key, r) of
        (Some k, Inr route) \<Rightarrow> rc_routes (store_route c cfg k route) | _ \<Rightarrow> rc_routes c)"
  proof (cases "applicable_bindings cfg (rq_channel q) (rq_accountId q)")
    case (Inl ex)
    with assms(7) e1 ev(1) have "(r, c') = (Inl ex, c1)"
      by (simp add: resolve_uncached_part_def)
    moreover have "agents_ok cfgs c1" using assms(3) ev(3) by (simp add: agents_ok_def)
    ultimately show ?thesis using Inl ev by (simp add: route_spec_def split: option.split)
  next
    case (Inr bs)
    let ?choice = "choose_binding cfg q bs"
    have ch: "choose_route c2 cfg q key ?choice = (r, c')"
      using assms(7) e1 e2 ev(1) ix(1) Inr decide_is_choice [OF assms(5) Inr]
      by (simp add: resolve_uncached_part_def)
    obtain al c3 where e3: "resolve_agent_lookup_cache c2 cfg = (al, c3)"
      by (cases "resolve_agent_lookup_cache c2 cfg")
    note ag = agent_lookup_cached [OF assms(1,2) ag2 e3]
    have spec: "route_spec cfg q = route_of_choice cfg q ?choice"
      by (simp add: route_spec_def Inr)
    have rc: "rc_routes c3 = rc_routes c" "rc_bindings c3 = rc_bindings c2"
      using ag(3,4) ix(4) ev(4) by simp_all
    have pick: "pick_first_existing_agent_id c2 cfg v
      = (bind_res (strip_arg v) (\<lambda>a. Inr (pick_from_lookup (build_agent_lookup cfg) a)), c3)" for v
      by (simp add: pick_first_existing_agent_id_def e3 ag(1))
    have "(r, c') = (route_of_choice cfg q ?choice,
        case (key, route_of_choice cfg q ?choice) of
          (Some k, Inr route) \<Rightarrow> store_route c3 cfg k route | _ \<Rightarrow> c3)"
      unfolding ch [symmetric] choose_route_def route_of_choice_def pick
      by (simp add: bind_res_assoc split: prod.split sum.split option.split)
    then have r: "r = route_spec cfg q" and
      c': "c' = (case (key, r) of (Some k, Inr route) \<Rightarrow> store_route c3 cfg k route | _ \<Rightarrow> c3)"
      using spec by simp_all
    have st: "rc_routes (store_route c3 cfg k route) = rc_routes (store_route c cfg k route)
      \<and> rc_agents (store_route c3 cfg k route) = rc_agents c3
      \<and> rc_bindings (store_route c3 cfg k route) = rc_bindings c3" for k route
      using rc by (simp add: store_route_def Let_def split: option.split)
    have "agents_ok cfgs c3" "bindings_ok cfgs c3"
      using ag(2) ix(2) rc by (simp_all add: bindings_ok_def)
    with r c' st rc show ?thesis
      by (simp add: agents_ok_def bindings_ok_def split: option.split sum.split)
  qed
  then show "r = route_spec cfg q" "agents_ok cfgs c'" "bindings_ok cfgs c'"
    "rc_routes c' = (case (key, r) of
        (Some k, Inr route) \<Rightarrow> rc_routes (store_route c cfg k route) | _ \<Rightarrow> rc_routes c)" by auto
qed

lemma account_tabfree_normalized [simp]: "account_tabfree (normalize_account_id v)"
proof -
  have "\<not> id_char (CHR 0x09)"
    by (simp add: id_char_def is_ascii_lower_def is_digit_def ord_char_def)
  then show ?thesis
    using normalize_account_id_canonical [of v]
    by (auto simp: account_tabfree_def canonical_id_def list_all_iff)
qed

lemma normalized_account [simp]:
  "account_tabfree (rq_accountId (normalize_route_input inp))"
  by (simp add: normalize_route_input_def)

lemma routes_entry_ok:
  assumes "same_objects cfgs" "cfg \<in> set cfgs" "coherent cfgs c" "routes_entry c cfg = (d, c')"
  shows "coherent cfgs c'"
    and "\<exists>en. rc_routes c' (cf_id cfg) = Some en \<and> re_byKey en = d \<and> re_bindingsRef en = cf_bindings_ref cfg
      \<and> re_agentsRef en = cf_agents_ref cfg \<and> re_sessionRef en = cf_session_ref cfg"
proof -
  let ?new = "\<lparr>re_bindingsRef = cf_bindings_ref cfg, re_agentsRef = cf_agents_ref cfg,
             re_sessionRef = cf_session_ref cfg, re_byKey = []\<rparr>"
  consider (hit) en where "rc_routes c (cf_id cfg) = Some en" "re_bindingsRef en = cf_bindings_ref cfg"
      "re_agentsRef en = cf_agents_ref cfg" "re_sessionRef en = cf_session_ref cfg" "d = re_byKey en" "c' = c"
    | (miss) "d = []" "c' = c\<lparr>rc_routes := (rc_routes c)(cf_id cfg \<mapsto> ?new)\<rparr>"
    using assms(4) unfolding routes_entry_def Let_def
    by (auto split: option.splits if_split_asm)
  then have "coherent cfgs c' \<and> (\<exists>en. rc_routes c' (cf_id cfg) = Some en \<and> re_byKey en = d
      \<and> re_bindingsRef en = cf_bindings_ref cfg
      \<and> re_agentsRef en = cf_agents_ref cfg \<and> re_sessionRef en = cf_session_ref cfg)"
  proof cases
    case hit
    with assms(3) show ?thesis by simp
  next
    case miss
    then show ?thesis
      using assms(3) by (simp add: coherent_def agents_ok_def bindings_ok_def routes_ok_def)
  qed
  then show "coherent cfgs c'"
    and "\<exists>en. rc_routes c' (cf_id cfg) = Some en \<and> re_byKey en = d \<and> re_bindingsRef en = cf_bindings_ref cfg
      \<and> re_agentsRef en = cf_agents_ref cfg \<and> re_sessionRef en = cf_session_ref cfg" by auto
qed

lemma store_route_ok:
  assumes "same_objects cfgs" "cfg \<in> set cfgs" "routes_ok cfgs c"
    and "rc_routes c (cf_id cfg) = Some en" "re_bindingsRef en = cf_bindings_ref cfg"
      "re_agentsRef en = cf_agents_ref cfg" "re_sessionRef en = cf_session_ref cfg"
    and "plain_query q" "build_resolved_route_cache_key q (config_dm_scope cfg) = Inr k"
      "route_spec cfg q = Inr route"
  shows "routes_ok cfgs (store_route c cfg k route)"
  unfolding routes_ok_def
proof (intro allI impI ballI)
  fix i en' b q' k' r
  assume h: "rc_routes (store_route c cfg k route) i = Some en'" "b \<in> set cfgs"
    "re_bindingsRef en' = cf_bindings_ref b \<and> re_agentsRef en' = cf_agents_ref b \<and> re_sessionRef en' = cf_session_ref b"
    "plain_query q'" "build_resolved_route_cache_key q' (config_dm_scope b) = Inr k'"
    "dict_get (re_byKey en') k' = Some r"
  show "route_spec b q' = Inr r"
  proof (cases "i = cf_id cfg \<and> k' = k")
    case True
    with h(1,3,6) assms(4-7) have refs: "cf_bindings_ref cfg = cf_bindings_ref b"
      "cf_agents_ref cfg = cf_agents_ref b" "cf_session_ref cfg = cf_session_ref b" "r = route"
      by (auto simp: store_route_def Let_def split: if_split_asm)
    note so = same_objectsD [OF assms(1,2) h(2)]
    have b: "cf_agents cfg = cf_agents b" "cf_bindings cfg = cf_bindings b" "cf_session cfg = cf_session b"
      using so refs by auto
    then have "config_dm_scope b = config_dm_scope cfg" by (simp add: config_dm_scope_def)
    with h(4,5) assms(8,9) True have "same_question q' q"
      by (intro cache_key_inject) auto
    with assms(10) refs(4) show ?thesis
      using same_question_spec same_objects_spec [OF b] by metis
  next
    case False
    then obtain en0 where "rc_routes c i = Some en0" "re_bindingsRef en0 = re_bindingsRef en'"
      "re_agentsRef en0 = re_agentsRef en'" "re_sessionRef en0 = re_sessionRef en'"
      "dict_get (re_byKey en0) k' = Some r"
      using h(1,6) assms(4) by (cases "i = cf_id cfg") (auto simp: store_route_def Let_def split: if_split_asm)
    with h assms(3) show ?thesis unfolding routes_ok_def by metis
  qed
qed

lemma resolve_cached:
  assumes "same_objects cfgs" "cfg \<in> set cfgs" "coherent cfgs c" "resolve_agent_route c cfg inp = (r, c')"
    and "plain_query (normalize_route_input inp) \<or> rc_routes c = Map.empty"
  shows "r = route_promise cfg inp"
    and "plain_query (normalize_route_input inp) \<Longrightarrow> coherent cfgs c'"
proof -
  let ?q = "normalize_route_input inp"
  have "r = route_promise cfg inp \<and> (plain_query ?q \<longrightarrow> coherent cfgs c')"
  proof (cases "links_given cfg")
    case True
    then have u: "resolve_uncached_part c cfg ?q None = (r, c')"
      using assms(4) by (simp add: resolve_agent_route_def links_given_def Let_def)
    have "agents_ok cfgs c" "bindings_ok cfgs c" using assms(3) by (simp_all add: coherent_def)
    note un = uncached_part [OF assms(1,2) this normalized_query_trimmed normalized_account u]
    from un assms(3) True show ?thesis
      by (simp add: coherent_def routes_ok_def route_promise_def)
  next
    case False
    obtain d c1 where e: "routes_entry c cfg = (d, c1)" by (cases "routes_entry c cfg")
    note re = routes_entry_ok [OF assms(1-3) e]
    from re(2) obtain en where en: "rc_routes c1 (cf_id cfg) = Some en" "re_byKey en = d"
      "re_bindingsRef en = cf_bindings_ref cfg" "re_agentsRef en = cf_agents_ref cfg"
      "re_sessionRef en = cf_session_ref cfg" by blast
    have dempty: "d = []" if "rc_routes c = Map.empty"
      using e that by (simp add: routes_entry_def Let_def split: prod.splits)
    have run: "resolve_agent_route c cfg inp =
      (case build_resolved_route_cache_key ?q (config_dm_scope cfg) of
          Inl e \<Rightarrow> (Inl e, c1)
        | Inr key \<Rightarrow>
            (case dict_get d key of
               Some cached \<Rightarrow> (Inr cached, c1)
             | None \<Rightarrow> resolve_uncached_part c1 cfg ?q (Some key)))"
      using False e by (auto simp: resolve_agent_route_def links_given_def Let_def)
    show ?thesis
    proof (cases "build_resolved_route_cache_key ?q (config_dm_scope cfg)")
      case (Inl ex)
      then have "need_str (config_dm_scope cfg) = Inl ex"
        by (cases "need_str (config_dm_scope cfg)") (simp_all add: cache_key_fields)
      with False Inl run assms(4) re(1) show ?thesis by (simp add: route_promise_def)
    next
      case (Inr k)
      then obtain scope where "need_str (config_dm_scope cfg) = Inr scope"
        by (cases "need_str (config_dm_scope cfg)") (simp_all add: cache_key_fields)
      then have pr: "route_promise cfg inp = route_spec cfg ?q"
        using False by (simp add: route_promise_def)
      have ro: "routes_ok cfgs c1" "agents_ok cfgs c1" "bindings_ok cfgs c1"
        using re(1) by (simp_all add: coherent_def)
      show ?thesis
      proof (cases "dict_get d k")
        case (Some cached)
        then have "plain_query ?q" using assms(5) dempty by auto
        then have "route_spec cfg ?q = Inr cached"
          using ro(1) en assms(2) Inr Some unfolding routes_ok_def by metis
        with Some Inr run assms(4) re(1) pr show ?thesis by simp
      next
        case None
        then have u: "resolve_uncached_part c1 cfg ?q (Some k) = (r, c')"
          using Inr run assms(4) by simp
        note un = uncached_part [OF assms(1,2) ro(2,3) normalized_query_trimmed normalized_account u]
        have "routes_ok cfgs c'" if "plain_query ?q"
        proof (cases r)
          case (Inl ex)
          with un(4) ro(1) show ?thesis by (simp add: routes_ok_def)
        next
          case rr: (Inr route)
          have "routes_ok cfgs (store_route c1 cfg k route)"
            by (rule store_route_ok [OF assms(1,2) ro(1) en(1,3-5) that Inr]) (use un(1) rr in simp)
          with un(4) rr show ?thesis by (simp add: routes_ok_def)
        qed
        with un pr show ?thesis by (simp add: coherent_def)
      qed
    qed
  qed
  then show "r = route_promise cfg inp"
    and "plain_query (normalize_route_input inp) \<Longrightarrow> coherent cfgs c'" by auto
qed

section \<open>The routed agent\<close>

definition configured_agents :: "route_config \<Rightarrow> string set" where
  "configured_agents cfg = snd ` set (al_byNormalizedId (build_agent_lookup cfg))"

lemma dict_set_values: "snd ` set (dict_set d k v) \<subseteq> insert v (snd ` set d)"
  by (induction d k v rule: dict_set.induct) auto

lemma add_agent_values: "snd ` set (add_agent d x) \<subseteq> snd ` set d \<union> range normalize_agent_id"
proof -
  have "snd ` set (dict_set d k (normalize_agent_id v)) \<subseteq> snd ` set d \<union> range normalize_agent_id" for k v
    using dict_set_values [of d k "normalize_agent_id v"] by blast
  then show ?thesis by (simp add: add_agent_def Let_def sanitize_agent_id_def)
qed

lemma configured_agents_canonical: "configured_agents cfg \<subseteq> range normalize_agent_id"
proof -
  have "snd ` set (foldl add_agent d agents) \<subseteq> snd ` set d \<union> range normalize_agent_id" for d agents
  proof (induction agents arbitrary: d)
    case (Cons x agents)
    have "snd ` set (foldl add_agent (add_agent d x) agents)
      \<subseteq> snd ` set (add_agent d x) \<union> range normalize_agent_id"
      by (rule Cons.IH)
    also have "\<dots> \<subseteq> snd ` set d \<union> range normalize_agent_id"
      using add_agent_values [of d x] by blast
    finally show ?case by simp
  qed simp
  from this [of "[]" "list_agents cfg"] show ?thesis
    by (simp add: configured_agents_def build_agent_lookup_def)
qed

lemma picked_agent:
  defines "al cfg \<equiv> build_agent_lookup cfg"
  shows "\<exists>v. pick_from_lookup (al cfg) a = normalize_agent_id v"
    and "configured_agents cfg \<noteq> {} \<Longrightarrow> pick_from_lookup (al cfg) a
      \<in> insert (normalize_agent_id (Some (resolve_default_agent_id cfg))) (configured_agents cfg)"
proof -
  have fb: "al_fallbackDefaultAgentId (al cfg) = normalize_agent_id (Some (resolve_default_agent_id cfg))"
    by (simp add: al_def build_agent_lookup_def sanitize_agent_id_def)
  have d: "r \<in> configured_agents cfg" if "dict_get (al_byNormalizedId (al cfg)) k = Some r" for k r
    using dict_get_in_set [OF that] by (force simp: configured_agents_def al_def)
  show "\<exists>v. pick_from_lookup (al cfg) a = normalize_agent_id v"
    using d configured_agents_canonical [of cfg] fb
    unfolding pick_from_lookup_def Let_def sanitize_agent_id_def
    by (auto split: option.split) blast+
  show "pick_from_lookup (al cfg) a
      \<in> insert (normalize_agent_id (Some (resolve_default_agent_id cfg))) (configured_agents cfg)"
    if "configured_agents cfg \<noteq> {}"
    using that d fb unfolding pick_from_lookup_def Let_def
    by (auto simp: configured_agents_def al_def split: option.split)
qed

lemma promised_agent:
  assumes "route_promise cfg inp = Inr r"
  obtains a m v where "r = make_route cfg (normalize_route_input inp) m (pick_from_lookup (build_agent_lookup cfg) a) v"
  using assms
  by (auto simp: route_promise_def route_spec_def route_of_choice_def bind_res_eq_Inr split: if_split_asm)

section \<open>Properties\<close>

text \<open>
  C7. Routing without caches: on empty caches \<open>resolve_agent_route\<close> answers what the bindings,
  taken in the order of the configuration, say: the first tier for which one of the bindings of
  the channel and account matches, and in it the first such binding, decide the agent. The
  buckets by channel and account, the merge and the index change nothing.
\<close>

theorem route_follows_source_order:
  "fst (resolve_agent_route empty_caches cfg inp) = route_promise cfg inp"
proof -
  have "same_objects [cfg]" by (simp add: same_objects_def)
  moreover have "rc_routes empty_caches = Map.empty" by (simp add: empty_caches_def)
  ultimately show ?thesis
    using resolve_cached(1) [OF _ _ empty_coherent, of "[cfg]" cfg inp] by (metis list.set_intros(1) prod.collapse)
qed

text \<open>A run of calls that share the caches.\<close>

fun route_run :: "route_caches \<Rightarrow> (route_config \<times> route_input) list \<Rightarrow> resolved_route res list" where
  "route_run c [] = []"
| "route_run c ((cfg, inp) # calls) =
     (let (r, c') = resolve_agent_route c cfg inp in r # route_run c' calls)"

definition plain_call :: "route_config \<times> route_input \<Rightarrow> bool" where
  "plain_call call \<longleftrightarrow> plain_query (normalize_route_input (snd call))"

lemma route_run_coherent:
  assumes "same_objects cfgs" "set (map fst calls) \<subseteq> set cfgs" "list_all plain_call calls" "coherent cfgs c"
  shows "route_run c calls = map (\<lambda>(cfg, inp). route_promise cfg inp) calls"
  using assms(2-4)
proof (induction calls arbitrary: c)
  case (Cons call calls)
  obtain cfg inp where call: "call = (cfg, inp)" by (cases call)
  obtain r c' where e: "resolve_agent_route c cfg inp = (r, c')" by (cases "resolve_agent_route c cfg inp")
  have "cfg \<in> set cfgs" "plain_query (normalize_route_input inp)"
    using Cons.prems call by (simp_all add: plain_call_def)
  with resolve_cached [OF assms(1) this(1) Cons.prems(3) e] have "r = route_promise cfg inp" "coherent cfgs c'"
    by simp_all
  with Cons call e show ?case by simp
qed simp

text \<open>
  C3. The caches are invisible: any run of calls, with any configurations as long as nobody
  changes a list of bindings, a list of agents or a session block in place, answers each call as
  if it were the first one, provided that the cache key describes every question without loss
  (\<open>plain_call\<close>): the channel, the account, the identifiers of the peer and of its parent, the guild, the team and
  the roles hold no tab, the kind of a peer no tab and no colon and a role no comma; the identifier of a
  peer and a role are not empty; and no guild, team or role is \<^verbatim>\<open>-\<close>, the mark of a missing part.
  Evictions, and configurations that share or replace such objects, are covered.
\<close>

theorem caches_invisible:
  assumes "same_objects (map fst calls)" "list_all plain_call calls"
  shows "route_run empty_caches calls = map (\<lambda>(cfg, inp). route_promise cfg inp) calls"
  by (rule route_run_coherent [OF assms(1) _ assms(2) empty_coherent]) simp

definition demo_route_config :: route_config where
  "demo_route_config =
     \<lparr>cf_id = 1, cf_agents_ref = 2, cf_agents = VNone, cf_bindings_ref = 3,
      cf_bindings = VList
        [VDict [(''agentId'', VStr ''ops''), (''match'', VDict [(''channel'', VStr ''slack''),
           (''accountId'', VStr ''*''), (''peer'', VDict [(''kind'', VStr ''direct''), (''id'', VStr ''*'')])])]],
      cf_session_ref = 4, cf_session = None, cf_channels = VNone\<rparr>"

definition demo_route_input :: "route_peer_input option \<Rightarrow> route_input" where
  "demo_route_input peer =
     \<lparr>in_channel = Some ''Slack'', in_accountId = None, in_peer = peer, in_parentPeer = None,
      in_guildId = VNone, in_teamId = VNone, in_memberRoleIds = []\<rparr>"

definition demo_peer :: "string \<Rightarrow> route_peer_input" where
  "demo_peer i = \<lparr>pi_kind = ''dm'', pi_id = VStr i\<rparr>"

theorem caches_invisible_witness:
  "map_res id (route_run empty_caches
     [(demo_route_config, demo_route_input (Some (demo_peer ''7''))), (demo_route_config, demo_route_input None)])
   = map_res id [route_promise demo_route_config (demo_route_input (Some (demo_peer ''7''))),
      route_promise demo_route_config (demo_route_input None)]"
proof -
  have "list_all plain_call [(demo_route_config, demo_route_input (Some (demo_peer ''7''))),
      (demo_route_config, demo_route_input None)]"
    by code_simp
  moreover have "same_objects (map fst [(demo_route_config, demo_route_input (Some (demo_peer ''7''))),
      (demo_route_config, demo_route_input None)])"
    by (simp add: same_objects_def)
  ultimately show ?thesis
    using caches_invisible [of "[(demo_route_config, demo_route_input (Some (demo_peer ''7''))),
      (demo_route_config, demo_route_input None)]"] by simp
qed

text \<open>
  The cache key confuses two questions: a direct message from a peer with an empty id and a
  message without a peer have the same key, but a binding for any direct peer matches only the
  first. After the first question the second one is answered from the cache with the wrong
  agent.
\<close>

theorem route_key_collision:
  "map (map_sum (\<lambda>_. ()) ro_agentId) (route_run empty_caches
     [(demo_route_config, demo_route_input (Some (demo_peer [])))
     , (demo_route_config, demo_route_input None)]) = [Inr ''ops'', Inr ''ops'']
   \<and> map_sum (\<lambda>_. ()) ro_agentId (route_promise demo_route_config (demo_route_input None)) = Inr ''main''"
  by code_simp



end
