(* ===== verification/AgentLoop.thy ===== *)
theory AgentLoop
  imports HarnessTypes PyEffects
begin

text \<open>
  \<^verbatim>\<open>agent_core/agent_loop.py\<close>: the loop that alternates turns of the language model with the
  tool calls it asks for. What the loop calls but does not define (the model's stream, the tools,
  the hooks of the configuration, the sink of events, the abort signal, the clock) acts on a world
  \<open>'w\<close> about which nothing is assumed: every such call takes the world and returns a new one, or
  raises. Since every \<^verbatim>\<open>await\<close> of the code is one of these calls, whatever other tasks do in
  between is a change of the world as well.
\<close>

section \<open>Messages, tools and events\<close>

record tool_call =
  tc_id :: string
  tc_name :: string
  tc_arguments :: pyval

datatype content_block = TextBlock string | ToolCallBlock tool_call | OtherBlock pyval

record assistant_message =
  am_content :: "content_block list"
  am_api :: string
  am_provider :: string
  am_model :: string
  am_usage :: pyval
  am_stop_reason :: string
  am_error_message :: "string option"
  am_timestamp :: int

record tool_result_message =
  tm_toolCallId :: string
  tm_toolName :: string
  tm_content :: "content_block list"
  tm_details :: pyval
  tm_isError :: bool
  tm_timestamp :: int

datatype agent_message =
    AssistantM assistant_message | ToolResultM tool_result_message | OtherM pyval

record tool_result =
  rt_content :: "content_block list"
  rt_details :: pyval
  rt_progress :: pyval
  rt_terminate :: pyval

record 'w agent_tool =
  at_name :: string
  at_description :: pyval
  at_parameters :: pyval
  at_executionMode :: "string option"
  at_prepareArguments :: "(pyval \<Rightarrow> pyval res) option"
  at_execute :: "string \<Rightarrow> pyval \<Rightarrow> 'w \<Rightarrow> (tool_result res \<times> tool_result list) \<times> 'w"

text \<open>
  \<open>ToolResultM\<close> is the dictionary that the loop makes of a result, and \<open>OtherM\<close> any other message: a
  dictionary, or an object with a role of its own. The preparation of the arguments of a tool is a
  synchronous function of them.
\<close>

text \<open>The partial results that a tool reported through its callback are returned with its result.\<close>

record 'w agent_context =
  cx_systemPrompt :: string
  cx_messages :: "agent_message list"
  cx_tools :: "'w agent_tool list option"

text \<open>An event of the stream: its type and the attributes it has; a dictionary has no attributes.\<close>

record stream_event =
  se_type :: "string option"
  se_partial :: "assistant_message option"
  se_contentIndex :: nat
  se_delta :: string

text \<open>A message inside an event: the message, or the dictionary that \<open>dict(message)\<close> makes of it.\<close>

datatype event_message = Message agent_message | DictOf assistant_message

datatype agent_event =
    AgentStart
  | TurnStart
  | MessageStart event_message
  | MessageUpdate stream_event event_message
  | MessageEnd agent_message
  | ToolExecutionStart string string pyval
  | ToolExecutionUpdate string string pyval tool_result
  | ToolExecutionEnd string string tool_result bool bool
  | TurnEnd agent_message "tool_result_message list"
  | AgentEnd "agent_message list"

section \<open>Configuration\<close>

record loop_model =
  lm_id :: string
  lm_api :: string
  lm_provider :: string
  lm_thinkingLevelMap :: "(string \<times> string option) list option"

record before_result =
  be_block :: bool
  be_reason :: "string option"

record after_result =
  af_content :: "content_block list option"
  af_details :: "pyval option"
  af_terminate :: "pyval option"
  af_isError :: "bool option"

record 'w call_context =
  cc_assistantMessage :: assistant_message
  cc_toolCall :: tool_call
  cc_args :: "pyval option"
  cc_context :: "'w agent_context"

record 'w turn_context =
  tx_message :: assistant_message
  tx_toolResults :: "tool_result_message list"
  tx_context :: "'w agent_context"
  tx_newMessages :: "agent_message list"

text \<open>An update of the next turn; \<open>None\<close> for a key that is missing, \<open>Some None\<close> for \<^verbatim>\<open>None\<close>.\<close>

record 'w turn_update =
  tu_context :: "'w agent_context option"
  tu_model :: "loop_model option option"
  tu_thinkingLevel :: "string option option"

record 'w loop_config =
  lc_model :: "loop_model option"
  lc_thinkingLevel :: "string option"
  lc_reasoning :: "string option"
  lc_apiKey :: "string option"
  lc_toolExecution :: "string option"
  lc_convertToLlm :: "(agent_message list \<Rightarrow> ('w, agent_message list) act) option"
  lc_transformContext :: "(agent_message list \<Rightarrow> ('w, agent_message list) act) option"
  lc_getApiKey :: "(string \<Rightarrow> ('w, string option) act) option"
  lc_beforeToolCall :: "('w call_context \<Rightarrow> ('w, before_result option) act) option"
  lc_resolveDeferredTool :: "('w call_context \<Rightarrow> ('w, 'w agent_tool option) act) option"
  lc_afterToolCall :: "('w call_context \<Rightarrow> tool_result \<Rightarrow> bool \<Rightarrow> ('w, after_result option) act) option"
  lc_prepareNextTurn :: "('w turn_context \<Rightarrow> ('w, 'w turn_update option) act) option"
  lc_shouldStopAfterTurn :: "('w turn_context \<Rightarrow> ('w, bool) act) option"
  lc_getSteeringMessages :: "('w, agent_message list) act option"
  lc_getFollowUpMessages :: "('w, agent_message list) act option"

section \<open>The surroundings of a run\<close>

type_synonym 'w stream_fn =
  "loop_model option \<Rightarrow> pyval \<Rightarrow> 'w loop_config \<Rightarrow> string option \<Rightarrow> ('w, unit) act"

record 'w loop_env =
  le_emit :: "agent_event \<Rightarrow> ('w, unit) act"
  le_signal :: "('w \<Rightarrow> bool \<times> string option) option"
  le_stream_fn :: "'w stream_fn option"
  le_runtime :: "'w stream_fn option option"
  le_stream_next :: "('w, stream_event option) act"
  le_stream_result :: "('w, assistant_message) act"
  le_make_context :: "string \<Rightarrow> agent_message list \<Rightarrow> 'w agent_tool list \<Rightarrow> pyval res"
  le_now_ms :: "'w \<Rightarrow> int"
  le_exn_text :: "pyexn \<Rightarrow> string"
  le_fable5 :: "loop_model \<Rightarrow> bool"

text \<open>
  The state of a run: the world, the current context, the messages of the run, and the events that
  have been handed to \<open>emit\<close> so far, which the code does not keep.
\<close>

record 'w loop_state =
  lp_world :: 'w
  lp_context :: "'w agent_context"
  lp_new_messages :: "agent_message list"
  lp_events :: "agent_event list"

definition on_world :: "('w, 'a) act \<Rightarrow> ('w loop_state, 'a) act" where
  "on_world f s = (case f (lp_world s) of (r, w) \<Rightarrow> (r, s\<lparr>lp_world := w\<rparr>))"

definition emit :: "'w loop_env \<Rightarrow> agent_event \<Rightarrow> ('w loop_state, unit) act" where
  "emit E ev s = (case le_emit E ev (lp_world s) of
     (r, w) \<Rightarrow> (r, s\<lparr>lp_world := w, lp_events := lp_events s @ [ev]\<rparr>))"

definition aborted_now :: "'w loop_env \<Rightarrow> 'w loop_state \<Rightarrow> bool" where
  "aborted_now E s = (case le_signal E of None \<Rightarrow> False | Some f \<Rightarrow> fst (f (lp_world s)))"

definition map_messages :: "(agent_message list \<Rightarrow> agent_message list) \<Rightarrow> 'w loop_state \<Rightarrow> 'w loop_state" where
  "map_messages f s = s\<lparr>lp_context := (lp_context s)\<lparr>cx_messages := f (cx_messages (lp_context s))\<rparr>\<rparr>"

definition push_message :: "agent_message \<Rightarrow> ('w loop_state, unit) act" where
  "push_message m = modify_act (map_messages (\<lambda>ms. ms @ [m]))"

definition replace_last :: "agent_message \<Rightarrow> ('w loop_state, unit) act" where
  "replace_last m = modify_act (map_messages (\<lambda>ms. butlast ms @ [m]))"

definition push_new :: "agent_message \<Rightarrow> ('w loop_state, unit) act" where
  "push_new m = modify_act (\<lambda>s. s\<lparr>lp_new_messages := lp_new_messages s @ [m]\<rparr>)"

section \<open>Reasoning and streams\<close>

definition ENABLED_THINKING_LEVELS :: "string list" where
  "ENABLED_THINKING_LEVELS = [''minimal'', ''low'', ''medium'', ''high'', ''xhigh'', ''max'']"

definition is_enabled_thinking_level :: "string \<Rightarrow> bool" where
  "is_enabled_thinking_level v \<longleftrightarrow> v \<in> set ENABLED_THINKING_LEVELS"

definition resolve_agent_reasoning_option ::
  "(loop_model \<Rightarrow> bool) \<Rightarrow> loop_model option \<Rightarrow> string \<Rightarrow> string option res" where
  "resolve_agent_reasoning_option fable5 model thinking_level =
     (if thinking_level \<noteq> ''off'' then Inr (Some thinking_level)
      else
        let mapped = (case model of
                None \<Rightarrow> None
              | Some m \<Rightarrow> (case lm_thinkingLevelMap m of
                    None \<Rightarrow> None
                  | Some d \<Rightarrow> (case map_of d ''off'' of Some v \<Rightarrow> v | None \<Rightarrow> None)))
        in bind_res
             (if mapped \<noteq> None then Inr mapped
              else case model of
                None \<Rightarrow> Inl (PyAttributeError ''api'')
              | Some m \<Rightarrow>
                  Inr (if lm_api m \<in> {''anthropic-messages'', ''bedrock-converse-stream''} \<and> fable5 m
                       then Some ''low'' else None))
             (\<lambda>off. Inr (case off of
                 Some v \<Rightarrow> (if is_enabled_thinking_level v then Some v else None) | None \<Rightarrow> None)))"

definition resolve_agent_core_stream_fn ::
  "'w stream_fn option option \<Rightarrow> 'w stream_fn option \<Rightarrow> 'w stream_fn res" where
  "resolve_agent_core_stream_fn runtime stream_fn =
     (case stream_fn of
        Some f \<Rightarrow> Inr f
      | None \<Rightarrow>
          (case runtime of
             Some (Some f) \<Rightarrow> Inr f
           | _ \<Rightarrow> Inl (PlainException (''@openclaw/agent-core runtime dependency '' @ [CHR 0x22]
               @ ''streamSimple'' @ [CHR 0x22] @ '' is not configured. Pass an AgentCoreRuntimeDeps instance or a streamFn explicitly.''))))"

section \<open>Messages of the loop\<close>

definition EMPTY_USAGE :: pyval where
  "EMPTY_USAGE = VDict
     [(''input'', VInt 0), (''output'', VInt 0), (''cache_read'', VInt 0), (''cache_write'', VInt 0),
      (''total_tokens'', VInt 0),
      (''cost'', VDict [(''input'', VInt 0), (''output'', VInt 0), (''cacheRead'', VInt 0),
                        (''cacheWrite'', VInt 0), (''total'', VInt 0)])]"

text \<open>The clock is read once, and reading a field of a model that is \<^verbatim>\<open>None\<close> raises.\<close>

definition create_loop_failure_message ::
  "int \<Rightarrow> 'w loop_config \<Rightarrow> string option \<Rightarrow> bool \<Rightarrow> assistant_message res" where
  "create_loop_failure_message now cfg error aborted =
     (case lc_model cfg of
        None \<Rightarrow> Inl (PyAttributeError ''api'')
      | Some m \<Rightarrow> Inr
          \<lparr>am_content = [TextBlock []], am_api = lm_api m, am_provider = lm_provider m,
           am_model = lm_id m, am_usage = EMPTY_USAGE,
           am_stop_reason = (if aborted then ''aborted'' else ''error''),
           am_error_message = error, am_timestamp = now\<rparr>)"

text \<open>The text of the reason why the run was aborted; without one, that of a fixed exception.\<close>

definition abort_text :: "'w loop_env \<Rightarrow> 'w loop_state \<Rightarrow> string option" where
  "abort_text E s =
     (case le_signal E of
        None \<Rightarrow> None
      | Some f \<Rightarrow> Some (case snd (f (lp_world s)) of Some t \<Rightarrow> t | None \<Rightarrow> ''Agent run aborted''))"

definition stop_if_aborted :: "'w loop_env \<Rightarrow> 'w loop_config \<Rightarrow> ('w loop_state, bool) act" where
  "stop_if_aborted E cfg =
     bind_act (get_act (aborted_now E)) (\<lambda>aborted.
       if \<not> aborted then ret_act False
       else bind_act (get_act (abort_text E)) (\<lambda>reason.
         bind_act (get_act (\<lambda>s. le_now_ms E (lp_world s))) (\<lambda>now.
           bind_act (of_res (create_loop_failure_message now cfg reason True)) (\<lambda>m.
             then_act (emit E (MessageStart (Message (AssistantM m))))
               (then_act (emit E (MessageEnd (AssistantM m)))
                 (then_act (emit E (TurnEnd (AssistantM m) []))
                   (then_act (emit E (AgentEnd [AssistantM m])) (ret_act True))))))))"

section \<open>The response of the model\<close>

definition append_text_delta_to_assistant_message ::
  "assistant_message \<Rightarrow> nat \<Rightarrow> string \<Rightarrow> assistant_message" where
  "append_text_delta_to_assistant_message m i delta =
     m\<lparr>am_content :=
        (case (if i < length (am_content m) then Some (am_content m ! i) else None) of
           Some (TextBlock t) \<Rightarrow> (am_content m)[i := TextBlock (t @ delta)]
         | _ \<Rightarrow> take i (am_content m) @ [TextBlock delta] @ drop i (am_content m))\<rparr>"

definition resolve_assistant_message_update ::
  "stream_event \<Rightarrow> assistant_message \<Rightarrow> assistant_message" where
  "resolve_assistant_message_update ev m =
     (case se_partial ev of
        Some p \<Rightarrow> p
      | None \<Rightarrow>
          (if se_type ev = Some ''text_delta''
           then append_text_delta_to_assistant_message m (se_contentIndex ev) (se_delta ev)
           else m))"

definition UPDATE_TYPES :: "string list" where
  "UPDATE_TYPES = [''text_start'', ''text_delta'', ''text_end'', ''thinking_start'', ''thinking_delta'',
     ''thinking_end'', ''toolcall_start'', ''toolcall_delta'', ''toolcall_end'']"

text \<open>The end of a response, which the loop over the events reaches in two ways.\<close>

definition finish_response :: "'w loop_env \<Rightarrow> bool \<Rightarrow> ('w loop_state, assistant_message) act" where
  "finish_response E added =
     bind_act (on_world (le_stream_result E)) (\<lambda>final.
       then_act
         (if added then replace_last (AssistantM final)
          else then_act (push_message (AssistantM final)) (emit E (MessageStart (DictOf final))))
         (then_act (emit E (MessageEnd (AssistantM final))) (ret_act final)))"

text \<open>
  One event: either the response is complete, or the loop goes on with the partial message and the
  flag that says whether it is in the context. \<^verbatim>\<open>dict(None)\<close> raises.
\<close>

definition stream_step ::
  "'w loop_env \<Rightarrow> stream_event \<Rightarrow> assistant_message option \<Rightarrow> bool
     \<Rightarrow> ('w loop_state, assistant_message + (assistant_message option \<times> bool)) act" where
  "stream_step E ev partial added =
     (if se_type ev = Some ''start'' then
        (case se_partial ev of
           None \<Rightarrow> then_act (push_message (OtherM VNone)) (raise_act PyTypeError)
         | Some m \<Rightarrow> then_act (push_message (AssistantM m))
             (then_act (emit E (MessageStart (DictOf m))) (ret_act (Inr (Some m, True)))))
      else if se_type ev \<in> Some ` set UPDATE_TYPES then
        (case partial of
           None \<Rightarrow> ret_act (Inr (None, added))
         | Some p \<Rightarrow>
             (let m = resolve_assistant_message_update ev p
              in then_act (replace_last (AssistantM m))
                   (then_act (emit E (MessageUpdate ev (DictOf m))) (ret_act (Inr (Some m, added))))))
      else if se_type ev \<in> {Some ''done'', Some ''error''} then
        bind_act (finish_response E added) (\<lambda>final. ret_act (Inl final))
      else ret_act (Inr (partial, added)))"

text \<open>The loop over the events of a stream may never end: no result is \<^term>\<open>None\<close>.\<close>

partial_function (option) stream_loop ::
  "'w loop_env \<Rightarrow> assistant_message option \<Rightarrow> bool \<Rightarrow> 'w loop_state
     \<Rightarrow> (assistant_message res \<times> 'w loop_state) option" where
  "stream_loop E partial added s =
     (case on_world (le_stream_next E) s of
        (Inl e, s') \<Rightarrow> Some (Inl e, s')
      | (Inr None, s') \<Rightarrow> Some (finish_response E added s')
      | (Inr (Some ev), s') \<Rightarrow>
          (case stream_step E ev partial added s' of
             (Inl e, s'') \<Rightarrow> Some (Inl e, s'')
           | (Inr (Inl final), s'') \<Rightarrow> Some (Inr final, s'')
           | (Inr (Inr (partial', added')), s'') \<Rightarrow> stream_loop E partial' added' s''))"

definition open_stream :: "'w loop_env \<Rightarrow> 'w loop_config \<Rightarrow> ('w loop_state, unit) act" where
  "open_stream E cfg =
     bind_act (get_act lp_context) (\<lambda>ctx.
     bind_act (case lc_transformContext cfg of
                 None \<Rightarrow> ret_act (cx_messages ctx)
               | Some f \<Rightarrow> on_world (f (cx_messages ctx))) (\<lambda>messages.
     bind_act (case lc_convertToLlm cfg of
                 None \<Rightarrow> ret_act []
               | Some f \<Rightarrow> on_world (f messages)) (\<lambda>llm_messages.
     bind_act (of_res (le_make_context E (cx_systemPrompt ctx) llm_messages
                 (case cx_tools ctx of None \<Rightarrow> [] | Some ts \<Rightarrow> ts))) (\<lambda>llm_context.
     bind_act (of_res (resolve_agent_core_stream_fn (le_runtime E) (le_stream_fn E))) (\<lambda>resolve_fn.
     bind_act (case lc_getApiKey cfg of
                 None \<Rightarrow> ret_act (lc_apiKey cfg)
               | Some f \<Rightarrow>
                   (case lc_model cfg of
                      None \<Rightarrow> raise_act (PyAttributeError ''provider'')
                    | Some m \<Rightarrow> bind_act (on_world (f (lm_provider m))) (\<lambda>k.
                        ret_act (case k of None \<Rightarrow> lc_apiKey cfg | Some k' \<Rightarrow> Some k')))) (\<lambda>key.
     on_world (resolve_fn (lc_model cfg) llm_context cfg key)))))))"

definition stream_assistant_response ::
  "'w loop_env \<Rightarrow> 'w loop_config \<Rightarrow> 'w loop_state
     \<Rightarrow> (assistant_message res \<times> 'w loop_state) option" where
  "stream_assistant_response E cfg s =
     (case open_stream E cfg s of
        (Inl e, s') \<Rightarrow> Some (Inl e, s')
      | (Inr u, s') \<Rightarrow> stream_loop E None False s')"

end
