(* ===== verification/ToolCalls.thy ===== *)
theory ToolCalls
  imports AgentLoop
begin

text \<open>
  The tool calls of \<^verbatim>\<open>agent_core/agent_loop.py\<close>: resolving the tool of a call, preparing the call,
  running it, and the batch of the calls of a message, one after the other or in two passes. The
  dictionary of resolutions that the functions of a batch share is threaded through them.
\<close>

section \<open>Resolution and preparation\<close>

datatype 'w resolution = Resolved "'w agent_tool option" | ResolveError pyexn

datatype 'w preparation =
    Immediate tool_result bool
  | Prepared tool_call "'w agent_tool" pyval

record finalized_call =
  fz_toolCall :: tool_call
  fz_result :: tool_result
  fz_isError :: bool
  fz_executionStarted :: bool

definition assistant_tool_calls :: "assistant_message \<Rightarrow> tool_call list" where
  "assistant_tool_calls m = concat (map (\<lambda>b. case b of ToolCallBlock c \<Rightarrow> [c] | _ \<Rightarrow> []) (am_content m))"

definition create_error_tool_result :: "string \<Rightarrow> tool_result" where
  "create_error_tool_result msg =
     \<lparr>rt_content = [TextBlock msg], rt_details = VDict [], rt_progress = VNone, rt_terminate = VBool False\<rparr>"

text \<open>
  The function of the module has the name of the validator that the module imports, so the name in
  its body is the function itself: it is called with two dictionaries, whose attribute \<^verbatim>\<open>name\<close> does
  not exist.
\<close>

definition validate_tool_dicts :: "(string \<times> pyval) list \<Rightarrow> (string \<times> pyval) list \<Rightarrow> pyval res" where
  "validate_tool_dicts tool call = Inl (PyAttributeError ''name'')"

definition validate_tool_arguments :: "'w agent_tool \<Rightarrow> tool_call \<Rightarrow> pyval res" where
  "validate_tool_arguments tool call =
     validate_tool_dicts
       [(''name'', VStr (at_name tool)), (''description'', at_description tool),
        (''parameters'', at_parameters tool)]
       [(''name'', VStr (tc_name call)), (''arguments'', tc_arguments call)]"

definition add_tool :: "'w agent_tool \<Rightarrow> ('w loop_state, unit) act" where
  "add_tool t = modify_act (\<lambda>s. s\<lparr>lp_context := (lp_context s)\<lparr>cx_tools :=
     Some ((case cx_tools (lp_context s) of None \<Rightarrow> [] | Some ts \<Rightarrow> ts) @ [t])\<rparr>\<rparr>)"

definition find_tool ::
  "'w loop_config \<Rightarrow> assistant_message \<Rightarrow> tool_call \<Rightarrow> ('w loop_state, 'w agent_tool option) act" where
  "find_tool cfg am call =
     bind_act (get_act lp_context) (\<lambda>ctx.
       case (case cx_tools ctx of None \<Rightarrow> None | Some ts \<Rightarrow> find (\<lambda>t. at_name t = tc_name call) ts) of
         Some t \<Rightarrow> ret_act (Some t)
       | None \<Rightarrow>
           (case lc_resolveDeferredTool cfg of
              None \<Rightarrow> ret_act None
            | Some f \<Rightarrow>
                bind_act (on_world (f \<lparr>cc_assistantMessage = am, cc_toolCall = call, cc_args = None,
                                       cc_context = ctx\<rparr>)) (\<lambda>found.
                  case found of
                    None \<Rightarrow> ret_act None
                  | Some t \<Rightarrow>
                      if at_name t \<noteq> tc_name call
                      then raise_act (PlainException (''Deferred tool resolver returned '' @ [CHR 0x22]
                        @ at_name t @ [CHR 0x22] @ '' for requested '' @ [CHR 0x22] @ tc_name call @ [CHR 0x22]))
                      else then_act (add_tool t) (ret_act (Some t)))))"

definition resolve_tool_call_tool ::
  "'w loop_config \<Rightarrow> assistant_message \<Rightarrow> tool_call \<Rightarrow> (string \<rightharpoonup> 'w resolution)
     \<Rightarrow> ('w loop_state, 'w resolution \<times> (string \<rightharpoonup> 'w resolution)) act" where
  "resolve_tool_call_tool cfg am call resolved =
     (case resolved (tc_id call) of
        Some r \<Rightarrow> ret_act (r, resolved)
      | None \<Rightarrow>
          bind_act (catch_act (bind_act (find_tool cfg am call) (\<lambda>t. ret_act (Resolved t)))
                              (\<lambda>e. ret_act (ResolveError e)))
            (\<lambda>r. ret_act (r, resolved(tc_id call \<mapsto> r))))"

definition error_outcome :: "string \<Rightarrow> ('w loop_state, 'w preparation) act" where
  "error_outcome msg = ret_act (Immediate (create_error_tool_result msg) True)"

definition check_prepared ::
  "'w loop_env \<Rightarrow> 'w loop_config \<Rightarrow> assistant_message \<Rightarrow> tool_call \<Rightarrow> 'w agent_tool
     \<Rightarrow> ('w loop_state, 'w preparation) act" where
  "check_prepared E cfg am call tool =
     bind_act (case at_prepareArguments tool of
                 None \<Rightarrow> ret_act call
               | Some f \<Rightarrow> bind_act (of_res (f (tc_arguments call))) (\<lambda>new_args.
                   ret_act (if new_args \<noteq> tc_arguments call then call\<lparr>tc_arguments := new_args\<rparr> else call)))
       (\<lambda>prepared.
     bind_act (of_res (validate_tool_arguments tool prepared)) (\<lambda>args.
       (let go_on = bind_act (get_act (aborted_now E)) (\<lambda>aborted.
              if aborted then error_outcome ''Operation aborted''
              else ret_act (Prepared prepared tool args))
        in case lc_beforeToolCall cfg of
             None \<Rightarrow> go_on
           | Some f \<Rightarrow>
               bind_act (get_act lp_context) (\<lambda>ctx.
               bind_act (on_world (f \<lparr>cc_assistantMessage = am, cc_toolCall = prepared,
                                      cc_args = Some args, cc_context = ctx\<rparr>)) (\<lambda>before.
               bind_act (get_act (aborted_now E)) (\<lambda>aborted.
                 if aborted then error_outcome ''Operation aborted''
                 else (case before of
                         None \<Rightarrow> go_on
                       | Some b \<Rightarrow>
                           if be_block b
                           then error_outcome (case be_reason b of
                               Some r \<Rightarrow> if r \<noteq> [] then r else ''Tool execution was blocked''
                             | None \<Rightarrow> ''Tool execution was blocked'')
                           else go_on)))))))"

definition prepare_tool_call ::
  "'w loop_env \<Rightarrow> 'w loop_config \<Rightarrow> assistant_message \<Rightarrow> tool_call \<Rightarrow> (string \<rightharpoonup> 'w resolution)
     \<Rightarrow> ('w loop_state, 'w preparation \<times> (string \<rightharpoonup> 'w resolution)) act" where
  "prepare_tool_call E cfg am call resolved =
     bind_act (resolve_tool_call_tool cfg am call resolved) (\<lambda>(resolution, resolved').
       bind_act
         (case resolution of
            ResolveError e \<Rightarrow>
              bind_act (get_act (aborted_now E)) (\<lambda>aborted.
                error_outcome (if aborted then ''Operation aborted'' else le_exn_text E e))
          | Resolved None \<Rightarrow> error_outcome (''Tool '' @ tc_name call @ '' not found'')
          | Resolved (Some tool) \<Rightarrow>
              catch_act (check_prepared E cfg am call tool) (\<lambda>e. error_outcome (le_exn_text E e)))
         (\<lambda>p. ret_act (p, resolved')))"

section \<open>Execution\<close>

text \<open>
  The updates that a tool reported are sent in order. When sending one fails, the rest of them is
  sent by the handler, which ignores further failures.
\<close>

definition update_event :: "tool_call \<Rightarrow> tool_result \<Rightarrow> agent_event" where
  "update_event call partial = ToolExecutionUpdate (tc_id call) (tc_name call) (tc_arguments call) partial"

fun send_updates ::
  "'w loop_env \<Rightarrow> tool_call \<Rightarrow> tool_result list \<Rightarrow> ('w loop_state, (pyexn \<times> tool_result list) option) act" where
  "send_updates E call [] = ret_act None"
| "send_updates E call (u # us) =
     bind_act (catch_act (then_act (emit E (update_event call u)) (ret_act None)) (\<lambda>e. ret_act (Some (e, us))))
       (\<lambda>failed. case failed of None \<Rightarrow> send_updates E call us | Some x \<Rightarrow> ret_act (Some x))"

definition drain_updates :: "'w loop_env \<Rightarrow> tool_call \<Rightarrow> tool_result list \<Rightarrow> ('w loop_state, unit) act" where
  "drain_updates E call =
     each_act (\<lambda>u. catch_act (emit E (update_event call u)) (\<lambda>_. ret_act ()))"

definition execute_prepared_tool_call ::
  "'w loop_env \<Rightarrow> tool_call \<Rightarrow> 'w agent_tool \<Rightarrow> pyval \<Rightarrow> ('w loop_state, tool_result \<times> bool) act" where
  "execute_prepared_tool_call E call tool args =
     bind_act (on_world (\<lambda>w. case at_execute tool (tc_id call) args w of (r, w') \<Rightarrow> (Inr r, w')))
       (\<lambda>(outcome, updates).
         (let failed = (\<lambda>e rest. then_act (drain_updates E call rest)
                (ret_act (create_error_tool_result (le_exn_text E e), True)))
          in case outcome of
               Inl e \<Rightarrow> failed e updates
             | Inr result \<Rightarrow>
                 bind_act (send_updates E call updates) (\<lambda>stopped.
                   case stopped of
                     None \<Rightarrow> ret_act (result, False)
                   | Some (e, rest) \<Rightarrow> failed e rest)))"

definition finalize_executed_tool_call ::
  "'w loop_env \<Rightarrow> 'w loop_config \<Rightarrow> assistant_message \<Rightarrow> tool_call \<Rightarrow> pyval \<Rightarrow> tool_result \<times> bool
     \<Rightarrow> ('w loop_state, finalized_call) act" where
  "finalize_executed_tool_call E cfg am call args executed =
     bind_act
       (case lc_afterToolCall cfg of
          None \<Rightarrow> ret_act executed
        | Some f \<Rightarrow>
            catch_act
              (bind_act (get_act lp_context) (\<lambda>ctx.
               bind_act (on_world (f \<lparr>cc_assistantMessage = am, cc_toolCall = call, cc_args = Some args,
                                      cc_context = ctx\<rparr> (fst executed) (snd executed))) (\<lambda>after.
                 ret_act (case after of
                     None \<Rightarrow> executed
                   | Some a \<Rightarrow>
                       (let r0 = fst executed;
                            r1 = (case af_content a of None \<Rightarrow> r0 | Some v \<Rightarrow> r0\<lparr>rt_content := v\<rparr>);
                            r2 = (case af_details a of None \<Rightarrow> r1 | Some v \<Rightarrow> r1\<lparr>rt_details := v\<rparr>);
                            r3 = (case af_terminate a of None \<Rightarrow> r2 | Some v \<Rightarrow> r2\<lparr>rt_terminate := v\<rparr>)
                        in (r3, case af_isError a of None \<Rightarrow> snd executed | Some b \<Rightarrow> b))))))
              (\<lambda>e. ret_act (create_error_tool_result (le_exn_text E e), True)))
       (\<lambda>(result, is_error). ret_act
          \<lparr>fz_toolCall = call, fz_result = result, fz_isError = is_error, fz_executionStarted = True\<rparr>)"

definition immediate_entry :: "tool_call \<Rightarrow> tool_result \<Rightarrow> bool \<Rightarrow> finalized_call" where
  "immediate_entry call result is_error =
     \<lparr>fz_toolCall = call, fz_result = result, fz_isError = is_error, fz_executionStarted = False\<rparr>"

definition should_terminate_tool_batch :: "finalized_call list \<Rightarrow> bool" where
  "should_terminate_tool_batch fs \<longleftrightarrow>
     fs \<noteq> [] \<and> list_all (\<lambda>f. rt_terminate (fz_result f) = VBool True) fs"

definition create_tool_result_message :: "finalized_call \<Rightarrow> int \<Rightarrow> tool_result_message" where
  "create_tool_result_message f now =
     \<lparr>tm_toolCallId = tc_id (fz_toolCall f), tm_toolName = tc_name (fz_toolCall f),
      tm_content = rt_content (fz_result f), tm_details = rt_details (fz_result f),
      tm_isError = fz_isError f, tm_timestamp = now\<rparr>"

definition emit_tool_execution_end :: "'w loop_env \<Rightarrow> finalized_call \<Rightarrow> ('w loop_state, unit) act" where
  "emit_tool_execution_end E f =
     emit E (ToolExecutionEnd (tc_id (fz_toolCall f)) (tc_name (fz_toolCall f)) (fz_result f)
               (fz_isError f) (fz_executionStarted f))"

definition emit_tool_result_message ::
  "'w loop_env \<Rightarrow> tool_result_message \<Rightarrow> ('w loop_state, unit) act" where
  "emit_tool_result_message E m =
     then_act (emit E (MessageStart (Message (ToolResultM m)))) (emit E (MessageEnd (ToolResultM m)))"

definition post_tool_result ::
  "'w loop_env \<Rightarrow> finalized_call \<Rightarrow> ('w loop_state, tool_result_message) act" where
  "post_tool_result E f =
     bind_act (get_act (\<lambda>s. create_tool_result_message f (le_now_ms E (lp_world s)))) (\<lambda>m.
       then_act (emit_tool_result_message E m) (ret_act m))"

section \<open>Batches\<close>

definition start_event :: "tool_call \<Rightarrow> agent_event" where
  "start_event call = ToolExecutionStart (tc_id call) (tc_name call) (tc_arguments call)"

definition run_prepared ::
  "'w loop_env \<Rightarrow> 'w loop_config \<Rightarrow> assistant_message \<Rightarrow> tool_call \<Rightarrow> 'w agent_tool \<Rightarrow> pyval
     \<Rightarrow> ('w loop_state, finalized_call) act" where
  "run_prepared E cfg am call tool args =
     bind_act (execute_prepared_tool_call E call tool args)
       (finalize_executed_tool_call E cfg am call args)"

definition sequential_entry ::
  "'w loop_env \<Rightarrow> 'w loop_config \<Rightarrow> assistant_message \<Rightarrow> tool_call \<Rightarrow> 'w preparation
     \<Rightarrow> ('w loop_state, finalized_call) act" where
  "sequential_entry E cfg am call p =
     (case p of
        Immediate result is_error \<Rightarrow> ret_act (immediate_entry call result is_error)
      | Prepared call' tool args \<Rightarrow> run_prepared E cfg am call' tool args)"

fun execute_sequential ::
  "'w loop_env \<Rightarrow> 'w loop_config \<Rightarrow> assistant_message \<Rightarrow> tool_call list \<Rightarrow> (string \<rightharpoonup> 'w resolution)
     \<Rightarrow> ('w loop_state, (finalized_call \<times> tool_result_message) list) act" where
  "execute_sequential E cfg am [] resolved = ret_act []"
| "execute_sequential E cfg am (call # calls) resolved =
     then_act (emit E (start_event call))
       (bind_act (prepare_tool_call E cfg am call resolved) (\<lambda>(p, resolved').
         bind_act (sequential_entry E cfg am call p) (\<lambda>f.
           then_act (emit_tool_execution_end E f)
             (bind_act (post_tool_result E f) (\<lambda>m.
               bind_act (get_act (aborted_now E)) (\<lambda>aborted.
                 if aborted then ret_act [(f, m)]
                 else bind_act (execute_sequential E cfg am calls resolved') (\<lambda>rest.
                   ret_act ((f, m) # rest))))))))"

text \<open>
  The first pass of the parallel mode prepares the calls; the entry of a call that can run is a
  coroutine, which does nothing before the second pass awaits it, in order.
\<close>

datatype 'w batch_entry = Finished finalized_call | Coroutine tool_call "'w agent_tool" pyval

fun start_parallel ::
  "'w loop_env \<Rightarrow> 'w loop_config \<Rightarrow> assistant_message \<Rightarrow> tool_call list \<Rightarrow> (string \<rightharpoonup> 'w resolution)
     \<Rightarrow> ('w loop_state, 'w batch_entry list) act" where
  "start_parallel E cfg am [] resolved = ret_act []"
| "start_parallel E cfg am (call # calls) resolved =
     then_act (emit E (start_event call))
       (bind_act (prepare_tool_call E cfg am call resolved) (\<lambda>(p, resolved').
         bind_act
           (case p of
              Immediate result is_error \<Rightarrow>
                then_act (emit_tool_execution_end E (immediate_entry call result is_error))
                  (ret_act (Finished (immediate_entry call result is_error)))
            | Prepared call' tool args \<Rightarrow> ret_act (Coroutine call' tool args)) (\<lambda>entry.
           bind_act (get_act (aborted_now E)) (\<lambda>aborted.
             if aborted then ret_act [entry]
             else bind_act (start_parallel E cfg am calls resolved') (\<lambda>rest. ret_act (entry # rest))))))"

fun await_entries ::
  "'w loop_env \<Rightarrow> 'w loop_config \<Rightarrow> assistant_message \<Rightarrow> 'w batch_entry list
     \<Rightarrow> ('w loop_state, finalized_call list) act" where
  "await_entries E cfg am [] = ret_act []"
| "await_entries E cfg am (entry # entries) =
     bind_act
       (case entry of
          Finished f \<Rightarrow> ret_act f
        | Coroutine call tool args \<Rightarrow>
            bind_act (run_prepared E cfg am call tool args) (\<lambda>f.
              then_act (emit_tool_execution_end E f) (ret_act f))) (\<lambda>f.
       bind_act (await_entries E cfg am entries) (\<lambda>rest. ret_act (f # rest)))"

fun post_results ::
  "'w loop_env \<Rightarrow> finalized_call list \<Rightarrow> ('w loop_state, tool_result_message list) act" where
  "post_results E [] = ret_act []"
| "post_results E (f # fs) =
     bind_act (post_tool_result E f) (\<lambda>m. bind_act (post_results E fs) (\<lambda>rest. ret_act (m # rest)))"

type_synonym batch_result = "tool_result_message list \<times> bool"

definition execute_tool_calls_sequential ::
  "'w loop_env \<Rightarrow> 'w loop_config \<Rightarrow> assistant_message \<Rightarrow> tool_call list \<Rightarrow> (string \<rightharpoonup> 'w resolution)
     \<Rightarrow> ('w loop_state, batch_result) act" where
  "execute_tool_calls_sequential E cfg am calls resolved =
     bind_act (execute_sequential E cfg am calls resolved) (\<lambda>rs.
       ret_act (map snd rs, should_terminate_tool_batch (map fst rs)))"

definition execute_tool_calls_parallel ::
  "'w loop_env \<Rightarrow> 'w loop_config \<Rightarrow> assistant_message \<Rightarrow> tool_call list \<Rightarrow> (string \<rightharpoonup> 'w resolution)
     \<Rightarrow> ('w loop_state, batch_result) act" where
  "execute_tool_calls_parallel E cfg am calls resolved =
     bind_act (start_parallel E cfg am calls resolved) (\<lambda>entries.
       bind_act (await_entries E cfg am entries) (\<lambda>ordered.
         bind_act (post_results E ordered) (\<lambda>messages.
           ret_act (messages, should_terminate_tool_batch ordered))))"

text \<open>The scan for a tool that must not run beside others, which stops at the first one.\<close>

definition is_sequential :: "'w resolution \<Rightarrow> bool" where
  "is_sequential r =
     (case r of Resolved (Some t) \<Rightarrow> at_executionMode t = Some ''sequential'' | _ \<Rightarrow> False)"

fun scan_sequential ::
  "'w loop_env \<Rightarrow> 'w loop_config \<Rightarrow> assistant_message \<Rightarrow> tool_call list \<Rightarrow> (string \<rightharpoonup> 'w resolution)
     \<Rightarrow> ('w loop_state, bool \<times> (string \<rightharpoonup> 'w resolution)) act" where
  "scan_sequential E cfg am [] resolved = ret_act (False, resolved)"
| "scan_sequential E cfg am (call # calls) resolved =
     bind_act (resolve_tool_call_tool cfg am call resolved) (\<lambda>(r, resolved').
       if is_sequential r then ret_act (True, resolved')
       else bind_act (get_act (aborted_now E)) (\<lambda>aborted.
         if aborted then ret_act (False, resolved') else scan_sequential E cfg am calls resolved'))"

definition execute_tool_calls ::
  "'w loop_env \<Rightarrow> 'w loop_config \<Rightarrow> assistant_message \<Rightarrow> ('w loop_state, batch_result) act" where
  "execute_tool_calls E cfg am =
     bind_act (if lc_toolExecution cfg \<noteq> Some ''sequential''
               then scan_sequential E cfg am (assistant_tool_calls am) Map.empty
               else ret_act (False, Map.empty)) (\<lambda>(has_sequential, resolved).
       if lc_toolExecution cfg = Some ''sequential'' \<or> has_sequential
       then execute_tool_calls_sequential E cfg am (assistant_tool_calls am) resolved
       else execute_tool_calls_parallel E cfg am (assistant_tool_calls am) resolved)"

end
