(* ===== verification/TurnLoop.thy ===== *)
theory TurnLoop
  imports ToolCalls
begin

text \<open>
  The turns of \<^verbatim>\<open>agent_core/agent_loop.py\<close>: \<open>run_turn\<close> is the body of the inner loop of
  \<^verbatim>\<open>_run_loop\<close>, \<open>turn_loop\<close> the two nested loops, and \<open>run_agent_loop\<close> and
  \<open>run_agent_loop_continue\<close> the two ways to start a run. The loops may run forever.
\<close>

section \<open>The parts of a turn\<close>

definition announce :: "'w loop_env \<Rightarrow> agent_message \<Rightarrow> ('w loop_state, unit) act" where
  "announce E m = then_act (emit E (MessageStart (Message m))) (emit E (MessageEnd m))"

definition add_pending :: "'w loop_env \<Rightarrow> agent_message \<Rightarrow> ('w loop_state, unit) act" where
  "add_pending E m = then_act (announce E m) (then_act (push_message m) (push_new m))"

definition begin_turn ::
  "'w loop_env \<Rightarrow> 'w loop_config \<Rightarrow> bool \<Rightarrow> agent_message list \<Rightarrow> ('w loop_state, bool) act" where
  "begin_turn E cfg first pending =
     bind_act (stop_if_aborted E cfg) (\<lambda>stopped.
       if stopped then ret_act True
       else then_act (if first then ret_act () else emit E TurnStart)
         (then_act (each_act (add_pending E) pending) (stop_if_aborted E cfg)))"

definition poll :: "('w, agent_message list) act option \<Rightarrow> ('w loop_state, agent_message list) act" where
  "poll f = (case f of None \<Rightarrow> ret_act [] | Some g \<Rightarrow> on_world g)"

definition run_tools ::
  "'w loop_env \<Rightarrow> 'w loop_config \<Rightarrow> assistant_message \<Rightarrow> ('w loop_state, batch_result) act" where
  "run_tools E cfg m =
     (if assistant_tool_calls m = [] then ret_act ([], True)
      else bind_act (execute_tool_calls E cfg m) (\<lambda>(results, stop).
        then_act (each_act (\<lambda>r. then_act (push_message (ToolResultM r)) (push_new (ToolResultM r))) results)
          (ret_act (results, stop))))"

definition turn_context_of ::
  "assistant_message \<Rightarrow> tool_result_message list \<Rightarrow> 'w loop_state \<Rightarrow> 'w turn_context" where
  "turn_context_of m results s =
     \<lparr>tx_message = m, tx_toolResults = results, tx_context = lp_context s,
      tx_newMessages = lp_new_messages s\<rparr>"

definition apply_turn_update ::
  "'w loop_env \<Rightarrow> 'w loop_config \<Rightarrow> 'w turn_update \<Rightarrow> ('w loop_state, 'w loop_config) act" where
  "apply_turn_update E cfg u =
     then_act (case tu_context u of
                 None \<Rightarrow> ret_act () | Some c \<Rightarrow> modify_act (\<lambda>s. s\<lparr>lp_context := c\<rparr>))
       (let next_model = (case tu_model u of None \<Rightarrow> lc_model cfg | Some m \<Rightarrow> m);
            next_thinking = (case tu_thinkingLevel u of None \<Rightarrow> lc_thinkingLevel cfg | Some l \<Rightarrow> l);
            level_given = (case tu_thinkingLevel u of Some (Some l) \<Rightarrow> True | _ \<Rightarrow> False);
            model_given = (case tu_model u of Some (Some m) \<Rightarrow> True | _ \<Rightarrow> False)
        in bind_act
             (case next_thinking of
                Some level \<Rightarrow>
                  (if level_given \<or> model_given
                   then of_res (resolve_agent_reasoning_option (le_fable5 E) next_model level)
                   else ret_act (lc_reasoning cfg))
              | None \<Rightarrow> ret_act (lc_reasoning cfg))
             (\<lambda>reasoning. ret_act (cfg\<lparr>lc_model := next_model, lc_thinkingLevel := next_thinking,
                                       lc_reasoning := reasoning\<rparr>)))"

definition prepare_next_turn ::
  "'w loop_env \<Rightarrow> 'w loop_config \<Rightarrow> assistant_message \<Rightarrow> tool_result_message list
     \<Rightarrow> ('w loop_state, 'w loop_config) act" where
  "prepare_next_turn E cfg m results =
     (case lc_prepareNextTurn cfg of
        None \<Rightarrow> ret_act cfg
      | Some f \<Rightarrow>
          bind_act (get_act (turn_context_of m results)) (\<lambda>tx.
            bind_act (on_world (f tx)) (\<lambda>update.
              case update of None \<Rightarrow> ret_act cfg | Some u \<Rightarrow> apply_turn_update E cfg u)))"

definition wants_stop ::
  "'w loop_config \<Rightarrow> assistant_message \<Rightarrow> tool_result_message list \<Rightarrow> ('w loop_state, bool) act" where
  "wants_stop cfg m results =
     (case lc_shouldStopAfterTurn cfg of
        None \<Rightarrow> ret_act False
      | Some f \<Rightarrow> bind_act (get_act (turn_context_of m results)) (\<lambda>tx. on_world (f tx)))"

definition end_run :: "'w loop_env \<Rightarrow> ('w loop_state, unit) act" where
  "end_run E = bind_act (get_act lp_new_messages) (\<lambda>ms. emit E (AgentEnd ms))"

text \<open>How a turn ends: the run is over, or it goes on with a configuration, the flag that asks for
  another turn, and the messages to add to it.\<close>

datatype 'w turn_end = RunOver | GoOn "'w loop_config" bool "agent_message list"

definition go_on ::
  "'w loop_env \<Rightarrow> ('w, agent_message list) act option \<Rightarrow> 'w loop_config \<Rightarrow> assistant_message
     \<Rightarrow> tool_result_message list \<Rightarrow> bool \<Rightarrow> ('w loop_state, 'w turn_end) act" where
  "go_on E steering cfg m results stop =
     bind_act (prepare_next_turn E cfg m results) (\<lambda>cfg'.
       bind_act (wants_stop cfg' m results) (\<lambda>ended.
         if ended then then_act (end_run E) (ret_act RunOver)
         else bind_act (poll steering) (\<lambda>pending.
           bind_act (stop_if_aborted E cfg') (\<lambda>stopped.
             ret_act (if stopped then RunOver else GoOn cfg' (\<not> stop) pending)))))"

definition close_turn ::
  "'w loop_env \<Rightarrow> ('w, agent_message list) act option \<Rightarrow> 'w loop_config \<Rightarrow> assistant_message
     \<Rightarrow> batch_result \<Rightarrow> ('w loop_state, 'w turn_end) act" where
  "close_turn E steering cfg m batch =
     then_act (emit E (TurnEnd (AssistantM m) (fst batch)))
       (bind_act (stop_if_aborted E cfg) (\<lambda>stopped.
          if stopped then ret_act RunOver else go_on E steering cfg m (fst batch) (snd batch)))"

definition complete_turn ::
  "'w loop_env \<Rightarrow> ('w, agent_message list) act option \<Rightarrow> 'w loop_config \<Rightarrow> assistant_message
     \<Rightarrow> ('w loop_state, 'w turn_end) act" where
  "complete_turn E steering cfg m =
     then_act (push_new (AssistantM m))
       (if am_stop_reason m \<in> {''error'', ''aborted''}
        then then_act (emit E (TurnEnd (AssistantM m) [])) (then_act (end_run E) (ret_act RunOver))
        else bind_act (run_tools E cfg m) (close_turn E steering cfg m))"

definition run_turn ::
  "'w loop_env \<Rightarrow> ('w, agent_message list) act option \<Rightarrow> bool \<Rightarrow> agent_message list \<Rightarrow> 'w loop_config
     \<Rightarrow> 'w loop_state \<Rightarrow> ('w turn_end res \<times> 'w loop_state) option" where
  "run_turn E steering first pending cfg s =
     (case begin_turn E cfg first pending s of
        (Inl e, s1) \<Rightarrow> Some (Inl e, s1)
      | (Inr True, s1) \<Rightarrow> Some (Inr RunOver, s1)
      | (Inr False, s1) \<Rightarrow>
          (case stream_assistant_response E cfg s1 of
             None \<Rightarrow> None
           | Some (Inl e, s2) \<Rightarrow> Some (Inl e, s2)
           | Some (Inr m, s2) \<Rightarrow> Some (complete_turn E steering cfg m s2)))"

section \<open>The loops\<close>

partial_function (option) turn_loop ::
  "'w loop_env \<Rightarrow> ('w, agent_message list) act option \<Rightarrow> bool \<Rightarrow> bool \<Rightarrow> agent_message list \<Rightarrow> 'w loop_config
     \<Rightarrow> 'w loop_state \<Rightarrow> (unit res \<times> 'w loop_state) option" where
  "turn_loop E steering first again pending cfg s =
     (if again \<or> pending \<noteq> [] then
        (case run_turn E steering first pending cfg s of
           None \<Rightarrow> None
         | Some (r, s1) \<Rightarrow>
             (case r of
                Inl e \<Rightarrow> Some (Inl e, s1)
              | Inr RunOver \<Rightarrow> Some (Inr (), s1)
              | Inr (GoOn cfg' again' pending') \<Rightarrow> turn_loop E steering False again' pending' cfg' s1))
      else
        (case poll (lc_getFollowUpMessages cfg) s of
           (Inl e, s1) \<Rightarrow> Some (Inl e, s1)
         | (Inr followups, s1) \<Rightarrow>
             if followups \<noteq> [] then turn_loop E steering first True followups cfg s1
             else Some (end_run E s1)))"

declare stream_loop.simps [code] turn_loop.simps [code]

definition run_loop ::
  "'w loop_env \<Rightarrow> 'w loop_config \<Rightarrow> 'w loop_state \<Rightarrow> (unit res \<times> 'w loop_state) option" where
  "run_loop E cfg s =
     (case poll (lc_getSteeringMessages cfg) s of
        (Inl e, s1) \<Rightarrow> Some (Inl e, s1)
      | (Inr pending, s1) \<Rightarrow> turn_loop E (lc_getSteeringMessages cfg) True True pending cfg s1)"

section \<open>Starting a run\<close>

definition own_context :: "'w agent_context \<Rightarrow> agent_message list \<Rightarrow> 'w agent_context" where
  "own_context ctx prompts =
     \<lparr>cx_systemPrompt = cx_systemPrompt ctx, cx_messages = cx_messages ctx @ prompts,
      cx_tools = (case cx_tools ctx of Some (t # ts) \<Rightarrow> Some (t # ts) | _ \<Rightarrow> None)\<rparr>"

definition start_state :: "'w agent_context \<Rightarrow> agent_message list \<Rightarrow> 'w \<Rightarrow> 'w loop_state" where
  "start_state ctx prompts w =
     \<lparr>lp_world = w, lp_context = own_context ctx prompts, lp_new_messages = prompts, lp_events = []\<rparr>"

definition begin_run :: "'w loop_env \<Rightarrow> agent_message list \<Rightarrow> ('w loop_state, unit) act" where
  "begin_run E prompts =
     then_act (emit E AgentStart) (then_act (emit E TurnStart) (each_act (announce E) prompts))"

text \<open>The result is the list of new messages, or the exception that ended the run.\<close>

definition run_agent_loop ::
  "'w loop_env \<Rightarrow> agent_message list \<Rightarrow> 'w agent_context \<Rightarrow> 'w loop_config \<Rightarrow> 'w
     \<Rightarrow> (agent_message list res \<times> 'w loop_state) option" where
  "run_agent_loop E prompts ctx cfg w =
     (case begin_run E prompts (start_state ctx prompts w) of
        (Inl e, s) \<Rightarrow> Some (Inl e, s)
      | (Inr u, s) \<Rightarrow>
          (case run_loop E cfg s of
             None \<Rightarrow> None
           | Some (r, s') \<Rightarrow> Some (bind_res r (\<lambda>_. Inr (lp_new_messages s')), s')))"

text \<open>The attribute \<^verbatim>\<open>role\<close> of a message, \<^term>\<open>VNone\<close> for a message without one, such as a dictionary.\<close>

definition role_attribute :: "agent_message \<Rightarrow> pyval" where
  "role_attribute m =
     (case m of
        AssistantM _ \<Rightarrow> VStr ''assistant''
      | ToolResultM _ \<Rightarrow> VNone
      | OtherM v \<Rightarrow> py_getattr v ''role'' VNone)"

definition is_assistant :: "agent_message \<Rightarrow> bool" where
  "is_assistant m \<longleftrightarrow> role_attribute m = VStr ''assistant''"

definition run_agent_loop_continue ::
  "'w loop_env \<Rightarrow> 'w agent_context \<Rightarrow> 'w loop_config \<Rightarrow> 'w
     \<Rightarrow> (agent_message list res \<times> 'w loop_state) option" where
  "run_agent_loop_continue E ctx cfg w =
     (if cx_messages ctx = []
      then Some (Inl (PlainException ''Cannot continue: no messages in context''), start_state ctx [] w)
      else if is_assistant (last (cx_messages ctx))
      then Some (Inl (PlainException ''Cannot continue from message role: assistant''), start_state ctx [] w)
      else run_agent_loop E [] ctx cfg w)"

end
