(* ===== verification/PendingQueue.thy ===== *)
theory PendingQueue
  imports AgentLoop
begin

text \<open>
  The queue of steering and follow-up messages of an agent (\<^verbatim>\<open>_PendingMessageQueue\<close> in
  \<^verbatim>\<open>agent_core/agent.py\<close>), and the contract of a queue that delivers what it was given in order.
\<close>

record pending_queue =
  pq_messages :: "agent_message list"
  pq_mode :: string

definition new_queue :: "string \<Rightarrow> pending_queue" where
  "new_queue mode = \<lparr>pq_messages = [], pq_mode = mode\<rparr>"

definition enqueue :: "agent_message \<Rightarrow> pending_queue \<Rightarrow> pending_queue" where
  "enqueue m q = q\<lparr>pq_messages := pq_messages q @ [m]\<rparr>"

definition has_items :: "pending_queue \<Rightarrow> bool" where
  "has_items q \<longleftrightarrow> length (pq_messages q) > 0"

text \<open>A first message that is \<^verbatim>\<open>None\<close> is taken for an empty queue.\<close>

definition drain :: "pending_queue \<Rightarrow> agent_message list \<times> pending_queue" where
  "drain q =
     (if pq_mode q = ''all'' then (pq_messages q, q\<lparr>pq_messages := []\<rparr>)
      else case pq_messages q of
        [] \<Rightarrow> ([], q)
      | m # ms \<Rightarrow> if m = OtherM VNone then ([], q) else ([m], q\<lparr>pq_messages := ms\<rparr>))"

definition clear :: "pending_queue \<Rightarrow> pending_queue" where
  "clear q = q\<lparr>pq_messages := []\<rparr>"

section \<open>The contract of a queue\<close>

datatype 'm queue_step = Put 'm | Take

locale delivery_queue =
  fixes put :: "'m \<Rightarrow> 'q \<Rightarrow> 'q" and take_some :: "'q \<Rightarrow> 'm list \<times> 'q" and contents :: "'q \<Rightarrow> 'm list"
  assumes contents_put: "contents (put m q) = contents q @ [m]"
    and contents_take: "take_some q = (ms, q') \<Longrightarrow> ms @ contents q' = contents q"

fun queue_run :: "('m \<Rightarrow> 'q \<Rightarrow> 'q) \<Rightarrow> ('q \<Rightarrow> 'm list \<times> 'q) \<Rightarrow> 'm queue_step list \<Rightarrow> 'q \<Rightarrow> 'm list \<times> 'q" where
  "queue_run p t [] q = ([], q)"
| "queue_run p t (Put m # steps) q = queue_run p t steps (p m q)"
| "queue_run p t (Take # steps) q =
     (case t q of (ms, q') \<Rightarrow> case queue_run p t steps q' of (ms', q'') \<Rightarrow> (ms @ ms', q''))"

fun put_messages :: "'m queue_step list \<Rightarrow> 'm list" where
  "put_messages [] = []"
| "put_messages (Put m # steps) = m # put_messages steps"
| "put_messages (Take # steps) = put_messages steps"

context delivery_queue begin

text \<open>What was taken, followed by what is left, is what was there, followed by what was put.\<close>

lemma run_conserves:
  "queue_run put take_some steps q = (ms, q') \<Longrightarrow> ms @ contents q' = contents q @ put_messages steps"
proof (induction steps arbitrary: q ms)
  case (Cons st steps)
  then show ?case
    by (cases st) (auto simp: contents_put dest!: contents_take split: prod.splits)
qed simp

lemma run_empty: "queue_run put take_some steps q = (ms, q') \<Longrightarrow> contents q = [] \<Longrightarrow>
    contents q' = [] \<Longrightarrow> ms = put_messages steps"
  using run_conserves by force

end

interpretation pending: delivery_queue enqueue drain pq_messages
  by unfold_locales (auto simp: enqueue_def drain_def split: if_splits list.splits)

text \<open>
  The queue of an agent loses, duplicates and reorders nothing: over any sequence of calls of
  \<open>enqueue\<close> and \<open>drain\<close>, in both modes, the drained messages followed by those left are those that were
  in the queue followed by the enqueued ones. In the one-at-a-time mode every drain gives at most one.
\<close>

theorem queue_delivers_in_order:
  "let (ms, q') = queue_run enqueue drain steps q in
     ms @ pq_messages q' = pq_messages q @ put_messages steps \<and>
     (pq_mode q' = pq_mode q) \<and>
     length (fst (drain q)) \<le> (if pq_mode q = ''all'' then length (pq_messages q) else 1)"
proof -
  have mode: "pq_mode (snd (queue_run enqueue drain steps q)) = pq_mode q" for steps q
  proof (induction steps arbitrary: q)
    case (Cons st steps)
    have "pq_mode (snd (drain q)) = pq_mode q" "pq_mode (enqueue m q) = pq_mode q" for m
      by (simp_all add: drain_def enqueue_def split: list.split)
    then show ?case by (cases st) (simp_all add: prod.case_eq_if Cons.IH)
  qed simp
  have "length (fst (drain q)) \<le> (if pq_mode q = ''all'' then length (pq_messages q) else 1)"
    by (simp add: drain_def split: list.split)
  with mode [of steps q] pending.run_conserves show ?thesis
    by (auto split: prod.split)
qed

end
