(* ===== verification/AgentState.thy ===== *)
theory AgentState
  imports TurnLoop PendingQueue
begin

text \<open>
  The agent (\<^verbatim>\<open>agent_core/agent.py\<close>): its state, the reducer of the events of a run, the
  configuration that it gives to the loop, and its operations. The world of a run of the loop is the
  state of the agent: the sink of the events, the queues and the abort signal that the loop calls are
  those of the agent, and the hooks, the listeners, the stream and the tools of the host act on the
  state of the agent as well, which has a field for everything else.

  Objects that the agent only refers to (tools, listeners) are numbers; \<open>agent_env\<close> says what they do.
\<close>

section \<open>State\<close>

record abort_controller =
  ac_aborted :: bool
  ac_reason :: "string option"

record 'o agent =
  ag_tools :: "nat list"
  ag_messages :: "agent_message list"
  ag_systemPrompt :: string
  ag_model :: loop_model
  ag_thinkingLevel :: string
  ag_isStreaming :: bool
  ag_streamingMessage :: "event_message option"
  ag_pendingToolCalls :: "string set"
  ag_errorMessage :: pyval
  ag_steering_queue :: pending_queue
  ag_follow_up_queue :: pending_queue
  ag_active_run :: "abort_controller option"
  ag_skip_initial :: bool
  ag_listeners :: "nat list"
  ag_host :: 'o

text \<open>The options that are fixed when the agent is made, and the surroundings of its runs.\<close>

record 'o agent_env =
  ae_loop :: "'o agent loop_env"
  ae_tool :: "nat \<Rightarrow> 'o agent agent_tool"
  ae_listener :: "nat \<Rightarrow> agent_event \<Rightarrow> ('o agent, unit) act"
  ae_streamFn :: "'o agent stream_fn"
  ae_toolExecution :: string
  ae_convertToLlm :: "(agent_message list \<Rightarrow> ('o agent, agent_message list) act) option"
  ae_transformContext :: "(agent_message list \<Rightarrow> ('o agent, agent_message list) act) option"
  ae_getApiKey :: "(string \<Rightarrow> ('o agent, string option) act) option"
  ae_beforeToolCall :: "('o agent call_context \<Rightarrow> ('o agent, before_result option) act) option"
  ae_resolveDeferredTool :: "('o agent call_context \<Rightarrow> ('o agent, 'o agent agent_tool option) act) option"
  ae_afterToolCall :: "('o agent call_context \<Rightarrow> tool_result \<Rightarrow> bool \<Rightarrow> ('o agent, after_result option) act) option"
  ae_prepareNextTurn :: "('o agent turn_context \<Rightarrow> ('o agent, 'o agent turn_update option) act) option"

text \<open>The initial state; an empty string of the options counts as not given.\<close>

definition DEFAULT_MODEL :: loop_model where
  "DEFAULT_MODEL =
     \<lparr>lm_id = ''unknown'', lm_api = ''unknown'', lm_provider = ''unknown'', lm_thinkingLevelMap = None\<rparr>"

definition new_agent ::
  "nat list \<Rightarrow> agent_message list \<Rightarrow> string option \<Rightarrow> loop_model option \<Rightarrow> string option
     \<Rightarrow> string option \<Rightarrow> string option \<Rightarrow> 'o \<Rightarrow> 'o agent" where
  "new_agent tools msgs prompt model level steering_mode follow_up_mode host =
     (let given = (\<lambda>x d. case x of Some v \<Rightarrow> if v \<noteq> [] then v else d | None \<Rightarrow> d) in
      \<lparr>ag_tools = tools, ag_messages = msgs, ag_systemPrompt = given prompt [],
       ag_model = (case model of Some m \<Rightarrow> m | None \<Rightarrow> DEFAULT_MODEL),
       ag_thinkingLevel = given level ''off'', ag_isStreaming = False, ag_streamingMessage = None,
       ag_pendingToolCalls = {}, ag_errorMessage = VNone,
       ag_steering_queue = new_queue (given steering_mode ''one-at-a-time''),
       ag_follow_up_queue = new_queue (given follow_up_mode ''one-at-a-time''),
       ag_active_run = None, ag_skip_initial = False, ag_listeners = [], ag_host = host\<rparr>)"

section \<open>Queues, listeners and signals\<close>

definition subscribe :: "nat \<Rightarrow> 'o agent \<Rightarrow> 'o agent" where
  "subscribe l ag =
     (if l \<in> set (ag_listeners ag) then ag else ag\<lparr>ag_listeners := ag_listeners ag @ [l]\<rparr>)"

definition unsubscribe :: "nat \<Rightarrow> 'o agent \<Rightarrow> 'o agent" where
  "unsubscribe l ag = ag\<lparr>ag_listeners := removeAll l (ag_listeners ag)\<rparr>"

definition set_steering_mode :: "string \<Rightarrow> 'o agent \<Rightarrow> 'o agent" where
  "set_steering_mode mode ag = ag\<lparr>ag_steering_queue := (ag_steering_queue ag)\<lparr>pq_mode := mode\<rparr>\<rparr>"

definition set_follow_up_mode :: "string \<Rightarrow> 'o agent \<Rightarrow> 'o agent" where
  "set_follow_up_mode mode ag = ag\<lparr>ag_follow_up_queue := (ag_follow_up_queue ag)\<lparr>pq_mode := mode\<rparr>\<rparr>"

definition steer :: "agent_message \<Rightarrow> 'o agent \<Rightarrow> 'o agent" where
  "steer m ag = ag\<lparr>ag_steering_queue := enqueue m (ag_steering_queue ag)\<rparr>"

definition follow_up :: "agent_message \<Rightarrow> 'o agent \<Rightarrow> 'o agent" where
  "follow_up m ag = ag\<lparr>ag_follow_up_queue := enqueue m (ag_follow_up_queue ag)\<rparr>"

definition clear_steering_queue :: "'o agent \<Rightarrow> 'o agent" where
  "clear_steering_queue ag = ag\<lparr>ag_steering_queue := clear (ag_steering_queue ag)\<rparr>"

definition clear_follow_up_queue :: "'o agent \<Rightarrow> 'o agent" where
  "clear_follow_up_queue ag = ag\<lparr>ag_follow_up_queue := clear (ag_follow_up_queue ag)\<rparr>"

definition clear_all_queues :: "'o agent \<Rightarrow> 'o agent" where
  "clear_all_queues ag = clear_follow_up_queue (clear_steering_queue ag)"

definition has_queued_messages :: "'o agent \<Rightarrow> bool" where
  "has_queued_messages ag \<longleftrightarrow> has_items (ag_steering_queue ag) \<or> has_items (ag_follow_up_queue ag)"

definition abort :: "'o agent \<Rightarrow> 'o agent" where
  "abort ag =
     (case ag_active_run ag of
        None \<Rightarrow> ag
      | Some c \<Rightarrow> ag\<lparr>ag_active_run := Some (c\<lparr>ac_aborted := True, ac_reason := None\<rparr>)\<rparr>)"

definition reset :: "'o agent \<Rightarrow> 'o agent" where
  "reset ag = clear_steering_queue (clear_follow_up_queue
     (ag\<lparr>ag_messages := [], ag_isStreaming := False, ag_streamingMessage := None,
         ag_pendingToolCalls := {}, ag_errorMessage := VNone\<rparr>))"

definition drain_steering :: "('o agent, agent_message list) act" where
  "drain_steering ag =
     (case drain (ag_steering_queue ag) of (ms, q) \<Rightarrow> (Inr ms, ag\<lparr>ag_steering_queue := q\<rparr>))"

definition drain_follow_up :: "('o agent, agent_message list) act" where
  "drain_follow_up ag =
     (case drain (ag_follow_up_queue ag) of (ms, q) \<Rightarrow> (Inr ms, ag\<lparr>ag_follow_up_queue := q\<rparr>))"

section \<open>Events\<close>

text \<open>Only a dictionary can report an error: the messages of the loop are objects.\<close>

definition turn_error :: "agent_message \<Rightarrow> pyval option" where
  "turn_error m =
     (case m of
        OtherM (VDict d) \<Rightarrow>
          (if map_of d ''role'' = Some (VStr ''assistant'')
           then (case map_of d ''errorMessage'' of
                   Some v \<Rightarrow> if truthy v then Some v else None | None \<Rightarrow> None)
           else None)
      | _ \<Rightarrow> None)"

definition reduce_event :: "agent_event \<Rightarrow> 'o agent \<Rightarrow> 'o agent" where
  "reduce_event ev ag =
     (case ev of
        MessageStart m \<Rightarrow> ag\<lparr>ag_streamingMessage := Some m\<rparr>
      | MessageUpdate se m \<Rightarrow> ag\<lparr>ag_streamingMessage := Some m\<rparr>
      | MessageEnd m \<Rightarrow> ag\<lparr>ag_streamingMessage := None, ag_messages := ag_messages ag @ [m]\<rparr>
      | ToolExecutionStart i n a \<Rightarrow> ag\<lparr>ag_pendingToolCalls := insert i (ag_pendingToolCalls ag)\<rparr>
      | ToolExecutionEnd i n r e x \<Rightarrow> ag\<lparr>ag_pendingToolCalls := ag_pendingToolCalls ag - {i}\<rparr>
      | TurnEnd m rs \<Rightarrow> (case turn_error m of Some v \<Rightarrow> ag\<lparr>ag_errorMessage := v\<rparr> | None \<Rightarrow> ag)
      | AgentEnd ms \<Rightarrow> ag\<lparr>ag_streamingMessage := None\<rparr>
      | _ \<Rightarrow> ag)"

definition process_events :: "'o agent_env \<Rightarrow> agent_event \<Rightarrow> ('o agent, unit) act" where
  "process_events A ev =
     then_act (modify_act (reduce_event ev))
       (bind_act (get_act ag_active_run) (\<lambda>run.
          case run of
            None \<Rightarrow> raise_act (PlainException ''Agent listener invoked outside active run'')
          | Some c \<Rightarrow> bind_act (get_act ag_listeners) (each_act (\<lambda>l. ae_listener A l ev))))"

section \<open>The loop of an agent\<close>

definition default_convert_to_llm :: "agent_message list \<Rightarrow> agent_message list" where
  "default_convert_to_llm =
     filter (\<lambda>m. role_attribute m \<in> {VStr ''user'', VStr ''assistant'', VStr ''toolResult''})"

definition steering_poll :: "('o agent, agent_message list) act" where
  "steering_poll ag =
     (if ag_skip_initial ag then (Inr [], ag\<lparr>ag_skip_initial := False\<rparr>) else drain_steering ag)"

definition create_context_snapshot :: "'o agent_env \<Rightarrow> 'o agent \<Rightarrow> 'o agent agent_context" where
  "create_context_snapshot A ag =
     \<lparr>cx_systemPrompt = ag_systemPrompt ag, cx_messages = ag_messages ag,
      cx_tools = Some (map (ae_tool A) (ag_tools ag))\<rparr>"

definition create_loop_config ::
  "'o agent_env \<Rightarrow> bool \<Rightarrow> ('o agent, 'o agent loop_config) act" where
  "create_loop_config A skip_initial =
     then_act (modify_act (\<lambda>ag. ag\<lparr>ag_skip_initial := skip_initial\<rparr>))
       (bind_act (get_act (\<lambda>ag. ag)) (\<lambda>ag.
          bind_act (of_res (resolve_agent_reasoning_option (le_fable5 (ae_loop A))
                      (Some (ag_model ag)) (ag_thinkingLevel ag))) (\<lambda>reasoning. ret_act
            \<lparr>lc_model = Some (ag_model ag), lc_thinkingLevel = Some (ag_thinkingLevel ag),
             lc_reasoning = reasoning, lc_apiKey = None, lc_toolExecution = Some (ae_toolExecution A),
             lc_convertToLlm = Some (case ae_convertToLlm A of
                 Some f \<Rightarrow> f | None \<Rightarrow> (\<lambda>ms. ret_act (default_convert_to_llm ms))),
             lc_transformContext = ae_transformContext A, lc_getApiKey = ae_getApiKey A,
             lc_beforeToolCall = ae_beforeToolCall A, lc_resolveDeferredTool = ae_resolveDeferredTool A,
             lc_afterToolCall = ae_afterToolCall A, lc_prepareNextTurn = ae_prepareNextTurn A,
             lc_shouldStopAfterTurn = None, lc_getSteeringMessages = Some steering_poll,
             lc_getFollowUpMessages = Some drain_follow_up\<rparr>)))"

definition agent_loop_env :: "'o agent_env \<Rightarrow> 'o agent loop_env" where
  "agent_loop_env A = (ae_loop A)
     \<lparr>le_emit := process_events A,
      le_signal := Some (\<lambda>ag. case ag_active_run ag of
          Some c \<Rightarrow> (ac_aborted c, ac_reason c) | None \<Rightarrow> (False, None)),
      le_stream_fn := Some (ae_streamFn A), le_runtime := None\<rparr>"

text \<open>What is executed inside the life cycle of a run: a loop with new messages, or without.\<close>

definition exec_loop ::
  "'o agent_env \<Rightarrow> bool
     \<Rightarrow> ('o agent agent_context \<Rightarrow> 'o agent loop_config \<Rightarrow> 'o agent
          \<Rightarrow> (agent_message list res \<times> 'o agent loop_state) option)
     \<Rightarrow> 'o agent \<Rightarrow> (unit res \<times> 'o agent) option" where
  "exec_loop A skip_initial run ag =
     (case create_loop_config A skip_initial ag of
        (Inl e, ag1) \<Rightarrow> Some (Inl e, ag1)
      | (Inr cfg, ag1) \<Rightarrow>
          (case run (create_context_snapshot A ag) cfg ag1 of
             None \<Rightarrow> None
           | Some (r, s) \<Rightarrow> Some (bind_res r (\<lambda>_. Inr ()), lp_world s)))"

section \<open>The life cycle of a run\<close>

definition begin_lifecycle :: "'o agent \<Rightarrow> 'o agent" where
  "begin_lifecycle ag =
     ag\<lparr>ag_active_run := Some \<lparr>ac_aborted = False, ac_reason = None\<rparr>, ag_isStreaming := True,
        ag_streamingMessage := None, ag_errorMessage := VNone\<rparr>"

definition finish_run :: "'o agent \<Rightarrow> 'o agent" where
  "finish_run ag =
     ag\<lparr>ag_isStreaming := False, ag_streamingMessage := None, ag_pendingToolCalls := {},
        ag_active_run := None\<rparr>"

definition failure_message :: "int \<Rightarrow> string \<Rightarrow> bool \<Rightarrow> loop_model \<Rightarrow> agent_message" where
  "failure_message now error aborted m = OtherM (VDict
     [(''role'', VStr ''assistant''),
      (''content'', VList [VDict [(''type'', VStr ''text''), (''text'', VStr [])]]),
      (''api'', VStr (lm_api m)), (''provider'', VStr (lm_provider m)), (''model'', VStr (lm_id m)),
      (''usage'', VDict [(''input'', VInt 0), (''output'', VInt 0), (''cacheRead'', VInt 0),
         (''cacheWrite'', VInt 0), (''totalTokens'', VInt 0),
         (''cost'', VDict [(''input'', VInt 0), (''output'', VInt 0), (''cacheRead'', VInt 0),
            (''cacheWrite'', VInt 0), (''total'', VInt 0)])]),
      (''stopReason'', VStr (if aborted then ''aborted'' else ''error'')),
      (''errorMessage'', VStr error), (''timestamp'', VInt now)])"

definition run_aborted :: "'o agent \<Rightarrow> bool" where
  "run_aborted ag = (case ag_active_run ag of Some c \<Rightarrow> ac_aborted c | None \<Rightarrow> False)"

definition handle_run_failure :: "'o agent_env \<Rightarrow> pyexn \<Rightarrow> ('o agent, unit) act" where
  "handle_run_failure A e =
     bind_act (get_act (\<lambda>ag. failure_message (le_now_ms (ae_loop A) ag) (le_exn_text (ae_loop A) e)
                                (run_aborted ag) (ag_model ag))) (\<lambda>m.
       then_act (process_events A (MessageStart (Message m)))
         (then_act (process_events A (MessageEnd m))
           (then_act (process_events A (TurnEnd m []))
             (process_events A (AgentEnd [m])))))"

definition run_with_lifecycle ::
  "'o agent_env \<Rightarrow> ('o agent \<Rightarrow> (unit res \<times> 'o agent) option) \<Rightarrow> 'o agent \<Rightarrow> (unit res \<times> 'o agent) option" where
  "run_with_lifecycle A exec ag =
     (if ag_active_run ag \<noteq> None then Some (Inl (PlainException ''Agent is already processing.''), ag)
      else case exec (begin_lifecycle ag) of
             None \<Rightarrow> None
           | Some (Inr u, ag1) \<Rightarrow> Some (Inr (), finish_run ag1)
           | Some (Inl e, ag1) \<Rightarrow>
               (case handle_run_failure A e ag1 of (r, ag2) \<Rightarrow> Some (r, finish_run ag2)))"

section \<open>Prompts and continuation\<close>

datatype prompt_input = ListInput "agent_message list" | MessageInput agent_message | TextInput string

definition normalize_prompt_input :: "int \<Rightarrow> prompt_input \<Rightarrow> pyval list \<Rightarrow> agent_message list" where
  "normalize_prompt_input now input images =
     (case input of
        ListInput ms \<Rightarrow> ms
      | MessageInput m \<Rightarrow> [m]
      | TextInput t \<Rightarrow> [OtherM (VDict [(''role'', VStr ''user''),
          (''content'', VList (text_content t # images)), (''timestamp'', VInt now)])])"

definition run_prompt_messages ::
  "'o agent_env \<Rightarrow> agent_message list \<Rightarrow> bool \<Rightarrow> 'o agent \<Rightarrow> (unit res \<times> 'o agent) option" where
  "run_prompt_messages A ms skip_initial =
     run_with_lifecycle A (exec_loop A skip_initial (run_agent_loop (agent_loop_env A) ms))"

definition run_continuation :: "'o agent_env \<Rightarrow> 'o agent \<Rightarrow> (unit res \<times> 'o agent) option" where
  "run_continuation A =
     run_with_lifecycle A (exec_loop A False (run_agent_loop_continue (agent_loop_env A)))"

definition prompt ::
  "'o agent_env \<Rightarrow> prompt_input \<Rightarrow> pyval list \<Rightarrow> 'o agent \<Rightarrow> (unit res \<times> 'o agent) option" where
  "prompt A input images ag =
     (if ag_active_run ag \<noteq> None
      then Some (Inl (PlainException ''Agent is already processing a prompt. Use steer() or followUp() to queue messages, or wait for completion.''), ag)
      else run_prompt_messages A (normalize_prompt_input (le_now_ms (ae_loop A) ag) input images) False ag)"

definition continue_agent :: "'o agent_env \<Rightarrow> 'o agent \<Rightarrow> (unit res \<times> 'o agent) option" where
  "continue_agent A ag =
     (if ag_active_run ag \<noteq> None
      then Some (Inl (PlainException ''Agent is already processing. Wait for completion before continuing.''), ag)
      else if ag_messages ag = [] then Some (Inl (PlainException ''No messages to continue from''), ag)
      else if is_assistant (last (ag_messages ag)) then
        (case drain (ag_steering_queue ag) of (ms, q) \<Rightarrow>
           (let ag1 = ag\<lparr>ag_steering_queue := q\<rparr> in
            if ms \<noteq> [] then run_prompt_messages A ms True ag1
            else (case drain (ag_follow_up_queue ag1) of (fs, q') \<Rightarrow>
                    (let ag2 = ag1\<lparr>ag_follow_up_queue := q'\<rparr> in
                     if fs \<noteq> [] then run_prompt_messages A fs False ag2
                     else Some (Inl (PlainException ''Cannot continue from message role: assistant''), ag2)))))
      else run_continuation A ag)"

end
