(* ===== verification/LoopProtocol.thy ===== *)
theory LoopProtocol
  imports TurnLoop "HOL-Library.Multiset" "HOL-Library.Sublist"
begin

text \<open>
  The protocol of the events of a run: an automaton whose phases say which event may come next, and
  the facts that every run keeps about the messages it announces, the context of the model and the
  answers to the tool calls. One assertion, \<open>obs\<close>, carries all of them through the code.
\<close>

section \<open>The automaton\<close>

text \<open>
  A turn holds the identifiers of the tool calls that have started and not ended. A stream may start
  its message again while it is open. An aborted run ends with a message of its own, which is not
  part of a turn that was started when the last turn has ended.
\<close>

datatype phase =
    Fresh | Started | InTurn "string multiset" | InMessage | TurnClosed
  | AbortMessage | AbortTurn | AbortClosed | Over

fun next_phase :: "phase \<Rightarrow> agent_event \<Rightarrow> phase option" where
  "next_phase Fresh AgentStart = Some Started"
| "next_phase Started TurnStart = Some (InTurn {#})"
| "next_phase TurnClosed TurnStart = Some (InTurn {#})"
| "next_phase (InTurn ops) (MessageStart m) = (if ops = {#} then Some InMessage else None)"
| "next_phase InMessage (MessageStart m) = Some InMessage"
| "next_phase InMessage (MessageUpdate ev m) = Some InMessage"
| "next_phase InMessage (MessageEnd m) = Some (InTurn {#})"
| "next_phase (InTurn ops) (ToolExecutionStart i n a) = Some (InTurn (add_mset i ops))"
| "next_phase (InTurn ops) (ToolExecutionUpdate i n a r) = (if i \<in># ops then Some (InTurn ops) else None)"
| "next_phase (InTurn ops) (ToolExecutionEnd i n r e x) = (if i \<in># ops then Some (InTurn (ops - {#i#})) else None)"
| "next_phase (InTurn ops) (TurnEnd m rs) = (if ops = {#} then Some TurnClosed else None)"
| "next_phase TurnClosed (AgentEnd ms) = Some Over"
| "next_phase TurnClosed (MessageStart m) = Some AbortMessage"
| "next_phase AbortMessage (MessageEnd m) = Some AbortTurn"
| "next_phase AbortTurn (TurnEnd m rs) = Some AbortClosed"
| "next_phase AbortClosed (AgentEnd ms) = Some Over"
| "next_phase p ev = None"

fun phase_from :: "phase \<Rightarrow> agent_event list \<Rightarrow> phase option" where
  "phase_from p [] = Some p"
| "phase_from p (ev # evs) = (case next_phase p ev of None \<Rightarrow> None | Some q \<Rightarrow> phase_from q evs)"

lemma phase_from_append:
  "phase_from p (xs @ ys) = (case phase_from p xs of None \<Rightarrow> None | Some q \<Rightarrow> phase_from q ys)"
  by (induction xs arbitrary: p) (auto split: option.split)

text \<open>The messages that a trace announces as complete, and how many it starts.\<close>

fun ended :: "agent_event list \<Rightarrow> agent_message list" where
  "ended [] = []"
| "ended (MessageEnd m # evs) = m # ended evs"
| "ended (_ # evs) = ended evs"

fun starts :: "agent_event list \<Rightarrow> nat" where
  "starts [] = 0"
| "starts (MessageStart m # evs) = Suc (starts evs)"
| "starts (_ # evs) = starts evs"

lemma ended_append [simp]: "ended (xs @ ys) = ended xs @ ended ys"
  by (induction xs rule: ended.induct) auto

lemma starts_append [simp]: "starts (xs @ ys) = starts xs + starts ys"
  by (induction xs rule: starts.induct) auto

section \<open>Answers to tool calls\<close>

definition call_sig :: "tool_call \<Rightarrow> string \<times> string" where
  "call_sig c = (tc_id c, tc_name c)"

definition result_sig :: "tool_result_message \<Rightarrow> string \<times> string" where
  "result_sig r = (tm_toolCallId r, tm_toolName r)"

text \<open>
  The results answer the calls of a message in order; without an abort signal, all of them, unless
  the message itself reports a failure.
\<close>

definition answers :: "'w loop_env \<Rightarrow> agent_message \<Rightarrow> tool_result_message list \<Rightarrow> bool" where
  "answers E m rs \<longleftrightarrow>
     (case m of
        AssistantM a \<Rightarrow>
          prefix (map result_sig rs) (map call_sig (assistant_tool_calls a)) \<and>
          (le_signal E = None \<and> am_stop_reason a \<notin> {''error'', ''aborted''} \<longrightarrow>
             map result_sig rs = map call_sig (assistant_tool_calls a))
      | _ \<Rightarrow> False)"

definition turns_answered :: "'w loop_env \<Rightarrow> agent_event list \<Rightarrow> bool" where
  "turns_answered E evs \<longleftrightarrow>
     list_all (\<lambda>ev. case ev of TurnEnd m rs \<Rightarrow> answers E m rs | _ \<Rightarrow> True) evs"

lemma turns_answered_append [simp]:
  "turns_answered E (xs @ ys) \<longleftrightarrow> turns_answered E xs \<and> turns_answered E ys"
  by (simp add: turns_answered_def)

section \<open>The assertion\<close>

text \<open>
  What can be observed of a state: the phase \<open>p\<close> of its trace, the complete messages \<open>e\<close> of the
  trace, the new messages \<open>n\<close>, and the messages \<open>c\<close> of the context, provided that no stream has
  started its message twice.
\<close>

definition started_once :: "phase \<Rightarrow> agent_event list \<Rightarrow> bool" where
  "started_once p evs \<longleftrightarrow>
     starts evs = length (ended evs) + (if p = InMessage \<or> p = AbortMessage then 1 else 0)"

definition obs ::
  "'w loop_env \<Rightarrow> phase \<Rightarrow> agent_message list \<Rightarrow> agent_message list \<Rightarrow> agent_message list
     \<Rightarrow> 'w loop_state \<Rightarrow> bool" where
  "obs E p e n c s \<longleftrightarrow>
     phase_from Fresh (lp_events s) = Some p \<and> ended (lp_events s) = e \<and> lp_new_messages s = n \<and>
     turns_answered E (lp_events s) \<and>
     length e + (if p = InMessage \<or> p = AbortMessage then 1 else 0) \<le> starts (lp_events s) \<and>
     (started_once p (lp_events s) \<longrightarrow> cx_messages (lp_context s) = c)"

definition legal :: "'w loop_env \<Rightarrow> 'w loop_state \<Rightarrow> bool" where
  "legal E s \<longleftrightarrow> phase_from Fresh (lp_events s) \<noteq> None \<and> turns_answered E (lp_events s)"

lemma obs_legal: "obs E p e n c s \<Longrightarrow> legal E s"
  by (simp add: obs_def legal_def)

text \<open>How one event changes what is observed.\<close>

definition plain_event :: "agent_event \<Rightarrow> bool" where
  "plain_event ev \<longleftrightarrow> (case ev of MessageStart _ \<Rightarrow> False | MessageEnd _ \<Rightarrow> False | TurnEnd _ _ \<Rightarrow> False | _ \<Rightarrow> True)"

lemma plain_event_effects:
  "plain_event ev \<Longrightarrow> ended [ev] = [] \<and> starts [ev] = 0 \<and> turns_answered E [ev]"
  by (cases ev) (auto simp: plain_event_def turns_answered_def)

lemma emit_events: "emit E ev s = (r, t) \<Longrightarrow>
    lp_events t = lp_events s @ [ev] \<and> lp_new_messages t = lp_new_messages s \<and> lp_context t = lp_context s"
  by (auto simp: emit_def split: prod.splits)

lemma valid_emit:
  assumes "\<And>s t. P s \<Longrightarrow> lp_events t = lp_events s @ [ev] \<Longrightarrow> lp_new_messages t = lp_new_messages s \<Longrightarrow>
             lp_context t = lp_context s \<Longrightarrow> Q t"
  shows "valid P (emit E ev) (\<lambda>_. Q) Q"
  by (rule validI) (use emit_events assms in blast)+

lemma emit_plain:
  assumes "plain_event ev" "next_phase p ev = Some q" "p \<noteq> InMessage" "p \<noteq> AbortMessage" "q \<noteq> InMessage" "q \<noteq> AbortMessage"
  shows "valid (obs E p e n c) (emit E ev) (\<lambda>_. obs E q e n c) (legal E)"
proof -
  have "valid (obs E p e n c) (emit E ev) (\<lambda>_. obs E q e n c) (obs E q e n c)"
    by (rule valid_emit)
      (use assms plain_event_effects [OF assms(1), of E] in
        \<open>auto simp: obs_def phase_from_append started_once_def\<close>)
  then show ?thesis by (rule valid_conseq) (auto intro: obs_legal)
qed

lemma emit_update:
  "valid (obs E InMessage e n c) (emit E (MessageUpdate ev m)) (\<lambda>_. obs E InMessage e n c) (legal E)"
proof -
  have "valid (obs E InMessage e n c) (emit E (MessageUpdate ev m)) (\<lambda>_. obs E InMessage e n c)
          (obs E InMessage e n c)"
    by (rule valid_emit) (auto simp: obs_def phase_from_append started_once_def turns_answered_def)
  then show ?thesis by (rule valid_conseq) (auto intro: obs_legal)
qed

lemma emit_message_start:
  assumes "next_phase p (MessageStart m) = Some q" "p \<noteq> InMessage" 
  shows "valid (obs E p e n c) (emit E (MessageStart m)) (\<lambda>_. obs E q e n c) (legal E)"
proof -
  have "q = InMessage \<and> (\<exists>ops. p = InTurn ops) \<or> q = AbortMessage \<and> p = TurnClosed"
    using assms by (cases p) (auto split: if_splits)
  then have "valid (obs E p e n c) (emit E (MessageStart m)) (\<lambda>_. obs E q e n c) (obs E q e n c)"
    by (intro valid_emit)
      (use assms(1) in \<open>auto simp: obs_def phase_from_append started_once_def turns_answered_def\<close>)
  then show ?thesis by (rule valid_conseq) (auto intro: obs_legal)
qed

lemma emit_message_end:
  assumes "next_phase p (MessageEnd m) = Some q"
  shows "valid (obs E p e n c) (emit E (MessageEnd m)) (\<lambda>_. obs E q (e @ [m]) n c) (legal E)"
proof -
  have "p = InMessage \<and> q = InTurn {#} \<or> p = AbortMessage \<and> q = AbortTurn"
    using assms by (cases p) auto
  then have "valid (obs E p e n c) (emit E (MessageEnd m)) (\<lambda>_. obs E q (e @ [m]) n c) (obs E q (e @ [m]) n c)"
    by (intro valid_emit)
      (use assms in \<open>auto simp: obs_def phase_from_append started_once_def turns_answered_def\<close>)
  then show ?thesis by (rule valid_conseq) (auto intro: obs_legal)
qed

lemma emit_turn_end:
  assumes "next_phase p (TurnEnd m rs) = Some q" "answers E m rs"
  shows "valid (obs E p e n c) (emit E (TurnEnd m rs)) (\<lambda>_. obs E q e n c) (legal E)"
proof -
  have "(\<exists>ops. p = InTurn ops) \<and> q = TurnClosed \<or> p = AbortTurn \<and> q = AbortClosed"
    using assms by (cases p) (auto split: if_splits)
  then have "valid (obs E p e n c) (emit E (TurnEnd m rs)) (\<lambda>_. obs E q e n c) (obs E q e n c)"
    by (intro valid_emit)
      (use assms in \<open>auto simp: obs_def phase_from_append started_once_def turns_answered_def\<close>)
  then show ?thesis by (rule valid_conseq) (auto intro: obs_legal)
qed

section \<open>Steps without events\<close>

definition quiet :: "'w loop_state \<Rightarrow> 'w loop_state \<Rightarrow> bool" where
  "quiet s t \<longleftrightarrow> lp_events t = lp_events s \<and> lp_new_messages t = lp_new_messages s \<and>
     cx_messages (lp_context t) = cx_messages (lp_context s)"

lemma quiet_refl: "reflp quiet"
  by (simp add: reflp_def quiet_def)

lemma quiet_trans: "transp quiet"
  by (simp add: transp_def quiet_def)

lemma quiet_on_world: "keeps quiet (on_world f)"
  by (rule keepsI) (auto simp: on_world_def quiet_def split: prod.splits)

lemma quiet_add_tool: "keeps quiet (add_tool t)"
  by (rule keepsI) (auto simp: add_tool_def modify_act_def quiet_def)

lemmas quiet_rules =
  keeps_ret [OF quiet_refl] keeps_raise [OF quiet_refl] keeps_of_res [OF quiet_refl]
  keeps_get [OF quiet_refl] keeps_bind [OF quiet_trans] keeps_then [OF quiet_trans]
  keeps_catch [OF quiet_trans] quiet_on_world quiet_add_tool

lemma quiet_error_outcome: "keeps quiet (error_outcome msg)"
  unfolding error_outcome_def by (rule keeps_ret [OF quiet_refl])

lemma quiet_find_tool: "keeps quiet (find_tool cfg am call)"
  unfolding find_tool_def
  by (auto intro!: quiet_rules split: option.split)

lemma quiet_resolve: "keeps quiet (resolve_tool_call_tool cfg am call resolved)"
  unfolding resolve_tool_call_tool_def
  by (auto intro!: quiet_rules quiet_find_tool split: option.split)

lemma quiet_check_prepared: "keeps quiet (check_prepared E cfg am call tool)"
  unfolding check_prepared_def Let_def
  by (auto intro!: quiet_rules quiet_error_outcome
      split: option.split)

lemma quiet_prepare: "keeps quiet (prepare_tool_call E cfg am call resolved)"
  unfolding prepare_tool_call_def
  by (auto intro!: quiet_rules quiet_error_outcome quiet_resolve
      quiet_check_prepared split: option.split resolution.split prod.split)

lemma quiet_scan: "keeps quiet (scan_sequential E cfg am calls resolved)"
  by (induction calls arbitrary: resolved)
    (auto intro!: quiet_rules quiet_resolve split: prod.split)

lemma quiet_finalize: "keeps quiet (finalize_executed_tool_call E cfg am call args executed)"
  unfolding finalize_executed_tool_call_def
  by (auto intro!: quiet_rules split: option.split prod.split)

lemma quiet_poll: "keeps quiet (poll f)"
  unfolding poll_def by (auto intro!: quiet_rules split: option.split)

lemma quiet_open_stream: "keeps quiet (open_stream E cfg)"
  unfolding open_stream_def
  by (auto intro!: quiet_rules split: option.split)

lemma quiet_wants_stop: "keeps quiet (wants_stop cfg m results)"
  unfolding wants_stop_def by (auto intro!: quiet_rules split: option.split)

lemma quiet_valid:
  assumes "keeps quiet m"
  shows "valid (obs E p e n c) m (\<lambda>_. obs E p e n c) (legal E)"
proof -
  have "valid (obs E p e n c) m (\<lambda>_. obs E p e n c) (obs E p e n c)"
    by (rule keeps_valid [OF assms]) (simp add: quiet_def obs_def)
  then show ?thesis by (rule valid_conseq) (auto intro: obs_legal)
qed

lemma get_aborted:
  "valid P (get_act (aborted_now E)) (\<lambda>x s. P s \<and> (le_signal E = None \<longrightarrow> \<not> x)) R"
  by (rule valid_get) (simp add: aborted_now_def)

section \<open>Messages\<close>

lemma push_message_obs:
  "valid (obs E p e n c) (push_message m) (\<lambda>_. obs E p e n (c @ [m])) R"
  unfolding push_message_def by (rule valid_modify) (simp add: obs_def map_messages_def)

lemma push_new_obs:
  "valid (obs E p e n c) (push_new m) (\<lambda>_. obs E p e (n @ [m]) c) R"
  unfolding push_new_def by (rule valid_modify) (simp add: obs_def)

lemma replace_last_obs:
  "valid (obs E p e n (c @ [m'])) (replace_last m) (\<lambda>_. obs E p e n (c @ [m])) R"
  unfolding replace_last_def by (rule valid_modify) (simp add: obs_def map_messages_def)

lemma announce_obs:
  "valid (obs E (InTurn {#}) e n c) (announce E m) (\<lambda>_. obs E (InTurn {#}) (e @ [m]) n c) (legal E)"
  unfolding announce_def
  by (rule valid_then [OF emit_message_start [where q = InMessage] emit_message_end]) simp_all

text \<open>The prompts are in the context and in the new messages before they are announced.\<close>

lemma announce_all_obs:
  "valid (obs E (InTurn {#}) e n c) (each_act (announce E) ms)
     (\<lambda>_. obs E (InTurn {#}) (e @ ms) n c) (legal E)"
proof (induction ms arbitrary: e)
  case Nil
  show ?case by (simp add: valid_ret)
next
  case (Cons m ms)
  show ?case
    using valid_then [OF announce_obs Cons.IH [of "e @ [m]"]] by simp
qed

lemma add_pending_obs:
  "valid (obs E (InTurn {#}) e n c) (add_pending E m)
     (\<lambda>_. obs E (InTurn {#}) (e @ [m]) (n @ [m]) (c @ [m])) (legal E)"
  unfolding add_pending_def
  by (rule valid_then [OF announce_obs valid_then [OF push_message_obs push_new_obs]])

lemma add_all_pending_obs:
  "valid (obs E (InTurn {#}) e n c) (each_act (add_pending E) ms)
     (\<lambda>_. obs E (InTurn {#}) (e @ ms) (n @ ms) (c @ ms)) (legal E)"
proof (induction ms arbitrary: e n c)
  case Nil
  show ?case by (simp add: valid_ret)
next
  case (Cons m ms)
  show ?case
    using valid_then [OF add_pending_obs Cons.IH [of "e @ [m]" "n @ [m]" "c @ [m]"]] by simp
qed

section \<open>Ends of a run\<close>

lemma emit_agent_end:
  assumes "next_phase p (AgentEnd ms) = Some Over"
  shows "valid (obs E p e n c) (emit E (AgentEnd ms))
     (\<lambda>_ s. obs E Over e n c s \<and> last (lp_events s) = AgentEnd ms) (legal E)"
proof (rule validI)
  have p: "p \<noteq> InMessage" "p \<noteq> AbortMessage" using assms by auto
  note ob = emit_plain [OF _ assms p, of E e n c, simplified plain_event_def]
  show "obs E Over e n c t \<and> last (lp_events t) = AgentEnd ms"
    if "obs E p e n c s" "emit E (AgentEnd ms) s = (Inr x, t)" for s x t
    using validD [OF ob that] emit_events [OF that(2)] by simp
  show "legal E t" if "obs E p e n c s" "emit E (AgentEnd ms) s = (Inl x, t)" for s x t
    using validE [OF ob that] by simp
qed

definition abort_over ::
  "'w loop_env \<Rightarrow> agent_message list \<Rightarrow> agent_message list \<Rightarrow> agent_message list \<Rightarrow> 'w loop_state \<Rightarrow> bool" where
  "abort_over E e n c s \<longleftrightarrow>
     (\<exists>m. am_stop_reason m = ''aborted'' \<and> obs E Over (e @ [AssistantM m]) n c s \<and>
        last (lp_events s) = AgentEnd [AssistantM m])"

lemma abort_events_obs:
  assumes p: "p = InTurn {#} \<or> p = TurnClosed" and m: "am_stop_reason m = ''aborted''"
  shows "valid (obs E p e n c)
     (then_act (emit E (MessageStart (Message (AssistantM m))))
        (then_act (emit E (MessageEnd (AssistantM m)))
          (then_act (emit E (TurnEnd (AssistantM m) []))
            (then_act (emit E (AgentEnd [AssistantM m])) (ret_act True)))))
     (\<lambda>b s. b \<and> abort_over E e n c s) (legal E)"
proof -
  have ans: "answers E (AssistantM m) []" using m by (simp add: answers_def)
  let ?e = "e @ [AssistantM m]"
  obtain q1 q2 q3 where q:
    "next_phase p (MessageStart (Message (AssistantM m))) = Some q1"
    "next_phase q1 (MessageEnd (AssistantM m)) = Some q2"
    "next_phase q2 (TurnEnd (AssistantM m) []) = Some q3"
    "next_phase q3 (AgentEnd [AssistantM m]) = Some Over"
    using p by fastforce
  have "p \<noteq> InMessage" using p by auto
  note steps = emit_message_start [OF q(1) this, of E e n c] emit_message_end [OF q(2), of E e n c]
    emit_turn_end [OF q(3) ans, of ?e n c] emit_agent_end [OF q(4), of E ?e n c]
  have "valid (\<lambda>s. obs E Over ?e n c s \<and> last (lp_events s) = AgentEnd [AssistantM m])
     (ret_act True) (\<lambda>b s. b \<and> abort_over E e n c s) (legal E)"
    by (rule valid_ret) (use m in \<open>auto simp: abort_over_def\<close>)
  then show ?thesis
    by (intro valid_then [OF steps(1)] valid_then [OF steps(2)] valid_then [OF steps(3)]
        valid_then [OF steps(4)])
qed

lemma failure_message_aborted:
  "create_loop_failure_message now cfg reason True = Inr m \<Longrightarrow> am_stop_reason m = ''aborted''"
  by (auto simp: create_loop_failure_message_def split: option.splits)

lemma stop_if_aborted_obs:
  assumes p: "p = InTurn {#} \<or> p = TurnClosed"
  shows "valid (obs E p e n c) (stop_if_aborted E cfg)
     (\<lambda>b s. if b then abort_over E e n c s else obs E p e n c s) (legal E)"
proof -
  let ?P = "obs E p e n c"
  have keep: "valid ?P (get_act f) (\<lambda>_. ?P) (legal E)" for f :: "'a loop_state \<Rightarrow> 'b"
    by (rule valid_get)
  have keep': "valid ?P (get_act f) (\<lambda>_. ?P) (legal E)" for f :: "'a loop_state \<Rightarrow> 'c"
    by (rule valid_get)
  have msg: "valid ?P (of_res (create_loop_failure_message now cfg reason True))
      (\<lambda>m s. am_stop_reason m = ''aborted'' \<and> ?P s) (legal E)" for now reason
    by (rule valid_of_res) (auto intro: failure_message_aborted obs_legal)
  have events: "valid (\<lambda>s. am_stop_reason m = ''aborted'' \<and> ?P s)
     (then_act (emit E (MessageStart (Message (AssistantM m))))
        (then_act (emit E (MessageEnd (AssistantM m)))
          (then_act (emit E (TurnEnd (AssistantM m) []))
            (then_act (emit E (AgentEnd [AssistantM m])) (ret_act True)))))
     (\<lambda>b s. if b then abort_over E e n c s else ?P s) (legal E)" for m
  proof (cases "am_stop_reason m = ''aborted''")
    case True
    then show ?thesis by (auto intro: valid_pre [OF valid_post [OF abort_events_obs [OF p True]]])
  next
    case False
    then show ?thesis by (simp add: valid_def)
  qed
  have quit: "valid ?P (bind_act (get_act (abort_text E)) (\<lambda>reason.
         bind_act (get_act (\<lambda>s. le_now_ms E (lp_world s))) (\<lambda>now.
           bind_act (of_res (create_loop_failure_message now cfg reason True)) (\<lambda>m.
             then_act (emit E (MessageStart (Message (AssistantM m))))
               (then_act (emit E (MessageEnd (AssistantM m)))
                 (then_act (emit E (TurnEnd (AssistantM m) []))
                   (then_act (emit E (AgentEnd [AssistantM m])) (ret_act True))))))))
      (\<lambda>b s. if b then abort_over E e n c s else ?P s) (legal E)"
    by (intro valid_bind [where M = "\<lambda>_. ?P"] valid_bind [OF msg] events valid_get) simp_all
  show ?thesis
    unfolding stop_if_aborted_def
    by (rule valid_bind [where M = "\<lambda>_. ?P"], rule valid_get, assumption, rule valid_if,
        rule valid_ret, simp, rule quit)
qed

section \<open>The response of the model\<close>

definition response_phase :: "bool \<Rightarrow> phase" where
  "response_phase added = (if added then InMessage else InTurn {#})"

text \<open>Once the partial message is in the context, it is its last message.\<close>

definition streaming ::
  "'w loop_env \<Rightarrow> agent_message list \<Rightarrow> agent_message list \<Rightarrow> agent_message list
     \<Rightarrow> bool \<Rightarrow> 'w loop_state \<Rightarrow> bool" where
  "streaming E e n c added s \<longleftrightarrow>
     (if added then \<exists>m. obs E InMessage e n (c @ [m]) s else obs E (InTurn {#}) e n c s)"

lemma streaming_True: "streaming E e n c True = (\<lambda>s. \<exists>m. obs E InMessage e n (c @ [m]) s)"
  by (rule ext) (simp add: streaming_def)

lemma streaming_False: "streaming E e n c False = obs E (InTurn {#}) e n c"
  by (rule ext) (simp add: streaming_def)

definition responded ::
  "'w loop_env \<Rightarrow> agent_message list \<Rightarrow> agent_message list \<Rightarrow> agent_message list
     \<Rightarrow> assistant_message \<Rightarrow> 'w loop_state \<Rightarrow> bool" where
  "responded E e n c m = obs E (InTurn {#}) (e @ [AssistantM m]) n (c @ [AssistantM m])"

lemma emit_restart:
  "valid (obs E InMessage e n c) (emit E (MessageStart m)) (\<lambda>_. obs E InMessage e n c') (legal E)"
proof -
  have "valid (obs E InMessage e n c) (emit E (MessageStart m)) (\<lambda>_. obs E InMessage e n c')
          (obs E InMessage e n c')"
    by (rule valid_emit) (auto simp: obs_def phase_from_append started_once_def turns_answered_def)
  then show ?thesis by (rule valid_conseq) (auto intro: obs_legal)
qed

lemma quiet_streaming:
  assumes "keeps quiet m"
  shows "valid (streaming E e n c added) m (\<lambda>_. streaming E e n c added) (legal E)"
proof (cases added)
  case True
  then show ?thesis
    by (auto simp: streaming_True intro!: valid_ex intro: valid_post [OF quiet_valid [OF assms]])
next
  case False
  then show ?thesis using quiet_valid [OF assms] by (simp add: streaming_False)
qed

lemma finish_response_obs:
  "valid (streaming E e n c added) (finish_response E added) (responded E e n c) (legal E)"
proof -
  have close: "valid (obs E InMessage e n (c @ [AssistantM final]))
      (then_act (emit E (MessageEnd (AssistantM final))) (ret_act final)) (responded E e n c) (legal E)" for final
    by (rule valid_then [OF emit_message_end]) (auto intro: valid_ret simp: responded_def)
  have place: "valid (streaming E e n c added)
      (if added then replace_last (AssistantM final)
       else then_act (push_message (AssistantM final)) (emit E (MessageStart (DictOf final))))
      (\<lambda>_. obs E InMessage e n (c @ [AssistantM final])) (legal E)" for final
  proof (cases added)
    case True
    then show ?thesis by (auto simp: streaming_True intro!: valid_ex replace_last_obs)
  next
    case False
    then show ?thesis
      by (simp add: streaming_False)
        (rule valid_then [OF push_message_obs emit_message_start], simp_all)
  qed
  show ?thesis
    unfolding finish_response_def
    by (rule valid_bind [OF quiet_streaming [OF quiet_on_world]]) (rule valid_then [OF place close])
qed

lemma start_event_obs:
  "valid (streaming E e n c added)
     (then_act (push_message (AssistantM m)) (emit E (MessageStart (DictOf m))))
     (\<lambda>_. streaming E e n c True) (legal E)"
proof (cases added)
  case True
  have "valid (obs E InMessage e n (c @ [m']))
      (then_act (push_message (AssistantM m)) (emit E (MessageStart (DictOf m))))
      (\<lambda>_. obs E InMessage e n (c @ [AssistantM m])) (legal E)" for m'
    by (rule valid_then [OF push_message_obs emit_restart])
  then show ?thesis using True
    by (auto simp: streaming_True intro!: valid_ex intro: valid_post)
next
  case False
  have "valid (obs E (InTurn {#}) e n c)
      (then_act (push_message (AssistantM m)) (emit E (MessageStart (DictOf m))))
      (\<lambda>_. obs E InMessage e n (c @ [AssistantM m])) (legal E)"
    by (rule valid_then [OF push_message_obs emit_message_start]) simp_all
  then show ?thesis using False by (auto simp: streaming_False streaming_True elim!: valid_post)
qed

lemma update_event_obs:
  "valid (streaming E e n c True)
     (then_act (replace_last (AssistantM m)) (emit E (MessageUpdate ev (DictOf m))))
     (\<lambda>_. streaming E e n c True) (legal E)"
proof -
  have "valid (obs E InMessage e n (c @ [m']))
      (then_act (replace_last (AssistantM m)) (emit E (MessageUpdate ev (DictOf m))))
      (\<lambda>_. obs E InMessage e n (c @ [AssistantM m])) (legal E)" for m'
    by (rule valid_then [OF replace_last_obs emit_update])
  then show ?thesis by (auto simp: streaming_True intro!: valid_ex intro: valid_post)
qed

lemma then_act_assoc: "then_act (then_act a b) c = then_act a (then_act b c)"
  by (rule ext) (auto simp: then_act_def bind_act_def split: prod.split sum.split)

definition after_event ::
  "'w loop_env \<Rightarrow> agent_message list \<Rightarrow> agent_message list \<Rightarrow> agent_message list
     \<Rightarrow> assistant_message + (assistant_message option \<times> bool) \<Rightarrow> 'w loop_state \<Rightarrow> bool" where
  "after_event E e n c r =
     (case r of
        Inl final \<Rightarrow> responded E e n c final
      | Inr (partial, added) \<Rightarrow> (\<lambda>s. streaming E e n c added s \<and> (partial \<noteq> None \<longrightarrow> added)))"

lemma stream_step_obs:
  assumes "partial \<noteq> None \<longrightarrow> added"
  shows "valid (streaming E e n c added) (stream_step E ev partial added) (after_event E e n c) (legal E)"
proof -
  let ?S = "streaming E e n c"
  have start: "valid (?S added) (case se_partial ev of
           None \<Rightarrow> then_act (push_message (OtherM VNone)) (raise_act PyTypeError)
         | Some m \<Rightarrow> then_act (push_message (AssistantM m))
             (then_act (emit E (MessageStart (DictOf m))) (ret_act (Inr (Some m, True)))))
       (after_event E e n c) (legal E)"
  proof (cases "se_partial ev")
    case None
    have "valid (?S added) (push_message (OtherM VNone)) (\<lambda>_. legal E) (legal E)"
      by (rule validI) (auto simp: push_message_def modify_act_def map_messages_def streaming_def
          legal_def obs_def split: if_splits)
    then show ?thesis using None by (simp add: valid_then [OF _ valid_raise])
  next
    case (Some m)
    show ?thesis
      by (simp add: Some flip: then_act_assoc)
        (rule valid_then [OF start_event_obs], simp add: valid_ret after_event_def)
  qed
  have update: "valid (?S True)
      (then_act (replace_last (AssistantM m))
         (then_act (emit E (MessageUpdate ev (DictOf m))) (ret_act (Inr (Some m, True)))))
      (after_event E e n c) (legal E)" for m
    by (simp flip: then_act_assoc)
      (rule valid_then [OF update_event_obs], simp add: valid_ret after_event_def)
  have final: "valid (?S added) (bind_act (finish_response E added) (\<lambda>final. ret_act (Inl final)))
      (after_event E e n c) (legal E)"
    by (rule valid_bind [OF finish_response_obs]) (simp add: valid_ret after_event_def)
  have skip: "valid (?S added) (ret_act (Inr (partial, added))) (after_event E e n c) (legal E)"
    using assms by (simp add: valid_ret after_event_def)
  have "valid (?S added)
      (case partial of
         None \<Rightarrow> ret_act (Inr (None, added))
       | Some p \<Rightarrow>
           (let m = resolve_assistant_message_update ev p
            in then_act (replace_last (AssistantM m))
                 (then_act (emit E (MessageUpdate ev (DictOf m))) (ret_act (Inr (Some m, added))))))
      (after_event E e n c) (legal E)"
    using assms skip update by (cases partial) (simp_all add: Let_def)
  with start final skip show ?thesis
    unfolding stream_step_def by (intro valid_if)
qed

text \<open>Triples for the loops, which may not return.\<close>

definition valid_opt ::
  "('s \<Rightarrow> bool) \<Rightarrow> ('s \<Rightarrow> ('a res \<times> 's) option) \<Rightarrow> ('a \<Rightarrow> 's \<Rightarrow> bool) \<Rightarrow> ('s \<Rightarrow> bool) \<Rightarrow> bool" where
  "valid_opt P m Q R \<longleftrightarrow>
     (\<forall>s r t. P s \<longrightarrow> m s = Some (r, t) \<longrightarrow> (case r of Inl e \<Rightarrow> R t | Inr x \<Rightarrow> Q x t))"

lemma valid_optD:
  "valid_opt P m Q R \<Longrightarrow> P s \<Longrightarrow> m s = Some (r, t) \<Longrightarrow> (case r of Inl e \<Rightarrow> R t | Inr x \<Rightarrow> Q x t)"
  by (simp add: valid_opt_def)

lemma valid_case:
  "valid P m Q R \<Longrightarrow> P s \<Longrightarrow> m s = (r, t) \<Longrightarrow> (case r of Inl e \<Rightarrow> R t | Inr x \<Rightarrow> Q x t)"
  by (auto dest: validD validE split: sum.split)

lemma stream_loop_obs:
  assumes "partial \<noteq> None \<longrightarrow> added"
  shows "valid_opt (streaming (E :: 'w loop_env) e n c added) (stream_loop E partial added) (responded E e n c) (legal E)"
proof -
  have "streaming E e n c added s \<longrightarrow> (partial \<noteq> None \<longrightarrow> added) \<longrightarrow>
        (case fst y of Inl e \<Rightarrow> legal E (snd y) | Inr m \<Rightarrow> responded E e n c m (snd y))"
    (is "?G E partial added s y")
    if "stream_loop E partial added s = Some y" for E :: "'w loop_env" and partial added s y
  proof (rule stream_loop.raw_induct [OF _ that, of ?G])
    fix rec :: "'w loop_env \<Rightarrow> assistant_message option \<Rightarrow> bool \<Rightarrow> 'w loop_state
                 \<Rightarrow> (assistant_message res \<times> 'w loop_state) option"
      and E :: "'w loop_env" and partial added s y
    assume IH: "\<And>E partial added s y. rec E partial added s = Some y \<Longrightarrow> ?G E partial added s y"
      and body: "(case on_world (le_stream_next E) s of (Inl e, s') \<Rightarrow> Some (Inl e, s')
        | (Inr None, s') \<Rightarrow> Some (finish_response E added s')
        | (Inr (Some ev), s') \<Rightarrow>
            (case stream_step E ev partial added s' of
               (Inl e, s'') \<Rightarrow> Some (Inl e, s'')
             | (Inr (Inl final), s'') \<Rightarrow> Some (Inr final, s'')
             | (Inr (Inr (partial', added')), s'') \<Rightarrow> rec E partial' added' s'')) = Some y"
    show "?G E partial added s y"
    proof (intro impI)
      assume pre: "streaming E e n c added s" and flag: "partial \<noteq> None \<longrightarrow> added"
      obtain r1 s1 where nxt: "on_world (le_stream_next E) s = (r1, s1)" by force
      note step1 = valid_case [OF quiet_streaming [OF quiet_on_world] pre nxt]
      show "case fst y of Inl e \<Rightarrow> legal E (snd y) | Inr m \<Rightarrow> responded E e n c m (snd y)"
      proof (cases r1)
        case (Inl x)
        with body nxt step1 show ?thesis by auto
      next
        case (Inr evo)
        with step1 have S1: "streaming E e n c added s1" by simp
        show ?thesis
        proof (cases evo)
          case None
          with body nxt Inr have "y = finish_response E added s1" by simp
          then show ?thesis
            using valid_case [OF finish_response_obs S1 surjective_pairing] by (simp split: sum.splits)
        next
          case (Some ev)
          obtain r2 s2 where step: "stream_step E ev partial added s1 = (r2, s2)" by force
          note step2 = valid_case [OF stream_step_obs [OF flag] S1 step]
          show ?thesis
          proof (cases r2)
            case (Inl x)
            with body nxt Inr Some step step2 show ?thesis by auto
          next
            case r2: (Inr r3)
            show ?thesis
            proof (cases r3)
              case (Inl final)
              with body nxt Inr Some step step2 r2 show ?thesis by (auto simp: after_event_def)
            next
              case r3: (Inr pa)
              with body nxt Inr Some step r2 have "rec E (fst pa) (snd pa) s2 = Some y"
                by (auto split: prod.splits)
              moreover from step2 r2 r3 have "streaming E e n c (snd pa) s2 \<and> (fst pa \<noteq> None \<longrightarrow> snd pa)"
                by (auto simp: after_event_def split: prod.splits)
              ultimately show ?thesis using IH by blast
            qed
          qed
        qed
      qed
    qed
  qed
  from this [of E partial added] show ?thesis
    unfolding valid_opt_def using assms by (metis fst_conv snd_conv)
qed

end
