(* ===== verification/LoopRelations.thy ===== *)
theory LoopRelations
  imports LoopProtocol
begin

text \<open>
  Relations between the states before and after a run. The locale \<open>loop_relation\<close> is the interface: a
  relation that the events of a run, the stream and the changes of the messages keep is kept by every
  run whose hooks keep it. Since the arguments of a call never validate, no tool is executed, and the
  relation need not speak of the events and effects of an execution.
\<close>

section \<open>Relations that every run keeps\<close>

definition keeps_opt :: "('s \<Rightarrow> 's \<Rightarrow> bool) \<Rightarrow> ('s \<Rightarrow> ('a res \<times> 's) option) \<Rightarrow> bool" where
  "keeps_opt R m \<longleftrightarrow> (\<forall>s r t. m s = Some (r, t) \<longrightarrow> R s t)"

lemma keeps_optD: "keeps_opt R m \<Longrightarrow> m s = Some (r, t) \<Longrightarrow> R s t"
  by (simp add: keeps_opt_def)

lemma stream_loop_keeps:
  assumes R: "reflp R" "transp R" and fin: "\<And>added. keeps R (finish_response E added)"
    and step: "\<And>ev partial added. keeps R (stream_step E ev partial added)"
    and nxt: "keeps R (on_world (le_stream_next E))"
  shows "keeps_opt R (stream_loop E partial added)"
proof -
  have "E' = E \<longrightarrow> R s (snd y)" (is "?G E' partial added s y")
    if "stream_loop E' partial added s = Some y" for E' partial added s y
  proof (rule stream_loop.raw_induct [OF _ that, of ?G], intro impI)
    fix rec E' partial added s y
    assume IH: "\<And>E' partial added s y. rec E' partial added s = Some y \<Longrightarrow> ?G E' partial added s y"
      and body: "(case on_world (le_stream_next E') s of (Inl e, s') \<Rightarrow> Some (Inl e, s')
        | (Inr None, s') \<Rightarrow> Some (finish_response E' added s')
        | (Inr (Some ev), s') \<Rightarrow>
            (case stream_step E' ev partial added s' of
               (Inl e, s'') \<Rightarrow> Some (Inl e, s'')
             | (Inr (Inl final), s'') \<Rightarrow> Some (Inr final, s'')
             | (Inr (Inr (partial', added')), s'') \<Rightarrow> rec E' partial' added' s'')) = Some y"
      and E': "E' = E"
    obtain r1 s1 where n: "on_world (le_stream_next E) s = (r1, s1)" by force
    have 1: "R s s1" by (rule keepsD [OF nxt n])
    consider e where "r1 = Inl e" | "r1 = Inr None" | ev where "r1 = Inr (Some ev)"
      by (metis option.exhaust sum.exhaust)
    then show "R s (snd y)"
    proof cases
      case 1
      with body n E' \<open>R s s1\<close> show ?thesis by auto
    next
      case 2
      with body n E' have "finish_response E added s1 = y" by simp
      then show ?thesis using keepsD [OF fin, of added s1 "fst y" "snd y"] 1 R(2) by (metis prod.collapse transpD)
    next
      case (3 ev)
      obtain r2 s2 where st: "stream_step E ev partial added s1 = (r2, s2)" by force
      have 2: "R s s2" using keepsD [OF step st] 1 R(2) by (metis transpD)
      consider e where "r2 = Inl e" | m where "r2 = Inr (Inl m)" | p a where "r2 = Inr (Inr (p, a))"
        by (metis sum.exhaust prod.collapse)
      then show ?thesis
      proof cases
        case (3 p a)
        with body n E' \<open>r1 = Inr (Some ev)\<close> st have "rec E p a s2 = Some y" by simp
        with IH have "R s2 (snd y)" by blast
        with 2 R(2) show ?thesis by (metis transpD)
      qed (use body n E' \<open>r1 = Inr (Some ev)\<close> st 2 in auto)
    qed
  qed
  then show ?thesis unfolding keeps_opt_def by (metis snd_conv)
qed

lemma turn_loop_keeps:
  assumes R: "reflp R" "transp R"
    and turn: "\<And>first pending cfg. H cfg \<Longrightarrow> keeps_opt R (run_turn E steering first pending cfg)"
    and hook: "\<And>first pending cfg s c a p t. H cfg \<Longrightarrow>
      run_turn E steering first pending cfg s = Some (Inr (GoOn c a p), t) \<Longrightarrow> H c"
    and poll: "\<And>cfg. H cfg \<Longrightarrow> keeps R (poll (lc_getFollowUpMessages cfg))" and fin: "keeps R (end_run E)"
    and cfg: "H cfg"
  shows "keeps_opt R (turn_loop E steering first again pending cfg)"
proof -
  have "E' = E \<and> st = steering \<and> H cfg \<longrightarrow> R s (snd y)" (is "?G E' st first again pending cfg s y")
    if "turn_loop E' st first again pending cfg s = Some y" for E' st first again pending cfg s y
  proof (rule turn_loop.raw_induct [OF _ that, of ?G], intro impI, elim conjE)
    fix rec E' st first again pending cfg s y
    assume IH: "\<And>E' st first again pending cfg s y.
        rec E' st first again pending cfg s = Some y \<Longrightarrow> ?G E' st first again pending cfg s y"
      and body: "(if again \<or> pending \<noteq> [] then
          (case run_turn E' st first pending cfg s of
             None \<Rightarrow> None
           | Some (r, s1) \<Rightarrow>
               (case r of
                  Inl e \<Rightarrow> Some (Inl e, s1)
                | Inr RunOver \<Rightarrow> Some (Inr (), s1)
                | Inr (GoOn cfg' again' pending') \<Rightarrow> rec E' st False again' pending' cfg' s1))
        else
          (case poll (lc_getFollowUpMessages cfg) s of
             (Inl e, s1) \<Rightarrow> Some (Inl e, s1)
           | (Inr followups, s1) \<Rightarrow>
               if followups \<noteq> [] then rec E' st first True followups cfg s1
               else Some (end_run E' s1))) = Some y"
      and eq: "E' = E" "st = steering" and H: "H cfg"
    show "R s (snd y)"
    proof (cases "again \<or> pending \<noteq> []")
      case True
      with body eq obtain r1 s1 where run: "run_turn E steering first pending cfg s = Some (r1, s1)"
        by (auto split: option.splits)
      have 1: "R s s1" by (rule keeps_optD [OF turn [OF H] run])
      consider e where "r1 = Inl e" | "r1 = Inr RunOver" | c a p where "r1 = Inr (GoOn c a p)"
        by (metis sum.exhaust turn_end.exhaust)
      then show ?thesis
      proof cases
        case (3 c a p)
        with body eq run True have "rec E steering False a p c s1 = Some y" by simp
        moreover have "H c" using hook [OF H] run 3 by blast
        ultimately have "R s1 (snd y)" using IH by blast
        with 1 R(2) show ?thesis by (metis transpD)
      qed (use body eq run True 1 in auto)
    next
      case False
      obtain r1 s1 where p: "poll (lc_getFollowUpMessages cfg) s = (r1, s1)" by force
      have 1: "R s s1" by (rule keepsD [OF poll [OF H] p])
      consider e where "r1 = Inl e" | "r1 = Inr []" | fs where "r1 = Inr fs" "fs \<noteq> []"
        by (metis sum.exhaust)
      then show ?thesis
      proof cases
        case 1
        with body eq p False \<open>R s s1\<close> show ?thesis by auto
      next
        case 2
        with body eq p False have "end_run E s1 = y" by simp
        then show ?thesis using keepsD [OF fin, of s1 "fst y" "snd y"] 1 R(2) by (metis prod.collapse transpD)
      next
        case (3 fs)
        with body eq p False have "rec E steering first True fs cfg s1 = Some y" by simp
        with IH H have "R s1 (snd y)" by blast
        with 1 R(2) show ?thesis by (metis transpD)
      qed
    qed
  qed
  with cfg show ?thesis unfolding keeps_opt_def by (metis snd_conv)
qed

section \<open>No call is prepared\<close>

lemma arguments_never_validate: "validate_tool_arguments tool call = Inl (PyAttributeError ''name'')"
  by (simp add: validate_tool_arguments_def validate_tool_dicts_def)

definition refused :: "'w preparation \<Rightarrow> bool" where
  "refused p \<longleftrightarrow> (case p of Immediate r is_error \<Rightarrow> is_error | Prepared call tool args \<Rightarrow> False)"

lemma refused_outcome: "yields refused (error_outcome msg)"
  by (simp add: error_outcome_def yields_ret refused_def)

lemma refused_check: "yields refused (check_prepared E cfg am call tool)"
proof -
  have "yields refused (bind_act (of_res (Inl e)) f)" for e and f :: "pyval \<Rightarrow> ('a loop_state, 'a preparation) act"
    by (simp add: yields_def bind_act_Inr)
  then show ?thesis
    unfolding check_prepared_def arguments_never_validate by (rule yields_bind_any)
qed

lemma refused_prepare: "yields (\<lambda>x. refused (fst x)) (prepare_tool_call E cfg am call resolved)"
proof -
  have look: "yields refused (bind_act (get_act (aborted_now E)) (\<lambda>aborted.
      error_outcome (if aborted then ''Operation aborted'' else le_exn_text E e)))" for e
    by (rule yields_bind_any) (rule refused_outcome)
  have pair: "yields (\<lambda>x. refused (fst x)) (bind_act m (\<lambda>p. ret_act (p, r)))"
    if "yields refused m" for m :: "('a loop_state, 'a preparation) act" and r :: "string \<rightharpoonup> 'a resolution"
    by (rule yields_bind [OF that]) (simp add: yields_ret)
  show ?thesis
    unfolding prepare_tool_call_def
    by (rule yields_bind_any)
      (auto intro!: pair yields_catch refused_outcome refused_check look
        split: prod.split resolution.split option.split)
qed

definition all_finished :: "'w batch_entry list \<Rightarrow> bool" where
  "all_finished es \<longleftrightarrow> list_all (\<lambda>x. case x of Finished f \<Rightarrow> True | Coroutine c t a \<Rightarrow> False) es"

section \<open>The interface\<close>

definition idle_event :: "agent_event \<Rightarrow> bool" where
  "idle_event ev \<longleftrightarrow>
     (case ev of
        ToolExecutionUpdate i n a r \<Rightarrow> False
      | ToolExecutionEnd i n r is_error started \<Rightarrow> is_error \<and> \<not> started
      | _ \<Rightarrow> True)"

text \<open>The hooks of a configuration keep a relation, and so do the stream functions that a run may use.\<close>

definition hooks_keep :: "('w loop_state \<Rightarrow> 'w loop_state \<Rightarrow> bool) \<Rightarrow> 'w loop_config \<Rightarrow> bool" where
  "hooks_keep K cfg \<longleftrightarrow>
     (\<forall>f x. lc_transformContext cfg = Some f \<longrightarrow> keeps K (on_world (f x))) \<and>
     (\<forall>f x. lc_convertToLlm cfg = Some f \<longrightarrow> keeps K (on_world (f x))) \<and>
     (\<forall>f x. lc_getApiKey cfg = Some f \<longrightarrow> keeps K (on_world (f x))) \<and>
     (\<forall>f x. lc_resolveDeferredTool cfg = Some f \<longrightarrow> keeps K (on_world (f x))) \<and>
     (\<forall>f x. lc_prepareNextTurn cfg = Some f \<longrightarrow> keeps K (on_world (f x))) \<and>
     (\<forall>f x. lc_shouldStopAfterTurn cfg = Some f \<longrightarrow> keeps K (on_world (f x))) \<and>
     (\<forall>f. lc_getSteeringMessages cfg = Some f \<longrightarrow> keeps K (on_world f)) \<and>
     (\<forall>f. lc_getFollowUpMessages cfg = Some f \<longrightarrow> keeps K (on_world f))"

definition stream_keeps :: "('w loop_state \<Rightarrow> 'w loop_state \<Rightarrow> bool) \<Rightarrow> 'w loop_env \<Rightarrow> bool" where
  "stream_keeps K E \<longleftrightarrow>
     (\<forall>f m c cfg k. resolve_agent_core_stream_fn (le_runtime E) (le_stream_fn E) = Inr f \<longrightarrow>
        keeps K (on_world (f m c cfg k))) \<and>
     keeps K (on_world (le_stream_next E)) \<and> keeps K (on_world (le_stream_result E))"

locale loop_relation =
  fixes K :: "'w loop_state \<Rightarrow> 'w loop_state \<Rightarrow> bool" and E :: "'w loop_env"
  assumes K_refl: "reflp K" and K_trans: "transp K"
    and K_emit: "idle_event ev \<Longrightarrow> keeps K (emit E ev)"
    and K_same: "lp_world t = lp_world s \<Longrightarrow> lp_events t = lp_events s \<Longrightarrow> K s t"
    and K_stream: "stream_keeps K E"

context loop_relation begin

lemma K_modify: "(\<And>s. lp_world (f s) = lp_world s \<and> lp_events (f s) = lp_events s) \<Longrightarrow> keeps K (modify_act f)"
  by (simp add: keeps_def modify_act_def K_same)

lemmas K_rules =
  keeps_ret [OF K_refl] keeps_raise [OF K_refl] keeps_of_res [OF K_refl]
  keeps_get [OF K_refl] keeps_bind [OF K_trans] keeps_then [OF K_trans]
  keeps_catch [OF K_trans] keeps_each [OF K_refl K_trans] K_emit

lemma K_push: "keeps K (push_message m)" "keeps K (push_new m)" "keeps K (replace_last m)"
  unfolding push_message_def push_new_def replace_last_def map_messages_def
  by (rule K_modify, simp)+

lemma K_stop: "keeps K (stop_if_aborted E cfg)"
  unfolding stop_if_aborted_def by (auto intro!: K_rules simp: idle_event_def)

lemma K_next: "keeps K (on_world (le_stream_next E))" and K_result: "keeps K (on_world (le_stream_result E))"
  using K_stream by (simp_all add: stream_keeps_def)

lemma K_finish_response: "keeps K (finish_response E added)"
  unfolding finish_response_def by (auto intro!: K_rules K_push K_result simp: idle_event_def)

lemma K_stream_step: "keeps K (stream_step E ev partial added)"
  unfolding stream_step_def Let_def
  by (auto intro!: K_rules K_push K_finish_response simp: idle_event_def split: option.split)

lemma K_stream_loop: "keeps_opt K (stream_loop E partial added)"
  by (rule stream_loop_keeps [OF K_refl K_trans K_finish_response K_stream_step K_next])

lemma K_open_stream:
  assumes "hooks_keep K cfg"
  shows "keeps K (open_stream E cfg)"
proof -
  have call: "keeps K (bind_act (of_res (resolve_agent_core_stream_fn (le_runtime E) (le_stream_fn E)))
      (\<lambda>f. bind_act (key f) (\<lambda>k. on_world (f m c cfg k))))" if "\<And>f. keeps K (key f)" for key m c
  proof (cases "resolve_agent_core_stream_fn (le_runtime E) (le_stream_fn E)")
    case (Inl e)
    then show ?thesis using keeps_of_res [OF K_refl, of "Inl e"]
      by (auto simp: keeps_def bind_act_def of_res_def)
  next
    case (Inr f)
    then have "keeps K (on_world (f m c cfg k))" for k using K_stream by (simp add: stream_keeps_def)
    then have "keeps K (bind_act (key f) (\<lambda>k. on_world (f m c cfg k)))"
      by (intro keeps_bind [OF K_trans that])
    then show ?thesis using Inr by (simp add: keeps_def bind_act_def of_res_def)
  qed
  show ?thesis
    unfolding open_stream_def
    using assms by (auto simp: hooks_keep_def intro!: K_rules call split: option.split)
qed

lemma K_announce: "keeps K (announce E m)"
  unfolding announce_def by (auto intro!: K_rules simp: idle_event_def)

lemma K_begin_turn: "keeps K (begin_turn E cfg first pending)"
  unfolding begin_turn_def add_pending_def
  by (auto intro!: K_rules K_stop K_announce K_push simp: idle_event_def)

lemma K_end_run: "keeps K (end_run E)"
  unfolding end_run_def by (auto intro!: K_rules simp: idle_event_def)

lemma K_poll: "(\<And>g. f = Some g \<Longrightarrow> keeps K (on_world g)) \<Longrightarrow> keeps K (poll f)"
  unfolding poll_def by (auto intro!: K_rules split: option.split)

lemma K_add_tool: "keeps K (add_tool t)"
  unfolding add_tool_def by (rule K_modify) simp

lemma K_error_outcome: "keeps K (error_outcome msg)"
  unfolding error_outcome_def by (rule keeps_ret [OF K_refl])

lemma K_find_tool: "hooks_keep K cfg \<Longrightarrow> keeps K (find_tool cfg am call)"
  unfolding find_tool_def hooks_keep_def
  by (auto intro!: K_rules K_add_tool split: option.split)

lemma K_resolve: "hooks_keep K cfg \<Longrightarrow> keeps K (resolve_tool_call_tool cfg am call resolved)"
  unfolding resolve_tool_call_tool_def
  by (auto intro!: K_rules K_find_tool split: option.split)

text \<open>The check of a call stops at the validation, before the hook is asked.\<close>

lemma K_check_prepared: "keeps K (check_prepared E cfg am call tool)"
proof -
  have stop: "keeps K (bind_act (of_res (validate_tool_arguments tool p)) f)" for p f
    unfolding arguments_never_validate
    using keeps_of_res [OF K_refl, of "Inl (PyAttributeError ''name'') :: pyval res"]
    by (simp add: keeps_def bind_act_def of_res_def)
  show ?thesis
    unfolding check_prepared_def by (auto intro!: K_rules stop split: option.split)
qed

lemma K_prepare: "hooks_keep K cfg \<Longrightarrow> keeps K (prepare_tool_call E cfg am call resolved)"
  unfolding prepare_tool_call_def
  by (auto intro!: K_rules K_error_outcome K_resolve K_check_prepared
      split: option.split resolution.split prod.split)

lemma K_scan: "hooks_keep K cfg \<Longrightarrow> keeps K (scan_sequential E cfg am calls resolved)"
  by (induction calls arbitrary: resolved) (auto intro!: K_rules K_resolve split: prod.split)

lemma K_end_event:
  "fz_isError f \<Longrightarrow> \<not> fz_executionStarted f \<Longrightarrow> keeps K (emit_tool_execution_end E f)"
  unfolding emit_tool_execution_end_def by (rule K_emit) (simp add: idle_event_def)

lemma K_start_event: "keeps K (emit E (start_event call))"
  by (rule K_emit) (simp add: start_event_def idle_event_def)

lemma K_post: "keeps K (post_tool_result E f)"
  unfolding post_tool_result_def emit_tool_result_message_def
  by (auto intro!: K_rules simp: idle_event_def)

lemma K_post_results: "keeps K (post_results E fs)"
  by (induction fs) (auto intro!: K_rules K_post)

lemma K_sequential:
  assumes hooks: "hooks_keep K cfg"
  shows "keeps K (execute_sequential E cfg am calls resolved)"
proof (induction calls arbitrary: resolved)
  case (Cons call calls)
  have entry: "keeps K (bind_act (sequential_entry E cfg am call p) (\<lambda>f.
      then_act (emit_tool_execution_end E f) (bind_act (post_tool_result E f) (\<lambda>m.
        bind_act (get_act (aborted_now E)) (\<lambda>aborted.
          if aborted then ret_act [(f, m)]
          else bind_act (execute_sequential E cfg am calls resolved') (\<lambda>rest. ret_act ((f, m) # rest)))))))"
    if "refused p" for p resolved'
  proof (cases p)
    case (Immediate r b)
    with that have "yields (\<lambda>f. fz_isError f \<and> \<not> fz_executionStarted f) (sequential_entry E cfg am call p)"
      by (simp add: sequential_entry_def yields_ret immediate_entry_def refused_def)
    moreover have "keeps K (sequential_entry E cfg am call p)"
      by (simp add: Immediate sequential_entry_def keeps_ret [OF K_refl])
    ultimately show ?thesis
      by (intro keeps_bind_yields [OF K_trans, where V = "\<lambda>f. fz_isError f \<and> \<not> fz_executionStarted f"])
        (auto intro!: K_rules K_end_event K_post Cons.IH)
  qed (use that in \<open>simp add: refused_def\<close>)
  show ?case
    unfolding execute_sequential.simps
    by (rule keeps_then [OF K_trans K_start_event],
        rule keeps_bind_yields [OF K_trans K_prepare [OF hooks] refused_prepare])
      (auto intro: entry split: prod.split)
qed (simp add: keeps_ret [OF K_refl])

lemma K_parallel_entry:
  assumes "refused p"
  shows "keeps K (case p of
        Immediate result is_error \<Rightarrow>
          then_act (emit_tool_execution_end E (immediate_entry call result is_error))
            (ret_act (Finished (immediate_entry call result is_error)))
      | Prepared call' tool args \<Rightarrow> ret_act (Coroutine call' tool args))"
    "yields (\<lambda>x. all_finished [x]) (case p of
        Immediate result is_error \<Rightarrow>
          then_act (emit_tool_execution_end E (immediate_entry call result is_error))
            (ret_act (Finished (immediate_entry call result is_error)))
      | Prepared call' tool args \<Rightarrow> ret_act (Coroutine call' tool args))"
  using assms
  by (auto simp: refused_def all_finished_def immediate_entry_def intro!: K_rules K_end_event
      yields_then yields_ret split: preparation.splits)

lemma K_start_parallel:
  assumes hooks: "hooks_keep K cfg"
  shows "keeps K (start_parallel E cfg am calls resolved)"
  and "yields all_finished (start_parallel E cfg am calls resolved)"
proof (induction calls arbitrary: resolved)
  case Nil
  { case 1 show ?case by (simp add: keeps_ret [OF K_refl]) }
  { case 2 show ?case by (simp add: yields_ret all_finished_def) }
next
  case (Cons call calls)
  { case 1 show ?case
      unfolding start_parallel.simps
      by (rule keeps_then [OF K_trans K_start_event],
          rule keeps_bind_yields [OF K_trans K_prepare [OF hooks] refused_prepare])
        (auto intro!: K_rules K_parallel_entry Cons.IH split: prod.split) }
  { case 2
    have "yields all_finished (bind_act (get_act (aborted_now E)) (\<lambda>aborted.
        if aborted then ret_act [x]
        else bind_act (start_parallel E cfg am calls resolved') (\<lambda>rest. ret_act (x # rest))))"
      if "all_finished [x]" for x resolved'
      by (rule yields_bind_any)
        (use that in \<open>auto intro!: yields_ret yields_bind [OF Cons.IH(2)] simp: all_finished_def\<close>)
    then show ?case
      unfolding start_parallel.simps
      by (intro yields_then, intro yields_bind [OF refused_prepare])
        (auto intro!: yields_bind [OF K_parallel_entry(2)] split: prod.split) }
qed

lemma K_await: "all_finished es \<Longrightarrow> keeps K (await_entries E cfg am es)"
proof (induction es)
  case (Cons x es)
  then show ?case by (cases x) (auto simp: all_finished_def intro!: K_rules)
qed (simp add: keeps_ret [OF K_refl])

lemma K_execute:
  assumes hooks: "hooks_keep K cfg"
  shows "keeps K (execute_tool_calls E cfg am)"
proof -
  have "keeps K (execute_tool_calls_sequential E cfg am calls resolved)" for calls resolved
    unfolding execute_tool_calls_sequential_def by (auto intro!: K_rules K_sequential [OF hooks])
  moreover have "keeps K (execute_tool_calls_parallel E cfg am calls resolved)" for calls resolved
    unfolding execute_tool_calls_parallel_def
    by (rule keeps_bind_yields [OF K_trans K_start_parallel [OF hooks]])
      (auto intro!: K_rules K_await K_post_results)
  ultimately show ?thesis
    unfolding execute_tool_calls_def
    by (auto intro!: K_rules K_scan [OF hooks] split: prod.split)
qed

section \<open>Complete runs\<close>

definition steering_keeps :: "('w, agent_message list) act option \<Rightarrow> bool" where
  "steering_keeps steering \<longleftrightarrow> (\<forall>g. steering = Some g \<longrightarrow> keeps K (on_world g))"

definition turn_hooks :: "'w turn_end \<Rightarrow> bool" where
  "turn_hooks r \<longleftrightarrow> (case r of RunOver \<Rightarrow> True | GoOn cfg again pending \<Rightarrow> hooks_keep K cfg)"

lemma hooks_update: "hooks_keep K cfg \<Longrightarrow> hooks_keep K
    (cfg\<lparr>lc_model := m, lc_thinkingLevel := l, lc_reasoning := r\<rparr>)"
  by (simp add: hooks_keep_def)

lemma K_apply_turn_update: "keeps K (apply_turn_update E cfg u)"
  unfolding apply_turn_update_def Let_def
  by (auto intro!: K_rules K_modify split: option.split)

lemma prepare_next_turn_hooks:
  assumes hooks: "hooks_keep K cfg"
  shows "keeps K (prepare_next_turn E cfg m results)"
    and "yields (hooks_keep K) (prepare_next_turn E cfg m results)"
proof -
  show "keeps K (prepare_next_turn E cfg m results)"
    using hooks unfolding prepare_next_turn_def hooks_keep_def
    by (auto intro!: K_rules K_apply_turn_update split: option.split)
  have "yields (hooks_keep K) (apply_turn_update E cfg u)" for u
    unfolding apply_turn_update_def Let_def
    by (intro yields_then yields_bind_any) (simp add: yields_ret hooks_update [OF hooks])
  with hooks show "yields (hooks_keep K) (prepare_next_turn E cfg m results)"
    unfolding prepare_next_turn_def
    by (auto intro!: yields_bind_any yields_ret split: option.split)
qed

lemma K_wants_stop: "hooks_keep K cfg \<Longrightarrow> keeps K (wants_stop cfg m results)"
  unfolding wants_stop_def hooks_keep_def by (auto intro!: K_rules split: option.split)

lemma K_go_on:
  assumes hooks: "hooks_keep K cfg" and st: "steering_keeps steering"
  shows "keeps K (go_on E steering cfg m results stop)"
    and "yields turn_hooks (go_on E steering cfg m results stop)"
proof -
  show "keeps K (go_on E steering cfg m results stop)"
    unfolding go_on_def
    by (rule keeps_bind_yields [OF K_trans prepare_next_turn_hooks [OF hooks]])
      (use st in \<open>auto intro!: K_rules K_wants_stop K_end_run K_poll K_stop simp: steering_keeps_def\<close>)
  show "yields turn_hooks (go_on E steering cfg m results stop)"
    unfolding go_on_def
    by (rule yields_bind [OF prepare_next_turn_hooks(2) [OF hooks]])
      (auto intro!: yields_bind_any yields_then yields_ret simp: turn_hooks_def)
qed

lemma K_complete_turn:
  assumes hooks: "hooks_keep K cfg" and st: "steering_keeps steering"
  shows "keeps K (complete_turn E steering cfg m)"
    and "yields turn_hooks (complete_turn E steering cfg m)"
proof -
  have tools: "keeps K (run_tools E cfg m)"
    unfolding run_tools_def by (auto intro!: K_rules K_execute [OF hooks] K_push split: prod.split)
  have "keeps K (close_turn E steering cfg m batch)" for batch
    unfolding close_turn_def by (auto intro!: K_rules K_stop K_go_on [OF hooks st] simp: idle_event_def)
  with tools show "keeps K (complete_turn E steering cfg m)"
    unfolding complete_turn_def by (auto intro!: K_rules K_push K_end_run simp: idle_event_def)
  have "yields turn_hooks (close_turn E steering cfg m batch)" for batch
    unfolding close_turn_def
    by (auto intro!: yields_then yields_bind_any yields_ret K_go_on [OF hooks st] simp: turn_hooks_def)
  then show "yields turn_hooks (complete_turn E steering cfg m)"
    unfolding complete_turn_def
    by (auto intro!: yields_then yields_bind_any yields_ret simp: turn_hooks_def)
qed

text \<open>A turn raises, stops, or reaches its completion with the response of the model.\<close>

lemma K_run_turn_cases:
  assumes hooks: "hooks_keep K cfg" and run: "run_turn E steering first pending cfg s = Some (r, t)"
  obtains "K s t" "\<And>c a p. r \<noteq> Inr (GoOn c a p)"
  | m s3 where "K s s3" "complete_turn E steering cfg m s3 = (r, t)"
proof -
  obtain r1 s1 where b: "begin_turn E cfg first pending s = (r1, s1)" by force
  have 1: "K s s1" by (rule keepsD [OF K_begin_turn b])
  obtain r2 s2 where o: "open_stream E cfg s1 = (r2, s2)" by force
  have 2: "K s s2" using keepsD [OF K_open_stream [OF hooks] o] 1 K_trans by (metis transpD)
  consider e where "r1 = Inl e" | "r1 = Inr True" | "r1 = Inr False" by (metis sum.exhaust)
  then show ?thesis
  proof cases
    case 3
    with run b obtain r3 s3 where resp: "stream_assistant_response E cfg s1 = Some (r3, s3)"
      by (auto simp: run_turn_def split: option.splits)
    have "K s s3"
    proof (cases r2)
      case (Inl e)
      with resp o 2 show ?thesis by (auto simp: stream_assistant_response_def)
    next
      case (Inr u)
      with resp o have "stream_loop E None False s2 = Some (r3, s3)"
        by (simp add: stream_assistant_response_def)
      from keeps_optD [OF K_stream_loop this] 2 show ?thesis using K_trans by (metis transpD)
    qed
    with run b 3 resp that show ?thesis by (cases r3) (auto simp: run_turn_def)
  qed (use run b 1 that(1) in \<open>auto simp: run_turn_def\<close>)
qed

lemma K_run_turn:
  assumes hooks: "hooks_keep K cfg" and st: "steering_keeps steering"
  shows "keeps_opt K (run_turn E steering first pending cfg)"
    and "run_turn E steering first pending cfg s = Some (Inr (GoOn c a p), t) \<Longrightarrow> hooks_keep K c"
proof -
  show "keeps_opt K (run_turn E steering first pending cfg)"
    unfolding keeps_opt_def
    by (metis K_run_turn_cases [OF hooks] K_complete_turn(1) [OF hooks st] keepsD K_trans transpD)
  show "hooks_keep K c" if "run_turn E steering first pending cfg s = Some (Inr (GoOn c a p), t)"
    using that
    by (rule K_run_turn_cases [OF hooks])
      (auto dest!: yieldsD [OF K_complete_turn(2) [OF hooks st]] simp: turn_hooks_def)
qed

lemma K_begin_run: "keeps K (begin_run E prompts)"
  unfolding begin_run_def by (auto intro!: K_rules K_announce simp: idle_event_def)

theorem K_run_agent_loop:
  assumes run: "run_agent_loop E prompts ctx cfg w = Some (r, s)" and hooks: "hooks_keep K cfg"
  shows "K (start_state ctx prompts w) s"
proof -
  let ?s0 = "start_state ctx prompts w" and ?st = "lc_getSteeringMessages cfg"
  have st: "steering_keeps ?st" using hooks by (simp add: steering_keeps_def hooks_keep_def)
  obtain r1 s1 where b: "begin_run E prompts ?s0 = (r1, s1)" by force
  have 1: "K ?s0 s1" by (rule keepsD [OF K_begin_run b])
  obtain r2 s2 where p: "poll ?st s1 = (r2, s2)" by force
  have polls: "keeps K (poll ?st)" using st by (intro K_poll) (simp add: steering_keeps_def)
  have 2: "K ?s0 s2" using keepsD [OF polls p] 1 K_trans by (metis transpD)
  have followups: "keeps K (poll (lc_getFollowUpMessages c))" if "hooks_keep K c" for c
    using that by (intro K_poll) (simp add: hooks_keep_def)
  have loop: "keeps_opt K (turn_loop E ?st first again pending cfg)" for first again pending
    by (rule turn_loop_keeps [where H = "hooks_keep K", OF K_refl K_trans K_run_turn(1) [OF _ st] K_run_turn(2) [OF _ st] followups K_end_run hooks])
  consider e where "r1 = Inl e" | u e where "r1 = Inr u" "r2 = Inl e" | u pending where "r1 = Inr u" "r2 = Inr pending"
    by (metis sum.exhaust)
  then show ?thesis
  proof cases
    case 1
    with run b \<open>K ?s0 s1\<close> show ?thesis by (auto simp: run_agent_loop_def)
  next
    case 2
    with run b p \<open>K ?s0 s2\<close> show ?thesis by (auto simp: run_agent_loop_def run_loop_def)
  next
    case (3 u pending)
    with run b p obtain r3 where "turn_loop E ?st True True pending cfg s2 = Some (r3, s)"
      by (auto simp: run_agent_loop_def run_loop_def split: option.splits)
    from keeps_optD [OF loop this] 2 show ?thesis using K_trans by (metis transpD)
  qed
qed

end

section \<open>Events that show no execution\<close>

definition idle :: "'w loop_state \<Rightarrow> 'w loop_state \<Rightarrow> bool" where
  "idle s t \<longleftrightarrow> (list_all idle_event (lp_events s) \<longrightarrow> list_all idle_event (lp_events t))"

lemma idle_quiet: "keeps quiet m \<Longrightarrow> keeps idle m"
  unfolding keeps_def by (simp add: quiet_def idle_def)

lemma hooks_idle: "hooks_keep idle cfg"
  by (simp add: hooks_keep_def idle_quiet [OF quiet_on_world])

interpretation idle_run: loop_relation idle E for E :: "'w loop_env"
proof
  show "keeps idle (emit E ev)" if "idle_event ev" for ev
    by (rule keepsI) (use that in \<open>auto simp: idle_def dest: emit_events\<close>)
  show "stream_keeps idle E"
    by (simp add: stream_keeps_def idle_quiet [OF quiet_on_world])
qed (auto simp: idle_def reflp_def transp_def)

lemma idle_run_agent_loop:
  "run_agent_loop E prompts ctx cfg w = Some (r, s) \<Longrightarrow> list_all idle_event (lp_events s)"
  using idle_run.K_run_agent_loop [OF _ hooks_idle] by (force simp: idle_def start_state_def)

end
