(* ===== verification/LoopRuns.thy ===== *)
theory LoopRuns
  imports LoopRelations
begin

text \<open>
  Every run of the agent loop keeps the protocol of \<open>LoopProtocol\<close>: the batches of tool calls, the
  turns, the loops, and the facts about complete runs.
\<close>

section \<open>Batches of tool calls\<close>

lemma stream_assistant_response_obs:
  "valid_opt (obs E (InTurn {#}) e n c) (stream_assistant_response E cfg) (responded E e n c) (legal E)"
  unfolding valid_opt_def
proof (intro allI impI)
  fix s r t
  assume pre: "obs E (InTurn {#}) e n c s" and run: "stream_assistant_response E cfg s = Some (r, t)"
  obtain r1 s1 where open': "open_stream E cfg s = (r1, s1)" by force
  note step = valid_case [OF quiet_valid [OF quiet_open_stream] pre open']
  show "case r of Inl e \<Rightarrow> legal E t | Inr x \<Rightarrow> responded E e n c x t"
  proof (cases r1)
    case (Inl x)
    with run open' step show ?thesis by (auto simp: stream_assistant_response_def)
  next
    case (Inr u)
    with run open' have "stream_loop E None False s1 = Some (r, t)"
      by (simp add: stream_assistant_response_def)
    moreover from step Inr have "streaming E e n c False s1" by (simp add: streaming_False)
    ultimately show ?thesis
      by (intro valid_optD [OF stream_loop_obs]) simp_all
  qed
qed

text \<open>A prepared call still has the identifier and the name of the call it was made from.\<close>

definition prepared_for :: "tool_call \<Rightarrow> 'w preparation \<Rightarrow> bool" where
  "prepared_for call p \<longleftrightarrow>
     (case p of Immediate r b \<Rightarrow> True | Prepared call' tool args \<Rightarrow> call_sig call' = call_sig call)"

lemma prepared_for_Immediate [simp]: "prepared_for call (Immediate r b)"
  by (simp add: prepared_for_def)

lemma error_outcome_for: "yields (prepared_for call) (error_outcome msg)"
  by (simp add: error_outcome_def yields_ret)

lemma check_prepared_for: "yields (prepared_for call) (check_prepared E cfg am call tool)"
proof -
  let ?same = "\<lambda>c. call_sig c = call_sig call"
  have args: "yields ?same (case at_prepareArguments tool of
      None \<Rightarrow> ret_act call
    | Some f \<Rightarrow> bind_act (of_res (f (tc_arguments call))) (\<lambda>new_args.
        ret_act (if new_args \<noteq> tc_arguments call then call\<lparr>tc_arguments := new_args\<rparr> else call)))"
    by (auto intro!: yields_ret yields_bind_any simp: call_sig_def split: option.split)
  show ?thesis
    unfolding check_prepared_def Let_def
    by (rule yields_bind [OF args])
      (auto intro!: yields_bind_any error_outcome_for yields_ret simp: prepared_for_def split: option.split)
qed

lemma prepare_tool_call_for:
  "yields (\<lambda>x. prepared_for call (fst x)) (prepare_tool_call E cfg am call resolved)"
proof -
  have look: "yields (prepared_for call) (bind_act (get_act (aborted_now E)) (\<lambda>aborted.
      error_outcome (if aborted then ''Operation aborted'' else le_exn_text E e)))" for e
    by (rule yields_bind_any) (rule error_outcome_for)
  have pair: "yields (\<lambda>x. prepared_for call (fst x)) (bind_act m (\<lambda>p. ret_act (p, r)))"
    if "yields (prepared_for call) m" for m :: "('a loop_state, 'a preparation) act" and r :: "string \<rightharpoonup> 'a resolution"
    by (rule yields_bind [OF that]) (simp add: yields_ret)
  show ?thesis
    unfolding prepare_tool_call_def
    by (rule yields_bind_any)
      (auto intro!: pair yields_catch error_outcome_for check_prepared_for look
        split: prod.split resolution.split option.split)
qed

definition answered_batch :: "'w loop_env \<Rightarrow> tool_call list \<Rightarrow> (string \<times> string) list \<Rightarrow> bool" where
  "answered_batch E calls sigs \<longleftrightarrow>
     prefix sigs (map call_sig calls) \<and> (le_signal E = None \<longrightarrow> sigs = map call_sig calls)"

lemma answered_batch_Nil: "answered_batch E [] []"
  by (simp add: answered_batch_def)

lemma answered_batch_last: "le_signal E \<noteq> None \<Longrightarrow> answered_batch E (call # calls) [call_sig call]"
  by (auto simp: answered_batch_def)

lemma answered_batch_Cons:
  "answered_batch E calls sigs \<Longrightarrow> answered_batch E (call # calls) (call_sig call # sigs)"
  by (simp add: answered_batch_def)

definition entry_sig :: "finalized_call \<Rightarrow> string \<times> string" where
  "entry_sig f = call_sig (fz_toolCall f)"

section \<open>One call\<close>

lemma emit_update_obs:
  assumes "tc_id call \<in># ops"
  shows "valid (obs E (InTurn ops) e n c) (emit E (update_event call u))
           (\<lambda>_. obs E (InTurn ops) e n c) (obs E (InTurn ops) e n c)"
  by (rule valid_emit)
    (use assms in \<open>auto simp: update_event_def obs_def phase_from_append started_once_def turns_answered_def\<close>)

lemma send_updates_obs:
  assumes "tc_id call \<in># ops"
  shows "valid (obs E (InTurn ops) e n c) (send_updates E call us)
           (\<lambda>_. obs E (InTurn ops) e n c) (legal E)"
proof (induction us)
  case Nil
  show ?case by (simp add: valid_ret)
next
  case (Cons u us)
  let ?P = "obs E (InTurn ops) e n c"
  have "valid ?P (catch_act (then_act (emit E (update_event call u)) (ret_act None))
          (\<lambda>e. ret_act (Some (e, us)))) (\<lambda>_. ?P) (legal E)"
    by (rule valid_catch [OF valid_then [OF emit_update_obs [OF assms]]]) (auto intro: valid_ret)
  then show ?case
    by (auto intro!: valid_bind [where M = "\<lambda>_. ?P"] Cons.IH valid_ret split: option.split)
qed

lemma drain_updates_obs:
  assumes "tc_id call \<in># ops"
  shows "valid (obs E (InTurn ops) e n c) (drain_updates E call us)
           (\<lambda>_. obs E (InTurn ops) e n c) (legal E)"
  unfolding drain_updates_def
  by (rule valid_each [where I = "\<lambda>_. obs E (InTurn ops) e n c"],
      rule valid_catch [OF emit_update_obs [OF assms]]) (auto intro: valid_ret)

lemma execute_prepared_obs:
  assumes "tc_id call \<in># ops"
  shows "valid (obs E (InTurn ops) e n c) (execute_prepared_tool_call E call tool args)
           (\<lambda>_. obs E (InTurn ops) e n c) (legal E)"
proof -
  let ?P = "obs E (InTurn ops) e n c"
  have failed: "valid ?P (then_act (drain_updates E call rest)
      (ret_act (create_error_tool_result (le_exn_text E x), True))) (\<lambda>_. ?P) (legal E)" for x rest
    by (rule valid_then [OF drain_updates_obs [OF assms]]) (rule valid_ret)
  have sent: "valid ?P (bind_act (send_updates E call updates) (\<lambda>stopped.
      case stopped of
        None \<Rightarrow> ret_act (result, False)
      | Some (x, rest) \<Rightarrow> then_act (drain_updates E call rest)
          (ret_act (create_error_tool_result (le_exn_text E x), True)))) (\<lambda>_. ?P) (legal E)" for updates result
    by (rule valid_bind [OF send_updates_obs [OF assms]])
      (auto intro: valid_ret failed split: option.split)
  show ?thesis
    unfolding execute_prepared_tool_call_def Let_def
    by (rule valid_bind [OF quiet_valid [OF quiet_on_world]])
      (auto intro: failed sent split: prod.split sum.split)
qed

lemma finalize_call:
  "yields (\<lambda>f. fz_toolCall f = call) (finalize_executed_tool_call E cfg am call args executed)"
  unfolding finalize_executed_tool_call_def
  by (auto intro!: yields_bind_any yields_ret)

lemma run_prepared_obs:
  assumes "tc_id call \<in># ops"
  shows "valid (obs E (InTurn ops) e n c) (run_prepared E cfg am call tool args)
           (\<lambda>f s. obs E (InTurn ops) e n c s \<and> entry_sig f = call_sig call) (legal E)"
  unfolding run_prepared_def
  by (rule valid_bind [OF execute_prepared_obs [OF assms]])
    (rule valid_post [OF valid_yields [OF quiet_valid [OF quiet_finalize] finalize_call]], simp add: entry_sig_def)

lemma emit_start_obs:
  "valid (obs E (InTurn ops) e n c) (emit E (start_event call))
     (\<lambda>_. obs E (InTurn (add_mset (tc_id call) ops)) e n c) (legal E)"
  by (rule emit_plain) (simp_all add: start_event_def plain_event_def)

lemma emit_end_obs:
  assumes "tc_id (fz_toolCall f) = i"
  shows "valid (obs E (InTurn (add_mset i ops)) e n c) (emit_tool_execution_end E f)
           (\<lambda>_. obs E (InTurn ops) e n c) (legal E)"
  unfolding emit_tool_execution_end_def
  by (rule emit_plain) (use assms in \<open>simp_all add: plain_event_def\<close>)

lemma post_tool_result_obs:
  "valid (obs E (InTurn {#}) e n c) (post_tool_result E f)
     (\<lambda>m s. obs E (InTurn {#}) (e @ [ToolResultM m]) n c s \<and> result_sig m = entry_sig f) (legal E)"
proof -
  let ?P = "obs E (InTurn {#}) e n c"
  have get: "valid ?P (get_act (\<lambda>s. create_tool_result_message f (le_now_ms E (lp_world s))))
      (\<lambda>m s. ?P s \<and> result_sig m = entry_sig f) (legal E)"
    by (rule valid_get) (simp add: create_tool_result_message_def result_sig_def entry_sig_def call_sig_def)
  have announce': "emit_tool_result_message E m = announce E (ToolResultM m)" for m
    by (simp add: emit_tool_result_message_def announce_def)
  have send: "valid (\<lambda>s. ?P s \<and> result_sig m = entry_sig f)
      (then_act (emit_tool_result_message E m) (ret_act m))
      (\<lambda>m s. obs E (InTurn {#}) (e @ [ToolResultM m]) n c s \<and> result_sig m = entry_sig f) (legal E)" for m
    unfolding announce' by (rule valid_fact) (auto intro: valid_then [OF announce_obs] valid_ret)
  show ?thesis
    unfolding post_tool_result_def by (rule valid_bind [OF get send])
qed

section \<open>Batches\<close>

lemma prepare_obs:
  "valid (obs E p e n c) (prepare_tool_call E cfg am call resolved)
     (\<lambda>x s. obs E p e n c s \<and> prepared_for call (fst x)) (legal E)"
  by (rule valid_yields [OF quiet_valid [OF quiet_prepare] prepare_tool_call_for])

lemma sequential_entry_obs:
  assumes "prepared_for call p" "tc_id call \<in># ops"
  shows "valid (obs E (InTurn ops) e n c) (sequential_entry E cfg am call p)
           (\<lambda>f s. obs E (InTurn ops) e n c s \<and> entry_sig f = call_sig call) (legal E)"
proof (cases p)
  case (Immediate r b)
  then show ?thesis
    by (simp add: sequential_entry_def valid_ret entry_sig_def immediate_entry_def)
next
  case (Prepared call' tool args)
  with assms have same: "call_sig call' = call_sig call" by (simp add: prepared_for_def)
  then have "tc_id call' \<in># ops" using assms(2) by (simp add: call_sig_def)
  from run_prepared_obs [OF this, of E e n c cfg am tool args] show ?thesis
    using Prepared same by (simp add: sequential_entry_def)
qed

lemma execute_sequential_obs:
  "valid (obs E (InTurn {#}) e n c) (execute_sequential E cfg am calls resolved)
     (\<lambda>rs s. obs E (InTurn {#}) (e @ map (\<lambda>x. ToolResultM (snd x)) rs) n c s \<and>
        answered_batch E calls (map (\<lambda>x. result_sig (snd x)) rs)) (legal E)"
proof (induction calls arbitrary: e resolved)
  case Nil
  show ?case by (simp add: valid_ret answered_batch_Nil)
next
  case (Cons call calls)
  let ?Q = "\<lambda>rs s. obs E (InTurn {#}) (e @ map (\<lambda>x. ToolResultM (snd x)) rs) n c s \<and>
        answered_batch E (call # calls) (map (\<lambda>x. result_sig (snd x)) rs)"
  let ?P = "\<lambda>m. obs E (InTurn {#}) (e @ [ToolResultM m]) n c"
  have rest: "valid (?P m) (bind_act (execute_sequential E cfg am calls resolved')
      (\<lambda>rest. ret_act ((f, m) # rest))) ?Q (legal E)"
    if "result_sig m = call_sig call" for f m resolved'
    by (rule valid_bind [OF Cons.IH]) (auto intro!: valid_ret answered_batch_Cons simp: that)
  have tail: "valid (\<lambda>s. ?P m s \<and> result_sig m = entry_sig f)
      (bind_act (get_act (aborted_now E)) (\<lambda>aborted.
         if aborted then ret_act [(f, m)]
         else bind_act (execute_sequential E cfg am calls resolved') (\<lambda>rest.
                ret_act ((f, m) # rest)))) ?Q (legal E)"
    if "entry_sig f = call_sig call" for f m resolved'
  proof (rule valid_fact)
    assume sig: "result_sig m = entry_sig f"
    show "valid (?P m) (bind_act (get_act (aborted_now E)) (\<lambda>aborted.
         if aborted then ret_act [(f, m)]
         else bind_act (execute_sequential E cfg am calls resolved') (\<lambda>rest.
                ret_act ((f, m) # rest)))) ?Q (legal E)"
      by (rule valid_bind [OF get_aborted])
        (auto intro!: valid_fact valid_ret answered_batch_last rest simp: sig that)
  qed
  have post: "valid (obs E (InTurn {#tc_id call#}) e n c)
      (then_act (emit_tool_execution_end E f) (bind_act (post_tool_result E f) (\<lambda>m.
        bind_act (get_act (aborted_now E)) (\<lambda>aborted.
         if aborted then ret_act [(f, m)]
         else bind_act (execute_sequential E cfg am calls resolved') (\<lambda>rest.
                ret_act ((f, m) # rest)))))) ?Q (legal E)"
    if "entry_sig f = call_sig call" for f resolved'
  proof -
    have "tc_id (fz_toolCall f) = tc_id call" using that by (simp add: entry_sig_def call_sig_def)
    from valid_then [OF emit_end_obs [OF this] valid_bind [OF post_tool_result_obs tail [OF that]]]
    show ?thesis .
  qed
  show ?case
    unfolding execute_sequential.simps
    by (rule valid_then [OF emit_start_obs], rule valid_bind [OF prepare_obs])
      (auto intro!: valid_fact valid_bind [OF sequential_entry_obs] post split: prod.split)
qed

definition coroutine_ids :: "'w batch_entry list \<Rightarrow> string multiset" where
  "coroutine_ids es = mset (concat (map (\<lambda>x. case x of Coroutine call tool args \<Rightarrow> [tc_id call] | Finished f \<Rightarrow> []) es))"

definition batch_sig :: "'w batch_entry \<Rightarrow> string \<times> string" where
  "batch_sig x = (case x of Finished f \<Rightarrow> entry_sig f | Coroutine call tool args \<Rightarrow> call_sig call)"

lemma coroutine_ids_simps [simp]:
  "coroutine_ids [] = {#}"
  "coroutine_ids (Finished f # es) = coroutine_ids es"
  "coroutine_ids (Coroutine call tool args # es) = add_mset (tc_id call) (coroutine_ids es)"
  by (simp_all add: coroutine_ids_def)

text \<open>After the first pass, the calls that are open are the coroutines.\<close>

lemma parallel_entry_obs:
  assumes "prepared_for call p"
  shows "valid (obs E (InTurn (add_mset (tc_id call) ops)) e n c)
     (case p of
        Immediate result is_error \<Rightarrow>
          then_act (emit_tool_execution_end E (immediate_entry call result is_error))
            (ret_act (Finished (immediate_entry call result is_error)))
      | Prepared call' tool args \<Rightarrow> ret_act (Coroutine call' tool args))
     (\<lambda>x s. obs E (InTurn (ops + coroutine_ids [x])) e n c s \<and> batch_sig x = call_sig call) (legal E)"
proof (cases p)
  case (Immediate r b)
  have "valid (obs E (InTurn (add_mset (tc_id call) ops)) e n c)
      (emit_tool_execution_end E (immediate_entry call r b)) (\<lambda>_. obs E (InTurn ops) e n c) (legal E)"
    by (rule emit_end_obs) (simp add: immediate_entry_def)
  from valid_then [OF this] show ?thesis
    by (simp add: Immediate) (rule valid_then [OF emit_end_obs],
        auto intro!: valid_ret simp: immediate_entry_def batch_sig_def entry_sig_def)
next
  case (Prepared call' tool args)
  with assms have "call_sig call' = call_sig call" by (simp add: prepared_for_def)
  then show ?thesis
    by (auto intro!: valid_ret simp: Prepared batch_sig_def call_sig_def)
qed

lemma start_parallel_obs:
  "valid (obs E (InTurn ops) e n c) (start_parallel E cfg am calls resolved)
     (\<lambda>es s. obs E (InTurn (ops + coroutine_ids es)) e n c s \<and>
        answered_batch E calls (map batch_sig es)) (legal E)"
proof (induction calls arbitrary: ops resolved)
  case Nil
  show ?case by (simp add: valid_ret answered_batch_Nil)
next
  case (Cons call calls)
  let ?Q = "\<lambda>es s. obs E (InTurn (ops + coroutine_ids es)) e n c s \<and>
        answered_batch E (call # calls) (map batch_sig es)"
  let ?P = "\<lambda>x. obs E (InTurn (ops + coroutine_ids [x])) e n c"
  have join: "coroutine_ids (x # es) = coroutine_ids [x] + coroutine_ids es" for x :: "'a batch_entry" and es
    by (cases x) simp_all
  have rest: "valid (?P x) (bind_act (start_parallel E cfg am calls resolved') (\<lambda>rest. ret_act (x # rest)))
      ?Q (legal E)" if "batch_sig x = call_sig call" for x resolved'
    by (rule valid_bind [OF Cons.IH], rule valid_fact, rule valid_ret)
      (simp add: that answered_batch_Cons add.assoc flip: join)
  have tail: "valid (?P x) (bind_act (get_act (aborted_now E)) (\<lambda>aborted.
       if aborted then ret_act [x]
       else bind_act (start_parallel E cfg am calls resolved') (\<lambda>rest. ret_act (x # rest))))
      ?Q (legal E)" if "batch_sig x = call_sig call" for x resolved'
    by (rule valid_bind [OF get_aborted])
      (auto intro!: valid_fact valid_ret answered_batch_last rest simp: that)
  show ?case
    unfolding start_parallel.simps
    by (rule valid_then [OF emit_start_obs], rule valid_bind [OF prepare_obs])
      (auto intro!: valid_fact valid_bind [OF parallel_entry_obs] tail split: prod.split)
qed

lemma await_entries_obs:
  "valid (obs E (InTurn (coroutine_ids es)) e n c) (await_entries E cfg am es)
     (\<lambda>fs s. obs E (InTurn {#}) e n c s \<and> map entry_sig fs = map batch_sig es) (legal E)"
proof (induction es)
  case Nil
  show ?case by (simp add: valid_ret)
next
  case (Cons x es)
  have one: "valid (obs E (InTurn (coroutine_ids (x # es))) e n c)
      (case x of
         Finished f \<Rightarrow> ret_act f
       | Coroutine call tool args \<Rightarrow>
           bind_act (run_prepared E cfg am call tool args) (\<lambda>f.
             then_act (emit_tool_execution_end E f) (ret_act f)))
      (\<lambda>f s. obs E (InTurn (coroutine_ids es)) e n c s \<and> entry_sig f = batch_sig x) (legal E)"
  proof (cases x)
    case (Finished f)
    then show ?thesis by (simp add: valid_ret batch_sig_def)
  next
    case (Coroutine call tool args)
    have fin: "valid (obs E (InTurn (add_mset (tc_id call) (coroutine_ids es))) e n c)
        (then_act (emit_tool_execution_end E f) (ret_act f))
        (\<lambda>f s. obs E (InTurn (coroutine_ids es)) e n c s \<and> entry_sig f = call_sig call) (legal E)"
      if "entry_sig f = call_sig call" for f
      by (rule valid_then [OF emit_end_obs]) (use that in \<open>auto intro!: valid_ret simp: entry_sig_def call_sig_def\<close>)
    show ?thesis
      by (simp add: Coroutine batch_sig_def)
        (rule valid_bind [OF run_prepared_obs], simp, rule valid_fact, rule fin)
  qed
  show ?case
    unfolding await_entries.simps
    by (rule valid_bind [OF one], rule valid_fact, rule valid_bind [OF Cons.IH], rule valid_fact)
      (simp add: valid_ret)
qed

lemma post_results_obs:
  "valid (obs E (InTurn {#}) e n c) (post_results E fs)
     (\<lambda>ms s. obs E (InTurn {#}) (e @ map ToolResultM ms) n c s \<and> map result_sig ms = map entry_sig fs)
     (legal E)"
proof (induction fs arbitrary: e)
  case Nil
  show ?case by (simp add: valid_ret)
next
  case (Cons f fs)
  show ?case
    unfolding post_results.simps
    by (rule valid_bind [OF post_tool_result_obs], rule valid_fact, rule valid_bind [OF Cons.IH], rule valid_fact)
      (simp add: valid_ret)
qed

lemma execute_tool_calls_obs:
  "valid (obs E (InTurn {#}) e n c) (execute_tool_calls E cfg am)
     (\<lambda>x s. obs E (InTurn {#}) (e @ map ToolResultM (fst x)) n c s \<and>
        answered_batch E (assistant_tool_calls am) (map result_sig (fst x))) (legal E)"
proof -
  let ?calls = "assistant_tool_calls am" and ?P = "obs E (InTurn {#}) e n c"
  let ?Q = "\<lambda>x s. obs E (InTurn {#}) (e @ map ToolResultM (fst x)) n c s \<and>
        answered_batch E ?calls (map result_sig (fst x))"
  have seq: "valid ?P (execute_tool_calls_sequential E cfg am ?calls resolved) ?Q (legal E)" for resolved
    unfolding execute_tool_calls_sequential_def
    by (rule valid_bind [OF execute_sequential_obs], rule valid_fact, rule valid_ret) (simp add: o_def)
  have par: "valid ?P (execute_tool_calls_parallel E cfg am ?calls resolved) ?Q (legal E)" for resolved
  proof -
    have post: "valid ?P (bind_act (post_results E fs) (\<lambda>ms. ret_act (ms, should_terminate_tool_batch fs)))
        ?Q (legal E)" if "answered_batch E ?calls (map entry_sig fs)" for fs
      by (rule valid_bind [OF post_results_obs], rule valid_fact, rule valid_ret) (use that in simp)
    have wait: "valid (obs E (InTurn (coroutine_ids es)) e n c) (bind_act (await_entries E cfg am es) (\<lambda>fs.
        bind_act (post_results E fs) (\<lambda>ms. ret_act (ms, should_terminate_tool_batch fs)))) ?Q (legal E)"
      if "answered_batch E ?calls (map batch_sig es)" for es
      by (rule valid_bind [OF await_entries_obs], rule valid_fact, rule post) (use that in simp)
    show ?thesis
      unfolding execute_tool_calls_parallel_def
      by (rule valid_bind [OF start_parallel_obs], rule valid_fact) (simp add: wait)
  qed
  have scan: "valid ?P (if lc_toolExecution cfg \<noteq> Some ''sequential''
      then scan_sequential E cfg am ?calls Map.empty else ret_act (False, Map.empty)) (\<lambda>_. ?P) (legal E)"
    by (auto intro: quiet_valid [OF quiet_scan] valid_ret)
  show ?thesis
    unfolding execute_tool_calls_def
    by (rule valid_bind [OF scan]) (simp add: seq par split: prod.split)
qed

section \<open>Turns\<close>

text \<open>
  Between the steps of a turn, the complete messages are the new messages, and, as long as no update
  replaces the context, the context is the original one followed by them.
\<close>

definition hist ::
  "'w loop_env \<Rightarrow> bool \<Rightarrow> agent_message list \<Rightarrow> phase \<Rightarrow> 'w loop_state \<Rightarrow> bool" where
  "hist E keep base p = (\<lambda>s. \<exists>n c. obs E p n n c s \<and> (keep \<longrightarrow> c = base @ n))"

definition over :: "'w loop_env \<Rightarrow> bool \<Rightarrow> agent_message list \<Rightarrow> 'w loop_state \<Rightarrow> bool" where
  "over E keep base s \<longleftrightarrow>
     (\<exists>n c. (keep \<longrightarrow> c = base @ n) \<and>
        (obs E Over n n c s \<and> last (lp_events s) = AgentEnd n \<or> abort_over E n n c s))"

lemma histI: "obs E p n n c s \<Longrightarrow> (keep \<longrightarrow> c = base @ n) \<Longrightarrow> hist E keep base p s"
  by (auto simp: hist_def)

lemma valid_hist:
  assumes "\<And>n c. (keep \<longrightarrow> c = base @ n) \<Longrightarrow> valid (obs E p n n c) m Q R"
  shows "valid (hist E keep base p) m Q R"
  unfolding hist_def by (intro valid_ex valid_fact assms)

lemma hist_legal: "hist E keep base p s \<Longrightarrow> legal E s"
  by (auto simp: hist_def intro: obs_legal)

lemma quiet_hist:
  assumes "keeps quiet m"
  shows "valid (hist E keep base p) m (\<lambda>_. hist E keep base p) (legal E)"
  by (rule valid_hist, rule valid_post [OF quiet_valid [OF assms]]) (auto simp: hist_def)

lemma stop_hist:
  assumes "p = InTurn {#} \<or> p = TurnClosed"
  shows "valid (hist E keep base p) (stop_if_aborted E cfg)
     (\<lambda>b s. if b then over E keep base s else hist E keep base p s) (legal E)"
  by (rule valid_hist, rule valid_post [OF stop_if_aborted_obs [OF assms]])
    (auto simp: hist_def over_def split: if_splits)

lemma end_run_hist:
  "valid (hist E keep base TurnClosed) (end_run E) (\<lambda>_. over E keep base) (legal E)"
proof (rule valid_hist)
  fix n c assume keep: "keep \<longrightarrow> c = base @ n"
  have get: "valid (obs E TurnClosed n n c) (get_act lp_new_messages)
      (\<lambda>ms s. obs E TurnClosed n n c s \<and> ms = n) (legal E)"
    by (rule valid_get) (simp add: obs_def)
  have send: "valid (obs E TurnClosed n n c) (emit E (AgentEnd n)) (\<lambda>_. over E keep base) (legal E)"
    by (rule valid_post [OF emit_agent_end]) (use keep in \<open>auto simp: over_def\<close>)
  show "valid (obs E TurnClosed n n c) (end_run E) (\<lambda>_. over E keep base) (legal E)"
    unfolding end_run_def by (rule valid_bind [OF get], rule valid_fact) (simp add: send)
qed

lemma pending_hist:
  "valid (hist E keep base (InTurn {#})) (each_act (add_pending E) ms) (\<lambda>_. hist E keep base (InTurn {#})) (legal E)"
  by (rule valid_hist, rule valid_post [OF add_all_pending_obs]) (auto intro: histI)

definition turn_phase :: "bool \<Rightarrow> phase" where
  "turn_phase first = (if first then InTurn {#} else TurnClosed)"

lemma begin_turn_hist:
  "valid (hist E keep base (turn_phase first)) (begin_turn E cfg first pending)
     (\<lambda>b s. if b then over E keep base s else hist E keep base (InTurn {#}) s) (legal E)"
proof -
  have start: "valid (hist E keep base (turn_phase first)) (if first then ret_act () else emit E TurnStart)
      (\<lambda>_. hist E keep base (InTurn {#})) (legal E)"
  proof (cases first)
    case True
    then show ?thesis by (simp add: turn_phase_def valid_ret)
  next
    case False
    have "valid (obs E TurnClosed n n c) (emit E TurnStart) (\<lambda>_. hist E keep base (InTurn {#})) (legal E)"
      if "keep \<longrightarrow> c = base @ n" for n c
      by (rule valid_post [OF emit_plain]) (use that in \<open>auto simp: plain_event_def hist_def\<close>)
    then show ?thesis using False by (auto simp: turn_phase_def intro: valid_hist)
  qed
  have go: "valid (hist E keep base (turn_phase first))
      (then_act (if first then ret_act () else emit E TurnStart)
         (then_act (each_act (add_pending E) pending) (stop_if_aborted E cfg)))
      (\<lambda>b s. if b then over E keep base s else hist E keep base (InTurn {#}) s) (legal E)"
    by (rule valid_then [OF start valid_then [OF pending_hist stop_hist]]) simp
  show ?thesis
    unfolding begin_turn_def
  proof (rule valid_bind [OF stop_hist])
    show "turn_phase first = InTurn {#} \<or> turn_phase first = TurnClosed" by (simp add: turn_phase_def)
  qed (use go in \<open>auto intro: valid_ret\<close>)
qed

lemma run_tools_obs:
  assumes "am_stop_reason m \<notin> {''error'', ''aborted''}"
  shows "valid (obs E (InTurn {#}) n n c) (run_tools E cfg m)
     (\<lambda>x s. obs E (InTurn {#}) (n @ map ToolResultM (fst x)) (n @ map ToolResultM (fst x))
               (c @ map ToolResultM (fst x)) s \<and> answers E (AssistantM m) (fst x)) (legal E)"
proof -
  have push: "valid (obs E (InTurn {#}) e n c)
      (each_act (\<lambda>r. then_act (push_message (ToolResultM r)) (push_new (ToolResultM r))) rs)
      (\<lambda>_. obs E (InTurn {#}) e (n @ map ToolResultM rs) (c @ map ToolResultM rs)) (legal E)" for e n c rs
  proof (induction rs arbitrary: n c)
    case Nil
    show ?case by (simp add: valid_ret)
  next
    case (Cons r rs)
    have "valid (obs E (InTurn {#}) e n c) (then_act (push_message (ToolResultM r)) (push_new (ToolResultM r)))
        (\<lambda>_. obs E (InTurn {#}) e (n @ [ToolResultM r]) (c @ [ToolResultM r])) (legal E)"
      by (rule valid_then [OF push_message_obs push_new_obs])
    from valid_then [OF this Cons.IH] show ?case by simp
  qed
  let ?Q = "\<lambda>x s. obs E (InTurn {#}) (n @ map ToolResultM (fst x)) (n @ map ToolResultM (fst x))
               (c @ map ToolResultM (fst x)) s \<and> answers E (AssistantM m) (fst x)"
  have add: "valid (obs E (InTurn {#}) (n @ map ToolResultM rs) n c)
      (then_act (each_act (\<lambda>r. then_act (push_message (ToolResultM r)) (push_new (ToolResultM r))) rs)
         (ret_act (rs, stop))) ?Q (legal E)"
    if "answered_batch E (assistant_tool_calls m) (map result_sig rs)" for rs stop
    by (rule valid_then [OF push], rule valid_ret)
      (use that in \<open>simp add: answers_def answered_batch_def\<close>)
  show ?thesis
    unfolding run_tools_def
  proof (rule valid_if)
    assume none: "assistant_tool_calls m = []"
    show "valid (obs E (InTurn {#}) n n c) (ret_act ([], True)) ?Q (legal E)"
      by (rule valid_ret) (simp add: answers_def none)
  next
    show "valid (obs E (InTurn {#}) n n c) (bind_act (execute_tool_calls E cfg m) (\<lambda>(results, stop).
        then_act (each_act (\<lambda>r. then_act (push_message (ToolResultM r)) (push_new (ToolResultM r))) results)
          (ret_act (results, stop)))) ?Q (legal E)"
      by (rule valid_bind [OF execute_tool_calls_obs], rule valid_fact) (auto intro: add split: prod.split)
  qed
qed

definition has_response ::
  "'w loop_env \<Rightarrow> bool \<Rightarrow> agent_message list \<Rightarrow> assistant_message \<Rightarrow> 'w loop_state \<Rightarrow> bool" where
  "has_response E keep base m =
     (\<lambda>s. \<exists>n c. responded E n n c m s \<and> (keep \<longrightarrow> c = base @ n))"

lemma push_new_response:
  "valid (has_response E keep base m) (push_new (AssistantM m)) (\<lambda>_. hist E keep base (InTurn {#})) (legal E)"
  unfolding has_response_def
  by (intro valid_ex valid_fact)
    (simp add: responded_def, rule valid_post [OF push_new_obs], auto intro: histI)

lemma turn_end_hist:
  assumes "answers E (AssistantM m) rs"
  shows "valid (hist E keep base (InTurn {#})) (emit E (TurnEnd (AssistantM m) rs))
     (\<lambda>_. hist E keep base TurnClosed) (legal E)"
  by (rule valid_hist, rule valid_post [OF emit_turn_end]) (use assms in \<open>auto intro: histI\<close>)

lemma run_tools_hist:
  assumes "am_stop_reason m \<notin> {''error'', ''aborted''}"
  shows "valid (hist E keep base (InTurn {#})) (run_tools E cfg m)
     (\<lambda>x s. hist E keep base (InTurn {#}) s \<and> answers E (AssistantM m) (fst x)) (legal E)"
  by (rule valid_hist, rule valid_post [OF run_tools_obs [OF assms]]) (auto intro: histI)

lemma apply_turn_update_hist:
  "valid (hist E False base TurnClosed) (apply_turn_update E cfg u)
     (\<lambda>cfg' s. hist E False base TurnClosed s \<and> lc_prepareNextTurn cfg' = lc_prepareNextTurn cfg) (legal E)"
proof -
  let ?H = "hist E False base TurnClosed"
  have ctx: "valid ?H (case tu_context u of
      None \<Rightarrow> ret_act () | Some c \<Rightarrow> modify_act (\<lambda>s. s\<lparr>lp_context := c\<rparr>)) (\<lambda>_. ?H) (legal E)"
    by (auto intro!: valid_ret valid_modify simp: hist_def obs_def split: option.split)
  have res: "valid ?H (of_res r) (\<lambda>_. ?H) (legal E)" for r :: "string option res"
    by (rule valid_of_res) (auto intro: hist_legal)
  have ret: "valid ?H (ret_act x) (\<lambda>_. ?H) (legal E)" for x :: "string option"
    by (rule valid_ret)
  show ?thesis
    unfolding apply_turn_update_def Let_def
    by (rule valid_then [OF ctx], rule valid_bind [where M = "\<lambda>_. ?H"])
      (auto intro: res ret valid_ret split: option.split)
qed

lemma prepare_next_turn_hist:
  assumes "keep \<longrightarrow> lc_prepareNextTurn cfg = None"
  shows "valid (hist E keep base TurnClosed) (prepare_next_turn E cfg m rs)
     (\<lambda>cfg' s. hist E keep base TurnClosed s \<and> lc_prepareNextTurn cfg' = lc_prepareNextTurn cfg) (legal E)"
proof (cases "lc_prepareNextTurn cfg")
  case None
  then show ?thesis by (simp add: prepare_next_turn_def valid_ret)
next
  case (Some f)
  with assms have keep: "\<not> keep" by simp
  have f: "keeps quiet (bind_act (get_act (turn_context_of m rs)) (\<lambda>tx. on_world (f tx)))"
    by (intro quiet_rules)
  have assoc: "prepare_next_turn E cfg m rs =
      bind_act (bind_act (get_act (turn_context_of m rs)) (\<lambda>tx. on_world (f tx)))
        (\<lambda>u. case u of None \<Rightarrow> ret_act cfg | Some u \<Rightarrow> apply_turn_update E cfg u)"
    by (rule ext) (simp add: prepare_next_turn_def Some bind_act_def get_act_def)
  show ?thesis
    unfolding assoc
    by (rule valid_bind [OF quiet_hist [OF f]])
      (use keep in \<open>auto intro: valid_ret apply_turn_update_hist split: option.split\<close>)
qed

definition after_turn ::
  "'w loop_env \<Rightarrow> bool \<Rightarrow> agent_message list \<Rightarrow> 'w loop_config \<Rightarrow> 'w turn_end \<Rightarrow> 'w loop_state \<Rightarrow> bool" where
  "after_turn E keep base cfg r =
     (case r of
        RunOver \<Rightarrow> over E keep base
      | GoOn cfg' again pending \<Rightarrow> (\<lambda>s. hist E keep base TurnClosed s \<and>
          lc_prepareNextTurn cfg' = lc_prepareNextTurn cfg))"

lemma over_hist:
  "valid (hist E keep base TurnClosed) (then_act (end_run E) (ret_act RunOver)) (after_turn E keep base cfg) (legal E)"
  by (rule valid_then [OF end_run_hist]) (simp add: valid_ret after_turn_def)

lemma go_on_hist:
  assumes "keep \<longrightarrow> lc_prepareNextTurn cfg = None"
  shows "valid (hist E keep base TurnClosed) (go_on E steering cfg m rs stop)
     (after_turn E keep base cfg) (legal E)"
proof -
  have poll: "valid (hist E keep base TurnClosed) (bind_act (poll steering) (\<lambda>pending.
      bind_act (stop_if_aborted E cfg') (\<lambda>stopped.
        ret_act (if stopped then RunOver else GoOn cfg' (\<not> stop) pending))))
      (after_turn E keep base cfg) (legal E)"
    if "lc_prepareNextTurn cfg' = lc_prepareNextTurn cfg" for cfg'
    by (rule valid_bind [OF quiet_hist [OF quiet_poll]], rule valid_bind [OF stop_hist])
      (use that in \<open>auto intro!: valid_ret simp: after_turn_def\<close>)
  show ?thesis
    unfolding go_on_def
    by (rule valid_bind [OF prepare_next_turn_hist [OF assms]], rule valid_fact,
        rule valid_bind [OF quiet_hist [OF quiet_wants_stop]], rule valid_if, rule over_hist, rule poll)
qed

lemma close_turn_hist:
  assumes "keep \<longrightarrow> lc_prepareNextTurn cfg = None" "answers E (AssistantM m) (fst batch)"
  shows "valid (hist E keep base (InTurn {#})) (close_turn E steering cfg m batch)
     (after_turn E keep base cfg) (legal E)"
proof -
  have stopped: "valid (\<lambda>s. if b then over E keep base s else hist E keep base TurnClosed s)
      (if b then ret_act RunOver else go_on E steering cfg m (fst batch) (snd batch))
      (after_turn E keep base cfg) (legal E)" for b
    using go_on_hist [OF assms(1)] by (cases b) (simp_all add: valid_ret after_turn_def)
  show ?thesis
    unfolding close_turn_def
    by (rule valid_then [OF turn_end_hist [OF assms(2)]], rule valid_bind [OF stop_hist]) (simp_all add: stopped)
qed

lemma complete_turn_hist:
  assumes keep: "keep \<longrightarrow> lc_prepareNextTurn cfg = None"
  shows "valid (has_response E keep base m) (complete_turn E steering cfg m)
     (after_turn E keep base cfg) (legal E)"
proof -
  let ?T = "hist E keep base (InTurn {#})" and ?Q = "after_turn E keep base cfg"
  have failed: "valid ?T (then_act (emit E (TurnEnd (AssistantM m) [])) (then_act (end_run E) (ret_act RunOver)))
      ?Q (legal E)" if "am_stop_reason m \<in> {''error'', ''aborted''}"
    by (rule valid_then [OF turn_end_hist over_hist]) (use that in \<open>simp add: answers_def\<close>)
  have tools: "valid ?T (bind_act (run_tools E cfg m) (close_turn E steering cfg m)) ?Q (legal E)"
    if "am_stop_reason m \<notin> {''error'', ''aborted''}"
    by (rule valid_bind [OF run_tools_hist [OF that]], rule valid_fact, rule close_turn_hist [OF keep])
  show ?thesis
    unfolding complete_turn_def
    by (rule valid_then [OF push_new_response], rule valid_if) (rule failed, assumption, rule tools)
qed

lemma run_turn_hist:
  assumes keep: "keep \<longrightarrow> lc_prepareNextTurn cfg = None"
  shows "valid_opt (hist E keep base (turn_phase first)) (run_turn E steering first pending cfg)
     (after_turn E keep base cfg) (legal E)"
  unfolding valid_opt_def
proof (intro allI impI)
  fix s r t
  assume pre: "hist E keep base (turn_phase first) s" and run: "run_turn E steering first pending cfg s = Some (r, t)"
  obtain r1 s1 where begin': "begin_turn E cfg first pending s = (r1, s1)" by force
  note step1 = valid_case [OF begin_turn_hist pre begin']
  show "case r of Inl e \<Rightarrow> legal E t | Inr x \<Rightarrow> after_turn E keep base cfg x t"
  proof (cases r1)
    case (Inl x)
    with run begin' step1 show ?thesis by (auto simp: run_turn_def)
  next
    case (Inr stopped)
    show ?thesis
    proof (cases stopped)
      case True
      with run begin' Inr step1 show ?thesis by (auto simp: run_turn_def after_turn_def)
    next
      case False
      with Inr step1 have "hist E keep base (InTurn {#}) s1" by simp
      then obtain n c where s1: "obs E (InTurn {#}) n n c s1" "keep \<longrightarrow> c = base @ n" by (auto simp: hist_def)
      from run begin' Inr False obtain r2 s2 where resp: "stream_assistant_response E cfg s1 = Some (r2, s2)"
        by (auto simp: run_turn_def split: option.splits)
      note step2 = valid_optD [OF stream_assistant_response_obs s1(1) resp]
      show ?thesis
      proof (cases r2)
        case (Inl x)
        with run begin' Inr False resp step2 show ?thesis by (auto simp: run_turn_def)
      next
        case r2: (Inr m)
        with step2 s1(2) have "has_response E keep base m s2" by (auto simp: has_response_def)
        moreover from run begin' Inr False resp r2 have "complete_turn E steering cfg m s2 = (r, t)"
          by (simp add: run_turn_def)
        ultimately show ?thesis by (rule valid_case [OF complete_turn_hist [OF keep]])
      qed
    qed
  qed
qed

section \<open>Runs\<close>

lemma turn_loop_hist:
  assumes "turn_loop E steering first again pending cfg s = Some (r, t)"
    and "keep \<longrightarrow> lc_prepareNextTurn cfg = None" "first \<longrightarrow> again \<or> pending \<noteq> []"
    and "hist E keep base (turn_phase first) s"
  shows "case r of Inl e \<Rightarrow> legal E t | Inr x \<Rightarrow> over E keep base t"
proof -
  have "(keep \<longrightarrow> lc_prepareNextTurn cfg = None) \<longrightarrow> (first \<longrightarrow> again \<or> pending \<noteq> []) \<longrightarrow>
      hist E keep base (turn_phase first) s \<longrightarrow>
      (case fst y of Inl e \<Rightarrow> legal E (snd y) | Inr x \<Rightarrow> over E keep base (snd y))"
    (is "?G E steering first again pending cfg s y")
    if "turn_loop E steering first again pending cfg s = Some y"
    for E :: "'a loop_env" and steering first again pending cfg s y
  proof (rule turn_loop.raw_induct [OF _ that, of ?G])
    fix rec :: "'a loop_env \<Rightarrow> ('a, agent_message list) act option \<Rightarrow> bool \<Rightarrow> bool \<Rightarrow> agent_message list
                 \<Rightarrow> 'a loop_config \<Rightarrow> 'a loop_state \<Rightarrow> (unit res \<times> 'a loop_state) option"
      and E :: "'a loop_env" and steering first again pending cfg s y
    assume IH: "\<And>E steering first again pending cfg s y.
        rec E steering first again pending cfg s = Some y \<Longrightarrow> ?G E steering first again pending cfg s y"
      and body: "(if again \<or> pending \<noteq> [] then
          (case run_turn E steering first pending cfg s of
             None \<Rightarrow> None
           | Some (r, s1) \<Rightarrow>
               (case r of
                  Inl e \<Rightarrow> Some (Inl e, s1)
                | Inr RunOver \<Rightarrow> Some (Inr (), s1)
                | Inr (GoOn cfg' again' pending') \<Rightarrow> rec E steering False again' pending' cfg' s1))
        else
          (case poll (lc_getFollowUpMessages cfg) s of
             (Inl e, s1) \<Rightarrow> Some (Inl e, s1)
           | (Inr followups, s1) \<Rightarrow>
               if followups \<noteq> [] then rec E steering first True followups cfg s1
               else Some (end_run E s1))) = Some y"
    show "?G E steering first again pending cfg s y"
    proof (intro impI)
      assume keep: "keep \<longrightarrow> lc_prepareNextTurn cfg = None" and first: "first \<longrightarrow> again \<or> pending \<noteq> []"
        and pre: "hist E keep base (turn_phase first) s"
      show "case fst y of Inl e \<Rightarrow> legal E (snd y) | Inr x \<Rightarrow> over E keep base (snd y)"
      proof (cases "again \<or> pending \<noteq> []")
        case True
        with body obtain r1 s1 where turn: "run_turn E steering first pending cfg s = Some (r1, s1)"
          by (auto split: option.splits)
        note step = valid_optD [OF run_turn_hist [OF keep] pre turn]
        show ?thesis
        proof (cases r1)
          case (Inl x)
          with body True turn step show ?thesis by auto
        next
          case (Inr fin)
          show ?thesis
          proof (cases fin)
            case RunOver
            with body True turn step Inr show ?thesis by (auto simp: after_turn_def)
          next
            case (GoOn cfg' again' pending')
            with body True turn Inr have "rec E steering False again' pending' cfg' s1 = Some y" by simp
            moreover from step Inr GoOn have "hist E keep base (turn_phase False) s1"
              "lc_prepareNextTurn cfg' = lc_prepareNextTurn cfg" by (simp_all add: after_turn_def turn_phase_def)
            ultimately show ?thesis using IH keep by metis
          qed
        qed
      next
        case False
        with first have closed: "turn_phase first = TurnClosed" by (simp add: turn_phase_def)
        obtain r1 s1 where polled: "poll (lc_getFollowUpMessages cfg) s = (r1, s1)" by force
        note step = valid_case [OF quiet_hist [OF quiet_poll] pre polled]
        show ?thesis
        proof (cases r1)
          case (Inl x)
          with body False polled step show ?thesis by auto
        next
          case (Inr fs)
          show ?thesis
          proof (cases "fs = []")
            case True
            with body False polled Inr have "end_run E s1 = y" by simp
            then show ?thesis
              using valid_case [OF end_run_hist, of E keep base s1 "fst y" "snd y"] step Inr closed by simp
          next
            case fs: False
            with body False polled Inr have "rec E steering first True fs cfg s1 = Some y" by simp
            with IH keep step Inr show ?thesis by (metis sum.case(2))
          qed
        qed
      qed
    qed
  qed
  from this [OF assms(1)] assms(2-4) show ?thesis by (cases r) simp_all
qed

text \<open>What every run ends with, by the invariant of the loop.\<close>

lemma begin_run_hist:
  "valid (\<lambda>s. s = start_state ctx prompts w) (begin_run E prompts)
     (\<lambda>_. hist E keep (cx_messages ctx) (InTurn {#})) (legal E)"
proof -
  let ?c = "cx_messages ctx @ prompts"
  have init: "obs E Fresh [] prompts ?c (start_state ctx prompts w)"
    by (simp add: obs_def start_state_def own_context_def turns_answered_def)
  have start: "valid (obs E Fresh [] prompts ?c) (emit E AgentStart) (\<lambda>_. obs E Started [] prompts ?c) (legal E)"
    by (rule emit_plain) (simp_all add: plain_event_def)
  have turn: "valid (obs E Started [] prompts ?c) (emit E TurnStart) (\<lambda>_. obs E (InTurn {#}) [] prompts ?c) (legal E)"
    by (rule emit_plain) (simp_all add: plain_event_def)
  have "valid (obs E Fresh [] prompts ?c) (begin_run E prompts)
      (\<lambda>_. obs E (InTurn {#}) ([] @ prompts) prompts ?c) (legal E)"
    unfolding begin_run_def by (rule valid_then [OF start valid_then [OF turn announce_all_obs]])
  then show ?thesis
    by (rule valid_conseq) (use init in \<open>auto intro: histI\<close>)
qed

lemma run_agent_loop_ends:
  assumes run: "run_agent_loop E prompts ctx cfg w = Some (r, s)"
    and keep: "keep \<longrightarrow> lc_prepareNextTurn cfg = None"
  shows "case r of Inl e \<Rightarrow> legal E s
       | Inr ms \<Rightarrow> over E keep (cx_messages ctx) s \<and> lp_new_messages s = ms"
proof -
  obtain r1 s1 where b: "begin_run E prompts (start_state ctx prompts w) = (r1, s1)" by force
  note step1 = valid_case [OF begin_run_hist [where keep = keep] refl b]
  show ?thesis
  proof (cases r1)
    case (Inl e)
    with run b step1 show ?thesis by (auto simp: run_agent_loop_def)
  next
    case (Inr u)
    with run b obtain r2 where loop: "run_loop E cfg s1 = Some (r2, s)"
      and r: "r = bind_res r2 (\<lambda>_. Inr (lp_new_messages s))"
      by (auto simp: run_agent_loop_def split: option.splits)
    obtain r3 s3 where polled: "poll (lc_getSteeringMessages cfg) s1 = (r3, s3)" by force
    have s1: "hist E keep (cx_messages ctx) (turn_phase True) s1"
      using step1 Inr by (simp add: turn_phase_def)
    note step2 = valid_case [OF quiet_hist [OF quiet_poll] s1 polled]
    show ?thesis
    proof (cases r3)
      case (Inl e)
      with loop polled r step2 show ?thesis by (auto simp: run_loop_def)
    next
      case (Inr pending)
      with loop polled have "turn_loop E (lc_getSteeringMessages cfg) True True pending cfg s3 = Some (r2, s)"
        by (simp add: run_loop_def)
      from turn_loop_hist [OF this keep _ step2 [unfolded Inr sum.case]] show ?thesis
        using r by (auto split: sum.splits)
    qed
  qed
qed

section \<open>A run\<close>

text \<open>Two turns: the first asks for a tool, both messages are streamed.\<close>

definition trial_model :: loop_model where
  "trial_model = \<lparr>lm_id = ''m'', lm_api = ''anthropic-messages'', lm_provider = ''p'', lm_thinkingLevelMap = None\<rparr>"

definition trial_call :: tool_call where
  "trial_call = \<lparr>tc_id = ''c1'', tc_name = ''read'', tc_arguments = VDict []\<rparr>"

definition trial_message :: "nat \<Rightarrow> assistant_message" where
  "trial_message k =
     \<lparr>am_content = (if k \<le> 3 then [TextBlock ''look'', ToolCallBlock trial_call] else [TextBlock ''done'']),
      am_api = ''a'', am_provider = ''p'', am_model = ''m'', am_usage = VNone, am_stop_reason = ''stop'',
      am_error_message = None, am_timestamp = 0\<rparr>"

definition trial_event :: "nat \<Rightarrow> stream_event option" where
  "trial_event k =
     (if k mod 3 = 0
      then Some \<lparr>se_type = Some ''start'', se_partial = Some (trial_message 9), se_contentIndex = 0, se_delta = []\<rparr>
      else if k mod 3 = 1
      then Some \<lparr>se_type = Some ''text_delta'', se_partial = None, se_contentIndex = 0, se_delta = ''!''\<rparr>
      else None)"

definition trial_tool :: "nat agent_tool" where
  "trial_tool = \<lparr>at_name = ''read'', at_description = VNone, at_parameters = VNone, at_executionMode = None,
     at_prepareArguments = None,
     at_execute = (\<lambda>i a w. ((Inr \<lparr>rt_content = [], rt_details = VNone, rt_progress = VNone, rt_terminate = VNone\<rparr>, []), w))\<rparr>"

definition trial_env :: "nat loop_env" where
  "trial_env =
     \<lparr>le_emit = (\<lambda>ev w. (Inr (), w)), le_signal = None,
      le_stream_fn = Some (\<lambda>m ctx cfg key w. (Inr (), w)), le_runtime = None,
      le_stream_next = (\<lambda>w. (Inr (trial_event w), Suc w)),
      le_stream_result = (\<lambda>w. (Inr (trial_message w), w)),
      le_make_context = (\<lambda>p ms ts. Inr VNone), le_now_ms = (\<lambda>w. int w),
      le_exn_text = (\<lambda>e. ''error''), le_fable5 = (\<lambda>m. False)\<rparr>"

definition trial_config :: "nat loop_config" where
  "trial_config =
     \<lparr>lc_model = Some trial_model, lc_thinkingLevel = None, lc_reasoning = None, lc_apiKey = None,
      lc_toolExecution = Some ''parallel'', lc_convertToLlm = None, lc_transformContext = None, lc_getApiKey = None,
      lc_beforeToolCall = None, lc_resolveDeferredTool = None, lc_afterToolCall = None,
      lc_prepareNextTurn = None, lc_shouldStopAfterTurn = None, lc_getSteeringMessages = None,
      lc_getFollowUpMessages = None\<rparr>"

definition trial_context :: "nat agent_context" where
  "trial_context = \<lparr>cx_systemPrompt = [], cx_messages = [OtherM (VStr ''old'')], cx_tools = Some [trial_tool]\<rparr>"

definition trial_run :: "(agent_message list res \<times> nat loop_state) option" where
  "trial_run = run_agent_loop trial_env [OtherM (VStr ''hi'')] trial_context trial_config 0"

fun has_results :: "agent_event \<Rightarrow> bool" where
  "has_results (TurnEnd (AssistantM m) rs) \<longleftrightarrow> rs \<noteq> [] \<and> am_stop_reason m = ''stop''"
| "has_results _ \<longleftrightarrow> False"

fun is_tool_end :: "agent_event \<Rightarrow> bool" where
  "is_tool_end (ToolExecutionEnd i n r is_error started) \<longleftrightarrow> True"
| "is_tool_end _ \<longleftrightarrow> False"

lemma trial_run_result:
  "case trial_run of
     Some (Inr ms, s) \<Rightarrow>
       length ms = 4 \<and> length (lp_events s) = 18 \<and> starts (lp_events s) = length (ended (lp_events s)) \<and>
       list_ex has_results (lp_events s) \<and> list_ex is_tool_end (lp_events s)
   | _ \<Rightarrow> False"
  by code_simp

lemma trial_run_some:
  obtains ms s m rs i n res is_error started where
    "run_agent_loop trial_env [OtherM (VStr ''hi'')] trial_context trial_config 0 = Some (Inr ms, s)"
    "starts (lp_events s) = length (ended (lp_events s))"
    "TurnEnd (AssistantM m) rs \<in> set (lp_events s)" "rs \<noteq> []" "am_stop_reason m = ''stop''"
    "ToolExecutionEnd i n res is_error started \<in> set (lp_events s)"
proof -
  obtain ms s where run: "trial_run = Some (Inr ms, s)"
    using trial_run_result by (auto split: option.splits prod.splits sum.splits)
  note facts = trial_run_result [unfolded run option.case prod.case sum.case]
  from facts obtain ev where "ev \<in> set (lp_events s)" "has_results ev" by (auto simp: list_ex_iff)
  moreover from facts obtain ev' where "ev' \<in> set (lp_events s)" "is_tool_end ev'" by (auto simp: list_ex_iff)
  ultimately show ?thesis
    using that run facts unfolding trial_run_def by (metis has_results.elims(2) is_tool_end.elims(2))
qed

section \<open>Properties\<close>

text \<open>
  C4. The events of a run follow the protocol: they are accepted by the automaton \<open>next_phase\<close>, also
  when the run raises (a sink, a hook or a tool may raise at any event), and a run that returns has
  sent its \<open>AgentEnd\<close> as the last event, with no message or tool call left open.
\<close>

theorem run_follows_protocol:
  assumes "run_agent_loop E prompts ctx cfg w = Some (r, s)"
  shows "phase_from Fresh (lp_events s) \<noteq> None \<and>
    (\<forall>ms. r = Inr ms \<longrightarrow> phase_from Fresh (lp_events s) = Some Over)"
  using run_agent_loop_ends [OF assms, of False]
  by (auto simp: legal_def over_def obs_def abort_over_def split: sum.splits)

theorem run_follows_protocol_witness:
  "\<exists>ms s. run_agent_loop trial_env [OtherM (VStr ''hi'')] trial_context trial_config 0 = Some (Inr ms, s) \<and>
     phase_from Fresh (lp_events s) = Some Over"
proof -
  obtain ms s where run: "run_agent_loop trial_env [OtherM (VStr ''hi'')] trial_context trial_config 0 = Some (Inr ms, s)"
    by (rule trial_run_some)
  from run run_follows_protocol [OF run] show ?thesis by blast
qed

text \<open>
  What a run returns is what it has announced: the complete messages of its events are the new
  messages that it returns, in order, and the last event carries them. An aborted run announces one
  message more, that of the abort, which is the only one that its last event carries and which is not
  among the new messages.
\<close>

theorem run_reports_messages:
  assumes "run_agent_loop E prompts ctx cfg w = Some (Inr ms, s)"
  shows "ended (lp_events s) = ms \<and> last (lp_events s) = AgentEnd ms \<or>
    (\<exists>m. am_stop_reason m = ''aborted'' \<and> ended (lp_events s) = ms @ [AssistantM m] \<and>
       last (lp_events s) = AgentEnd [AssistantM m])"
  using run_agent_loop_ends [OF assms, of False] by (auto simp: over_def obs_def abort_over_def)

theorem run_reports_messages_witness:
  "\<exists>ms s. run_agent_loop trial_env [OtherM (VStr ''hi'')] trial_context trial_config 0 = Some (Inr ms, s) \<and>
     (ended (lp_events s) = ms \<and> last (lp_events s) = AgentEnd ms \<or>
      (\<exists>m. am_stop_reason m = ''aborted'' \<and> ended (lp_events s) = ms @ [AssistantM m] \<and>
         last (lp_events s) = AgentEnd [AssistantM m]))"
proof -
  obtain ms s where run: "run_agent_loop trial_env [OtherM (VStr ''hi'')] trial_context trial_config 0 = Some (Inr ms, s)"
    by (rule trial_run_some)
  from run run_reports_messages [OF run] show ?thesis by blast
qed

text \<open>
  C18. The context of the model is the history: when no hook replaces the context and no stream starts
  its message twice, the context of a run that returns is the one it was given followed by the new
  messages. In particular, the partial messages of the streams are all gone.
\<close>

theorem run_extends_context:
  assumes "run_agent_loop E prompts ctx cfg w = Some (Inr ms, s)"
    and "lc_prepareNextTurn cfg = None" "starts (lp_events s) = length (ended (lp_events s))"
  shows "cx_messages (lp_context s) = cx_messages ctx @ ms"
  using run_agent_loop_ends [OF assms(1), of True] assms(2,3)
  by (auto simp: over_def obs_def abort_over_def started_once_def)

theorem run_extends_context_witness:
  "\<exists>ms s. run_agent_loop trial_env [OtherM (VStr ''hi'')] trial_context trial_config 0 = Some (Inr ms, s) \<and>
     cx_messages (lp_context s) = cx_messages trial_context @ ms"
proof -
  obtain ms s where run: "run_agent_loop trial_env [OtherM (VStr ''hi'')] trial_context trial_config 0 = Some (Inr ms, s)"
    and once: "starts (lp_events s) = length (ended (lp_events s))"
    by (rule trial_run_some)
  have "lc_prepareNextTurn trial_config = None" by (simp add: trial_config_def)
  from run_extends_context [OF run this once] run show ?thesis by blast
qed

text \<open>
  C14. The results of a turn answer the tool calls of its message in order, by identifier and name, in
  the sequential and in the parallel mode, a prefix of the calls being answered. Every call is answered
  when there is no abort signal and the stop reason of the message is neither error nor aborted. It
  holds for the runs that raise too.
\<close>

theorem turns_answer_calls:
  assumes "run_agent_loop E prompts ctx cfg w = Some (r, s)"
    and "TurnEnd (AssistantM m) rs \<in> set (lp_events s)"
  shows "prefix (map result_sig rs) (map call_sig (assistant_tool_calls m)) \<and>
    (le_signal E = None \<and> am_stop_reason m \<notin> {''error'', ''aborted''} \<longrightarrow>
       map result_sig rs = map call_sig (assistant_tool_calls m))"
proof -
  have "turns_answered E (lp_events s)"
    using run_agent_loop_ends [OF assms(1), of False]
    by (auto simp: legal_def over_def obs_def abort_over_def split: sum.splits)
  with assms(2) have "answers E (AssistantM m) rs" by (auto simp: turns_answered_def list_all_iff)
  then show ?thesis by (simp add: answers_def)
qed

theorem turns_answer_calls_witness:
  "\<exists>ms s m rs. run_agent_loop trial_env [OtherM (VStr ''hi'')] trial_context trial_config 0 = Some (Inr ms, s) \<and>
     TurnEnd (AssistantM m) rs \<in> set (lp_events s) \<and> rs \<noteq> [] \<and>
     map result_sig rs = map call_sig (assistant_tool_calls m)"
proof -
  obtain ms s m rs where run: "run_agent_loop trial_env [OtherM (VStr ''hi'')] trial_context trial_config 0 = Some (Inr ms, s)"
    and turn: "TurnEnd (AssistantM m) rs \<in> set (lp_events s)" "rs \<noteq> []" "am_stop_reason m = ''stop''"
    by (rule trial_run_some)
  have "le_signal trial_env = None" by (simp add: trial_env_def)
  with turns_answer_calls [OF run turn(1)] turn(3)
  have "map result_sig rs = map call_sig (assistant_tool_calls m)" by simp
  with run turn show ?thesis by blast
qed

text \<open>
  C40. No tool is ever executed: in a run, also in one that raises, no tool reports an update, and every
  call that ends is an error that ends before its execution has started. The validator of the
  arguments, which calls itself with dictionaries, raises for every call.
\<close>

theorem no_tool_executes:
  assumes "run_agent_loop E prompts ctx cfg w = Some (r, s)"
  shows "ToolExecutionUpdate i n a p \<notin> set (lp_events s) \<and>
    (ToolExecutionEnd i n res is_error started \<in> set (lp_events s) \<longrightarrow> is_error \<and> \<not> started)"
  using idle_run_agent_loop [OF assms] by (auto simp: list_all_iff idle_event_def)

theorem no_tool_executes_witness:
  "\<exists>ms s i n res. run_agent_loop trial_env [OtherM (VStr ''hi'')] trial_context trial_config 0 = Some (Inr ms, s) \<and>
     ToolExecutionEnd i n res True False \<in> set (lp_events s)"
proof -
  obtain ms s i n res x y where run: "run_agent_loop trial_env [OtherM (VStr ''hi'')] trial_context trial_config 0 = Some (Inr ms, s)"
    and ev: "ToolExecutionEnd i n res x y \<in> set (lp_events s)"
    by (rule trial_run_some)
  with no_tool_executes [OF run] have "x" "\<not> y" by blast+
  with run ev show ?thesis by auto
qed

end
