(* ===== verification/AgentRuns.thy ===== *)
theory AgentRuns
  imports AgentState LoopRuns
begin

text \<open>
  What holds of an agent after its runs: it is settled again whatever happened, and its memory is the
  memory of the loop, for which the loop's interface \<open>loop_relation\<close> is interpreted on the agent.
\<close>

section \<open>The end of a run\<close>

definition settled :: "'o agent \<Rightarrow> bool" where
  "settled ag \<longleftrightarrow> ag_active_run ag = None \<and> \<not> ag_isStreaming ag \<and> ag_streamingMessage ag = None \<and>
     ag_pendingToolCalls ag = {}"

lemma settled_finish: "settled (finish_run ag)"
  by (simp add: settled_def finish_run_def)

lemma settled_queues [simp]:
  "settled (ag\<lparr>ag_steering_queue := q\<rparr>) = settled ag" "settled (ag\<lparr>ag_follow_up_queue := q\<rparr>) = settled ag"
  by (simp_all add: settled_def)

lemma run_with_lifecycle_settles:
  "run_with_lifecycle A exec ag = Some (r, ag') \<Longrightarrow> ag_active_run ag = None \<Longrightarrow> settled ag'"
  by (auto simp: run_with_lifecycle_def settled_finish split: option.splits sum.splits prod.splits)

lemma continue_settles:
  assumes "continue_agent A ag = Some (r, ag')" "settled ag"
  shows "settled ag'"
  using assms(1) assms(2)
  by (auto simp: continue_agent_def run_prompt_messages_def run_continuation_def Let_def settled_def
      elim!: run_with_lifecycle_settles [unfolded settled_def] split: if_splits prod.splits)

section \<open>An agent\<close>

definition trial_agent_env :: "nat agent_env" where
  "trial_agent_env =
     \<lparr>ae_loop =
        \<lparr>le_emit = (\<lambda>ev ag. (Inr (), ag)), le_signal = None, le_stream_fn = None, le_runtime = None,
         le_stream_next = (\<lambda>ag. (Inr (trial_event (ag_host ag)), ag\<lparr>ag_host := Suc (ag_host ag)\<rparr>)),
         le_stream_result = (\<lambda>ag. (Inr (trial_message (ag_host ag)), ag)),
         le_make_context = (\<lambda>p ms ts. Inr VNone), le_now_ms = (\<lambda>ag. 0),
         le_exn_text = (\<lambda>e. ''error''), le_fable5 = (\<lambda>m. False)\<rparr>,
      ae_tool = (\<lambda>k. \<lparr>at_name = ''read'', at_description = VNone, at_parameters = VNone,
         at_executionMode = Some ''sequential'', at_prepareArguments = None,
         at_execute = (\<lambda>i a ag. ((Inl PyTypeError, []), ag))\<rparr>),
      ae_listener = (\<lambda>l ev ag. (Inr (), ag)),
      ae_streamFn = (\<lambda>m c cfg k ag. (Inr (), ag)), ae_toolExecution = ''parallel'',
      ae_convertToLlm = None, ae_transformContext = None, ae_getApiKey = None, ae_beforeToolCall = None,
      ae_resolveDeferredTool = None, ae_afterToolCall = None, ae_prepareNextTurn = None\<rparr>"

definition trial_agent :: "nat agent" where
  "trial_agent = subscribe 7 (follow_up (OtherM (VStr ''more''))
     (new_agent [0] [OtherM (VStr ''old'')] None None None None None 0))"

lemma trial_prompt_result:
  "map_option (\<lambda>(r, ag). (isl r, length (ag_messages ag), ag_host ag, has_queued_messages ag))
     (prompt trial_agent_env (TextInput ''hi'') [] trial_agent) = Some (False, 7, 9, False)"
  by code_simp

lemma trial_prompt:
  obtains ag' where "prompt trial_agent_env (TextInput ''hi'') [] trial_agent = Some (Inr (), ag')"
    "length (ag_messages ag') = 7"
proof -
  obtain x where "prompt trial_agent_env (TextInput ''hi'') [] trial_agent = Some x"
    using trial_prompt_result by (cases "prompt trial_agent_env (TextInput ''hi'') [] trial_agent") auto
  with trial_prompt_result that show ?thesis by (cases x; cases "fst x") auto
qed

text \<open>
  C15. An agent is settled after every call of \<open>prompt\<close> and \<open>continue\<close> that returns, normally or with an
  exception, whatever the stream, the tools, the hooks and the listeners did: no active run, not
  streaming, no streaming message, no pending tool call. While a run is active, both calls raise and
  change nothing.
\<close>

theorem agent_calls_settle:
  assumes "prompt A input images ag = Some (r, ag') \<or> continue_agent A ag = Some (r, ag')"
    and "ag_active_run ag = None \<longrightarrow> settled ag"
  shows "if ag_active_run ag = None then settled ag' else ag' = ag \<and> (\<exists>e. r = Inl e)"
proof (cases "ag_active_run ag = None")
  case True
  with assms continue_settles [of A ag r ag'] show ?thesis
    by (auto simp: prompt_def run_prompt_messages_def elim: run_with_lifecycle_settles)
next
  case False
  with assms show ?thesis by (auto simp: prompt_def continue_agent_def)
qed

theorem agent_calls_settle_witness:
  "\<exists>r ag'. prompt trial_agent_env (TextInput ''hi'') [] trial_agent = Some (r, ag') \<and> settled ag'"
proof -
  have start: "ag_active_run trial_agent = None" "settled trial_agent"
    by code_simp+
  obtain ag' where run: "prompt trial_agent_env (TextInput ''hi'') [] trial_agent = Some (Inr (), ag')"
    by (rule trial_prompt)
  from agent_calls_settle [of _ "TextInput ''hi''" "[]", OF disjI1, OF run] start run show ?thesis by auto
qed

section \<open>The memory of an agent\<close>

definition same_messages :: "'o agent \<Rightarrow> 'o agent \<Rightarrow> bool" where
  "same_messages ag ag' \<longleftrightarrow> ag_messages ag' = ag_messages ag"

text \<open>The host leaves the messages of the agent alone in everything that a run calls.\<close>

definition host_respects :: "'o agent_env \<Rightarrow> bool" where
  "host_respects A \<longleftrightarrow>
     (\<forall>l ev. keeps same_messages (ae_listener A l ev)) \<and>
     (\<forall>m c cfg k. keeps same_messages (ae_streamFn A m c cfg k)) \<and>
     keeps same_messages (le_stream_next (ae_loop A)) \<and> keeps same_messages (le_stream_result (ae_loop A)) \<and>
     (\<forall>f x. ae_convertToLlm A = Some f \<longrightarrow> keeps same_messages (f x)) \<and>
     (\<forall>f x. ae_transformContext A = Some f \<longrightarrow> keeps same_messages (f x)) \<and>
     (\<forall>f x. ae_getApiKey A = Some f \<longrightarrow> keeps same_messages (f x)) \<and>
     (\<forall>f x. ae_resolveDeferredTool A = Some f \<longrightarrow> keeps same_messages (f x)) \<and>
     (\<forall>f x. ae_prepareNextTurn A = Some f \<longrightarrow> keeps same_messages (f x))"

lemma trial_respects: "host_respects trial_agent_env"
  by (simp add: host_respects_def trial_agent_env_def keeps_def same_messages_def)

definition remembers :: "'o agent loop_state \<Rightarrow> 'o agent loop_state \<Rightarrow> bool" where
  "remembers s t \<longleftrightarrow>
     (\<exists>l. lp_events t = lp_events s @ l \<and>
          ag_messages (lp_world t) = ag_messages (lp_world s) @ ended l)"

lemma remembers_refl: "reflp remembers"
  by (simp add: reflp_def remembers_def)

lemma remembers_trans: "transp remembers"
  unfolding transp_def remembers_def by force

lemma same_refl: "reflp same_messages" and same_trans: "transp same_messages"
  by (simp_all add: reflp_def transp_def same_messages_def)

lemma remembers_on_world: "keeps same_messages f \<Longrightarrow> keeps remembers (on_world f)"
  by (rule keepsI) (auto simp: on_world_def remembers_def same_messages_def dest: keepsD split: prod.splits)

lemma reduce_event_messages: "ag_messages (reduce_event ev ag) = ag_messages ag @ ended [ev]"
  by (cases ev) (simp_all add: reduce_event_def split: option.split)

lemma process_events_messages:
  assumes "host_respects A" "process_events A ev ag = (r, ag')"
  shows "ag_messages ag' = ag_messages ag @ ended [ev]"
proof -
  define rest where "rest = bind_act (get_act ag_active_run) (\<lambda>run.
      case run of
        None \<Rightarrow> raise_act (PlainException ''Agent listener invoked outside active run'')
      | Some c \<Rightarrow> bind_act (get_act ag_listeners) (each_act (\<lambda>l. ae_listener A l ev)))"
  have "keeps same_messages (ae_listener A l ev)" for l
    using assms(1) by (simp add: host_respects_def)
  then have "keeps same_messages rest"
    unfolding rest_def
    by (auto intro!: keeps_bind [OF same_trans] keeps_get [OF same_refl] keeps_raise [OF same_refl]
        keeps_each [OF same_refl same_trans] split: option.split)
  moreover have "rest (reduce_event ev ag) = (r, ag')"
    using assms(2) by (simp add: process_events_def rest_def then_act_def bind_act_def [of "modify_act _"] modify_act_def)
  ultimately have "same_messages (reduce_event ev ag) ag'" by (rule keepsD)
  then show ?thesis by (simp add: same_messages_def reduce_event_messages)
qed

lemma remembers_emit:
  assumes "host_respects A"
  shows "keeps remembers (emit (agent_loop_env A) ev)"
  by (rule keepsI)
    (auto simp: emit_def remembers_def agent_loop_env_def dest!: process_events_messages [OF assms] split: prod.splits)

lemma stream_remembers: "host_respects A \<Longrightarrow> stream_keeps remembers (agent_loop_env A)"
  by (auto simp: stream_keeps_def host_respects_def agent_loop_env_def resolve_agent_core_stream_fn_def
      intro: remembers_on_world)

text \<open>The laws of the interface hold for the loop of an agent whose host respects its messages.\<close>

lemma agent_relation:
  assumes "host_respects A"
  shows "loop_relation remembers (agent_loop_env A)"
  by unfold_locales
    (use assms in \<open>auto intro: remembers_refl remembers_trans remembers_emit stream_remembers simp: remembers_def\<close>)

lemma steering_poll_same: "keeps same_messages steering_poll"
  by (rule keepsI) (auto simp: steering_poll_def drain_steering_def same_messages_def split: if_splits prod.splits)

lemma drain_follow_up_same: "keeps same_messages drain_follow_up"
  by (rule keepsI) (auto simp: drain_follow_up_def same_messages_def split: prod.splits)

lemma create_loop_config_raises:
  "create_loop_config A skip ag = (Inl e, ag1) \<Longrightarrow> same_messages ag ag1"
  by (auto simp: create_loop_config_def then_act_def bind_act_def modify_act_def get_act_def of_res_def
      ret_act_def same_messages_def split: sum.splits)

lemma create_loop_config_hooks:
  assumes "host_respects A" "create_loop_config A skip ag = (Inr cfg, ag1)"
  shows "hooks_keep remembers cfg \<and> same_messages ag ag1 \<and> lc_prepareNextTurn cfg = ae_prepareNextTurn A"
proof -
  have default: "keeps same_messages (ret_act x)" for x :: "agent_message list"
    by (rule keeps_ret [OF same_refl])
  from assms show ?thesis
    by (auto simp: create_loop_config_def then_act_Inr bind_act_Inr hooks_keep_def host_respects_def
        same_messages_def intro!: remembers_on_world default steering_poll_same drain_follow_up_same
        split: option.splits)
qed

text \<open>What a run adds to the memory is what it announces.\<close>

lemma run_remembers:
  assumes "host_respects A" "hooks_keep remembers cfg"
    and "run_agent_loop (agent_loop_env A) ms ctx cfg ag = Some (r, s)"
  shows "ag_messages (lp_world s) = ag_messages ag @ ended (lp_events s)"
  using loop_relation.K_run_agent_loop [OF agent_relation [OF assms(1)] assms(3,2)]
  by (auto simp: remembers_def start_state_def)

lemma run_continue_remembers:
  assumes "host_respects A" "hooks_keep remembers cfg"
    and "run_agent_loop_continue (agent_loop_env A) ctx cfg ag = Some (r, s)"
  shows "ag_messages (lp_world s) = ag_messages ag @ ended (lp_events s)"
  using assms run_remembers [OF assms(1,2)]
  by (auto simp: run_agent_loop_continue_def start_state_def split: if_splits)

text \<open>
  C6. The memory of an agent is the context of its loop. The listeners, the stream and the hooks of the host leave the
  messages of the agent alone (\<open>host_respects\<close>), and the agent has no hook \<open>prepareNextTurn\<close>. Then a
  prompt that is executed to its end is a run of the loop on the snapshot of the agent, and the agent
  remembers its old messages followed by the new messages of the run or, when the run was aborted, one
  message more, the report of the abort. If no stream started its message twice, the
  context of the loop is the old messages followed by the new ones, without that report.
\<close>

theorem agent_memory_is_context:
  assumes host: "host_respects A" and no_update: "ae_prepareNextTurn A = None"
    and exec: "exec_loop A skip (run_agent_loop (agent_loop_env A) ms) ag = Some (Inr (), ag')"
  shows "\<exists>cfg ag1 new s.
     run_agent_loop (agent_loop_env A) ms (create_context_snapshot A ag) cfg ag1 = Some (Inr new, s) \<and>
     ag' = lp_world s \<and>
     (ag_messages ag' = ag_messages ag @ new \<or>
      (\<exists>m. am_stop_reason m = ''aborted'' \<and> ag_messages ag' = ag_messages ag @ new @ [AssistantM m])) \<and>
     (starts (lp_events s) = length (ended (lp_events s)) \<longrightarrow>
        cx_messages (lp_context s) = ag_messages ag @ new)"
proof -
  from exec obtain cfg ag1 new s where cfg: "create_loop_config A skip ag = (Inr cfg, ag1)"
    and run: "run_agent_loop (agent_loop_env A) ms (create_context_snapshot A ag) cfg ag1 = Some (Inr new, s)"
    and ag': "ag' = lp_world s"
    by (auto simp: exec_loop_def bind_res_eq_Inr split: prod.splits sum.splits option.splits)
  note hooks = create_loop_config_hooks [OF host cfg]
  have mem: "ag_messages ag' = ag_messages ag @ ended (lp_events s)"
    using run_remembers [OF host _ run] hooks ag' by (simp add: same_messages_def)
  have ends: "over (agent_loop_env A) True (ag_messages ag) s" "lp_new_messages s = new"
    using run_agent_loop_ends [OF run, of True] hooks no_update
    by (simp_all add: create_context_snapshot_def)
  then have "ended (lp_events s) = new \<or>
      (\<exists>m. am_stop_reason m = ''aborted'' \<and> ended (lp_events s) = new @ [AssistantM m])"
    by (auto simp: over_def obs_def abort_over_def)
  moreover have "starts (lp_events s) = length (ended (lp_events s)) \<longrightarrow>
      cx_messages (lp_context s) = ag_messages ag @ new"
    using ends by (auto simp: over_def obs_def abort_over_def started_once_def)
  ultimately show ?thesis using run ag' mem by (metis append_assoc)
qed

theorem agent_memory_is_context_witness:
  "\<exists>ag' cfg ag1 new s.
     exec_loop trial_agent_env False (run_agent_loop (agent_loop_env trial_agent_env) [OtherM (VStr ''hi'')])
       (begin_lifecycle trial_agent) = Some (Inr (), ag') \<and>
     run_agent_loop (agent_loop_env trial_agent_env) [OtherM (VStr ''hi'')]
       (create_context_snapshot trial_agent_env (begin_lifecycle trial_agent)) cfg ag1 = Some (Inr new, s) \<and>
     ag' = lp_world s"
proof -
  let ?exec = "exec_loop trial_agent_env False
      (run_agent_loop (agent_loop_env trial_agent_env) [OtherM (VStr ''hi'')]) (begin_lifecycle trial_agent)"
  have "map_option (\<lambda>x. isl (fst x)) ?exec = Some False" by code_simp
  then obtain ag' where exec: "?exec = Some (Inr (), ag')"
    by (cases ?exec) (auto simp: isl_def split: sum.splits, metis sum.exhaust prod.collapse old.unit.exhaust)
  have "ae_prepareNextTurn trial_agent_env = None" by (simp add: trial_agent_env_def)
  from agent_memory_is_context [OF trial_respects this exec] exec show ?thesis by blast
qed

section \<open>Failures\<close>

lemma handle_run_failure_messages:
  fixes ag :: "'o agent"
  assumes "host_respects A" "handle_run_failure A e ag = (r, ag')"
  shows "\<exists>new. ag_messages ag' = ag_messages ag @ new"
proof -
  define grows where "grows = (\<lambda>(ag :: 'o agent) (ag' :: 'o agent). \<exists>new. ag_messages ag' = ag_messages ag @ new)"
  have refl: "reflp grows" and trans: "transp grows"
    by (auto simp: grows_def reflp_def transp_def)
  have "keeps grows (process_events A ev)" for ev
    by (rule keepsI) (use process_events_messages [OF assms(1)] in \<open>auto simp: grows_def\<close>)
  then have "keeps grows (handle_run_failure A e)"
    unfolding handle_run_failure_def
    by (intro keeps_bind [OF trans keeps_get [OF refl]] keeps_then [OF trans])
  from keepsD [OF this assms(2)] show ?thesis by (simp add: grows_def)
qed

lemma exec_loop_grows:
  assumes "host_respects A" "exec_loop A skip run ag = Some (r, ag')"
    and run: "\<And>cfg ag1 r s. hooks_keep remembers cfg \<Longrightarrow> run (create_context_snapshot A ag) cfg ag1 = Some (r, s) \<Longrightarrow>
      ag_messages (lp_world s) = ag_messages ag1 @ ended (lp_events s)"
  shows "\<exists>new. ag_messages ag' = ag_messages ag @ new"
proof (cases "create_loop_config A skip ag")
  case (Pair r1 ag1)
  show ?thesis
  proof (cases r1)
    case (Inl e)
    with assms(2) Pair create_loop_config_raises [of A skip ag e ag1] show ?thesis
      by (auto simp: exec_loop_def same_messages_def)
  next
    case (Inr cfg)
    with assms(2) Pair obtain r2 s where s: "run (create_context_snapshot A ag) cfg ag1 = Some (r2, s)"
      and "ag' = lp_world s"
      by (auto simp: exec_loop_def split: option.splits)
    with run [OF _ s] create_loop_config_hooks [OF assms(1) Pair [unfolded Inr]] show ?thesis
      by (simp add: same_messages_def)
  qed
qed

lemma run_with_lifecycle_grows:
  assumes host: "host_respects A" and run: "run_with_lifecycle A exec ag = Some (r, ag')"
    and exec: "\<And>r ag1. exec (begin_lifecycle ag) = Some (r, ag1) \<Longrightarrow> \<exists>new. ag_messages ag1 = ag_messages ag @ new"
  shows "\<exists>new. ag_messages ag' = ag_messages ag @ new"
proof (cases "ag_active_run ag")
  case (Some c)
  with run show ?thesis by (simp add: run_with_lifecycle_def)
next
  case None
  with run obtain r1 ag1 where e: "exec (begin_lifecycle ag) = Some (r1, ag1)"
    by (auto simp: run_with_lifecycle_def split: option.splits)
  from exec [OF this] obtain new where new: "ag_messages ag1 = ag_messages ag @ new" ..
  show ?thesis
  proof (cases r1)
    case (Inr u)
    with run None e new show ?thesis by (auto simp: run_with_lifecycle_def finish_run_def)
  next
    case (Inl x)
    obtain r2 ag2 where h: "handle_run_failure A x ag1 = (r2, ag2)" by force
    with run None e Inl have "ag' = finish_run ag2" by (simp add: run_with_lifecycle_def)
    with handle_run_failure_messages [OF host h] new show ?thesis by (auto simp: finish_run_def)
  qed
qed

lemma begin_lifecycle_messages [simp]: "ag_messages (begin_lifecycle ag) = ag_messages ag"
  by (simp add: begin_lifecycle_def)

lemma run_prompt_grows:
  "host_respects A \<Longrightarrow> run_prompt_messages A ms skip ag = Some (r, ag') \<Longrightarrow>
     \<exists>new. ag_messages ag' = ag_messages ag @ new"
  unfolding run_prompt_messages_def
  by (rule run_with_lifecycle_grows, assumption+)
    (auto dest: exec_loop_grows [rotated] intro: run_remembers)

lemma run_continuation_grows:
  "host_respects A \<Longrightarrow> run_continuation A ag = Some (r, ag') \<Longrightarrow> \<exists>new. ag_messages ag' = ag_messages ag @ new"
  unfolding run_continuation_def
  by (rule run_with_lifecycle_grows, assumption+)
    (auto dest: exec_loop_grows [rotated] intro: run_continue_remembers)

lemma continue_grows:
  assumes host: "host_respects A" and c: "continue_agent A ag = Some (r, ag')"
  shows "\<exists>new. ag_messages ag' = ag_messages ag @ new"
proof -
  have ran: "\<exists>new. ag_messages ag' = ag_messages ag @ new"
    if "run_prompt_messages A ms skip ag1 = Some (r, ag')" "ag_messages ag1 = ag_messages ag" for ms skip ag1
    using run_prompt_grows [OF host that(1)] that(2) by simp
  show ?thesis
    using c ran run_continuation_grows [OF host]
    by (fastforce simp: continue_agent_def Let_def split: if_splits prod.splits)
qed

text \<open>
  C16. The memory of an agent is append-only: whatever a call of \<open>prompt\<close> or \<open>continue\<close> ends with, also an
  exception, and also when the run fails and the failure is reported as a message of its own, the
  messages from before are still there, unchanged and in front, as long as the host leaves them alone.
\<close>

theorem agent_memory_append_only:
  assumes "host_respects A"
    and "prompt A input images ag = Some (r, ag') \<or> continue_agent A ag = Some (r, ag')"
  shows "\<exists>new. ag_messages ag' = ag_messages ag @ new"
  using assms continue_grows [OF assms(1)] run_prompt_grows [OF assms(1)]
  by (auto simp: prompt_def split: if_splits)

theorem agent_memory_append_only_witness:
  "\<exists>ag' new. prompt trial_agent_env (TextInput ''hi'') [] trial_agent = Some (Inr (), ag') \<and>
     length (ag_messages ag') = 7 \<and> ag_messages ag' = ag_messages trial_agent @ new"
proof -
  obtain ag' where run: "prompt trial_agent_env (TextInput ''hi'') [] trial_agent = Some (Inr (), ag')"
    and size: "length (ag_messages ag') = 7" by (rule trial_prompt)
  from agent_memory_append_only [OF trial_respects disjI1, OF run] run size show ?thesis by blast
qed

end
