(* ===== verification/RegExp.thy ===== *)
theory RegExp
  imports PyPrelude
begin

text \<open>
  The regular expressions that the code hands to \<^verbatim>\<open>re.compile\<close>, written as terms, and a matcher for
  them. What the code reads from the groups of a match is recovered where it is used.
\<close>

text \<open>A class of characters is a list of ranges of code points.\<close>

datatype rexp =
    Never | Empty | Class "(nat \<times> nat) list" | Then rexp rexp | Or rexp rexp | Many rexp

definition in_class :: "(nat \<times> nat) list \<Rightarrow> char \<Rightarrow> bool" where
  "in_class p c \<longleftrightarrow> list_ex (\<lambda>(lo, hi). lo \<le> ord_char c \<and> ord_char c \<le> hi) p"

fun lang :: "rexp \<Rightarrow> string set" where
  "lang Never = {}"
| "lang Empty = {[]}"
| "lang (Class p) = {[c] | c. in_class p c}"
| "lang (Then r q) = {s @ t | s t. s \<in> lang r \<and> t \<in> lang q}"
| "lang (Or r q) = lang r \<union> lang q"
| "lang (Many r) = {concat ss | ss. set ss \<subseteq> lang r}"

section \<open>Matching\<close>

fun nullable :: "rexp \<Rightarrow> bool" where
  "nullable Never = False"
| "nullable Empty = True"
| "nullable (Class p) = False"
| "nullable (Then r q) = (nullable r \<and> nullable q)"
| "nullable (Or r q) = (nullable r \<or> nullable q)"
| "nullable (Many r) = True"

fun then_of :: "rexp \<Rightarrow> rexp \<Rightarrow> rexp" where
  "then_of Never q = Never"
| "then_of Empty q = q"
| "then_of r q = Then r q"

fun or_of :: "rexp \<Rightarrow> rexp \<Rightarrow> rexp" where
  "or_of Never q = q"
| "or_of r Never = r"
| "or_of r q = (if r = q then r else Or r q)"

fun residual :: "char \<Rightarrow> rexp \<Rightarrow> rexp" where
  "residual c Never = Never"
| "residual c Empty = Never"
| "residual c (Class p) = (if in_class p c then Empty else Never)"
| "residual c (Then r q) =
     (if nullable r then or_of (then_of (residual c r) q) (residual c q) else then_of (residual c r) q)"
| "residual c (Or r q) = or_of (residual c r) (residual c q)"
| "residual c (Many r) = then_of (residual c r) (Many r)"

fun full_match :: "rexp \<Rightarrow> string \<Rightarrow> bool" where
  "full_match r [] = nullable r"
| "full_match r (c # s) = full_match (residual c r) s"

lemma nullable_lang: "nullable r \<longleftrightarrow> [] \<in> lang r"
proof (induction r)
  case (Many r)
  show ?case by (auto intro: exI [where x = "[]"])
qed auto

lemma lang_then_of [simp]: "lang (then_of r q) = lang (Then r q)"
  by (cases r) auto

lemma lang_or_of [simp]: "lang (or_of r q) = lang r \<union> lang q"
  by (cases r; cases q) auto

text \<open>A repetition that begins with a character begins with a piece that does.\<close>

lemma concat_first:
  assumes "concat ss = c # s"
  obtains u v where "c # u \<in> set ss" "s = u @ concat v" "set v \<subseteq> set ss"
  using assms
proof (induction ss)
  case (Cons x ss)
  show ?case
  proof (cases x)
    case Nil
    with Cons show ?thesis by auto
  next
    case (Cons d u)
    with Cons.prems show ?thesis by auto
  qed
qed simp

lemma residual_lang: "s \<in> lang (residual c r) \<longleftrightarrow> c # s \<in> lang r"
proof (induction r arbitrary: s)
  case (Then r q)
  have "c # s \<in> lang (Then r q) \<longleftrightarrow>
      (\<exists>u t. c # u \<in> lang r \<and> t \<in> lang q \<and> s = u @ t) \<or> ([] \<in> lang r \<and> c # s \<in> lang q)"
    by (auto simp: Cons_eq_append_conv)
  then show ?case using Then by (auto simp: nullable_lang)
next
  case (Many r)
  have "c # s \<in> lang (Many r) \<longleftrightarrow> (\<exists>u v. c # u \<in> lang r \<and> set v \<subseteq> lang r \<and> s = u @ concat v)"
  proof
    assume "c # s \<in> lang (Many r)"
    then obtain ss where "concat ss = c # s" "set ss \<subseteq> lang r" by auto
    then show "\<exists>u v. c # u \<in> lang r \<and> set v \<subseteq> lang r \<and> s = u @ concat v"
      by (elim concat_first) blast
  next
    assume "\<exists>u v. c # u \<in> lang r \<and> set v \<subseteq> lang r \<and> s = u @ concat v"
    then obtain u v where "c # u \<in> lang r" "set v \<subseteq> lang r" "s = u @ concat v" by blast
    then have "c # s = concat ((c # u) # v)" "set ((c # u) # v) \<subseteq> lang r" by auto
    then show "c # s \<in> lang (Many r)" by (simp only: lang.simps) blast
  qed
  then show ?case using Many by auto
qed (auto simp: Cons_eq_append_conv)

lemma full_match_lang: "full_match r s \<longleftrightarrow> s \<in> lang r"
  by (induction s arbitrary: r) (simp_all add: nullable_lang residual_lang)

section \<open>Writing expressions\<close>

definition some_of :: "rexp \<Rightarrow> rexp" where
  "some_of r = Then r (Many r)"

definition maybe :: "rexp \<Rightarrow> rexp" where
  "maybe r = Or r Empty"

definition char_re :: "char \<Rightarrow> rexp" where
  "char_re c = Class [(ord_char c, ord_char c)]"

fun text_re :: "string \<Rightarrow> rexp" where
  "text_re [] = Empty"
| "text_re (c # s) = then_of (char_re c) (text_re s)"

fun seq_re :: "rexp list \<Rightarrow> rexp" where
  "seq_re [] = Empty"
| "seq_re [r] = r"
| "seq_re (r # q # rs) = Then r (seq_re (q # rs))"

text \<open>
  \<^verbatim>\<open>$\<close> also matches before a newline that ends the text, so \<^verbatim>\<open>re.match\<close> of an expression between
  \<^verbatim>\<open>^\<close> and \<^verbatim>\<open>$\<close> takes a text with one newline at its end too.
\<close>

definition chop_newline :: "string \<Rightarrow> string" where
  "chop_newline s = (if s \<noteq> [] \<and> last s = newline then butlast s else s)"

definition anchored_match :: "rexp \<Rightarrow> string \<Rightarrow> bool" where
  "anchored_match r s \<longleftrightarrow> full_match r s \<or> full_match r (chop_newline s)"

lemma lang_some_of: "s \<in> lang (some_of r) \<longleftrightarrow> (\<exists>ss. ss \<noteq> [] \<and> set ss \<subseteq> lang r \<and> s = concat ss)"
proof
  assume "s \<in> lang (some_of r)"
  then obtain u ss where "u \<in> lang r" "set ss \<subseteq> lang r" "s = u @ concat ss" by (auto simp: some_of_def)
  then show "\<exists>ss. ss \<noteq> [] \<and> set ss \<subseteq> lang r \<and> s = concat ss"
    by (intro exI [where x = "u # ss"]) simp
next
  assume "\<exists>ss. ss \<noteq> [] \<and> set ss \<subseteq> lang r \<and> s = concat ss"
  then obtain u ss where "set (u # ss) \<subseteq> lang r" "s = concat (u # ss)" by (metis list.exhaust)
  then show "s \<in> lang (some_of r)" by (auto simp: some_of_def)
qed

lemma concat_singles: "(\<forall>x\<in>set ss. \<exists>c. x = [c] \<and> p c) \<Longrightarrow> s = concat ss \<Longrightarrow>
    (\<forall>c\<in>set s. p c) \<and> length s = length ss"
  by (induction ss arbitrary: s) auto

lemma lang_some_class: "s \<in> lang (some_of (Class p)) \<longleftrightarrow> s \<noteq> [] \<and> (\<forall>c\<in>set s. in_class p c)"
proof
  assume "s \<in> lang (some_of (Class p))"
  then obtain ss where ss: "ss \<noteq> []" "\<forall>x\<in>set ss. \<exists>c. x = [c] \<and> in_class p c" "s = concat ss"
    by (auto simp: lang_some_of)
  from concat_singles [OF ss(2,3)] ss(1) show "s \<noteq> [] \<and> (\<forall>c\<in>set s. in_class p c)" by auto
next
  assume s: "s \<noteq> [] \<and> (\<forall>c\<in>set s. in_class p c)"
  have "s = concat (map (\<lambda>c. [c]) s)" by simp
  with s show "s \<in> lang (some_of (Class p))"
    unfolding lang_some_of by (intro exI [where x = "map (\<lambda>c. [c]) s"]) auto
qed

lemma lang_maybe [simp]: "lang (maybe r) = lang r \<union> {[]}"
  by (simp add: maybe_def)

lemma lang_char_re [simp]: "lang (char_re c) = {[c]}"
  by (auto simp: char_re_def in_class_def)

lemma lang_text_re [simp]: "lang (text_re s) = {s}"
  by (induction s) auto

text \<open>The characters of the texts of an expression.\<close>

fun texts_over :: "(char \<Rightarrow> bool) \<Rightarrow> rexp \<Rightarrow> bool" where
  "texts_over p Never \<longleftrightarrow> True"
| "texts_over p Empty \<longleftrightarrow> True"
| "texts_over p (Class q) \<longleftrightarrow> (\<forall>c. in_class q c \<longrightarrow> p c)"
| "texts_over p (Then r q) \<longleftrightarrow> texts_over p r \<and> texts_over p q"
| "texts_over p (Or r q) \<longleftrightarrow> texts_over p r \<and> texts_over p q"
| "texts_over p (Many r) \<longleftrightarrow> texts_over p r"

lemma lang_over: "texts_over p r \<Longrightarrow> s \<in> lang r \<Longrightarrow> c \<in> set s \<Longrightarrow> p c"
proof (induction r arbitrary: s)
  case (Many r)
  then obtain ss x where "set ss \<subseteq> lang r" "x \<in> set ss" "c \<in> set x" by auto
  with Many show ?case by auto
qed auto

end
