(* ===== verification/IpAddress.thy ===== *)
theory IpAddress
  imports PyVal RegExp
begin

text \<open>
  \<^verbatim>\<open>net_policy/ip.py\<close>: addresses, their parsing from text and their printed form. Octets and parts are
  integers, which the constructors of the code check: \<^verbatim>\<open>>>\<close> and \<^verbatim>\<open>&\<close> with a mask are \<open>div\<close> and
  \<open>mod\<close> of powers of two. A pattern of the code is a \<open>rexp\<close> with \<^verbatim>\<open>re.IGNORECASE\<close> in its classes; the
  groups of a match are the pieces between the separators, which no class contains.
\<close>

section \<open>Patterns\<close>

definition DIGITS :: "(nat \<times> nat) list" where
  "DIGITS = [(48, 57)]"

definition HEX :: "(nat \<times> nat) list" where
  "HEX = [(48, 57), (97, 102), (65, 70)]"

definition ALNUM :: "(nat \<times> nat) list" where
  "ALNUM = [(48, 57), (97, 122), (65, 90)]"

definition X_CHAR :: rexp where
  "X_CHAR = Class [(120, 120), (88, 88)]"

definition HEX_RE :: rexp where
  "HEX_RE = seq_re [char_re (CHR ''0''), X_CHAR, some_of (Class HEX)]"

definition OCTAL_RE :: rexp where
  "OCTAL_RE = Then (char_re (CHR ''0'')) (some_of (Class [(48, 55)]))"

text \<open>
  The class \<^verbatim>\<open>\d\<close> is that of the ASCII digits, which are the decimal digits below code point 256. Beyond,
  it takes the digits of other scripts too, and \<^verbatim>\<open>int\<close> reads them, so that the code accepts texts such as a
  zero of the Arabic script between ASCII digits; the strings of this development do not reach there, and
  what is proved of the texts of addresses is about code points below 256.
\<close>

definition IPV4_PART :: rexp where
  "IPV4_PART = Or (Then (maybe (char_re (CHR ''0''))) (some_of (Class DIGITS))) HEX_RE"

fun dotted :: "rexp list \<Rightarrow> rexp" where
  "dotted [] = Empty"
| "dotted [r] = r"
| "dotted (r # q # rs) = Then r (Then (char_re (CHR ''.'')) (dotted (q # rs)))"

definition IPV4_REGEX :: "nat \<Rightarrow> rexp" where
  "IPV4_REGEX n = dotted (replicate n IPV4_PART)"

definition DECIMAL :: rexp where
  "DECIMAL = Or (char_re (CHR ''0''))
     (Then (Class [(49, 57)]) (Many (Class DIGITS)))"

definition FOUR_PART_DECIMAL_RE :: rexp where
  "FOUR_PART_DECIMAL_RE = dotted (replicate 4 DECIMAL)"

definition ZONE_INDEX :: rexp where
  "ZONE_INDEX = Then (char_re (CHR ''%'')) (some_of (Class ALNUM))"

definition IPV6_PART :: rexp where
  "IPV6_PART = some_of (seq_re [some_of (Class HEX), char_re (CHR '':''), maybe (char_re (CHR '':''))])"

definition NATIVE_RE :: rexp where
  "NATIVE_RE = seq_re [maybe (text_re ''::''), maybe IPV6_PART, maybe (some_of (Class HEX)),
     maybe (text_re ''::''), maybe ZONE_INDEX]"

definition DEPRECATED_TRANSITIONAL_RE :: rexp where
  "DEPRECATED_TRANSITIONAL_RE = seq_re [text_re ''::'', IPV4_REGEX 4, maybe ZONE_INDEX]"

definition TRANSITIONAL_RE :: rexp where
  "TRANSITIONAL_RE = seq_re [Or IPV6_PART (Then (text_re ''::'') (maybe IPV6_PART)), IPV4_REGEX 4, maybe ZONE_INDEX]"

section \<open>Numbers\<close>

definition digit_value :: "char \<Rightarrow> int" where
  "digit_value c = int (if is_digit c then ord_char c - 48 else ord_char (lower_char c) - 87)"

fun number_from :: "int \<Rightarrow> int \<Rightarrow> string \<Rightarrow> int" where
  "number_from b acc [] = acc"
| "number_from b acc (c # s) = number_from b (acc * b + digit_value c) s"

text \<open>The group is a number in one of three notations; \<^verbatim>\<open>int(s, 16)\<close> takes the prefix \<^verbatim>\<open>0x\<close>.\<close>

definition parse_int_auto :: "string \<Rightarrow> int res" where
  "parse_int_auto s =
     (if anchored_match HEX_RE s then Inr (number_from 16 0 (drop 2 s))
      else if length s > 1 \<and> s ! 0 = CHR ''0'' \<and> is_digit (s ! 1)
      then (if anchored_match OCTAL_RE s then Inr (number_from 8 0 s) else Inl PyValueError)
      else Inr (number_from 10 0 s))"

definition parse_int_js :: "string \<Rightarrow> int" where
  "parse_int_js s =
     (if py_startswith (py_lower s) ''0x'' then number_from 16 0 (drop 2 s) else number_from 10 0 s)"

text \<open>\<^verbatim>\<open>int(p, 16)\<close> of a part, which may have the white space that \<^verbatim>\<open>$\<close> lets through.\<close>

definition hex_part :: "string \<Rightarrow> int res" where
  "hex_part p =
     (let t = py_strip p
      in if t \<noteq> [] \<and> list_all (in_class HEX) t then Inr (number_from 16 0 t) else Inl PyValueError)"

section \<open>Addresses\<close>

datatype ip_address = IPv4 (ipv4_octets: "int list") | IPv6 (ipv6_parts: "int list") (ipv6_zone: "string option")

definition make_ipv4 :: "int list \<Rightarrow> ip_address res" where
  "make_ipv4 octets =
     (if length octets \<noteq> 4 then Inl PyValueError
      else if list_all (\<lambda>x. 0 \<le> x \<and> x \<le> 255) octets then Inr (IPv4 octets) else Inl PyValueError)"

fun pair_up :: "int list \<Rightarrow> int list" where
  "pair_up (a # b # rest) = (a * 256 + b) # pair_up rest"
| "pair_up rest = []"

text \<open>
  Sixteen parts are taken for bytes, joined with \<^verbatim>\<open>(a << 8) | b\<close>; the parser never makes that many, and
  for bytes the disjunction is the sum.
\<close>

definition make_ipv6 :: "int list \<Rightarrow> string option \<Rightarrow> ip_address res" where
  "make_ipv6 parts zone =
     (let ps = (if length parts = 16 then pair_up parts else parts)
      in if length parts \<noteq> 16 \<and> length parts \<noteq> 8 then Inl PyValueError
         else if list_all (\<lambda>x. 0 \<le> x \<and> x \<le> 65535) ps then Inr (IPv6 ps zone) else Inl PyValueError)"

section \<open>Parsing IPv4\<close>

definition ipv4_groups :: "nat \<Rightarrow> string \<Rightarrow> string list option" where
  "ipv4_groups n s =
     (if anchored_match (IPV4_REGEX n) s then Some (py_split (CHR ''.'') (chop_newline s)) else None)"

definition ipv4_parser :: "string \<Rightarrow> int list option res" where
  "ipv4_parser s =
     (case ipv4_groups 4 s of
        Some gs \<Rightarrow> bind_res (map_res parse_int_auto gs) (\<lambda>os. Inr (Some os))
      | None \<Rightarrow>
     (case ipv4_groups 1 s of
        Some gs \<Rightarrow> bind_res (parse_int_auto (gs ! 0)) (\<lambda>v.
          if v > 0xFFFFFFFF \<or> v < 0 then Inl PyValueError
          else Inr (Some [v div 2 ^ 24 mod 256, v div 2 ^ 16 mod 256, v div 2 ^ 8 mod 256, v mod 256]))
      | None \<Rightarrow>
     (case ipv4_groups 2 s of
        Some gs \<Rightarrow> bind_res (parse_int_auto (gs ! 1)) (\<lambda>v.
          if v > 0xFFFFFF \<or> v < 0 then Inl PyValueError
          else bind_res (parse_int_auto (gs ! 0)) (\<lambda>a.
            Inr (Some [a, v div 2 ^ 16 mod 256, v div 2 ^ 8 mod 256, v mod 256])))
      | None \<Rightarrow>
     (case ipv4_groups 3 s of
        Some gs \<Rightarrow> bind_res (parse_int_auto (gs ! 2)) (\<lambda>v.
          if v > 0xFFFF \<or> v < 0 then Inl PyValueError
          else bind_res (parse_int_auto (gs ! 0)) (\<lambda>a. bind_res (parse_int_auto (gs ! 1)) (\<lambda>b.
            Inr (Some [a, b, v div 2 ^ 8 mod 256, v mod 256]))))
      | None \<Rightarrow> Inr None))))"

definition ipv4_parse :: "string \<Rightarrow> ip_address res" where
  "ipv4_parse s = bind_res (ipv4_parser s) (\<lambda>p. case p of None \<Rightarrow> Inl PyValueError | Some os \<Rightarrow> make_ipv4 os)"

definition ipv4_is_valid :: "string \<Rightarrow> bool" where
  "ipv4_is_valid s \<longleftrightarrow> \<not> isl (ipv4_parse s)"

definition is_valid_four_part_decimal :: "string \<Rightarrow> bool" where
  "is_valid_four_part_decimal s \<longleftrightarrow> ipv4_is_valid s \<and> anchored_match FOUR_PART_DECIMAL_RE s"

text \<open>\<^verbatim>\<open>^(.+)/(\d+)$\<close>: up to the last slash, without a newline, then digits.\<close>

definition split_last :: "char \<Rightarrow> string \<Rightarrow> string \<times> string" where
  "split_last c s = (rev (tl (dropWhile (\<lambda>d. d \<noteq> c) (rev s))), rev (takeWhile (\<lambda>d. d \<noteq> c) (rev s)))"

definition cidr_groups :: "string \<Rightarrow> (string \<times> int) option" where
  "cidr_groups s =
     (if CHR ''/'' \<notin> set s then None
      else case split_last (CHR ''/'') (chop_newline s) of (base, len) \<Rightarrow>
        if base \<noteq> [] \<and> newline \<notin> set base \<and> len \<noteq> [] \<and> list_all is_digit len
        then Some (base, number_from 10 0 len) else None)"

definition ipv4_parse_cidr :: "string \<Rightarrow> (ip_address \<times> int) res" where
  "ipv4_parse_cidr s =
     (case cidr_groups s of
        Some (base, len) \<Rightarrow>
          (if 0 \<le> len \<and> len \<le> 32 then bind_res (ipv4_parse base) (\<lambda>a. Inr (a, len)) else Inl PyValueError)
      | None \<Rightarrow> Inl PyValueError)"

section \<open>Parsing IPv6\<close>

fun occurrences :: "string \<Rightarrow> string \<Rightarrow> nat" where
  "occurrences p [] = 0"
| "occurrences p (c # s) = (if py_startswith (c # s) p then 1 else 0) + occurrences p s"

text \<open>
  \<^verbatim>\<open>find\<close> and \<^verbatim>\<open>rfind\<close> differ when there is more than one occurrence. The text has at most one \<^verbatim>\<open>%\<close>,
  and what follows it is a zone.
\<close>

definition zone_of :: "string \<Rightarrow> string option" where
  "zone_of s =
     (if CHR ''%'' \<in> set s then Some (takeWhile (in_class ALNUM) (tl (dropWhile (\<lambda>c. c \<noteq> CHR ''%'') s))) else None)"

definition drop_zone :: "string \<Rightarrow> string" where
  "drop_zone s =
     (if CHR ''%'' \<in> set s
      then takeWhile (\<lambda>c. c \<noteq> CHR ''%'') s @ (if last s = newline then [newline] else []) else s)"

text \<open>\<^verbatim>\<open>s.replace("::", r, 1)\<close>\<close>

fun replace_double :: "string \<Rightarrow> string \<Rightarrow> string" where
  "replace_double r [] = []"
| "replace_double r (c # s) =
     (if py_startswith (c # s) ''::'' then r @ drop 2 (c # s) else c # replace_double r s)"

definition colon_groups :: "string \<Rightarrow> int" where
  "colon_groups s = int (length (filter (\<lambda>c. c = CHR '':'') s))
     - (if py_startswith s ''::'' then 1 else 0) - (if py_endswith s ''::'' then 1 else 0)"

definition strip_colons :: "string \<Rightarrow> string" where
  "strip_colons s =
     (let t = (if s \<noteq> [] \<and> hd s = CHR '':'' then tl s else s)
      in if t \<noteq> [] \<and> last t = CHR '':'' then butlast t else t)"

definition expand_ipv6 :: "string \<Rightarrow> nat \<Rightarrow> (int list \<times> string option) option res" where
  "expand_ipv6 s num_parts =
     (if occurrences ''::'' s > 1 then Inr None
      else
        (let zone = zone_of s; t = drop_zone s; k = colon_groups t
         in if k > int num_parts then Inr None
            else
              (let fill = CHR '':'' # concat (replicate (nat (int num_parts - k)) ''0:'')
               in bind_res (map_res hex_part (py_split (CHR '':'') (strip_colons (replace_double fill t)))) (\<lambda>ps.
                    Inr (Some (ps, zone))))))"

definition ipv6_transitional :: "string \<Rightarrow> (int list \<times> string option) option res" where
  "ipv6_transitional s =
     (let t = chop_newline s;
          rest = snd (split_last (CHR '':'') t);
          prefix = take (length t - length rest) t;
          zone = dropWhile (\<lambda>c. c \<noteq> CHR ''%'') rest;
          octets = map parse_int_js (py_split (CHR ''.'') (takeWhile (\<lambda>c. c \<noteq> CHR ''%'') rest));
          addr_str = (if py_endswith prefix ''::'' then prefix else butlast prefix)
      in bind_res (expand_ipv6 (addr_str @ zone) 6) (\<lambda>addr.
           case addr of
             None \<Rightarrow> Inr None
           | Some (ps, z) \<Rightarrow>
               (if ps = [] \<or> \<not> list_all (\<lambda>x. 0 \<le> x \<and> x \<le> 255) octets then Inr None
                else Inr (Some (ps @ pair_up octets, z)))))"

text \<open>The deprecated form is parsed again with the prefix of a mapped address, which is transitional.\<close>

definition ipv6_plain_parser :: "string \<Rightarrow> (int list \<times> string option) option res" where
  "ipv6_plain_parser s =
     (if anchored_match NATIVE_RE s then expand_ipv6 s 8
      else if anchored_match TRANSITIONAL_RE s then ipv6_transitional s
      else Inr None)"

definition ipv6_parser :: "string \<Rightarrow> (int list \<times> string option) option res" where
  "ipv6_parser s =
     (if anchored_match DEPRECATED_TRANSITIONAL_RE s
      then ipv6_plain_parser (''::ffff:'' @ drop 2 (chop_newline s))
      else ipv6_plain_parser s)"

definition ipv6_parse :: "string \<Rightarrow> ip_address res" where
  "ipv6_parse s =
     bind_res (ipv6_parser s) (\<lambda>p. case p of None \<Rightarrow> Inl PyValueError | Some (ps, z) \<Rightarrow> make_ipv6 ps z)"

definition ipv6_is_valid :: "string \<Rightarrow> bool" where
  "ipv6_is_valid s \<longleftrightarrow> CHR '':'' \<in> set s \<and> \<not> isl (ipv6_parse s)"

definition ipv6_parse_cidr :: "string \<Rightarrow> (ip_address \<times> int) res" where
  "ipv6_parse_cidr s =
     (case cidr_groups s of
        Some (base, len) \<Rightarrow>
          (if 0 \<le> len \<and> len \<le> 128 then bind_res (ipv6_parse base) (\<lambda>a. Inr (a, len)) else Inl PyValueError)
      | None \<Rightarrow> Inl PyValueError)"

section \<open>Printed forms\<close>

definition ipv4_text :: "int list \<Rightarrow> string" where
  "ipv4_text octets = py_join ''.'' (map str_of_int octets)"

function hex_text :: "int \<Rightarrow> string" where
  "hex_text n = (if n < 16 then [hex_digit (nat n)] else hex_text (n div 16) @ [hex_digit (nat (n mod 16))])"
  by auto
termination by (relation "measure nat") auto

declare hex_text.simps [simp del]

text \<open>
  \<^verbatim>\<open>str(ipaddress.IPv6Address(n))\<close>: the first longest run of zero parts, if it is longer than one, is
  written \<^verbatim>\<open>::\<close>. (Later versions of Python write mapped addresses with dots; the module only prints an
  address after it has turned mapped ones into IPv4.)
\<close>

fun zero_run :: "int list \<Rightarrow> nat" where
  "zero_run [] = 0"
| "zero_run (p # ps) = (if p = 0 then Suc (zero_run ps) else 0)"

fun best_run :: "nat \<Rightarrow> int list \<Rightarrow> nat \<times> nat" where
  "best_run i [] = (0, 0)"
| "best_run i (p # ps) =
     (case best_run (Suc i) ps of (j, n) \<Rightarrow>
        if zero_run (p # ps) \<ge> n \<and> zero_run (p # ps) > 0 then (i, zero_run (p # ps)) else (j, n))"

definition ipv6_text :: "int list \<Rightarrow> string" where
  "ipv6_text ps =
     (case best_run 0 ps of (i, n) \<Rightarrow>
        if n > 1 then py_join '':'' (map hex_text (take i ps)) @ ''::'' @ py_join '':'' (map hex_text (drop (i + n) ps))
        else py_join '':'' (map hex_text ps))"

definition ip_text :: "ip_address \<Rightarrow> string" where
  "ip_text a = (case a of IPv4 os \<Rightarrow> ipv4_text os | IPv6 ps z \<Rightarrow> ipv6_text ps)"

end
