(* ===== verification/IpRanges.thy ===== *)
theory IpRanges
  imports IpAddress
begin

unbundle bit_operations_syntax

text \<open>
  \<^verbatim>\<open>net_policy/ip.py\<close>: matching an address against a prefix, the tables of special ranges, the addresses
  that are blocked, and the IPv4 address that an IPv6 address may carry. An address that the constructors
  made has parts in range (\<open>ip_ok\<close>); for those a prefix match compares the leading bits of two numbers.
\<close>

section \<open>Prefixes\<close>

text \<open>The index \<^verbatim>\<open>part\<close> walks down both lists; past their end it raises.\<close>

fun match_loop :: "int \<Rightarrow> int \<Rightarrow> int list \<Rightarrow> int list \<Rightarrow> bool res" where
  "match_loop width bits (a # as) (b # bs) =
     (if bits > 0
      then (if a div 2 ^ nat (width - bits) \<noteq> b div 2 ^ nat (width - bits) then Inr False
            else match_loop width (bits - width) as bs)
      else Inr True)"
| "match_loop width bits as bs = (if bits > 0 then Inl PyIndexError else Inr True)"

definition match_cidr :: "int list \<Rightarrow> int list \<Rightarrow> int \<Rightarrow> int \<Rightarrow> bool res" where
  "match_cidr first second part_size cidr_bits =
     (if length first \<noteq> length second then Inl PyValueError
      else match_loop part_size cidr_bits first second)"

definition ipv4_match :: "int list \<Rightarrow> ip_address \<Rightarrow> int \<Rightarrow> bool res" where
  "ipv4_match os other bits = (case other of IPv4 qs \<Rightarrow> match_cidr os qs 8 bits | _ \<Rightarrow> Inl PyValueError)"

definition ipv6_match :: "int list \<Rightarrow> ip_address \<Rightarrow> int \<Rightarrow> bool res" where
  "ipv6_match ps other bits = (case other of IPv6 qs _ \<Rightarrow> match_cidr ps qs 16 bits | _ \<Rightarrow> Inl PyValueError)"

definition ip_match :: "ip_address \<Rightarrow> ip_address \<Rightarrow> int \<Rightarrow> bool res" where
  "ip_match a = (case a of IPv4 os \<Rightarrow> ipv4_match os | IPv6 ps _ \<Rightarrow> ipv6_match ps)"

fun same_kind :: "ip_address \<Rightarrow> ip_address \<Rightarrow> bool" where
  "same_kind (IPv4 _) (IPv4 _) = True"
| "same_kind (IPv6 _ _) (IPv6 _ _) = True"
| "same_kind _ _ = False"

section \<open>Special ranges\<close>

type_synonym ranges = "(string \<times> (ip_address \<times> int) list) list"

definition IPV4_SPECIAL_RANGES :: ranges where
  "IPV4_SPECIAL_RANGES =
    [(''unspecified'', [(IPv4 [0, 0, 0, 0], 8)]),
     (''broadcast'', [(IPv4 [255, 255, 255, 255], 32)]),
     (''multicast'', [(IPv4 [224, 0, 0, 0], 4)]),
     (''linkLocal'', [(IPv4 [169, 254, 0, 0], 16)]),
     (''loopback'', [(IPv4 [127, 0, 0, 0], 8)]),
     (''carrierGradeNat'', [(IPv4 [100, 64, 0, 0], 10)]),
     (''private'', [(IPv4 [10, 0, 0, 0], 8), (IPv4 [172, 16, 0, 0], 12), (IPv4 [192, 168, 0, 0], 16)]),
     (''reserved'', [(IPv4 [192, 0, 0, 0], 24), (IPv4 [192, 0, 2, 0], 24), (IPv4 [192, 88, 99, 0], 24),
        (IPv4 [198, 18, 0, 0], 15), (IPv4 [198, 51, 100, 0], 24), (IPv4 [203, 0, 113, 0], 24),
        (IPv4 [240, 0, 0, 0], 4)]),
     (''as112'', [(IPv4 [192, 175, 48, 0], 24), (IPv4 [192, 31, 196, 0], 24)]),
     (''amt'', [(IPv4 [192, 52, 193, 0], 24)])]"

definition IPV6_SPECIAL_RANGES :: ranges where
  "IPV6_SPECIAL_RANGES =
    [(''unspecified'', [(IPv6 [0, 0, 0, 0, 0, 0, 0, 0] None, 128)]),
     (''linkLocal'', [(IPv6 [0xFE80, 0, 0, 0, 0, 0, 0, 0] None, 10)]),
     (''multicast'', [(IPv6 [0xFF00, 0, 0, 0, 0, 0, 0, 0] None, 8)]),
     (''loopback'', [(IPv6 [0, 0, 0, 0, 0, 0, 0, 1] None, 128)]),
     (''uniqueLocal'', [(IPv6 [0xFC00, 0, 0, 0, 0, 0, 0, 0] None, 7)]),
     (''ipv4Mapped'', [(IPv6 [0, 0, 0, 0, 0, 0xFFFF, 0, 0] None, 96)]),
     (''deprecatedSiteLocal'', [(IPv6 [0xFEC0, 0, 0, 0, 0, 0, 0, 0] None, 10)]),
     (''discard'', [(IPv6 [0x0100, 0, 0, 0, 0, 0, 0, 0] None, 64)]),
     (''rfc6145'', [(IPv6 [0, 0, 0, 0, 0xFFFF, 0, 0, 0] None, 96)]),
     (''rfc6052'', [(IPv6 [0x64, 0xFF9B, 0, 0, 0, 0, 0, 0] None, 96),
        (IPv6 [0x64, 0xFF9B, 0x1, 0, 0, 0, 0, 0] None, 48)]),
     (''6to4'', [(IPv6 [0x2002, 0, 0, 0, 0, 0, 0, 0] None, 16)]),
     (''teredo'', [(IPv6 [0x2001, 0, 0, 0, 0, 0, 0, 0] None, 32)]),
     (''benchmarking'', [(IPv6 [0x2001, 0x2, 0, 0, 0, 0, 0, 0] None, 48)]),
     (''amt'', [(IPv6 [0x2001, 0x3, 0, 0, 0, 0, 0, 0] None, 32)]),
     (''as112v6'', [(IPv6 [0x2001, 0x4, 0x112, 0, 0, 0, 0, 0] None, 48),
        (IPv6 [0x2620, 0x4F, 0x8000, 0, 0, 0, 0, 0] None, 48)]),
     (''deprecatedOrchid'', [(IPv6 [0x2001, 0x10, 0, 0, 0, 0, 0, 0] None, 28)]),
     (''orchid2'', [(IPv6 [0x2001, 0x20, 0, 0, 0, 0, 0, 0] None, 28)]),
     (''droneRemoteIdProtocolEntityTags'', [(IPv6 [0x2001, 0x30, 0, 0, 0, 0, 0, 0] None, 28)]),
     (''segmentRouting'', [(IPv6 [0x5F00, 0, 0, 0, 0, 0, 0, 0] None, 16)]),
     (''reserved'', [(IPv6 [0x2001, 0, 0, 0, 0, 0, 0, 0] None, 23), (IPv6 [0x2001, 0xDB8, 0, 0, 0, 0, 0, 0] None, 32),
        (IPv6 [0x3FFF, 0, 0, 0, 0, 0, 0, 0] None, 20)])]"

fun in_subnets :: "ip_address \<Rightarrow> (ip_address \<times> int) list \<Rightarrow> bool res" where
  "in_subnets a [] = Inr False"
| "in_subnets a ((subnet, prefix) # rest) =
     bind_res (ip_match a subnet prefix) (\<lambda>m. if m then Inr True else in_subnets a rest)"

fun range_in :: "ip_address \<Rightarrow> ranges \<Rightarrow> string res" where
  "range_in a [] = Inr ''unicast''"
| "range_in a ((name, subnets) # rest) =
     bind_res (in_subnets a subnets) (\<lambda>m. if m then Inr name else range_in a rest)"

definition ipv4_range :: "int list \<Rightarrow> string res" where
  "ipv4_range os = range_in (IPv4 os) IPV4_SPECIAL_RANGES"

definition ipv6_range :: "int list \<Rightarrow> string res" where
  "ipv6_range ps = range_in (IPv6 ps None) IPV6_SPECIAL_RANGES"

definition ip_range :: "ip_address \<Rightarrow> string res" where
  "ip_range a = (case a of IPv4 os \<Rightarrow> ipv4_range os | IPv6 ps _ \<Rightarrow> ipv6_range ps)"

section \<open>Addresses that carry others\<close>

definition decode_ipv4_from_hextets :: "int \<Rightarrow> int \<Rightarrow> ip_address res" where
  "decode_ipv4_from_hextets high low =
     make_ipv4 [high div 256 mod 256, high mod 256, low div 256 mod 256, low mod 256]"

definition is_ipv4_mapped_address :: "int list \<Rightarrow> bool res" where
  "is_ipv4_mapped_address ps = bind_res (ipv6_range ps) (\<lambda>r. Inr (r = ''ipv4Mapped''))"

definition to_ipv4_address :: "int list \<Rightarrow> ip_address res" where
  "to_ipv4_address ps =
     bind_res (is_ipv4_mapped_address ps) (\<lambda>m.
       if \<not> m then Inl PyValueError
       else make_ipv4 [ps ! (length ps - 2) div 256 mod 256, ps ! (length ps - 2) mod 256,
              last ps div 256 mod 256, last ps mod 256])"

text \<open>The rules are tried in the order of the list.\<close>

definition embedded_hextets :: "int list \<Rightarrow> (int \<times> int) option" where
  "embedded_hextets p =
     (if p ! 0 = 0 \<and> p ! 1 = 0 \<and> p ! 2 = 0 \<and> p ! 3 = 0 \<and> p ! 4 = 0 \<and> p ! 5 = 0 then Some (p ! 6, p ! 7)
      else if p ! 0 = 0x64 \<and> p ! 1 = 0xFF9B \<and> p ! 2 = 1 \<and> p ! 3 = 0 \<and> p ! 4 = 0 \<and> p ! 5 = 0 then Some (p ! 6, p ! 7)
      else if p ! 0 = 0x2002 then Some (p ! 1, p ! 2)
      else if p ! 0 = 0x2001 \<and> p ! 1 = 0 then Some (p ! 6 XOR 0xFFFF, p ! 7 XOR 0xFFFF)
      else if p ! 4 AND 0xFCFF = 0 \<and> p ! 5 = 0x5EFE then Some (p ! 6, p ! 7)
      else None)"

definition extract_embedded_ipv4_from_ipv6 :: "int list \<Rightarrow> ip_address option res" where
  "extract_embedded_ipv4_from_ipv6 ps =
     bind_res (is_ipv4_mapped_address ps) (\<lambda>m.
       if m then bind_res (to_ipv4_address ps) (\<lambda>a. Inr (Some a))
       else bind_res (ipv6_range ps) (\<lambda>r.
         if r = ''rfc6145'' \<or> r = ''rfc6052''
         then bind_res (decode_ipv4_from_hextets (ps ! 6) (ps ! 7)) (\<lambda>a. Inr (Some a))
         else case embedded_hextets ps of
             Some (high, low) \<Rightarrow> bind_res (decode_ipv4_from_hextets high low) (\<lambda>a. Inr (Some a))
           | None \<Rightarrow> Inr None))"

definition normalize_ipv4_mapped_address :: "ip_address \<Rightarrow> ip_address res" where
  "normalize_ipv4_mapped_address a =
     (case a of
        IPv4 os \<Rightarrow> Inr a
      | IPv6 ps z \<Rightarrow> bind_res (is_ipv4_mapped_address ps) (\<lambda>m. if m then to_ipv4_address ps else Inr a))"

section \<open>Blocked addresses\<close>

type_synonym block_options = "(string, pyval) dict option"

definition option_is_true :: "block_options \<Rightarrow> string \<Rightarrow> bool" where
  "option_is_true opts name =
     (case opts of None \<Rightarrow> False | Some d \<Rightarrow> dict_get d name = Some (VBool True))"

definition BLOCKED_IPV4_SPECIAL_USE_RANGES :: "string list" where
  "BLOCKED_IPV4_SPECIAL_USE_RANGES =
     [''unspecified'', ''broadcast'', ''multicast'', ''linkLocal'', ''loopback'', ''carrierGradeNat'',
      ''private'', ''reserved'']"

definition PRIVATE_OR_LOOPBACK_IPV4_RANGES :: "string list" where
  "PRIVATE_OR_LOOPBACK_IPV4_RANGES = [''loopback'', ''private'', ''linkLocal'', ''carrierGradeNat'']"

definition BLOCKED_IPV6_SPECIAL_USE_RANGES :: "string list" where
  "BLOCKED_IPV6_SPECIAL_USE_RANGES =
     [''unspecified'', ''loopback'', ''linkLocal'', ''uniqueLocal'', ''multicast'', ''reserved'',
      ''benchmarking'', ''discard'', ''orchid2'']"

text \<open>\<^verbatim>\<open>IPv4.parse("198.18.0.0")\<close>\<close>

definition RFC2544_BENCHMARK_PREFIX :: "ip_address \<times> int" where
  "RFC2544_BENCHMARK_PREFIX = (IPv4 [198, 18, 0, 0], 15)"

definition is_blocked_special_use_ipv4_address :: "int list \<Rightarrow> block_options \<Rightarrow> bool res" where
  "is_blocked_special_use_ipv4_address os opts =
     bind_res (ipv4_match os (fst RFC2544_BENCHMARK_PREFIX) (snd RFC2544_BENCHMARK_PREFIX)) (\<lambda>in_rfc2544.
       if in_rfc2544 \<and> option_is_true opts ''allowRfc2544BenchmarkRange'' then Inr False
       else bind_res (ipv4_range os) (\<lambda>r. Inr (r \<in> set BLOCKED_IPV4_SPECIAL_USE_RANGES \<or> in_rfc2544)))"

definition is_blocked_special_use_ipv6_address :: "int list \<Rightarrow> block_options \<Rightarrow> bool res" where
  "is_blocked_special_use_ipv6_address ps opts =
     bind_res (ipv6_range ps) (\<lambda>r.
       if r = ''uniqueLocal'' \<and> option_is_true opts ''allowUniqueLocalRange'' then Inr False
       else Inr (r \<in> set BLOCKED_IPV6_SPECIAL_USE_RANGES \<or> ps ! 0 AND 0xFFC0 = 0xFEC0))"

section \<open>Prefixes as numbers\<close>

fun number_of_parts :: "nat \<Rightarrow> int list \<Rightarrow> int" where
  "number_of_parts w [] = 0"
| "number_of_parts w (x # xs) = x * 2 ^ (w * length xs) + number_of_parts w xs"

definition parts_ok :: "nat \<Rightarrow> int list \<Rightarrow> bool" where
  "parts_ok w xs \<longleftrightarrow> list_all (\<lambda>x. 0 \<le> x \<and> x < 2 ^ w) xs"

definition ip_ok :: "ip_address \<Rightarrow> bool" where
  "ip_ok a = (case a of IPv4 os \<Rightarrow> length os = 4 \<and> parts_ok 8 os | IPv6 ps _ \<Rightarrow> length ps = 8 \<and> parts_ok 16 ps)"

lemma parts_ok_Nil [simp]: "parts_ok w []"
  by (simp add: parts_ok_def)

lemma parts_ok_Cons [simp]: "parts_ok w (x # xs) \<longleftrightarrow> 0 \<le> x \<and> x < 2 ^ w \<and> parts_ok w xs"
  by (auto simp: parts_ok_def)

lemma number_of_parts_bounds:
  "parts_ok w xs \<Longrightarrow> 0 \<le> number_of_parts w xs \<and> number_of_parts w xs < 2 ^ (w * length xs)"
proof (induction xs)
  case (Cons x xs)
  let ?B = "(2::int) ^ (w * length xs)"
  from Cons have n: "0 \<le> number_of_parts w xs" "number_of_parts w xs < ?B" and x: "0 \<le> x" "x \<le> 2 ^ w - 1"
    by auto
  from x(2) have "x * ?B \<le> (2 ^ w - 1) * ?B" by (intro mult_right_mono) auto
  also have "\<dots> = 2 ^ (w * length (x # xs)) - ?B" by (simp add: power_add algebra_simps)
  finally show ?case using n x by simp
qed simp

text \<open>The leading bits of a number whose low digit is below a bound.\<close>

lemma leading_bits_high:
  fixes x r :: int
  assumes "0 \<le> r" "r < 2 ^ m"
  shows "(x * 2 ^ m + r) div 2 ^ (m + k) = x div 2 ^ k"
proof -
  have "(x * 2 ^ m + r) div 2 ^ (m + k) = (x * 2 ^ m + r) div 2 ^ m div 2 ^ k"
    by (simp add: power_add zdiv_zmult2_eq)
  also have "(x * 2 ^ m + r) div 2 ^ m = x"
    using assms by simp
  finally show ?thesis .
qed

lemma leading_bits_split:
  fixes z t :: int
  assumes "k \<le> m"
  shows "(z * 2 ^ m + t) div 2 ^ k = z * 2 ^ (m - k) + t div 2 ^ k"
proof -
  have "(z * 2 ^ m + t) div 2 ^ k = (t + (z * 2 ^ (m - k)) * 2 ^ k) div 2 ^ k"
    using assms by (simp add: mult.assoc flip: power_add) (simp add: add.commute)
  then show ?thesis by simp
qed

lemma leading_bits_low:
  fixes x r y q :: int
  assumes "0 \<le> r" "r < 2 ^ m" "0 \<le> q" "q < 2 ^ m" "k \<le> m"
  shows "(x * 2 ^ m + r) div 2 ^ k = (y * 2 ^ m + q) div 2 ^ k \<longleftrightarrow> x = y \<and> r div 2 ^ k = q div 2 ^ k"
proof
  assume eq: "(x * 2 ^ m + r) div 2 ^ k = (y * 2 ^ m + q) div 2 ^ k"
  have "(x * 2 ^ m + r) div 2 ^ (k + (m - k)) = (y * 2 ^ m + q) div 2 ^ (k + (m - k))"
    by (simp only: power_add zdiv_zmult2_eq zero_le_power zero_le_numeral eq)
  with assms have "x = y" by simp
  with eq \<open>k \<le> m\<close> show "x = y \<and> r div 2 ^ k = q div 2 ^ k" by (simp add: leading_bits_split)
qed (simp add: leading_bits_split [OF \<open>k \<le> m\<close>])

lemma match_loop_done [simp]: "bits \<le> 0 \<Longrightarrow> match_loop w bits xs ys = Inr True"
  by (cases xs; cases ys) auto

text \<open>The loop over the parts compares the leading bits of the two numbers.\<close>

lemma match_loop_prefix:
  assumes "length ys = length xs" "parts_ok w xs" "parts_ok w ys" "k \<le> w * length xs"
  shows "match_loop (int w) (int k) xs ys =
    Inr (number_of_parts w xs div 2 ^ (w * length xs - k) = number_of_parts w ys div 2 ^ (w * length xs - k))"
  using assms
proof (induction xs arbitrary: ys k)
  case (Cons x xs)
  from Cons.prems(1) obtain y zs where ys: "ys = y # zs" and len: "length zs = length xs" by (cases ys) auto
  let ?m = "w * length xs"
  from Cons.prems have ok: "parts_ok w xs" "parts_ok w zs" by (simp_all add: ys)
  have bounds: "0 \<le> number_of_parts w xs" "number_of_parts w xs < 2 ^ ?m"
      "0 \<le> number_of_parts w zs" "number_of_parts w zs < 2 ^ ?m"
    using number_of_parts_bounds [OF ok(1)] number_of_parts_bounds [OF ok(2)] by (simp_all add: len)
  show ?case
  proof (cases "k \<le> w")
    case True
    then have e: "w * length (x # xs) - k = ?m + (w - k)" and s: "nat (int w - int k) = w - k" by simp_all
    have "number_of_parts w (x # xs) div 2 ^ (?m + (w - k)) = x div 2 ^ (w - k)"
      "number_of_parts w ys div 2 ^ (?m + (w - k)) = y div 2 ^ (w - k)"
      using bounds by (simp_all add: ys len leading_bits_high)
    moreover have "x div 2 ^ w = 0" "y div 2 ^ w = 0" using Cons.prems by (simp_all add: ys)
    ultimately show ?thesis unfolding e using True
      by (cases "k = 0") (simp_all add: ys s del: number_of_parts.simps)
  next
    case False
    then have s: "nat (int w - int k) = 0" and i: "int k - int w = int (k - w)"
      and e: "w * length (x # xs) - k = ?m - (k - w)" and le: "k - w \<le> ?m"
      using Cons.prems(4) by auto
    have "match_loop (int w) (int k) (x # xs) ys =
        (if x \<noteq> y then Inr False else match_loop (int w) (int (k - w)) xs zs)"
      using False by (simp add: ys s i del: of_nat_diff)
    moreover have "number_of_parts w (x # xs) div 2 ^ (?m - (k - w)) = number_of_parts w ys div 2 ^ (?m - (k - w)) \<longleftrightarrow>
        x = y \<and> number_of_parts w xs div 2 ^ (?m - (k - w)) = number_of_parts w zs div 2 ^ (?m - (k - w))"
      using leading_bits_low [OF bounds, of "?m - (k - w)" x y] by (simp add: ys len)
    ultimately show ?thesis unfolding e Cons.IH [OF len ok le] by simp
  qed
qed simp

text \<open>A prefix that is longer than the address is an error when all the parts agree.\<close>

lemma match_loop_beyond:
  "int w * int (length xs) < bits \<Longrightarrow> length ys = length xs \<Longrightarrow>
    match_loop (int w) bits xs ys = (if xs = ys then Inl PyIndexError else Inr False)"
proof (induction xs arbitrary: ys bits)
  case (Cons x xs)
  from Cons.prems(2) obtain y zs where ys: "ys = y # zs" and len: "length zs = length xs" by (cases ys) auto
  have "0 \<le> int w * int (length xs)" by simp
  moreover have "int w + int w * int (length xs) < bits" using Cons.prems(1) by (simp add: algebra_simps)
  ultimately have "0 < bits" "nat (int w - bits) = 0" "int w * int (length xs) < bits - int w"
    by linarith+
  moreover from this(3) len have "match_loop (int w) (bits - int w) xs zs =
      (if xs = zs then Inl PyIndexError else Inr False)" by (rule Cons.IH)
  ultimately have "match_loop (int w) bits (x # xs) (y # zs) =
      (if x \<noteq> y then Inr False else if xs = zs then Inl PyIndexError else Inr False)" by simp
  then show ?case by (simp add: ys)
qed simp

section \<open>The tables are total\<close>

definition ip_width :: "ip_address \<Rightarrow> nat" where
  "ip_width a = (case a of IPv4 _ \<Rightarrow> 32 | IPv6 _ _ \<Rightarrow> 128)"

definition ip_number :: "ip_address \<Rightarrow> int" where
  "ip_number a = (case a of IPv4 os \<Rightarrow> number_of_parts 8 os | IPv6 ps _ \<Rightarrow> number_of_parts 16 ps)"

definition same_prefix :: "ip_address \<Rightarrow> ip_address \<Rightarrow> nat \<Rightarrow> bool" where
  "same_prefix a b k \<longleftrightarrow>
     same_kind a b \<and> ip_number a div 2 ^ (ip_width a - k) = ip_number b div 2 ^ (ip_width a - k)"

lemma ip_match_prefix:
  assumes "ip_ok a" "ip_ok b" "same_kind a b" "k \<le> ip_width a"
  shows "ip_match a b (int k) = Inr (same_prefix a b k)"
proof (cases a)
  case (IPv4 os)
  then obtain qs where b: "b = IPv4 qs" using assms(3) by (cases b) auto
  have "match_loop (int 8) (int k) os qs =
      Inr (number_of_parts 8 os div 2 ^ (8 * length os - k) = number_of_parts 8 qs div 2 ^ (8 * length os - k))"
    by (rule match_loop_prefix) (use assms IPv4 b in \<open>auto simp: ip_ok_def ip_width_def\<close>)
  then show ?thesis
    using assms IPv4 b
    by (simp add: ip_match_def ipv4_match_def match_cidr_def same_prefix_def ip_number_def ip_ok_def ip_width_def)
next
  case (IPv6 ps z)
  then obtain qs y where b: "b = IPv6 qs y" using assms(3) by (cases b) auto
  have "match_loop (int 16) (int k) ps qs =
      Inr (number_of_parts 16 ps div 2 ^ (16 * length ps - k) = number_of_parts 16 qs div 2 ^ (16 * length ps - k))"
    by (rule match_loop_prefix) (use assms IPv6 b in \<open>auto simp: ip_ok_def ip_width_def\<close>)
  then show ?thesis
    using assms IPv6 b
    by (simp add: ip_match_def ipv6_match_def match_cidr_def same_prefix_def ip_number_def ip_ok_def ip_width_def)
qed

definition subnet_ok :: "ip_address \<Rightarrow> ip_address \<times> int \<Rightarrow> bool" where
  "subnet_ok a s \<longleftrightarrow> same_kind a (fst s) \<and> ip_ok (fst s) \<and> 0 \<le> snd s \<and> snd s \<le> int (ip_width a)"

lemma in_subnets_spec:
  "ip_ok a \<Longrightarrow> list_all (subnet_ok a) subnets \<Longrightarrow>
    in_subnets a subnets = Inr (\<exists>s\<in>set subnets. same_prefix a (fst s) (nat (snd s)))"
proof (induction subnets)
  case (Cons s subnets)
  from Cons.prems have "ip_match a (fst s) (int (nat (snd s))) = Inr (same_prefix a (fst s) (nat (snd s)))"
    by (intro ip_match_prefix) (auto simp: subnet_ok_def)
  with Cons show ?case by (cases s) (simp add: subnet_ok_def)
qed simp

lemma range_in_spec:
  "ip_ok a \<Longrightarrow> list_all (\<lambda>r. list_all (subnet_ok a) (snd r)) rs \<Longrightarrow>
    \<exists>name. range_in a rs = Inr name \<and> (name = ''unicast'' \<or> name \<in> fst ` set rs)"
proof (induction rs)
  case (Cons r rs)
  then show ?case by (cases r) (auto simp: in_subnets_spec)
qed simp

lemma ipv4_table_ok: "list_all (\<lambda>r. list_all (subnet_ok (IPv4 os)) (snd r)) IPV4_SPECIAL_RANGES"
  by (simp add: IPV4_SPECIAL_RANGES_def subnet_ok_def ip_ok_def ip_width_def)

lemma ipv6_table_ok: "list_all (\<lambda>r. list_all (subnet_ok (IPv6 ps z)) (snd r)) IPV6_SPECIAL_RANGES"
  by (simp add: IPV6_SPECIAL_RANGES_def subnet_ok_def ip_ok_def ip_width_def)

lemma ipv4_range_total: "ip_ok (IPv4 os) \<Longrightarrow> \<exists>name. ipv4_range os = Inr name"
  unfolding ipv4_range_def using range_in_spec [OF _ ipv4_table_ok] by blast

lemma ipv6_range_total: "ip_ok (IPv6 ps z) \<Longrightarrow> \<exists>name. ipv6_range ps = Inr name"
  unfolding ipv6_range_def using range_in_spec [OF _ ipv6_table_ok, of ps None] by (auto simp: ip_ok_def)

lemma range_in_member:
  "range_in a rs = Inr name \<Longrightarrow>
    name = ''unicast'' \<or> (\<exists>subnets. (name, subnets) \<in> set rs \<and> in_subnets a subnets = Inr True)"
proof (induction rs)
  case (Cons r rs)
  then show ?case by (cases r) (auto simp: bind_res_eq_Inr split: if_splits)
qed simp

section \<open>Mapped addresses\<close>

lemma length_8_eq: "length xs = 8 \<longleftrightarrow> (\<exists>a b c d e f g h. xs = [a, b, c, d, e, f, g, h])"
  by (auto simp: eval_nat_numeral length_Suc_conv)

lemma length_4_eq: "length xs = 4 \<longleftrightarrow> (\<exists>a b c d. xs = [a, b, c, d])"
  by (auto simp: eval_nat_numeral length_Suc_conv)

lemma mapped_iff:
  assumes "ip_ok (IPv6 ps z)"
  shows "is_ipv4_mapped_address ps = Inr (take 6 ps = [0, 0, 0, 0, 0, 65535])"
proof -
  from assms obtain name where name: "ipv6_range ps = Inr name" using ipv6_range_total by blast
  have "name = ''ipv4Mapped'' \<longleftrightarrow> take 6 ps = [0, 0, 0, 0, 0, 65535]"
  proof
    assume n: "name = ''ipv4Mapped''"
    from name have "\<exists>subnets. (name, subnets) \<in> set IPV6_SPECIAL_RANGES \<and> in_subnets (IPv6 ps None) subnets = Inr True"
      unfolding ipv6_range_def by (auto dest: range_in_member simp: n)
    then have "ip_match (IPv6 ps None) (IPv6 [0, 0, 0, 0, 0, 0xFFFF, 0, 0] None) 96 = Inr True"
      by (auto simp: IPV6_SPECIAL_RANGES_def n bind_res_eq_Inr split: if_splits)
    then show "take 6 ps = [0, 0, 0, 0, 0, 65535]"
      using assms by (auto simp: ip_ok_def length_8_eq ip_match_def ipv6_match_def match_cidr_def split: if_splits)
  next
    assume "take 6 ps = [0, 0, 0, 0, 0, 65535]"
    then obtain g h where "ps = [0, 0, 0, 0, 0, 65535, g, h]" using assms by (auto simp: ip_ok_def length_8_eq)
    then have "ipv6_range ps = Inr ''ipv4Mapped''"
      by (simp add: ipv6_range_def IPV6_SPECIAL_RANGES_def ip_match_def ipv6_match_def match_cidr_def)
    with name show "name = ''ipv4Mapped''" by simp
  qed
  then show ?thesis by (simp add: is_ipv4_mapped_address_def name)
qed

lemma high_byte: "0 \<le> (g::int) \<Longrightarrow> g < 65536 \<Longrightarrow> g div 256 mod 256 = g div 256"
  by (rule mod_pos_pos_trivial) (simp_all add: div_less_iff_less_mult)

lemma byte_bounds:
  "0 \<le> (g::int) \<Longrightarrow> g < 65536 \<Longrightarrow> 0 \<le> g div 256 \<and> g div 256 \<le> 255"
  "0 \<le> (g::int) mod 256 \<and> g mod 256 \<le> 255"
  by simp_all presburger

lemma mapped_to_ipv4:
  assumes "ip_ok (IPv6 [0, 0, 0, 0, 0, 65535, g, h] z)"
  shows "to_ipv4_address [0, 0, 0, 0, 0, 65535, g, h] = Inr (IPv4 [g div 256, g mod 256, h div 256, h mod 256])"
proof -
  from assms have g: "0 \<le> g" "g < 65536" and h: "0 \<le> h" "h < 65536" by (simp_all add: ip_ok_def)
  then show ?thesis
    by (simp add: high_byte byte_bounds to_ipv4_address_def mapped_iff [OF assms] make_ipv4_def)
qed

end
