(* ===== verification/IpPolicy.thy ===== *)
theory IpPolicy
  imports IpRanges
begin

text \<open>
  \<^verbatim>\<open>net_policy/ip.py\<close>: the functions that take an address as text. The argument is a Python value, which
  \<^verbatim>\<open>_normalize_optional_string\<close> tests for being a string. A \<^verbatim>\<open>try\<close> whose handler takes every exception
  is a case on the result.
\<close>

section \<open>Texts of either kind\<close>

definition ip_is_valid :: "string \<Rightarrow> bool" where
  "ip_is_valid s \<longleftrightarrow> ipv6_is_valid s \<or> ipv4_is_valid s"

definition ip_parse :: "string \<Rightarrow> ip_address res" where
  "ip_parse s =
     (if ipv6_is_valid s then ipv6_parse s else if ipv4_is_valid s then ipv4_parse s else Inl PyValueError)"

definition ip_parse_cidr :: "string \<Rightarrow> (ip_address \<times> int) res" where
  "ip_parse_cidr s =
     (case ipv6_parse_cidr s of
        Inr r \<Rightarrow> Inr r
      | Inl _ \<Rightarrow> (case ipv4_parse_cidr s of Inr r \<Rightarrow> Inr r | Inl _ \<Rightarrow> Inl PyValueError))"

definition trimmed_string :: "pyval \<Rightarrow> string option" where
  "trimmed_string v =
     (case v of VStr s \<Rightarrow> (if py_strip s = [] then None else Some (py_strip s)) | _ \<Rightarrow> None)"

definition strip_ipv6_brackets :: "string \<Rightarrow> string" where
  "strip_ipv6_brackets s =
     (if py_startswith s ''['' \<and> py_endswith s '']'' then butlast (tl s) else s)"

definition normalize_ip_parse_input :: "pyval \<Rightarrow> string option" where
  "normalize_ip_parse_input raw =
     (case trimmed_string raw of
        None \<Rightarrow> None
      | Some t \<Rightarrow> Some (strip_ipv6_brackets t))"

text \<open>
  \<^verbatim>\<open>^(.*:)([^:%]+(?:\.[^:%]+){3})(%[0-9A-Za-z]+)?$\<close>: the second group has no colon, so the first ends
  with the last one; the third group is the only place for a percent sign.
\<close>

definition NOT_COLON_PERCENT :: rexp where
  "NOT_COLON_PERCENT = some_of (Class [(0, 36), (38, 57), (59, 255)])"

definition EMBEDDED_RE :: rexp where
  "EMBEDDED_RE = seq_re [Many (Class [(0, 9), (11, 255)]), char_re (CHR '':''),
     dotted (replicate 4 NOT_COLON_PERCENT), maybe ZONE_INDEX]"

definition embedded_groups :: "string \<Rightarrow> (string \<times> string \<times> string) option" where
  "embedded_groups raw =
     (if \<not> anchored_match EMBEDDED_RE raw then None
      else let rest = snd (split_last (CHR '':'') raw);
               zone = dropWhile (\<lambda>c. c \<noteq> CHR ''%'') rest
           in Some (take (length raw - length rest) raw, takeWhile (\<lambda>c. c \<noteq> CHR ''%'') rest, chop_newline zone))"

definition decimal_of :: "string \<Rightarrow> int" where
  "decimal_of p = number_from 10 0 (py_strip p)"

definition parse_ipv6_with_embedded_ipv4 :: "string \<Rightarrow> ip_address option res" where
  "parse_ipv6_with_embedded_ipv4 raw =
     (if CHR '':'' \<notin> set raw \<or> CHR ''.'' \<notin> set raw then Inr None
      else case embedded_groups raw of
          None \<Rightarrow> Inr None
        | Some (prefix, embedded, zone) \<Rightarrow>
            (if \<not> is_valid_four_part_decimal embedded then Inr None
             else let octets = map decimal_of (py_split (CHR ''.'') embedded);
                      high = hex_text (octets ! 0 * 256 + octets ! 1);
                      low = hex_text (octets ! 2 * 256 + octets ! 3);
                      text = prefix @ high @ '':'' @ low @ zone
                  in if \<not> ipv6_is_valid text then Inr None
                     else bind_res (ipv6_parse text) (\<lambda>a. Inr (Some a))))"

section \<open>Canonical and loose parsing\<close>

definition some_res :: "'a res \<Rightarrow> 'a option res" where
  "some_res m = bind_res m (\<lambda>a. Inr (Some a))"

definition parse_canonical_ip_address :: "pyval \<Rightarrow> ip_address option res" where
  "parse_canonical_ip_address raw =
     (case normalize_ip_parse_input raw of
        None \<Rightarrow> Inr None
      | Some s \<Rightarrow>
          (if s = [] then Inr None
           else if ipv4_is_valid s
           then (if \<not> is_valid_four_part_decimal s then Inr None else some_res (ipv4_parse s))
           else if ipv6_is_valid s then some_res (ipv6_parse s)
           else parse_ipv6_with_embedded_ipv4 s))"

definition parse_loose_ip_address :: "pyval \<Rightarrow> ip_address option res" where
  "parse_loose_ip_address raw =
     (case normalize_ip_parse_input raw of
        None \<Rightarrow> Inr None
      | Some s \<Rightarrow>
          (if s = [] then Inr None
           else if ip_is_valid s then some_res (ip_parse s)
           else parse_ipv6_with_embedded_ipv4 s))"

text \<open>\<^verbatim>\<open>if not parsed: return d\<close>, and otherwise the rest.\<close>

definition when_parsed :: "ip_address option res \<Rightarrow> 'a \<Rightarrow> (ip_address \<Rightarrow> 'a res) \<Rightarrow> 'a res" where
  "when_parsed m d f = bind_res m (\<lambda>p. case p of None \<Rightarrow> Inr d | Some a \<Rightarrow> f a)"

definition normalize_ip_address :: "pyval \<Rightarrow> string option res" where
  "normalize_ip_address raw =
     when_parsed (parse_canonical_ip_address raw) None (\<lambda>a.
       bind_res (normalize_ipv4_mapped_address a) (\<lambda>n. Inr (Some (py_lower (py_strip (ip_text n))))))"

definition is_canonical_dotted_decimal_ipv4 :: "pyval \<Rightarrow> bool" where
  "is_canonical_dotted_decimal_ipv4 raw =
     (case trimmed_string raw of
        None \<Rightarrow> False
      | Some t \<Rightarrow> strip_ipv6_brackets t \<noteq> [] \<and> is_valid_four_part_decimal (strip_ipv6_brackets t))"

definition is_numeric_ipv4_literal_part :: "string \<Rightarrow> bool" where
  "is_numeric_ipv4_literal_part s \<longleftrightarrow> anchored_match (some_of (Class DIGITS)) s \<or> anchored_match HEX_RE s"

definition is_legacy_ipv4_literal :: "pyval \<Rightarrow> bool" where
  "is_legacy_ipv4_literal raw =
     (case trimmed_string raw of
        None \<Rightarrow> False
      | Some t \<Rightarrow>
          (let s = strip_ipv6_brackets t; parts = py_split (CHR ''.'') s
           in if s = [] \<or> CHR '':'' \<in> set s then False
              else if is_canonical_dotted_decimal_ipv4 (VStr s) then False
              else if length parts = 0 \<or> length parts > 4 then False
              else if list_ex (\<lambda>p. p = []) parts then False
              else list_all is_numeric_ipv4_literal_part parts))"

section \<open>Questions about a text\<close>

definition is_loopback_ip_address :: "pyval \<Rightarrow> bool res" where
  "is_loopback_ip_address raw =
     when_parsed (parse_canonical_ip_address raw) False (\<lambda>a.
       bind_res (normalize_ipv4_mapped_address a) (\<lambda>n. bind_res (ip_range n) (\<lambda>r. Inr (r = ''loopback''))))"

definition is_link_local_ip_address :: "pyval \<Rightarrow> bool res" where
  "is_link_local_ip_address raw =
     when_parsed (parse_loose_ip_address raw) False (\<lambda>a.
       bind_res (normalize_ipv4_mapped_address a) (\<lambda>n.
         case n of
           IPv4 os \<Rightarrow> bind_res (ipv4_range os) (\<lambda>r. Inr (r = ''linkLocal''))
         | IPv6 ps z \<Rightarrow>
             bind_res (extract_embedded_ipv4_from_ipv6 ps) (\<lambda>e.
             bind_res (case e of None \<Rightarrow> Inr False | Some b \<Rightarrow> bind_res (ip_range b) (\<lambda>r. Inr (r = ''linkLocal''))) (\<lambda>m.
               if m then Inr True else bind_res (ipv6_range ps) (\<lambda>r. Inr (r = ''linkLocal''))))))"

definition CLOUD_METADATA_IP_ADDRESSES :: "string list" where
  "CLOUD_METADATA_IP_ADDRESSES = [''100.100.100.200'', ''fd00:ec2::254'']"

definition is_cloud_metadata_ip_address :: "pyval \<Rightarrow> bool res" where
  "is_cloud_metadata_ip_address raw =
     when_parsed (parse_loose_ip_address raw) False (\<lambda>a.
       bind_res (normalize_ipv4_mapped_address a) (\<lambda>n.
         bind_res (case n of
             IPv4 os \<Rightarrow> Inr False
           | IPv6 ps z \<Rightarrow> bind_res (extract_embedded_ipv4_from_ipv6 ps) (\<lambda>e.
               Inr (case e of None \<Rightarrow> False | Some b \<Rightarrow> ip_text b \<in> set CLOUD_METADATA_IP_ADDRESSES))) (\<lambda>m.
           if m then Inr True else Inr (ip_text n \<in> set CLOUD_METADATA_IP_ADDRESSES))))"

definition is_private_or_loopback_ip_address :: "pyval \<Rightarrow> bool res" where
  "is_private_or_loopback_ip_address raw =
     when_parsed (parse_canonical_ip_address raw) False (\<lambda>a.
       bind_res (normalize_ipv4_mapped_address a) (\<lambda>n.
         case n of
           IPv4 os \<Rightarrow> bind_res (ipv4_range os) (\<lambda>r. Inr (r \<in> set PRIVATE_OR_LOOPBACK_IPV4_RANGES))
         | IPv6 ps z \<Rightarrow> is_blocked_special_use_ipv6_address ps None))"

definition ipv4_range_is :: "string \<Rightarrow> pyval \<Rightarrow> bool res" where
  "ipv4_range_is name raw =
     when_parsed (parse_canonical_ip_address raw) False (\<lambda>a.
       case a of IPv4 os \<Rightarrow> bind_res (ipv4_range os) (\<lambda>r. Inr (r = name)) | IPv6 ps z \<Rightarrow> Inr False)"

definition is_rfc1918_ipv4_address :: "pyval \<Rightarrow> bool res" where
  "is_rfc1918_ipv4_address = ipv4_range_is ''private''"

definition is_carrier_grade_nat_ipv4_address :: "pyval \<Rightarrow> bool res" where
  "is_carrier_grade_nat_ipv4_address = ipv4_range_is ''carrierGradeNat''"

text \<open>The exact comparison when the second text has no slash, and the match of a prefix.\<close>

definition is_same_ip :: "ip_address \<Rightarrow> string \<Rightarrow> bool res" where
  "is_same_ip comparable candidate =
     when_parsed (parse_canonical_ip_address (VStr candidate)) False (\<lambda>e.
       bind_res (normalize_ipv4_mapped_address e) (\<lambda>exact.
         Inr (same_kind comparable exact \<and> ip_text comparable = ip_text exact)))"

definition is_in_parsed_cidr :: "ip_address \<Rightarrow> string \<Rightarrow> bool res" where
  "is_in_parsed_cidr comparable candidate =
     (case ip_parse_cidr candidate of
        Inl _ \<Rightarrow> Inr False
      | Inr (base, prefix_length) \<Rightarrow>
          bind_res (normalize_ipv4_mapped_address base) (\<lambda>b.
            if \<not> same_kind comparable b then Inr False
            else case ip_match comparable b prefix_length of Inl _ \<Rightarrow> Inr False | Inr m \<Rightarrow> Inr m))"

definition is_ip_in_cidr :: "pyval \<Rightarrow> pyval \<Rightarrow> bool res" where
  "is_ip_in_cidr ip cidr =
     when_parsed (parse_canonical_ip_address ip) False (\<lambda>a.
       case cidr of
         VStr s \<Rightarrow>
           (if py_strip s = [] then Inr False
            else bind_res (normalize_ipv4_mapped_address a) (\<lambda>c.
              if CHR ''/'' \<notin> set (py_strip s) then is_same_ip c (py_strip s)
              else is_in_parsed_cidr c (py_strip s)))
       | _ \<Rightarrow> Inl (PyAttributeError ''strip''))"

end
