(* ===== verification/IpBlocks.thy ===== *)
theory IpBlocks
  imports IpPolicy
begin

text \<open>
  Which addresses are private and which are blocked, written out over the octets and hextets, and the
  fact that no question about an address raises.
\<close>

section \<open>IPv4\<close>

definition octets_private :: "int \<Rightarrow> int \<Rightarrow> bool" where
  "octets_private a b \<longleftrightarrow>
     a = 10 \<or> a = 127 \<or> (a = 100 \<and> 64 \<le> b \<and> b < 128) \<or> (a = 169 \<and> b = 254) \<or>
     (a = 172 \<and> 16 \<le> b \<and> b < 32) \<or> (a = 192 \<and> b = 168)"

definition octets_reserved :: "int \<Rightarrow> int \<Rightarrow> int \<Rightarrow> bool" where
  "octets_reserved a b c \<longleftrightarrow>
     (a = 192 \<and> b = 0 \<and> (c = 0 \<or> c = 2)) \<or> (a = 192 \<and> b = 88 \<and> c = 99) \<or>
     (a = 198 \<and> (b = 18 \<or> b = 19)) \<or> (a = 198 \<and> b = 51 \<and> c = 100) \<or> (a = 203 \<and> b = 0 \<and> c = 113) \<or>
     240 \<le> a"

lemma byte_prefix_cases:
  fixes x :: int
  assumes "0 \<le> x" "x < 256"
  shows "x div 16 = 14 \<longleftrightarrow> 224 \<le> x \<and> x < 240" "x div 16 = 15 \<longleftrightarrow> 240 \<le> x"
    "x div 64 = 1 \<longleftrightarrow> 64 \<le> x \<and> x < 128" "x div 16 = 1 \<longleftrightarrow> 16 \<le> x \<and> x < 32" "x div 2 = 9 \<longleftrightarrow> x = 18 \<or> x = 19"
  using assms by presburger+

lemma ipv4_range_octets:
  assumes "ip_ok (IPv4 [a, b, c, d])"
  shows "ipv4_range [a, b, c, d] = Inr
    (if a = 0 then ''unspecified''
     else if a = 255 \<and> b = 255 \<and> c = 255 \<and> d = 255 then ''broadcast''
     else if 224 \<le> a \<and> a < 240 then ''multicast''
     else if a = 169 \<and> b = 254 then ''linkLocal''
     else if a = 127 then ''loopback''
     else if a = 100 \<and> 64 \<le> b \<and> b < 128 then ''carrierGradeNat''
     else if a = 10 \<or> (a = 172 \<and> 16 \<le> b \<and> b < 32) \<or> (a = 192 \<and> b = 168) then ''private''
     else if octets_reserved a b c then ''reserved''
     else if (a = 192 \<and> b = 175 \<and> c = 48) \<or> (a = 192 \<and> b = 31 \<and> c = 196) then ''as112''
     else if a = 192 \<and> b = 52 \<and> c = 193 then ''amt''
     else ''unicast'')"
proof -
  from assms have ok: "0 \<le> a" "a < 256" "0 \<le> b" "b < 256" by (simp_all add: ip_ok_def)
  show ?thesis
    by (simp add: ipv4_range_def IPV4_SPECIAL_RANGES_def ip_match_def ipv4_match_def match_cidr_def
        byte_prefix_cases ok octets_reserved_def)
qed

lemma benchmark_octets:
  assumes "ip_ok (IPv4 [a, b, c, d])"
  shows "ipv4_match [a, b, c, d] (fst RFC2544_BENCHMARK_PREFIX) (snd RFC2544_BENCHMARK_PREFIX)
    = Inr (a = 198 \<and> (b = 18 \<or> b = 19))"
proof -
  from assms have "0 \<le> b" "b < 256" by (simp_all add: ip_ok_def)
  then show ?thesis
    by (simp add: RFC2544_BENCHMARK_PREFIX_def ipv4_match_def match_cidr_def byte_prefix_cases)
qed

lemma blocked_range_names:
  "(if c1 then ''unspecified'' else if c2 then ''broadcast'' else if c3 then ''multicast''
    else if c4 then ''linkLocal'' else if c5 then ''loopback'' else if c6 then ''carrierGradeNat''
    else if c7 then ''private'' else if c8 then ''reserved'' else if c9 then ''as112''
    else if c10 then ''amt'' else ''unicast'') \<in> set BLOCKED_IPV4_SPECIAL_USE_RANGES
   \<longleftrightarrow> c1 \<or> c2 \<or> c3 \<or> c4 \<or> c5 \<or> c6 \<or> c7 \<or> c8"
  by (simp add: BLOCKED_IPV4_SPECIAL_USE_RANGES_def)

lemma private_range_names:
  "(if c1 then ''unspecified'' else if c2 then ''broadcast'' else if c3 then ''multicast''
    else if c4 then ''linkLocal'' else if c5 then ''loopback'' else if c6 then ''carrierGradeNat''
    else if c7 then ''private'' else if c8 then ''reserved'' else if c9 then ''as112''
    else if c10 then ''amt'' else ''unicast'') \<in> set PRIVATE_OR_LOOPBACK_IPV4_RANGES
   \<longleftrightarrow> \<not> c1 \<and> \<not> c2 \<and> \<not> c3 \<and> (c4 \<or> c5 \<or> c6 \<or> c7)"
  by (simp add: PRIVATE_OR_LOOPBACK_IPV4_RANGES_def)

lemma blocked_shape:
  assumes "c2 \<Longrightarrow> r" "m \<longleftrightarrow> v \<and> w" "v \<Longrightarrow> \<not> w \<Longrightarrow> r" "b \<Longrightarrow> r"
  shows "(if b \<and> opt then Inr False
          else Inr ((z \<or> c2 \<or> m \<or> ll \<or> lb \<or> cg \<or> (t \<or> p) \<or> r) \<or> b)) =
    Inr ((z \<or> v \<or> (t \<or> lb \<or> cg \<or> ll \<or> p) \<or> r) \<and> \<not> (b \<and> opt))"
  using assms by auto

text \<open>
  Of the addresses with octets a, b, c, d, the ones that are blocked without options are exactly the
  private ones, those with a first octet of 0 or from 224 on, and the reserved blocks; the option for the
  benchmark range takes 198.18.0.0/15 out of them and nothing else.
\<close>

theorem blocked_ipv4_octets:
  assumes "ip_ok (IPv4 [a, b, c, d])"
  shows "is_blocked_special_use_ipv4_address [a, b, c, d] opts = Inr
    ((a = 0 \<or> 224 \<le> a \<or> octets_private a b \<or> octets_reserved a b c) \<and>
     \<not> ((a = 198 \<and> (b = 18 \<or> b = 19)) \<and> option_is_true opts ''allowRfc2544BenchmarkRange''))"
  unfolding is_blocked_special_use_ipv4_address_def benchmark_octets [OF assms] ipv4_range_octets [OF assms]
    bind_res_Inr blocked_range_names octets_private_def
  by (rule blocked_shape [where w = "a < 240"]) (simp_all add: octets_reserved_def)

theorem blocked_ipv4_octets_witness:
  "is_blocked_special_use_ipv4_address [198, 19, 0, 1] None = Inr True"
  by (subst blocked_ipv4_octets) (simp_all add: ip_ok_def octets_reserved_def option_is_true_def)

section \<open>IPv6\<close>

lemma blocked_ipv6_returns:
  assumes "ip_ok (IPv6 ps z)"
  shows "\<not> isl (is_blocked_special_use_ipv6_address ps opts)"
  using ipv6_range_total [OF assms] by (auto simp: is_blocked_special_use_ipv6_address_def split: if_splits)

section \<open>Parsed addresses\<close>

lemma make_ipv4_ok: "make_ipv4 os = Inr a \<Longrightarrow> ip_ok a \<and> a = IPv4 os"
  by (force simp: make_ipv4_def ip_ok_def parts_ok_def list_all_iff split: if_splits)

lemma length_pair_up: "length (pair_up ps) = length ps div 2"
  by (induction ps rule: pair_up.induct) auto

lemma make_ipv6_ok: "make_ipv6 ps z = Inr a \<Longrightarrow> ip_ok a \<and> (\<exists>qs. a = IPv6 qs z)"
  by (force simp: make_ipv6_def ip_ok_def parts_ok_def list_all_iff Let_def length_pair_up split: if_splits)

lemma ipv4_parse_ok: "ipv4_parse s = Inr a \<Longrightarrow> ip_ok a \<and> (\<exists>os. a = IPv4 os)"
  by (auto simp: ipv4_parse_def bind_res_eq_Inr dest: make_ipv4_ok split: option.splits)

lemma ipv6_parse_ok: "ipv6_parse s = Inr a \<Longrightarrow> ip_ok a \<and> (\<exists>ps z. a = IPv6 ps z)"
  by (fastforce simp: ipv6_parse_def bind_res_eq_Inr dest: make_ipv6_ok split: option.splits)

lemma decode_ipv4_total:
  "\<exists>os. make_ipv4 [p div 256 mod 256, q mod 256, r div 256 mod 256, t mod 256] = Inr (IPv4 os) \<and> ip_ok (IPv4 os)"
  using byte_bounds(2) [of "p div 256"] byte_bounds(2) [of q] byte_bounds(2) [of "r div 256"] byte_bounds(2) [of t]
  by (simp add: make_ipv4_def ip_ok_def)

text \<open>A computation that returns, and the addresses it returns are in range.\<close>

definition returns_ip :: "ip_address option res \<Rightarrow> bool" where
  "returns_ip m \<longleftrightarrow> (\<exists>p. m = Inr p \<and> (\<forall>a. p = Some a \<longrightarrow> ip_ok a))"

lemma some_res_returns: "\<not> isl m \<Longrightarrow> (\<And>a. m = Inr a \<Longrightarrow> ip_ok a) \<Longrightarrow> returns_ip (some_res m)"
  by (cases m) (auto simp: returns_ip_def some_res_def)

lemma ipv4_parse_returns: "ipv4_is_valid s \<Longrightarrow> returns_ip (some_res (ipv4_parse s))"
  by (rule some_res_returns) (simp_all add: ipv4_is_valid_def ipv4_parse_ok)

lemma ipv6_parse_returns: "ipv6_is_valid s \<Longrightarrow> returns_ip (some_res (ipv6_parse s))"
  by (rule some_res_returns) (simp_all add: ipv6_is_valid_def ipv6_parse_ok)

lemma returns_none [simp]: "returns_ip (Inr None)"
  by (simp add: returns_ip_def)

lemma embedded_returns: "returns_ip (parse_ipv6_with_embedded_ipv4 s)"
proof (cases "CHR '':'' \<notin> set s \<or> CHR ''.'' \<notin> set s")
  case False
  then show ?thesis
  proof (cases "embedded_groups s")
    case (Some g)
    obtain prefix embedded zone where g: "g = (prefix, embedded, zone)" by (cases g) auto
    show ?thesis
      unfolding parse_ipv6_with_embedded_ipv4_def if_not_P [OF False] Some g Let_def option.case prod.case
        some_res_def [symmetric]
      by (simp only: returns_none if_split not_not simp_thms) (blast intro: ipv6_parse_returns)
  qed (simp add: parse_ipv6_with_embedded_ipv4_def)
qed (simp add: parse_ipv6_with_embedded_ipv4_def)

lemma canonical_returns: "returns_ip (parse_canonical_ip_address raw)"
  unfolding parse_canonical_ip_address_def
  by (cases "normalize_ip_parse_input raw") (simp_all add: ipv4_parse_returns ipv6_parse_returns embedded_returns)

lemma loose_returns: "returns_ip (parse_loose_ip_address raw)"
  unfolding parse_loose_ip_address_def
  by (cases "normalize_ip_parse_input raw")
    (simp_all add: ip_is_valid_def ip_parse_def ipv4_parse_returns ipv6_parse_returns embedded_returns)

lemma when_parsed_returns:
  "returns_ip m \<Longrightarrow> (\<And>a. ip_ok a \<Longrightarrow> \<not> isl (f a)) \<Longrightarrow> \<not> isl (when_parsed m d f)"
  by (auto simp: returns_ip_def when_parsed_def split: option.splits)

lemma byte_less: "0 \<le> (g::int) \<Longrightarrow> g < 65536 \<Longrightarrow> 0 \<le> g div 256 \<and> g div 256 < 256"
  using byte_bounds(1) [of g] by linarith

lemma normalize_mapped_returns:
  assumes "ip_ok a"
  shows "\<exists>b. normalize_ipv4_mapped_address a = Inr b \<and> ip_ok b"
proof (cases a)
  case (IPv6 ps z)
  show ?thesis
  proof (cases "take 6 ps = [0, 0, 0, 0, 0, 65535]")
    case True
    with IPv6 assms obtain g h where "ps = [0, 0, 0, 0, 0, 65535, g, h]" by (auto simp: ip_ok_def length_8_eq)
    then show ?thesis
      using assms IPv6 by (simp add: normalize_ipv4_mapped_address_def mapped_iff mapped_to_ipv4)
        (simp add: ip_ok_def byte_less)
  next
    case False
    then show ?thesis using assms IPv6 by (auto simp: normalize_ipv4_mapped_address_def mapped_iff [of ps z])
  qed
qed (use assms in \<open>simp add: normalize_ipv4_mapped_address_def\<close>)

lemma extract_embedded_returns:
  assumes "ip_ok (IPv6 ps z)"
  shows "\<exists>e. extract_embedded_ipv4_from_ipv6 ps = Inr e \<and> (\<forall>b. e = Some b \<longrightarrow> ip_ok b)"
proof -
  have dec: "\<exists>os. decode_ipv4_from_hextets h l = Inr (IPv4 os) \<and> ip_ok (IPv4 os)" for h l
    unfolding decode_ipv4_from_hextets_def by (rule decode_ipv4_total)
  obtain name where name: "ipv6_range ps = Inr name" using ipv6_range_total [OF assms] by blast
  show ?thesis
  proof (cases "take 6 ps = [0, 0, 0, 0, 0, 65535]")
    case True
    then have "\<exists>os. to_ipv4_address ps = Inr (IPv4 os) \<and> ip_ok (IPv4 os)"
      unfolding to_ipv4_address_def mapped_iff [OF assms] by (simp add: decode_ipv4_total)
    with True show ?thesis by (auto simp: extract_embedded_ipv4_from_ipv6_def mapped_iff [OF assms])
  next
    case False
    from dec have d: "\<exists>os. bind_res (decode_ipv4_from_hextets h l) (\<lambda>a. Inr (Some a)) = Inr (Some (IPv4 os)) \<and>
        ip_ok (IPv4 os)" for h l by (auto simp: bind_res_eq_Inr)
    from False have m: "is_ipv4_mapped_address ps = Inr False" by (simp add: mapped_iff [OF assms])
    show ?thesis
      unfolding extract_embedded_ipv4_from_ipv6_def m name bind_res_Inr if_False
      using d by (cases "embedded_hextets ps") (fastforce split: prod.split)+
  qed
qed

lemma ip_range_total: "ip_ok a \<Longrightarrow> \<exists>name. ip_range a = Inr name"
  using ipv4_range_total ipv6_range_total by (cases a) (auto simp: ip_range_def)

lemma bind_returns: "(\<exists>b. m = Inr b \<and> p b) \<Longrightarrow> (\<And>b. m = Inr b \<Longrightarrow> p b \<Longrightarrow> \<not> isl (f b)) \<Longrightarrow> \<not> isl (bind_res m f)"
  by auto

lemma range_test_returns: "ip_ok a \<Longrightarrow> \<not> isl (bind_res (ip_range a) (\<lambda>r. Inr (q r)))"
  using ip_range_total by fastforce

lemma ipv4_test_returns: "ip_ok (IPv4 os) \<Longrightarrow> \<not> isl (bind_res (ipv4_range os) (\<lambda>r. Inr (q r)))"
  using ipv4_range_total by fastforce

lemma ipv6_test_returns: "ip_ok (IPv6 ps z) \<Longrightarrow> \<not> isl (bind_res (ipv6_range ps) (\<lambda>r. Inr (q r)))"
  using ipv6_range_total by fastforce

lemma loopback_returns: "\<not> isl (is_loopback_ip_address raw)"
  unfolding is_loopback_ip_address_def
  by (intro when_parsed_returns canonical_returns bind_returns [OF normalize_mapped_returns] range_test_returns)

lemma normalize_returns: "\<not> isl (normalize_ip_address raw)"
  unfolding normalize_ip_address_def
  by (intro when_parsed_returns canonical_returns bind_returns [OF normalize_mapped_returns]) simp_all

lemma private_returns: "\<not> isl (is_private_or_loopback_ip_address raw)"
  unfolding is_private_or_loopback_ip_address_def
proof (intro when_parsed_returns canonical_returns bind_returns [OF normalize_mapped_returns])
  fix a b assume "ip_ok b"
  then show "\<not> isl (case b of
      IPv4 os \<Rightarrow> bind_res (ipv4_range os) (\<lambda>r. Inr (r \<in> set PRIVATE_OR_LOOPBACK_IPV4_RANGES))
    | IPv6 ps z \<Rightarrow> is_blocked_special_use_ipv6_address ps None)"
    by (cases b) (simp_all add: ipv4_test_returns blocked_ipv6_returns)
qed

lemma link_local_returns: "\<not> isl (is_link_local_ip_address raw)"
  unfolding is_link_local_ip_address_def
proof (intro when_parsed_returns loose_returns bind_returns [OF normalize_mapped_returns])
  fix a b assume ok: "ip_ok b"
  show "\<not> isl (case b of
      IPv4 os \<Rightarrow> bind_res (ipv4_range os) (\<lambda>r. Inr (r = ''linkLocal''))
    | IPv6 ps z \<Rightarrow> bind_res (extract_embedded_ipv4_from_ipv6 ps) (\<lambda>e.
        bind_res (case e of None \<Rightarrow> Inr False | Some c \<Rightarrow> bind_res (ip_range c) (\<lambda>r. Inr (r = ''linkLocal''))) (\<lambda>m.
          if m then Inr True else bind_res (ipv6_range ps) (\<lambda>r. Inr (r = ''linkLocal'')))))"
  proof (cases b)
    case (IPv6 ps z)
    with ok have o6: "ip_ok (IPv6 ps z)" by simp
    show ?thesis unfolding IPv6 ip_address.case
    proof (rule bind_returns [OF extract_embedded_returns [OF o6]])
      fix e :: "ip_address option"
      assume e: "\<forall>c. e = Some c \<longrightarrow> ip_ok c"
      have "\<exists>m. (case e of None \<Rightarrow> Inr False | Some c \<Rightarrow> bind_res (ip_range c) (\<lambda>r. Inr (r = ''linkLocal''))) = Inr m"
      proof (cases e)
        case (Some c)
        then obtain name where "ip_range c = Inr name" using e ip_range_total by blast
        with Some show ?thesis by simp
      qed auto
      then obtain m where
        m: "(case e of None \<Rightarrow> Inr False | Some c \<Rightarrow> bind_res (ip_range c) (\<lambda>r. Inr (r = ''linkLocal''))) = Inr m" ..
      show "\<not> isl (bind_res
          (case e of None \<Rightarrow> Inr False | Some c \<Rightarrow> bind_res (ip_range c) (\<lambda>r. Inr (r = ''linkLocal''))) (\<lambda>m.
            if m then Inr True else bind_res (ipv6_range ps) (\<lambda>r. Inr (r = ''linkLocal''))))"
        unfolding m bind_res_Inr using ipv6_test_returns [OF o6] by (cases m) simp_all
    qed
  qed (use ok in \<open>simp add: ipv4_test_returns\<close>)
qed

lemma metadata_returns: "\<not> isl (is_cloud_metadata_ip_address raw)"
  unfolding is_cloud_metadata_ip_address_def
proof (intro when_parsed_returns loose_returns bind_returns [OF normalize_mapped_returns])
  fix a b assume ok: "ip_ok b"
  have "\<exists>m. (case b of IPv4 os \<Rightarrow> Inr False
      | IPv6 ps z \<Rightarrow> bind_res (extract_embedded_ipv4_from_ipv6 ps) (\<lambda>e.
          Inr (case e of None \<Rightarrow> False | Some c \<Rightarrow> ip_text c \<in> set CLOUD_METADATA_IP_ADDRESSES))) = Inr m"
  proof (cases b)
    case (IPv6 ps z)
    with ok obtain e where "extract_embedded_ipv4_from_ipv6 ps = Inr e" using extract_embedded_returns by blast
    with IPv6 show ?thesis by simp
  qed auto
  then obtain m where m: "(case b of IPv4 os \<Rightarrow> Inr False
      | IPv6 ps z \<Rightarrow> bind_res (extract_embedded_ipv4_from_ipv6 ps) (\<lambda>e.
          Inr (case e of None \<Rightarrow> False | Some c \<Rightarrow> ip_text c \<in> set CLOUD_METADATA_IP_ADDRESSES))) = Inr m" ..
  show "\<not> isl (bind_res (case b of IPv4 os \<Rightarrow> Inr False
      | IPv6 ps z \<Rightarrow> bind_res (extract_embedded_ipv4_from_ipv6 ps) (\<lambda>e.
          Inr (case e of None \<Rightarrow> False | Some c \<Rightarrow> ip_text c \<in> set CLOUD_METADATA_IP_ADDRESSES))) (\<lambda>m.
        if m then Inr True else Inr (ip_text b \<in> set CLOUD_METADATA_IP_ADDRESSES)))"
    unfolding m bind_res_Inr by (cases m) simp_all
qed

lemma ipv4_range_is_returns: "\<not> isl (ipv4_range_is name raw)"
  unfolding ipv4_range_is_def
proof (intro when_parsed_returns canonical_returns)
  fix a assume "ip_ok a"
  then show "\<not> isl (case a of IPv4 os \<Rightarrow> bind_res (ipv4_range os) (\<lambda>r. Inr (r = name)) | IPv6 ps z \<Rightarrow> Inr False)"
    by (cases a) (simp_all add: ipv4_test_returns)
qed

lemma same_ip_returns: "\<not> isl (is_same_ip c s)"
  unfolding is_same_ip_def
  by (intro when_parsed_returns canonical_returns bind_returns [OF normalize_mapped_returns]) simp_all

lemma parse_cidr_ok: "ip_parse_cidr s = Inr (base, k) \<Longrightarrow> ip_ok base \<and> 0 \<le> k"
  by (auto simp: ip_parse_cidr_def ipv6_parse_cidr_def ipv4_parse_cidr_def bind_res_eq_Inr
      dest: ipv4_parse_ok ipv6_parse_ok split: sum.splits option.splits if_splits)

lemma parsed_cidr_returns: "\<not> isl (is_in_parsed_cidr c s)"
proof (cases "ip_parse_cidr s")
  case (Inr r)
  then obtain base k where r: "r = (base, k)" "ip_ok base" using parse_cidr_ok by (cases r) auto
  obtain b where "normalize_ipv4_mapped_address base = Inr b" using normalize_mapped_returns [OF r(2)] by blast
  then show ?thesis by (auto simp: is_in_parsed_cidr_def Inr r split: sum.splits)
qed (simp add: is_in_parsed_cidr_def)

lemma in_cidr_returns: "\<not> isl (is_ip_in_cidr ip (VStr s))"
  unfolding is_ip_in_cidr_def
proof (intro when_parsed_returns canonical_returns)
  fix a assume "ip_ok a"
  then obtain c where "normalize_ipv4_mapped_address a = Inr c" using normalize_mapped_returns by blast
  then show "\<not> isl (case VStr s of
       VStr s \<Rightarrow>
         (if py_strip s = [] then Inr False
          else bind_res (normalize_ipv4_mapped_address a) (\<lambda>c.
            if CHR ''/'' \<notin> set (py_strip s) then is_same_ip c (py_strip s)
            else is_in_parsed_cidr c (py_strip s)))
     | _ \<Rightarrow> Inl (PyAttributeError ''strip''))"
    using same_ip_returns parsed_cidr_returns by simp
qed

text \<open>
  No question about an address raises, whatever value it is given: every text, and every value that
  is not a text, gets an answer. (The second argument of \<^verbatim>\<open>is_ip_in_cidr\<close> has to be a text.)
\<close>

theorem ip_questions_answered:
  "\<not> isl (is_loopback_ip_address raw) \<and> \<not> isl (is_link_local_ip_address raw) \<and>
   \<not> isl (is_cloud_metadata_ip_address raw) \<and> \<not> isl (is_private_or_loopback_ip_address raw) \<and>
   \<not> isl (is_rfc1918_ipv4_address raw) \<and> \<not> isl (is_carrier_grade_nat_ipv4_address raw) \<and>
   \<not> isl (normalize_ip_address raw) \<and> \<not> isl (is_ip_in_cidr raw (VStr s))"
  unfolding is_rfc1918_ipv4_address_def is_carrier_grade_nat_ipv4_address_def
  by (intro conjI loopback_returns link_local_returns metadata_returns private_returns ipv4_range_is_returns
      normalize_returns in_cidr_returns)

end
