(* ===== verification/IpTexts.thy ===== *)
theory IpTexts
  imports IpBlocks
begin

text \<open>
  The text forms of addresses: the decimal notation of the four octets is read back, and is the only text
  that the canonical parser reads as that address.
\<close>

section \<open>Decimal numbers\<close>

lemma number_from_append: "number_from b acc (s @ t) = number_from b (number_from b acc s) t"
  by (induction s arbitrary: acc) simp_all

lemma digit_value_char_of: "n < 10 \<Longrightarrow> digit_value (char_of (48 + n)) = int n"
  by (simp add: digit_value_def is_digit_def)

lemma number_from_digits_of: "number_from 10 0 (digits_of n) = int n"
proof (induction n rule: digits_of.induct)
  case (1 n)
  show ?case
  proof (cases "n < 10")
    case False
    with 1 show ?thesis
      by (simp add: digits_of.simps [of n] number_from_append digit_value_char_of zdiv_int zmod_int)
  qed (simp add: digits_of.simps [of n] digit_value_char_of)
qed

lemma in_class_DIGITS [simp]: "in_class DIGITS c \<longleftrightarrow> is_digit c"
  by (auto simp: in_class_def DIGITS_def is_digit_def)

lemma lang_many_class: "s \<in> lang (Many (Class p)) \<longleftrightarrow> (\<forall>c\<in>set s. in_class p c)"
proof
  assume "s \<in> lang (Many (Class p))"
  then obtain ss where "\<forall>x\<in>set ss. \<exists>c. x = [c] \<and> in_class p c" "s = concat ss" by auto
  from concat_singles [OF this] show "\<forall>c\<in>set s. in_class p c" by simp
next
  assume "\<forall>c\<in>set s. in_class p c"
  moreover have "s = concat (map (\<lambda>c. [c]) s)" by simp
  ultimately show "s \<in> lang (Many (Class p))"
    unfolding lang.simps by (intro CollectI exI [where x = "map (\<lambda>c. [c]) s"]) auto
qed

lemma ord_zero_char: "ord_char c = 48 \<longleftrightarrow> c = CHR ''0''"
  using ord_char_inject [of c "CHR ''0''"] by (simp add: ord_char_def)

text \<open>The numerals without a leading zero.\<close>

definition is_decimal :: "string \<Rightarrow> bool" where
  "is_decimal s \<longleftrightarrow> s \<noteq> [] \<and> list_all is_digit s \<and> (s = ''0'' \<or> hd s \<noteq> CHR ''0'')"

lemma in_class_positive: "in_class [(49, 57)] c \<longleftrightarrow> is_digit c \<and> c \<noteq> CHR ''0''"
  unfolding ord_zero_char [symmetric] by (auto simp: in_class_def is_digit_def)

lemma is_digit_zero [simp]: "is_digit (CHR ''0'')"
  by (simp add: is_digit_def ord_char_def)

lemma lang_DECIMAL: "s \<in> lang DECIMAL \<longleftrightarrow> is_decimal s"
proof -
  have "(\<exists>u t. s = u @ t \<and> (\<exists>c. u = [c] \<and> p c) \<and> q t) \<longleftrightarrow> (\<exists>c t. s = c # t \<and> p c \<and> q t)" for p q
    by (metis append_Cons append_Nil)
  then have "s \<in> lang DECIMAL \<longleftrightarrow>
      s = ''0'' \<or> (\<exists>c t. s = c # t \<and> in_class [(49, 57)] c \<and> (\<forall>d\<in>set t. in_class DIGITS d))"
    unfolding DECIMAL_def lang.simps(4,5) lang_char_re
    by (simp only: lang_many_class mem_Collect_eq Un_iff singleton_iff lang.simps(3))
  also have "\<dots> \<longleftrightarrow> is_decimal s"
    by (cases s) (auto simp: in_class_positive is_decimal_def list_all_iff)
  finally show ?thesis .
qed

lemma is_decimal_digits_of: "is_decimal (digits_of n)"
proof -
  have "n > 0 \<Longrightarrow> hd (digits_of n) \<noteq> CHR ''0''"
  proof (induction n rule: digits_of.induct)
    case (1 n)
    show ?case
    proof (cases "n < 10")
      case True
      then have "ord_char (char_of (48 + n)) \<noteq> 48" using 1 by simp
      with True show ?thesis unfolding ord_zero_char by (simp add: digits_of.simps [of n])
    qed (use 1 in \<open>simp add: digits_of.simps [of n]\<close>)
  qed
  moreover have "digits_of 0 = ''0''" by (simp add: digits_of.simps char_of_def bit_Suc_0_iff)
  ultimately show ?thesis using digits_of_digits by (cases "n = 0") (auto simp: is_decimal_def list_all_iff)
qed

lemma digit_value_bounds: "is_digit c \<Longrightarrow> 0 \<le> digit_value c \<and> digit_value c < 10"
  by (auto simp: digit_value_def is_digit_def)

lemma digit_char:
  assumes "is_digit c"
  shows "char_of (48 + nat (digit_value c)) = c"
proof -
  have "48 + nat (digit_value c) = of_char c"
    using assms by (auto simp: digit_value_def is_digit_def ord_char_def)
  then show ?thesis by simp
qed

lemma number_from_nonneg: "list_all is_digit s \<Longrightarrow> 0 \<le> acc \<Longrightarrow> acc \<le> number_from 10 acc s"
proof (induction s arbitrary: acc)
  case (Cons c s)
  then have "acc \<le> acc * 10 + digit_value c" using digit_value_bounds [of c] by simp
  also have "\<dots> \<le> number_from 10 (acc * 10 + digit_value c) s"
    using Cons digit_value_bounds [of c] by (intro Cons.IH) simp_all
  finally show ?case by simp
qed simp

lemma is_decimal_positive:
  assumes "is_decimal s" "s \<noteq> ''0''"
  shows "0 < number_from 10 0 s"
proof -
  obtain c t where s: "s = c # t" using assms(1) by (cases s) (auto simp: is_decimal_def)
  with assms have c: "is_digit c" "c \<noteq> CHR ''0''" and t: "list_all is_digit t" by (auto simp: is_decimal_def)
  from c have "0 < digit_value c"
    unfolding ord_zero_char [symmetric] by (auto simp: digit_value_def is_digit_def)
  also have "\<dots> \<le> number_from 10 (digit_value c) t"
    using digit_value_bounds [OF c(1)] by (intro number_from_nonneg t) simp
  finally show ?thesis by (simp add: s)
qed

lemma digits_of_number: "is_decimal s \<Longrightarrow> digits_of (nat (number_from 10 0 s)) = s"
proof (induction s rule: rev_induct)
  case (snoc c s)
  from snoc.prems have c: "is_digit c" by (simp add: is_decimal_def)
  note b = digit_value_bounds [OF c] digit_char [OF c]
  show ?case
  proof (cases "s = []")
    case True
    with b show ?thesis by (simp add: digits_of.simps nat_less_iff)
  next
    case False
    with snoc.prems have s: "is_decimal s" "s \<noteq> ''0''" by (auto simp: is_decimal_def)
    note p = is_decimal_positive [OF this]
    let ?m = "number_from 10 0 s"
    have n: "nat (?m * 10 + digit_value c) = nat ?m * 10 + nat (digit_value c)"
      using p b by (simp add: nat_add_distrib nat_mult_distrib)
    have "nat (digit_value c) < 10" using b(1) by linarith
    moreover have "\<not> nat ?m * 10 + nat (digit_value c) < 10" using p by linarith
    ultimately have "digits_of (nat ?m * 10 + nat (digit_value c)) = digits_of (nat ?m) @ [c]"
      using b(2) by (subst digits_of.simps) simp
    then show ?thesis using snoc.IH [OF s(1)] by (simp add: number_from_append n)
  qed
qed (simp add: is_decimal_def)

section \<open>Dotted texts\<close>

lemma lang_dotted:
  "rs \<noteq> [] \<Longrightarrow> s \<in> lang (dotted rs) \<longleftrightarrow> (\<exists>ss. list_all2 (\<lambda>s r. s \<in> lang r) ss rs \<and> s = py_join ''.'' ss)"
proof (induction rs arbitrary: s rule: dotted.induct)
  case (2 r)
  show ?case by (force simp: list_all2_Cons2)
next
  case (3 r q rs)
  have "s \<in> lang (dotted (r # q # rs)) \<longleftrightarrow> (\<exists>x t. x \<in> lang r \<and> t \<in> lang (dotted (q # rs)) \<and> s = x @ ''.'' @ t)"
    by auto
  also have "\<dots> \<longleftrightarrow> (\<exists>x ss. x \<in> lang r \<and> list_all2 (\<lambda>s r. s \<in> lang r) ss (q # rs) \<and> s = x @ ''.'' @ py_join ''.'' ss)"
    unfolding "3.IH" [OF list.distinct(2)] by blast
  also have "\<dots> \<longleftrightarrow> (\<exists>ss. list_all2 (\<lambda>s r. s \<in> lang r) ss (r # q # rs) \<and> s = py_join ''.'' ss)"
    by (force simp: list_all2_Cons2)
  finally show ?case .
qed simp

lemma lang_dotted_replicate:
  "0 < n \<Longrightarrow> s \<in> lang (dotted (replicate n r)) \<longleftrightarrow>
     (\<exists>ss. length ss = n \<and> list_all (\<lambda>s. s \<in> lang r) ss \<and> s = py_join ''.'' ss)"
  by (subst lang_dotted) (auto simp: list_all2_conv_all_nth list_all_length)

lemma py_join_chars: "c \<in> set (py_join sep ss) \<Longrightarrow> c \<in> set sep \<or> (\<exists>s\<in>set ss. c \<in> set s)"
  by (induction sep ss rule: py_join.induct) auto

lemma chop_newline_other [simp]: "newline \<notin> set s \<Longrightarrow> chop_newline s = s"
  by (metis chop_newline_def last_in_set)

lemma is_decimal_chars: "is_decimal s \<Longrightarrow> c \<in> set s \<Longrightarrow> is_digit c"
  by (auto simp: is_decimal_def list_all_iff)

lemma not_digits [simp]:
  "\<not> is_digit (CHR ''.'')" "\<not> is_digit newline" "\<not> is_digit (CHR '':'')" "\<not> is_digit (CHR ''['')"
  "\<not> is_digit (CHR ''x'')" "\<not> is_digit (CHR ''X'')" "\<not> is_digit (CHR ''/'')" "\<not> is_digit (CHR ''%'')"
  by (simp_all add: is_digit_def ord_char_def)

lemma lang_DIGITS: "s \<in> lang (some_of (Class DIGITS)) \<longleftrightarrow> s \<noteq> [] \<and> list_all is_digit s"
  by (simp add: lang_some_class list_all_iff)

lemma decimal_in_part: "is_decimal s \<Longrightarrow> s \<in> lang IPV4_PART"
proof -
  assume "is_decimal s"
  then have "s \<in> lang (some_of (Class DIGITS))" by (simp add: lang_DIGITS is_decimal_def)
  then have "s \<in> lang (Then (maybe (char_re (CHR ''0''))) (some_of (Class DIGITS)))"
    unfolding lang.simps(4) by (intro CollectI exI [of _ "[]"] exI [of _ s]) simp
  then show ?thesis by (simp only: IPV4_PART_def lang.simps(5) Un_iff simp_thms)
qed

lemma HEX_RE_x:
  assumes "s \<in> lang HEX_RE"
  shows "\<exists>c\<in>set s. \<not> is_digit c"
proof -
  have x: "x \<in> lang X_CHAR \<longleftrightarrow> (\<exists>c. x = [c] \<and> (ord_char c = 120 \<or> ord_char c = 88))" for x
    unfolding X_CHAR_def lang.simps(3) in_class_def by auto
  from assms obtain c t where s: "s = ''0'' @ [c] @ t" and c: "ord_char c = 120 \<or> ord_char c = 88"
    unfolding HEX_RE_def seq_re.simps lang.simps(4) lang_char_re x mem_Collect_eq by blast
  from c have "\<not> is_digit c" by (auto simp: is_digit_def)
  with s show ?thesis by auto
qed

lemma parse_int_auto_decimal:
  assumes "is_decimal s"
  shows "parse_int_auto s = Inr (number_from 10 0 s)"
proof -
  have n: "newline \<notin> set s" using is_decimal_chars [OF assms] by fastforce
  have "\<not> anchored_match HEX_RE s"
    using HEX_RE_x is_decimal_chars [OF assms] by (auto simp: anchored_match_def full_match_lang n)
  moreover have "\<not> (length s > 1 \<and> s ! 0 = CHR ''0'' \<and> is_digit (s ! 1))"
    using assms by (cases s) (auto simp: is_decimal_def)
  ultimately show ?thesis by (simp only: parse_int_auto_def if_False)
qed

text \<open>Four numerals between dots.\<close>

definition four_decimals :: "string list \<Rightarrow> bool" where
  "four_decimals ss \<longleftrightarrow> length ss = 4 \<and> list_all is_decimal ss"

lemma four_decimals_text:
  assumes "four_decimals ss"
  shows "newline \<notin> set (py_join ''.'' ss)" "py_split (CHR ''.'') (py_join ''.'' ss) = ss"
    "full_match FOUR_PART_DECIMAL_RE (py_join ''.'' ss)" "full_match (IPV4_REGEX 4) (py_join ''.'' ss)"
proof -
  have d: "is_decimal s" if "s \<in> set ss" for s using assms that by (auto simp: four_decimals_def list_all_iff)
  then show "newline \<notin> set (py_join ''.'' ss)"
    using is_decimal_chars not_digits by (fastforce dest: py_join_chars)
  show "py_split (CHR ''.'') (py_join ''.'' ss) = ss"
    using assms is_decimal_chars [OF d, of _ "CHR ''.''"] by (intro py_split_join) (auto simp: four_decimals_def)
  have l: "length ss = 4" using assms by (simp add: four_decimals_def)
  with d show "full_match FOUR_PART_DECIMAL_RE (py_join ''.'' ss)"
    unfolding FOUR_PART_DECIMAL_RE_def full_match_lang
    by (subst lang_dotted_replicate) (auto simp: list_all_iff lang_DECIMAL)
  from l d show "full_match (IPV4_REGEX 4) (py_join ''.'' ss)"
    unfolding IPV4_REGEX_def full_match_lang
    by (subst lang_dotted_replicate) (auto simp: list_all_iff intro: decimal_in_part)
qed

lemma four_part_decimal_iff:
  "anchored_match FOUR_PART_DECIMAL_RE s \<longleftrightarrow> (\<exists>ss. four_decimals ss \<and> chop_newline s = py_join ''.'' ss)"
proof -
  have f: "full_match FOUR_PART_DECIMAL_RE t \<longleftrightarrow> (\<exists>ss. four_decimals ss \<and> t = py_join ''.'' ss)" for t
    unfolding FOUR_PART_DECIMAL_RE_def full_match_lang
    by (subst lang_dotted_replicate) (auto simp: list_all_iff lang_DECIMAL four_decimals_def)
  have "full_match FOUR_PART_DECIMAL_RE s \<Longrightarrow> chop_newline s = s"
    using four_decimals_text(1) by (auto simp: f)
  then show ?thesis unfolding anchored_match_def by (metis f)
qed

section \<open>Canonical texts\<close>

lemma ipv4_parser_four:
  assumes "four_decimals ss" "chop_newline s = py_join ''.'' ss"
  shows "ipv4_parser s = Inr (Some (map (number_from 10 0) ss))"
proof -
  have "map_res parse_int_auto xs = Inr (map (number_from 10 0) xs)" if "list_all is_decimal xs" for xs
    using that by (induction xs) (simp_all add: parse_int_auto_decimal)
  moreover have "ipv4_groups 4 s = Some ss"
    using four_decimals_text [OF assms(1)] by (simp add: ipv4_groups_def anchored_match_def assms(2))
  ultimately show ?thesis using assms(1) by (simp add: ipv4_parser_def four_decimals_def)
qed

lemma str_of_nonneg: "0 \<le> x \<Longrightarrow> is_decimal (str_of_int x) \<and> number_from 10 0 (str_of_int x) = x"
  by (simp add: str_of_int_def number_from_digits_of is_decimal_digits_of)

lemma octets_four_decimals:
  assumes "ip_ok (IPv4 os)"
  shows "four_decimals (map str_of_int os) \<and> map (number_from 10 0) (map str_of_int os) = os"
proof -
  have nonneg: "0 \<le> x" if "x \<in> set os" for x
    using that assms by (auto simp: ip_ok_def parts_ok_def list_all_iff)
  then have "map (number_from 10 0) (map str_of_int os) = os"
    unfolding map_map by (intro map_idI) (simp add: str_of_nonneg)
  moreover from nonneg have "list_all is_decimal (map str_of_int os)"
    by (simp add: list_all_iff str_of_nonneg)
  ultimately show ?thesis using assms by (simp add: four_decimals_def ip_ok_def)
qed

lemma make_ipv4_ip_ok: "ip_ok (IPv4 os) \<Longrightarrow> make_ipv4 os = Inr (IPv4 os)"
  by (auto simp: ip_ok_def make_ipv4_def parts_ok_def list_all_iff)

lemma ipv4_parse_text:
  "ip_ok (IPv4 os) \<Longrightarrow> chop_newline s = ipv4_text os \<Longrightarrow> ipv4_parse s = Inr (IPv4 os)"
  using ipv4_parser_four [of "map str_of_int os" s] octets_four_decimals [of os]
  by (simp add: ipv4_parse_def ipv4_text_def make_ipv4_ip_ok)

lemma ipv4_text_decimal:
  "ip_ok (IPv4 os) \<Longrightarrow> chop_newline s = ipv4_text os \<Longrightarrow> is_valid_four_part_decimal s"
  using octets_four_decimals [of os] ipv4_parse_text [of os s]
  by (auto simp: is_valid_four_part_decimal_def four_part_decimal_iff ipv4_is_valid_def ipv4_text_def)

text \<open>The only texts of this form.\<close>

lemma four_part_decimal_unique:
  assumes "is_valid_four_part_decimal s" "ipv4_parse s = Inr (IPv4 os)"
  shows "chop_newline s = ipv4_text os"
proof -
  from assms(1) obtain ss where ss: "four_decimals ss" "chop_newline s = py_join ''.'' ss"
    by (auto simp: is_valid_four_part_decimal_def four_part_decimal_iff)
  from assms(2) have "os = map (number_from 10 0) ss" and ok: "ip_ok (IPv4 os)"
    by (auto simp: ipv4_parse_def ipv4_parser_four [OF ss] dest: make_ipv4_ok)
  moreover have "str_of_int (number_from 10 0 d) = d" if "is_decimal d" for d
    using that number_from_nonneg [of d 0] by (simp add: str_of_int_def digits_of_number is_decimal_def)
  ultimately have "map str_of_int os = ss"
    using ss(1) by (auto simp: four_decimals_def list_all_iff intro: map_idI)
  then show ?thesis by (simp add: ss(2) ipv4_text_def)
qed

lemma ipv4_text_chars: "ip_ok (IPv4 os) \<Longrightarrow> c \<in> set (ipv4_text os) \<Longrightarrow> is_digit c \<or> c = CHR ''.''"
  using octets_four_decimals [of os] is_decimal_chars
  by (fastforce simp: ipv4_text_def four_decimals_def list_all_iff dest: py_join_chars)

lemma ipv4_text_nonempty: "ip_ok (IPv4 os) \<Longrightarrow> ipv4_text os \<noteq> []"
  by (auto simp: ip_ok_def length_4_eq ipv4_text_def)

lemma digit_or_dot_not_space: "is_digit c \<or> c = CHR ''.'' \<Longrightarrow> \<not> is_space c"
  by (auto simp: is_space_def is_digit_def ord_char_def)

lemma normalize_ipv4_text:
  assumes "ip_ok (IPv4 os)"
  shows "normalize_ip_parse_input (VStr (ipv4_text os)) = Some (ipv4_text os)"
proof -
  have "py_strip (ipv4_text os) = ipv4_text os"
    unfolding py_strip_def
    using ipv4_text_chars [OF assms] digit_or_dot_not_space by (intro strip_with_no_match) blast
  moreover have "\<not> py_startswith (ipv4_text os) ''[''"
  proof
    assume "py_startswith (ipv4_text os) ''[''"
    then have "CHR ''['' \<in> set (ipv4_text os)" by (auto simp: py_startswith_iff)
    from ipv4_text_chars [OF assms this] show False by simp
  qed
  ultimately show ?thesis
    using ipv4_text_nonempty [OF assms]
    by (simp add: normalize_ip_parse_input_def trimmed_string_def strip_ipv6_brackets_def)
qed

lemma ipv4_text_chop: "ip_ok (IPv4 os) \<Longrightarrow> chop_newline (ipv4_text os) = ipv4_text os"
  using ipv4_text_chars [of os newline] by (intro chop_newline_other) auto

lemma canonical_ipv4_text:
  assumes "ip_ok (IPv4 os)"
  shows "parse_canonical_ip_address (VStr (ipv4_text os)) = Inr (Some (IPv4 os))"
  unfolding parse_canonical_ip_address_def normalize_ipv4_text [OF assms]
  using ipv4_parse_text [OF assms ipv4_text_chop [OF assms]] ipv4_text_decimal [OF assms ipv4_text_chop [OF assms]]
  by (simp add: ipv4_text_nonempty [OF assms] is_valid_four_part_decimal_def some_res_def)

lemma embedded_is_ipv6: "parse_ipv6_with_embedded_ipv4 s = Inr (Some a) \<Longrightarrow> \<exists>ps z. a = IPv6 ps z"
  by (auto simp: parse_ipv6_with_embedded_ipv4_def Let_def bind_res_eq_Inr dest: ipv6_parse_ok
      split: option.splits if_splits)

lemma canonical_ipv4D:
  assumes "parse_canonical_ip_address (VStr t) = Inr (Some (IPv4 os))"
  shows "chop_newline (strip_ipv6_brackets (py_strip t)) = ipv4_text os"
proof -
  let ?s = "strip_ipv6_brackets (py_strip t)"
  have "ipv4_is_valid ?s \<and> is_valid_four_part_decimal ?s \<and> ipv4_parse ?s = Inr (IPv4 os)"
    using assms embedded_is_ipv6 [of ?s] ipv6_parse_ok [of ?s]
    by (fastforce simp: parse_canonical_ip_address_def normalize_ip_parse_input_def trimmed_string_def
        some_res_def bind_res_eq_Inr split: if_splits)
  then show ?thesis by (intro four_part_decimal_unique) simp_all
qed

text \<open>
  On texts of code points below 256 the canonical parser reads exactly one text as a given IPv4 address, the decimal notation of its four
  octets without leading zeros: any other text is read as something else or not at all. (White space
  around the text and a pair of brackets do not count, nor does a newline that the brackets hide.)
\<close>

theorem canonical_ipv4_exact:
  assumes "ip_ok (IPv4 os)"
  shows "parse_canonical_ip_address (VStr t) = Inr (Some (IPv4 os)) \<longleftrightarrow>
    chop_newline (strip_ipv6_brackets (py_strip t)) = ipv4_text os"
proof
  assume "parse_canonical_ip_address (VStr t) = Inr (Some (IPv4 os))"
  then show "chop_newline (strip_ipv6_brackets (py_strip t)) = ipv4_text os"
    by (rule canonical_ipv4D)
next
  let ?s = "strip_ipv6_brackets (py_strip t)"
  assume s: "chop_newline ?s = ipv4_text os"
  then have "?s \<noteq> []" using ipv4_text_nonempty [OF assms] by (auto simp: chop_newline_def)
  moreover have "strip_ipv6_brackets [] = []" by (simp add: strip_ipv6_brackets_def)
  ultimately have "?s \<noteq> []" "py_strip t \<noteq> []" by auto
  then show "parse_canonical_ip_address (VStr t) = Inr (Some (IPv4 os))"
    using ipv4_parse_text [OF assms s] ipv4_text_decimal [OF assms s]
    by (simp add: parse_canonical_ip_address_def normalize_ip_parse_input_def trimmed_string_def
        is_valid_four_part_decimal_def some_res_def)
qed

theorem canonical_ipv4_exact_witness:
  "parse_canonical_ip_address (VStr ''10.0.0.1'') = Inr (Some (IPv4 [10, 0, 0, 1]))"
  by (subst canonical_ipv4_exact) (simp_all add: ip_ok_def, code_simp)

end
