(* ===== verification/IpCidr.thy ===== *)
theory IpCidr
  imports IpTexts
begin

text \<open>
  What the parsers make of a whole text: the loose parser extends the canonical one, an IPv4 address
  written inside an IPv6 text is read as a mapped address, and a prefix test on texts is the comparison of
  leading bits, unless the base of the prefix is written as a mapped address.
\<close>

section \<open>Characters that a text must have or cannot have\<close>

text \<open>Every text of the expression has the character.\<close>

fun needs :: "char \<Rightarrow> rexp \<Rightarrow> bool" where
  "needs c Never \<longleftrightarrow> True"
| "needs c Empty \<longleftrightarrow> False"
| "needs c (Class q) \<longleftrightarrow> (\<forall>d. in_class q d \<longrightarrow> d = c)"
| "needs c (Then r q) \<longleftrightarrow> needs c r \<or> needs c q"
| "needs c (Or r q) \<longleftrightarrow> needs c r \<and> needs c q"
| "needs c (Many r) \<longleftrightarrow> False"

lemma lang_needs: "needs c r \<Longrightarrow> s \<in> lang r \<Longrightarrow> c \<in> set s"
  by (induction r arbitrary: s) auto

lemma set_chop_newline: "set (chop_newline s) \<subseteq> set s"
  by (auto simp: chop_newline_def dest: in_set_butlastD)

lemma chop_newline_set: "set s \<subseteq> insert newline (set (chop_newline s))"
proof (cases "s \<noteq> [] \<and> last s = newline")
  case True
  then have "s = chop_newline s @ [newline]" by (metis append_butlast_last_id chop_newline_def)
  then show ?thesis by (metis insert_is_Un list.set(1) list.simps(15) order_refl set_append sup_commute)
qed (auto simp: chop_newline_def)

lemma anchored_over: "texts_over p r \<Longrightarrow> anchored_match r s \<Longrightarrow> c \<in> set s \<Longrightarrow> c \<noteq> newline \<Longrightarrow> p c"
  using lang_over [of p r] chop_newline_set [of s] by (auto simp: anchored_match_def full_match_lang)

lemma anchored_needs: "needs c r \<Longrightarrow> anchored_match r s \<Longrightarrow> c \<in> set s"
  using lang_needs [of c r] set_chop_newline [of s] by (auto simp: anchored_match_def full_match_lang)

definition address_char :: "char \<Rightarrow> bool" where
  "address_char c \<longleftrightarrow> in_class ALNUM c \<or> c = CHR ''.''"

lemma over_char_re [simp]: "texts_over p (char_re c) \<longleftrightarrow> p c"
  by (auto simp: char_re_def in_class_def)

lemma needs_char_re [simp]: "needs c (char_re d) \<longleftrightarrow> c = d"
  by (auto simp: char_re_def in_class_def)

lemma over_some_of [simp]: "texts_over p (some_of r) \<longleftrightarrow> texts_over p r"
  by (simp add: some_of_def)

lemma needs_some_of [simp]: "needs c (some_of r) \<longleftrightarrow> needs c r"
  by (simp add: some_of_def)

lemma over_maybe [simp]: "texts_over p (maybe r) \<longleftrightarrow> texts_over p r"
  by (simp add: maybe_def)

lemma needs_maybe [simp]: "\<not> needs c (maybe r)"
  by (simp add: maybe_def)

lemma then_of_char_re [simp]: "then_of (char_re c) q = Then (char_re c) q"
  by (simp add: char_re_def)

lemma over_text_re [simp]: "texts_over p (text_re s) \<longleftrightarrow> list_all p s"
  by (induction s) simp_all

lemma needs_text_re [simp]: "needs c (text_re s) \<longleftrightarrow> c \<in> set s"
  by (induction s) auto

lemma alnum_classes:
  "in_class DIGITS c \<Longrightarrow> in_class ALNUM c" "in_class HEX c \<Longrightarrow> in_class ALNUM c"
  "in_class [(120, 120), (88, 88)] c \<Longrightarrow> in_class ALNUM c"
  by (auto simp: in_class_def DIGITS_def HEX_def ALNUM_def)

lemma alnum_zero: "in_class ALNUM (CHR ''0'')"
  by (simp add: in_class_def ALNUM_def ord_char_def)

lemma ipv4_part_over: "texts_over address_char IPV4_PART"
  unfolding IPV4_PART_def HEX_RE_def X_CHAR_def seq_re.simps
  by (simp add: address_char_def alnum_zero alnum_classes del: in_class_DIGITS)

lemma over_dotted: "texts_over p r \<Longrightarrow> p (CHR ''.'') \<Longrightarrow> texts_over p (dotted (replicate n r))"
proof (induction n)
  case (Suc n)
  then show ?case by (cases n) auto
qed simp

lemma ipv4_groups_chars:
  assumes "ipv4_groups n s = Some gs" "c \<in> set s" "c \<noteq> newline"
  shows "address_char c"
  using assms anchored_over [of address_char "IPV4_REGEX n" s c] over_dotted [OF ipv4_part_over]
  by (auto simp: ipv4_groups_def IPV4_REGEX_def address_char_def split: if_splits)

lemma not_address_char [simp]:
  "\<not> address_char (CHR '':'')" "\<not> address_char (CHR ''/'')" "\<not> address_char (CHR ''%'')"
  by (simp_all add: address_char_def in_class_def ALNUM_def ord_char_def)

lemma ipv4_valid_no_colon: "ipv4_is_valid s \<Longrightarrow> CHR '':'' \<notin> set s"
  using ipv4_groups_chars [of _ s _ "CHR '':''"]
  by (auto simp: ipv4_is_valid_def ipv4_parse_def ipv4_parser_def split: option.splits)

text \<open>
  What the canonical parser reads, the loose parser reads as the same address.
\<close>

theorem loose_extends_canonical:
  assumes "parse_canonical_ip_address raw = Inr (Some a)"
  shows "parse_loose_ip_address raw = Inr (Some a)"
proof -
  from assms obtain s where s: "normalize_ip_parse_input raw = Some s" "s \<noteq> []"
    by (auto simp: parse_canonical_ip_address_def split: option.splits if_splits)
  have "ipv6_is_valid s \<Longrightarrow> \<not> ipv4_is_valid s"
    using ipv4_valid_no_colon by (auto simp: ipv6_is_valid_def)
  then show ?thesis
    using assms s
    by (auto simp: parse_canonical_ip_address_def parse_loose_ip_address_def ip_is_valid_def ip_parse_def
        split: if_splits)
qed

theorem loose_extends_canonical_witness:
  "parse_loose_ip_address (VStr ''10.0.0.1'') = Inr (Some (IPv4 [10, 0, 0, 1]))"
  by (rule loose_extends_canonical) code_simp

section \<open>IPv4 texts are not IPv6 texts\<close>

lemma needs_colon_ipv6_part: "needs (CHR '':'') IPV6_PART"
  by (simp add: IPV6_PART_def)

lemma native_over: "texts_over (\<lambda>c. c \<noteq> CHR ''.'') NATIVE_RE"
proof -
  have "texts_over (\<lambda>c. c \<noteq> CHR ''.'') (Class HEX)" "texts_over (\<lambda>c. c \<noteq> CHR ''.'') (Class ALNUM)"
    by (auto simp: in_class_def HEX_def ALNUM_def ord_char_def)
  then show ?thesis
    by (simp add: NATIVE_RE_def IPV6_PART_def ZONE_INDEX_def del: texts_over.simps(3) text_re.simps)
qed

lemma needs_colon_transitional:
  "needs (CHR '':'') DEPRECATED_TRANSITIONAL_RE" "needs (CHR '':'') TRANSITIONAL_RE"
  by (simp_all add: DEPRECATED_TRANSITIONAL_RE_def TRANSITIONAL_RE_def needs_colon_ipv6_part del: text_re.simps)

lemma not_native: "CHR ''.'' \<in> set s \<Longrightarrow> \<not> anchored_match NATIVE_RE s"
  using anchored_over [OF native_over, of s "CHR ''.''"] by auto

lemma ipv6_parse_ipv4_text:
  "CHR ''.'' \<in> set s \<Longrightarrow> CHR '':'' \<notin> set s \<Longrightarrow> ipv6_parse s = Inl PyValueError"
  using anchored_needs [OF needs_colon_transitional(1), of s] anchored_needs [OF needs_colon_transitional(2), of s]
  by (auto simp: ipv6_parse_def ipv6_parser_def ipv6_plain_parser_def not_native)

lemma ipv4_text_shape:
  assumes "ip_ok (IPv4 os)"
  shows "CHR ''.'' \<in> set (ipv4_text os)" "CHR '':'' \<notin> set (ipv4_text os)" "CHR ''/'' \<notin> set (ipv4_text os)"
    "CHR ''%'' \<notin> set (ipv4_text os)" "newline \<notin> set (ipv4_text os)"
proof -
  show "CHR ''.'' \<in> set (ipv4_text os)" using assms by (auto simp: ip_ok_def length_4_eq ipv4_text_def)
qed (use ipv4_text_chars [OF assms] not_digits in force)+

lemma ipv4_text_no_space: "ip_ok (IPv4 os) \<Longrightarrow> c \<in> set (ipv4_text os) \<Longrightarrow> \<not> is_space c"
  by (rule digit_or_dot_not_space) (rule ipv4_text_chars)

section \<open>Prefix texts\<close>

lemma str_of_digits: "0 \<le> k \<Longrightarrow> list_all is_digit (str_of_int k) \<and> str_of_int k \<noteq> []"
  using str_of_nonneg [of k] by (simp add: is_decimal_def)

lemma split_last_append: "c \<notin> set t \<Longrightarrow> split_last c (s @ c # t) = (s, t)"
proof -
  assume "c \<notin> set t"
  then have "dropWhile (\<lambda>d. d \<noteq> c) (rev t @ c # rev s) = c # rev s"
      "takeWhile (\<lambda>d. d \<noteq> c) (rev t @ c # rev s) = rev t"
    by (subst dropWhile_append2 takeWhile_append2; auto)+
  then show ?thesis by (simp add: split_last_def)
qed

lemma cidr_groups_text:
  assumes "base \<noteq> []" "newline \<notin> set base" "0 \<le> k"
  shows "cidr_groups (base @ ''/'' @ str_of_int k) = Some (base, k)"
proof -
  note d = str_of_digits [OF assms(3)]
  have c: "c \<in> set (str_of_int k) \<Longrightarrow> is_digit c" for c using d by (simp add: list_all_iff)
  have "CHR ''/'' \<notin> set (str_of_int k)" using c not_digits by blast
  note sp = split_last_append [OF this, of base]
  have "newline \<notin> set (base @ ''/'' @ str_of_int k)" using c [of newline] assms(2) by auto
  then show ?thesis using d sp assms str_of_nonneg [OF assms(3)] by (simp add: cidr_groups_def)
qed

lemma cidr_text_strip:
  assumes "\<And>c. c \<in> set base \<Longrightarrow> \<not> is_space c" "0 \<le> k"
  shows "py_strip (base @ ''/'' @ str_of_int k) = base @ ''/'' @ str_of_int k"
proof -
  have "\<not> is_space c" if "c \<in> set (base @ ''/'' @ str_of_int k)" for c
    using that assms str_of_digits [OF assms(2)] digit_or_dot_not_space [of c]
    by (auto simp: list_all_iff is_space_def ord_char_def)
  then show ?thesis unfolding py_strip_def by (intro strip_with_no_match) blast
qed

lemma parse_ipv4_cidr_text:
  assumes "ip_ok (IPv4 os)" "0 \<le> k" "k \<le> 32"
  shows "ip_parse_cidr (ipv4_text os @ ''/'' @ str_of_int k) = Inr (IPv4 os, k)"
  using assms cidr_groups_text [of "ipv4_text os" k] ipv4_text_shape [OF assms(1)]
    ipv4_text_nonempty [OF assms(1)] ipv4_parse_text [OF assms(1) ipv4_text_chop [OF assms(1)]]
  by (simp add: ip_parse_cidr_def ipv6_parse_cidr_def ipv4_parse_cidr_def ipv6_parse_ipv4_text)

lemma normalize_ipv4 [simp]: "normalize_ipv4_mapped_address (IPv4 os) = Inr (IPv4 os)"
  by (simp add: normalize_ipv4_mapped_address_def)

lemma in_cidr_text:
  assumes "ip_ok (IPv4 os)" "py_strip t = t" "CHR ''/'' \<in> set t"
  shows "is_ip_in_cidr (VStr (ipv4_text os)) (VStr t) = is_in_parsed_cidr (IPv4 os) t"
  using assms canonical_ipv4_text [OF assms(1)] by (auto simp: is_ip_in_cidr_def when_parsed_def)

text \<open>
  C27. For texts of IPv4 addresses and a prefix length of at most 32, \<^verbatim>\<open>is_ip_in_cidr\<close> is the comparison of
  that many leading bits of the two 32-bit numbers.
\<close>

theorem in_cidr_is_prefix:
  assumes "ip_ok (IPv4 os)" "ip_ok (IPv4 qs)" "k \<le> 32"
  shows "is_ip_in_cidr (VStr (ipv4_text os)) (VStr (ipv4_text qs @ ''/'' @ str_of_int (int k))) =
    Inr (number_of_parts 8 os div 2 ^ (32 - k) = number_of_parts 8 qs div 2 ^ (32 - k))"
proof -
  let ?t = "ipv4_text qs @ ''/'' @ str_of_int (int k)"
  have "py_strip ?t = ?t"
    by (rule cidr_text_strip [OF ipv4_text_no_space [OF assms(2)]]) simp_all
  then have "is_ip_in_cidr (VStr (ipv4_text os)) (VStr ?t) = is_in_parsed_cidr (IPv4 os) ?t"
    by (intro in_cidr_text assms) simp_all
  also have "\<dots> = Inr (same_prefix (IPv4 os) (IPv4 qs) k)"
    using parse_ipv4_cidr_text [OF assms(2), of "int k"] assms ip_match_prefix [of "IPv4 os" "IPv4 qs" k]
    by (simp add: is_in_parsed_cidr_def ip_width_def)
  finally show ?thesis by (simp add: same_prefix_def ip_number_def ip_width_def)
qed

theorem in_cidr_is_prefix_witness:
  "is_ip_in_cidr (VStr ''172.31.0.1'') (VStr ''172.16.0.0/12'') = Inr True"
proof -
  have "ipv4_text [172, 31, 0, 1] = ''172.31.0.1''" "ipv4_text [172, 16, 0, 0] @ ''/'' @ str_of_int (int 12) = ''172.16.0.0/12''"
    by code_simp+
  with in_cidr_is_prefix [of "[172, 31, 0, 1]" "[172, 16, 0, 0]" 12] show ?thesis by (simp add: ip_ok_def)
qed

section \<open>IPv4 addresses inside IPv6 texts\<close>

definition mapped_text :: "int list \<Rightarrow> string" where
  "mapped_text os = ''::ffff:'' @ ipv4_text os"

fun mapped_parts :: "int list \<Rightarrow> int list" where
  "mapped_parts os = [0, 0, 0, 0, 0, 65535] @ pair_up os"

lemma mapped_not_deprecated: "\<not> anchored_match DEPRECATED_TRANSITIONAL_RE (''::ffff:'' @ t)"
proof -
  have never: "full_match Never u = False" for u by (induction u) simp_all
  have "residual (CHR ''f'') (residual (CHR '':'') (residual (CHR '':'') DEPRECATED_TRANSITIONAL_RE)) = Never"
    by code_simp
  then have "\<not> full_match DEPRECATED_TRANSITIONAL_RE (''::f'' @ u)" for u by (simp add: never)
  moreover have "chop_newline (''::ffff:'' @ t) = ''::ffff:'' @ chop_newline t"
    by (cases t rule: rev_cases) (auto simp: chop_newline_def)
  ultimately show ?thesis unfolding anchored_match_def by (metis append_Cons append_Nil)
qed

lemma ipv4_text_in_regex: "ip_ok (IPv4 os) \<Longrightarrow> ipv4_text os \<in> lang (IPV4_REGEX 4)"
  using four_decimals_text(4) octets_four_decimals by (simp add: full_match_lang ipv4_text_def)

lemma mapped_transitional:
  assumes "ip_ok (IPv4 os)"
  shows "anchored_match TRANSITIONAL_RE (mapped_text os)"
proof -
  have "''::ffff:'' \<in> lang (Or IPV6_PART (Then (text_re ''::'') (maybe IPV6_PART)))"
    unfolding full_match_lang [symmetric] by code_simp
  with ipv4_text_in_regex [OF assms] have "''::ffff:'' @ ipv4_text os @ [] \<in> lang TRANSITIONAL_RE"
    unfolding TRANSITIONAL_RE_def seq_re.simps lang.simps(4) lang_maybe by blast
  then show ?thesis by (simp add: anchored_match_def full_match_lang mapped_text_def)
qed

lemma parse_int_js_decimal:
  assumes "is_decimal s"
  shows "parse_int_js s = number_from 10 0 s"
proof -
  have "is_digit c \<Longrightarrow> lower_char c = c" for c
    by (auto simp: lower_char_def Let_def is_digit_def)
  then have "py_lower s = s"
    unfolding py_lower_def using is_decimal_chars [OF assms] by (intro map_idI) blast
  then have "c \<in> set (py_lower s) \<Longrightarrow> is_digit c" for c
    using is_decimal_chars [OF assms] by simp
  moreover have "py_startswith (py_lower s) ''0x'' \<Longrightarrow> CHR ''x'' \<in> set (py_lower s)"
    by (auto simp: py_startswith_iff)
  ultimately have "\<not> py_startswith (py_lower s) ''0x''" using not_digits by blast
  then show ?thesis by (simp add: parse_int_js_def)
qed

lemma ipv6_parse_mapped:
  assumes "ip_ok (IPv4 os)"
  shows "ipv6_parse (mapped_text os) = Inr (IPv6 (mapped_parts os) None)"
proof -
  let ?t = "ipv4_text os"
  note shape = ipv4_text_shape [OF assms]
  have n: "newline \<notin> set (mapped_text os)" using shape by (simp add: mapped_text_def)
  have sp: "split_last (CHR '':'') (''::ffff'' @ CHR '':'' # ?t) = (''::ffff'', ?t)"
    by (rule split_last_append) (rule shape)
  have noz: "dropWhile (\<lambda>c. c \<noteq> CHR ''%'') ?t = []" "takeWhile (\<lambda>c. c \<noteq> CHR ''%'') ?t = ?t"
    using shape(4) by (auto simp: dropWhile_eq_Nil_conv takeWhile_eq_all_conv)
  have os: "map parse_int_js (py_split (CHR ''.'') ?t) = os"
    using octets_four_decimals [OF assms] four_decimals_text(2) [of "map str_of_int os"] parse_int_js_decimal
    by (simp add: ipv4_text_def four_decimals_def list_all_iff cong: map_cong)
  have ex: "expand_ipv6 ''::ffff'' 6 = Inr (Some ([0, 0, 0, 0, 0, 65535], None))" by code_simp
  have b: "list_all (\<lambda>x. 0 \<le> x \<and> x \<le> 255) os"
    using assms by (auto simp: ip_ok_def parts_ok_def list_all_iff)
  have "ipv6_transitional (mapped_text os) = Inr (Some (mapped_parts os, None))"
    unfolding ipv6_transitional_def Let_def
    using sp n by (simp add: mapped_text_def noz os ex b py_endswith_def py_startswith_def)
  moreover have "\<not> anchored_match DEPRECATED_TRANSITIONAL_RE (mapped_text os)"
    unfolding mapped_text_def by (rule mapped_not_deprecated)
  moreover have "\<not> anchored_match NATIVE_RE (mapped_text os)"
    by (rule not_native) (simp add: mapped_text_def shape)
  ultimately have "ipv6_parser (mapped_text os) = Inr (Some (mapped_parts os, None))"
    by (simp add: ipv6_parser_def ipv6_plain_parser_def mapped_transitional [OF assms])
  then show ?thesis
    using assms by (auto simp: ipv6_parse_def make_ipv6_def ip_ok_def length_4_eq)
qed

lemma mapped_parts_ok: "ip_ok (IPv4 os) \<Longrightarrow> ip_ok (IPv6 (mapped_parts os) z)"
  by (auto simp: ip_ok_def length_4_eq)

lemma normalize_mapped:
  assumes "ip_ok (IPv4 os)"
  shows "normalize_ipv4_mapped_address (IPv6 (mapped_parts os) z) = Inr (IPv4 os)"
proof -
  from assms obtain a b c d where os: "os = [a, b, c, d]" by (auto simp: ip_ok_def length_4_eq)
  note ok = mapped_parts_ok [OF assms, of z]
  have "to_ipv4_address (mapped_parts os) = Inr (IPv4 os)"
    using ok assms by (simp add: os mapped_to_ipv4) (simp add: ip_ok_def)
  then show ?thesis
    unfolding normalize_ipv4_mapped_address_def ip_address.case mapped_iff [OF ok] bind_res_Inr by (simp add: os)
qed

lemma mapped_text_chars:
  assumes "ip_ok (IPv4 os)" "c \<in> set (mapped_text os)"
  shows "\<not> is_space c" "c \<noteq> newline"
  using assms ipv4_text_no_space [OF assms(1)] ipv4_text_shape(5) [OF assms(1)]
  by (auto simp: mapped_text_def is_space_def ord_char_def)

lemma canonical_mapped_text:
  assumes "ip_ok (IPv4 os)"
  shows "parse_canonical_ip_address (VStr (mapped_text os)) = Inr (Some (IPv6 (mapped_parts os) None))"
proof -
  have st: "py_strip (mapped_text os) = mapped_text os"
    unfolding py_strip_def by (intro strip_with_no_match mapped_text_chars [OF assms])
  have "CHR '':'' \<in> set (mapped_text os)" "\<not> py_startswith (mapped_text os) ''[''"
    by (simp_all add: mapped_text_def py_startswith_def)
  moreover from this(1) have "\<not> ipv4_is_valid (mapped_text os)" using ipv4_valid_no_colon by blast
  moreover have "mapped_text os \<noteq> []" by (simp add: mapped_text_def)
  ultimately show ?thesis
    by (simp add: parse_canonical_ip_address_def normalize_ip_parse_input_def trimmed_string_def
        strip_ipv6_brackets_def st ipv6_is_valid_def ipv6_parse_mapped [OF assms] some_res_def)
qed

text \<open>
  An IPv4 address is private or loopback exactly when its first two octets say so, whether it is
  written with dots or as an IPv4-mapped IPv6 address.
\<close>

theorem private_in_both_notations:
  assumes "ip_ok (IPv4 [a, b, c, d])" "t = ipv4_text [a, b, c, d] \<or> t = ''::ffff:'' @ ipv4_text [a, b, c, d]"
  shows "is_private_or_loopback_ip_address (VStr t) = Inr (octets_private a b)"
proof -
  from assms(2) have "when_parsed (parse_canonical_ip_address (VStr t)) False (\<lambda>x.
      bind_res (normalize_ipv4_mapped_address x) f) = f (IPv4 [a, b, c, d])" for f :: "ip_address \<Rightarrow> bool res"
  proof
    assume "t = ''::ffff:'' @ ipv4_text [a, b, c, d]"
    then have "t = mapped_text [a, b, c, d]" by (simp add: mapped_text_def)
    then show ?thesis
      by (simp only: when_parsed_def canonical_mapped_text [OF assms(1)] normalize_mapped [OF assms(1)]
          bind_res_Inr option.case)
  qed (simp only: when_parsed_def canonical_ipv4_text [OF assms(1)] normalize_ipv4 bind_res_Inr option.case)
  then have "is_private_or_loopback_ip_address (VStr t) =
      bind_res (ipv4_range [a, b, c, d]) (\<lambda>r. Inr (r \<in> set PRIVATE_OR_LOOPBACK_IPV4_RANGES))"
    by (simp add: is_private_or_loopback_ip_address_def)
  also have "\<dots> = Inr (octets_private a b)"
    unfolding ipv4_range_octets [OF assms(1)] bind_res_Inr private_range_names octets_private_def
    using assms(1) by (simp add: ip_ok_def) auto
  finally show ?thesis .
qed

theorem private_in_both_notations_witness:
  "is_private_or_loopback_ip_address (VStr ''::ffff:172.16.0.9'') = Inr True"
proof -
  have "''::ffff:172.16.0.9'' = ''::ffff:'' @ ipv4_text [172, 16, 0, 9]" by code_simp
  from private_in_both_notations [OF _ disjI2 [OF this]] show ?thesis by (simp add: ip_ok_def octets_private_def)
qed

text \<open>
  A prefix whose base is written as a mapped address and that is longer than 32 bits matches no IPv4
  address at all, not even its own base: the base is turned into IPv4 and the length stays that of the
  IPv6 prefix, so the loop runs off the octets, and the exception is answered with no.
\<close>

theorem mapped_cidr_matches_nothing:
  assumes "ip_ok (IPv4 os)" "ip_ok (IPv4 qs)" "32 < k" "k \<le> 128"
  shows "is_ip_in_cidr (VStr (ipv4_text os)) (VStr (''::ffff:'' @ ipv4_text qs @ ''/'' @ str_of_int k)) = Inr False"
proof -
  let ?t = "mapped_text qs @ ''/'' @ str_of_int k"
  have k: "0 \<le> k" using assms by simp
  have "py_strip ?t = ?t" by (rule cidr_text_strip [OF mapped_text_chars(1) [OF assms(2)] k])
  then have "is_ip_in_cidr (VStr (ipv4_text os)) (VStr ?t) = is_in_parsed_cidr (IPv4 os) ?t"
    by (intro in_cidr_text assms) simp_all
  also have "\<dots> = (case ip_match (IPv4 os) (IPv4 qs) k of Inl _ \<Rightarrow> Inr False | Inr m \<Rightarrow> Inr m)"
  proof -
    have "cidr_groups ?t = Some (mapped_text qs, k)"
      using mapped_text_chars(2) [OF assms(2)] k by (intro cidr_groups_text) (auto simp: mapped_text_def)
    then have "ip_parse_cidr ?t = Inr (IPv6 (mapped_parts qs) None, k)"
      using assms by (simp add: ip_parse_cidr_def ipv6_parse_cidr_def ipv6_parse_mapped)
    then show ?thesis
      by (simp only: is_in_parsed_cidr_def sum.case prod.case normalize_mapped [OF assms(2)] bind_res_Inr
          same_kind.simps not_True_eq_False if_False)
  qed
  also have "ip_match (IPv4 os) (IPv4 qs) k = (if os = qs then Inl PyIndexError else Inr False)"
    using match_loop_beyond [of 8 os k qs] assms
    by (simp add: ip_match_def ipv4_match_def match_cidr_def ip_ok_def)
  finally show ?thesis by (simp add: mapped_text_def split: if_splits)
qed

theorem mapped_cidr_matches_nothing_witness:
  "is_ip_in_cidr (VStr ''10.0.0.1'') (VStr ''::ffff:10.0.0.0/104'') = Inr False"
proof -
  have "ipv4_text [10, 0, 0, 1] = ''10.0.0.1''"
    "''::ffff:'' @ ipv4_text [10, 0, 0, 0] @ ''/'' @ str_of_int 104 = ''::ffff:10.0.0.0/104''"
    by code_simp+
  with mapped_cidr_matches_nothing [of "[10, 0, 0, 1]" "[10, 0, 0, 0]" 104] show ?thesis by (simp add: ip_ok_def)
qed

end
