(* ===== verification/LoopTermination.thy ===== *)
theory LoopTermination
  imports LoopRuns
begin

text \<open>
  When a run comes to an end. Nothing in the loop bounds the number of events of a stream or of turns, so
  an end needs a host that runs dry: a measure of the world that no call raises, and that opening a stream
  and receiving an event lower. A stream that goes on with events of an unknown type is never left, even
  when the run has been aborted.
\<close>

section \<open>Runs that end\<close>

text \<open>A relation that only steps of progress satisfy, and that other steps do not undo.\<close>

definition progress ::
  "('s \<Rightarrow> 's \<Rightarrow> bool) \<Rightarrow> ('s \<Rightarrow> 's \<Rightarrow> bool) \<Rightarrow> bool" where
  "progress K L \<longleftrightarrow> wf {(t, s). L s t} \<and> (\<forall>s t u. K s t \<longrightarrow> L t u \<longrightarrow> L s u) \<and> (\<forall>s t u. L s t \<longrightarrow> K t u \<longrightarrow> L s u)"

definition stream_progress :: "('w loop_state \<Rightarrow> 'w loop_state \<Rightarrow> bool) \<Rightarrow> 'w loop_env \<Rightarrow> bool" where
  "stream_progress L E \<longleftrightarrow>
     (\<forall>f m c cfg k s t. resolve_agent_core_stream_fn (le_runtime E) (le_stream_fn E) = Inr f \<longrightarrow>
        on_world (f m c cfg k) s = (Inr (), t) \<longrightarrow> L s t) \<and>
     (\<forall>s ev t. on_world (le_stream_next E) s = (Inr (Some ev), t) \<longrightarrow> L s t)"

text \<open>A computation that makes progress when it returns.\<close>

definition spends :: "('s \<Rightarrow> 's \<Rightarrow> bool) \<Rightarrow> ('s, 'a) act \<Rightarrow> bool" where
  "spends L m \<longleftrightarrow> (\<forall>s x t. m s = (Inr x, t) \<longrightarrow> L s t)"

lemma progress_before: "progress K L \<Longrightarrow> K s t \<Longrightarrow> L t u \<Longrightarrow> L s u"
  unfolding progress_def by blast

lemma progress_after: "progress K L \<Longrightarrow> L s t \<Longrightarrow> K t u \<Longrightarrow> L s u"
  unfolding progress_def by blast

lemma progress_induct [consumes 1, case_names less]:
  assumes "progress K L" "\<And>s. (\<And>t. L s t \<Longrightarrow> P t) \<Longrightarrow> P s"
  shows "P s"
proof -
  from assms(1) have "wf {(t, s). L s t}" by (simp add: progress_def)
  then show ?thesis by (induction s rule: wf_induct_rule) (use assms(2) in blast)
qed

context loop_relation begin

lemma stream_loop_returns:
  assumes prog: "progress K L" and str: "stream_progress L E"
  shows "stream_loop E partial added s \<noteq> None"
  using prog
proof (induction s arbitrary: partial added rule: progress_induct)
  case (less s)
  obtain r1 s1 where n: "on_world (le_stream_next E) s = (r1, s1)" by force
  show ?case
  proof (cases r1)
    case (Inr ov)
    show ?thesis
    proof (cases ov)
      case (Some ev)
      obtain r2 s2 where st: "stream_step E ev partial added s1 = (r2, s2)" by force
      have "L s s1" using str n Inr Some by (simp add: stream_progress_def)
      then have "L s s2" using progress_after [OF prog] keepsD [OF K_stream_step st] by blast
      with less have "stream_loop E p a s2 \<noteq> None" for p a by blast
      then show ?thesis
        by (subst stream_loop.simps) (simp add: n Inr Some st split: sum.split prod.split)
    qed (subst stream_loop.simps, simp add: n Inr)
  qed (subst stream_loop.simps, simp add: n)
qed

lemma spends_bind:
  assumes "progress K L" "keeps K m" "\<And>x. spends L (f x)"
  shows "spends L (bind_act m f)"
  unfolding spends_def
proof (intro allI impI)
  fix s x t
  assume "bind_act m f s = (Inr x, t)"
  then obtain y u where m: "m s = (Inr y, u)" and f: "f y u = (Inr x, t)" by (auto simp: bind_act_Inr)
  from f assms(3) have "L u t" by (auto simp: spends_def)
  with keepsD [OF assms(2) m] show "L s t" using progress_before [OF assms(1)] by blast
qed

lemma open_stream_spends:
  assumes prog: "progress K L" and str: "stream_progress L E" and hooks: "hooks_keep K cfg"
  shows "spends L (open_stream E cfg)"
proof -
  note bind = spends_bind [OF prog]
  have call: "spends L (bind_act (of_res (resolve_agent_core_stream_fn (le_runtime E) (le_stream_fn E)))
      (\<lambda>f. bind_act (key f) (\<lambda>k. on_world (f m c cfg k))))" if "\<And>f. keeps K (key f)" for key m c
  proof (cases "resolve_agent_core_stream_fn (le_runtime E) (le_stream_fn E)")
    case (Inr f)
    then have "spends L (on_world (f m c cfg k))" for k using str by (auto simp: stream_progress_def spends_def)
    then have "spends L (bind_act (key f) (\<lambda>k. on_world (f m c cfg k)))" by (intro bind that)
    then show ?thesis using Inr by (simp add: spends_def bind_act_def of_res_def)
  qed (simp add: spends_def bind_act_def of_res_def)
  show ?thesis
    unfolding open_stream_def
    using hooks by (auto simp: hooks_keep_def intro!: bind K_rules call split: option.split)
qed

lemma run_turn_returns:
  assumes prog: "progress K L" and str: "stream_progress L E" and hooks: "hooks_keep K cfg"
    and st: "steering_keeps steering"
  obtains r t where "run_turn E steering first pending cfg s = Some (r, t)"
    "\<And>c a p. r = Inr (GoOn c a p) \<Longrightarrow> L s t \<and> hooks_keep K c"
proof -
  obtain r1 s1 where b: "begin_turn E cfg first pending s = (r1, s1)" by force
  have 1: "K s s1" by (rule keepsD [OF K_begin_turn b])
  consider e where "r1 = Inl e" | "r1 = Inr True" | "r1 = Inr False" by (metis sum.exhaust)
  then show thesis
  proof cases
    case 3
    obtain r2 s2 where o: "open_stream E cfg s1 = (r2, s2)" by force
    show ?thesis
    proof (cases r2)
      case (Inl e)
      with b 3 o have "run_turn E steering first pending cfg s = Some (Inl e, s2)"
        by (simp add: run_turn_def stream_assistant_response_def)
      then show ?thesis using that by blast
    next
      case (Inr u)
      obtain r3 s3 where l: "stream_loop E None False s2 = Some (r3, s3)"
        using stream_loop_returns [OF prog str] by fastforce
      have "L s1 s2" using open_stream_spends [OF prog str hooks] o Inr by (simp add: spends_def)
      then have 3: "L s s3"
        using progress_before [OF prog 1] progress_after [OF prog] keeps_optD [OF K_stream_loop l] by blast
      have run: "run_turn E steering first pending cfg s =
          (case r3 of Inl e \<Rightarrow> Some (Inl e, s3) | Inr m \<Rightarrow> Some (complete_turn E steering cfg m s3))"
        using b \<open>r1 = Inr False\<close> o Inr l by (simp add: run_turn_def stream_assistant_response_def split: sum.split)
      show ?thesis
      proof (cases r3)
        case (Inr m)
        obtain r t where c: "complete_turn E steering cfg m s3 = (r, t)" by force
        have "K s3 t" by (rule keepsD [OF K_complete_turn(1) [OF hooks st] c])
        then have "L s t" using progress_after [OF prog 3] by blast
        moreover have "r = Inr (GoOn c a p) \<Longrightarrow> hooks_keep K c" for c a p
          using yieldsD [OF K_complete_turn(2) [OF hooks st]] c by (fastforce simp: turn_hooks_def)
        ultimately show ?thesis using run Inr c that by simp
      qed (use run that in simp)
    qed
  qed (use b that in \<open>auto simp: run_turn_def\<close>)
qed

lemma turn_loop_returns:
  assumes prog: "progress K L" and str: "stream_progress L E" and hooks: "hooks_keep K cfg"
    and st: "steering_keeps steering"
  shows "turn_loop E steering first again pending cfg s \<noteq> None"
  using prog hooks
proof (induction s arbitrary: first again pending cfg rule: progress_induct)
  case (less s)
  have enter: "turn_loop E steering first again pending cfg u \<noteq> None"
    if "K s u" "again \<or> pending \<noteq> []" for first again pending u
  proof -
    obtain r t where run: "run_turn E steering first pending cfg u = Some (r, t)"
      and go: "\<And>c a p. r = Inr (GoOn c a p) \<Longrightarrow> L u t \<and> hooks_keep K c"
      using run_turn_returns [OF prog str less.prems st, where s = u and first = first and pending = pending] by blast
    have "turn_loop E steering False a p c t \<noteq> None" if "r = Inr (GoOn c a p)" for c a p
      using go [OF that] progress_before [OF prog \<open>K s u\<close>] less.IH by blast
    then show ?thesis
      by (subst turn_loop.simps) (use that(2) in \<open>simp add: run split: sum.split turn_end.split\<close>)
  qed
  show ?case
  proof (cases "again \<or> pending \<noteq> []")
    case True
    then show ?thesis using enter [of s] K_refl by (simp add: reflpD)
  next
    case False
    obtain r1 s1 where p: "poll (lc_getFollowUpMessages cfg) s = (r1, s1)" by force
    have "keeps K (poll (lc_getFollowUpMessages cfg))"
      using less.prems by (intro K_poll) (simp add: hooks_keep_def)
    then have "K s s1" using p by (rule keepsD)
    then have "turn_loop E steering first True fs cfg s1 \<noteq> None" for fs by (intro enter) simp_all
    with False p show ?thesis by (subst turn_loop.simps) (simp split: sum.split)
  qed
qed

theorem run_agent_loop_returns:
  assumes "progress K L" "stream_progress L E" "hooks_keep K cfg"
  shows "run_agent_loop E prompts ctx cfg w \<noteq> None"
proof -
  have st: "steering_keeps (lc_getSteeringMessages cfg)"
    using assms(3) by (simp add: steering_keeps_def hooks_keep_def)
  obtain r1 s1 where b: "begin_run E prompts (start_state ctx prompts w) = (r1, s1)" by force
  obtain r2 s2 where p: "poll (lc_getSteeringMessages cfg) s1 = (r2, s2)" by force
  have "run_loop E cfg s1 \<noteq> None"
    using turn_loop_returns [OF assms st] by (simp add: run_loop_def p split: sum.split)
  then show ?thesis by (auto simp: run_agent_loop_def b split: sum.split option.split)
qed

end

section \<open>Hosts that run dry\<close>

text \<open>
  The measure may have any well-ordered type, such as the pairs of the number of responses that are left
  and the number of events that are left of the current one.
\<close>

definition not_above :: "('w \<Rightarrow> 'm::wellorder) \<Rightarrow> 'w loop_state \<Rightarrow> 'w loop_state \<Rightarrow> bool" where
  "not_above \<mu> s t \<longleftrightarrow> \<mu> (lp_world t) \<le> \<mu> (lp_world s)"

definition below :: "('w \<Rightarrow> 'm::wellorder) \<Rightarrow> 'w loop_state \<Rightarrow> 'w loop_state \<Rightarrow> bool" where
  "below \<mu> s t \<longleftrightarrow> \<mu> (lp_world t) < \<mu> (lp_world s)"

definition runs_dry :: "('w \<Rightarrow> 'm::wellorder) \<Rightarrow> 'w loop_env \<Rightarrow> bool" where
  "runs_dry \<mu> E \<longleftrightarrow>
     (\<forall>ev w. \<mu> (snd (le_emit E ev w)) \<le> \<mu> w) \<and>
     (\<forall>w. \<mu> (snd (le_stream_result E w)) \<le> \<mu> w) \<and>
     (\<forall>w. case le_stream_next E w of (Inr (Some ev), w') \<Rightarrow> \<mu> w' < \<mu> w | (r, w') \<Rightarrow> \<mu> w' \<le> \<mu> w) \<and>
     (\<forall>f m c cfg k w. resolve_agent_core_stream_fn (le_runtime E) (le_stream_fn E) = Inr f \<longrightarrow>
        (case f m c cfg k w of (Inr u, w') \<Rightarrow> \<mu> w' < \<mu> w | (Inl e, w') \<Rightarrow> \<mu> w' \<le> \<mu> w))"

lemma progress_measure: "progress (not_above \<mu>) (below \<mu>)"
proof -
  have "wf {(t, s). below \<mu> s t}"
    unfolding below_def
    using wf_inv_image [OF wf, of "\<lambda>s. \<mu> (lp_world s)"] by (simp add: inv_image_def)
  then show ?thesis by (auto simp: progress_def not_above_def below_def)
qed

lemma keeps_world: "(\<And>w. \<mu> (snd (f w)) \<le> \<mu> w) \<Longrightarrow> keeps (not_above \<mu>) (on_world f)"
  by (auto simp: keeps_def on_world_def not_above_def split: prod.split) (metis snd_conv)

lemma runs_dry_relation: "runs_dry \<mu> E \<Longrightarrow> loop_relation (not_above \<mu>) E"
proof
  assume dry: "runs_dry \<mu> E"
  show "reflp (not_above \<mu>)" by (simp add: reflp_def not_above_def)
  show "transp (not_above \<mu>)" unfolding transp_def not_above_def by (meson order_trans)
  show "keeps (not_above \<mu>) (emit E ev)" for ev
    using dry by (auto simp: keeps_def emit_def not_above_def runs_dry_def split: prod.split) (metis snd_conv)
  show "not_above \<mu> s t" if "lp_world t = lp_world s" for s t
    using that by (simp add: not_above_def)
  have "\<mu> (snd (f m c cfg k w)) \<le> \<mu> w"
    if "resolve_agent_core_stream_fn (le_runtime E) (le_stream_fn E) = Inr f" for f m c cfg k w
  proof -
    have "case f m c cfg k w of (Inr u, w') \<Rightarrow> \<mu> w' < \<mu> w | (Inl e, w') \<Rightarrow> \<mu> w' \<le> \<mu> w"
      using dry that by (auto simp: runs_dry_def)
    then show ?thesis by (auto split: prod.splits sum.splits)
  qed
  moreover have "\<mu> (snd (le_stream_next E w)) \<le> \<mu> w" for w
  proof -
    have "case le_stream_next E w of (Inr (Some ev), w') \<Rightarrow> \<mu> w' < \<mu> w | (r, w') \<Rightarrow> \<mu> w' \<le> \<mu> w"
      using dry by (simp add: runs_dry_def)
    then show ?thesis by (auto split: prod.splits sum.splits option.splits)
  qed
  moreover have "\<mu> (snd (le_stream_result E w)) \<le> \<mu> w" for w using dry by (simp add: runs_dry_def)
  ultimately show "stream_keeps (not_above \<mu>) E"
    by (auto simp: stream_keeps_def intro!: keeps_world)
qed

lemma runs_dry_progress: "runs_dry \<mu> E \<Longrightarrow> stream_progress (below \<mu>) E"
  by (fastforce simp: stream_progress_def runs_dry_def on_world_def below_def split: prod.splits)

text \<open>
  C19. A run over a host that runs dry ends, with a result or an exception: when a measure of the world
  is lowered by every opened stream and every event received and not raised by any other call of the run,
  \<open>run_agent_loop\<close> does not go on forever, whatever the tools, the queues and the hooks do.
\<close>

theorem run_ends_when_host_runs_dry:
  fixes \<mu> :: "'w \<Rightarrow> 'm::wellorder"
  assumes "runs_dry \<mu> E" "hooks_keep (not_above \<mu>) cfg"
  shows "\<exists>r s. run_agent_loop E prompts ctx cfg w = Some (r, s)"
proof -
  from assms(1) have rel: "loop_relation (not_above \<mu>) E" by (rule runs_dry_relation)
  from loop_relation.run_agent_loop_returns [OF rel progress_measure runs_dry_progress [OF assms(1)] assms(2)]
  show ?thesis by auto
qed

definition short_env :: "nat loop_env" where
  "short_env = trial_env
     \<lparr>le_stream_fn := Some (\<lambda>m ctx cfg key w. if w = 0 then (Inl (PlainException ''no more''), w) else (Inr (), w - 1)),
      le_stream_next := (\<lambda>w. if w mod 3 = 0 then (Inr None, w) else (Inr (trial_event (w - 1)), w - 1))\<rparr>"

theorem run_ends_when_host_runs_dry_witness:
  "\<exists>r s. run_agent_loop short_env [OtherM (VStr ''hi'')] trial_context trial_config 9 = Some (r, s)"
proof (rule run_ends_when_host_runs_dry [where \<mu> = "\<lambda>w. w"])
  show "runs_dry (\<lambda>w. w) short_env"
    by (auto simp: runs_dry_def short_env_def trial_env_def resolve_agent_core_stream_fn_def split: option.split)
  show "hooks_keep (not_above (\<lambda>w. w)) trial_config"
    by (simp add: hooks_keep_def trial_config_def)
qed

section \<open>Streams that are never left\<close>

definition unknown_event :: "stream_event \<Rightarrow> bool" where
  "unknown_event ev \<longleftrightarrow>
     se_type ev \<notin> {Some ''start'', Some ''done'', Some ''error''} \<and> se_type ev \<notin> Some ` set UPDATE_TYPES"

lemma stream_loop_hangs:
  assumes next_event: "\<And>w. \<exists>ev w'. le_stream_next E w = (Inr (Some ev), w') \<and> unknown_event ev"
  shows "stream_loop E partial added s = None"
proof -
  have "E' \<noteq> E" (is "?G E' partial added s y")
    if "stream_loop E' partial added s = Some y" for E' partial added s y
  proof (rule stream_loop.raw_induct [OF _ that, of ?G])
    fix rec E' partial added s y
    assume IH: "\<And>E' partial added s y. rec E' partial added s = Some y \<Longrightarrow> ?G E' partial added s y"
      and body: "(case on_world (le_stream_next E') s of (Inl e, s') \<Rightarrow> Some (Inl e, s')
        | (Inr None, s') \<Rightarrow> Some (finish_response E' added s')
        | (Inr (Some ev), s') \<Rightarrow>
            (case stream_step E' ev partial added s' of
               (Inl e, s'') \<Rightarrow> Some (Inl e, s'')
             | (Inr (Inl final), s'') \<Rightarrow> Some (Inr final, s'')
             | (Inr (Inr (partial', added')), s'') \<Rightarrow> rec E' partial' added' s'')) = Some y"
    show "E' \<noteq> E"
    proof
      assume "E' = E"
      obtain ev w' where n: "le_stream_next E (lp_world s) = (Inr (Some ev), w')" and u: "unknown_event ev"
        using next_event by blast
      then have "on_world (le_stream_next E) s = (Inr (Some ev), s\<lparr>lp_world := w'\<rparr>)" by (simp add: on_world_def)
      moreover have "stream_step E ev partial added t = (Inr (Inr (partial, added)), t)" for t
        using u by (auto simp: stream_step_def unknown_event_def ret_act_def)
      ultimately have "rec E partial added (s\<lparr>lp_world := w'\<rparr>) = Some y" using body \<open>E' = E\<close> by simp
      then show False using IH by blast
    qed
  qed
  then show ?thesis by (metis option.exhaust)
qed

text \<open>
  A stream that goes on delivering events whose type the loop does not know is never left: there is no
  result, no exception and no end of the run, and the signal is not looked at between events.
\<close>

theorem unknown_events_hang:
  assumes "\<forall>w. \<exists>ev w'. le_stream_next E w = (Inr (Some ev), w') \<and> unknown_event ev"
    and "open_stream E cfg s = (Inr u, t)"
  shows "stream_assistant_response E cfg s = None"
  using stream_loop_hangs [of E None False t] assms by (simp add: stream_assistant_response_def)

definition chatty_env :: "nat loop_env" where
  "chatty_env = trial_env
     \<lparr>le_signal := Some (\<lambda>w. (True, None)),
      le_stream_next := (\<lambda>w. (Inr (Some \<lparr>se_type = Some ''ping'', se_partial = None, se_contentIndex = 0, se_delta = []\<rparr>), w))\<rparr>"

theorem unknown_events_hang_witness:
  "stream_assistant_response chatty_env trial_config (start_state trial_context [] 0) = None"
proof (rule unknown_events_hang)
  show "\<forall>w. \<exists>ev w'. le_stream_next chatty_env w = (Inr (Some ev), w') \<and> unknown_event ev"
    by (simp add: chatty_env_def unknown_event_def UPDATE_TYPES_def)
  show "open_stream chatty_env trial_config (start_state trial_context [] 0) =
      (Inr (), start_state trial_context [] 0)"
    by (simp add: open_stream_def chatty_env_def trial_env_def trial_config_def trial_context_def start_state_def own_context_def
        bind_act_def get_act_def ret_act_def of_res_def on_world_def resolve_agent_core_stream_fn_def)
qed

end
