(* ===== verification/EventStream.thy ===== *)
theory EventStream
  imports PyEffects
begin

text \<open>
  \<^verbatim>\<open>llm/event_stream.py\<close>: a queue of events with readers that wait for them and a result that is awaited
  on its own. The futures that the readers wait for are numbered in the order of their creation. What an
  event is, when it completes the stream and which result it carries are the two functions that
  \<^verbatim>\<open>EventStream\<close> is constructed with.
\<close>

section \<open>The stream\<close>

datatype 'e waiter = Pending | Resolved "'e option" bool | Cancelled

record ('e, 'r) event_stream =
  es_queue :: "'e list"
  es_waiting :: "nat list"
  es_waiters :: "'e waiter list"
  es_done :: bool
  es_result :: "'r option"

definition new_stream :: "('e, 'r) event_stream" where
  "new_stream = \<lparr>es_queue = [], es_waiting = [], es_waiters = [], es_done = False, es_result = None\<rparr>"

text \<open>\<^verbatim>\<open>if not waiter.done(): waiter.set_result(...)\<close>\<close>

definition settle :: "nat \<Rightarrow> 'e option \<Rightarrow> bool \<Rightarrow> ('e, 'r) event_stream \<Rightarrow> ('e, 'r) event_stream" where
  "settle i v finished s =
     (if es_waiters s ! i = Pending then s\<lparr>es_waiters := (es_waiters s)[i := Resolved v finished]\<rparr> else s)"

definition deliver :: "'e \<Rightarrow> ('e, 'r) event_stream \<Rightarrow> ('e, 'r) event_stream" where
  "deliver e s =
     (case es_waiting s of
        w # ws \<Rightarrow> settle w (Some e) False (s\<lparr>es_waiting := ws\<rparr>)
      | [] \<Rightarrow> s\<lparr>es_queue := es_queue s @ [e]\<rparr>)"

definition complete ::
  "('e \<Rightarrow> bool) \<Rightarrow> ('e \<Rightarrow> 'r res) \<Rightarrow> 'e \<Rightarrow> (('e, 'r) event_stream, unit) act" where
  "complete is_complete extract_result e s =
     (if \<not> is_complete e then (Inr (), s)
      else if es_result s \<noteq> None then (Inr (), s\<lparr>es_done := True\<rparr>)
      else case extract_result e of
          Inl x \<Rightarrow> (Inl x, s\<lparr>es_done := True\<rparr>)
        | Inr r \<Rightarrow> (Inr (), s\<lparr>es_done := True, es_result := Some r\<rparr>))"

definition stream_push ::
  "('e \<Rightarrow> bool) \<Rightarrow> ('e \<Rightarrow> 'r res) \<Rightarrow> 'e \<Rightarrow> (('e, 'r) event_stream, unit) act" where
  "stream_push is_complete extract_result e s =
     (if es_done s then (Inr (), s)
      else then_act (complete is_complete extract_result e) (modify_act (deliver e)) s)"

definition stream_end :: "'r option \<Rightarrow> ('e, 'r) event_stream \<Rightarrow> ('e, 'r) event_stream" where
  "stream_end result s =
     (let s1 = s\<lparr>es_done := True,
                 es_result := (if result \<noteq> None \<and> es_result s = None then result else es_result s)\<rparr>
      in (fold (\<lambda>i. settle i None True) (es_waiting s1) s1)\<lparr>es_waiting := []\<rparr>)"

text \<open>
  One round of \<^verbatim>\<open>_iterate\<close>, up to the \<^verbatim>\<open>yield\<close>, the \<^verbatim>\<open>return\<close> or the \<^verbatim>\<open>await\<close>; the second function goes on
  after the \<^verbatim>\<open>await\<close>.
\<close>

datatype 'e taken = Yielded 'e | Returned | Awaits nat | Again

definition iterate :: "('e, 'r) event_stream \<Rightarrow> 'e taken \<times> ('e, 'r) event_stream" where
  "iterate s =
     (case es_queue s of
        e # q \<Rightarrow> (Yielded e, s\<lparr>es_queue := q\<rparr>)
      | [] \<Rightarrow>
          (if es_done s then (Returned, s)
           else (Awaits (length (es_waiters s)),
                 s\<lparr>es_waiters := es_waiters s @ [Pending], es_waiting := es_waiting s @ [length (es_waiters s)]\<rparr>)))"

definition resume :: "'e option \<Rightarrow> bool \<Rightarrow> 'e taken" where
  "resume v finished = (if finished then Returned else case v of Some e \<Rightarrow> Yielded e | None \<Rightarrow> Again)"

section \<open>Assistant message streams\<close>

text \<open>\<^verbatim>\<open>event["message"]\<close> and \<^verbatim>\<open>event["error"]\<close> of a dictionary.\<close>

definition assistant_complete :: "('k \<Rightarrow> string option) \<Rightarrow> 'k \<Rightarrow> bool" where
  "assistant_complete type_of e \<longleftrightarrow> type_of e \<in> {Some ''done'', Some ''error''}"

definition extract_assistant_message_result ::
  "('k \<Rightarrow> string option) \<Rightarrow> ('k \<Rightarrow> string \<Rightarrow> 'r option) \<Rightarrow> 'k \<Rightarrow> 'r res" where
  "extract_assistant_message_result type_of item e =
     (if type_of e = Some ''done'' then (case item e ''message'' of Some m \<Rightarrow> Inr m | None \<Rightarrow> Inl PyKeyError)
      else if type_of e = Some ''error'' then (case item e ''error'' of Some m \<Rightarrow> Inr m | None \<Rightarrow> Inl PyKeyError)
      else Inl PyValueError)"

section \<open>One reader\<close>

text \<open>
  A stream, its reader, the events that were pushed into the stream while it was open, and the events that
  the reader has been given. A reader that is cancelled while it waits may iterate again.
\<close>

datatype reader = Ready | Blocked nat | Over

record ('e, 'r) session =
  ss_stream :: "('e, 'r) event_stream"
  ss_reader :: reader
  ss_pushed :: "'e list"
  ss_read :: "'e list"

definition new_session :: "('e, 'r) session" where
  "new_session = \<lparr>ss_stream = new_stream, ss_reader = Ready, ss_pushed = [], ss_read = []\<rparr>"

text \<open>What the reader does with the outcome of a round.\<close>

definition took :: "'e taken \<Rightarrow> ('e, 'r) session \<Rightarrow> ('e, 'r) session" where
  "took t c =
     (case t of
        Yielded e \<Rightarrow> c\<lparr>ss_reader := Ready, ss_read := ss_read c @ [e]\<rparr>
      | Returned \<Rightarrow> c\<lparr>ss_reader := Over\<rparr>
      | Awaits i \<Rightarrow> c\<lparr>ss_reader := Blocked i\<rparr>
      | Again \<Rightarrow> c\<lparr>ss_reader := Ready\<rparr>)"

fun read_step :: "('e, 'r) session \<Rightarrow> ('e, 'r) session option" where
  "read_step c =
     (case ss_reader c of
        Ready \<Rightarrow> (case iterate (ss_stream c) of (t, s) \<Rightarrow> Some (took t (c\<lparr>ss_stream := s\<rparr>)))
      | Blocked i \<Rightarrow>
          (case es_waiters (ss_stream c) ! i of
             Resolved v finished \<Rightarrow> Some (took (resume v finished) c)
           | _ \<Rightarrow> None)
      | Over \<Rightarrow> None)"

declare read_step.simps [simp del]

definition push_step ::
  "('e \<Rightarrow> bool) \<Rightarrow> ('e \<Rightarrow> 'r res) \<Rightarrow> 'e \<Rightarrow> ('e, 'r) session \<Rightarrow> ('e, 'r) session" where
  "push_step is_complete extract_result e c =
     (case stream_push is_complete extract_result e (ss_stream c) of
        (r, s) \<Rightarrow> c\<lparr>ss_stream := s,
                    ss_pushed := (if es_done (ss_stream c) \<or> isl r then ss_pushed c else ss_pushed c @ [e])\<rparr>)"

definition cancel_step :: "('e, 'r) session \<Rightarrow> ('e, 'r) session option" where
  "cancel_step c =
     (case ss_reader c of
        Blocked i \<Rightarrow>
          (if es_waiters (ss_stream c) ! i = Pending
           then Some (c\<lparr>ss_reader := Ready,
                        ss_stream := (ss_stream c)\<lparr>es_waiters := (es_waiters (ss_stream c))[i := Cancelled]\<rparr>\<rparr>)
           else None)
      | _ \<Rightarrow> None)"

inductive session_step ::
  "('e \<Rightarrow> bool) \<Rightarrow> ('e \<Rightarrow> 'r res) \<Rightarrow> ('e, 'r) session \<Rightarrow> ('e, 'r) session \<Rightarrow> bool"
  for is_complete extract_result where
  step_push: "session_step is_complete extract_result c (push_step is_complete extract_result e c)"
| step_end: "session_step is_complete extract_result c (c\<lparr>ss_stream := stream_end r (ss_stream c)\<rparr>)"
| step_read: "read_step c = Some d \<Longrightarrow> session_step is_complete extract_result c d"

section \<open>What a reader gets\<close>

definition in_flight :: "('e, 'r) session \<Rightarrow> 'e list" where
  "in_flight c =
     (case ss_reader c of
        Blocked i \<Rightarrow> (case es_waiters (ss_stream c) ! i of Resolved (Some e) False \<Rightarrow> [e] | _ \<Rightarrow> [])
      | _ \<Rightarrow> [])"

text \<open>The reader waits for the last future, which is the only one that is not settled.\<close>

definition pending :: "('e, 'r) session \<Rightarrow> bool" where
  "pending c \<longleftrightarrow> (\<exists>i. ss_reader c = Blocked i \<and> es_waiters (ss_stream c) ! i = Pending)"

definition well_read :: "('e, 'r) session \<Rightarrow> bool" where
  "well_read c \<longleftrightarrow>
     ss_pushed c = ss_read c @ in_flight c @ es_queue (ss_stream c) \<and>
     es_waiting (ss_stream c) = (case ss_reader c of Blocked i \<Rightarrow> if pending c then [i] else [] | _ \<Rightarrow> []) \<and>
     (\<forall>i. ss_reader c = Blocked i \<longrightarrow> i < length (es_waiters (ss_stream c)) \<and>
        (case es_waiters (ss_stream c) ! i of
           Pending \<Rightarrow> es_queue (ss_stream c) = []
         | Resolved v finished \<Rightarrow>
             (if finished then v = None \<and> es_done (ss_stream c) \<and> es_queue (ss_stream c) = [] else v \<noteq> None)
         | Cancelled \<Rightarrow> False)) \<and>
     (ss_reader c = Over \<longrightarrow> es_done (ss_stream c) \<and> es_queue (ss_stream c) = [])"

lemma well_read_new: "well_read new_session"
  by (simp add: well_read_def new_session_def new_stream_def in_flight_def)

lemma deliver_session:
  assumes "well_read c" "ss_reader c \<noteq> Over" "\<not> es_done (ss_stream c)"
    and s: "es_queue s = es_queue (ss_stream c)" "es_waiting s = es_waiting (ss_stream c)"
      "es_waiters s = es_waiters (ss_stream c)"
  shows "well_read (c\<lparr>ss_stream := deliver e s, ss_pushed := ss_pushed c @ [e]\<rparr>)"
proof (cases "ss_reader c")
  case (Blocked i)
  with assms(1) have i: "i < length (es_waiters (ss_stream c))" by (simp add: well_read_def)
  show ?thesis
  proof (cases "es_waiters (ss_stream c) ! i")
    case Pending
    with assms(1) Blocked i s show ?thesis
      by (simp add: well_read_def deliver_def settle_def pending_def in_flight_def)
  next
    case (Resolved v finished)
    with assms Blocked i s show ?thesis
      by (cases v; cases finished) (auto simp: well_read_def deliver_def pending_def in_flight_def)
  qed (use assms Blocked in \<open>simp add: well_read_def\<close>)
qed (use assms in \<open>auto simp: well_read_def deliver_def pending_def in_flight_def\<close>)

lemma push_keeps_well_read:
  assumes "well_read c"
  shows "well_read (push_step is_complete extract_result e c)"
proof (cases "es_done (ss_stream c)")
  case True
  with assms show ?thesis by (simp add: push_step_def stream_push_def)
next
  case False
  obtain r s where cm: "complete is_complete extract_result e (ss_stream c) = (r, s)" by force
  then have s: "es_queue s = es_queue (ss_stream c)" "es_waiting s = es_waiting (ss_stream c)"
      "es_waiters s = es_waiters (ss_stream c)"
    by (auto simp: complete_def split: if_splits sum.splits)
  from False assms have live: "ss_reader c \<noteq> Over" by (auto simp: well_read_def)
  show ?thesis
  proof (cases r)
    case (Inl x)
    with cm False have "push_step is_complete extract_result e c = c\<lparr>ss_stream := s\<rparr>"
      by (simp add: push_step_def stream_push_def then_act_def bind_act_def)
    moreover have "well_read (c\<lparr>ss_stream := s\<rparr>)"
      using assms live s False
      by (auto simp: well_read_def in_flight_def pending_def split: reader.split waiter.split)
    ultimately show ?thesis by simp
  next
    case (Inr u)
    with cm False have "push_step is_complete extract_result e c =
        c\<lparr>ss_stream := deliver e s, ss_pushed := ss_pushed c @ [e]\<rparr>"
      by (simp add: push_step_def stream_push_def then_act_def bind_act_def modify_act_def)
    then show ?thesis using deliver_session [OF assms live False s] by simp
  qed
qed

lemma end_keeps_well_read:
  assumes "well_read c"
  shows "well_read (c\<lparr>ss_stream := stream_end r (ss_stream c)\<rparr>)"
proof (cases "ss_reader c")
  case (Blocked i)
  with assms have i: "i < length (es_waiters (ss_stream c))" by (simp add: well_read_def)
  show ?thesis
    using assms Blocked i
    by (cases "es_waiters (ss_stream c) ! i")
      (auto simp: well_read_def stream_end_def settle_def pending_def in_flight_def split: if_splits)
qed (use assms in \<open>auto simp: well_read_def stream_end_def pending_def in_flight_def\<close>)

lemma read_keeps_well_read:
  assumes "well_read c" "read_step c = Some d"
  shows "well_read d"
proof (cases "ss_reader c")
  case Ready
  with assms show ?thesis
    by (cases "es_queue (ss_stream c)")
      (auto simp: read_step.simps iterate_def took_def well_read_def in_flight_def pending_def split: if_splits)
next
  case (Blocked i)
  then show ?thesis
    using assms
    by (cases "es_waiters (ss_stream c) ! i")
      (auto simp: read_step.simps resume_def took_def well_read_def in_flight_def pending_def
        split: if_splits option.splits bool.splits)
qed (use assms in \<open>simp add: read_step.simps\<close>)

definition session_run ::
  "('e \<Rightarrow> bool) \<Rightarrow> ('e \<Rightarrow> 'r res) \<Rightarrow> ('e, 'r) session \<Rightarrow> bool" where
  "session_run is_complete extract_result c \<longleftrightarrow> (session_step is_complete extract_result)\<^sup>*\<^sup>* new_session c"

lemma session_run_well_read: "session_run is_complete extract_result c \<Longrightarrow> well_read c"
  unfolding session_run_def
proof (induction rule: rtranclp_induct)
  case (step c d)
  from step.hyps(2) step.IH show ?case
    by (cases rule: session_step.cases) (auto intro: push_keeps_well_read end_keeps_well_read read_keeps_well_read)
qed (rule well_read_new)

section \<open>An example\<close>

text \<open>Events are numbers, 9 completes the stream and is its result.\<close>

definition trial_push :: "nat \<Rightarrow> (nat, nat) session \<Rightarrow> (nat, nat) session" where
  "trial_push = push_step (\<lambda>e. e = 9) Inr"

definition trial_read :: "(nat, nat) session \<Rightarrow> (nat, nat) session" where
  "trial_read c = (case read_step c of Some d \<Rightarrow> d | None \<Rightarrow> c)"

definition trial_session :: "(nat, nat) session" where
  "trial_session = trial_push 9 (trial_push 6 (trial_push 5 (trial_read new_session)))"

lemma trial_run_push: "session_run (\<lambda>e. e = 9) Inr c \<Longrightarrow> session_run (\<lambda>e. e = 9) Inr (trial_push e c)"
  unfolding session_run_def trial_push_def by (blast intro: rtranclp.rtrancl_into_rtrancl step_push)

lemma trial_run_read: "session_run (\<lambda>e. e = 9) Inr c \<Longrightarrow> session_run (\<lambda>e. e = 9) Inr (trial_read c)"
  unfolding trial_read_def
  by (cases "read_step c") (auto simp: session_run_def intro: rtranclp.rtrancl_into_rtrancl step_read)

lemma trial_new: "session_run (\<lambda>e. e = 9) Inr (new_session :: (nat, nat) session)"
  by (simp add: session_run_def)

text \<open>
  C21. A single reader that is not cancelled gets the events of the stream in the order in which they were
  pushed while it was open, each one once: at any time what it has read, the event that is on its way to
  it and the queue make up the pushed events.
\<close>

theorem reader_gets_events_in_order:
  assumes "session_run is_complete extract_result c"
  shows "ss_pushed c = ss_read c @ in_flight c @ es_queue (ss_stream c)"
  using session_run_well_read [OF assms] by (simp add: well_read_def)

theorem reader_gets_events_in_order_witness:
  "ss_pushed trial_session = [] @ [5] @ [6, 9]"
proof -
  have "session_run (\<lambda>e. e = 9) Inr trial_session"
    unfolding trial_session_def by (intro trial_run_push trial_run_read trial_new)
  from reader_gets_events_in_order [OF this]
  have "ss_pushed trial_session = ss_read trial_session @ in_flight trial_session @ es_queue (ss_stream trial_session)" .
  moreover have "ss_read trial_session = []" "in_flight trial_session = [5]" "es_queue (ss_stream trial_session) = [6, 9]"
    by code_simp+
  ultimately show ?thesis by simp
qed

text \<open>A stream that is complete wakes its reader, when the results of complete events can be extracted.\<close>

definition woken :: "('e, 'r) session \<Rightarrow> bool" where
  "woken c \<longleftrightarrow> (es_done (ss_stream c) \<longrightarrow> \<not> pending c)"

lemma deliver_woken:
  assumes "well_read c" "ss_reader c \<noteq> Over"
    and "es_waiting s = es_waiting (ss_stream c)" "es_waiters s = es_waiters (ss_stream c)"
  shows "\<not> pending (c\<lparr>ss_stream := deliver e s, ss_pushed := p\<rparr>)"
  using assms
  by (cases "ss_reader c") (auto simp: well_read_def pending_def deliver_def settle_def split: if_splits list.splits)

lemma push_keeps_woken:
  assumes "well_read c" "woken c" "is_complete e \<Longrightarrow> \<not> isl (extract_result e)"
  shows "woken (push_step is_complete extract_result e c)"
proof (cases "es_done (ss_stream c)")
  case True
  with assms(2) show ?thesis by (simp add: push_step_def stream_push_def woken_def pending_def)
next
  case False
  obtain r s where cm: "complete is_complete extract_result e (ss_stream c) = (r, s)" by force
  with assms(3) have r: "r = Inr ()" and s: "es_waiting s = es_waiting (ss_stream c)" "es_waiters s = es_waiters (ss_stream c)"
    by (auto simp: complete_def split: if_splits sum.splits)
  from False assms(1) have live: "ss_reader c \<noteq> Over" by (auto simp: well_read_def)
  have "push_step is_complete extract_result e c = c\<lparr>ss_stream := deliver e s, ss_pushed := ss_pushed c @ [e]\<rparr>"
    using cm r False by (simp add: push_step_def stream_push_def then_act_def bind_act_def modify_act_def)
  with deliver_woken [OF assms(1) live s] show ?thesis by (simp add: woken_def)
qed

lemma end_keeps_woken:
  assumes "well_read c"
  shows "woken (c\<lparr>ss_stream := stream_end r (ss_stream c)\<rparr>)"
  using assms
  by (cases "ss_reader c") (auto simp: well_read_def stream_end_def settle_def pending_def woken_def split: if_splits)

lemma read_keeps_woken:
  assumes "well_read c" "woken c" "read_step c = Some d"
  shows "woken d"
proof (cases "ss_reader c")
  case Ready
  with assms show ?thesis
    by (cases "es_queue (ss_stream c)")
      (auto simp: read_step.simps iterate_def took_def woken_def pending_def split: if_splits)
next
  case (Blocked i)
  with assms show ?thesis
    by (cases "es_waiters (ss_stream c) ! i")
      (auto simp: read_step.simps resume_def took_def woken_def pending_def split: if_splits option.splits)
qed (use assms in \<open>simp add: read_step.simps\<close>)

lemma session_run_woken:
  assumes "session_run is_complete extract_result c" "\<forall>e. is_complete e \<longrightarrow> \<not> isl (extract_result e)"
  shows "woken c"
  using assms(1) unfolding session_run_def
proof (induction rule: rtranclp_induct)
  case base
  show ?case by (simp add: woken_def new_session_def new_stream_def)
next
  case (step c d)
  have c: "well_read c" using step.hyps(1) by (intro session_run_well_read) (simp add: session_run_def)
  from step.hyps(2) step.IH c assms(2) show ?case
    by (cases rule: session_step.cases) (auto intro: push_keeps_woken end_keeps_woken read_keeps_woken)
qed

text \<open>Reading alone: what is left of a complete stream.\<close>

definition reads_to :: "('e, 'r) session \<Rightarrow> ('e, 'r) session \<Rightarrow> bool" where
  "reads_to = (\<lambda>c d. read_step c = Some d)\<^sup>*\<^sup>*"

definition left_to_read :: "('e, 'r) session \<Rightarrow> nat" where
  "left_to_read c =
     2 * length (es_queue (ss_stream c)) + (case ss_reader c of Ready \<Rightarrow> 1 | Blocked i \<Rightarrow> 2 | Over \<Rightarrow> 0)"

lemma read_step_done:
  assumes "well_read c" "woken c" "es_done (ss_stream c)" "ss_reader c \<noteq> Over"
  obtains d where "read_step c = Some d" "left_to_read d < left_to_read c"
    "es_done (ss_stream d)" "ss_pushed d = ss_pushed c"
proof (cases "ss_reader c")
  case Ready
  with assms that show thesis
    by (cases "es_queue (ss_stream c)")
      (simp_all add: read_step.simps iterate_def took_def left_to_read_def)
next
  case (Blocked i)
  with assms that show thesis
    by (cases "es_waiters (ss_stream c) ! i")
      (auto simp: read_step.simps resume_def took_def left_to_read_def well_read_def woken_def pending_def split: if_splits)
qed (use assms in simp)

lemma reader_finishes:
  "well_read c \<Longrightarrow> woken c \<Longrightarrow> es_done (ss_stream c) \<Longrightarrow>
    \<exists>d. reads_to c d \<and> ss_reader d = Over \<and> well_read d \<and> ss_pushed d = ss_pushed c"
proof (induction "left_to_read c" arbitrary: c rule: less_induct)
  case less
  show ?case
  proof (cases "ss_reader c = Over")
    case True
    with less.prems show ?thesis by (auto simp: reads_to_def)
  next
    case False
    obtain d where d: "read_step c = Some d" "left_to_read d < left_to_read c"
        "es_done (ss_stream d)" "ss_pushed d = ss_pushed c"
      by (rule read_step_done [OF less.prems False])
    from read_keeps_well_read [OF less.prems(1) d(1)] read_keeps_woken [OF less.prems(1,2) d(1)] less.hyps d
    obtain u where "reads_to d u" "ss_reader u = Over" "well_read u" "ss_pushed u = ss_pushed d" by blast
    moreover from this(1) d(1) have "reads_to c u"
      unfolding reads_to_def by (meson converse_rtranclp_into_rtranclp)
    ultimately show ?thesis using d(4) by auto
  qed
qed

text \<open>
  C22. When the result of every complete event can be extracted: once the stream is complete, by a complete
  event or by \<^verbatim>\<open>end\<close>, its reader is never stuck, and reading on its own it gets every event that was pushed
  and then its iteration ends. (An event of type \<^verbatim>\<open>done\<close> without a message, whose result cannot be extracted,
  raises after the stream has become complete and leaves a waiting reader stuck.)
\<close>

theorem completed_stream_is_drained:
  assumes "session_run is_complete extract_result c" "es_done (ss_stream c)"
    and "\<forall>e. is_complete e \<longrightarrow> \<not> isl (extract_result e)"
  shows "\<exists>d. reads_to c d \<and> ss_reader d = Over \<and> ss_read d = ss_pushed c"
proof -
  obtain d where "reads_to c d" "ss_reader d = Over" "well_read d" "ss_pushed d = ss_pushed c"
    using reader_finishes [OF session_run_well_read [OF assms(1)] session_run_woken [OF assms(1,3)] assms(2)] by blast
  then show ?thesis by (auto simp: well_read_def in_flight_def)
qed

theorem completed_stream_is_drained_witness:
  "\<exists>d. reads_to trial_session d \<and> ss_reader d = Over \<and> ss_read d = [5, 6, 9]"
proof -
  have "session_run (\<lambda>e. e = 9) Inr trial_session"
    unfolding trial_session_def by (intro trial_run_push trial_run_read trial_new)
  moreover have "es_done (ss_stream trial_session)" "ss_pushed trial_session = [5, 6, 9]" by code_simp+
  ultimately show ?thesis using completed_stream_is_drained [of "\<lambda>e. e = 9" Inr trial_session] by simp
qed

text \<open>
  A reader that is cancelled while it waits leaves its future in the list of the stream, and the next
  event goes to that future: it is neither delivered nor queued, also when the reader iterates again.
\<close>

theorem event_after_cancel_is_lost:
  assumes "session_run is_complete extract_result c" "cancel_step c = Some d" "\<not> es_done (ss_stream d)"
    and "is_complete e \<Longrightarrow> \<not> isl (extract_result e)"
  shows "let f = push_step is_complete extract_result e d
         in ss_pushed f = ss_read f @ [e] \<and> in_flight f = [] \<and> es_queue (ss_stream f) = [] \<and> ss_reader f = Ready"
proof -
  from assms(2) obtain i where i: "ss_reader c = Blocked i" "es_waiters (ss_stream c) ! i = Pending"
    and d: "d = c\<lparr>ss_reader := Ready,
        ss_stream := (ss_stream c)\<lparr>es_waiters := (es_waiters (ss_stream c))[i := Cancelled]\<rparr>\<rparr>"
    by (auto simp: cancel_step_def split: reader.splits if_splits)
  have w: "well_read c" by (rule session_run_well_read [OF assms(1)])
  have "es_waiting (ss_stream c) = [i]" "i < length (es_waiters (ss_stream c))" "es_queue (ss_stream c) = []"
    "ss_pushed c = ss_read c"
    using w i by (auto simp: well_read_def pending_def in_flight_def)
  then show ?thesis
    using assms(3,4) by (cases "is_complete e"; cases "extract_result e")
      (auto simp: push_step_def stream_push_def then_act_def bind_act_def modify_act_def complete_def d deliver_def
        settle_def in_flight_def Let_def)
qed

theorem event_after_cancel_is_lost_witness:
  "ss_pushed (trial_push 5 (the (cancel_step (trial_read new_session)))) = [] @ [5] \<and>
   es_queue (ss_stream (trial_push 5 (the (cancel_step (trial_read new_session))))) = []"
proof -
  have "session_run (\<lambda>e. e = 9) Inr (trial_read new_session)" by (intro trial_run_read trial_new)
  moreover have "cancel_step (trial_read new_session) = Some (the (cancel_step (trial_read new_session)))"
    "es_done (ss_stream (the (cancel_step (trial_read new_session)))) = False"
    "ss_read (trial_push 5 (the (cancel_step (trial_read new_session)))) = []"
    by code_simp+
  ultimately show ?thesis
    using event_after_cancel_is_lost [of "\<lambda>e. e = 9" Inr "trial_read new_session" _ 5]
    by (simp add: Let_def trial_push_def)
qed

end
