(* ===== verification/AgentStream.thy ===== *)
theory AgentStream
  imports LoopRuns EventStream
begin

text \<open>
  \<^verbatim>\<open>agent_loop\<close> and \<^verbatim>\<open>agent_loop_continue\<close> of \<^verbatim>\<open>agent_core/agent_loop.py\<close>: the run in a task whose sink is
  the \<^verbatim>\<open>push\<close> of a stream of assistant messages. \<^verbatim>\<open>push\<close> and \<^verbatim>\<open>end\<close> are plain functions that return
  \<^verbatim>\<open>None\<close>, and the code awaits what they return, which raises a \<^verbatim>\<open>TypeError\<close> after the call has been made.
\<close>

text \<open>The result of a stream is the message of its complete event, or what \<^verbatim>\<open>end\<close> is given: the list of messages.\<close>

datatype stream_result = OneMessage assistant_message | RunMessages "agent_message list"

record 'w stream_world =
  sw_stream :: "(agent_event, stream_result) event_stream"
  sw_host :: 'w

text \<open>The types of the events of a run; none of them is \<^verbatim>\<open>done\<close> or \<^verbatim>\<open>error\<close>.\<close>

fun agent_event_type :: "agent_event \<Rightarrow> string" where
  "agent_event_type AgentStart = ''agent_start''"
| "agent_event_type TurnStart = ''turn_start''"
| "agent_event_type (MessageStart m) = ''message_start''"
| "agent_event_type (MessageUpdate ev m) = ''message_update''"
| "agent_event_type (MessageEnd m) = ''message_end''"
| "agent_event_type (ToolExecutionStart i n a) = ''tool_execution_start''"
| "agent_event_type (ToolExecutionUpdate i n a r) = ''tool_execution_update''"
| "agent_event_type (ToolExecutionEnd i n r e x) = ''tool_execution_end''"
| "agent_event_type (TurnEnd m rs) = ''turn_end''"
| "agent_event_type (AgentEnd ms) = ''agent_end''"

text \<open>
  \<^verbatim>\<open>create_agent_stream\<close> makes an assistant message stream. Its result is only extracted from complete
  events, so the items of the others do not matter.
\<close>

definition push_agent_event :: "agent_event \<Rightarrow> ((agent_event, stream_result) event_stream, unit) act" where
  "push_agent_event =
     stream_push (assistant_complete (\<lambda>ev. Some (agent_event_type ev)))
       (extract_assistant_message_result (\<lambda>ev. Some (agent_event_type ev)) (\<lambda>ev k. None :: stream_result option))"

definition on_stream ::
  "((agent_event, stream_result) event_stream, 'a) act \<Rightarrow> ('w stream_world, 'a) act" where
  "on_stream f w = (case f (sw_stream w) of (r, s) \<Rightarrow> (r, w\<lparr>sw_stream := s\<rparr>))"

text \<open>\<^verbatim>\<open>await stream.push(event)\<close>\<close>

definition await_push :: "agent_event \<Rightarrow> ('w stream_world, unit) act" where
  "await_push ev = then_act (on_stream (push_agent_event ev)) (raise_act PyTypeError)"

definition await_end :: "agent_message list \<Rightarrow> ('w stream_world, unit) act" where
  "await_end ms = then_act (on_stream (modify_act (stream_end (Some (RunMessages ms))))) (raise_act PyTypeError)"

definition with_stream_sink :: "'w stream_world loop_env \<Rightarrow> 'w stream_world loop_env" where
  "with_stream_sink E = E\<lparr>le_emit := await_push\<rparr>"

definition push_loop_failure ::
  "'w stream_world loop_env \<Rightarrow> 'w stream_world loop_config \<Rightarrow> pyexn \<Rightarrow> ('w stream_world, unit) act" where
  "push_loop_failure E cfg e w =
     (let aborted = (case le_signal E of None \<Rightarrow> False | Some f \<Rightarrow> fst (f w))
      in bind_act (of_res (create_loop_failure_message (le_now_ms E w) cfg (Some (le_exn_text E e)) aborted)) (\<lambda>m.
           then_act (await_push (MessageStart (Message (AssistantM m))))
             (then_act (await_push (MessageEnd (AssistantM m)))
               (then_act (await_push (TurnEnd (AssistantM m) []))
                 (await_push (AgentEnd [AssistantM m]))))) w)"

text \<open>
  The task: a run that returns ends the stream, an exception of the run or of that \<^verbatim>\<open>await\<close> is pushed. The
  first component is what the task ends with, which nobody awaits.
\<close>

definition stream_task ::
  "'w stream_world loop_env \<Rightarrow> 'w stream_world loop_config \<Rightarrow>
     (agent_message list res \<times> 'w stream_world loop_state) option \<Rightarrow> (unit res \<times> 'w stream_world) option" where
  "stream_task E cfg run =
     (case run of
        None \<Rightarrow> None
      | Some (r, s) \<Rightarrow>
          Some (catch_act (bind_act (of_res r) await_end) (push_loop_failure E cfg) (lp_world s)))"

definition agent_loop_task ::
  "'w stream_world loop_env \<Rightarrow> agent_message list \<Rightarrow> 'w stream_world agent_context
     \<Rightarrow> 'w stream_world loop_config \<Rightarrow> 'w \<Rightarrow> (unit res \<times> 'w stream_world) option" where
  "agent_loop_task E prompts ctx cfg h =
     stream_task E cfg (run_agent_loop (with_stream_sink E) prompts ctx cfg \<lparr>sw_stream = new_stream, sw_host = h\<rparr>)"

text \<open>The checks before the stream is made are those of \<open>run_agent_loop_continue\<close>.\<close>

definition agent_loop_continue_task ::
  "'w stream_world loop_env \<Rightarrow> 'w stream_world agent_context
     \<Rightarrow> 'w stream_world loop_config \<Rightarrow> 'w \<Rightarrow> (unit res \<times> 'w stream_world) option res" where
  "agent_loop_continue_task E ctx cfg h =
     (if cx_messages ctx = [] then Inl (PlainException ''Cannot continue: no messages in context'')
      else if is_assistant (last (cx_messages ctx))
      then Inl (PlainException ''Cannot continue from message role: assistant'')
      else Inr (stream_task E cfg
        (run_agent_loop_continue (with_stream_sink E) ctx cfg \<lparr>sw_stream = new_stream, sw_host = h\<rparr>)))"

section \<open>What the reader of the stream sees\<close>

lemma push_new_event: "\<not> es_done s \<Longrightarrow> es_waiting s = [] \<Longrightarrow>
    push_agent_event ev s = (Inr (), s\<lparr>es_queue := es_queue s @ [ev]\<rparr>)"
  by (cases ev) (simp_all add: push_agent_event_def stream_push_def complete_def assistant_complete_def
      then_act_def bind_act_def modify_act_def deliver_def)

lemma await_push_new: "\<not> es_done (sw_stream w) \<Longrightarrow> es_waiting (sw_stream w) = [] \<Longrightarrow>
    await_push ev w = (Inl PyTypeError, w\<lparr>sw_stream := (sw_stream w)\<lparr>es_queue := es_queue (sw_stream w) @ [ev]\<rparr>\<rparr>)"
  by (simp add: await_push_def on_stream_def push_new_event then_act_def bind_act_def raise_act_def)

lemma run_fails_at_start:
  "run_agent_loop (with_stream_sink E) prompts ctx cfg \<lparr>sw_stream = new_stream, sw_host = h\<rparr> =
     Some (Inl PyTypeError,
       (start_state ctx prompts \<lparr>sw_stream = new_stream\<lparr>es_queue := [AgentStart]\<rparr>, sw_host = h\<rparr>)
         \<lparr>lp_events := [AgentStart]\<rparr>)"
  by (simp add: run_agent_loop_def begin_run_def then_act_def bind_act_def emit_def with_stream_sink_def
      start_state_def await_push_new new_stream_def)

text \<open>
  \<^verbatim>\<open>agent_loop\<close> never works: whatever the prompts, the context and the host, its task fails at the first
  event. The stream holds the start of the agent and the start of a failure message, it is not complete
  and its result is never set, so that a reader gets these two events and then waits forever.
\<close>

theorem agent_loop_stalls:
  assumes "lc_model cfg = Some model"
  shows "\<exists>m w. agent_loop_task E prompts ctx cfg h = Some (Inl PyTypeError, w) \<and>
    es_queue (sw_stream w) = [AgentStart, MessageStart (Message (AssistantM m))] \<and>
    \<not> es_done (sw_stream w) \<and> es_result (sw_stream w) = None"
  unfolding agent_loop_task_def stream_task_def run_fails_at_start
  using assms
  by (simp add: catch_act_def bind_act_def of_res_def
      push_loop_failure_def create_loop_failure_message_def then_act_def Let_def await_push_new new_stream_def
      start_state_def)

theorem agent_loop_stalls_witness:
  "\<exists>m w. agent_loop_task \<lparr>le_emit = (\<lambda>ev w. (Inr (), w)), le_signal = None,
      le_stream_fn = None, le_runtime = None, le_stream_next = (\<lambda>w. (Inr None, w)),
      le_stream_result = (\<lambda>w. (Inl PyTypeError, w)), le_make_context = (\<lambda>p ms ts. Inr VNone),
      le_now_ms = (\<lambda>w. 0), le_exn_text = (\<lambda>e. ''error''), le_fable5 = (\<lambda>m. False)\<rparr>
      [OtherM (VStr ''hi'')] \<lparr>cx_systemPrompt = [], cx_messages = [], cx_tools = None\<rparr>
      \<lparr>lc_model = Some trial_model, lc_thinkingLevel = None, lc_reasoning = None, lc_apiKey = None,
       lc_toolExecution = None, lc_convertToLlm = None, lc_transformContext = None, lc_getApiKey = None,
       lc_beforeToolCall = None, lc_resolveDeferredTool = None, lc_afterToolCall = None,
       lc_prepareNextTurn = None, lc_shouldStopAfterTurn = None, lc_getSteeringMessages = None,
       lc_getFollowUpMessages = None\<rparr> (0 :: nat) = Some (Inl PyTypeError, w) \<and>
    es_queue (sw_stream w) = [AgentStart, MessageStart (Message (AssistantM m))] \<and>
    \<not> es_done (sw_stream w) \<and> es_result (sw_stream w) = None"
  by (rule agent_loop_stalls [where model = trial_model]) simp

end
