(* ===== verification/ToolPlanner.thy ===== *)
theory ToolPlanner
  imports PyVal "HOL-Library.Product_Lexorder" "HOL-Library.Multiset"
begin

text \<open>
  \<^verbatim>\<open>openclaw/tools\<close>: descriptors of tools, the conditions under which they are available, and the plan of
  visible and hidden tools. The typed dictionaries of \<^verbatim>\<open>types.py\<close> are datatypes and records; a key that a
  dictionary may lack is an option, and reading it without a default raises.
\<close>

section \<open>Descriptors\<close>

datatype executor_ref =
    CoreExecutor string
  | PluginExecutor string string
  | ChannelExecutor string string
  | McpExecutor string string
  | OtherExecutor string

text \<open>A signal of any other kind is \<open>OtherSignal\<close>; \<open>equals\<close> may be given and be \<^verbatim>\<open>None\<close>.\<close>

datatype availability_signal =
    AlwaysSignal
  | AuthSignal string
  | ConfigSignal "string list option" "string option"
  | EnvSignal string
  | PluginEnabledSignal string
  | ContextSignal "string option" "pyval option"
  | OtherSignal string

text \<open>
  An expression is a dictionary that is looked at for \<^verbatim>\<open>kind\<close>, then \<^verbatim>\<open>all_of\<close>, then \<^verbatim>\<open>any_of\<close>; one without
  these keys is \<open>Shapeless\<close>, with whether it is empty.
\<close>

datatype availability_expression =
    Signal availability_signal
  | AllOf "availability_expression list"
  | AnyOf "availability_expression list"
  | Shapeless bool

record tool_descriptor =
  td_name :: "string option"
  td_description :: "pyval option"
  td_input_schema :: "pyval option"
  td_executor :: "executor_ref option"
  td_availability :: "availability_expression option"
  td_sort_key :: "string option"

record tool_context =
  tc_auth_provider_ids :: "string set option"
  tc_config :: pyval
  tc_is_config_value_available :: "(pyval \<Rightarrow> string list \<Rightarrow> availability_signal \<Rightarrow> pyval) option"
  tc_env :: "(string, pyval) dict option"
  tc_enabled_plugin_ids :: "string set option"
  tc_values :: "(string, pyval) dict option"
  tc_float_is :: "string \<Rightarrow> int \<Rightarrow> bool"

text \<open>The field \<open>tc_float_is\<close> is no part of the dictionary: it compares a float, given by its \<^verbatim>\<open>repr\<close>, with an int.\<close>

datatype unavailable_reason =
    AuthMissing | ConfigMissing | ContextMismatch | EnvMissing | PluginDisabled | UnsupportedSignal

record diagnostic =
  dg_reason :: unavailable_reason
  dg_signal :: "availability_signal option"
  dg_message :: string

section \<open>Availability\<close>

fun resolve_config_path :: "pyval \<Rightarrow> string list \<Rightarrow> pyval" where
  "resolve_config_path current [] = current"
| "resolve_config_path current (segment # path) =
     (case current of
        VDict d \<Rightarrow> resolve_config_path (case dict_get d segment of Some v \<Rightarrow> v | None \<Rightarrow> VNone) path
      | _ \<Rightarrow> VNone)"

definition has_configured_value ::
  "pyval \<Rightarrow> availability_signal \<Rightarrow> string list \<Rightarrow> string option \<Rightarrow> tool_context \<Rightarrow> bool" where
  "has_configured_value value signal path check ctx =
     (if value = VNone then False
      else if check = Some ''available''
      then (case tc_is_config_value_available ctx of
              None \<Rightarrow> False
            | Some resolver \<Rightarrow> resolver value path signal = VBool True)
      else if check \<in> {None, Some ''exists''} then True
      else case value of
          VStr s \<Rightarrow> py_strip s \<noteq> []
        | VList xs \<Rightarrow> xs \<noteq> []
        | VDict d \<Rightarrow> d \<noteq> []
        | _ \<Rightarrow> True)"

text \<open>\<^verbatim>\<open>==\<close> of two primitive values: a boolean is the number 0 or 1.\<close>

fun as_int :: "pyval \<Rightarrow> int option" where
  "as_int (VBool b) = Some (if b then 1 else 0)"
| "as_int (VInt i) = Some i"
| "as_int _ = None"

definition float_zero :: "string \<Rightarrow> bool" where
  "float_zero r \<longleftrightarrow> r = ''0.0'' \<or> r = ''-0.0''"

definition primitive_eq :: "(string \<Rightarrow> int \<Rightarrow> bool) \<Rightarrow> pyval \<Rightarrow> pyval \<Rightarrow> bool" where
  "primitive_eq float_is v u \<longleftrightarrow>
     (case (as_int v, as_int u) of
        (Some i, Some j) \<Rightarrow> i = j
      | (Some i, None) \<Rightarrow> (case u of VFloat r \<Rightarrow> float_is r i | _ \<Rightarrow> False)
      | (None, Some j) \<Rightarrow> (case v of VFloat r \<Rightarrow> float_is r j | _ \<Rightarrow> False)
      | (None, None) \<Rightarrow>
          (case (v, u) of
             (VFloat r, VFloat q) \<Rightarrow> (r = q \<and> r \<noteq> ''nan'') \<or> (float_zero r \<and> float_zero q)
           | _ \<Rightarrow> v = u))"

definition missing_diagnostic ::
  "unavailable_reason \<Rightarrow> availability_signal option \<Rightarrow> string \<Rightarrow> diagnostic" where
  "missing_diagnostic reason signal message = \<lparr>dg_reason = reason, dg_signal = signal, dg_message = message\<rparr>"

definition context_value :: "tool_context \<Rightarrow> string \<Rightarrow> pyval" where
  "context_value ctx key =
     (case tc_values ctx of
        Some vs \<Rightarrow> (case dict_get vs key of Some v \<Rightarrow> v | None \<Rightarrow> VNone)
      | None \<Rightarrow> VNone)"

definition evaluate_signal :: "availability_signal \<Rightarrow> tool_context \<Rightarrow> diagnostic option res" where
  "evaluate_signal signal ctx =
     (let fails = (\<lambda>reason message. Inr (Some (missing_diagnostic reason (Some signal) message)))
      in case signal of
        AlwaysSignal \<Rightarrow> Inr None
      | AuthSignal provider_id \<Rightarrow>
          (case tc_auth_provider_ids ctx of
             Some ids \<Rightarrow>
               (if provider_id \<in> ids then Inr None
                else fails AuthMissing (''Missing auth provider: '' @ provider_id))
           | None \<Rightarrow> fails AuthMissing (''Missing auth provider: '' @ provider_id))
      | ConfigSignal opt_path check \<Rightarrow>
          (case opt_path of
             None \<Rightarrow> Inl PyKeyError
           | Some path \<Rightarrow>
               (if has_configured_value (resolve_config_path (tc_config ctx) path) signal path check ctx then Inr None
                else fails ConfigMissing (''Missing config path: '' @ py_join ''.'' path)))
      | EnvSignal name \<Rightarrow>
          (case (case tc_env ctx of Some env \<Rightarrow> dict_get env name | None \<Rightarrow> None) of
             Some (VStr s) \<Rightarrow>
               (if py_strip s \<noteq> [] then Inr None
                else fails EnvMissing (''Missing environment value: '' @ name))
           | _ \<Rightarrow> fails EnvMissing (''Missing environment value: '' @ name))
      | PluginEnabledSignal plugin_id \<Rightarrow>
          (case tc_enabled_plugin_ids ctx of
             Some ids \<Rightarrow>
               (if plugin_id \<in> ids then Inr None
                else fails PluginDisabled (''Plugin is not enabled: '' @ plugin_id))
           | None \<Rightarrow> fails PluginDisabled (''Plugin is not enabled: '' @ plugin_id))
      | ContextSignal opt_key equals \<Rightarrow>
          (case opt_key of
             None \<Rightarrow> Inl PyKeyError
           | Some key \<Rightarrow>
               (let value = context_value ctx key
                in case equals of
                     None \<Rightarrow>
                       (if value = VNone then fails ContextMismatch (''Missing context value: '' @ key) else Inr None)
                   | Some expected \<Rightarrow>
                       (if primitive_eq (tc_float_is ctx) value expected then Inr None
                        else fails ContextMismatch (''Context value did not match: '' @ key))))
      | OtherSignal kind \<Rightarrow> fails UnsupportedSignal ''Unsupported availability signal'')"

definition is_unsupported :: "diagnostic \<Rightarrow> bool" where
  "is_unsupported d \<longleftrightarrow> dg_reason d = UnsupportedSignal"

lemma map_res_cong [fundef_cong]:
  "xs = ys \<Longrightarrow> (\<And>x. x \<in> set ys \<Longrightarrow> f x = g x) \<Longrightarrow> map_res f xs = map_res g ys"
  by (induction ys arbitrary: xs) auto

fun evaluate_expression :: "availability_expression \<Rightarrow> tool_context \<Rightarrow> diagnostic list res" where
  "evaluate_expression (Signal s) ctx =
     bind_res (evaluate_signal s ctx) (\<lambda>d. Inr (case d of Some x \<Rightarrow> [x] | None \<Rightarrow> []))"
| "evaluate_expression (AllOf entries) ctx =
     (if entries = [] then Inr [missing_diagnostic UnsupportedSignal None ''Empty availability allOf group'']
      else bind_res (map_res (\<lambda>e. evaluate_expression e ctx) entries) (\<lambda>rs. Inr (concat rs)))"
| "evaluate_expression (AnyOf entries) ctx =
     (if entries = [] then Inr [missing_diagnostic UnsupportedSignal None ''Empty availability anyOf group'']
      else bind_res (map_res (\<lambda>e. evaluate_expression e ctx) entries) (\<lambda>diagnostics.
        Inr (if list_ex (\<lambda>branch. branch = []) diagnostics
             then filter is_unsupported (concat diagnostics) else concat diagnostics)))"
| "evaluate_expression (Shapeless e) ctx =
     Inr [missing_diagnostic UnsupportedSignal None ''Unsupported availability expression'']"

text \<open>An availability that is missing or an empty dictionary is always given.\<close>

definition the_availability :: "tool_descriptor \<Rightarrow> availability_expression" where
  "the_availability d =
     (case td_availability d of
        None \<Rightarrow> Signal AlwaysSignal
      | Some (Shapeless True) \<Rightarrow> Signal AlwaysSignal
      | Some e \<Rightarrow> e)"

text \<open>A context that is not given is one without any of its keys.\<close>

definition evaluate_tool_availability :: "tool_descriptor \<Rightarrow> tool_context \<Rightarrow> diagnostic list res" where
  "evaluate_tool_availability d ctx = evaluate_expression (the_availability d) ctx"

section \<open>Plans\<close>

definition descriptor_name :: "tool_descriptor \<Rightarrow> string res" where
  "descriptor_name d = (case td_name d of Some n \<Rightarrow> Inr n | None \<Rightarrow> Inl PyKeyError)"

definition plan_key :: "tool_descriptor \<Rightarrow> string \<times> string" where
  "plan_key d =
     (let name = (case td_name d of Some n \<Rightarrow> n | None \<Rightarrow> [])
      in (case td_sort_key d of Some (c # k) \<Rightarrow> c # k | _ \<Rightarrow> name, name))"

fun assert_unique_names :: "string list \<Rightarrow> string list \<Rightarrow> unit res" where
  "assert_unique_names seen [] = Inr ()"
| "assert_unique_names seen (name # names) =
     (if name \<in> set seen
      then Inl (ToolPlanContractError ''duplicate-tool-name'' name (''Duplicate tool descriptor name: '' @ name))
      else assert_unique_names (name # seen) names)"

record tool_plan =
  pl_visible :: "(tool_descriptor \<times> executor_ref) list"
  pl_hidden :: "(tool_descriptor \<times> diagnostic list) list"

definition plan_descriptor :: "tool_context \<Rightarrow> tool_descriptor \<Rightarrow> tool_plan \<Rightarrow> tool_plan res" where
  "plan_descriptor ctx d plan =
     bind_res (evaluate_tool_availability d ctx) (\<lambda>diagnostics.
       if diagnostics \<noteq> [] then Inr (plan\<lparr>pl_hidden := pl_hidden plan @ [(d, diagnostics)]\<rparr>)
       else case td_executor d of
           None \<Rightarrow>
             bind_res (descriptor_name d) (\<lambda>name.
               Inl (ToolPlanContractError ''missing-executor'' name
                 (''Visible tool descriptor has no executor ref: '' @ name)))
         | Some x \<Rightarrow> Inr (plan\<lparr>pl_visible := pl_visible plan @ [(d, x)]\<rparr>))"

text \<open>The keys of the sort need the names, so a descriptor without one raises first.\<close>

definition build_tool_plan :: "tool_descriptor list \<Rightarrow> tool_context \<Rightarrow> tool_plan res" where
  "build_tool_plan ds ctx =
     bind_res (map_res descriptor_name ds) (\<lambda>names.
       let sorted = sort_key plan_key ds
       in bind_res (map_res descriptor_name sorted) (\<lambda>sorted_names.
            bind_res (assert_unique_names [] sorted_names) (\<lambda>u.
              fold_res (plan_descriptor ctx) sorted \<lparr>pl_visible = [], pl_hidden = []\<rparr>)))"

section \<open>Execution references and protocol descriptors\<close>

definition format_tool_executor_ref :: "executor_ref \<Rightarrow> string res" where
  "format_tool_executor_ref ref =
     (case ref of
        CoreExecutor i \<Rightarrow> Inr (''core:'' @ i)
      | PluginExecutor p t \<Rightarrow> Inr (''plugin:'' @ p @ '':'' @ t)
      | ChannelExecutor c a \<Rightarrow> Inr (''channel:'' @ c @ '':'' @ a)
      | McpExecutor s t \<Rightarrow> Inr (''mcp:'' @ s @ '':'' @ t)
      | OtherExecutor kind \<Rightarrow> Inl PyValueError)"

record protocol_descriptor =
  pd_name :: string
  pd_description :: pyval
  pd_input_schema :: pyval

definition to_tool_protocol_descriptor :: "tool_descriptor \<times> executor_ref \<Rightarrow> protocol_descriptor" where
  "to_tool_protocol_descriptor entry =
     \<lparr>pd_name = (case td_name (fst entry) of Some n \<Rightarrow> n | None \<Rightarrow> []),
      pd_description = (case td_description (fst entry) of Some v \<Rightarrow> v | None \<Rightarrow> VStr []),
      pd_input_schema = (case td_input_schema (fst entry) of Some v \<Rightarrow> v | None \<Rightarrow> VDict [])\<rparr>"

definition to_tool_protocol_descriptors :: "(tool_descriptor \<times> executor_ref) list \<Rightarrow> protocol_descriptor list" where
  "to_tool_protocol_descriptors entries = map to_tool_protocol_descriptor entries"

section \<open>The meaning of an expression\<close>

fun signal_holds :: "tool_context \<Rightarrow> availability_signal \<Rightarrow> bool" where
  "signal_holds ctx AlwaysSignal \<longleftrightarrow> True"
| "signal_holds ctx (AuthSignal p) \<longleftrightarrow> (\<exists>ids. tc_auth_provider_ids ctx = Some ids \<and> p \<in> ids)"
| "signal_holds ctx (ConfigSignal opt_path check) \<longleftrightarrow> (\<exists>path. opt_path = Some path \<and>
     has_configured_value (resolve_config_path (tc_config ctx) path) (ConfigSignal opt_path check) path check ctx)"
| "signal_holds ctx (EnvSignal n) \<longleftrightarrow>
     (\<exists>env s. tc_env ctx = Some env \<and> dict_get env n = Some (VStr s) \<and> py_strip s \<noteq> [])"
| "signal_holds ctx (PluginEnabledSignal p) \<longleftrightarrow> (\<exists>ids. tc_enabled_plugin_ids ctx = Some ids \<and> p \<in> ids)"
| "signal_holds ctx (ContextSignal opt_key equals) \<longleftrightarrow>
     (case opt_key of
        None \<Rightarrow> False
      | Some key \<Rightarrow>
          (case equals of
             None \<Rightarrow> context_value ctx key \<noteq> VNone
           | Some u \<Rightarrow> primitive_eq (tc_float_is ctx) (context_value ctx key) u))"
| "signal_holds ctx (OtherSignal k) \<longleftrightarrow> False"

fun satisfied :: "tool_context \<Rightarrow> availability_expression \<Rightarrow> bool" where
  "satisfied ctx (Signal s) \<longleftrightarrow> signal_holds ctx s"
| "satisfied ctx (AllOf es) \<longleftrightarrow> (\<forall>e\<in>set es. satisfied ctx e)"
| "satisfied ctx (AnyOf es) \<longleftrightarrow> (\<exists>e\<in>set es. satisfied ctx e)"
| "satisfied ctx (Shapeless e) \<longleftrightarrow> False"

fun supported_signal :: "availability_signal \<Rightarrow> bool" where
  "supported_signal (OtherSignal k) \<longleftrightarrow> False"
| "supported_signal s \<longleftrightarrow> True"

fun supported :: "availability_expression \<Rightarrow> bool" where
  "supported (Signal s) \<longleftrightarrow> supported_signal s"
| "supported (AllOf es) \<longleftrightarrow> es \<noteq> [] \<and> (\<forall>e\<in>set es. supported e)"
| "supported (AnyOf es) \<longleftrightarrow> es \<noteq> [] \<and> (\<forall>e\<in>set es. supported e)"
| "supported (Shapeless e) \<longleftrightarrow> False"

fun complete_signal :: "availability_signal \<Rightarrow> bool" where
  "complete_signal (ConfigSignal p c) \<longleftrightarrow> p \<noteq> None"
| "complete_signal (ContextSignal k e) \<longleftrightarrow> k \<noteq> None"
| "complete_signal s \<longleftrightarrow> True"

fun complete_expression :: "availability_expression \<Rightarrow> bool" where
  "complete_expression (Signal s) \<longleftrightarrow> complete_signal s"
| "complete_expression (AllOf es) \<longleftrightarrow> (\<forall>e\<in>set es. complete_expression e)"
| "complete_expression (AnyOf es) \<longleftrightarrow> (\<forall>e\<in>set es. complete_expression e)"
| "complete_expression (Shapeless e) \<longleftrightarrow> True"

lemma missing_reason [simp]: "is_unsupported (missing_diagnostic r s m) \<longleftrightarrow> r = UnsupportedSignal"
  by (simp add: is_unsupported_def missing_diagnostic_def)

lemma evaluate_signal_cases:
  assumes "evaluate_signal s ctx = Inr d"
  shows "(d = None \<longleftrightarrow> supported_signal s \<and> signal_holds ctx s) \<and>
    (\<forall>x. d = Some x \<longrightarrow> (is_unsupported x \<longleftrightarrow> \<not> supported_signal s)) \<and> complete_signal s"
  using assms
  by (cases s) (auto simp: evaluate_signal_def Let_def split: option.splits if_splits pyval.splits)

lemma map_res_Inr_nth: "map_res f xs = Inr ys \<Longrightarrow> list_all2 (\<lambda>x y. f x = Inr y) xs ys"
  by (induction xs arbitrary: ys) (auto simp: bind_res_eq_Inr)

lemma list_all2_images:
  assumes "list_all2 (\<lambda>x y. f x = Inr y) xs ys"
  shows "(\<forall>x\<in>set xs. \<exists>y\<in>set ys. f x = Inr y) \<and> (\<forall>y\<in>set ys. \<exists>x\<in>set xs. f x = Inr y)"
  using assms by (induction rule: list_all2_induct) auto

lemma evaluate_expression_spec:
  "evaluate_expression e ctx = Inr ds \<Longrightarrow>
    (ds = [] \<longleftrightarrow> supported e \<and> satisfied ctx e) \<and> (list_ex is_unsupported ds \<longleftrightarrow> \<not> supported e)"
proof (induction e arbitrary: ds)
  case (Signal s)
  then obtain d where d: "evaluate_signal s ctx = Inr d" "ds = (case d of Some x \<Rightarrow> [x] | None \<Rightarrow> [])"
    by (auto simp: bind_res_eq_Inr)
  from evaluate_signal_cases [OF d(1)] d(2) show ?case by (cases d) auto
next
  case (AllOf es)
  show ?case
  proof (cases "es = []")
    case False
    with AllOf.prems obtain rs where rs: "map_res (\<lambda>e. evaluate_expression e ctx) es = Inr rs" "ds = concat rs"
      by (auto simp: bind_res_eq_Inr)
    note im = list_all2_images [OF map_res_Inr_nth [OF rs(1)]]
    have "(\<forall>r\<in>set rs. r = []) \<longleftrightarrow> (\<forall>e\<in>set es. supported e \<and> satisfied ctx e)"
      using im AllOf.IH by (metis (no_types, lifting))
    moreover have "(\<exists>r\<in>set rs. list_ex is_unsupported r) \<longleftrightarrow> (\<exists>e\<in>set es. \<not> supported e)"
      using im AllOf.IH by (metis (no_types, lifting))
    ultimately show ?thesis using False rs(2) by (auto simp: list_ex_iff)
  qed (use AllOf.prems in auto)
next
  case (AnyOf es)
  show ?case
  proof (cases "es = []")
    case False
    with AnyOf.prems obtain rs where rs: "map_res (\<lambda>e. evaluate_expression e ctx) es = Inr rs"
        "ds = (if list_ex (\<lambda>r. r = []) rs then filter is_unsupported (concat rs) else concat rs)"
      by (auto simp: bind_res_eq_Inr)
    note im = list_all2_images [OF map_res_Inr_nth [OF rs(1)]]
    have some: "(\<exists>r\<in>set rs. r = []) \<longleftrightarrow> (\<exists>e\<in>set es. supported e \<and> satisfied ctx e)"
      using im AnyOf.IH by (metis (no_types, lifting))
    have bad: "(\<exists>r\<in>set rs. list_ex is_unsupported r) \<longleftrightarrow> (\<exists>e\<in>set es. \<not> supported e)"
      using im AnyOf.IH by (metis (no_types, lifting))
    have "rs \<noteq> []" using im False by (cases es) auto
    have "list_ex is_unsupported ds \<longleftrightarrow> (\<exists>r\<in>set rs. list_ex is_unsupported r)"
      by (auto simp: rs(2) list_ex_iff)
    moreover have "ds = [] \<longleftrightarrow> (\<exists>r\<in>set rs. r = []) \<and> \<not> (\<exists>r\<in>set rs. list_ex is_unsupported r)"
      using \<open>rs \<noteq> []\<close> by (cases rs) (auto simp: rs(2) list_ex_iff filter_empty_conv)
    ultimately show ?thesis using some bad False by auto
  qed (use AnyOf.prems in auto)
qed auto

lemma map_res_returns: "(\<And>x. x \<in> set xs \<Longrightarrow> \<exists>y. f x = Inr y) \<Longrightarrow> \<exists>ys. map_res f xs = Inr ys"
proof (induction xs)
  case (Cons x xs)
  then obtain y ys where "f x = Inr y" "map_res f xs = Inr ys" by fastforce
  then show ?case by simp
qed simp

lemma evaluate_expression_total: "complete_expression e \<Longrightarrow> \<exists>ds. evaluate_expression e ctx = Inr ds"
proof (induction e)
  case (Signal s)
  then show ?case
    by (cases s) (auto simp: evaluate_signal_def Let_def split: option.splits pyval.splits)
next
  case (AllOf es)
  then have "\<exists>rs. map_res (\<lambda>e. evaluate_expression e ctx) es = Inr rs" by (intro map_res_returns) simp
  then show ?case by auto
next
  case (AnyOf es)
  then have "\<exists>rs. map_res (\<lambda>e. evaluate_expression e ctx) es = Inr rs" by (intro map_res_returns) simp
  then show ?case by auto
qed simp

section \<open>An example\<close>

definition demo_tool :: "string \<Rightarrow> availability_expression option \<Rightarrow> tool_descriptor" where
  "demo_tool name e =
     \<lparr>td_name = Some name, td_description = None, td_input_schema = None,
      td_executor = Some (CoreExecutor name), td_availability = e, td_sort_key = None\<rparr>"

definition demo_tools :: "tool_descriptor list" where
  "demo_tools =
     [demo_tool ''write'' (Some (AnyOf [Signal (EnvSignal ''KEY''), Signal (AuthSignal ''p'')])),
      demo_tool ''read'' None]"

definition demo_tool_context :: tool_context where
  "demo_tool_context =
     \<lparr>tc_auth_provider_ids = Some {''p''}, tc_config = VNone, tc_is_config_value_available = None, tc_env = None,
      tc_enabled_plugin_ids = None, tc_values = None, tc_float_is = (\<lambda>r i. False)\<rparr>"

definition demo_plan :: tool_plan where
  "demo_plan =
     \<lparr>pl_visible = [(demo_tools ! 1, CoreExecutor ''read''), (demo_tools ! 0, CoreExecutor ''write'')],
      pl_hidden = []\<rparr>"

lemma demo_tool_plan: "build_tool_plan demo_tools demo_tool_context = Inr demo_plan"
  by code_simp

text \<open>
  C23. An expression whose signals have their keys is always evaluated, and a tool is available, that is
  without diagnostics, exactly when the expression is supported throughout (no empty group, no unknown kind
  or shape anywhere, not even in a branch that is not needed) and holds as a formula over the signals.
\<close>

theorem availability_is_formula:
  assumes "complete_expression (the_availability d)"
  shows "\<exists>ds. evaluate_tool_availability d ctx = Inr ds \<and>
    (ds = [] \<longleftrightarrow> supported (the_availability d) \<and> satisfied ctx (the_availability d))"
  using evaluate_expression_total [OF assms, of ctx] evaluate_expression_spec [of "the_availability d" ctx]
  by (auto simp: evaluate_tool_availability_def)

theorem availability_is_formula_witness:
  "evaluate_tool_availability (demo_tools ! 0) demo_tool_context = Inr []"
proof -
  have "complete_expression (the_availability (demo_tools ! 0))" "supported (the_availability (demo_tools ! 0))"
    by code_simp+
  moreover have "satisfied demo_tool_context (the_availability (demo_tools ! 0))"
    by (simp add: demo_tools_def demo_tool_def the_availability_def demo_tool_context_def)
  ultimately show ?thesis using availability_is_formula [of "demo_tools ! 0" demo_tool_context] by auto
qed

section \<open>Plans\<close>

definition available :: "tool_context \<Rightarrow> tool_descriptor \<Rightarrow> bool" where
  "available ctx d \<longleftrightarrow> evaluate_tool_availability d ctx = Inr []"

lemma plan_descriptors:
  "fold_res (plan_descriptor ctx) ds p = Inr q \<Longrightarrow>
    pl_visible q = pl_visible p @ map (\<lambda>d. (d, the (td_executor d))) (filter (available ctx) ds) \<and>
    map fst (pl_hidden q) = map fst (pl_hidden p) @ filter (\<lambda>d. \<not> available ctx d) ds \<and>
    (\<forall>d\<in>set ds. available ctx d \<longrightarrow> td_executor d \<noteq> None) \<and>
    (\<forall>(d, diags)\<in>set (pl_hidden q). (d, diags) \<in> set (pl_hidden p) \<or>
       diags \<noteq> [] \<and> evaluate_tool_availability d ctx = Inr diags)"
proof (induction ds arbitrary: p)
  case (Cons d ds)
  from Cons.prems obtain p' where step: "plan_descriptor ctx d p = Inr p'"
    and rest: "fold_res (plan_descriptor ctx) ds p' = Inr q" by (auto simp: bind_res_eq_Inr)
  from step obtain diags where ev: "evaluate_tool_availability d ctx = Inr diags"
    by (auto simp: plan_descriptor_def bind_res_eq_Inr)
  note IH = Cons.IH [OF rest]
  show ?case
  proof (cases "diags = []")
    case True
    with step ev obtain x where "td_executor d = Some x" "p' = p\<lparr>pl_visible := pl_visible p @ [(d, x)]\<rparr>"
      by (auto simp: plan_descriptor_def bind_res_eq_Inr split: option.splits)
    with IH ev True show ?thesis by (auto simp: available_def)
  next
    case False
    with step ev have "p' = p\<lparr>pl_hidden := pl_hidden p @ [(d, diags)]\<rparr>"
      by (auto simp: plan_descriptor_def bind_res_eq_Inr)
    with IH ev False show ?thesis by (auto simp: available_def)
  qed
qed auto

lemma assert_unique_names_Inr:
  "assert_unique_names seen ns = Inr u \<longleftrightarrow> distinct ns \<and> set ns \<inter> set seen = {}"
  by (induction ns arbitrary: seen) auto

lemma assert_unique_names_Inl:
  "assert_unique_names seen ns = Inl e \<Longrightarrow>
    \<exists>n\<in>set ns. e = ToolPlanContractError ''duplicate-tool-name'' n (''Duplicate tool descriptor name: '' @ n)"
  by (induction ns arbitrary: seen) (auto split: if_splits)

lemma descriptor_names:
  "map_res descriptor_name ds = Inr ns \<Longrightarrow> map td_name ds = map Some ns"
  by (induction ds arbitrary: ns) (auto simp: bind_res_eq_Inr descriptor_name_def split: option.splits)

lemma descriptor_names_exist:
  "\<forall>d\<in>set ds. td_name d \<noteq> None \<Longrightarrow> \<exists>ns. map_res descriptor_name ds = Inr ns"
  by (induction ds) (auto simp: descriptor_name_def)

lemma build_tool_plan_Inr:
  "build_tool_plan ds ctx = Inr p \<longleftrightarrow>
     (\<forall>d\<in>set ds. td_name d \<noteq> None) \<and> distinct (map td_name ds) \<and>
     fold_res (plan_descriptor ctx) (sort_key plan_key ds) \<lparr>pl_visible = [], pl_hidden = []\<rparr> = Inr p"
proof (cases "\<forall>d\<in>set ds. td_name d \<noteq> None")
  case True
  obtain ns where ns: "map_res descriptor_name ds = Inr ns" using descriptor_names_exist [OF True] by blast
  obtain ms where ms: "map_res descriptor_name (sort_key plan_key ds) = Inr ms"
    using descriptor_names_exist [of "sort_key plan_key ds"] True by auto
  have "distinct ms \<longleftrightarrow> distinct (map td_name (sort_key plan_key ds))"
    unfolding descriptor_names [OF ms] by (simp add: distinct_map inj_on_def)
  also have "\<dots> \<longleftrightarrow> distinct (map td_name ds)"
    by (rule mset_eq_imp_distinct_iff) simp
  finally have "distinct ms \<longleftrightarrow> distinct (map td_name ds)" .
  moreover have "assert_unique_names [] ms = Inr () \<longleftrightarrow> distinct ms" by (simp add: assert_unique_names_Inr)
  ultimately show ?thesis
    using True by (auto simp: build_tool_plan_def ns ms Let_def bind_res_eq_Inr)
next
  case False
  then have "\<nexists>ns. map_res descriptor_name ds = Inr ns"
    using descriptor_names [of ds] by (metis (no_types, lifting) in_set_conv_nth length_map nth_map option.distinct(1))
  then show ?thesis using False by (auto simp: build_tool_plan_def bind_res_eq_Inr)
qed

text \<open>
  C24. A plan splits the descriptors, sorted by their keys: the available ones are visible with their
  executors, in this order, the others are hidden with the diagnostics that hide them; names are unique.
\<close>

theorem plan_splits_descriptors:
  assumes "build_tool_plan ds ctx = Inr p"
  shows "map fst (pl_visible p) = filter (available ctx) (sort_key plan_key ds) \<and>
    map fst (pl_hidden p) = filter (\<lambda>d. \<not> available ctx d) (sort_key plan_key ds) \<and>
    distinct (map td_name ds) \<and>
    (\<forall>(d, x)\<in>set (pl_visible p). td_executor d = Some x) \<and>
    (\<forall>(d, diags)\<in>set (pl_hidden p). diags \<noteq> [] \<and> evaluate_tool_availability d ctx = Inr diags)"
proof -
  from assms have f: "fold_res (plan_descriptor ctx) (sort_key plan_key ds) \<lparr>pl_visible = [], pl_hidden = []\<rparr> = Inr p"
    and u: "distinct (map td_name ds)" by (simp_all add: build_tool_plan_Inr)
  from plan_descriptors [OF f] u show ?thesis by (auto simp: comp_def)
qed

theorem plan_splits_descriptors_witness:
  "map fst (pl_visible demo_plan) = filter (available demo_tool_context) (sort_key plan_key demo_tools)"
  using plan_splits_descriptors [OF demo_tool_plan] by simp

text \<open>
  The plan does not depend on the order of the descriptors.
\<close>

theorem plan_order_independent:
  assumes "build_tool_plan ds ctx = Inr p" "mset es = mset ds"
  shows "build_tool_plan es ctx = Inr p"
proof -
  from assms(1) have ok: "\<forall>d\<in>set ds. td_name d \<noteq> None" "distinct (map td_name ds)"
    by (simp_all add: build_tool_plan_Inr)
  have s: "set es = set ds" using assms(2) by (metis set_mset_mset)
  have "inj_on plan_key (set es)"
  proof (rule inj_onI)
    fix x y assume xy: "x \<in> set es" "y \<in> set es" "plan_key x = plan_key y"
    from xy(3) have "snd (plan_key x) = snd (plan_key y)" by simp
    then have "td_name x = td_name y" using ok(1) s xy(1,2) by (auto simp: plan_key_def Let_def split: option.splits)
    then show "x = y" using ok(2) xy(1,2) s by (simp add: distinct_map inj_on_def)
  qed
  then have "sort_key plan_key es = sort_key plan_key ds"
    using assms(2) by (intro sort_key_inj_key_eq) simp_all
  moreover have "distinct (map td_name es)"
    using ok(2) assms(2) by (metis mset_map mset_eq_imp_distinct_iff)
  ultimately show ?thesis using assms(1) ok s by (simp add: build_tool_plan_Inr)
qed

theorem plan_order_independent_witness:
  "build_tool_plan (rev demo_tools) demo_tool_context = Inr demo_plan"
  by (rule plan_order_independent [OF demo_tool_plan]) simp

text \<open>
  Two descriptors with one name are an error, whatever else is wrong with the descriptors, and the
  error names a tool of the list.
\<close>

theorem duplicate_names_rejected:
  assumes "\<forall>d\<in>set ds. td_name d \<noteq> None" "\<not> distinct (map td_name ds)"
  shows "\<exists>n. Some n \<in> td_name ` set ds \<and> build_tool_plan ds ctx =
    Inl (ToolPlanContractError ''duplicate-tool-name'' n (''Duplicate tool descriptor name: '' @ n))"
proof -
  obtain ns where ns: "map_res descriptor_name ds = Inr ns" using descriptor_names_exist [OF assms(1)] by blast
  obtain ms where ms: "map_res descriptor_name (sort_key plan_key ds) = Inr ms"
    using descriptor_names_exist [of "sort_key plan_key ds"] assms(1) by auto
  have "\<not> distinct (map td_name (sort_key plan_key ds))"
    using assms(2) by (metis mset_map mset_sort mset_eq_imp_distinct_iff)
  then have "\<not> distinct ms" unfolding descriptor_names [OF ms] by (simp add: distinct_map)
  then have "assert_unique_names [] ms \<noteq> Inr ()" by (simp add: assert_unique_names_Inr)
  then obtain e where e: "assert_unique_names [] ms = Inl e" by (metis old.unit.exhaust sum.exhaust)
  then obtain n where n: "n \<in> set ms"
    "e = ToolPlanContractError ''duplicate-tool-name'' n (''Duplicate tool descriptor name: '' @ n)"
    using assert_unique_names_Inl by blast
  have "Some n \<in> set (map td_name (sort_key plan_key ds))"
    unfolding descriptor_names [OF ms] using n(1) by simp
  then have "Some n \<in> td_name ` set ds" by simp
  with e n show ?thesis by (auto simp: build_tool_plan_def ns ms Let_def)
qed

theorem duplicate_names_rejected_witness:
  "\<exists>n. Some n \<in> td_name ` set [demo_tools ! 0, demo_tools ! 0] \<and>
     build_tool_plan [demo_tools ! 0, demo_tools ! 0] demo_tool_context =
       Inl (ToolPlanContractError ''duplicate-tool-name'' n (''Duplicate tool descriptor name: '' @ n))"
  by (rule duplicate_names_rejected) (simp_all add: demo_tools_def demo_tool_def)

end
