(* ===== verification/PyJson.thy ===== *)
theory PyJson
  imports PyVal
begin

text \<open>
  \<^verbatim>\<open>json.loads\<close> of the standard library, on the strings of the model, and that it reads back what
  \<^verbatim>\<open>json.dumps\<close> writes. A code point above 255, which only an escape can introduce, and the \<^verbatim>\<open>repr\<close> of the
  float that a number stands for are parameters. The limits of the interpreter on the depth of the
  recursion and on the digits of an integer are not modelled. Every error is a \<^verbatim>\<open>ValueError\<close>.
\<close>

section \<open>The reader\<close>

record json_lib =
  jl_wide :: "nat \<Rightarrow> string"
  jl_float :: "string \<Rightarrow> string"

abbreviation quote_char :: char where "quote_char \<equiv> CHR 0x22"
abbreviation backslash :: char where "backslash \<equiv> CHR 0x5C"

definition json_space :: "char \<Rightarrow> bool" where
  "json_space c \<longleftrightarrow> c = CHR '' '' \<or> c = CHR 0x09 \<or> c = newline \<or> c = CHR 0x0D"

definition skip_ws :: "string \<Rightarrow> string" where
  "skip_ws s = dropWhile json_space s"

definition hex_value :: "char \<Rightarrow> nat option" where
  "hex_value c =
     (let n = ord_char c
      in if 48 \<le> n \<and> n \<le> 57 then Some (n - 48)
         else if 97 \<le> n \<and> n \<le> 102 then Some (n - 87)
         else if 65 \<le> n \<and> n \<le> 70 then Some (n - 55) else None)"

fun hex4 :: "string \<Rightarrow> nat option" where
  "hex4 (a # b # c # d # s) =
     (case (hex_value a, hex_value b, hex_value c, hex_value d) of
        (Some w, Some x, Some y, Some z) \<Rightarrow> Some (((w * 16 + x) * 16 + y) * 16 + z)
      | _ \<Rightarrow> None)"
| "hex4 s = None"

definition code_point :: "json_lib \<Rightarrow> nat \<Rightarrow> string" where
  "code_point L n = (if n < 256 then [char_of n] else jl_wide L n)"

definition simple_escape :: "char \<Rightarrow> char option" where
  "simple_escape c =
     (if c = quote_char \<or> c = backslash \<or> c = CHR ''/'' then Some c
      else if c = CHR ''b'' then Some (CHR 0x08)
      else if c = CHR ''f'' then Some (CHR 0x0C)
      else if c = CHR ''n'' then Some newline
      else if c = CHR ''r'' then Some (CHR 0x0D)
      else if c = CHR ''t'' then Some (CHR 0x09) else None)"

text \<open>A high surrogate and the escape of a low one behind it are one code point.\<close>

definition low_surrogate :: "nat \<Rightarrow> string \<Rightarrow> nat option" where
  "low_surrogate n s =
     (if 0xD800 \<le> n \<and> n < 0xDC00 \<and> py_startswith s [backslash, CHR ''u'']
      then (case hex4 (drop 2 s) of
              Some m \<Rightarrow> (if 0xDC00 \<le> m \<and> m < 0xE000 then Some (0x10000 + (n - 0xD800) * 1024 + (m - 0xDC00)) else None)
            | None \<Rightarrow> None)
      else None)"

text \<open>The rest of a string literal, after its opening quote.\<close>

fun scan_string :: "json_lib \<Rightarrow> string \<Rightarrow> (string \<times> string) res" where
  "scan_string L [] = Inl PyValueError"
| "scan_string L (c # s) =
     (if c = quote_char then Inr ([], s)
      else if c = backslash then
        (case s of
           [] \<Rightarrow> Inl PyValueError
         | e # s' \<Rightarrow>
             (if e = CHR ''u'' then
                (case hex4 s' of
                   None \<Rightarrow> Inl PyValueError
                 | Some n \<Rightarrow>
                     (case low_surrogate n (drop 4 s') of
                        Some m \<Rightarrow> bind_res (scan_string L (drop 10 s')) (\<lambda>(t, r). Inr (code_point L m @ t, r))
                      | None \<Rightarrow> bind_res (scan_string L (drop 4 s')) (\<lambda>(t, r). Inr (code_point L n @ t, r))))
              else (case simple_escape e of
                   None \<Rightarrow> Inl PyValueError
                 | Some d \<Rightarrow> bind_res (scan_string L s') (\<lambda>(t, r). Inr (d # t, r)))))
      else if ord_char c < 32 then Inl PyValueError
      else bind_res (scan_string L s) (\<lambda>(t, r). Inr (c # t, r)))"

text \<open>Numbers: \<^verbatim>\<open>(-?(?:0|[1-9][0-9]*))(\.[0-9]+)?([eE][-+]?[0-9]+)?\<close>\<close>

definition span_digits :: "string \<Rightarrow> string \<times> string" where
  "span_digits s = (takeWhile is_digit s, dropWhile is_digit s)"

definition decimal_value :: "string \<Rightarrow> int" where
  "decimal_value s = foldl (\<lambda>a c. 10 * a + (int (ord_char c) - 48)) 0 s"

definition json_digits :: "string \<Rightarrow> (string \<times> string) option" where
  "json_digits s =
     (case s of
        [] \<Rightarrow> None
      | c # r \<Rightarrow> (if c = CHR ''0'' then Some ([c], r) else if is_digit c then Some (span_digits s) else None))"

definition fraction :: "string \<Rightarrow> string \<times> string" where
  "fraction s =
     (case s of
        c # r \<Rightarrow> (if c = CHR ''.'' \<and> fst (span_digits r) \<noteq> [] then (c # fst (span_digits r), snd (span_digits r)) else ([], s))
      | [] \<Rightarrow> ([], []))"

definition split_sign :: "string \<Rightarrow> string \<times> string" where
  "split_sign s = (case s of c # r \<Rightarrow> (if c = CHR ''-'' \<or> c = CHR ''+'' then ([c], r) else ([], s)) | [] \<Rightarrow> ([], []))"

definition exponent :: "string \<Rightarrow> string \<times> string" where
  "exponent s =
     (case s of
        c # r \<Rightarrow>
          (let (sign, r1) = split_sign r; (ds, r2) = span_digits r1
           in if (c = CHR ''e'' \<or> c = CHR ''E'') \<and> ds \<noteq> [] then (c # sign @ ds, r2) else ([], s))
      | [] \<Rightarrow> ([], []))"

definition json_number :: "json_lib \<Rightarrow> string \<Rightarrow> (pyval \<times> string) res" where
  "json_number L s =
     (let (neg, s1) = (case s of c # r \<Rightarrow> (if c = CHR ''-'' then (True, r) else (False, s)) | [] \<Rightarrow> (False, []))
      in case json_digits s1 of
           None \<Rightarrow> Inl PyValueError
         | Some (ds, s2) \<Rightarrow>
             (let (fr, s3) = fraction s2; (ex, s4) = exponent s3
              in if fr = [] \<and> ex = [] then Inr (VInt (if neg then - decimal_value ds else decimal_value ds), s4)
                 else Inr (VFloat (jl_float L ((if neg then ''-'' else []) @ ds @ fr @ ex)), s4)))"

definition json_literals :: "(string \<times> pyval) list" where
  "json_literals =
     [(''null'', VNone), (''true'', VBool True), (''false'', VBool False), (''NaN'', VFloat ''nan''),
      (''Infinity'', VFloat ''inf''), (''-Infinity'', VFloat ''-inf'')]"

definition json_literal :: "string \<Rightarrow> (pyval \<times> string) option" where
  "json_literal s =
     (case filter (\<lambda>(w, v). py_startswith s w) json_literals of
        [] \<Rightarrow> None
      | (w, v) # _ \<Rightarrow> Some (v, drop (length w) s))"

text \<open>
  Values, the elements of a list and the members of a dictionary. The number bounds the depth of the
  recursion; \<open>json_fuel\<close> shows that twice the length of the text is enough.
\<close>

fun json_value :: "json_lib \<Rightarrow> nat \<Rightarrow> string \<Rightarrow> (pyval \<times> string) res"
  and json_elements :: "json_lib \<Rightarrow> nat \<Rightarrow> string \<Rightarrow> (pyval list \<times> string) res"
  and json_members :: "json_lib \<Rightarrow> nat \<Rightarrow> string \<Rightarrow> (string, pyval) dict \<Rightarrow> (pyval \<times> string) res" where
  "json_value L 0 s = Inl PyValueError"
| "json_value L (Suc n) s =
     (case s of
        [] \<Rightarrow> Inl PyValueError
      | c # r \<Rightarrow>
          (if c = quote_char then bind_res (scan_string L r) (\<lambda>(t, r'). Inr (VStr t, r'))
           else if c = CHR ''{'' then
             (if take 1 (skip_ws r) = ''}'' then Inr (VDict [], drop 1 (skip_ws r))
              else json_members L n (skip_ws r) [])
           else if c = CHR ''['' then
             (if take 1 (skip_ws r) = '']'' then Inr (VList [], drop 1 (skip_ws r))
              else bind_res (json_elements L n (skip_ws r)) (\<lambda>(vs, r'). Inr (VList vs, r')))
           else (case json_literal s of Some x \<Rightarrow> Inr x | None \<Rightarrow> json_number L s)))"
| "json_elements L 0 s = Inl PyValueError"
| "json_elements L (Suc n) s =
     bind_res (json_value L n s) (\<lambda>(v, r).
       if take 1 (skip_ws r) = '']'' then Inr ([v], drop 1 (skip_ws r))
       else if take 1 (skip_ws r) = '','' then
         bind_res (json_elements L n (skip_ws (drop 1 (skip_ws r)))) (\<lambda>(vs, r'). Inr (v # vs, r'))
       else Inl PyValueError)"
| "json_members L 0 s d = Inl PyValueError"
| "json_members L (Suc n) s d =
     (if take 1 s = [quote_char] then
        bind_res (scan_string L (drop 1 s)) (\<lambda>(k, r).
          if take 1 (skip_ws r) = '':'' then
            bind_res (json_value L n (skip_ws (drop 1 (skip_ws r)))) (\<lambda>(v, r').
              if take 1 (skip_ws r') = ''}'' then Inr (VDict (dict_set d k v), drop 1 (skip_ws r'))
              else if take 1 (skip_ws r') = '','' then json_members L n (skip_ws (drop 1 (skip_ws r'))) (dict_set d k v)
              else Inl PyValueError)
          else Inl PyValueError)
      else Inl PyValueError)"

definition json_loads :: "json_lib \<Rightarrow> string \<Rightarrow> pyval res" where
  "json_loads L s =
     bind_res (json_value L (2 * length s) (skip_ws s)) (\<lambda>(v, r).
       if skip_ws r = [] then Inr v else Inl PyValueError)"

section \<open>Reading what was written: strings\<close>

lemma hex_value_digit [simp]: "n < 16 \<Longrightarrow> hex_value (hex_digit n) = Some n"
  by (auto simp: hex_value_def hex_digit_def Let_def)

lemma hex4_hex2: "n < 256 \<Longrightarrow> hex4 (CHR ''0'' # CHR ''0'' # hex2 n @ s) = Some n"
proof -
  assume n: "n < 256"
  have "hex_value (CHR ''0'') = Some 0" by (simp add: hex_value_def ord_char_def Let_def)
  moreover have "n div 16 mod 16 * 16 + n mod 16 = n" using n by simp
  ultimately show ?thesis by (simp add: hex2_def)
qed

lemma char_simps: "ord_char quote_char = 34" "ord_char backslash = 92" "ord_char newline = 10"
  "ord_char (CHR 0x0D) = 13" "ord_char (CHR 0x09) = 9" "ord_char (CHR 0x0C) = 12" "ord_char (CHR 0x08) = 8"
  by (simp_all add: ord_char_def)

lemma char_eqI: "ord_char c = n \<Longrightarrow> ord_char d = n \<Longrightarrow> c = d"
  using ord_char_inject by metis

lemma scan_escape:
  "simple_escape e = Some d \<Longrightarrow>
    scan_string L (backslash # e # s) = bind_res (scan_string L s) (\<lambda>(t, r). Inr (d # t, r))"
  by (auto simp: simple_escape_def split: if_splits)

lemma scan_unicode_escape:
  "scan_string L (unicode_escape c @ s) = bind_res (scan_string L s) (\<lambda>(t, r). Inr (c # t, r))"
proof -
  have "hex4 (CHR ''0'' # CHR ''0'' # hex2 (ord_char c) @ s) = Some (ord_char c)" by (rule hex4_hex2) simp
  moreover have "low_surrogate (ord_char c) t = None" for t
    using ord_char_less [of c] by (auto simp: low_surrogate_def simp del: ord_char_less)
  moreover have "code_point L (ord_char c) = [c]" by (simp add: code_point_def ord_char_def)
  ultimately show ?thesis by (simp add: unicode_escape_def hex2_def)
qed

lemma ord_char_iff:
  "ord_char c = 34 \<longleftrightarrow> c = quote_char" "ord_char c = 92 \<longleftrightarrow> c = backslash" "ord_char c = 10 \<longleftrightarrow> c = newline"
  "ord_char c = 13 \<longleftrightarrow> c = CHR 0x0D" "ord_char c = 9 \<longleftrightarrow> c = CHR 0x09" "ord_char c = 12 \<longleftrightarrow> c = CHR 0x0C"
  "ord_char c = 8 \<longleftrightarrow> c = CHR 0x08"
  by (metis char_eqI char_simps)+

lemma json_char_eq:
  "json_char c =
     (if c = quote_char then [backslash, quote_char] else if c = backslash then [backslash, backslash]
      else if c = newline then [backslash, CHR ''n''] else if c = CHR 0x0D then [backslash, CHR ''r'']
      else if c = CHR 0x09 then [backslash, CHR ''t''] else if c = CHR 0x0C then [backslash, CHR ''f'']
      else if c = CHR 0x08 then [backslash, CHR ''b'']
      else if 32 \<le> ord_char c \<and> ord_char c \<le> 126 then [c] else unicode_escape c)"
  unfolding json_char_def Let_def ord_char_iff ..

lemma json_char_cases:
  "(\<exists>e. json_char c = [backslash, e] \<and> simple_escape e = Some c) \<or>
   (json_char c = [c] \<and> c \<noteq> quote_char \<and> c \<noteq> backslash \<and> 32 \<le> ord_char c) \<or> json_char c = unicode_escape c"
proof (cases "c \<in> {quote_char, backslash, newline, CHR 0x0D, CHR 0x09, CHR 0x0C, CHR 0x08}")
  case True
  then show ?thesis by (auto simp: json_char_eq simple_escape_def)
next
  case False
  then show ?thesis by (simp add: json_char_eq)
qed

lemma scan_json_char:
  "scan_string L (json_char c @ s) = bind_res (scan_string L s) (\<lambda>(t, r). Inr (c # t, r))"
proof -
  consider (esc) e where "json_char c = [backslash, e]" "simple_escape e = Some c"
    | (plain) "json_char c = [c]" "c \<noteq> quote_char" "c \<noteq> backslash" "32 \<le> ord_char c"
    | (uni) "json_char c = unicode_escape c"
    using json_char_cases by blast
  then show ?thesis
  proof cases
    case esc
    then show ?thesis by (simp only: append.simps scan_escape)
  next
    case plain
    then show ?thesis by simp
  next
    case uni
    then show ?thesis by (simp only: scan_unicode_escape)
  qed
qed

lemma scan_json_chars:
  "scan_string L (concat (map json_char t) @ quote_char # s) = Inr (t, s)"
  by (induction t) (simp_all add: scan_json_char del: scan_string.simps(2), simp)

section \<open>Reading what was written: numbers\<close>

definition stops :: "string \<Rightarrow> bool" where
  "stops s \<longleftrightarrow> s = [] \<or> (\<not> is_digit (hd s) \<and> hd s \<notin> set ''.eE+-'')"

lemma stops_simps [simp]: "stops []" "stops (CHR '','' # s)" "stops (CHR '']'' # s)" "stops (CHR ''}'' # s)"
  by (simp_all add: stops_def is_digit_def ord_char_def)

lemma is_digit_0 [simp]: "is_digit (CHR ''0'')" and not_digit_minus [simp]: "\<not> is_digit (CHR ''-'')"
  by (simp_all add: is_digit_def ord_char_def)

lemma span_digits_append:
  "stops rest \<Longrightarrow> span_digits (s @ rest) = (fst (span_digits s), snd (span_digits s) @ rest)"
proof (induction s)
  case Nil
  then show ?case by (cases rest) (simp_all add: span_digits_def stops_def)
next
  case (Cons c s)
  then show ?case by (simp add: span_digits_def)
qed

lemma json_digits_append:
  "stops rest \<Longrightarrow> json_digits (s @ rest) = map_option (\<lambda>(d, r). (d, r @ rest)) (json_digits s)"
proof (cases s)
  case Nil
  assume stops: "stops rest"
  show ?thesis
  proof (cases rest)
    case (Cons a t)
    with stops have a: "\<not> is_digit a" by (simp add: stops_def)
    then have "a \<noteq> CHR ''0''" by (metis is_digit_0)
    with a Cons Nil show ?thesis by (simp add: json_digits_def)
  qed (simp add: Nil json_digits_def)
next
  case (Cons c r)
  assume "stops rest"
  then show ?thesis using span_digits_append [of rest s] Cons by (auto simp: json_digits_def split: prod.splits)
qed

lemma fraction_append: "stops rest \<Longrightarrow> fraction (s @ rest) = (fst (fraction s), snd (fraction s) @ rest)"
proof (cases s)
  case Nil
  assume "stops rest"
  with Nil show ?thesis by (cases rest) (auto simp: fraction_def stops_def)
next
  case (Cons c r)
  assume "stops rest"
  then show ?thesis using span_digits_append [of rest r] Cons by (auto simp: fraction_def)
qed

lemma split_sign_append: "stops rest \<Longrightarrow> split_sign (s @ rest) = (fst (split_sign s), snd (split_sign s) @ rest)"
  by (cases s; cases rest) (auto simp: split_sign_def stops_def)

lemma exponent_append: "stops rest \<Longrightarrow> exponent (s @ rest) = (fst (exponent s), snd (exponent s) @ rest)"
proof (cases s)
  case Nil
  assume "stops rest"
  with Nil show ?thesis by (cases rest) (auto simp: exponent_def stops_def split: prod.splits)
next
  case (Cons c r)
  assume "stops rest"
  then show ?thesis using span_digits_append [of rest "snd (split_sign r)"] split_sign_append [of rest r] Cons
    by (simp add: exponent_def split: prod.splits)
qed

lemma json_number_append:
  assumes "stops rest" "json_number L s = Inr (v, r)"
  shows "json_number L (s @ rest) = Inr (v, r @ rest)"
proof -
  have "s \<noteq> []" using assms(2) by (auto simp: json_number_def json_digits_def)
  then obtain c t where s: "s = c # t" by (cases s) auto
  show ?thesis
    using assms(2) json_digits_append [OF assms(1), of t] json_digits_append [OF assms(1), of s]
    by (auto simp: json_number_def s fraction_append [OF assms(1)] exponent_append [OF assms(1)]
        split: option.splits prod.splits if_splits)
qed

lemma decimal_value_snoc [simp]: "decimal_value (s @ [c]) = 10 * decimal_value s + (int (ord_char c) - 48)"
  by (simp add: decimal_value_def)

lemma decimal_value_digits [simp]: "decimal_value (digits_of n) = int n"
proof (induction n rule: digits_of.induct)
  case (1 n)
  show ?case
  proof (cases "n < 10")
    case True
    then show ?thesis by (simp add: digits_of.simps [of n] decimal_value_def)
  next
    case False
    with 1 show ?thesis by (simp add: digits_of.simps [of n] zdiv_int zmod_int)
  qed
qed

lemma digits_of_hd: "n \<noteq> 0 \<Longrightarrow> hd (digits_of n) \<noteq> CHR ''0''"
proof (induction n rule: digits_of.induct)
  case (1 n)
  show ?case
  proof (cases "n < 10")
    case True
    have "ord_char (char_of (48 + n)) \<noteq> ord_char (CHR ''0'')" using True 1 by (simp add: ord_char_def)
    then have "(char_of (48 + n) :: char) \<noteq> CHR ''0''" by metis
    with True show ?thesis by (simp add: digits_of.simps [of n])
  next
    case False
    with 1 show ?thesis by (simp add: digits_of.simps [of n])
  qed
qed

lemma digits_of_zero: "digits_of 0 = ''0''"
  by (simp add: digits_of.simps char_of_def bit_Suc_0_iff)

lemma json_digits_digits_of [simp]: "json_digits (digits_of n) = Some (digits_of n, [])"
proof (cases "n = 0")
  case True
  then show ?thesis by (simp add: digits_of_zero json_digits_def)
next
  case False
  obtain c t where ct: "digits_of n = c # t" by (meson digits_of_nonempty list.exhaust)
  with digits_of_hd [OF False] have "c \<noteq> CHR ''0''" by simp
  moreover have "\<forall>x\<in>set (digits_of n). is_digit x" by (blast intro: digits_of_digits)
  ultimately show ?thesis unfolding ct by (simp add: json_digits_def span_digits_def)
qed

lemma json_number_int: "json_number L (str_of_int i) = Inr (VInt i, [])"
proof -
  have no_sign: "(case digits_of n of c # r \<Rightarrow> if c = CHR ''-'' then (True, r) else (False, digits_of n)
      | [] \<Rightarrow> (False, [])) = (False, digits_of n)" for n
  proof (cases "digits_of n")
    case (Cons c r)
    then have "is_digit c" using digits_of_digits [of c n] by simp
    then have "c \<noteq> CHR ''-''" by auto
    then show ?thesis by (simp add: Cons)
  qed simp
  show ?thesis
  proof (cases "i < 0")
    case True
    then show ?thesis by (simp add: json_number_def str_of_int_def fraction_def exponent_def)
  next
    case False
    then show ?thesis by (simp add: json_number_def str_of_int_def fraction_def exponent_def no_sign)
  qed
qed

section \<open>Reading what was written: values\<close>

text \<open>
  What comes back: no instances, no repeated keys, and floats that the reader gives the text they have.
\<close>

fun json_plain :: "json_lib \<Rightarrow> pyval \<Rightarrow> bool"
  and json_plain_items :: "json_lib \<Rightarrow> pyval list \<Rightarrow> bool"
  and json_plain_pairs :: "json_lib \<Rightarrow> (string \<times> pyval) list \<Rightarrow> bool" where
  "json_plain L VNone = True"
| "json_plain L (VBool b) = True"
| "json_plain L (VInt i) = True"
| "json_plain L (VFloat r) = (r \<in> {''nan'', ''inf'', ''-inf''} \<or> json_number L r = Inr (VFloat r, []))"
| "json_plain L (VStr s) = True"
| "json_plain L (VList xs) = json_plain_items L xs"
| "json_plain L (VDict d) = (dict_ok d \<and> json_plain_pairs L d)"
| "json_plain L (VObj r fs) = False"
| "json_plain_items L [] = True"
| "json_plain_items L (v # vs) = (json_plain L v \<and> json_plain_items L vs)"
| "json_plain_pairs L [] = True"
| "json_plain_pairs L ((k, v) # d) = (json_plain L v \<and> json_plain_pairs L d)"

text \<open>The first character of a written value.\<close>

definition value_head :: "string \<Rightarrow> bool" where
  "value_head t \<longleftrightarrow> t \<noteq> [] \<and> \<not> json_space (hd t) \<and> hd t \<noteq> CHR '']'' \<and> hd t \<noteq> CHR ''}''"

lemma skip_ws_head [simp]: "value_head t \<Longrightarrow> skip_ws (t @ s) = t @ s"
  by (cases t) (auto simp: value_head_def skip_ws_def)

lemma skip_ws_simps [simp]:
  "skip_ws [] = []" "skip_ws (CHR '' '' # s) = skip_ws s" "skip_ws (CHR '','' # s) = CHR '','' # s"
  "skip_ws (CHR '':'' # s) = CHR '':'' # s" "skip_ws (CHR '']'' # s) = CHR '']'' # s"
  "skip_ws (CHR ''}'' # s) = CHR ''}'' # s" "skip_ws (quote_char # s) = quote_char # s"
  by (simp_all add: skip_ws_def json_space_def)

lemma json_digits_head: "json_digits s = Some x \<Longrightarrow> \<exists>c r. s = c # r \<and> is_digit c"
  by (cases s) (auto simp: json_digits_def split: if_splits)

lemma number_head:
  assumes "json_number L t = Inr (v, r)"
  shows "\<exists>c u. t = c # u \<and> (is_digit c \<or> c = CHR ''-'' \<and> (\<exists>d w. u = d # w \<and> is_digit d))"
proof (cases t)
  case Nil
  with assms show ?thesis by (simp add: json_number_def json_digits_def)
next
  case (Cons c u)
  show ?thesis
  proof (cases "c = CHR ''-''")
    case True
    with assms Cons have "json_digits u \<noteq> None" by (auto simp: json_number_def split: option.splits)
    with Cons True show ?thesis using json_digits_head [of u] by auto
  next
    case False
    with assms Cons have "json_digits t \<noteq> None" by (auto simp: json_number_def split: option.splits)
    with Cons show ?thesis using json_digits_head [of t] by auto
  qed
qed

lemma digit_is_none_of:
  "is_digit c \<Longrightarrow> c \<notin> {CHR '' '', CHR 0x09, newline, CHR 0x0D, CHR '']'', CHR ''}'', quote_char, CHR ''{'', CHR ''['',
     CHR ''n'', CHR ''t'', CHR ''f'', CHR ''N'', CHR ''I'', CHR ''-''}"
  by (rule notI) (elim insertE; simp add: is_digit_def ord_char_def)

lemma json_literal_None:
  "c \<notin> {CHR ''n'', CHR ''t'', CHR ''f'', CHR ''N'', CHR ''I'', CHR ''-''} \<Longrightarrow> json_literal (c # s) = None"
  "d \<noteq> CHR ''I'' \<Longrightarrow> json_literal (CHR ''-'' # d # s) = None"
  by (simp_all add: json_literal_def json_literals_def py_startswith_def)

lemma json_value_number:
  assumes "json_number L t = Inr (v, [])" "stops rest" "0 < n"
  shows "json_value L n (t @ rest) = Inr (v, rest)" "value_head t"
proof -
  obtain m where n: "n = Suc m" using assms(3) by (cases n) auto
  have num: "json_number L (t @ rest) = Inr (v, rest)" using json_number_append [OF assms(2,1)] by simp
  obtain c u where t: "t = c # u" and c: "is_digit c \<or> c = CHR ''-'' \<and> (\<exists>d w. u = d # w \<and> is_digit d)"
    using number_head [OF assms(1)] by blast
  have lit: "json_literal (t @ rest) = None"
  proof (cases "c = CHR ''-''")
    case True
    with c obtain d w where "u = d # w" "is_digit d" using not_digit_minus by blast
    with True digit_is_none_of [of d] show ?thesis by (simp add: t json_literal_None(2))
  next
    case False
    with c digit_is_none_of [of c] show ?thesis by (simp add: t json_literal_None(1))
  qed
  have neq: "c \<notin> {CHR '' '', CHR 0x09, newline, CHR 0x0D, CHR '']'', CHR ''}'', quote_char, CHR ''{'', CHR ''[''}"
    using c digit_is_none_of [of c] by auto
  show "json_value L n (t @ rest) = Inr (v, rest)" using num lit neq by (simp add: n t)
  show "value_head t" using neq by (simp add: value_head_def t json_space_def)
qed

lemma py_join_Cons: "py_join sep (p # ps) = p @ (if ps = [] then [] else sep @ py_join sep ps)"
  by (cases ps) simp_all

lemma json_float_plain:
  assumes "json_plain L (VFloat r)"
  shows "(r, json_float r) \<in> {(''nan'', ''NaN''), (''inf'', ''Infinity''), (''-inf'', ''-Infinity'')} \<or>
    (json_float r = r \<and> json_number L r = Inr (VFloat r, []))"
  using assms by (auto simp: json_float_def)

lemma json_literal_words:
  "json_literal (''null'' @ s) = Some (VNone, s)" "json_literal (''true'' @ s) = Some (VBool True, s)"
  "json_literal (''false'' @ s) = Some (VBool False, s)" "json_literal (''NaN'' @ s) = Some (VFloat ''nan'', s)"
  "json_literal (''Infinity'' @ s) = Some (VFloat ''inf'', s)" "json_literal (''-Infinity'' @ s) = Some (VFloat ''-inf'', s)"
  by (simp_all add: json_literal_def json_literals_def py_startswith_def)

lemmas json_literal_simps [simp] = json_literal_words [simplified]

lemma json_value_literal:
  assumes "json_literal (t @ rest) = Some (v, rest)" "0 < n" "hd t \<notin> {quote_char, CHR ''{'', CHR ''[''}" "t \<noteq> []"
  shows "json_value L n (t @ rest) = Inr (v, rest)"
  using assms by (cases n; cases t) auto

definition reads :: "json_lib \<Rightarrow> string \<Rightarrow> pyval \<Rightarrow> bool" where
  "reads L t v \<longleftrightarrow> value_head t \<and>
     (\<forall>rest n. stops rest \<longrightarrow> 2 * length t \<le> n \<longrightarrow> json_value L n (t @ rest) = Inr (v, rest))"

lemma reads_literal:
  assumes "\<And>rest. json_literal (t @ rest) = Some (v, rest)" "value_head t" "hd t \<notin> {quote_char, CHR ''{'', CHR ''[''}"
  shows "reads L t v"
proof -
  from assms(2) have "t \<noteq> []" by (simp add: value_head_def)
  then have "0 < n" if "2 * length t \<le> n" for n using that by (cases t) simp_all
  with \<open>t \<noteq> []\<close> show ?thesis unfolding reads_def using assms by (blast intro: json_value_literal)
qed

lemma reads_number: "json_number L t = Inr (v, []) \<Longrightarrow> reads L t v"
proof -
  assume t: "json_number L t = Inr (v, [])"
  have head: "value_head t" using json_value_number(2) [OF t, of "[]" 1] by simp
  then have "0 < n" if "2 * length t \<le> n" for n using that by (cases t) (simp_all add: value_head_def)
  with head show ?thesis unfolding reads_def using json_value_number(1) [OF t] by blast
qed

lemma reads_string: "reads L (json_string s) (VStr s)"
proof -
  have "value_head (json_string s)" by (simp add: value_head_def json_string_def json_space_def)
  moreover have "json_value L n (json_string s @ rest) = Inr (VStr s, rest)" if "2 * length (json_string s) \<le> n" for rest n
    using that by (cases n) (simp_all add: json_string_def scan_json_chars)
  ultimately show ?thesis by (simp add: reads_def)
qed

text \<open>The elements of a list up to its bracket, and the members of a dictionary up to its brace.\<close>

definition reads_items :: "json_lib \<Rightarrow> string list \<Rightarrow> pyval list \<Rightarrow> bool" where
  "reads_items L ps vs \<longleftrightarrow> ps \<noteq> [] \<and> value_head (py_join '', '' ps) \<and>
     (\<forall>rest n. 2 * length (py_join '', '' ps) < n \<longrightarrow>
        json_elements L n (py_join '', '' ps @ CHR '']'' # rest) = Inr (vs, rest))"

lemma value_head_append: "value_head p \<Longrightarrow> value_head (p @ s)"
  by (cases p) (auto simp: value_head_def)

lemma reads_items_single: "reads L p v \<Longrightarrow> reads_items L [p] [v]"
proof -
  assume p: "reads L p v"
  have "json_elements L n (p @ CHR '']'' # rest) = Inr ([v], rest)" if "2 * length p < n" for rest n
    using that p by (cases n) (simp_all add: reads_def)
  with p show ?thesis by (simp add: reads_items_def reads_def)
qed

lemma reads_items_Cons:
  assumes "reads L p v" "reads_items L ps vs"
  shows "reads_items L (p # ps) (v # vs)"
proof -
  have "json_elements L n (py_join '', '' (p # ps) @ CHR '']'' # rest) = Inr (v # vs, rest)"
    if "2 * length (py_join '', '' (p # ps)) < n" for rest n
    using that assms by (cases n) (simp_all add: reads_def reads_items_def py_join_Cons)
  with assms show ?thesis by (auto simp: reads_items_def reads_def py_join_Cons value_head_append)
qed

lemma reads_list: "reads_items L ps vs \<Longrightarrow> reads L (''['' @ py_join '', '' ps @ '']'') (VList vs)"
proof -
  assume ps: "reads_items L ps vs"
  then obtain c u where j: "py_join '', '' ps = c # u" and c: "c \<noteq> CHR '']''"
    by (cases "py_join '', '' ps") (auto simp: reads_items_def value_head_def)
  have "json_value L n (''['' @ py_join '', '' ps @ '']'' @ rest) = Inr (VList vs, rest)"
    if "2 * length (''['' @ py_join '', '' ps @ '']'') \<le> n" for rest n
  proof (cases n)
    case (Suc m)
    have "skip_ws (py_join '', '' ps @ CHR '']'' # rest) = py_join '', '' ps @ CHR '']'' # rest"
      using ps by (simp add: reads_items_def)
    moreover have "json_elements L m (py_join '', '' ps @ CHR '']'' # rest) = Inr (vs, rest)"
      using ps that Suc by (simp add: reads_items_def)
    ultimately show ?thesis using c Suc by (simp add: j)
  qed (use that in simp)
  then show ?thesis by (simp add: reads_def value_head_def json_space_def)
qed

definition member_text :: "string \<times> string \<Rightarrow> string" where
  "member_text kp = json_string (fst kp) @ '': '' @ snd kp"

definition reads_pairs :: "json_lib \<Rightarrow> string list \<Rightarrow> (string \<times> pyval) list \<Rightarrow> bool" where
  "reads_pairs L ps d \<longleftrightarrow> ps \<noteq> [] \<and> value_head (py_join '', '' ps) \<and>
     (\<forall>rest n acc. 2 * length (py_join '', '' ps) < n \<longrightarrow> dict_ok (acc @ d) \<longrightarrow>
        json_members L n (py_join '', '' ps @ CHR ''}'' # rest) acc = Inr (VDict (acc @ d), rest))"

lemma dict_set_new: "k \<notin> fst ` set d \<Longrightarrow> dict_set d k v = d @ [(k, v)]"
  by (induction d k v rule: dict_set.induct) auto

lemma json_string_head: "\<exists>u. json_string k = quote_char # u"
  by (simp add: json_string_def)

lemma reads_pairs_single:
  assumes "reads L p v"
  shows "reads_pairs L [json_string k @ '': '' @ p] [(k, v)]"
proof -
  have "json_members L n ((json_string k @ '': '' @ p) @ CHR ''}'' # rest) acc = Inr (VDict (acc @ [(k, v)]), rest)"
    if "2 * length (json_string k @ '': '' @ p) < n" "dict_ok (acc @ [(k, v)])" for rest n acc
    using that assms
    by (cases n) (simp_all add: reads_def json_string_def scan_json_chars dict_set_new dict_ok_def)
  then show ?thesis by (auto simp: reads_pairs_def value_head_def json_string_def json_space_def)
qed

lemma reads_pairs_Cons:
  assumes "reads L p v" "reads_pairs L ps d"
  shows "reads_pairs L ((json_string k @ '': '' @ p) # ps) ((k, v) # d)"
proof -
  from assms(2) have ps: "ps \<noteq> []" "value_head (py_join '', '' ps)" by (simp_all add: reads_pairs_def)
  have "json_members L n (py_join '', '' ((json_string k @ '': '' @ p) # ps) @ CHR ''}'' # rest) acc =
      Inr (VDict (acc @ (k, v) # d), rest)"
    if n: "2 * length (py_join '', '' ((json_string k @ '': '' @ p) # ps)) < n" and ok: "dict_ok (acc @ (k, v) # d)" for rest n acc
  proof (cases n)
    case (Suc m)
    have "dict_set acc k v = acc @ [(k, v)]" using ok by (intro dict_set_new) (simp add: dict_ok_def)
    moreover have "json_members L m (py_join '', '' ps @ CHR ''}'' # rest) (acc @ [(k, v)]) = Inr (VDict (acc @ (k, v) # d), rest)"
      using assms(2) n ok Suc ps(1) by (simp add: reads_pairs_def py_join_Cons)
    moreover have "json_value L m (p @ '', '' @ py_join '', '' ps @ CHR ''}'' # rest) =
        Inr (v, '', '' @ py_join '', '' ps @ CHR ''}'' # rest)"
      using assms(1) n Suc ps(1) by (simp add: reads_def py_join_Cons json_string_def)
    ultimately show ?thesis
      using Suc ps assms(1) by (simp add: py_join_Cons json_string_def scan_json_chars reads_def)
  qed (use n in simp)
  then show ?thesis by (auto simp: reads_pairs_def value_head_def json_string_def json_space_def py_join_Cons)
qed

lemma reads_dict:
  assumes "reads_pairs L ps d" "dict_ok d"
  shows "reads L (''{'' @ py_join '', '' ps @ ''}'') (VDict d)"
proof -
  from assms(1) obtain c u where j: "py_join '', '' ps = c # u" and c: "c \<noteq> CHR ''}''"
    by (cases "py_join '', '' ps") (auto simp: reads_pairs_def value_head_def)
  have "json_value L n (''{'' @ py_join '', '' ps @ ''}'' @ rest) = Inr (VDict d, rest)"
    if "2 * length (''{'' @ py_join '', '' ps @ ''}'') \<le> n" for rest n
  proof (cases n)
    case (Suc m)
    have "skip_ws (py_join '', '' ps @ CHR ''}'' # rest) = py_join '', '' ps @ CHR ''}'' # rest"
      using assms(1) by (simp add: reads_pairs_def)
    moreover have "json_members L m (py_join '', '' ps @ CHR ''}'' # rest) [] = Inr (VDict d, rest)"
      using assms that Suc by (simp add: reads_pairs_def)
    ultimately show ?thesis using c Suc by (simp add: j)
  qed (use that in simp)
  then show ?thesis by (simp add: reads_def value_head_def json_space_def)
qed

lemma reads_empty: "reads L ''[]'' (VList [])" "reads L ''{}'' (VDict [])"
proof -
  have "json_value L n (CHR ''['' # CHR '']'' # rest) = Inr (VList [], rest)"
    "json_value L n (CHR ''{'' # CHR ''}'' # rest) = Inr (VDict [], rest)" if "4 \<le> n" for rest n
    using that by (cases n; simp)+
  then show "reads L ''[]'' (VList [])" "reads L ''{}'' (VDict [])"
    by (simp_all add: reads_def value_head_def json_space_def)
qed

lemma json_dumps_reads:
  "json_dumps v = Inr t \<Longrightarrow> json_plain L v \<Longrightarrow> reads L t v"
  "json_items vs = Inr ps \<Longrightarrow> json_plain_items L vs \<Longrightarrow> vs = [] \<and> ps = [] \<or> reads_items L ps vs"
  "json_pairs d = Inr ps \<Longrightarrow> json_plain_pairs L d \<Longrightarrow> d = [] \<and> ps = [] \<or> reads_pairs L ps d"
proof (induction v and vs and d arbitrary: t and ps and ps rule: json_dumps_json_items_json_pairs.induct)
  case (4 r)
  have "reads L ''NaN'' (VFloat ''nan'')" "reads L ''Infinity'' (VFloat ''inf'')" "reads L ''-Infinity'' (VFloat ''-inf'')"
    by (auto intro!: reads_literal simp: value_head_def json_space_def)
  with 4 json_float_plain [of L r] reads_number [of L r] show ?case by auto
next
  case (6 xs)
  then obtain ps where ps: "json_items xs = Inr ps" "t = ''['' @ py_join '', '' ps @ '']''"
    by (auto simp: bind_res_eq_Inr)
  with 6 have "xs = [] \<and> ps = [] \<or> reads_items L ps xs" by simp
  with ps show ?case using reads_list reads_empty(1) by auto
next
  case (7 d)
  then obtain ps where ps: "json_pairs d = Inr ps" "t = ''{'' @ py_join '', '' ps @ ''}''"
    by (auto simp: bind_res_eq_Inr)
  with 7 have "d = [] \<and> ps = [] \<or> reads_pairs L ps d" by simp
  with ps 7 show ?case using reads_dict reads_empty(2) by auto
next
  case (10 v vs)
  then obtain p qs where p: "json_dumps v = Inr p" "json_items vs = Inr qs" "ps = p # qs"
    by (auto simp: bind_res_eq_Inr)
  with 10 have "reads L p v" "vs = [] \<and> qs = [] \<or> reads_items L qs vs" by simp_all
  with p show ?case using reads_items_single reads_items_Cons by auto
next
  case (12 k v d)
  then obtain p qs where p: "json_dumps v = Inr p" "json_pairs d = Inr qs" "ps = (json_string k @ '': '' @ p) # qs"
    by (auto simp: bind_res_eq_Inr)
  with 12 have "reads L p v" "d = [] \<and> qs = [] \<or> reads_pairs L qs d" by simp_all
  with p show ?case using reads_pairs_single reads_pairs_Cons by auto
qed (auto intro!: reads_literal reads_number [OF json_number_int] reads_string simp: value_head_def json_space_def)

text \<open>\<^verbatim>\<open>json.loads(json.dumps(v))\<close> is \<open>v\<close>.\<close>

lemma json_loads_dumps:
  assumes "json_dumps v = Inr t" "json_plain L v"
  shows "json_loads L t = Inr v"
proof -
  have r: "reads L t v" using json_dumps_reads(1) [OF assms] .
  then have "json_value L (2 * length t) (t @ []) = Inr (v, [])" by (simp only: reads_def stops_simps order_refl)
  moreover have "skip_ws t = t" using r skip_ws_head [of t "[]"] by (simp add: reads_def)
  ultimately show ?thesis by (simp add: json_loads_def)
qed

section \<open>The bound on the depth is enough\<close>

lemma length_skip_ws: "length (skip_ws s) \<le> length s"
  by (simp add: skip_ws_def length_dropWhile_le)

lemma scan_string_shorter: "scan_string L s = Inr (t, r) \<Longrightarrow> length r < length s"
  by (induction L s arbitrary: t r rule: scan_string.induct)
    (fastforce simp: bind_res_eq_Inr split: if_splits list.splits option.splits)+

lemma number_parts_shorter:
  "length (snd (span_digits s)) \<le> length s"
  "json_digits s = Some (d, r) \<Longrightarrow> length r < length s"
  "length (snd (fraction s)) \<le> length s"
  "length (snd (exponent s)) \<le> length s"
proof -
  have digits: "length (snd (span_digits t)) \<le> length t" for t by (simp add: span_digits_def length_dropWhile_le)
  then show "length (snd (span_digits s)) \<le> length s" .
  show "length r < length s" if i: "json_digits s = Some (d, r)"
  proof (cases s)
    case (Cons c t)
    show ?thesis
    proof (cases "c = CHR ''0''")
      case False
      with i Cons have "is_digit c" "r = snd (span_digits (c # t))" by (auto simp: json_digits_def split: if_splits)
      then have "r = dropWhile is_digit t" by (simp add: span_digits_def)
      then show ?thesis using length_dropWhile_le [of is_digit t] Cons by simp
    qed (use i Cons in \<open>simp add: json_digits_def\<close>)
  qed (use i in \<open>simp add: json_digits_def\<close>)
  show "length (snd (fraction s)) \<le> length s"
    using digits [of "tl s"] by (cases s) (auto simp: fraction_def)
  have "length (snd (split_sign t)) \<le> length t" for t by (cases t) (auto simp: split_sign_def)
  then have "length (snd (span_digits (snd (split_sign t)))) \<le> length t" for t using digits le_trans by blast
  then show "length (snd (exponent s)) \<le> length s"
    by (cases s) (auto simp: exponent_def Let_def case_prod_unfold le_SucI)
qed

lemma json_number_shorter:
  assumes "json_number L s = Inr (v, r)"
  shows "length r < length s"
proof -
  obtain neg s1 where s1: "(case s of c # r \<Rightarrow> if c = CHR ''-'' then (True, r) else (False, s) | [] \<Rightarrow> (False, [])) = (neg, s1)"
    by fastforce
  then have "length s1 \<le> length s" by (auto split: list.splits if_splits)
  moreover obtain ds s2 where i: "json_digits s1 = Some (ds, s2)" and "r = snd (exponent (snd (fraction s2)))"
    using assms by (auto simp: json_number_def s1 case_prod_unfold Let_def split: option.splits if_splits)
  ultimately show ?thesis
    using number_parts_shorter(2) [OF i] number_parts_shorter(3) [of s2] number_parts_shorter(4) [of "snd (fraction s2)"]
    by simp
qed

lemma json_literal_shorter: "json_literal s = Some (v, r) \<Longrightarrow> length r < length s"
  by (cases s) (auto simp: json_literal_def json_literals_def py_startswith_def split: if_splits)

lemma length_after: "length (drop 1 (skip_ws s)) \<le> length s" "length (skip_ws (drop 1 (skip_ws s))) \<le> length s"
  using length_skip_ws [of s] length_skip_ws [of "drop 1 (skip_ws s)"] by simp_all

lemma json_shorter:
  "json_value L n s = Inr (v, r) \<Longrightarrow> length r < length s"
  "json_elements L n s = Inr (vs, r) \<Longrightarrow> length r < length s"
  "json_members L n s d = Inr (v, r) \<Longrightarrow> length r < length s"
proof (induction L n s and L n s and L n s d arbitrary: v r and vs r and v r rule: json_value_json_elements_json_members.induct)
  case (2 L n s)
  show ?case
  proof (cases s)
    case (Cons c t)
    with 2 show ?thesis
      using length_skip_ws [of t] scan_string_shorter [of L t] json_number_shorter [of L s] json_literal_shorter [of s]
      by (fastforce simp: bind_res_eq_Inr split: if_splits option.splits)
  qed (use 2 in simp)
next
  case (4 L n s)
  from "4.prems" obtain w t where w: "json_value L n s = Inr (w, t)" by (auto simp: bind_res_eq_Inr)
  from "4.IH"(1) [OF w] have t: "length t < length s" .
  show ?case
  proof (cases "take 1 (skip_ws t) = '']''")
    case True
    with "4.prems" w t length_after(1) [of t] show ?thesis by auto
  next
    case False
    with "4.prems" w obtain ws where "take 1 (skip_ws t) = '',''" "json_elements L n (skip_ws (drop 1 (skip_ws t))) = Inr (ws, r)"
      by (auto simp: bind_res_eq_Inr split: if_splits)
    with "4.IH"(2) [OF w refl False] t length_after(2) [of t] show ?thesis by fastforce
  qed
next
  case (6 L n s d)
  from "6.prems" have q: "take 1 s = [quote_char]" by (auto split: if_splits)
  with "6.prems" obtain k t where k: "scan_string L (drop 1 s) = Inr (k, t)" by (auto simp: bind_res_eq_Inr)
  from "6.prems" q k have c: "take 1 (skip_ws t) = '':''" by (auto split: if_splits)
  with "6.prems" q k obtain w u where w: "json_value L n (skip_ws (drop 1 (skip_ws t))) = Inr (w, u)"
    by (auto simp: bind_res_eq_Inr)
  from "6.IH"(1) [OF q k refl c w] have u: "length u < length s"
    using length_after(2) [of t] scan_string_shorter [OF k] by simp
  show ?case
  proof (cases "take 1 (skip_ws u) = ''}''")
    case True
    with "6.prems" q k c w u length_after(1) [of u] show ?thesis by auto
  next
    case False
    with "6.prems" q k c w have m: "take 1 (skip_ws u) = '',''"
      "json_members L n (skip_ws (drop 1 (skip_ws u))) (dict_set d k w) = Inr (v, r)"
      by (auto split: if_splits)
    with "6.IH"(2) [OF q k refl c w refl False m] u length_after(2) [of u] show ?thesis by simp
  qed
qed simp_all

lemma json_fuel_step:
  "2 * length s \<le> n \<Longrightarrow> json_value L n s = json_value L (Suc n) s"
  "2 * length s < n \<Longrightarrow> json_elements L n s = json_elements L (Suc n) s"
  "2 * length s < n \<Longrightarrow> json_members L n s d = json_members L (Suc n) s d"
proof (induction n arbitrary: s d)
  case 0
  { case 1 then show ?case by simp next case 2 then show ?case by simp next case 3 then show ?case by simp }
next
  case (Suc n)
  { case 1
    show ?case
    proof (cases s)
      case (Cons c t)
      with 1 length_skip_ws [of t] have "2 * length (skip_ws t) < n" by simp
      with Suc(2,3) have "json_elements L n (skip_ws t) = json_elements L (Suc n) (skip_ws t)"
        "json_members L n (skip_ws t) [] = json_members L (Suc n) (skip_ws t) []" by blast+
      then show ?thesis by (simp only: Cons json_value.simps(2) list.case)
    qed simp
  next
    case 2
    have "json_value L n s = json_value L (Suc n) s" using 2 Suc(1) by simp
    moreover have "json_elements L n (skip_ws (drop 1 (skip_ws r))) = json_elements L (Suc n) (skip_ws (drop 1 (skip_ws r)))"
      if "json_value L (Suc n) s = Inr (v, r)" for v r
      using 2 Suc(2) json_shorter(1) [OF that] length_after(2) [of r] by (auto intro!: Suc(2))
    ultimately show ?case unfolding json_elements.simps(2) [of L n s] json_elements.simps(2) [of L "Suc n" s] by (auto intro!: bind_res_cong simp del: json_elements.simps)
  next
    case 3
    have v: "json_value L n (skip_ws (drop 1 (skip_ws r))) = json_value L (Suc n) (skip_ws (drop 1 (skip_ws r)))"
      if "scan_string L (drop 1 s) = Inr (k, r)" for k r
      using 3 scan_string_shorter [OF that] length_after(2) [of r] by (intro Suc(1)) simp
    have m: "json_members L n (skip_ws (drop 1 (skip_ws r'))) e = json_members L (Suc n) (skip_ws (drop 1 (skip_ws r'))) e"
      if "scan_string L (drop 1 s) = Inr (k, r)" "json_value L (Suc n) (skip_ws (drop 1 (skip_ws r))) = Inr (w, r')" for k r w r' e
    proof (rule Suc(3))
      have "length r < length s" using scan_string_shorter [OF that(1)] by simp
      moreover have "length r' < length r"
        using json_shorter(1) [OF that(2)] length_after(2) [of r] by simp
      ultimately show "2 * length (skip_ws (drop 1 (skip_ws r'))) < n"
        using 3 length_after(2) [of r'] by simp
    qed
    show ?case unfolding json_members.simps(2) [of L n s d] json_members.simps(2) [of L "Suc n" s d]
      by (auto intro!: bind_res_cong simp: v m simp del: json_members.simps json_value.simps One_nat_def)
  }
qed

text \<open>More depth gives the same result.\<close>

lemma json_fuel: "2 * length s \<le> n \<Longrightarrow> json_value L n s = json_value L (2 * length s) s"
  by (induction n rule: dec_induct) (simp_all add: json_fuel_step(1))

section \<open>No newlines\<close>

lemma newline_simps [simp]: "\<not> is_digit newline" "newline \<notin> set (digits_of n)"
proof -
  show "\<not> is_digit newline" by (simp add: is_digit_def ord_char_def)
  then show "newline \<notin> set (digits_of n)" using digits_of_digits by blast
qed

lemma newline_span: "newline \<notin> set (fst (span_digits s))" "fst (span_digits s) @ snd (span_digits s) = s"
  by (auto simp: span_digits_def dest: set_takeWhileD)

lemma newline_json_digits: "json_digits s = Some (d, r) \<Longrightarrow> s = d @ r \<and> newline \<notin> set d"
  using newline_span [of s] by (cases s) (auto simp: json_digits_def split: if_splits)

lemma newline_fraction: "newline \<notin> set (fst (fraction s)) \<and> fst (fraction s) @ snd (fraction s) = s"
  using newline_span [of "tl s"] by (cases s) (auto simp: fraction_def)

lemma newline_exponent: "newline \<notin> set (fst (exponent s)) \<and> fst (exponent s) @ snd (exponent s) = s"
proof (cases s)
  case (Cons c r)
  have sign: "newline \<notin> set (fst (split_sign r))" "fst (split_sign r) @ snd (split_sign r) = r"
    by (cases r; auto simp: split_sign_def)+
  have "fst (split_sign r) @ fst (span_digits (snd (split_sign r))) @ snd (span_digits (snd (split_sign r))) = r"
    using newline_span(2) [of "snd (split_sign r)"] sign(2) by simp
  then show ?thesis
    using newline_span(1) [of "snd (split_sign r)"] sign(1) Cons by (auto simp: exponent_def case_prod_unfold Let_def)
qed (simp add: exponent_def)

lemma newline_number:
  assumes "json_number L s = Inr (v, [])"
  shows "newline \<notin> set s"
proof -
  obtain neg s1 where s1: "(case s of c # r \<Rightarrow> if c = CHR ''-'' then (True, r) else (False, s) | [] \<Rightarrow> (False, [])) = (neg, s1)"
    by fastforce
  obtain ds s2 where i: "json_digits s1 = Some (ds, s2)" and e: "snd (exponent (snd (fraction s2))) = []"
    using assms by (auto simp: json_number_def s1 case_prod_unfold Let_def split: option.splits if_splits)
  have "newline \<notin> set (snd (fraction s2))"
    using newline_exponent [of "snd (fraction s2)"] e by (metis append_Nil2)
  then have "newline \<notin> set s2" using newline_fraction [of s2] by (metis Un_iff set_append)
  then have "newline \<notin> set s1" using newline_json_digits [OF i] by simp
  then show ?thesis using s1 by (cases s) (auto split: if_splits)
qed

lemma newline_hex: "newline \<notin> set (hex2 n)"
proof -
  have "hex_value newline = None" by (simp add: hex_value_def char_simps)
  then have "hex_digit k \<noteq> newline" if "k < 16" for k
    using hex_value_digit [OF that] by (metis option.distinct(1))
  from this [of "n mod 16"] this [of "n div 16 mod 16"] show ?thesis by (auto simp: hex2_def)
qed

lemma newline_json_string: "newline \<notin> set (json_string s)"
proof -
  have "newline \<notin> set (json_char c)" for c
    using newline_hex [of "ord_char c"] by (auto simp: json_char_eq unicode_escape_def char_simps)
  then show ?thesis by (simp add: json_string_def)
qed

lemma newline_join: "\<forall>p\<in>set ps. newline \<notin> set p \<Longrightarrow> newline \<notin> set (py_join '', '' ps)"
  by (induction ps) (auto simp: py_join_Cons)

lemma json_dumps_one_line:
  "json_dumps v = Inr t \<Longrightarrow> json_plain L v \<Longrightarrow> newline \<notin> set t"
  "json_items vs = Inr ps \<Longrightarrow> json_plain_items L vs \<Longrightarrow> \<forall>p\<in>set ps. newline \<notin> set p"
  "json_pairs d = Inr ps \<Longrightarrow> json_plain_pairs L d \<Longrightarrow> \<forall>p\<in>set ps. newline \<notin> set p"
proof (induction v and vs and d arbitrary: t and ps and ps rule: json_dumps_json_items_json_pairs.induct)
  case (4 r)
  then show ?case using json_float_plain [of L r] newline_number [of L r] by auto
next
  case (6 xs)
  then show ?case using newline_join by (fastforce simp: bind_res_eq_Inr)
next
  case (7 d)
  then show ?case using newline_join by (fastforce simp: bind_res_eq_Inr)
next
  case (12 k v d)
  then show ?case using newline_json_string by (fastforce simp: bind_res_eq_Inr)
qed (auto simp: bind_res_eq_Inr str_of_int_def newline_json_string split: if_splits)

end
