(* ===== verification/JsonlStorage.thy ===== *)
theory JsonlStorage
  imports SessionStorage PyJson PyEffects
begin

text \<open>
  The storage of a session in a file of JSON lines, \<^verbatim>\<open>session/jsonl_storage.py\<close>: the first line is a
  header, every other line an entry. The file system of the harness acts on a world and answers with
  dictionaries that have the items \<^verbatim>\<open>ok\<close>, \<^verbatim>\<open>value\<close> and \<^verbatim>\<open>error\<close>; nothing is assumed about it here.
\<close>

record 'w file_api =
  fa_read_lines :: "string \<Rightarrow> ('w, pyval) act"
  fa_read_file :: "string \<Rightarrow> ('w, pyval) act"
  fa_write_file :: "string \<Rightarrow> string \<Rightarrow> ('w, pyval) act"
  fa_append_file :: "string \<Rightarrow> string \<Rightarrow> ('w, pyval) act"

text \<open>What the module uses of the standard library; \<open>jv_is_dataclass\<close> tells the instances of dataclasses.\<close>

record jsonl_env =
  jv_lib :: pylib
  jv_json :: json_lib
  jv_is_dataclass :: "pyval \<Rightarrow> bool"

record jsonl_session_metadata = session_metadata +
  jm_cwd :: string
  jm_path :: string
  jm_parentSessionPath :: "string option"

record session_header =
  sh_id :: string
  sh_timestamp :: string
  sh_cwd :: string
  sh_parentSession :: "string option"

section \<open>Errors\<close>

definition get_fs_result_or_throw :: "pyval \<Rightarrow> string \<Rightarrow> pyval res" where
  "get_fs_result_or_throw result message =
     bind_res (py_get_default result ''ok'' (VBool False)) (\<lambda>ok.
       if \<not> truthy ok then
         bind_res (py_get result ''error'') (\<lambda>error.
           if truthy error then
             bind_res (py_get error ''code'') (\<lambda>code.
             bind_res (py_get error ''message'') (\<lambda>text.
               Inl (SessionError (if code = VStr ''not_found'' then NotFound else StorageCode)
                 (message @ '': '' @ py_str text))))
           else Inl (SessionError StorageCode (message @ '': unknown error'')))
       else py_get result ''value'')"

definition invalid_session :: "string \<Rightarrow> string \<Rightarrow> pyexn" where
  "invalid_session file_path message =
     SessionError InvalidSession (''Invalid JSONL session file '' @ file_path @ '': '' @ message)"

definition invalid_entry :: "string \<Rightarrow> nat \<Rightarrow> string \<Rightarrow> pyexn" where
  "invalid_entry file_path line_number message =
     SessionError InvalidEntry
       (''Invalid JSONL session file '' @ file_path @ '': line '' @ str_of_nat line_number @ '' '' @ message)"

section \<open>Lines\<close>

text \<open>\<^verbatim>\<open>parsed.get(k)\<close> of a dictionary, and the test for a string that is not empty.\<close>

definition line_item :: "(string, pyval) dict \<Rightarrow> string \<Rightarrow> pyval" where
  "line_item d k = (case dict_get d k of Some v \<Rightarrow> v | None \<Rightarrow> VNone)"

definition filled_str :: "pyval \<Rightarrow> bool" where
  "filled_str v \<longleftrightarrow> is_str v \<and> truthy v"

definition str_or_none :: "pyval \<Rightarrow> bool" where
  "str_or_none v \<longleftrightarrow> v = VNone \<or> is_str v"

fun opt_str :: "pyval \<Rightarrow> string option" where
  "opt_str (VStr s) = Some s"
| "opt_str _ = None"

text \<open>\<^verbatim>\<open>== 3\<close> also holds of the float.\<close>

definition is_version_3 :: "pyval \<Rightarrow> bool" where
  "is_version_3 v \<longleftrightarrow> v = VInt 3 \<or> v = VFloat ''3.0''"

definition has_timestamp :: "jsonl_env \<Rightarrow> pyval \<Rightarrow> bool" where
  "has_timestamp V v \<longleftrightarrow> parse_session_timestamp_ms (jv_lib V) v \<noteq> None"

definition parse_header_line :: "jsonl_env \<Rightarrow> string \<Rightarrow> string \<Rightarrow> session_header res" where
  "parse_header_line V line file_path =
     (let bad = (\<lambda>message. Inl (invalid_session file_path message))
      in case json_loads (jv_json V) line of
           Inl e \<Rightarrow> bad ''first line is not a valid session header''
         | Inr v \<Rightarrow>
             (case v of
                VDict parsed \<Rightarrow>
                  (let get = line_item parsed
                   in if get ''type'' \<noteq> VStr ''session'' then bad ''first line is not a valid session header''
                      else if \<not> is_version_3 (get ''version'') then bad ''unsupported session version''
                      else if \<not> filled_str (get ''id'') then bad ''session header is missing id''
                      else if \<not> filled_str (get ''timestamp'') then bad ''session header is missing timestamp''
                      else if \<not> has_timestamp V (get ''timestamp'') then bad ''session header has invalid timestamp''
                      else if \<not> filled_str (get ''cwd'') then bad ''session header is missing cwd''
                      else if \<not> str_or_none (get ''parentSession'')
                      then bad ''session header parentSession must be a string''
                      else Inr \<lparr>sh_id = the_str (get ''id''), sh_timestamp = the_str (get ''timestamp''),
                                sh_cwd = the_str (get ''cwd''), sh_parentSession = opt_str (get ''parentSession'')\<rparr>)
              | _ \<Rightarrow> bad ''first line is not a valid session header''))"

text \<open>The parsed entry stays a dictionary.\<close>

definition parse_entry_line :: "jsonl_env \<Rightarrow> string \<Rightarrow> string \<Rightarrow> nat \<Rightarrow> pyval res" where
  "parse_entry_line V line file_path line_number =
     (let bad = (\<lambda>message. Inl (invalid_entry file_path line_number message))
      in case json_loads (jv_json V) line of
           Inl e \<Rightarrow> bad ''is not valid JSON''
         | Inr v \<Rightarrow>
             (case v of
                VDict parsed \<Rightarrow>
                  (let get = line_item parsed
                   in if \<not> is_str (get ''type'') then bad ''is missing entry type''
                      else if \<not> filled_str (get ''id'') then bad ''is missing entry id''
                      else if \<not> str_or_none (get ''parentId'') then bad ''has invalid parentId''
                      else if \<not> filled_str (get ''timestamp'') then bad ''is missing timestamp''
                      else if \<not> has_timestamp V (get ''timestamp'') then bad ''has invalid timestamp''
                      else if get ''type'' = VStr ''leaf'' \<and> \<not> str_or_none (get ''targetId'')
                      then bad ''has invalid targetId''
                      else if get ''type'' = VStr ''leaf'' \<and> \<not> str_or_none (get ''appendParentId'')
                      then bad ''has invalid appendParentId''
                      else if get ''appendMode'' \<noteq> VNone \<and> get ''appendMode'' \<noteq> VStr ''side''
                      then bad ''has invalid appendMode''
                      else Inr v)
              | _ \<Rightarrow> bad ''is not a valid session entry''))"

definition header_to_session_metadata :: "session_header \<Rightarrow> string \<Rightarrow> jsonl_session_metadata" where
  "header_to_session_metadata header path =
     \<lparr>md_id = sh_id header, md_createdAt = sh_timestamp header, jm_cwd = sh_cwd header, jm_path = path,
      jm_parentSessionPath = sh_parentSession header\<rparr>"

section \<open>Reading\<close>

text \<open>A method of \<^verbatim>\<open>str\<close> on a value that the file system gave.\<close>

definition need_text :: "string \<Rightarrow> pyval \<Rightarrow> string res" where
  "need_text method v = (case v of VStr s \<Rightarrow> Inr s | _ \<Rightarrow> Inl (PyAttributeError method))"

definition first_line :: "pyval \<Rightarrow> pyval res" where
  "first_line v =
     (if \<not> truthy v then Inr VNone
      else case v of
          VList xs \<Rightarrow> Inr (hd xs)
        | VStr s \<Rightarrow> Inr (VStr [hd s])
        | VDict d \<Rightarrow> Inl PyKeyError
        | _ \<Rightarrow> Inl PyTypeError)"

definition load_jsonl_session_metadata ::
  "jsonl_env \<Rightarrow> 'w file_api \<Rightarrow> string \<Rightarrow> ('w, jsonl_session_metadata) act" where
  "load_jsonl_session_metadata V F file_path =
     bind_act (fa_read_lines F file_path) (\<lambda>result. of_res (
       bind_res (get_fs_result_or_throw result (''Failed to read session header '' @ file_path)) (\<lambda>lns.
       bind_res (first_line lns) (\<lambda>line.
         if \<not> truthy line then Inl (invalid_session file_path ''missing session header'')
         else bind_res (need_text ''strip'' line) (\<lambda>text.
           if py_strip text = [] then Inl (invalid_session file_path ''missing session header'')
           else bind_res (parse_header_line V text file_path) (\<lambda>header.
             Inr (header_to_session_metadata header file_path)))))))"

text \<open>\<open>leaf_id_update_after_entry\<close> and \<open>append_parent_id_after_entry\<close> on the values that they get here.\<close>

definition value_leaf_update :: "pyval \<Rightarrow> pyval res" where
  "value_leaf_update entry =
     bind_res (py_attr entry ''type'') (\<lambda>ty.
       if ty \<noteq> VStr ''leaf'' \<and> py_getattr entry ''appendMode'' VNone = VStr ''side'' then Inr VNone
       else if ty = VStr ''leaf'' then py_attr entry ''targetId''
       else if ty \<in> VStr ` {''message'', ''thinking_level_change'', ''model_change'', ''compaction'',
             ''branch_summary'', ''custom'', ''custom_message'', ''label'', ''session_info''}
       then py_attr entry ''id''
       else Inr VNone)"

definition value_append_parent :: "pyval \<Rightarrow> pyval res" where
  "value_append_parent entry =
     bind_res (py_attr entry ''type'') (\<lambda>ty.
       if ty = VStr ''leaf'' then
         bind_res (py_attr entry ''appendParentId'') (\<lambda>p. if p = VNone then py_attr entry ''targetId'' else Inr p)
       else py_attr entry ''id'')"

text \<open>The loop over the lines after the header; the number is that of the next line among those that are not blank.\<close>

fun load_entries ::
  "jsonl_env \<Rightarrow> string \<Rightarrow> nat \<Rightarrow> string list \<Rightarrow> pyval list \<times> pyval \<times> pyval \<Rightarrow> (pyval list \<times> pyval \<times> pyval) res" where
  "load_entries V file_path i [] acc = Inr acc"
| "load_entries V file_path i (line # lns) (entries, leaf_id, append_parent_id) =
     bind_res (parse_entry_line V line file_path i) (\<lambda>entry.
     bind_res (value_leaf_update entry) (\<lambda>leaf_update.
     bind_res (value_append_parent entry) (\<lambda>append_parent.
       load_entries V file_path (Suc i) lns
         (entries @ [entry], if leaf_update \<noteq> VNone then leaf_update else leaf_id, append_parent))))"

definition filled_lines :: "string \<Rightarrow> string list" where
  "filled_lines content = filter (\<lambda>line. py_strip line \<noteq> []) (py_split newline content)"

definition load_jsonl_storage ::
  "jsonl_env \<Rightarrow> 'w file_api \<Rightarrow> string \<Rightarrow> ('w, session_header \<times> pyval list \<times> pyval \<times> pyval) act" where
  "load_jsonl_storage V F file_path =
     bind_act (fa_read_file F file_path) (\<lambda>result. of_res (
       bind_res (get_fs_result_or_throw result (''Failed to read session '' @ file_path)) (\<lambda>value.
       bind_res (need_text ''split'' value) (\<lambda>content.
         case filled_lines content of
           [] \<Rightarrow> Inl (invalid_session file_path ''missing session header'')
         | line # lns \<Rightarrow>
             bind_res (parse_header_line V line file_path) (\<lambda>header.
             bind_res (load_entries V file_path 2 lns ([], VNone, VNone)) (\<lambda>loaded.
               Inr (header, loaded)))))))"

section \<open>The storage\<close>

record jsonl_storage =
  js_base :: storage
  js_metadata :: jsonl_session_metadata
  js_file_path :: string

text \<open>
  The constructor. The entries it is given are dictionaries, and the constructor of the base class reads
  their attribute \<^verbatim>\<open>id\<close> first of all.
\<close>

definition new_jsonl_storage ::
  "string \<Rightarrow> session_header \<Rightarrow> pyval list \<Rightarrow> pyval \<Rightarrow> pyval \<Rightarrow> jsonl_storage res" where
  "new_jsonl_storage file_path header entries leaf_id append_parent_id =
     (let metadata = header_to_session_metadata header file_path
      in if entries \<noteq> [] then Inl (PyAttributeError ''id'')
         else bind_res (init_storage (session_metadata.truncate metadata) [] (opt_str leaf_id) (opt_str append_parent_id))
           (\<lambda>base. Inr \<lparr>js_base = base, js_metadata = metadata, js_file_path = file_path\<rparr>))"

definition open_jsonl :: "jsonl_env \<Rightarrow> 'w file_api \<Rightarrow> string \<Rightarrow> ('w, jsonl_storage) act" where
  "open_jsonl V F file_path =
     bind_act (load_jsonl_storage V F file_path) (\<lambda>(header, entries, leaf_id, append_parent_id).
       of_res (new_jsonl_storage file_path header entries leaf_id append_parent_id))"

record create_options =
  co_sessionId :: "string option"
  co_cwd :: "string option"
  co_parentSessionPath :: "string option"

definition opt_value :: "string option \<Rightarrow> pyval" where
  "opt_value s = (case s of Some t \<Rightarrow> VStr t | None \<Rightarrow> VNone)"

definition header_value :: "session_header \<Rightarrow> pyval" where
  "header_value h =
     VDict [(''type'', VStr ''session''), (''version'', VInt 3), (''id'', VStr (sh_id h)),
            (''timestamp'', VStr (sh_timestamp h)), (''cwd'', VStr (sh_cwd h)),
            (''parentSession'', opt_value (sh_parentSession h))]"

definition header_of :: "create_options \<Rightarrow> string \<Rightarrow> session_header res" where
  "header_of options now =
     (case co_sessionId options of
        None \<Rightarrow> Inl PyKeyError
      | Some sid \<Rightarrow>
          (case co_cwd options of
             None \<Rightarrow> Inl PyKeyError
           | Some cwd \<Rightarrow> Inr \<lparr>sh_id = sid, sh_timestamp = now, sh_cwd = cwd,
                            sh_parentSession = co_parentSessionPath options\<rparr>))"

text \<open>The argument \<open>now\<close> is the current time in the format of the header.\<close>

definition create_jsonl ::
  "'w file_api \<Rightarrow> string \<Rightarrow> string \<Rightarrow> create_options \<Rightarrow> ('w, jsonl_storage) act" where
  "create_jsonl F now file_path options =
     bind_act (of_res (header_of options now)) (\<lambda>header.
     bind_act (of_res (json_dumps (header_value header))) (\<lambda>line.
     bind_act (fa_write_file F file_path (line @ nl)) (\<lambda>result. of_res (
       bind_res (get_fs_result_or_throw result (''Failed to create session '' @ file_path)) (\<lambda>_.
         new_jsonl_storage file_path header [] VNone VNone)))))"

section \<open>Entries as values\<close>

definition opt_bool :: "bool option \<Rightarrow> pyval" where
  "opt_bool b = (case b of Some t \<Rightarrow> VBool t | None \<Rightarrow> VNone)"

definition body_fields :: "entry_body \<Rightarrow> (string \<times> pyval) list" where
  "body_fields b =
     (case b of
        MessageE m \<Rightarrow> [(''message'', m)]
      | ThinkingLevelChangeE t \<Rightarrow> [(''thinkingLevel'', VStr t)]
      | ModelChangeE p m \<Rightarrow> [(''provider'', VStr p), (''modelId'', VStr m)]
      | CompactionE s f tb d h \<Rightarrow>
          [(''summary'', VStr s), (''firstKeptEntryId'', VStr f), (''tokensBefore'', VInt tb), (''details'', d),
           (''fromHook'', opt_bool h)]
      | BranchSummaryE fi s d h \<Rightarrow>
          [(''fromId'', VStr fi), (''summary'', VStr s), (''details'', d), (''fromHook'', opt_bool h)]
      | CustomE ct x \<Rightarrow> [(''customType'', VStr ct), (''data'', x)]
      | CustomMessageE ct c d disp \<Rightarrow>
          [(''customType'', VStr ct), (''content'', c), (''details'', d), (''display'', VBool disp)]
      | LabelE tgt lb \<Rightarrow> [(''targetId'', VStr tgt), (''label'', opt_value lb)]
      | SessionInfoE nm \<Rightarrow> [(''name'', opt_value nm)]
      | LeafE tgt ap \<Rightarrow> [(''targetId'', opt_value tgt), (''appendParentId'', opt_value ap)])"

definition class_name :: "entry_body \<Rightarrow> string" where
  "class_name b =
     (case b of
        MessageE m \<Rightarrow> ''MessageEntry''
      | ThinkingLevelChangeE t \<Rightarrow> ''ThinkingLevelChangeEntry''
      | ModelChangeE p m \<Rightarrow> ''ModelChangeEntry''
      | CompactionE s f tb d h \<Rightarrow> ''CompactionEntry''
      | BranchSummaryE fi s d h \<Rightarrow> ''BranchSummaryEntry''
      | CustomE ct x \<Rightarrow> ''CustomEntry''
      | CustomMessageE ct c d disp \<Rightarrow> ''CustomMessageEntry''
      | LabelE tgt lb \<Rightarrow> ''LabelEntry''
      | SessionInfoE nm \<Rightarrow> ''SessionInfoEntry''
      | LeafE tgt ap \<Rightarrow> ''LeafEntry'')"

definition entry_fields :: "session_tree_entry \<Rightarrow> (string \<times> pyval) list" where
  "entry_fields e =
     [(''type'', VStr (entry_type e)), (''id'', VStr (e_id e)), (''parentId'', opt_value (e_parentId e)),
      (''timestamp'', VStr (e_timestamp e)),
      (''appendMode'', case e_appendMode e of Some Side \<Rightarrow> VStr ''side'' | None \<Rightarrow> VNone)] @ body_fields (e_body e)"

text \<open>The instance, with the \<^verbatim>\<open>repr\<close> of a dataclass.\<close>

definition entry_object :: "session_tree_entry \<Rightarrow> pyval" where
  "entry_object e =
     VObj (class_name (e_body e) @ ''('' @
         py_join '', '' (map (\<lambda>(k, v). k @ ''='' @ py_repr v) (entry_fields e)) @ '')'') (entry_fields e)"

text \<open>\<^verbatim>\<open>dataclasses.asdict\<close>\<close>

fun asdict_value :: "jsonl_env \<Rightarrow> pyval \<Rightarrow> pyval"
  and asdict_items :: "jsonl_env \<Rightarrow> pyval list \<Rightarrow> pyval list"
  and asdict_pairs :: "jsonl_env \<Rightarrow> (string \<times> pyval) list \<Rightarrow> (string \<times> pyval) list" where
  "asdict_value V (VList xs) = VList (asdict_items V xs)"
| "asdict_value V (VDict d) = VDict (asdict_pairs V d)"
| "asdict_value V (VObj r fs) = (if jv_is_dataclass V (VObj r fs) then VDict (asdict_pairs V fs) else VObj r fs)"
| "asdict_value V v = v"
| "asdict_items V [] = []"
| "asdict_items V (v # vs) = asdict_value V v # asdict_items V vs"
| "asdict_pairs V [] = []"
| "asdict_pairs V ((k, v) # d) = (k, asdict_value V v) # asdict_pairs V d"

definition entry_to_dict :: "jsonl_env \<Rightarrow> session_tree_entry \<Rightarrow> pyval" where
  "entry_to_dict V e = VDict (asdict_pairs V (entry_fields e))"

section \<open>Changing the storage\<close>

text \<open>The world of the file system, the storage object and the state of the identifiers.\<close>

record 'w jsonl_state =
  jx_world :: 'w
  jx_self :: jsonl_storage
  jx_ids :: id_gen

definition on_files :: "('w, 'a) act \<Rightarrow> ('w jsonl_state, 'a) act" where
  "on_files f x = (case f (jx_world x) of (r, w) \<Rightarrow> (r, x\<lparr>jx_world := w\<rparr>))"

definition record_jsonl :: "session_tree_entry \<Rightarrow> ('w jsonl_state, unit) act" where
  "record_jsonl e x =
     (case record_entry (js_base (jx_self x)) e of
        Inl err \<Rightarrow> (Inl err, x)
      | Inr s \<Rightarrow> (Inr (), x\<lparr>jx_self := (jx_self x)\<lparr>js_base := s\<rparr>\<rparr>))"

definition append_line ::
  "'w file_api \<Rightarrow> pyval \<Rightarrow> string \<Rightarrow> session_tree_entry \<Rightarrow> ('w jsonl_state, unit) act" where
  "append_line F v message e x =
     bind_act (of_res (json_dumps v)) (\<lambda>line.
     bind_act (on_files (fa_append_file F (js_file_path (jx_self x)) (line @ nl))) (\<lambda>result.
     bind_act (of_res (get_fs_result_or_throw result (message @ e_id e))) (\<lambda>_. record_jsonl e))) x"

definition jsonl_append_entry ::
  "jsonl_env \<Rightarrow> 'w file_api \<Rightarrow> session_tree_entry \<Rightarrow> ('w jsonl_state, unit) act" where
  "jsonl_append_entry V F e x =
     bind_act (of_res (validate_entry_for_append (js_base (jx_self x)) e)) (\<lambda>_.
       append_line F (entry_to_dict V e) ''Failed to append session entry '' e) x"

definition jsonl_create_leaf ::
  "(nat \<Rightarrow> uuid_sample) \<Rightarrow> string \<Rightarrow> string option \<Rightarrow> ('w jsonl_state, session_tree_entry) act" where
  "jsonl_create_leaf supply now leaf x =
     (case create_leaf_entry supply now (js_base (jx_self x)) (jx_ids x) leaf of
        Inl err \<Rightarrow> (Inl err, x)
      | Inr (e, g) \<Rightarrow> (Inr e, x\<lparr>jx_ids := g\<rparr>))"

text \<open>\<open>set_leaf_id\<close> gives the instance itself to \<^verbatim>\<open>json.dumps\<close>.\<close>

definition jsonl_set_leaf_id ::
  "'w file_api \<Rightarrow> (nat \<Rightarrow> uuid_sample) \<Rightarrow> string \<Rightarrow> string option \<Rightarrow> ('w jsonl_state, unit) act" where
  "jsonl_set_leaf_id F supply now leaf =
     bind_act (jsonl_create_leaf supply now leaf) (\<lambda>e.
       append_line F (entry_object e) ''Failed to append session leaf '' e)"

section \<open>Writing before recording\<close>

definition succeeded :: "pyval \<Rightarrow> bool" where
  "succeeded answer \<longleftrightarrow> (\<exists>ok. py_get_default answer ''ok'' (VBool False) = Inr ok \<and> truthy ok)"

lemma fs_result_ok: "get_fs_result_or_throw answer message = Inr v \<Longrightarrow> succeeded answer"
  by (auto simp: get_fs_result_or_throw_def succeeded_def bind_res_eq_Inr split: if_splits)

lemma record_after_validation:
  "validate_entry_for_append s e = Inr u \<Longrightarrow> \<exists>t. record_entry s e = Inr t"
  by (simp add: record_entry_def Let_def)

text \<open>
  What an append leaves of the object and of the identifiers, and how it comes to return.
\<close>

lemma append_line_cases:
  assumes "append_line F v message e x = (r, y)"
  shows "jx_ids y = jx_ids x \<and> js_file_path (jx_self y) = js_file_path (jx_self x) \<and>
    (case r of
       Inl err \<Rightarrow> jx_self y = jx_self x
     | Inr u \<Rightarrow> \<exists>line answer s. json_dumps v = Inr line \<and>
         fa_append_file F (js_file_path (jx_self x)) (line @ nl) (jx_world x) = (Inr answer, jx_world y) \<and>
         succeeded answer \<and> record_entry (js_base (jx_self x)) e = Inr s \<and> jx_self y = (jx_self x)\<lparr>js_base := s\<rparr>)"
  using assms
  by (auto simp: append_line_def bind_act_def of_res_def on_files_def record_jsonl_def fs_result_ok
      split: sum.splits prod.splits)

lemma jsonl_append_cases:
  assumes "jsonl_append_entry V F e x = (r, y)"
  shows "jx_ids y = jx_ids x \<and> js_file_path (jx_self y) = js_file_path (jx_self x) \<and>
    (case r of
       Inl err \<Rightarrow> jx_self y = jx_self x
     | Inr u \<Rightarrow> \<exists>line answer s. json_dumps (entry_to_dict V e) = Inr line \<and>
         fa_append_file F (js_file_path (jx_self x)) (line @ nl) (jx_world x) = (Inr answer, jx_world y) \<and>
         succeeded answer \<and> record_entry (js_base (jx_self x)) e = Inr s \<and> jx_self y = (jx_self x)\<lparr>js_base := s\<rparr>)"
proof (cases "validate_entry_for_append (js_base (jx_self x)) e")
  case (Inl err)
  with assms have "r = Inl err" "y = x" by (simp_all add: jsonl_append_entry_def bind_act_def of_res_def)
  then show ?thesis by simp
next
  case (Inr u)
  with assms have "append_line F (entry_to_dict V e) ''Failed to append session entry '' e x = (r, y)"
    by (simp add: jsonl_append_entry_def bind_act_def of_res_def)
  then show ?thesis by (rule append_line_cases)
qed

text \<open>
  C17. \<open>append_entry\<close> of the storage in a file refines the one in memory: when it returns, one line with the
  entry was appended to the file, the file system has confirmed it, and the object is what the storage in
  memory would be; when it raises, for whatever reason, the object is as before.
\<close>

theorem jsonl_append_refines_memory:
  assumes "jsonl_append_entry V F e x = (r, y)"
  shows "case r of
      Inl err \<Rightarrow> jx_self y = jx_self x
    | Inr u \<Rightarrow> mem_append_entry (js_base (jx_self x)) e = Inr (js_base (jx_self y)) \<and>
        (\<exists>line answer. json_dumps (entry_to_dict V e) = Inr line \<and> succeeded answer \<and>
          fa_append_file F (js_file_path (jx_self x)) (line @ nl) (jx_world x) = (Inr answer, jx_world y))"
  using jsonl_append_cases [OF assms] by (auto simp: mem_append_entry_def split: sum.splits)

section \<open>Leaves are never stored\<close>

text \<open>
  \<open>set_leaf_id\<close> raises whatever its argument is, before it writes anything, because an instance of
  \<^verbatim>\<open>LeafEntry\<close> is no JSON value: the leaf of a storage in a file is never moved. A fresh identifier is used up.
\<close>

theorem jsonl_leaf_never_moves:
  "\<exists>err y. jsonl_set_leaf_id F supply now leaf x = (Inl err, y) \<and> jx_self y = jx_self x \<and> jx_world y = jx_world x \<and>
     (leaf = None \<longrightarrow> err = PyTypeError)"
proof (cases "create_leaf_entry supply now (js_base (jx_self x)) (jx_ids x) leaf")
  case (Inl err)
  then show ?thesis
    by (auto simp: jsonl_set_leaf_id_def jsonl_create_leaf_def bind_act_def create_leaf_entry_def missing_def split: if_splits prod.splits)
next
  case (Inr eg)
  then show ?thesis
    by (cases eg) (simp add: jsonl_set_leaf_id_def jsonl_create_leaf_def bind_act_def append_line_def of_res_def entry_object_def)
qed

section \<open>Reading what was written\<close>

text \<open>
  A file system that keeps the text of one file: what is written replaces it, what is appended is added at
  its end, both when they succeed, and reading returns it.
\<close>

definition keeps_text :: "'w file_api \<Rightarrow> string \<Rightarrow> ('w \<Rightarrow> string) \<Rightarrow> bool" where
  "keeps_text F p content \<longleftrightarrow>
     (\<forall>t w a v. fa_write_file F p t w = (Inr a, v) \<longrightarrow> succeeded a \<longrightarrow> content v = t) \<and>
     (\<forall>t w a v. fa_append_file F p t w = (Inr a, v) \<longrightarrow> succeeded a \<longrightarrow> content v = content w @ t) \<and>
     (\<forall>w. \<exists>v. fa_read_file F p w = (Inr (VDict [(''ok'', VBool True), (''value'', VStr (content w))]), v))"

definition valid_header :: "jsonl_env \<Rightarrow> session_header \<Rightarrow> bool" where
  "valid_header V h \<longleftrightarrow> sh_id h \<noteq> [] \<and> sh_cwd h \<noteq> [] \<and> sh_timestamp h \<noteq> [] \<and> has_timestamp V (VStr (sh_timestamp h))"

lemma header_plain: "json_plain L (header_value h)"
  by (simp add: header_value_def dict_ok_def opt_value_def split: option.splits)

lemma dict_line:
  assumes "json_dumps (VDict d) = Inr line"
  shows "py_strip line \<noteq> []"
proof
  assume blank: "py_strip line = []"
  from assms obtain u where line: "line = CHR ''{'' # u" by (auto simp: bind_res_eq_Inr)
  have "\<not> is_space (CHR ''{'')" by (simp add: is_space_def ord_char_def)
  with blank line show False
    by (auto simp: py_strip_def strip_with_def lstrip_with_def rstrip_with_def dropWhile_eq_Nil_conv)
qed

lemma header_line:
  assumes "json_dumps (header_value h) = Inr line" "valid_header V h"
  shows "parse_header_line V line p = Inr h" "newline \<notin> set line" "py_strip line \<noteq> []"
proof -
  have "json_loads (jv_json V) line = Inr (header_value h)"
    by (rule json_loads_dumps [OF assms(1) header_plain])
  then show "parse_header_line V line p = Inr h"
    using assms(2)
    by (cases "sh_parentSession h") (simp_all add: parse_header_line_def header_value_def line_item_def is_version_3_def
        filled_str_def str_or_none_def opt_value_def valid_header_def)
  show "newline \<notin> set line" by (rule json_dumps_one_line(1) [OF assms(1) header_plain])
  show "py_strip line \<noteq> []" using assms(1) unfolding header_value_def by (rule dict_line)
qed

lemma split_line: "newline \<notin> set line \<Longrightarrow> py_split newline (line @ newline # rest) = line # py_split newline rest"
  by (induction line) auto

lemma filled_lines_Cons:
  "newline \<notin> set line \<Longrightarrow> py_strip line \<noteq> [] \<Longrightarrow> filled_lines (line @ newline # rest) = line # filled_lines rest"
  by (simp add: filled_lines_def split_line)

lemma filled_lines_Nil [simp]: "filled_lines [] = []"
  by (simp add: filled_lines_def)

lemma load_content:
  assumes "keeps_text F p content" "content w = line @ newline # rest"
    and "json_dumps (header_value h) = Inr line" "valid_header V h"
  shows "\<exists>v. load_jsonl_storage V F p w =
    (bind_res (load_entries V p 2 (filled_lines rest) ([], VNone, VNone)) (\<lambda>loaded. Inr (h, loaded)), v)"
proof -
  note hl = header_line [OF assms(3,4)]
  obtain v where "fa_read_file F p w = (Inr (VDict [(''ok'', VBool True), (''value'', VStr (content w))]), v)"
    using assms(1) unfolding keeps_text_def by blast
  moreover have "filled_lines (content w) = line # filled_lines rest"
    unfolding assms(2) by (rule filled_lines_Cons [OF hl(2,3)])
  ultimately show ?thesis
    by (simp add: load_jsonl_storage_def bind_act_def of_res_def get_fs_result_or_throw_def need_text_def hl(1))
qed

lemma create_cases:
  assumes "create_jsonl F now p opts w = (Inr js, w')" "keeps_text F p content"
  shows "\<exists>h line. header_of opts now = Inr h \<and> json_dumps (header_value h) = Inr line \<and> content w' = line @ nl \<and>
    new_jsonl_storage p h [] VNone VNone = Inr js"
proof -
  from assms(1) obtain h line answer v where h: "header_of opts now = Inr h" "json_dumps (header_value h) = Inr line"
    and answer: "fa_write_file F p (line @ nl) w = (Inr answer, w')"
    and ok: "get_fs_result_or_throw answer (''Failed to create session '' @ p) = Inr v"
    and js: "new_jsonl_storage p h [] VNone VNone = Inr js"
    by (auto simp: create_jsonl_def bind_act_Inr bind_res_eq_Inr)
  from answer fs_result_ok [OF ok] assms(2) have "content w' = line @ nl" unfolding keeps_text_def by blast
  with h js show ?thesis by blast
qed

text \<open>
  C36. A session that was created and nothing was appended to is read back as the same storage, when its
  identifier, its directory and the time are not empty and the time can be parsed (\<open>valid_header\<close>; \<open>create\<close>
  accepts other headers, which \<open>open\<close> rejects), on a file system that keeps what is written to the file
  (\<open>keeps_text\<close>).
\<close>

theorem created_session_reopens:
  assumes "keeps_text F p content" "create_jsonl F now p opts w = (Inr js, w')"
    and "header_of opts now = Inr h" "valid_header V h"
  shows "\<exists>v. open_jsonl V F p w' = (Inr js, v)"
proof -
  from create_cases [OF assms(2,1)] assms(3) obtain line where
    line: "json_dumps (header_value h) = Inr line" "content w' = line @ newline # []"
    and js: "new_jsonl_storage p h [] VNone VNone = Inr js" by auto
  from load_content [OF assms(1) line(2,1) assms(4)] js show ?thesis
    by (auto simp: open_jsonl_def bind_act_def of_res_def)
qed

text \<open>The file system of the witnesses has one file, and the world is its text.\<close>

definition one_file :: "string file_api" where
  "one_file = \<lparr>fa_read_lines = (\<lambda>p w. (Inr (VDict [(''ok'', VBool True), (''value'', VList [VStr w])]), w)),
     fa_read_file = (\<lambda>p w. (Inr (VDict [(''ok'', VBool True), (''value'', VStr w)]), w)),
     fa_write_file = (\<lambda>p t w. (Inr (VDict [(''ok'', VBool True)]), t)),
     fa_append_file = (\<lambda>p t w. (Inr (VDict [(''ok'', VBool True)]), w @ t))\<rparr>"

lemma one_file_keeps: "keeps_text one_file p (\<lambda>w. w)"
  by (simp add: keeps_text_def one_file_def)

definition file_env :: jsonl_env where
  "file_env = \<lparr>jv_lib = \<lparr>lib_iso_ms = (\<lambda>s. Some 0), lib_float_trunc = (\<lambda>s. Inr 0)\<rparr>,
     jv_json = \<lparr>jl_wide = (\<lambda>n. ''?''), jl_float = (\<lambda>s. s)\<rparr>, jv_is_dataclass = (\<lambda>v. True)\<rparr>"

definition file_options :: create_options where
  "file_options = \<lparr>co_sessionId = Some ''s1'', co_cwd = Some ''/tmp'', co_parentSessionPath = None\<rparr>"

definition file_header :: session_header where
  "file_header = \<lparr>sh_id = ''s1'', sh_timestamp = ''t'', sh_cwd = ''/tmp'', sh_parentSession = None\<rparr>"

definition file_storage :: jsonl_storage where
  "file_storage = \<lparr>js_base = \<lparr>st_metadata = \<lparr>md_id = ''s1'', md_createdAt = ''t''\<rparr>, st_entries = [], st_by_id = Map.empty,
       st_labels_by_id = Map.empty, st_logical_parents_by_id = Map.empty, st_leaf_id = None, st_append_parent_id = None\<rparr>,
     js_metadata = header_to_session_metadata file_header ''f'', js_file_path = ''f''\<rparr>"

lemma file_created: "\<exists>w. create_jsonl one_file ''t'' ''f'' file_options [] = (Inr file_storage, w)"
proof -
  have h: "header_of file_options ''t'' = Inr file_header" by code_simp
  have "json_ok (header_value file_header)" by code_simp
  then obtain line where "json_dumps (header_value file_header) = Inr line" using json_dumps_total(1) by blast
  then show ?thesis
    by (simp add: create_jsonl_def h bind_act_def of_res_def one_file_def get_fs_result_or_throw_def new_jsonl_storage_def
        init_storage_def missing_def resolve_leaf_id_def resolve_append_parent_id_def build_by_id_def build_labels_by_id_def
        build_logical_parents_by_id_def file_storage_def header_to_session_metadata_def file_header_def
        session_metadata.truncate_def)
qed

lemma file_header_valid: "header_of file_options ''t'' = Inr file_header" "valid_header file_env file_header"
  by code_simp+

theorem created_session_reopens_witness:
  "\<exists>w v. create_jsonl one_file ''t'' ''f'' file_options [] = (Inr file_storage, w) \<and>
     open_jsonl file_env one_file ''f'' w = (Inr file_storage, v)"
  using file_created created_session_reopens [OF one_file_keeps _ file_header_valid] by blast

section \<open>Sessions with entries are not read back\<close>

text \<open>An entry that \<open>parse_entry_line\<close> accepts when it is read again.\<close>

definition storable :: "jsonl_env \<Rightarrow> session_tree_entry \<Rightarrow> bool" where
  "storable V e \<longleftrightarrow> e_id e \<noteq> [] \<and> e_timestamp e \<noteq> [] \<and> has_timestamp V (VStr (e_timestamp e)) \<and>
     json_plain (jv_json V) (entry_to_dict V e)"

lemma entry_items:
  assumes "entry_to_dict V e = VDict d"
  shows "line_item d ''type'' = VStr (entry_type e)" "line_item d ''id'' = VStr (e_id e)"
    "str_or_none (line_item d ''parentId'')" "line_item d ''timestamp'' = VStr (e_timestamp e)"
    "line_item d ''appendMode'' \<in> {VNone, VStr ''side''}"
    "entry_type e = ''leaf'' \<Longrightarrow> str_or_none (line_item d ''targetId'') \<and> str_or_none (line_item d ''appendParentId'')"
proof -
  have opt: "asdict_value V (opt_value s) = opt_value s" "str_or_none (opt_value s)" for s
    by (cases s; simp add: opt_value_def str_or_none_def)+
  from assms have d: "d = asdict_pairs V (entry_fields e)" by (simp add: entry_to_dict_def)
  show "line_item d ''type'' = VStr (entry_type e)" "line_item d ''id'' = VStr (e_id e)"
    "str_or_none (line_item d ''parentId'')" "line_item d ''timestamp'' = VStr (e_timestamp e)"
    by (simp_all add: d entry_fields_def line_item_def opt)
  show "line_item d ''appendMode'' \<in> {VNone, VStr ''side''}"
    by (cases "e_appendMode e") (auto simp: d entry_fields_def line_item_def split: append_mode.splits)
  show "str_or_none (line_item d ''targetId'') \<and> str_or_none (line_item d ''appendParentId'')" if "entry_type e = ''leaf''"
    using that by (cases "e_body e") (simp_all add: d entry_fields_def line_item_def body_fields_def opt)
qed

lemma stored_line:
  assumes "storable V e" "json_dumps (entry_to_dict V e) = Inr line"
  shows "parse_entry_line V line p i = Inr (entry_to_dict V e)" "newline \<notin> set line" "py_strip line \<noteq> []"
proof -
  have plain: "json_plain (jv_json V) (entry_to_dict V e)" using assms(1) by (simp add: storable_def)
  obtain d where d: "entry_to_dict V e = VDict d" by (simp add: entry_to_dict_def)
  show "parse_entry_line V line p i = Inr (entry_to_dict V e)"
    using json_loads_dumps [OF assms(2) plain] assms(1) entry_items [OF d]
    by (auto simp: parse_entry_line_def d storable_def filled_str_def Let_def)
  show "newline \<notin> set line" by (rule json_dumps_one_line(1) [OF assms(2) plain])
  show "py_strip line \<noteq> []" using assms(2) unfolding d by (rule dict_line)
qed

lemma loaded_entry_raises:
  assumes "storable V e" "json_dumps (entry_to_dict V e) = Inr line"
  shows "load_entries V p i (line # lns) acc = Inl (PyAttributeError ''type'')"
  using stored_line(1) [OF assms, of p i]
  by (cases acc) (simp add: value_leaf_update_def py_attr_def entry_to_dict_def)

lemma append_content:
  assumes "keeps_text F (js_file_path (jx_self x)) content" "jsonl_append_entry V F e x = (Inr u, y)"
  shows "\<exists>line. json_dumps (entry_to_dict V e) = Inr line \<and> content (jx_world y) = content (jx_world x) @ line @ nl \<and>
    js_file_path (jx_self y) = js_file_path (jx_self x)"
  using jsonl_append_cases [OF assms(2)] assms(1) unfolding keeps_text_def by (auto split: sum.splits)

lemma appends_content:
  assumes "each_act (jsonl_append_entry V F) es x = (Inr u, y)" "keeps_text F (js_file_path (jx_self x)) content"
  shows "\<exists>rest. content (jx_world y) = content (jx_world x) @ rest"
  using assms
proof (induction es arbitrary: x)
  case (Cons e es)
  then obtain a z where step: "jsonl_append_entry V F e x = (Inr a, z)"
    and rest: "each_act (jsonl_append_entry V F) es z = (Inr u, y)" by (auto simp: then_act_Inr)
  from append_content [OF Cons.prems(2) step] obtain line where
    "content (jx_world z) = content (jx_world x) @ line @ nl" "js_file_path (jx_self z) = js_file_path (jx_self x)" by blast
  moreover from Cons.IH [OF rest] this(2) Cons.prems(2) obtain more where
    "content (jx_world y) = content (jx_world z) @ more" by auto
  ultimately show ?case by simp
qed simp

text \<open>
  C39. A session with an entry cannot be read back: after \<open>create\<close> with a valid header and any positive number
  of appends that all returned, on a file system that keeps what is written to the file, \<open>open\<close> raises an
  \<^verbatim>\<open>AttributeError\<close>, because the entries that it parses stay dictionaries. The first entry has to be one
  that the checks of its line accept (\<open>storable\<close>: an identifier and a time that are not empty, the time can be
  parsed, and its values are plain JSON); otherwise \<open>open\<close> raises a \<^verbatim>\<open>SessionError\<close> instead.
\<close>

theorem stored_session_never_reopens:
  assumes "keeps_text F p content" "create_jsonl F now p opts w = (Inr js, w')"
    and "header_of opts now = Inr h" "valid_header V h"
    and "each_act (jsonl_append_entry V F) (e # es) \<lparr>jx_world = w', jx_self = js, jx_ids = g\<rparr> = (Inr u, y)"
    and "storable V e"
  shows "\<exists>v. open_jsonl V F p (jx_world y) = (Inl (PyAttributeError ''type''), v)"
proof -
  let ?x = "\<lparr>jx_world = w', jx_self = js, jx_ids = g\<rparr>"
  from create_cases [OF assms(2,1)] assms(3) obtain line where
    line: "json_dumps (header_value h) = Inr line" "content w' = line @ nl"
    and "new_jsonl_storage p h [] VNone VNone = Inr js" by auto
  then have path: "js_file_path js = p" by (auto simp: new_jsonl_storage_def bind_res_eq_Inr Let_def)
  from assms(5) obtain a z where step: "jsonl_append_entry V F e ?x = (Inr a, z)"
    and rest: "each_act (jsonl_append_entry V F) es z = (Inr u, y)" by (auto simp: then_act_Inr)
  from append_content [OF _ step, of content] assms(1) path obtain l where
    l: "json_dumps (entry_to_dict V e) = Inr l" "content (jx_world z) = content w' @ l @ nl" "js_file_path (jx_self z) = p"
    by auto
  from appends_content [OF rest, of content] assms(1) l(3) obtain more where
    "content (jx_world y) = content (jx_world z) @ more" by auto
  then have c: "content (jx_world y) = line @ newline # l @ newline # more" using line(2) l(2) by simp
  have "filled_lines (l @ newline # more) = l # filled_lines more"
    by (rule filled_lines_Cons [OF stored_line(2,3) [OF assms(6) l(1)]])
  with load_content [OF assms(1) c line(1) assms(4)] loaded_entry_raises [OF assms(6) l(1), of p 2 "filled_lines more"]
  obtain v where "load_jsonl_storage V F p (jx_world y) = (Inl (PyAttributeError ''type''), v)"
    by (auto simp del: load_entries.simps)
  then show ?thesis by (simp add: open_jsonl_def bind_act_def)
qed

definition file_entry :: session_tree_entry where
  "file_entry = \<lparr>e_id = ''a'', e_parentId = None, e_timestamp = ''t'', e_appendMode = None,
     e_body = MessageE (VDict [(''role'', VStr ''user''), (''content'', VStr ''hi'')])\<rparr>"

lemma file_entry_storable: "storable file_env file_entry"
  by code_simp

lemma file_entry_appended:
  "\<exists>y. each_act (jsonl_append_entry file_env one_file) [file_entry] \<lparr>jx_world = w, jx_self = file_storage, jx_ids = g\<rparr> = (Inr (), y)"
proof -
  have v: "validate_entry_for_append (js_base file_storage) file_entry = Inr ()" by code_simp
  then obtain s where r: "record_entry (js_base file_storage) file_entry = Inr s" using record_after_validation by blast
  have "json_ok (entry_to_dict file_env file_entry)" by code_simp
  then obtain line where "json_dumps (entry_to_dict file_env file_entry) = Inr line" using json_dumps_total(1) by blast
  then show ?thesis
    by (simp add: jsonl_append_entry_def append_line_def then_act_def bind_act_def of_res_def on_files_def one_file_def
        record_jsonl_def get_fs_result_or_throw_def ret_act_def v r)
qed

theorem stored_session_never_reopens_witness:
  "\<exists>w y v. create_jsonl one_file ''t'' ''f'' file_options [] = (Inr file_storage, w) \<and>
     jsonl_append_entry file_env one_file file_entry
       \<lparr>jx_world = w, jx_self = file_storage, jx_ids = \<lparr>ig_state = initial_uuid_state, ig_calls = 0\<rparr>\<rparr> = (Inr (), y) \<and>
     open_jsonl file_env one_file ''f'' (jx_world y) = (Inl (PyAttributeError ''type''), v)"
proof -
  let ?g = "\<lparr>ig_state = initial_uuid_state, ig_calls = 0\<rparr>"
  obtain w where w: "create_jsonl one_file ''t'' ''f'' file_options [] = (Inr file_storage, w)" using file_created by blast
  obtain y where y: "each_act (jsonl_append_entry file_env one_file) [file_entry] \<lparr>jx_world = w, jx_self = file_storage, jx_ids = ?g\<rparr> = (Inr (), y)"
    using file_entry_appended by blast
  then have "jsonl_append_entry file_env one_file file_entry \<lparr>jx_world = w, jx_self = file_storage, jx_ids = ?g\<rparr> = (Inr (), y)"
    by (auto simp: then_act_Inr)
  with w stored_session_never_reopens [OF one_file_keeps w file_header_valid y file_entry_storable] show ?thesis by blast
qed

section \<open>A witness of the refinement\<close>

theorem jsonl_append_refines_memory_witness:
  "\<exists>y. jsonl_append_entry file_env one_file file_entry
       \<lparr>jx_world = [], jx_self = file_storage, jx_ids = \<lparr>ig_state = initial_uuid_state, ig_calls = 0\<rparr>\<rparr> = (Inr (), y) \<and>
     mem_append_entry (js_base file_storage) file_entry = Inr (js_base (jx_self y))"
proof -
  let ?x = "\<lparr>jx_world = [], jx_self = file_storage, jx_ids = \<lparr>ig_state = initial_uuid_state, ig_calls = 0\<rparr>\<rparr>"
  obtain y where "each_act (jsonl_append_entry file_env one_file) [file_entry] ?x = (Inr (), y)"
    using file_entry_appended by blast
  then have "jsonl_append_entry file_env one_file file_entry ?x = (Inr (), y)" by (auto simp: then_act_Inr)
  with jsonl_append_refines_memory [OF this] show ?thesis by auto
qed

end
