(* ===== verification/PromptTemplates.thy ===== *)
theory PromptTemplates
  imports HarnessTypes
begin

text \<open>
  Prompt templates and skills of the harness: \<^verbatim>\<open>prompt_template_arguments.py\<close>, the arguments of a command
  line and their substitution into a template, and \<^verbatim>\<open>skills.py\<close>. The two patterns of the substitution are
  written out as functions that look for the leftmost longest match, which is the only one they have.
\<close>

record skill =
  sk_name :: string
  sk_description :: string
  sk_content :: string
  sk_filePath :: string

record prompt_template =
  pt_name :: string
  pt_content :: string

section \<open>Skills\<close>

definition dirname_env_path :: "string \<Rightarrow> string" where
  "dirname_env_path path =
     (let normalized = rstrip_with (\<lambda>c. c = CHR ''/'') path
      in if CHR ''/'' \<notin> set normalized \<or> CHR ''/'' \<notin> set (tl normalized) then ''/''
         else rev (tl (dropWhile (\<lambda>c. c \<noteq> CHR ''/'') (rev normalized))))"

definition format_skill_invocation :: "skill \<Rightarrow> string option \<Rightarrow> string" where
  "format_skill_invocation s additional =
     (let block = ''<skill name='' @ [CHR 0x22] @ sk_name s @ [CHR 0x22] @ '' location='' @ [CHR 0x22] @ sk_filePath s
            @ [CHR 0x22] @ ''>'' @ nl @ ''References are relative to '' @ dirname_env_path (sk_filePath s) @ ''.''
            @ nl @ nl @ sk_content s @ nl @ ''</skill>''
      in case additional of
           Some t \<Rightarrow> if t \<noteq> [] then block @ nl @ nl @ t else block
         | None \<Rightarrow> block)"

section \<open>Arguments of a command line\<close>

fun scan_args :: "string \<Rightarrow> string \<Rightarrow> char option \<Rightarrow> bool \<Rightarrow> string list" where
  "scan_args [] current in_quote has_token = (if has_token then [current] else [])"
| "scan_args (c # s) current in_quote has_token =
     (case in_quote of
        Some q \<Rightarrow>
          (if c = q then scan_args s current None has_token else scan_args s (current @ [c]) (Some q) True)
      | None \<Rightarrow>
          (if c = CHR 0x22 \<or> c = CHR 0x27 then scan_args s current (Some c) True
           else if is_space c then
             (if has_token then current # scan_args s [] None False else scan_args s current None has_token)
           else scan_args s (current @ [c]) None True))"

definition parse_command_args :: "string \<Rightarrow> string list" where
  "parse_command_args s = scan_args s [] None False"

section \<open>Substitution\<close>

text \<open>\<^verbatim>\<open>int(raw)\<close> of a text of digits, of at most 4300 of them, is never negative.\<close>

definition parse_safe_non_negative_integer :: "string \<Rightarrow> nat" where
  "parse_safe_non_negative_integer raw = foldl (\<lambda>n c. 10 * n + (ord_char c - 48)) 0 raw"

definition replace_num :: "string list \<Rightarrow> string \<Rightarrow> string" where
  "replace_num args num =
     (let parsed = parse_safe_non_negative_integer num
      in if parsed = 0 then [] else if parsed - 1 < length args then args ! (parsed - 1) else [])"

function sub_numbers :: "string list \<Rightarrow> string \<Rightarrow> string" where
  "sub_numbers args [] = []"
| "sub_numbers args (c # s) =
     (if c = CHR ''$'' \<and> takeWhile is_digit s \<noteq> []
      then replace_num args (takeWhile is_digit s) @ sub_numbers args (dropWhile is_digit s)
      else c # sub_numbers args s)"
  by pat_completeness auto
termination
  by (relation "measure (\<lambda>(args, s). length s)") (auto simp: le_imp_less_Suc length_dropWhile_le)

text \<open>A match of the second pattern at the beginning: the two numbers and what follows.\<close>

definition match_range :: "string \<Rightarrow> (string \<times> string option \<times> string) option" where
  "match_range s =
     (if \<not> py_startswith s ''${@:'' then None
      else
        let digits = takeWhile is_digit (drop 4 s); rest = dropWhile is_digit (drop 4 s)
        in if digits = [] then None
           else if take 1 rest = ''}'' then Some (digits, None, drop 1 rest)
           else if take 1 rest = '':'' then
             (let digits' = takeWhile is_digit (drop 1 rest); rest' = dropWhile is_digit (drop 1 rest)
              in if digits' \<noteq> [] \<and> take 1 rest' = ''}'' then Some (digits, Some digits', drop 1 rest') else None)
           else None)"

definition replace_range :: "string list \<Rightarrow> string \<Rightarrow> string option \<Rightarrow> string" where
  "replace_range args start_str length_str =
     (let start = parse_safe_non_negative_integer start_str - 1
      in case length_str of
           Some l \<Rightarrow> py_join '' '' (take (parse_safe_non_negative_integer l) (drop start args))
         | None \<Rightarrow> py_join '' '' (drop start args))"

lemma match_range_shorter: "match_range s = Some (a, b, r) \<Longrightarrow> length r < length s"
proof -
  assume m: "match_range s = Some (a, b, r)"
  then have s: "s \<noteq> []" by (auto simp: match_range_def py_startswith_def)
  let ?rest = "dropWhile is_digit (drop 4 s)"
  let ?rest' = "dropWhile is_digit (drop 1 ?rest)"
  have 1: "length ?rest \<le> length (drop 4 s)" "length ?rest' \<le> length (drop 1 ?rest)" by (rule length_dropWhile_le)+
  have "r = drop 1 ?rest \<or> r = drop 1 ?rest'" using m by (auto simp: match_range_def Let_def split: if_splits)
  then have "length r \<le> length (drop 4 s)" using 1 by auto
  moreover have "length (drop 4 s) < length s" using s by (cases s) simp_all
  ultimately show ?thesis by linarith
qed

function sub_ranges :: "string list \<Rightarrow> string \<Rightarrow> string" where
  "sub_ranges args [] = []"
| "sub_ranges args (c # s) =
     (case match_range (c # s) of
        Some (start, len, rest) \<Rightarrow> replace_range args start len @ sub_ranges args rest
      | None \<Rightarrow> c # sub_ranges args s)"
  by pat_completeness auto
termination
  by (relation "measure (\<lambda>(args, s). length s)") (auto dest: match_range_shorter)

text \<open>\<^verbatim>\<open>s.replace(old, new)\<close> for a text \<open>old\<close> that is not empty.\<close>

function replace_text :: "string \<Rightarrow> string \<Rightarrow> string \<Rightarrow> string" where
  "replace_text old new [] = []"
| "replace_text old new (c # s) =
     (if old \<noteq> [] \<and> py_startswith (c # s) old then new @ replace_text old new (drop (length old) (c # s))
      else c # replace_text old new s)"
  by pat_completeness auto
termination
  by (relation "measure (\<lambda>(old, new, s). length s)") auto

definition substitute_args :: "string \<Rightarrow> string list \<Rightarrow> string" where
  "substitute_args content args =
     (let all_args = py_join '' '' args
      in replace_text ''$@'' all_args
           (replace_text ''$ARGUMENTS'' all_args (sub_ranges args (sub_numbers args content))))"

definition format_prompt_template_invocation :: "prompt_template \<Rightarrow> string list \<Rightarrow> string" where
  "format_prompt_template_invocation template args = substitute_args (pt_content template) args"

section \<open>Quoting\<close>

definition quoted_arg :: "string \<Rightarrow> string" where
  "quoted_arg a = [CHR 0x22] @ a @ [CHR 0x22]"

lemma scan_quoted:
  "CHR 0x22 \<notin> set a \<Longrightarrow> scan_args (a @ CHR 0x22 # s) current (Some (CHR 0x22)) True = scan_args s (current @ a) None True"
  by (induction a arbitrary: current) auto

lemma is_space_blank [simp]: "is_space (CHR '' '')"
  by (simp add: is_space_def ord_char_def)

text \<open>Arguments without double quotes, in double quotes and with a space between them, are read back.\<close>

theorem quoted_args_roundtrip:
  assumes "\<forall>a\<in>set args. CHR 0x22 \<notin> set a"
  shows "parse_command_args (py_join '' '' (map quoted_arg args)) = args"
  using assms
proof (induction args rule: induct_list012)
  case (3 a b as)
  then show ?case by (simp add: parse_command_args_def quoted_arg_def scan_quoted)
qed (simp_all add: parse_command_args_def quoted_arg_def scan_quoted)

theorem quoted_args_roundtrip_witness:
  "parse_command_args (py_join '' '' (map quoted_arg [''two words'', '''', ''$1''])) = [''two words'', '''', ''$1'']"
  by (rule quoted_args_roundtrip) simp

text \<open>
  The substitution is not one pass over the template: what an argument brings in is expanded again by the
  later steps, so that an argument can ask for all of them.
\<close>

lemma argument_expanded_again: "substitute_args ''$1'' [''$@'', ''x''] = ''$@ x''"
  by code_simp

text \<open>A template without a dollar sign is not changed.\<close>

lemma substitute_nothing:
  assumes "CHR ''$'' \<notin> set content"
  shows "substitute_args content args = content"
proof -
  have n: "sub_numbers args s = s" if "CHR ''$'' \<notin> set s" for s using that by (induction s) auto
  have "match_range s = None" if "CHR ''$'' \<notin> set s" for s
    using that by (cases s) (auto simp: match_range_def py_startswith_def)
  then have r: "sub_ranges args s = s" if "CHR ''$'' \<notin> set s" for s using that by (induction s) auto
  have t: "replace_text (CHR ''$'' # p) new s = s" if "CHR ''$'' \<notin> set s" for p new s
    using that by (induction s) (auto simp: py_startswith_def)
  show ?thesis using assms by (simp add: substitute_args_def n r t)
qed

end
