(* ===== verification/HarnessState.thy ===== *)
theory HarnessState
  imports TurnLoop AgentSession PromptTemplates BranchSummary
begin

text \<open>
  The harness (\<^verbatim>\<open>harness/agent_harness.py\<close>): the object that joins an agent loop, a session and its
  compaction. This theory has its state, its errors, the options of a stream, the events it sends, the
  queues, the writes that wait for the end of a turn, and the operations that only touch these.
  \<open>wait_for_idle\<close> does nothing, and the getters are the fields of the state.

  The state has a field for everything else, and what the harness calls but does not define (listeners,
  hooks, tools, the clock) acts on the whole state, so that it can use the harness itself. Tools and
  handlers are numbers; \<open>harness_env\<close> says what they do.
\<close>

section \<open>Messages as values\<close>

text \<open>The \<^verbatim>\<open>repr\<close> of the classes is that of pydantic.\<close>

definition class_object :: "string \<Rightarrow> (string \<times> pyval) list \<Rightarrow> pyval" where
  "class_object name items =
     VObj (name @ ''('' @ py_join '', '' (map (\<lambda>(k, v). k @ ''='' @ py_repr v) items) @ '')'') items"

definition block_value :: "content_block \<Rightarrow> pyval" where
  "block_value b =
     (case b of
        TextBlock t \<Rightarrow> text_content t
      | ToolCallBlock c \<Rightarrow> class_object ''ToolCall''
          [(''type'', VStr ''toolCall''), (''id'', VStr (tc_id c)), (''name'', VStr (tc_name c)),
           (''arguments'', tc_arguments c)]
      | OtherBlock v \<Rightarrow> v)"

definition text_or_none :: "string option \<Rightarrow> pyval" where
  "text_or_none t = (case t of Some s \<Rightarrow> VStr s | None \<Rightarrow> VNone)"

definition message_value :: "agent_message \<Rightarrow> pyval" where
  "message_value m =
     (case m of
        AssistantM a \<Rightarrow> class_object ''AssistantMessage''
          [(''role'', VStr ''assistant''), (''content'', VList (map block_value (am_content a))),
           (''api'', VStr (am_api a)), (''provider'', VStr (am_provider a)), (''model'', VStr (am_model a)),
           (''usage'', am_usage a), (''stop_reason'', VStr (am_stop_reason a)),
           (''error_message'', text_or_none (am_error_message a)), (''timestamp'', VInt (am_timestamp a))]
      | ToolResultM t \<Rightarrow> VDict
          [(''role'', VStr ''toolResult''), (''toolCallId'', VStr (tm_toolCallId t)),
           (''toolName'', VStr (tm_toolName t)), (''content'', VList (map block_value (tm_content t))),
           (''details'', tm_details t), (''isError'', VBool (tm_isError t)), (''timestamp'', VInt (tm_timestamp t))]
      | OtherM v \<Rightarrow> v)"

section \<open>Options of a stream\<close>

record stream_options =
  sp_transport :: "string option"
  sp_timeoutMs :: "int option"
  sp_maxRetries :: "int option"
  sp_maxRetryDelayMs :: "int option"
  sp_headers :: "(string, string) dict option"
  sp_metadata :: "(string, pyval) dict option"
  sp_cacheRetention :: "pyval option"

text \<open>A patch; a header or an item of the metadata that is \<^verbatim>\<open>None\<close> is removed.\<close>

record stream_options_patch =
  pa_transport :: "string option"
  pa_timeoutMs :: "int option"
  pa_maxRetries :: "int option"
  pa_maxRetryDelayMs :: "int option"
  pa_headers :: "(string, string option) dict option"
  pa_metadata :: "(string, pyval option) dict option"
  pa_cacheRetention :: "pyval option"

definition filled_dict :: "('k, 'v) dict option \<Rightarrow> ('k, 'v) dict option" where
  "filled_dict d = (if d = Some [] then None else d)"

definition clone_stream_options :: "stream_options option \<Rightarrow> stream_options" where
  "clone_stream_options options =
     (case options of
        None \<Rightarrow> \<lparr>sp_transport = None, sp_timeoutMs = None, sp_maxRetries = None, sp_maxRetryDelayMs = None,
                  sp_headers = None, sp_metadata = None, sp_cacheRetention = None\<rparr>
      | Some s \<Rightarrow> s\<lparr>sp_headers := filled_dict (sp_headers s), sp_metadata := filled_dict (sp_metadata s)\<rparr>)"

definition merge_headers :: "(string, string) dict option list \<Rightarrow> (string, string) dict option" where
  "merge_headers headers =
     (let given = concat (map (\<lambda>h. case h of Some d \<Rightarrow> [d] | None \<Rightarrow> []) headers)
      in if given = [] then None else Some (fold (\<lambda>(k, v) d. dict_set d k v) (concat given) []))"

fun patch_dict :: "(string, 'v option) dict \<Rightarrow> (string, 'v) dict \<Rightarrow> (string, 'v) dict" where
  "patch_dict [] d = d"
| "patch_dict ((k, v) # patch) d =
     patch_dict patch (case v of None \<Rightarrow> filter (\<lambda>(k', _). k' \<noteq> k) d | Some w \<Rightarrow> dict_set d k w)"

definition patch_opt_dict :: "(string, 'v option) dict option \<Rightarrow> (string, 'v) dict option \<Rightarrow> (string, 'v) dict option" where
  "patch_opt_dict patch d =
     (case patch of
        None \<Rightarrow> d
      | Some p \<Rightarrow> filled_dict (Some (patch_dict p (case d of Some e \<Rightarrow> e | None \<Rightarrow> []))))"

definition given_or :: "'a option \<Rightarrow> 'a option \<Rightarrow> 'a option" where
  "given_or a b = (if a \<noteq> None then a else b)"

definition apply_stream_options_patch :: "stream_options \<Rightarrow> stream_options_patch option \<Rightarrow> stream_options" where
  "apply_stream_options_patch base patch =
     (let r = clone_stream_options (Some base)
      in case patch of
           None \<Rightarrow> r
         | Some p \<Rightarrow>
             \<lparr>sp_transport = given_or (pa_transport p) (sp_transport r),
              sp_timeoutMs = given_or (pa_timeoutMs p) (sp_timeoutMs r),
              sp_maxRetries = given_or (pa_maxRetries p) (sp_maxRetries r),
              sp_maxRetryDelayMs = given_or (pa_maxRetryDelayMs p) (sp_maxRetryDelayMs r),
              sp_headers = patch_opt_dict (pa_headers p) (sp_headers r),
              sp_metadata = patch_opt_dict (pa_metadata p) (sp_metadata r),
              sp_cacheRetention = given_or (pa_cacheRetention p) (sp_cacheRetention r)\<rparr>)"

section \<open>State\<close>

datatype harness_phase = IdlePhase | TurnPhase | CompactionPhase | BranchSummaryPhase

record resources =
  re_promptTemplates :: "prompt_template list"
  re_skills :: "skill list"

text \<open>A write to the session that waits; the type of any other dictionary is \<open>OtherWrite\<close>.\<close>

datatype session_write =
    MessageWrite agent_message
  | ModelChangeWrite string string
  | ThinkingLevelWrite string
  | CustomWrite string pyval
  | CustomMessageWrite string pyval bool pyval
  | LabelWrite string "string option"
  | SessionInfoWrite string
  | LeafWrite "string option"
  | OtherWrite

text \<open>
  A queue is a list object that closures keep while \<open>abort\<close> puts a new one in its place, so it has an
  identity.
\<close>

record message_queue =
  mq_ref :: nat
  mq_items :: "agent_message list"

text \<open>What a turn starts from.\<close>

record turn_state =
  ts_messages :: "pyval list"
  ts_resources :: resources
  ts_streamOptions :: stream_options
  ts_sessionId :: string
  ts_systemPrompt :: string
  ts_model :: "loop_model option"
  ts_thinkingLevel :: string
  ts_tools :: "nat list"
  ts_activeTools :: "nat list"

text \<open>
  Every execution of a turn has a cell with its current turn state and its abort controller; the harness
  keeps the number of the last one while it runs.
\<close>

record turn_cell =
  ce_turn_state :: turn_state
  ce_aborted :: bool

record ('s, 'o) harness =
  hn_session :: 's
  hn_resources :: resources
  hn_phase :: harness_phase
  hn_controller :: "nat option"
  hn_cells :: "turn_cell list"
  hn_pending_session_writes :: "session_write list"
  hn_model :: "loop_model option"
  hn_thinking_level :: string
  hn_stream_options :: stream_options
  hn_tools :: "(string, nat) dict"
  hn_active_tool_names :: "string list"
  hn_steer_queue :: message_queue
  hn_steering_mode :: string
  hn_follow_up_queue :: message_queue
  hn_follow_up_mode :: string
  hn_next_turn_queue :: "agent_message list"
  hn_handlers :: "string \<Rightarrow> nat list"
  hn_host :: 'o

section \<open>Events\<close>

text \<open>The events of the harness for its subscribers, and those of the loop that it passes on.\<close>

datatype harness_event =
    LoopEvent agent_event
  | QueueUpdate "agent_message list" "agent_message list" "agent_message list"
  | SavePoint bool
  | SettledEvent nat
  | AbortEvent "agent_message list" "agent_message list"
  | ModelSelect "loop_model option" "loop_model option"
  | ThinkingLevelSelect string string
  | ResourcesUpdate resources resources
  | SessionCompact session_tree_entry bool
  | SessionTreeEvent "string option" "string option" "session_tree_entry option" bool

text \<open>What hooks return: the items of their dictionaries that the harness reads.\<close>

record start_hook_result =
  sr_messages :: "pyval list option"
  sr_systemPrompt :: "string option"

record compact_result =
  hc_summary :: string
  hc_firstKeptEntryId :: string
  hc_tokensBefore :: int
  hc_details :: pyval

text \<open>\<open>Some None\<close> is a dictionary without items, which is not \<^verbatim>\<open>None\<close>, but not true either.\<close>

record compact_hook_result =
  hr_cancel :: bool
  hr_compaction :: "compact_result option option"

text \<open>Here \<open>None\<close> is a key that is missing, and \<open>Some None\<close> the value \<^verbatim>\<open>None\<close>.\<close>

record tree_hook_result =
  tr_cancel :: bool
  tr_summary :: "(string option \<times> pyval) option option"
  tr_customInstructions :: "string option"
  tr_replaceInstructions :: bool

record tree_preparation =
  tp_targetId :: string
  tp_oldLeafId :: "string option"
  tp_commonAncestorId :: "string option"
  tp_entriesToSummarize :: "session_tree_entry list"
  tp_userWantsSummary :: bool
  tp_customInstructions :: "string option"
  tp_replaceInstructions :: bool
  tp_label :: "string option"

text \<open>What the host knows of a provider; an empty answer is \<open>None\<close>.\<close>

record provider_auth =
  au_apiKey :: "string option"
  au_headers :: "(string, string) dict option"

datatype ('s, 'o) prompt_source =
    FixedPrompt string
  | MadePrompt "loop_model option \<Rightarrow> string \<Rightarrow> nat list \<Rightarrow> resources \<Rightarrow> (('s, 'o) harness, string) act"
  | NoPrompt

record ('s, 'o) harness_env =
  he_ops :: "'s session_ops"
  he_lib :: pylib
  he_now :: "('s, 'o) harness \<Rightarrow> string"
  he_loop :: "('s, 'o) harness loop_env"
  he_tool :: "nat \<Rightarrow> ('s, 'o) harness agent_tool"
  he_set_order :: "nat list \<Rightarrow> nat list"
  he_system_prompt :: "('s, 'o) prompt_source"
  he_get_api_key_and_headers :: "(loop_model option \<Rightarrow> (('s, 'o) harness, provider_auth option) act) option"
  he_llm_model :: "loop_model \<Rightarrow> llm_model"
  he_llm_runtime :: llm_runtime
  he_second_first :: bool
  he_runtime :: "('s, 'o) harness stream_fn option option"
  he_listener :: "nat \<Rightarrow> harness_event \<Rightarrow> (('s, 'o) harness, unit) act"
  he_on_start :: "nat \<Rightarrow> string \<Rightarrow> pyval list option \<Rightarrow> string \<Rightarrow> resources
     \<Rightarrow> (('s, 'o) harness, start_hook_result option) act"
  he_on_context :: "nat \<Rightarrow> agent_message list \<Rightarrow> (('s, 'o) harness, pyval list option option) act"
  he_on_tool_call :: "nat \<Rightarrow> pyval \<Rightarrow> (('s, 'o) harness, before_result option) act"
  he_on_tool_result :: "nat \<Rightarrow> pyval \<Rightarrow> (('s, 'o) harness, after_result option) act"
  he_on_compact :: "nat \<Rightarrow> compaction_preparation \<Rightarrow> session_tree_entry list \<Rightarrow> string option
     \<Rightarrow> (('s, 'o) harness, compact_hook_result option) act"
  he_on_tree :: "nat \<Rightarrow> tree_preparation \<Rightarrow> (('s, 'o) harness, tree_hook_result option) act"
  he_on_request :: "nat \<Rightarrow> loop_model option \<Rightarrow> string \<Rightarrow> stream_options
     \<Rightarrow> (('s, 'o) harness, stream_options_patch option) act"
  he_on_payload :: "nat \<Rightarrow> loop_model option \<Rightarrow> pyval \<Rightarrow> (('s, 'o) harness, pyval option option) act"

section \<open>A new harness\<close>

record harness_options =
  ho_resources :: "resources option"
  ho_model :: "loop_model option"
  ho_thinkingLevel :: "string option"
  ho_streamOptions :: "stream_options option"
  ho_tools :: "nat list option"
  ho_activeToolNames :: "string list option"
  ho_steeringMode :: "string option"
  ho_followUpMode :: "string option"

definition tools_by_name :: "('s, 'o) harness_env \<Rightarrow> nat list \<Rightarrow> (string, nat) dict" where
  "tools_by_name E tools = fold (\<lambda>t d. dict_set d (at_name (he_tool E t)) t) tools []"

definition text_or :: "string \<Rightarrow> string option \<Rightarrow> string" where
  "text_or dflt t = (case t of Some (c # cs) \<Rightarrow> c # cs | _ \<Rightarrow> dflt)"

definition new_harness :: "('s, 'o) harness_env \<Rightarrow> harness_options \<Rightarrow> 's \<Rightarrow> 'o \<Rightarrow> ('s, 'o) harness" where
  "new_harness E opts session host =
     (let tools = (case ho_tools opts of Some ts \<Rightarrow> ts | None \<Rightarrow> [])
      in \<lparr>hn_session = session,
          hn_resources = (case ho_resources opts of Some r \<Rightarrow> r | None \<Rightarrow> \<lparr>re_promptTemplates = [], re_skills = []\<rparr>),
          hn_phase = IdlePhase, hn_controller = None, hn_cells = [], hn_pending_session_writes = [],
          hn_model = ho_model opts, hn_thinking_level = text_or ''off'' (ho_thinkingLevel opts),
          hn_stream_options = clone_stream_options (ho_streamOptions opts),
          hn_tools = tools_by_name E tools,
          hn_active_tool_names = (case ho_activeToolNames opts of
             Some (n # ns) \<Rightarrow> n # ns | _ \<Rightarrow> map (\<lambda>t. at_name (he_tool E t)) tools),
          hn_steer_queue = \<lparr>mq_ref = 0, mq_items = []\<rparr>,
          hn_steering_mode = text_or ''one-at-a-time'' (ho_steeringMode opts),
          hn_follow_up_queue = \<lparr>mq_ref = 0, mq_items = []\<rparr>,
          hn_follow_up_mode = text_or ''one-at-a-time'' (ho_followUpMode opts),
          hn_next_turn_queue = [], hn_handlers = (\<lambda>ty. []), hn_host = host\<rparr>)"

section \<open>Errors\<close>

type_synonym ('s, 'o, 'a) hact = "(('s, 'o) harness, 'a) act"

text \<open>\<^verbatim>\<open>cause.message\<close>: none of the classes of exceptions has the attribute.\<close>

definition exn_message :: "pyexn \<Rightarrow> string res" where
  "exn_message e = Inl (PyAttributeError ''message'')"

definition normalize_harness_error :: "pyexn \<Rightarrow> harness_error_code \<Rightarrow> pyexn" where
  "normalize_harness_error e fallback =
     (case e of
        AgentHarnessError c m \<Rightarrow> e
      | _ \<Rightarrow>
          (let code = (case e of SessionError c m \<Rightarrow> SessionFailure | CompactionError c m \<Rightarrow> CompactionFailure
                       | BranchSummaryError c m \<Rightarrow> BranchSummaryFailure | _ \<Rightarrow> fallback)
           in case exn_message e of Inl raised \<Rightarrow> raised | Inr m \<Rightarrow> AgentHarnessError code m))"

definition normalize_hook_error :: "pyexn \<Rightarrow> pyexn" where
  "normalize_hook_error e = normalize_harness_error e HookFailure"

definition normalized :: "harness_error_code \<Rightarrow> ('s, 'a) act \<Rightarrow> ('s, 'a) act" where
  "normalized code m = catch_act m (\<lambda>e. raise_act (normalize_harness_error e code))"

section \<open>Sending events\<close>

text \<open>
  The handlers of a type are a set, visited in an order that is a parameter. The iteration raises when
  the size of the set has changed since it began; a handler that changes the set and keeps its size is
  not modelled.
\<close>

definition check_size :: "string \<Rightarrow> nat \<Rightarrow> ('s, 'o, unit) hact" where
  "check_size ty n =
     bind_act (get_act (\<lambda>h. length (hn_handlers h ty))) (\<lambda>m.
       if m = n then ret_act () else raise_act (PyRuntimeError ''Set changed size during iteration''))"

fun each_handler :: "string \<Rightarrow> nat \<Rightarrow> ('b \<Rightarrow> nat \<Rightarrow> ('s, 'o, 'b) hact) \<Rightarrow> nat list \<Rightarrow> 'b \<Rightarrow> ('s, 'o, 'b) hact" where
  "each_handler ty n call [] acc = ret_act acc"
| "each_handler ty n call (l # ls) acc =
     bind_act (normalized HookFailure (call acc l)) (\<lambda>acc'.
       then_act (check_size ty n) (each_handler ty n call ls acc'))"

definition visit_handlers ::
  "('s, 'o) harness_env \<Rightarrow> string \<Rightarrow> ('b \<Rightarrow> nat \<Rightarrow> ('s, 'o, 'b) hact) \<Rightarrow> 'b \<Rightarrow> ('s, 'o, 'b) hact" where
  "visit_handlers E ty call acc =
     bind_act (get_act (\<lambda>h. hn_handlers h ty)) (\<lambda>ls.
       each_handler ty (length ls) call (he_set_order E ls) acc)"

definition emit_own :: "('s, 'o) harness_env \<Rightarrow> harness_event \<Rightarrow> ('s, 'o, unit) hact" where
  "emit_own E ev = visit_handlers E ''*'' (\<lambda>_ l. he_listener E l ev) ()"

definition emit_any :: "('s, 'o) harness_env \<Rightarrow> agent_event \<Rightarrow> ('s, 'o, unit) hact" where
  "emit_any E ev = visit_handlers E ''*'' (\<lambda>_ l. he_listener E l (LoopEvent ev)) ()"

text \<open>The last result of a hook that is not \<^verbatim>\<open>None\<close>.\<close>

definition emit_hook ::
  "('s, 'o) harness_env \<Rightarrow> string \<Rightarrow> (nat \<Rightarrow> ('s, 'o, 'r option) hact) \<Rightarrow> ('s, 'o, 'r option) hact" where
  "emit_hook E ty call =
     visit_handlers E ty (\<lambda>last_result l. bind_act (call l) (\<lambda>r. ret_act (given_or r last_result))) None"

definition emit_before_provider_request ::
  "('s, 'o) harness_env \<Rightarrow> loop_model option \<Rightarrow> string \<Rightarrow> stream_options \<Rightarrow> ('s, 'o, stream_options) hact" where
  "emit_before_provider_request E model session_id options =
     visit_handlers E ''before_provider_request''
       (\<lambda>current l. bind_act (he_on_request E l model session_id (clone_stream_options (Some current))) (\<lambda>patch.
          ret_act (case patch of None \<Rightarrow> current | Some p \<Rightarrow> apply_stream_options_patch current (Some p))))
       (clone_stream_options (Some options))"

definition emit_before_provider_payload ::
  "('s, 'o) harness_env \<Rightarrow> loop_model option \<Rightarrow> pyval \<Rightarrow> ('s, 'o, pyval) hact" where
  "emit_before_provider_payload E model payload =
     visit_handlers E ''before_provider_payload''
       (\<lambda>current l. bind_act (he_on_payload E l model current) (\<lambda>r.
          ret_act (case r of Some (Some p) \<Rightarrow> p | _ \<Rightarrow> current))) payload"

definition emit_queue_update :: "('s, 'o) harness_env \<Rightarrow> ('s, 'o, unit) hact" where
  "emit_queue_update E =
     bind_act (get_act (\<lambda>h. QueueUpdate (mq_items (hn_steer_queue h)) (mq_items (hn_follow_up_queue h))
                                     (hn_next_turn_queue h))) (emit_own E)"

section \<open>Queues\<close>

datatype queue_name = SteerQueue | FollowUpQueue

fun queue_of :: "queue_name \<Rightarrow> ('s, 'o) harness \<Rightarrow> message_queue" where
  "queue_of SteerQueue h = hn_steer_queue h"
| "queue_of FollowUpQueue h = hn_follow_up_queue h"

fun set_queue :: "queue_name \<Rightarrow> message_queue \<Rightarrow> ('s, 'o) harness \<Rightarrow> ('s, 'o) harness" where
  "set_queue SteerQueue q h = h\<lparr>hn_steer_queue := q\<rparr>"
| "set_queue FollowUpQueue q h = h\<lparr>hn_follow_up_queue := q\<rparr>"

fun mode_of :: "queue_name \<Rightarrow> ('s, 'o) harness \<Rightarrow> string" where
  "mode_of SteerQueue h = hn_steering_mode h"
| "mode_of FollowUpQueue h = hn_follow_up_mode h"

text \<open>
  The messages go back into the list object they came from, behind what it has got meanwhile in one mode,
  in front of it in the other; nobody sees them when another object has taken its place.
\<close>

definition put_back ::
  "queue_name \<Rightarrow> nat \<Rightarrow> string \<Rightarrow> agent_message list \<Rightarrow> ('s, 'o) harness \<Rightarrow> ('s, 'o) harness" where
  "put_back name ref mode ms h =
     (let q = queue_of name h
      in if mq_ref q \<noteq> ref then h
         else set_queue name (q\<lparr>mq_items := (if mode = ''all'' then mq_items q @ ms else ms @ mq_items q)\<rparr>) h)"

definition drain_queued_messages ::
  "('s, 'o) harness_env \<Rightarrow> queue_name \<Rightarrow> ('s, 'o, agent_message list) hact" where
  "drain_queued_messages E name =
     bind_act (get_act (\<lambda>h. (queue_of name h, mode_of name h))) (\<lambda>(q, mode).
       let ms = (if mode = ''all'' then mq_items q else take 1 (mq_items q))
       in then_act (modify_act (set_queue name (q\<lparr>mq_items := drop (length ms) (mq_items q)\<rparr>)))
            (if ms = [] then ret_act ms
             else catch_act (then_act (emit_queue_update E) (ret_act ms))
               (\<lambda>e. then_act (modify_act (put_back name (mq_ref q) mode ms)) (raise_act (normalize_hook_error e)))))"

definition create_user_message :: "int \<Rightarrow> string \<Rightarrow> pyval list option \<Rightarrow> agent_message" where
  "create_user_message now text images =
     OtherM (VDict
       [(''role'', VStr ''user''),
        (''content'', VList (VDict [(''type'', VStr ''text''), (''text'', VStr text)]
           # (case images of Some is \<Rightarrow> is | None \<Rightarrow> []))),
        (''timestamp'', VInt now)])"

definition queue_message ::
  "('s, 'o) harness_env \<Rightarrow> queue_name \<Rightarrow> string \<Rightarrow> string \<Rightarrow> pyval list option \<Rightarrow> ('s, 'o, unit) hact" where
  "queue_message E name refusal text images =
     bind_act (get_act hn_phase) (\<lambda>phase.
       if phase = IdlePhase then raise_act (AgentHarnessError InvalidStateCode refusal)
       else then_act
         (modify_act (\<lambda>h. set_queue name ((queue_of name h)\<lparr>mq_items := mq_items (queue_of name h) @
            [create_user_message (le_now_ms (he_loop E) h) text images]\<rparr>) h))
         (emit_queue_update E))"

definition harness_steer :: "('s, 'o) harness_env \<Rightarrow> string \<Rightarrow> pyval list option \<Rightarrow> ('s, 'o, unit) hact" where
  "harness_steer E = queue_message E SteerQueue ''Cannot steer while idle''"

definition harness_follow_up :: "('s, 'o) harness_env \<Rightarrow> string \<Rightarrow> pyval list option \<Rightarrow> ('s, 'o, unit) hact" where
  "harness_follow_up E = queue_message E FollowUpQueue ''Cannot follow up while idle''"

definition harness_next_turn :: "('s, 'o) harness_env \<Rightarrow> string \<Rightarrow> pyval list option \<Rightarrow> ('s, 'o, unit) hact" where
  "harness_next_turn E text images =
     then_act (modify_act (\<lambda>h. h\<lparr>hn_next_turn_queue := hn_next_turn_queue h @
         [create_user_message (le_now_ms (he_loop E) h) text images]\<rparr>))
       (emit_queue_update E)"

section \<open>The session\<close>

text \<open>
  A method of the session that changes the storage, which is left in the state the method made of it
  also when the method raises; and one that only reads.
\<close>

definition on_session :: "('s, 'a) act \<Rightarrow> ('s, 'o, 'a) hact" where
  "on_session f h = (case f (hn_session h) of (r, s) \<Rightarrow> (r, h\<lparr>hn_session := s\<rparr>))"

definition read_session :: "('s \<Rightarrow> 'a res) \<Rightarrow> ('s, 'o, 'a) hact" where
  "read_session f h = (f (hn_session h), h)"

text \<open>An append of the session, which reads the clock of the harness.\<close>

definition session_append ::
  "('s, 'o) harness_env \<Rightarrow> (string \<Rightarrow> ('s, string) act) \<Rightarrow> ('s, 'o, unit) hact" where
  "session_append E f =
     bind_act (get_act (he_now E)) (\<lambda>now. then_act (on_session (f now)) (ret_act ()))"

definition append_session_message :: "('s, 'o) harness_env \<Rightarrow> agent_message \<Rightarrow> ('s, 'o, unit) hact" where
  "append_session_message E m = session_append E (\<lambda>now. append_message (he_ops E) now (message_value m))"

definition perform_write :: "('s, 'o) harness_env \<Rightarrow> session_write \<Rightarrow> ('s, 'o, unit) hact" where
  "perform_write E write =
     (let ops = he_ops E
      in case write of
           MessageWrite m \<Rightarrow> append_session_message E m
         | ModelChangeWrite p m \<Rightarrow> session_append E (\<lambda>now. append_model_change ops now p m)
         | ThinkingLevelWrite l \<Rightarrow> session_append E (\<lambda>now. append_thinking_level_change ops now l)
         | CustomWrite ct d \<Rightarrow> session_append E (\<lambda>now. append_custom_entry ops now ct d)
         | CustomMessageWrite ct c disp det \<Rightarrow>
             session_append E (\<lambda>now. append_custom_message_entry ops now ct c disp det)
         | LabelWrite tgt lb \<Rightarrow> session_append E (\<lambda>now. append_label ops now tgt lb)
         | SessionInfoWrite n \<Rightarrow> session_append E (\<lambda>now. append_session_name ops now n)
         | LeafWrite tgt \<Rightarrow> on_session (so_setLeafId ops tgt)
         | OtherWrite \<Rightarrow> ret_act ())"

definition drop_write :: "('s, 'o) harness \<Rightarrow> ('s, 'o) harness" where
  "drop_write h = h\<lparr>hn_pending_session_writes := tl (hn_pending_session_writes h)\<rparr>"

text \<open>The loop; a write is taken off the list when it was done.\<close>

fun flush_writes :: "('s, 'o) harness_env \<Rightarrow> session_write list \<Rightarrow> ('s, 'o, unit) hact" where
  "flush_writes E [] = ret_act ()"
| "flush_writes E (w # ws) =
     then_act (perform_write E w) (then_act (modify_act drop_write) (flush_writes E ws))"

definition flush_pending_session_writes :: "('s, 'o) harness_env \<Rightarrow> ('s, 'o, unit) hact" where
  "flush_pending_session_writes E = bind_act (get_act hn_pending_session_writes) (flush_writes E)"

text \<open>A write now, when the harness is idle, or later.\<close>

definition write_or_wait :: "('s, 'o) harness_env \<Rightarrow> session_write \<Rightarrow> ('s, 'o, unit) hact" where
  "write_or_wait E write =
     bind_act (get_act hn_phase) (\<lambda>phase.
       if phase = IdlePhase then perform_write E write
       else modify_act (\<lambda>h. h\<lparr>hn_pending_session_writes := hn_pending_session_writes h @ [write]\<rparr>))"

definition harness_append_message :: "('s, 'o) harness_env \<Rightarrow> agent_message \<Rightarrow> ('s, 'o, unit) hact" where
  "harness_append_message E m = normalized SessionFailure (write_or_wait E (MessageWrite m))"

definition harness_set_model :: "('s, 'o) harness_env \<Rightarrow> loop_model \<Rightarrow> ('s, 'o, unit) hact" where
  "harness_set_model E model =
     normalized SessionFailure (bind_act (get_act hn_model) (\<lambda>previous.
       then_act (write_or_wait E (ModelChangeWrite (lm_provider model) (lm_id model)))
         (then_act (modify_act (\<lambda>h. h\<lparr>hn_model := Some model\<rparr>))
           (emit_own E (ModelSelect (Some model) previous)))))"

definition harness_set_thinking_level :: "('s, 'o) harness_env \<Rightarrow> string \<Rightarrow> ('s, 'o, unit) hact" where
  "harness_set_thinking_level E level =
     normalized SessionFailure (bind_act (get_act hn_thinking_level) (\<lambda>previous.
       then_act (write_or_wait E (ThinkingLevelWrite level))
         (then_act (modify_act (\<lambda>h. h\<lparr>hn_thinking_level := level\<rparr>))
           (emit_own E (ThinkingLevelSelect level previous)))))"

section \<open>Tools, options, resources and subscribers\<close>

definition validate_tool_names :: "string list \<Rightarrow> (string, nat) dict \<Rightarrow> unit res" where
  "validate_tool_names names tools =
     (let missing = filter (\<lambda>n. dict_get tools n = None) names
      in if missing \<noteq> [] then Inl (AgentHarnessError InvalidArgumentCode (''Unknown tool(s): '' @ py_join '', '' missing))
         else Inr ())"

definition harness_set_active_tools :: "string list \<Rightarrow> ('s, 'o, unit) hact" where
  "harness_set_active_tools names =
     normalized InvalidArgumentCode (bind_act (get_act hn_tools) (\<lambda>tools.
       then_act (of_res (validate_tool_names names tools))
         (modify_act (\<lambda>h. h\<lparr>hn_active_tool_names := names\<rparr>))))"

definition harness_set_tools ::
  "('s, 'o) harness_env \<Rightarrow> nat list \<Rightarrow> string list option \<Rightarrow> ('s, 'o, unit) hact" where
  "harness_set_tools E tools active =
     normalized InvalidArgumentCode (bind_act (get_act hn_active_tool_names) (\<lambda>current.
       let next_tools = tools_by_name E tools;
           next_names = (case active of Some (n # ns) \<Rightarrow> n # ns | _ \<Rightarrow> current)
       in then_act (of_res (validate_tool_names next_names next_tools))
            (modify_act (\<lambda>h. h\<lparr>hn_tools := next_tools, hn_active_tool_names := next_names\<rparr>))))"

definition harness_set_steering_mode :: "string \<Rightarrow> ('s, 'o) harness \<Rightarrow> ('s, 'o) harness" where
  "harness_set_steering_mode mode h = h\<lparr>hn_steering_mode := mode\<rparr>"

definition harness_set_follow_up_mode :: "string \<Rightarrow> ('s, 'o) harness \<Rightarrow> ('s, 'o) harness" where
  "harness_set_follow_up_mode mode h = h\<lparr>hn_follow_up_mode := mode\<rparr>"

definition harness_set_stream_options :: "stream_options \<Rightarrow> ('s, 'o) harness \<Rightarrow> ('s, 'o) harness" where
  "harness_set_stream_options options h = h\<lparr>hn_stream_options := clone_stream_options (Some options)\<rparr>"

text \<open>Lists are values here, so that the copies of \<open>_get_resources\<close> are the resources themselves.\<close>

definition harness_set_resources :: "('s, 'o) harness_env \<Rightarrow> resources \<Rightarrow> ('s, 'o, unit) hact" where
  "harness_set_resources E r =
     bind_act (get_act hn_resources) (\<lambda>previous.
       then_act (modify_act (\<lambda>h. h\<lparr>hn_resources := r\<rparr>)) (emit_own E (ResourcesUpdate r previous)))"

text \<open>\<open>subscribe\<close> is \<open>on\<close> with the type \<^verbatim>\<open>"*"\<close>; the second function is what both return.\<close>

definition harness_on :: "string \<Rightarrow> nat \<Rightarrow> ('s, 'o) harness \<Rightarrow> ('s, 'o) harness" where
  "harness_on ty l h =
     h\<lparr>hn_handlers := (hn_handlers h)(ty :=
         if l \<in> set (hn_handlers h ty) then hn_handlers h ty else hn_handlers h ty @ [l])\<rparr>"

definition harness_off :: "string \<Rightarrow> nat \<Rightarrow> ('s, 'o) harness \<Rightarrow> ('s, 'o) harness" where
  "harness_off ty l h = h\<lparr>hn_handlers := (hn_handlers h)(ty := removeAll l (hn_handlers h ty))\<rparr>"

section \<open>Abort\<close>

definition abort_cell :: "('s, 'o) harness \<Rightarrow> ('s, 'o) harness" where
  "abort_cell h =
     (case hn_controller h of
        None \<Rightarrow> h
      | Some i \<Rightarrow> h\<lparr>hn_cells := (hn_cells h)[i := (hn_cells h ! i)\<lparr>ce_aborted := True\<rparr>]\<rparr>)"

definition fresh_queue :: "message_queue \<Rightarrow> message_queue" where
  "fresh_queue q = \<lparr>mq_ref = Suc (mq_ref q), mq_items = []\<rparr>"

text \<open>An exception becomes a value.\<close>

definition caught :: "('s, unit) act \<Rightarrow> ('s, pyexn list) act" where
  "caught m s = (case m s of (Inl e, t) \<Rightarrow> (Inr [e], t) | (Inr u, t) \<Rightarrow> (Inr [], t))"

definition harness_abort ::
  "('s, 'o) harness_env \<Rightarrow> ('s, 'o, agent_message list \<times> agent_message list) hact" where
  "harness_abort E =
     bind_act (get_act (\<lambda>h. (mq_items (hn_steer_queue h), mq_items (hn_follow_up_queue h)))) (\<lambda>(steer, follow_up).
     then_act (modify_act (\<lambda>h. abort_cell
         (h\<lparr>hn_steer_queue := fresh_queue (hn_steer_queue h), hn_follow_up_queue := fresh_queue (hn_follow_up_queue h)\<rparr>)))
     (bind_act (caught (emit_queue_update E)) (\<lambda>es1.
      bind_act (caught (emit_own E (AbortEvent steer follow_up))) (\<lambda>es2.
        case es1 @ es2 of
          [] \<Rightarrow> ret_act (steer, follow_up)
        | [e] \<Rightarrow> raise_act (normalize_harness_error e HookFailure)
        | es \<Rightarrow> raise_act (normalize_harness_error
            (PlainException (''Abort completed with errors: '' @ py_join ''; '' (map (le_exn_text (he_loop E)) es)))
            HookFailure)))))"

end
