(* ===== verification/HarnessRuns.thy ===== *)
theory HarnessRuns
  imports HarnessState
begin

text \<open>
  Execution of a turn by the harness (\<^verbatim>\<open>harness/agent_harness.py\<close>): the state that a turn starts
  from, the configuration and the surroundings that the harness gives to the agent loop, what it does
  with the events of the loop, and the calls that start a turn.

  The path of a branch is found by a walk that may not end, so that a call has a result only as an option.
\<close>

section \<open>Computations that may not return\<close>

type_synonym ('s, 'a) run = "'s \<Rightarrow> ('a res \<times> 's) option"

definition run_act :: "('s, 'a) act \<Rightarrow> ('s, 'a) run" where
  "run_act m s = Some (m s)"

definition bind_run :: "('s, 'a) run \<Rightarrow> ('a \<Rightarrow> ('s, 'b) run) \<Rightarrow> ('s, 'b) run" where
  "bind_run m f s =
     (case m s of
        None \<Rightarrow> None
      | Some (Inl e, t) \<Rightarrow> Some (Inl e, t)
      | Some (Inr x, t) \<Rightarrow> f x t)"

text \<open>\<^verbatim>\<open>try\<close> with \<^verbatim>\<open>except\<close> and \<^verbatim>\<open>finally\<close>; an exception of the latter replaces the outcome.\<close>

definition catch_run :: "('s, 'a) run \<Rightarrow> (pyexn \<Rightarrow> ('s, 'a) act) \<Rightarrow> ('s, 'a) run" where
  "catch_run m h s =
     (case m s of
        None \<Rightarrow> None
      | Some (Inl e, t) \<Rightarrow> Some (h e t)
      | Some (Inr x, t) \<Rightarrow> Some (Inr x, t))"

definition finally_act :: "('s, 'a) act \<Rightarrow> ('s, unit) act \<Rightarrow> ('s, 'a) act" where
  "finally_act m k s =
     (case m s of (r, t) \<Rightarrow> (case k t of (Inl e, u) \<Rightarrow> (Inl e, u) | (Inr _, u) \<Rightarrow> (r, u)))"

definition finally_run :: "('s, 'a) run \<Rightarrow> ('s, unit) act \<Rightarrow> ('s, 'a) run" where
  "finally_run m k s =
     (case m s of
        None \<Rightarrow> None
      | Some rt \<Rightarrow> Some (finally_act (\<lambda>_. rt) k s))"

section \<open>The state of a turn\<close>

definition active_tools_of :: "('s, 'o) harness \<Rightarrow> nat list" where
  "active_tools_of h =
     concat (map (\<lambda>n. case dict_get (hn_tools h) n of Some t \<Rightarrow> [t] | None \<Rightarrow> []) (hn_active_tool_names h))"

definition resolve_system_prompt :: "('s, 'o) harness_env \<Rightarrow> ('s, 'o, string) hact" where
  "resolve_system_prompt E =
     (case he_system_prompt E of
        FixedPrompt p \<Rightarrow> ret_act p
      | MadePrompt f \<Rightarrow>
          bind_act (get_act (\<lambda>h. h)) (\<lambda>h. f (hn_model h) (hn_thinking_level h) (active_tools_of h) (hn_resources h))
      | NoPrompt \<Rightarrow> ret_act ''You are a helpful assistant.'')"

definition finish_turn_state ::
  "('s, 'o) harness_env \<Rightarrow> session_context \<Rightarrow> ('s, 'o, turn_state) hact" where
  "finish_turn_state E context =
     bind_act (get_act (\<lambda>h. h)) (\<lambda>h0.
       bind_act (read_session (so_getMetadata (he_ops E))) (\<lambda>metadata.
       bind_act (resolve_system_prompt E) (\<lambda>system_prompt.
         get_act (\<lambda>h.
           \<lparr>ts_messages = sc_messages context, ts_resources = hn_resources h0,
            ts_streamOptions = clone_stream_options (Some (hn_stream_options h)),
            ts_sessionId = md_id metadata, ts_systemPrompt = system_prompt,
            ts_model = hn_model h, ts_thinkingLevel = hn_thinking_level h,
            ts_tools = map snd (hn_tools h0), ts_activeTools = active_tools_of h0\<rparr>))))"

definition create_turn_state :: "('s, 'o) harness_env \<Rightarrow> (('s, 'o) harness, turn_state) run" where
  "create_turn_state E h =
     (case build_context (he_lib E) (he_ops E) (hn_session h) of
        None \<Rightarrow> None
      | Some r \<Rightarrow> Some (bind_act (of_res r) (finish_turn_state E) h))"

definition create_context ::
  "('s, 'o) harness_env \<Rightarrow> turn_state \<Rightarrow> string option \<Rightarrow> ('s, 'o) harness agent_context" where
  "create_context E ts system_prompt =
     \<lparr>cx_systemPrompt = (case system_prompt of Some p \<Rightarrow> p | None \<Rightarrow> ts_systemPrompt ts),
      cx_messages = map OtherM (ts_messages ts), cx_tools = Some (map (he_tool E) (ts_activeTools ts))\<rparr>"

definition current_turn_state :: "nat \<Rightarrow> ('s, 'o) harness \<Rightarrow> turn_state" where
  "current_turn_state k h = ce_turn_state (hn_cells h ! k)"

definition set_turn_state :: "nat \<Rightarrow> turn_state \<Rightarrow> ('s, 'o) harness \<Rightarrow> ('s, 'o) harness" where
  "set_turn_state k ts h = h\<lparr>hn_cells := (hn_cells h)[k := (hn_cells h ! k)\<lparr>ce_turn_state := ts\<rparr>]\<rparr>"

definition cell_aborted :: "nat \<Rightarrow> ('s, 'o) harness \<Rightarrow> bool" where
  "cell_aborted k h = ce_aborted (hn_cells h ! k)"

section \<open>The stream\<close>

text \<open>
  The body of \<open>_stream_fn\<close>, without its last statement that calls the stream: the function to call, the
  options of the request and the key.
\<close>

definition stream_request ::
  "('s, 'o) harness_env \<Rightarrow> nat \<Rightarrow> loop_model option
     \<Rightarrow> ('s, 'o, ('s, 'o) harness stream_fn \<times> stream_options \<times> string option) hact" where
  "stream_request E k model =
     bind_act (get_act (current_turn_state k)) (\<lambda>ts.
     bind_act (case he_get_api_key_and_headers E of None \<Rightarrow> ret_act None | Some f \<Rightarrow> f model) (\<lambda>auth.
     let snapshot = (ts_streamOptions ts)\<lparr>sp_headers :=
           merge_headers [sp_headers (ts_streamOptions ts), (case auth of Some a \<Rightarrow> au_headers a | None \<Rightarrow> None)]\<rparr>
     in bind_act (emit_before_provider_request E model (ts_sessionId ts) snapshot) (\<lambda>options.
        bind_act (of_res (resolve_agent_core_stream_fn (he_runtime E) None)) (\<lambda>f.
          ret_act (f, options, (case auth of Some a \<Rightarrow> au_apiKey a | None \<Rightarrow> None))))))"

text \<open>
  A call of \<open>_stream_fn\<close> makes a coroutine, which the loop does not await: nothing of the body runs, and
  the loop over the events raises, since a coroutine has no events.
\<close>

definition harness_stream_fn :: "('s, 'o) harness stream_fn" where
  "harness_stream_fn model context config key = ret_act ()"

section \<open>Events of the loop\<close>

definition handle_agent_event :: "('s, 'o) harness_env \<Rightarrow> agent_event \<Rightarrow> ('s, 'o, unit) hact" where
  "handle_agent_event E ev =
     (case ev of
        MessageEnd m \<Rightarrow> then_act (append_session_message E m) (emit_any E ev)
      | TurnEnd m rs \<Rightarrow>
          bind_act (caught (emit_any E ev)) (\<lambda>event_error.
          bind_act (get_act (\<lambda>h. hn_pending_session_writes h \<noteq> [])) (\<lambda>had_pending.
            then_act (flush_pending_session_writes E)
              (case event_error of e # es \<Rightarrow> raise_act e | [] \<Rightarrow> emit_own E (SavePoint had_pending))))
      | AgentEnd ms \<Rightarrow>
          then_act (flush_pending_session_writes E)
            (then_act (modify_act (\<lambda>h. h\<lparr>hn_phase := IdlePhase\<rparr>))
              (then_act (emit_any E ev)
                (bind_act (get_act (\<lambda>h. length (hn_next_turn_queue h))) (\<lambda>n. emit_own E (SettledEvent n)))))
      | _ \<Rightarrow> emit_any E ev)"

definition harness_loop_env :: "('s, 'o) harness_env \<Rightarrow> nat \<Rightarrow> ('s, 'o) harness loop_env" where
  "harness_loop_env E k = (he_loop E)
     \<lparr>le_emit := handle_agent_event E,
      le_signal := Some (\<lambda>h. (cell_aborted k h, None)),
      le_stream_fn := Some harness_stream_fn, le_runtime := None,
      le_stream_next := raise_act PyTypeError,
      le_stream_result := raise_act (PyAttributeError ''result'')\<rparr>"

section \<open>The configuration of the loop\<close>

text \<open>
  The hooks read the identifiers of a tool call under keys that the loop does not give them, so that
  the events for tool calls hold none.
\<close>

definition tool_call_event :: pyval where
  "tool_call_event = VDict [(''type'', VStr ''tool_call''), (''toolCallId'', VStr []), (''toolName'', VStr []),
     (''input'', VDict [])]"

definition tool_result_event :: "bool \<Rightarrow> pyval" where
  "tool_result_event is_error = VDict [(''type'', VStr ''tool_result''), (''toolCallId'', VStr []),
     (''toolName'', VStr []), (''input'', VDict []), (''content'', VList []), (''details'', VNone),
     (''isError'', VBool is_error)]"

definition transform_context ::
  "('s, 'o) harness_env \<Rightarrow> agent_message list \<Rightarrow> ('s, 'o, agent_message list) hact" where
  "transform_context E ms =
     bind_act (emit_hook E ''context'' (\<lambda>l. he_on_context E l ms)) (\<lambda>r.
       ret_act (case r of Some (Some (v # vs)) \<Rightarrow> map OtherM (v # vs) | _ \<Rightarrow> ms))"

definition harness_next_turn_state ::
  "('s, 'o) harness_env \<Rightarrow> nat \<Rightarrow> ('s, 'o) harness turn_context \<Rightarrow> ('s, 'o, ('s, 'o) harness turn_update option) hact" where
  "harness_next_turn_state E k tx =
     then_act (flush_pending_session_writes E)
       (bind_act (\<lambda>h. the (create_turn_state E h)) (\<lambda>ts.
         then_act (modify_act (set_turn_state k ts))
           (ret_act (Some \<lparr>tu_context = Some (create_context E ts None), tu_model = Some (ts_model ts),
              tu_thinkingLevel = Some (Some (ts_thinkingLevel ts))\<rparr>))))"

definition create_harness_config ::
  "('s, 'o) harness_env \<Rightarrow> nat \<Rightarrow> ('s, 'o, ('s, 'o) harness loop_config) hact" where
  "create_harness_config E k =
     bind_act (get_act (current_turn_state k)) (\<lambda>ts.
     bind_act (of_res (resolve_agent_reasoning_option (le_fable5 (he_loop E)) (ts_model ts) (ts_thinkingLevel ts)))
       (\<lambda>reasoning. ret_act
         \<lparr>lc_model = ts_model ts, lc_thinkingLevel = Some (ts_thinkingLevel ts), lc_reasoning = reasoning,
          lc_apiKey = None, lc_toolExecution = None,
          lc_convertToLlm = Some (\<lambda>ms. of_res (bind_res (convert_to_llm (he_lib E) (map message_value ms))
             (\<lambda>vs. Inr (map OtherM vs)))),
          lc_transformContext = Some (transform_context E), lc_getApiKey = None,
          lc_beforeToolCall = Some (\<lambda>c. emit_hook E ''tool_call'' (\<lambda>l. he_on_tool_call E l tool_call_event)),
          lc_resolveDeferredTool = None,
          lc_afterToolCall = Some (\<lambda>c result is_error.
             emit_hook E ''tool_result'' (\<lambda>l. he_on_tool_result E l (tool_result_event is_error))),
          lc_prepareNextTurn = Some (harness_next_turn_state E k),
          lc_shouldStopAfterTurn = None,
          lc_getSteeringMessages = Some (drain_queued_messages E SteerQueue),
          lc_getFollowUpMessages = Some (drain_queued_messages E FollowUpQueue)\<rparr>))"


section \<open>A failed run\<close>

definition create_failure_message ::
  "int \<Rightarrow> loop_model option \<Rightarrow> string \<Rightarrow> bool \<Rightarrow> agent_message res" where
  "create_failure_message now model error aborted =
     (case model of
        None \<Rightarrow> Inl (PyAttributeError ''api'')
      | Some m \<Rightarrow> Inr (AssistantM
          \<lparr>am_content = [TextBlock []], am_api = lm_api m, am_provider = lm_provider m, am_model = lm_id m,
           am_usage = EMPTY_USAGE, am_stop_reason = (if aborted then ''aborted'' else ''error''),
           am_error_message = Some error, am_timestamp = now\<rparr>))"

definition emit_run_failure ::
  "('s, 'o) harness_env \<Rightarrow> loop_model option \<Rightarrow> pyexn \<Rightarrow> bool \<Rightarrow> ('s, 'o, agent_message list) hact" where
  "emit_run_failure E model error aborted =
     bind_act (get_act (le_now_ms (he_loop E))) (\<lambda>now.
     bind_act (of_res (create_failure_message now model (le_exn_text (he_loop E) error) aborted)) (\<lambda>m.
       then_act (handle_agent_event E (MessageStart (Message m)))
         (then_act (handle_agent_event E (MessageEnd m))
           (then_act (handle_agent_event E (TurnEnd m []))
             (then_act (handle_agent_event E (AgentEnd [m])) (ret_act [m]))))))"

definition report_failure ::
  "('s, 'o) harness_env \<Rightarrow> nat \<Rightarrow> pyexn \<Rightarrow> ('s, 'o, agent_message list) hact" where
  "report_failure E k error =
     catch_act
       (bind_act (get_act (\<lambda>h. (ts_model (current_turn_state k h), cell_aborted k h))) (\<lambda>(model, aborted).
          emit_run_failure E model error aborted))
       (\<lambda>_. raise_act (AgentHarnessError UnknownFailure
          (''Agent run failed and failure reporting failed: '' @ le_exn_text (he_loop E) error)))"

section \<open>Execution of a turn\<close>

text \<open>The messages that wait for the next turn, which come before the message of the user.\<close>

definition take_next_turn_queue ::
  "('s, 'o) harness_env \<Rightarrow> agent_message \<Rightarrow> ('s, 'o, agent_message list) hact" where
  "take_next_turn_queue E m =
     bind_act (get_act hn_next_turn_queue) (\<lambda>queued.
       if queued = [] then ret_act [m]
       else then_act (modify_act (\<lambda>h. h\<lparr>hn_next_turn_queue := []\<rparr>))
         (catch_act (then_act (emit_queue_update E) (ret_act (queued @ [m])))
           (\<lambda>e. then_act (modify_act (\<lambda>h. h\<lparr>hn_next_turn_queue := queued @ hn_next_turn_queue h\<rparr>))
                  (raise_act (normalize_hook_error e)))))"

definition before_agent_start ::
  "('s, 'o) harness_env \<Rightarrow> turn_state \<Rightarrow> string \<Rightarrow> pyval list option \<Rightarrow> ('s, 'o, start_hook_result option) hact" where
  "before_agent_start E ts text images =
     emit_hook E ''before_agent_start''
       (\<lambda>l. he_on_start E l text images (ts_systemPrompt ts) (ts_resources ts))"

text \<open>A new cell for the turn, with a new abort controller.\<close>

definition open_turn :: "turn_state \<Rightarrow> ('s, 'o, nat) hact" where
  "open_turn ts h =
     (Inr (length (hn_cells h)),
      h\<lparr>hn_cells := hn_cells h @ [\<lparr>ce_turn_state = ts, ce_aborted = False\<rparr>],
        hn_controller := Some (length (hn_cells h))\<rparr>)"

definition run_turn_loop ::
  "('s, 'o) harness_env \<Rightarrow> nat \<Rightarrow> agent_message list \<Rightarrow> string option
     \<Rightarrow> (('s, 'o) harness, agent_message list) run" where
  "run_turn_loop E k ms system_prompt =
     bind_run (run_act (get_act (\<lambda>h. create_context E (current_turn_state k h) system_prompt))) (\<lambda>ctx.
     bind_run (run_act (create_harness_config E k)) (\<lambda>cfg h.
       map_option (\<lambda>(r, s). (r, lp_world s)) (run_agent_loop (harness_loop_env E k) ms ctx cfg h)))"

definition value_role :: "agent_message \<Rightarrow> pyval" where
  "value_role m = message_role (message_value m)"

definition last_assistant :: "agent_message list \<Rightarrow> agent_message res" where
  "last_assistant ms =
     (case filter (\<lambda>m. value_role m = VStr ''assistant'') (rev ms) of
        m # _ \<Rightarrow> Inr m
      | [] \<Rightarrow> Inl (AgentHarnessError InvalidStateCode ''AgentHarness prompt completed without an assistant message''))"

definition close_turn_run :: "('s, 'o) harness_env \<Rightarrow> ('s, 'o, unit) hact" where
  "close_turn_run E =
     finally_act (flush_pending_session_writes E) (modify_act (\<lambda>h. h\<lparr>hn_controller := None\<rparr>))"

definition execute_turn ::
  "('s, 'o) harness_env \<Rightarrow> turn_state \<Rightarrow> string \<Rightarrow> pyval list option \<Rightarrow> (('s, 'o) harness, agent_message) run" where
  "execute_turn E ts text images =
     bind_run (run_act (get_act (\<lambda>h. create_user_message (le_now_ms (he_loop E) h) text images))) (\<lambda>m.
     bind_run (run_act (take_next_turn_queue E m)) (\<lambda>messages.
     bind_run (run_act (before_agent_start E ts text images)) (\<lambda>before.
     let added = (case before of Some b \<Rightarrow> (case sr_messages b of Some vs \<Rightarrow> map OtherM vs | None \<Rightarrow> []) | None \<Rightarrow> []);
         system_prompt = (case before of Some b \<Rightarrow> sr_systemPrompt b | None \<Rightarrow> None)
     in bind_run (run_act (open_turn ts)) (\<lambda>k.
          finally_run
            (bind_run (catch_run (run_turn_loop E k (messages @ added) system_prompt) (report_failure E k))
              (\<lambda>new_messages. run_act (of_res (last_assistant new_messages))))
            (close_turn_run E)))))"

section \<open>The calls that start a turn\<close>

text \<open>What the calls have in common: only an idle harness starts one, and it is idle again at the end.\<close>

definition set_phase :: "harness_phase \<Rightarrow> ('s, 'o) harness \<Rightarrow> ('s, 'o) harness" where
  "set_phase p h = h\<lparr>hn_phase := p\<rparr>"

definition when_idle ::
  "string \<Rightarrow> harness_phase \<Rightarrow> harness_error_code \<Rightarrow> (('s, 'o) harness, 'a) run \<Rightarrow> (('s, 'o) harness, 'a) run" where
  "when_idle busy phase code body h =
     (if hn_phase h \<noteq> IdlePhase then Some (Inl (AgentHarnessError BusyCode busy), h)
      else finally_run (catch_run body (\<lambda>e. raise_act (normalize_harness_error e code)))
             (modify_act (set_phase IdlePhase)) (set_phase phase h))"

definition harness_prompt ::
  "('s, 'o) harness_env \<Rightarrow> string \<Rightarrow> pyval list option \<Rightarrow> (('s, 'o) harness, agent_message) run" where
  "harness_prompt E text images =
     when_idle ''AgentHarness is busy'' TurnPhase UnknownFailure
       (bind_run (create_turn_state E) (\<lambda>ts. execute_turn E ts text images))"

text \<open>The resources are a data class, which has no method \<open>get\<close>; what follows in the code is not reached.\<close>

definition resources_get :: "resources \<Rightarrow> string \<Rightarrow> 'a res" where
  "resources_get r key = Inl (PyAttributeError ''get'')"

definition harness_skill ::
  "('s, 'o) harness_env \<Rightarrow> string \<Rightarrow> string option \<Rightarrow> (('s, 'o) harness, agent_message) run" where
  "harness_skill E name additional =
     when_idle ''AgentHarness is busy'' TurnPhase UnknownFailure
       (bind_run (create_turn_state E) (\<lambda>ts.
        bind_run (run_act (of_res (resources_get (ts_resources ts) ''skills''))) (\<lambda>skills.
          case List.find (\<lambda>s. sk_name s = name) skills of
            None \<Rightarrow> run_act (raise_act (AgentHarnessError InvalidArgumentCode (''Unknown skill: '' @ name)))
          | Some s \<Rightarrow> execute_turn E ts (format_skill_invocation s additional) None)))"

definition harness_prompt_from_template ::
  "('s, 'o) harness_env \<Rightarrow> string \<Rightarrow> string list \<Rightarrow> (('s, 'o) harness, agent_message) run" where
  "harness_prompt_from_template E name args =
     when_idle ''AgentHarness is busy'' TurnPhase UnknownFailure
       (bind_run (create_turn_state E) (\<lambda>ts.
        bind_run (run_act (of_res (resources_get (ts_resources ts) ''promptTemplates''))) (\<lambda>templates.
          case List.find (\<lambda>t. pt_name t = name) templates of
            None \<Rightarrow> run_act (raise_act (AgentHarnessError InvalidArgumentCode (''Unknown prompt template: '' @ name)))
          | Some t \<Rightarrow> execute_turn E ts (format_prompt_template_invocation t args) None)))"

end
