(* ===== verification/HarnessTree.thy ===== *)
theory HarnessTree
  imports HarnessRuns
begin

text \<open>
  The other calls of the harness that need it idle: \<open>compact\<close>, which appends a summary of the
  branch to the session, and \<open>navigate_tree\<close>, which moves to another entry of its tree. The texts come
  from a hook or from the language model, whose answers are a function of what it is asked.
\<close>

section \<open>Compaction\<close>

definition get_auth ::
  "('s, 'o) harness_env \<Rightarrow> loop_model \<Rightarrow> string \<Rightarrow> ('s, 'o, provider_auth) hact" where
  "get_auth E model refusal =
     bind_act (case he_get_api_key_and_headers E of None \<Rightarrow> ret_act None | Some f \<Rightarrow> f (Some model)) (\<lambda>auth.
       case auth of
         None \<Rightarrow> raise_act (AgentHarnessError AuthFailure refusal)
       | Some a \<Rightarrow> ret_act a)"

definition need_model :: "string \<Rightarrow> ('s, 'o, loop_model) hact" where
  "need_model refusal =
     bind_act (get_act hn_model) (\<lambda>model.
       case model of None \<Rightarrow> raise_act (AgentHarnessError InvalidStateCode refusal) | Some m \<Rightarrow> ret_act m)"

definition headers_value :: "(string, string) dict option \<Rightarrow> pyval" where
  "headers_value d = (case d of None \<Rightarrow> VNone | Some kvs \<Rightarrow> VDict (map (\<lambda>(k, v). (k, VStr v)) kvs))"

definition call_options_of :: "provider_auth \<Rightarrow> call_options" where
  "call_options_of a =
     \<lparr>co_api_key = text_or_none (au_apiKey a), co_headers = headers_value (au_headers a),
      co_signal = VObj ''signal'' [(''aborted'', VBool False), (''reason'', VNone)]\<rparr>"

definition own_result :: "compaction_result \<Rightarrow> compact_result" where
  "own_result r =
     \<lparr>hc_summary = cr_summary r, hc_firstKeptEntryId = cr_firstKeptEntryId r, hc_tokensBefore = cr_tokensBefore r,
      hc_details = details_value (cr_details r)\<rparr>"

text \<open>An exception of its own becomes one of the harness, by way of an attribute that it does not have.\<close>

definition compact_with_model ::
  "('s, 'o) harness_env \<Rightarrow> compaction_preparation \<Rightarrow> loop_model \<Rightarrow> provider_auth \<Rightarrow> string option
     \<Rightarrow> ('s, 'o, compact_result) hact" where
  "compact_with_model E p model auth custom =
     bind_act (get_act (le_now_ms (he_loop E))) (\<lambda>now.
     catch_act
       (bind_act (of_res (compact (he_lib E) (he_llm_runtime E) (he_llm_model E model) now (call_options_of auth)
            (he_second_first E) p custom)) (\<lambda>r. ret_act (own_result r)))
       (\<lambda>e. case e of
          CompactionError c m \<Rightarrow>
            bind_act (of_res (exn_message e)) (\<lambda>text. raise_act (AgentHarnessError CompactionFailure text))
        | _ \<Rightarrow> raise_act e))"

definition record_compaction ::
  "('s, 'o) harness_env \<Rightarrow> compact_result \<Rightarrow> bool \<Rightarrow> ('s, 'o, unit) hact" where
  "record_compaction E r from_hook =
     bind_act (get_act (he_now E)) (\<lambda>now.
     bind_act (on_session (append_compaction (he_ops E) now (hc_summary r) (hc_firstKeptEntryId r)
                 (hc_tokensBefore r) (hc_details r) (Some from_hook))) (\<lambda>entry_id.
     bind_act (read_session (\<lambda>s. so_getEntry (he_ops E) s entry_id)) (\<lambda>entry.
       case entry of
         None \<Rightarrow> ret_act ()
       | Some e \<Rightarrow> if is_compaction e then emit_own E (SessionCompact e from_hook) else ret_act ())))"

definition compact_prepared ::
  "('s, 'o) harness_env \<Rightarrow> loop_model \<Rightarrow> provider_auth \<Rightarrow> string option \<Rightarrow> session_tree_entry list
     \<Rightarrow> ('s, 'o, compact_result) hact" where
  "compact_prepared E model auth custom branch =
     bind_act (of_res (prepare_compaction (he_lib E) branch DEFAULT_COMPACTION_SETTINGS)) (\<lambda>preparation.
     case preparation of
       None \<Rightarrow> raise_act (AgentHarnessError CompactionFailure ''Nothing to compact'')
     | Some p \<Rightarrow>
         bind_act (emit_hook E ''session_before_compact'' (\<lambda>l. he_on_compact E l p branch custom)) (\<lambda>hook.
           if (case hook of Some k \<Rightarrow> hr_cancel k | None \<Rightarrow> False)
           then raise_act (AgentHarnessError CompactionFailure ''Compaction cancelled'')
           else
             let provided = (case hook of Some k \<Rightarrow> hr_compaction k | None \<Rightarrow> None)
             in bind_act (case provided of
                            Some (Some r) \<Rightarrow> ret_act r
                          | _ \<Rightarrow> compact_with_model E p model auth custom) (\<lambda>r.
                  then_act (record_compaction E r (provided \<noteq> None)) (ret_act r))))"

definition harness_compact ::
  "('s, 'o) harness_env \<Rightarrow> string option \<Rightarrow> (('s, 'o) harness, compact_result) run" where
  "harness_compact E custom =
     when_idle ''compact() requires idle harness'' CompactionPhase CompactionFailure
       (bind_run (run_act (need_model ''No model set for compaction'')) (\<lambda>model.
        bind_run (run_act (get_auth E model ''No auth available for compaction'')) (\<lambda>auth.
        bind_run (\<lambda>h. map_option (\<lambda>r. (r, h)) (get_branch (he_ops E) (hn_session h) None)) (\<lambda>branch.
          run_act (compact_prepared E model auth custom branch)))))"

section \<open>Moving in the tree\<close>

record navigate_options =
  no_summarize :: bool
  no_customInstructions :: "string option"
  no_replaceInstructions :: bool
  no_label :: "string option"

record navigate_result =
  nv_cancelled :: bool
  nv_editorText :: "string option"
  nv_summaryEntry :: "session_tree_entry option"

definition cancelled_result :: "bool \<Rightarrow> navigate_result" where
  "cancelled_result c = \<lparr>nv_cancelled = c, nv_editorText = None, nv_summaryEntry = None\<rparr>"

definition filled_text :: "string option \<Rightarrow> string option" where
  "filled_text t = (case t of Some (c # cs) \<Rightarrow> Some (c # cs) | _ \<Rightarrow> None)"

definition branch_summary_options ::
  "('s, 'o) harness_env \<Rightarrow> loop_model \<Rightarrow> provider_auth \<Rightarrow> tree_hook_result option \<Rightarrow> navigate_options
     \<Rightarrow> branch_options" where
  "branch_summary_options E model auth hook opts =
     \<lparr>bo_model = he_llm_model E model,
      bo_call = (call_options_of auth)\<lparr>co_api_key :=
        (case au_apiKey auth of Some k \<Rightarrow> VStr k | None \<Rightarrow> VStr [])\<rparr>,
      bo_customInstructions =
        (case filled_text (case hook of Some k \<Rightarrow> tr_customInstructions k | None \<Rightarrow> None) of
           Some t \<Rightarrow> Some t | None \<Rightarrow> no_customInstructions opts),
      bo_replaceInstructions =
        ((case hook of Some k \<Rightarrow> tr_replaceInstructions k | None \<Rightarrow> False) \<or> no_replaceInstructions opts),
      bo_reserveTokens = 16384, bo_runtime = he_llm_runtime E\<rparr>"

text \<open>
  The summary by the model: \<open>None\<close> when it was aborted, which cancels the move. The result has its lists
  of files under other names than those that are read.
\<close>

definition summarize_branch ::
  "('s, 'o) harness_env \<Rightarrow> session_tree_entry list \<Rightarrow> tree_hook_result option \<Rightarrow> navigate_options
     \<Rightarrow> ('s, 'o, (string \<times> pyval) option) hact" where
  "summarize_branch E entries hook opts =
     bind_act (need_model ''No model set for branch summary'') (\<lambda>model.
     bind_act (get_auth E model ''No auth available for branch summary'') (\<lambda>auth.
     bind_act (get_act (le_now_ms (he_loop E))) (\<lambda>now.
       case generate_branch_summary (he_lib E) now entries (branch_summary_options E model auth hook opts) of
         Inr r \<Rightarrow> raise_act (PyAttributeError ''read_files'')
       | Inl (BranchSummaryError CompactionAborted m) \<Rightarrow> ret_act None
       | Inl (BranchSummaryError c m) \<Rightarrow>
           bind_act (of_res (exn_message (BranchSummaryError c m))) (\<lambda>text.
             raise_act (AgentHarnessError BranchSummaryFailure text))
       | Inl e \<Rightarrow> raise_act e)))"

text \<open>Where to go for a target, and the text that the user may edit.\<close>

definition content_text :: "pyval \<Rightarrow> string option res" where
  "content_text content =
     (case content of
        VStr s \<Rightarrow> Inr (Some s)
      | VList cs \<Rightarrow> bind_res (text_blocks cs) (\<lambda>ts. Inr (Some (concat ts)))
      | _ \<Rightarrow> Inr None)"

definition destination :: "session_tree_entry \<Rightarrow> string \<Rightarrow> (string option \<times> string option) res" where
  "destination e target =
     (case e_body e of
        MessageE msg \<Rightarrow>
          bind_res (py_get msg ''role'') (\<lambda>role.
            if role = VStr ''user''
            then bind_res (py_get msg ''content'') (\<lambda>c.
                   bind_res (content_text c) (\<lambda>t. Inr (e_parentId e, t)))
            else Inr (Some target, None))
      | CustomMessageE ct content details display \<Rightarrow>
          bind_res (content_text content) (\<lambda>t. Inr (e_parentId e, t))
      | _ \<Rightarrow> Inr (Some target, None))"

definition move_in_tree ::
  "('s, 'o) harness_env \<Rightarrow> string option \<Rightarrow> session_tree_entry \<Rightarrow> string \<Rightarrow> (string \<times> pyval) option \<Rightarrow> bool
     \<Rightarrow> ('s, 'o, navigate_result) hact" where
  "move_in_tree E old_leaf entry target smry from_hook =
     bind_act (of_res (destination entry target)) (\<lambda>(new_leaf, editor_text).
     bind_act (get_act (he_now E)) (\<lambda>now.
     bind_act (on_session (move_to (he_ops E) now new_leaf
         (map_option (\<lambda>(text, details). \<lparr>ba_summary = Some text, ba_details = details,
            ba_fromHook = Some from_hook\<rparr>) smry))) (\<lambda>summary_id.
     bind_act (read_session (\<lambda>s. case filled_text summary_id of None \<Rightarrow> Inr None | Some k \<Rightarrow>
         bind_res (so_getEntry (he_ops E) s k) (\<lambda>entry. Inr (case entry of None \<Rightarrow> None
          | Some e \<Rightarrow> (case e_body e of BranchSummaryE f t d b \<Rightarrow> Some e | _ \<Rightarrow> None))))) (\<lambda>summary_entry.
     bind_act (read_session (so_getLeafId (he_ops E))) (\<lambda>leaf.
       then_act (emit_own E (SessionTreeEvent leaf old_leaf summary_entry from_hook))
         (ret_act \<lparr>nv_cancelled = False, nv_editorText = editor_text, nv_summaryEntry = summary_entry\<rparr>))))))"

definition navigate_prepared ::
  "('s, 'o) harness_env \<Rightarrow> string option \<Rightarrow> session_tree_entry \<Rightarrow> tree_preparation \<Rightarrow> navigate_options
     \<Rightarrow> ('s, 'o, navigate_result) hact" where
  "navigate_prepared E old_leaf entry p opts =
     bind_act (emit_hook E ''session_before_tree'' (\<lambda>l. he_on_tree E l p)) (\<lambda>hook.
       if (case hook of Some k \<Rightarrow> tr_cancel k | None \<Rightarrow> False) then ret_act (cancelled_result True)
       else
         let from_hook = (case hook of Some k \<Rightarrow> (case tr_summary k of Some (Some s) \<Rightarrow> True | _ \<Rightarrow> False) | None \<Rightarrow> False)
         in bind_act (case hook of
              None \<Rightarrow> ret_act (None, VNone)
            | Some k \<Rightarrow> (case tr_summary k of
                 None \<Rightarrow> ret_act (None, VNone)
               | Some None \<Rightarrow> raise_act (PyAttributeError ''get'')
               | Some (Some s) \<Rightarrow> ret_act s)) (\<lambda>(text, details).
            case filled_text text of
              Some t \<Rightarrow> move_in_tree E old_leaf entry (tp_targetId p) (Some (t, details)) from_hook
            | None \<Rightarrow>
                if no_summarize opts \<and> tp_entriesToSummarize p \<noteq> []
                then bind_act (summarize_branch E (tp_entriesToSummarize p) hook opts) (\<lambda>s.
                       case s of
                         None \<Rightarrow> ret_act (cancelled_result True)
                       | Some (t, d) \<Rightarrow> move_in_tree E old_leaf entry (tp_targetId p)
                           (map_option (\<lambda>t'. (t', d)) (filled_text (Some t))) from_hook)
                else move_in_tree E old_leaf entry (tp_targetId p) None from_hook))"

definition navigate_found ::
  "('s, 'o) harness_env \<Rightarrow> string option \<Rightarrow> session_tree_entry \<Rightarrow> string \<Rightarrow> navigate_options
     \<Rightarrow> (('s, 'o) harness, navigate_result) run" where
  "navigate_found E old_leaf entry target opts =
     bind_run (\<lambda>h. map_option (\<lambda>r. (r, h))
         (collect_entries_for_branch_summary (he_ops E) (hn_session h) old_leaf target)) (\<lambda>(entries, ancestor).
       run_act (navigate_prepared E old_leaf entry
         \<lparr>tp_targetId = target, tp_oldLeafId = old_leaf, tp_commonAncestorId = ancestor,
          tp_entriesToSummarize = entries, tp_userWantsSummary = no_summarize opts,
          tp_customInstructions = no_customInstructions opts, tp_replaceInstructions = no_replaceInstructions opts,
          tp_label = no_label opts\<rparr> opts))"

definition harness_navigate_tree ::
  "('s, 'o) harness_env \<Rightarrow> string \<Rightarrow> navigate_options \<Rightarrow> (('s, 'o) harness, navigate_result) run" where
  "harness_navigate_tree E target opts =
     when_idle ''navigateTree() requires idle harness'' BranchSummaryPhase BranchSummaryFailure
       (bind_run (run_act (read_session (so_getLeafId (he_ops E)))) (\<lambda>old_leaf.
          if old_leaf = Some target then run_act (ret_act (cancelled_result False))
          else bind_run (run_act (read_session (\<lambda>s. so_getEntry (he_ops E) s target))) (\<lambda>entry.
            case entry of
              None \<Rightarrow> run_act (raise_act (AgentHarnessError InvalidArgumentCode
                (''Entry '' @ target @ '' not found'')))
            | Some e \<Rightarrow> navigate_found E old_leaf e target opts)))"

end
