(* ===== verification/HarnessFacts.thy ===== *)
theory HarnessFacts
  imports HarnessTree LoopRuns
begin

text \<open>
  What holds of the harness: the ends of its calls and their exceptions, the writes that wait, the
  queues, and what becomes of a turn.
\<close>

section \<open>A harness for examples\<close>

text \<open>A session in a list, whose branch is the whole list.\<close>

definition trial_ops :: "session_tree_entry list session_ops" where
  "trial_ops =
     \<lparr>so_getMetadata = (\<lambda>s. Inr demo_metadata), so_getLeafId = (\<lambda>s. Inr (if s = [] then None else Some (e_id (last s)))),
      so_getAppendParentId = None, so_setLeafId = (\<lambda>k. ret_act ()),
      so_createEntryId = (\<lambda>s. (Inr (replicate (Suc (length s)) CHR ''x''), s)),
      so_appendEntry = (\<lambda>e s. (Inr (), s @ [e])),
      so_getEntry = (\<lambda>s k. Inr (find (\<lambda>e. e_id e = k) s)), so_find_entries = (\<lambda>s t. Inr []),
      so_getLabel = (\<lambda>s k. Inr None), so_getPathToRoot = (\<lambda>s k. Some (Inr s)), so_getEntries = (\<lambda>s. Inr s)\<rparr>"

definition trial_harness_env :: "'s session_ops \<Rightarrow> ('s, nat) harness_env" where
  "trial_harness_env ops =
     \<lparr>he_ops = ops, he_lib = demo_lib,
      he_now = (\<lambda>h. ''2024-01-01T00:00:00Z''),
      he_loop =
        \<lparr>le_emit = (\<lambda>ev h. (Inr (), h)), le_signal = None, le_stream_fn = None, le_runtime = None,
         le_stream_next = raise_act PyTypeError, le_stream_result = raise_act PyTypeError,
         le_make_context = (\<lambda>p ms ts. Inr VNone), le_now_ms = (\<lambda>h. 0),
         le_exn_text = (\<lambda>e. ''error''), le_fable5 = (\<lambda>m. False)\<rparr>,
      he_tool = (\<lambda>k. \<lparr>at_name = ''read'', at_description = VNone, at_parameters = VNone,
         at_executionMode = None, at_prepareArguments = None, at_execute = (\<lambda>i a h. ((Inl PyTypeError, []), h))\<rparr>),
      he_set_order = (\<lambda>ls. ls), he_system_prompt = NoPrompt,
      he_get_api_key_and_headers = Some (\<lambda>m. ret_act (Some \<lparr>au_apiKey = Some ''k'', au_headers = None\<rparr>)),
      he_llm_model = (\<lambda>m. \<lparr>mo_context_window = 1000, mo_max_tokens = 100\<rparr>), he_llm_runtime = demo_runtime,
      he_second_first = False, he_runtime = None,
      he_listener = (\<lambda>l ev h. (Inr (), h\<lparr>hn_host := Suc (hn_host h)\<rparr>)),
      he_on_start = (\<lambda>l t i s r. ret_act None), he_on_context = (\<lambda>l ms. ret_act None),
      he_on_tool_call = (\<lambda>l v. ret_act None), he_on_tool_result = (\<lambda>l v. ret_act None),
      he_on_compact = (\<lambda>l p b c. ret_act None), he_on_tree = (\<lambda>l p. ret_act None),
      he_on_request = (\<lambda>l m s opts. ret_act None), he_on_payload = (\<lambda>l m v. ret_act None)\<rparr>"

definition trial_harness :: "'s \<Rightarrow> (string \<Rightarrow> nat list) \<Rightarrow> ('s, nat) harness" where
  "trial_harness session handlers =
     \<lparr>hn_session = session, hn_resources = \<lparr>re_promptTemplates = [], re_skills = []\<rparr>, hn_phase = IdlePhase,
      hn_controller = None, hn_cells = [], hn_pending_session_writes = [], hn_model = Some trial_model,
      hn_thinking_level = ''off'', hn_stream_options = clone_stream_options None, hn_tools = [],
      hn_active_tool_names = [], hn_steer_queue = \<lparr>mq_ref = 0, mq_items = []\<rparr>, hn_steering_mode = ''one-at-a-time'',
      hn_follow_up_queue = \<lparr>mq_ref = 0, mq_items = []\<rparr>, hn_follow_up_mode = ''one-at-a-time'',
      hn_next_turn_queue = [], hn_handlers = handlers, hn_host = 0\<rparr>"

text \<open>A subscriber of all events.\<close>

definition one_subscriber :: "string \<Rightarrow> nat list" where
  "one_subscriber ty = (if ty = ''*'' then [0] else [])"

definition empty_harness :: "(session_tree_entry list, nat) harness" where
  "empty_harness = trial_harness [] one_subscriber"

section \<open>The ends of calls\<close>

text \<open>The state that a call leaves, and the exception it ends with.\<close>

definition state_after :: "('s, 'a) run \<Rightarrow> 's \<Rightarrow> 's option" where
  "state_after m s = map_option snd (m s)"

definition error_after :: "('s, 'a) run \<Rightarrow> 's \<Rightarrow> pyexn option" where
  "error_after m s = (case m s of Some (Inl e, t) \<Rightarrow> Some e | _ \<Rightarrow> None)"

definition harness_exn :: "pyexn \<Rightarrow> bool" where
  "harness_exn e \<longleftrightarrow> (\<exists>c m. e = AgentHarnessError c m) \<or> e = PyAttributeError ''message''"

lemma harness_exn_normalize [simp]: "harness_exn (normalize_harness_error e code)"
  by (cases e) (simp_all add: harness_exn_def normalize_harness_error_def exn_message_def)

lemma harness_exn_own [simp]: "harness_exn (AgentHarnessError c m)"
  by (simp add: harness_exn_def)

lemma finally_phase:
  "finally_act m (modify_act (set_phase p)) s = (fst (m s), set_phase p (snd (m s)))"
  by (simp add: finally_act_def modify_act_def split: prod.split)

lemma when_idle_phase:
  "state_after (when_idle busy phase code body) h = Some h' \<Longrightarrow>
     (if hn_phase h = IdlePhase then hn_phase h' = IdlePhase else h' = h)"
  by (auto simp: state_after_def when_idle_def finally_run_def finally_phase set_phase_def split: if_splits option.splits)

lemma when_idle_error:
  "error_after (when_idle busy phase code body) h = Some e \<Longrightarrow> harness_exn e"
  by (auto simp: error_after_def when_idle_def finally_run_def finally_phase catch_run_def raise_act_def
      split: if_splits option.splits sum.splits prod.splits)

lemmas harness_call_defs = harness_prompt_def harness_skill_def harness_prompt_from_template_def
  harness_compact_def harness_navigate_tree_def

text \<open>
  C12. Whatever happened in a call of \<open>prompt\<close>, \<open>skill\<close>, \<open>prompt_from_template\<close>, \<open>compact\<close> or
  \<open>navigate_tree\<close> that returns or raises, an idle harness is idle again after it; a harness that is busy
  is not changed by the call.
\<close>

theorem harness_calls_settle:
  assumes "Some h' \<in> {state_after (harness_prompt E text images) h, state_after (harness_skill E name extra) h,
      state_after (harness_prompt_from_template E name args) h, state_after (harness_compact E custom) h,
      state_after (harness_navigate_tree E target opts) h}"
  shows "if hn_phase h = IdlePhase then hn_phase h' = IdlePhase else h' = h"
  using assms by (auto simp: harness_call_defs dest!: sym [of "Some h'"] dest: when_idle_phase split: if_splits)

theorem harness_calls_settle_witness:
  "\<exists>h'. state_after (harness_prompt (trial_harness_env trial_ops) ''hi'' None) empty_harness = Some h' \<and>
     hn_phase h' = IdlePhase"
proof -
  let ?run = "harness_prompt (trial_harness_env trial_ops) ''hi'' None" and ?h = "empty_harness"
  have "map_option hn_host (state_after ?run ?h) = Some 10" by code_simp
  then obtain h' where h': "state_after ?run ?h = Some h'" by auto
  have "hn_phase ?h = IdlePhase" by (simp add: empty_harness_def trial_harness_def)
  with harness_calls_settle [of h' "trial_harness_env trial_ops" "''hi''" None ?h] h' show ?thesis by simp
qed

text \<open>
  The exceptions of these calls are those of the harness, whatever its session, its handlers and the model
  raise, except for one: an exception of another class is read for a message that it does not have.
\<close>

theorem harness_errors_are_its_own:
  assumes "Some e \<in> {error_after (harness_prompt E text images) h, error_after (harness_skill E name extra) h,
      error_after (harness_prompt_from_template E name args) h, error_after (harness_compact E custom) h,
      error_after (harness_navigate_tree E target opts) h}"
  shows "harness_exn e"
  using assms by (auto simp: harness_call_defs dest!: sym [of "Some e"] dest: when_idle_error split: if_splits)

theorem harness_errors_are_its_own_witness:
  "error_after (harness_skill (trial_harness_env trial_ops) ''s'' None) empty_harness =
     Some (PyAttributeError ''message'') \<and> harness_exn (PyAttributeError ''message'')"
proof -
  have "error_after (harness_skill (trial_harness_env trial_ops) ''s'' None) empty_harness =
     Some (PyAttributeError ''message'')" by code_simp
  with harness_errors_are_its_own [of "PyAttributeError ''message''" "trial_harness_env trial_ops" _ _ empty_harness
      "''s''" None] show ?thesis by simp
qed

section \<open>Writes that wait\<close>

text \<open>What a write changes: the session only.\<close>

definition same_but_session :: "('s, 'o) harness \<Rightarrow> ('s, 'o) harness \<Rightarrow> bool" where
  "same_but_session h h' \<longleftrightarrow> (\<exists>s. h' = h\<lparr>hn_session := s\<rparr>)"

lemma same_but_session_refl [simp]: "same_but_session h h"
  unfolding same_but_session_def by (rule exI [of _ "hn_session h"]) simp

lemma same_but_session_trans: "same_but_session h h' \<Longrightarrow> same_but_session h' h'' \<Longrightarrow> same_but_session h h''"
  by (auto simp: same_but_session_def)

lemma on_session_only: "on_session f h = (r, h') \<Longrightarrow> same_but_session h h'"
  by (auto simp: on_session_def same_but_session_def split: prod.splits)

lemma session_append_only: "session_append E f h = (r, h') \<Longrightarrow> same_but_session h h'"
  by (auto simp: session_append_def bind_act_def then_act_def get_act_def ret_act_def
      dest: on_session_only split: sum.splits prod.splits)

lemma perform_write_only: "perform_write E w h = (r, h') \<Longrightarrow> same_but_session h h'"
  by (cases w; auto simp: perform_write_def append_session_message_def Let_def ret_act_def
      dest: session_append_only on_session_only)

text \<open>The writes up to \<open>n\<close> were done, the next one failed.\<close>

definition flushed_up_to ::
  "('s, 'o) harness_env \<Rightarrow> session_write list \<Rightarrow> nat \<Rightarrow> ('s, 'o) harness \<Rightarrow> ('s, 'o) harness \<Rightarrow> unit res
     \<Rightarrow> ('s, 'o) harness \<Rightarrow> bool" where
  "flushed_up_to E ws n h h1 r h' \<longleftrightarrow>
     flush_writes E (take n ws) h = (Inr (), h1) \<and> hn_pending_session_writes h1 = drop n ws
     \<and> (case r of Inr u \<Rightarrow> n = length ws \<and> h' = h1
        | Inl e \<Rightarrow> n < length ws \<and> perform_write E (ws ! n) h1 = (Inl e, h'))"

lemma flush_writes_cases:
  assumes "flush_writes E ws h = (r, h')" "hn_pending_session_writes h = ws"
  shows "\<exists>n h1. flushed_up_to E ws n h h1 r h'
    \<and> same_but_session (h\<lparr>hn_pending_session_writes := drop n ws\<rparr>) h1"
  using assms
proof (induction ws arbitrary: h)
  case Nil
  have "h\<lparr>hn_pending_session_writes := []\<rparr> = h" using Nil.prems(2) by (cases h) simp
  then have "same_but_session (h\<lparr>hn_pending_session_writes := []\<rparr>) h" by (rule ssubst) simp
  with Nil show ?case by (auto simp: flushed_up_to_def ret_act_def split: sum.split)
next
  case (Cons w ws)
  obtain r1 h1 where p: "perform_write E w h = (r1, h1)" by force
  show ?case
  proof (cases r1)
    case (Inl e)
    with Cons.prems p have "flushed_up_to E (w # ws) 0 h h r h'"
      by (auto simp: flushed_up_to_def then_act_def bind_act_def ret_act_def)
    moreover have "h\<lparr>hn_pending_session_writes := w # ws\<rparr> = h" using Cons.prems(2) by (cases h) simp
    then have "same_but_session (h\<lparr>hn_pending_session_writes := w # ws\<rparr>) h" by (rule ssubst) simp
    ultimately show ?thesis by (intro exI [of _ 0] exI [of _ h]) simp
  next
    case (Inr u)
    let ?h2 = "drop_write h1"
    have f: "flush_writes E ws ?h2 = (r, h')"
      using Cons.prems(1) p Inr by (simp add: then_act_def bind_act_def modify_act_def)
    obtain s where h1: "h1 = h\<lparr>hn_session := s\<rparr>"
      using perform_write_only [OF p] by (auto simp: same_but_session_def)
    with Cons.prems(2) have "hn_pending_session_writes ?h2 = ws" by (simp add: drop_write_def)
    from Cons.IH [OF f this] obtain n h3 where n: "flushed_up_to E ws n ?h2 h3 r h'"
      and same: "same_but_session (?h2\<lparr>hn_pending_session_writes := drop n ws\<rparr>) h3" by blast
    from n p Inr have "flushed_up_to E (w # ws) (Suc n) h h3 r h'"
      by (auto simp: flushed_up_to_def then_act_def bind_act_def modify_act_def split: sum.splits)
    moreover have "same_but_session (h\<lparr>hn_pending_session_writes := drop (Suc n) (w # ws)\<rparr>) h3"
      using same by (auto simp: same_but_session_def h1 drop_write_def)
    ultimately show ?thesis by blast
  qed
qed


definition waiting_writes :: "session_write list" where
  "waiting_writes = [SessionInfoWrite ''a'', LabelWrite ''zz'' None, SessionInfoWrite ''b'']"


section \<open>The model is never asked\<close>

definition ends_aborted :: "'w loop_state \<Rightarrow> bool" where
  "ends_aborted s \<longleftrightarrow> (\<exists>m. last (lp_events s) = AgentEnd [AssistantM m] \<and> am_stop_reason m = ''aborted'')"

lemma stop_if_aborted_ends:
  assumes "stop_if_aborted E cfg s = (Inr True, t)"
  shows "ends_aborted t"
proof -
  obtain aborted where "get_act (aborted_now E) s = (Inr aborted, s)" by (simp add: get_act_def)
  from assms obtain now reason m s1 where m: "create_loop_failure_message now cfg reason True = Inr m"
    and e: "emit E (AgentEnd [AssistantM m]) s1 = (Inr (), t)"
    by (auto simp: stop_if_aborted_def act_Inr split: if_splits)
  from emit_events [OF e] failure_message_aborted [OF m] show ?thesis
    by (auto simp: ends_aborted_def)
qed

lemma begin_turn_ends:
  "begin_turn E cfg first pending s = (Inr True, t) \<Longrightarrow> ends_aborted t"
  by (auto simp: begin_turn_def act_Inr dest: stop_if_aborted_ends split: if_splits)

lemma stream_raises:
  assumes "le_stream_next E = raise_act x"
  shows "\<exists>e t. stream_assistant_response E cfg s = Some (Inl e, t)"
proof (cases "open_stream E cfg s")
  case (Pair r t)
  then show ?thesis
    by (cases r) (simp_all add: stream_assistant_response_def stream_loop.simps on_world_def assms raise_act_def)
qed

lemma first_turn_ends:
  assumes "le_stream_next E = raise_act x"
  shows "(\<exists>e t. run_turn E steering True pending cfg s = Some (Inl e, t)) \<or>
    (\<exists>t. run_turn E steering True pending cfg s = Some (Inr RunOver, t) \<and> ends_aborted t)"
proof -
  obtain r t where b: "begin_turn E cfg True pending s = (r, t)" by force
  obtain e u where "stream_assistant_response E cfg t = Some (Inl e, u)" using stream_raises [OF assms] by blast
  with b show ?thesis
    by (cases r) (auto simp: run_turn_def dest: begin_turn_ends split: bool.split)
qed

lemma turns_without_stream:
  assumes "le_stream_next E = raise_act x"
  shows "(\<exists>e t. turn_loop E steering True True pending cfg s = Some (Inl e, t)) \<or>
    (\<exists>t. turn_loop E steering True True pending cfg s = Some (Inr (), t) \<and> ends_aborted t)"
  using first_turn_ends [OF assms, of steering pending cfg s]
  by (subst (1 2) turn_loop.simps) auto

lemma loop_without_stream:
  assumes "le_stream_next E = raise_act x"
  shows "\<exists>r s. run_agent_loop E prompts ctx cfg w = Some (r, s) \<and>
     (case r of Inl e \<Rightarrow> True | Inr ms \<Rightarrow> ends_aborted s)"
proof -
  obtain r0 s0 where b: "begin_run E prompts (start_state ctx prompts w) = (r0, s0)" by force
  obtain r1 s1 where p: "poll (lc_getSteeringMessages cfg) s0 = (r1, s1)" by force
  show ?thesis
  proof (cases r0)
    case (Inl e)
    with b show ?thesis by (simp add: run_agent_loop_def)
  next
    case (Inr u)
    show ?thesis
    proof (cases r1)
      case (Inl e)
      with b p \<open>r0 = Inr u\<close> show ?thesis by (simp add: run_agent_loop_def run_loop_def bind_res_def)
    next
      case (Inr pending)
      from turns_without_stream [OF assms, of "lc_getSteeringMessages cfg" pending cfg s1] b p \<open>r0 = Inr u\<close> Inr
      show ?thesis by (auto simp: run_agent_loop_def run_loop_def bind_res_def)
    qed
  qed
qed

lemma harness_loop_returns: "\<exists>r s. run_agent_loop (harness_loop_env E k) ms ctx cfg w = Some (r, s)"
  using loop_without_stream [of "harness_loop_env E k" PyTypeError ms ctx cfg w] by (auto simp: harness_loop_env_def)

text \<open>
  A run that the harness starts always ends: it raises, or its last event reports an abort. (The stream of the
  harness raises before its first event, see \<open>harness_loop_env\<close>.)
\<close>

theorem harness_runs_raise_or_abort:
  "\<exists>r s. run_agent_loop (harness_loop_env E k) prompts ctx cfg w = Some (r, s) \<and>
     (case r of Inl e \<Rightarrow> True
      | Inr ms \<Rightarrow> \<exists>m. last (lp_events s) = AgentEnd [AssistantM m] \<and> am_stop_reason m = ''aborted'')"
  by (rule loop_without_stream [of "harness_loop_env E k" PyTypeError, unfolded ends_aborted_def])
    (simp add: harness_loop_env_def)

section \<open>A harness whose session holds an answer\<close>

lemma scan_entry_error: "scan_entry e st = Inl x \<Longrightarrow> \<exists>a. x = PyAttributeError a"
  by (cases "e_body e")
    (auto simp: scan_entry_def bind_res_def elim!: py_get.elims py_get_default.elims split: prod.splits sum.splits if_splits)

lemma scan_object:
  "e_body e = MessageE v \<Longrightarrow> \<not> is_dict v \<Longrightarrow> \<exists>a. scan_entry e st = Inl (PyAttributeError a)"
  by (cases v) (auto simp: scan_entry_def bind_res_def split: prod.splits)

lemma scan_path:
  assumes "e \<in> set path" "e_body e = MessageE v" "\<not> is_dict v"
  shows "\<exists>a. fold_res scan_entry path st = Inl (PyAttributeError a)"
  using assms(1)
proof (induction path arbitrary: st)
  case (Cons d path)
  show ?case
  proof (cases "scan_entry d st")
    case (Inl x)
    with scan_entry_error [OF Inl] show ?thesis by (auto simp: bind_res_def)
  next
    case (Inr st')
    with scan_object [OF assms(2,3), of st] have "e \<noteq> d" by auto
    with Cons Inr show ?thesis by (simp add: bind_res_def)
  qed
qed simp

lemma context_blocked:
  assumes "e \<in> set path" "e_body e = MessageE v" "\<not> is_dict v"
  shows "\<exists>a. build_session_context L path = Inl (PyAttributeError a)"
  using scan_path [OF assms, of "(''off'', None, None)"] by (auto simp: build_session_context_def bind_res_def)

lemma set_phase_back: "hn_phase h = IdlePhase \<Longrightarrow> set_phase IdlePhase (set_phase p h) = h"
  by (cases h) (simp add: set_phase_def)

lemma prompt_blocked:
  assumes "hn_phase h = IdlePhase" "get_branch (he_ops E) (hn_session h) None = Some (Inr path)"
    and "e \<in> set path" "e_body e = MessageE v" "\<not> is_dict v"
  shows "harness_prompt E text images h = Some (Inl (PyAttributeError ''message''), h)"
proof -
  obtain a where a: "build_session_context (he_lib E) path = Inl (PyAttributeError a)"
    using context_blocked [OF assms(3-5)] by blast
  have "create_turn_state E (set_phase TurnPhase h) = Some (Inl (PyAttributeError a), set_phase TurnPhase h)"
    using a assms(2) by (simp add: create_turn_state_def build_context_def set_phase_def bind_act_def of_res_def bind_res_def)
  with assms(1) show ?thesis
    by (simp add: harness_prompt_def when_idle_def bind_run_def catch_run_def finally_run_def finally_phase
        raise_act_def normalize_harness_error_def exn_message_def set_phase_back)
qed

text \<open>
  On every storage that keeps the protocol's laws, while the harness is idle and the next id is
  free: once the message of an assistant has been appended, which every failed turn does, the context of
  the session cannot be built any more, and every prompt fails and changes nothing.
\<close>

theorem answer_blocks_prompts:
  assumes "session_storage (he_ops E) ok id_free" "ok (hn_session h)" "id_free (hn_session h)"
    and "get_branch (he_ops E) (hn_session h) None = Some (Inr path)" "hn_phase h = IdlePhase"
    and "append_session_message E (AssistantM m) h = (r, h')"
  shows "r = Inr () \<and> harness_prompt E text images h' = Some (Inl (PyAttributeError ''message''), h')"
proof -
  from session_storage.session_append_message [OF assms(1-4), of "he_now E h" "message_value (AssistantM m)"]
  obtain k s e where s: "append_message (he_ops E) (he_now E h) (message_value (AssistantM m)) (hn_session h) = (Inr k, s)"
    "get_branch (he_ops E) s None = Some (Inr (path @ [e]))" "e_body e = MessageE (message_value (AssistantM m))"
    by auto
  with assms(6) have "r = Inr ()" "h' = h\<lparr>hn_session := s\<rparr>"
    by (simp_all add: append_session_message_def session_append_def bind_act_def get_act_def then_act_def on_session_def ret_act_def)
  moreover from this assms(5) s(2,3) have
    "harness_prompt E text images h' = Some (Inl (PyAttributeError ''message''), h')"
    by (intro prompt_blocked [where e = e]) (auto simp: message_value_def class_object_def)
  ultimately show ?thesis by simp
qed

theorem answer_blocks_prompts_witness:
  "\<exists>h'. append_session_message (trial_harness_env (memory_ops demo_supply ''t'')) (AssistantM (trial_message 0))
       (trial_harness empty_memory one_subscriber) = (Inr (), h') \<and>
     harness_prompt (trial_harness_env (memory_ops demo_supply ''t'')) ''hi'' None h' = Some (Inl (PyAttributeError ''message''), h')"
proof -
  let ?E = "trial_harness_env (memory_ops demo_supply ''t'')" and ?h = "trial_harness empty_memory one_subscriber"
  obtain r h' where r: "append_session_message ?E (AssistantM (trial_message 0)) ?h = (r, h')" by force
  have "he_ops ?E = memory_ops demo_supply ''t''" "hn_session ?h = empty_memory" "hn_phase ?h = IdlePhase"
    by (simp_all add: trial_harness_env_def trial_harness_def)
  with answer_blocks_prompts [OF _ _ _ _ _ r, of memory_inv "memory_id_free demo_supply" "[]"] r
    memory.session_storage_axioms [of demo_supply "''t''"] show ?thesis
    by (simp add: empty_memory_ok)
qed

end
