(* ===== verification/HarnessQueues.thy ===== *)
theory HarnessQueues
  imports HarnessFacts
begin

text \<open>
  That the turns of the harness end, and what becomes of its queues: when they are drained, when the
  listeners fail meanwhile, and when a turn is aborted.
\<close>

section \<open>Every turn ends\<close>

lemma run_turn_loop_returns: "\<exists>r t. run_turn_loop E k ms sp h = Some (r, t)"
proof -
  obtain c t where "create_harness_config E k h = (c, t)" by force
  with harness_loop_returns [of E k ms "create_context E (current_turn_state k h) sp" "projr c" t] show ?thesis
    by (cases c) (auto simp: run_turn_loop_def bind_run_def run_act_def get_act_def)
qed

lemma execute_turn_returns: "\<exists>r t. execute_turn E ts text images h = Some (r, t)"
proof -
  have body: "\<exists>r t. finally_run
      (bind_run (catch_run (run_turn_loop E k ms sp) (report_failure E k)) (\<lambda>new. run_act (of_res (last_assistant new))))
      (close_turn_run E) h = Some (r, t)" for k ms sp h
    using run_turn_loop_returns [of E k ms sp h]
    by (auto simp: finally_run_def bind_run_def catch_run_def run_act_def split: sum.split prod.split)
  obtain r1 h1 where q: "take_next_turn_queue E (create_user_message (le_now_ms (he_loop E) h) text images) h = (r1, h1)"
    by force
  obtain r2 h2 where b: "before_agent_start E ts text images h1 = (r2, h2)" by force
  show ?thesis
    using q b by (cases r1; cases r2)
      (simp_all add: execute_turn_def bind_run_def run_act_def get_act_def Let_def open_turn_def body)
qed

text \<open>
  C20. A prompt always ends, with a message or an exception, unless the walk over the branch of the session
  does not end.
\<close>

theorem prompt_returns:
  assumes "get_branch (he_ops E) (hn_session h) None \<noteq> None"
  shows "\<exists>r h'. harness_prompt E text images h = Some (r, h')"
proof -
  let ?h = "set_phase TurnPhase h"
  obtain r t where "create_turn_state E ?h = Some (r, t)"
    using assms by (cases "create_turn_state E ?h") (auto simp: create_turn_state_def build_context_def set_phase_def)
  with execute_turn_returns [of E "projr r" "text" images t] show ?thesis
    by (cases r) (auto simp: harness_prompt_def when_idle_def bind_run_def catch_run_def finally_run_def finally_phase
        raise_act_def split: sum.split prod.split)
qed

theorem prompt_returns_witness:
  "\<exists>r h'. harness_prompt (trial_harness_env trial_ops) ''hi'' None empty_harness = Some (r, h')"
  by (rule prompt_returns) (simp add: trial_harness_env_def trial_ops_def get_branch_def)

section \<open>Queues\<close>

definition same_queues :: "('s, 'o) harness \<Rightarrow> ('s, 'o) harness \<Rightarrow> bool" where
  "same_queues h h' \<longleftrightarrow>
     hn_steer_queue h' = hn_steer_queue h \<and> hn_follow_up_queue h' = hn_follow_up_queue h \<and> hn_cells h' = hn_cells h"

lemma same_queues_refl: "reflp same_queues" and same_queues_trans: "transp same_queues"
  by (simp_all add: reflp_def transp_def same_queues_def)

lemma keeps_check_size: "reflp K \<Longrightarrow> transp K \<Longrightarrow> keeps K (check_size ty n)"
  unfolding check_size_def by (auto intro!: keeps_rules)

lemma keeps_normalized: "reflp K \<Longrightarrow> transp K \<Longrightarrow> keeps K m \<Longrightarrow> keeps K (normalized code m)"
  unfolding normalized_def by (auto intro!: keeps_rules)

lemma keeps_visit:
  assumes K: "reflp K" "transp K" and call: "\<And>acc l. keeps K (call acc l)"
  shows "keeps K (visit_handlers E ty call acc)"
proof -
  have each: "keeps K (each_handler ty n call ls acc)" for n ls acc
    by (induction ls arbitrary: acc)
      (auto intro!: keeps_ret [OF K(1)] keeps_bind [OF K(2)] keeps_then [OF K(2)] keeps_normalized [OF K] call keeps_check_size [OF K])
  show ?thesis
    unfolding visit_handlers_def by (auto intro!: keeps_bind [OF K(2)] keeps_get [OF K(1)] each)
qed

lemma keeps_emit:
  assumes "reflp K" "transp K" "\<And>l ev. keeps K (he_listener E l ev)"
  shows "keeps K (emit_own E ev)" "keeps K (emit_any E aev)" "keeps K (emit_queue_update E)"
  unfolding emit_own_def emit_any_def emit_queue_update_def
  by (auto intro!: keeps_visit assms keeps_bind [OF assms(2)] keeps_get [OF assms(1)])

text \<open>
  C28. The listeners leave the queues alone: then a queue that is drained delivers its messages from the first
  on, one or all of them, and the rest stays; when the listeners are not told, every message is back in
  its place.
\<close>

theorem drain_delivers_or_restores:
  assumes host: "\<forall>l ev. keeps same_queues (he_listener E l ev)"
    and "drain_queued_messages E name h = (r, h')"
  shows "case r of
      Inr ms \<Rightarrow> ms = take (if mode_of name h = ''all'' then length (mq_items (queue_of name h)) else 1) (mq_items (queue_of name h))
        \<and> ms @ mq_items (queue_of name h') = mq_items (queue_of name h)
    | Inl e \<Rightarrow> queue_of name h' = queue_of name h \<and> harness_exn e"
proof -
  let ?q = "queue_of name h"
  define ms where "ms = (if mode_of name h = ''all'' then mq_items ?q else take 1 (mq_items ?q))"
  define h1 where "h1 = set_queue name (?q\<lparr>mq_items := drop (length ms) (mq_items ?q)\<rparr>) h"
  have ms: "ms @ drop (length ms) (mq_items ?q) = mq_items ?q"
    unfolding ms_def by (cases "mq_items ?q") auto
  have q1: "queue_of name h1 = ?q\<lparr>mq_items := drop (length ms) (mq_items ?q)\<rparr>"
    unfolding h1_def by (cases name) simp_all
  obtain r1 h2 where e: "emit_queue_update E h1 = (r1, h2)" by force
  have "keeps same_queues (emit_queue_update E)"
    using host by (intro keeps_emit same_queues_refl same_queues_trans) simp
  then have "same_queues h1 h2" by (rule keepsD) (rule e)
  then have q2: "queue_of name h2 = queue_of name h1" by (cases name) (simp_all add: same_queues_def)
  have run: "(r, h') = (if ms = [] then (Inr ms, h1)
      else case r1 of Inr u \<Rightarrow> (Inr ms, h2)
      | Inl x \<Rightarrow> (Inl (normalize_hook_error x), put_back name (mq_ref ?q) (mode_of name h) ms h2))"
    using assms(2) e
    by (auto simp: drain_queued_messages_def Let_def ms_def [symmetric] h1_def [symmetric] bind_act_def get_act_def
        then_act_def modify_act_def catch_act_def ret_act_def raise_act_def split: sum.splits)
  have restored: "queue_of name (put_back name (mq_ref ?q) (mode_of name h) ms h2) = ?q"
    using q1 q2 ms unfolding put_back_def
    by (cases name; cases "mode_of name h = ''all''") (simp_all add: Let_def ms_def)
  show ?thesis
  proof (cases "ms = [] \<or> r1 = Inr ()")
    case True
    with run have "r = Inr ms" "queue_of name h' = queue_of name h1" using q2 by (auto split: if_splits)
    with q1 ms show ?thesis by (simp add: ms_def)
  next
    case False
    with run restored show ?thesis by (cases r1) (auto simp: normalize_hook_error_def)
  qed
qed

definition steered_harness :: "(session_tree_entry list, nat) harness" where
  "steered_harness = empty_harness
     \<lparr>hn_steer_queue := \<lparr>mq_ref = 0, mq_items = [OtherM (VStr ''a''), OtherM (VStr ''b'')]\<rparr>, hn_controller := Some 0,
      hn_cells := [\<lparr>ce_turn_state = \<lparr>ts_messages = [], ts_resources = \<lparr>re_promptTemplates = [], re_skills = []\<rparr>,
        ts_streamOptions = clone_stream_options None, ts_sessionId = [], ts_systemPrompt = [], ts_model = None,
        ts_thinkingLevel = ''off'', ts_tools = [], ts_activeTools = []\<rparr>, ce_aborted = False\<rparr>]\<rparr>"

lemma trial_listener_same: "\<forall>l ev. keeps same_queues (he_listener (trial_harness_env trial_ops) l ev)"
  by (simp add: trial_harness_env_def keeps_def same_queues_def)

theorem drain_delivers_or_restores_witness:
  "\<exists>h'. drain_queued_messages (trial_harness_env trial_ops) SteerQueue steered_harness = (Inr [OtherM (VStr ''a'')], h') \<and>
     mq_items (hn_steer_queue h') = [OtherM (VStr ''b'')]"
proof -
  let ?d = "drain_queued_messages (trial_harness_env trial_ops) SteerQueue steered_harness"
  have "fst ?d = Inr [OtherM (VStr ''a'')]" by code_simp
  then obtain h' where h': "?d = (Inr [OtherM (VStr ''a'')], h')" by (cases ?d) auto
  have "mq_items (queue_of SteerQueue steered_harness) = [OtherM (VStr ''a''), OtherM (VStr ''b'')]"
    by (simp add: steered_harness_def)
  with drain_delivers_or_restores [OF trial_listener_same h'] h' show ?thesis by simp
qed

section \<open>Abort\<close>



end
