(* ===== verification/HarnessSession.thy ===== *)
theory HarnessSession
  imports HarnessQueues
begin

text \<open>
  The harness between the agent loop and the session: what a run announces is stored. The locale
  \<open>message_log\<close> says what the harness relies on in a storage, of which it is one of the classes
  that implement the protocol \<^verbatim>\<open>SessionStorage\<close>; the relation that a run keeps is an
  interpretation of the loop's own locale \<open>loop_relation\<close>.
\<close>

section \<open>What the harness relies on\<close>

definition logged :: "entry_body \<Rightarrow> pyval list" where
  "logged b = (case b of MessageE v \<Rightarrow> [v] | _ \<Rightarrow> [])"

locale message_log =
  fixes ops :: "'s session_ops" and ok :: "'s \<Rightarrow> bool" and msgs :: "'s \<Rightarrow> pyval list"
  assumes create: "ok s \<Longrightarrow> \<exists>k s'. so_createEntryId ops s = (Inr k, s') \<and> ok s' \<and> msgs s' = msgs s \<and> k \<noteq> []"
    and parent: "ok s \<Longrightarrow> \<exists>p. session_append_parent ops s = Inr p"
    and append_logs: "ok s \<Longrightarrow> \<not> is_leaf e \<Longrightarrow> e_id e \<noteq> [] \<Longrightarrow>
       \<exists>s'. so_appendEntry ops e s = (Inr (), s') \<and> ok s' \<and> msgs s' = msgs s @ logged (e_body e)"
    and set_leaf: "ok s \<Longrightarrow> so_setLeafId ops tgt s = (r, s') \<Longrightarrow> ok s' \<and> msgs s' = msgs s"
    and branch: "ok s \<Longrightarrow> get_branch ops s None \<noteq> None"

definition extends_log ::
  "('s \<Rightarrow> bool) \<Rightarrow> ('s \<Rightarrow> pyval list) \<Rightarrow> ('s, 'o) harness \<Rightarrow> ('s, 'o) harness \<Rightarrow> bool" where
  "extends_log ok msgs h h' \<longleftrightarrow> (ok (hn_session h) \<longrightarrow>
     ok (hn_session h') \<and> (\<exists>l. msgs (hn_session h') = msgs (hn_session h) @ l))"

definition stores ::
  "('s \<Rightarrow> bool) \<Rightarrow> ('s \<Rightarrow> pyval list) \<Rightarrow> ('s, 'o) harness loop_state \<Rightarrow> ('s, 'o) harness loop_state \<Rightarrow> bool" where
  "stores ok msgs s t \<longleftrightarrow> (ok (hn_session (lp_world s)) \<longrightarrow>
     ok (hn_session (lp_world t)) \<and>
     (\<exists>evs l. lp_events t = lp_events s @ evs \<and>
        msgs (hn_session (lp_world t)) = msgs (hn_session (lp_world s)) @ l \<and>
        subseq (map message_value (ended evs)) l))"

lemma extends_log_refl: "reflp (extends_log ok msgs)" and extends_log_trans: "transp (extends_log ok msgs)"
  by (auto simp: reflp_def transp_def extends_log_def)

lemma stores_refl: "reflp (stores ok msgs)"
  by (simp add: reflp_def stores_def)

lemma stores_trans: "transp (stores ok msgs)"
proof (rule transpI)
  fix s t u assume st: "stores ok msgs s t" and tu: "stores ok msgs t u"
  show "stores ok msgs s u"
    unfolding stores_def
  proof (intro impI)
    assume s: "ok (hn_session (lp_world s))"
    with st obtain e1 l1 where 1: "ok (hn_session (lp_world t))" "lp_events t = lp_events s @ e1"
      "msgs (hn_session (lp_world t)) = msgs (hn_session (lp_world s)) @ l1" "subseq (map message_value (ended e1)) l1"
      unfolding stores_def by blast
    with tu obtain e2 l2 where 2: "ok (hn_session (lp_world u))" "lp_events u = lp_events t @ e2"
      "msgs (hn_session (lp_world u)) = msgs (hn_session (lp_world t)) @ l2" "subseq (map message_value (ended e2)) l2"
      unfolding stores_def by blast
    from 1 2 show "ok (hn_session (lp_world u)) \<and> (\<exists>evs l. lp_events u = lp_events s @ evs \<and>
        msgs (hn_session (lp_world u)) = msgs (hn_session (lp_world s)) @ l \<and> subseq (map message_value (ended evs)) l)"
      by (intro conjI exI [of _ "e1 @ e2"] exI [of _ "l1 @ l2"]) (auto intro: list_emb_append_mono)
  qed
qed

lemma stores_on_world: "keeps (extends_log ok msgs) f \<Longrightarrow> keeps (stores ok msgs) (on_world f)"
  by (rule keepsI) (auto simp: on_world_def stores_def extends_log_def dest!: keepsD split: prod.splits)

text \<open>The host may use the session, but only to extend it.\<close>

definition host_extends :: "('s \<Rightarrow> bool) \<Rightarrow> ('s \<Rightarrow> pyval list) \<Rightarrow> ('s, 'o) harness_env \<Rightarrow> bool" where
  "host_extends ok msgs E \<longleftrightarrow>
     (\<forall>l ev. keeps (extends_log ok msgs) (he_listener E l ev)) \<and>
     (\<forall>l ms. keeps (extends_log ok msgs) (he_on_context E l ms)) \<and>
     (\<forall>f m t a r. he_system_prompt E = MadePrompt f \<longrightarrow> keeps (extends_log ok msgs) (f m t a r))"

context message_log begin

lemma append_typed:
  assumes "ok s" "\<not> is_leaf \<lparr>e_id = [], e_parentId = None, e_timestamp = now, e_appendMode = None, e_body = body\<rparr>"
  shows "\<exists>k s'. append_typed_entry ops now body s = (Inr k, s') \<and> ok s' \<and> msgs s' = msgs s @ logged body"
proof -
  obtain k s1 where k: "so_createEntryId ops s = (Inr k, s1)" and s1: "ok s1" "msgs s1 = msgs s" "k \<noteq> []"
    using create assms(1) by blast
  obtain p where p: "session_append_parent ops s1 = Inr p" using parent s1(1) by blast
  let ?e = "\<lparr>e_id = k, e_parentId = p, e_timestamp = now, e_appendMode = None, e_body = body\<rparr>"
  have "\<not> is_leaf ?e" using assms(2) by (auto simp: is_leaf_iff)
  with append_logs [OF s1(1), of ?e] s1 obtain s2 where
    "so_appendEntry ops ?e s1 = (Inr (), s2)" "ok s2" "msgs s2 = msgs s @ logged body" by auto
  with k p show ?thesis
    by (simp add: append_typed_entry_def bind_act_def then_act_def ret_act_def)
qed

lemma append_typed_extends:
  assumes "ok s" "append_typed_entry ops now body s = (r, s')"
    and "\<not> is_leaf \<lparr>e_id = [], e_parentId = None, e_timestamp = now, e_appendMode = None, e_body = body\<rparr>"
  shows "ok s' \<and> (\<exists>l. msgs s' = msgs s @ l)"
  using append_typed [OF assms(1,3)] assms(2) by auto

lemma session_append_extends:
  assumes "\<And>now s r s'. ok s \<Longrightarrow> f now s = (r, s') \<Longrightarrow> ok s' \<and> (\<exists>l. msgs s' = msgs s @ l)"
  shows "keeps (extends_log ok msgs) (session_append E f)"
proof -
  have "keeps (extends_log ok msgs) (on_session (f now))" for now
  proof (rule keepsI)
    fix h r h'
    assume "on_session (f now) h = (r, h')"
    then obtain s' where "f now (hn_session h) = (r, s')" "h' = h\<lparr>hn_session := s'\<rparr>"
      by (auto simp: on_session_def split: prod.splits)
    then show "extends_log ok msgs h h'" using assms by (auto simp: extends_log_def)
  qed
  then show ?thesis
    unfolding session_append_def
    by (auto intro!: keeps_bind extends_log_trans keeps_then keeps_get keeps_ret extends_log_refl)
qed

lemma typed_extends:
  assumes "he_ops E = ops"
    and "\<And>now. \<not> is_leaf \<lparr>e_id = [], e_parentId = None, e_timestamp = now, e_appendMode = None, e_body = body\<rparr>"
  shows "keeps (extends_log ok msgs) (session_append E (\<lambda>now. append_typed_entry (he_ops E) now body))"
  using append_typed_extends assms by (intro session_append_extends) blast

lemma perform_write_extends:
  assumes "he_ops E = ops"
  shows "keeps (extends_log ok msgs) (perform_write E w)"
proof (cases w)
  case (LabelWrite tgt lb)
  have "keeps (extends_log ok msgs) (session_append E (\<lambda>now. append_label (he_ops E) now tgt lb))"
    using append_typed_extends [of _ _ "LabelE tgt lb"] assms
    by (intro session_append_extends)
       (auto simp: append_label_def is_leaf_iff bind_act_def raise_act_def split: if_splits sum.splits)
  with LabelWrite show ?thesis by (simp add: perform_write_def)
next
  case (LeafWrite tgt)
  have "keeps (extends_log ok msgs) (on_session (so_setLeafId ops tgt))"
  proof (rule keepsI)
    fix h :: "('s, 'c) harness" and r h'
    assume "on_session (so_setLeafId ops tgt) h = (r, h')"
    then obtain s' where "so_setLeafId ops tgt (hn_session h) = (r, s')" "h' = h\<lparr>hn_session := s'\<rparr>"
      by (auto simp: on_session_def split: prod.splits)
    then show "extends_log ok msgs h h'" using set_leaf by (auto simp: extends_log_def)
  qed
  with LeafWrite assms show ?thesis by (simp add: perform_write_def)
next
  case OtherWrite
  then show ?thesis by (simp add: perform_write_def keeps_ret extends_log_refl)
qed (auto simp: perform_write_def append_session_message_def append_message_def append_model_change_def
    append_thinking_level_change_def append_custom_entry_def append_custom_message_entry_def
    append_session_name_def is_leaf_iff intro!: typed_extends [OF assms])

lemma drop_write_extends: "keeps (extends_log ok msgs) (modify_act drop_write)"
  by (rule keepsI) (auto simp: modify_act_def drop_write_def extends_log_def)

lemma flush_extends:
  assumes "he_ops E = ops"
  shows "keeps (extends_log ok msgs) (flush_pending_session_writes E)"
proof -
  have "keeps (extends_log ok msgs) (flush_writes E ws)" for ws
    by (induction ws) (auto intro!: keeps_ret keeps_then extends_log_refl extends_log_trans perform_write_extends assms drop_write_extends)
  then show ?thesis
    unfolding flush_pending_session_writes_def
    by (auto intro!: keeps_bind keeps_get extends_log_refl extends_log_trans)
qed

lemma append_session_message_logs:
  assumes "he_ops E = ops" "ok (hn_session h)" "append_session_message E m h = (r, h')"
  shows "ok (hn_session h') \<and> msgs (hn_session h') = msgs (hn_session h) @ [message_value m]"
proof -
  obtain k s where "append_message ops (he_now E h) (message_value m) (hn_session h) = (Inr k, s)" "ok s"
    "msgs s = msgs (hn_session h) @ [message_value m]"
    using append_typed [OF assms(2), of "he_now E h" "MessageE (message_value m)"]
    unfolding append_message_def by (auto simp: is_leaf_iff logged_def)
  with assms(1,3) show ?thesis
    by (auto simp: append_session_message_def session_append_def bind_act_def get_act_def then_act_def on_session_def ret_act_def)
qed

lemma emits_extend:
  assumes "host_extends ok msgs E"
  shows "keeps (extends_log ok msgs) (emit_own E ev)" "keeps (extends_log ok msgs) (emit_any E aev)"
    "keeps (extends_log ok msgs) (emit_queue_update E)"
  using assms by (auto intro!: keeps_emit extends_log_refl extends_log_trans simp: host_extends_def)

lemma caught_extends:
  "keeps (extends_log ok msgs) m \<Longrightarrow> keeps (extends_log ok msgs) (caught m)"
  by (rule keepsI) (auto simp: caught_def dest: keepsD split: prod.splits sum.splits)

lemmas extends_rules =
  keeps_ret [OF extends_log_refl] keeps_raise [OF extends_log_refl] keeps_of_res [OF extends_log_refl]
  keeps_get [OF extends_log_refl] keeps_bind [OF extends_log_trans] keeps_then [OF extends_log_trans]
  keeps_catch [OF extends_log_trans] emits_extend flush_extends caught_extends

lemma modify_extends:
  "(\<And>h. hn_session (f h) = hn_session h) \<Longrightarrow> keeps (extends_log ok msgs) (modify_act f)"
  by (simp add: keeps_def modify_act_def extends_log_def)

lemma read_extends: "keeps (extends_log ok msgs) (read_session f)"
  by (simp add: keeps_def read_session_def extends_log_def)

text \<open>An event of the loop: a complete message is stored, the others may only extend the session.\<close>

lemma other_events_extend:
  assumes "he_ops E = ops" "host_extends ok msgs E" "\<And>m. ev \<noteq> MessageEnd m"
  shows "keeps (extends_log ok msgs) (handle_agent_event E ev)"
proof (cases ev)
  case (TurnEnd m rs)
  then show ?thesis
    unfolding handle_agent_event_def using assms by (auto intro!: extends_rules split: list.split)
next
  case (AgentEnd ms)
  then show ?thesis
    unfolding handle_agent_event_def using assms by (auto intro!: extends_rules modify_extends)
qed (use assms in \<open>auto simp: handle_agent_event_def intro!: extends_rules\<close>)

lemma handle_agent_event_stores:
  assumes "he_ops E = ops" "host_extends ok msgs E" "ok (hn_session h)" "handle_agent_event E ev h = (r, h')"
  shows "ok (hn_session h') \<and> (\<exists>l. msgs (hn_session h') = msgs (hn_session h) @ l \<and>
    subseq (map message_value (ended [ev])) l)"
proof (cases "\<exists>m. ev = MessageEnd m")
  case True
  then obtain m where m: "ev = MessageEnd m" by blast
  obtain r1 h1 where a: "append_session_message E m h = (r1, h1)" by force
  from append_session_message_logs [OF assms(1,3) a]
  have 1: "ok (hn_session h1)" "msgs (hn_session h1) = msgs (hn_session h) @ [message_value m]" by blast+
  have "extends_log ok msgs h1 h'"
  proof (cases r1)
    case (Inl e)
    with a m assms(4) have "h' = h1" by (simp add: handle_agent_event_def then_act_def bind_act_def)
    then show ?thesis by (simp add: reflpD [OF extends_log_refl])
  next
    case (Inr u)
    with a m assms(4) have "emit_any E ev h1 = (r, h')" by (simp add: handle_agent_event_def then_act_def bind_act_def)
    then show ?thesis by (rule keepsD [rotated]) (rule emits_extend [OF assms(2)])
  qed
  with 1 m show ?thesis by (auto simp: extends_log_def)
next
  case False
  then have "ended [ev] = []" by (cases ev) auto
  moreover have "extends_log ok msgs h h'"
    using keepsD [OF other_events_extend [OF assms(1,2)] assms(4)] False by blast
  ultimately show ?thesis using assms(3) by (auto simp: extends_log_def)
qed

lemma stores_emit:
  assumes "he_ops E = ops" "host_extends ok msgs E"
  shows "keeps (stores ok msgs) (emit (harness_loop_env E k) ev)"
proof (rule keepsI)
  fix s r t
  assume "emit (harness_loop_env E k) ev s = (r, t)"
  then obtain h' where h': "handle_agent_event E ev (lp_world s) = (r, h')"
    "t = s\<lparr>lp_world := h', lp_events := lp_events s @ [ev]\<rparr>"
    by (auto simp: emit_def harness_loop_env_def split: prod.splits)
  from handle_agent_event_stores [OF assms _ h'(1)] h'(2) show "stores ok msgs s t"
    by (auto simp: stores_def)
qed

text \<open>The laws of the loop's interface hold for a run of the harness.\<close>

lemma harness_relation:
  assumes "he_ops E = ops" "host_extends ok msgs E"
  shows "loop_relation (stores ok msgs) (harness_loop_env E k)"
proof
  have raise: "keeps (stores ok msgs) (on_world (raise_act e))" for e
    by (rule stores_on_world) (rule extends_rules)
  have ret: "keeps (stores ok msgs) (on_world (harness_stream_fn m c cfg key))" for m c cfg key
    unfolding harness_stream_fn_def by (rule stores_on_world) (rule extends_rules)
  show "stream_keeps (stores ok msgs) (harness_loop_env E k)"
    by (auto simp: stream_keeps_def harness_loop_env_def resolve_agent_core_stream_fn_def raise ret)
qed (use assms in \<open>auto intro: stores_refl stores_trans stores_emit simp: stores_def\<close>)

lemma drain_extends:
  assumes "host_extends ok msgs E"
  shows "keeps (extends_log ok msgs) (drain_queued_messages E name)"
proof -
  have q: "hn_session (set_queue name q h) = hn_session h" for q :: message_queue and h :: "('s, 'o) harness"
    by (cases name) simp_all
  have p: "hn_session (put_back name n mode ms h) = hn_session h" for n mode ms and h :: "('s, 'o) harness"
    by (simp add: put_back_def Let_def q)
  show ?thesis
    unfolding drain_queued_messages_def
    by (auto intro!: extends_rules modify_extends simp: q p Let_def assms split: prod.split)
qed

lemma turn_state_extends:
  assumes "he_ops E = ops" "host_extends ok msgs E"
  shows "keeps (extends_log ok msgs) (\<lambda>h. the (create_turn_state E h))"
proof (rule keepsI)
  fix h r h'
  assume c: "the (create_turn_state E h) = (r, h')"
  have sp: "keeps (extends_log ok msgs) (resolve_system_prompt E)"
    using assms(2) unfolding resolve_system_prompt_def
    by (cases "he_system_prompt E") (auto intro!: extends_rules simp: host_extends_def)
  have fin: "keeps (extends_log ok msgs) (bind_act (of_res x) (finish_turn_state E))" for x
    unfolding finish_turn_state_def by (auto intro!: extends_rules sp read_extends)
  show "extends_log ok msgs h h'"
  proof (cases "ok (hn_session h)")
    case True
    then have "get_branch ops (hn_session h) None \<noteq> None" by (rule branch)
    then obtain x where "build_context (he_lib E) (he_ops E) (hn_session h) = Some x"
      unfolding build_context_def assms(1) by auto
    with c have "bind_act (of_res x) (finish_turn_state E) h = (r, h')" by (simp add: create_turn_state_def)
    then show ?thesis by (rule keepsD [OF fin])
  qed (simp add: extends_log_def)
qed

lemma config_hooks:
  assumes "he_ops E = ops" "host_extends ok msgs E" "create_harness_config E k h = (Inr cfg, h1)"
  shows "hooks_keep (stores ok msgs) cfg"
proof -
  have next_turn: "keeps (extends_log ok msgs) (harness_next_turn_state E k tx)" for tx
    unfolding harness_next_turn_state_def using assms(1,2)
    by (auto intro!: extends_rules modify_extends turn_state_extends simp: set_turn_state_def)
  have transform: "keeps (extends_log ok msgs) (transform_context E ms)" for ms
    unfolding transform_context_def emit_hook_def using assms(2)
    by (auto intro!: extends_rules keeps_visit extends_log_refl extends_log_trans simp: host_extends_def)
  from assms(3) show ?thesis
    by (auto simp: create_harness_config_def act_Inr hooks_keep_def
        intro!: stores_on_world next_turn transform drain_extends [OF assms(2)] extends_rules)
qed

lemma run_stores:
  assumes "he_ops E = ops" "host_extends ok msgs E" "ok (hn_session h)"
    and "create_harness_config E k h0 = (Inr cfg, h1)"
    and "run_agent_loop (harness_loop_env E k) ms ctx cfg h = Some (r, s)"
  shows "ok (hn_session (lp_world s)) \<and> (\<exists>l. msgs (hn_session (lp_world s)) = msgs (hn_session h) @ l \<and>
    subseq (map message_value (ended (lp_events s))) l)"
  using loop_relation.K_run_agent_loop [OF harness_relation [OF assms(1,2)] assms(5) config_hooks [OF assms(1,2,4)]] assms(3)
  by (simp add: stores_def start_state_def)

end

section \<open>An instance\<close>

definition memory_log :: "storage \<times> id_gen \<Rightarrow> pyval list" where
  "memory_log s = concat (map (\<lambda>e. logged (e_body e)) (st_entries (fst s)))"

lemma memory_recorded:
  assumes "memory_inv s" "record_entry (fst s) e = Inr t" "e_id e \<noteq> []" "reachable_storage t"
  shows "memory_inv (t, g) \<and> memory_log (t, g) = memory_log s @ logged (e_body e)"
  using assms record_entry_fields [OF assms(2)] by (auto simp: memory_inv_def memory_log_def)

interpretation harness_memory: message_log "memory_ops rnd now" memory_inv memory_log
proof
  fix s :: "storage \<times> id_gen"
  assume "memory_inv s"
  then obtain k s' where k: "so_createEntryId (memory_ops rnd now) s = (Inr k, s')" "memory_inv s'" "k \<noteq> []"
    using memory.create_id [of s rnd now] by auto
  moreover from this have "fst s' = fst s" by (auto simp: memory_ops_def split: prod.splits)
  ultimately show "\<exists>k s'. so_createEntryId (memory_ops rnd now) s = (Inr k, s') \<and> memory_inv s' \<and>
      memory_log s' = memory_log s \<and> k \<noteq> []"
    by (auto simp: memory_log_def)
next
  show "\<exists>p. session_append_parent (memory_ops rnd now) s = Inr p" if "memory_inv s" for s
    using that by (rule memory.append_parent)
next
  fix s :: "storage \<times> id_gen" and e assume s: "memory_inv s" "\<not> is_leaf e" "e_id e \<noteq> []"
  then obtain t where t: "record_entry (fst s) e = Inr t" using record_entry_never_fails by blast
  have "reachable_storage t"
    using s(1) t by (auto simp: memory_inv_def mem_append_entry_def intro: reachable_storage.recorded)
  with memory_recorded [OF s(1) t s(3)] t
  show "\<exists>s'. so_appendEntry (memory_ops rnd now) e s = (Inr (), s') \<and> memory_inv s' \<and>
      memory_log s' = memory_log s @ logged (e_body e)"
    by (auto simp: memory_ops_def mem_append_entry_def)
next
  fix s tgt r s' assume s: "memory_inv s" "so_setLeafId (memory_ops rnd now) tgt s = (r, s')"
  show "memory_inv s' \<and> memory_log s' = memory_log s"
  proof (cases "mem_set_leaf_id rnd now s tgt")
    case (Inl x)
    with s show ?thesis by (simp add: memory_ops_def)
  next
    case (Inr t)
    with s(2) have t: "mem_set_leaf_id rnd now (fst s, snd s) tgt = Inr (fst s', snd s')" by (simp add: memory_ops_def)
    then obtain e where e: "record_entry (fst s) e = Inr (fst s')" "e_body e = LeafE tgt None"
      "e_id e = fst (create_entry_id rnd (fst s) (snd s))" by (rule mem_set_leaf_idD)
    have "e_id e \<noteq> []" using e(3) memory_create_id_nonempty by simp
    moreover have "reachable_storage (fst s')"
      using reachable_storage.leaf_moved [OF _ t] s(1) by (simp add: memory_inv_def)
    ultimately show ?thesis
      using memory_recorded [OF s(1) e(1), of "snd s'"] e(2) by (simp add: logged_def)
  qed
next
  fix s assume "memory_inv s"
  then show "get_branch (memory_ops rnd now) s None \<noteq> None"
    using get_path_returns [OF reachable_index_ok] by (simp add: memory_branch memory_inv_def)
qed

text \<open>
  C5. What a run of the harness announces is stored, on every storage that keeps the laws of
  \<open>message_log\<close> (ids are made, an append is accepted and adds its message to the storage's list
  of messages) and with a host, that is listeners, context handlers and a system prompt, which may use
  the session but only extends that list: every complete message of the events of a run is a message of the
  session, in the order of the events, whatever the run ends with.
\<close>

theorem run_messages_stored:
  assumes "message_log ops ok msgs" "he_ops E = ops" "host_extends ok msgs E" "ok (hn_session h)"
    and "create_harness_config E k h0 = (Inr cfg, h1)"
    and "run_agent_loop (harness_loop_env E k) ms ctx cfg h = Some (r, s)"
  shows "ok (hn_session (lp_world s)) \<and>
    (\<exists>l. msgs (hn_session (lp_world s)) = msgs (hn_session h) @ l \<and>
       subseq (map message_value (ended (lp_events s))) l)"
  using assms by (rule message_log.run_stores)

definition stored_harness :: "(storage \<times> id_gen, nat) harness" where
  "stored_harness = (trial_harness empty_memory one_subscriber)
     \<lparr>hn_cells := [\<lparr>ce_turn_state = \<lparr>ts_messages = [], ts_resources = \<lparr>re_promptTemplates = [], re_skills = []\<rparr>,
        ts_streamOptions = clone_stream_options None, ts_sessionId = [], ts_systemPrompt = [], ts_model = Some trial_model,
        ts_thinkingLevel = ''low'', ts_tools = [], ts_activeTools = []\<rparr>, ce_aborted = False\<rparr>]\<rparr>"

theorem run_messages_stored_witness:
  "\<exists>cfg r s. create_harness_config (trial_harness_env (memory_ops demo_supply ''t'')) 0 stored_harness = (Inr cfg, stored_harness) \<and>
     run_agent_loop (harness_loop_env (trial_harness_env (memory_ops demo_supply ''t'')) 0)
       [create_user_message 0 ''hi'' None] \<lparr>cx_systemPrompt = [], cx_messages = [], cx_tools = None\<rparr> cfg stored_harness = Some (r, s) \<and>
     subseq (map message_value (ended (lp_events s))) (memory_log (hn_session (lp_world s)))"
proof -
  let ?E = "trial_harness_env (memory_ops demo_supply ''t'')"
  let ?run = "\<lambda>cfg. run_agent_loop (harness_loop_env ?E 0) [create_user_message 0 ''hi'' None]
    \<lparr>cx_systemPrompt = [], cx_messages = [], cx_tools = None\<rparr> cfg stored_harness"
  obtain cfg where cfg: "create_harness_config ?E 0 stored_harness = (Inr cfg, stored_harness)"
    by (simp add: create_harness_config_def stored_harness_def current_turn_state_def bind_act_def get_act_def of_res_def
        resolve_agent_reasoning_option_def ret_act_def)
  have "\<exists>r s. ?run cfg = Some (r, s)"
    by (rule harness_loop_returns)
  then obtain r s where r: "?run cfg = Some (r, s)" by blast
  have he: "he_ops ?E = memory_ops demo_supply ''t''" "host_extends memory_inv memory_log ?E"
    "memory_inv (hn_session stored_harness)"
    using empty_memory_ok
    by (auto simp: trial_harness_env_def host_extends_def stored_harness_def trial_harness_def keeps_def extends_log_def ret_act_def)
  from run_messages_stored [OF harness_memory.message_log_axioms he cfg r] have
    "subseq (map message_value (ended (lp_events s))) (memory_log (hn_session (lp_world s)))"
    by (auto simp: subseq_drop_many)
  with cfg r show ?thesis by blast
qed

end
