(* ===== verification/HarnessMoves.thy ===== *)
theory HarnessMoves
  imports HarnessSession
begin

text \<open>
  What \<open>compact\<close> and \<open>navigate_tree\<close> do to a session, when no handler interferes. The session is on any
  storage that keeps the laws of \<open>session_storage\<close>.
\<close>

section \<open>Without handlers\<close>

lemma visit_nobody:
  "hn_handlers h ty = [] \<Longrightarrow> he_set_order E [] = [] \<Longrightarrow> visit_handlers E ty call acc h = (Inr acc, h)"
  by (simp add: visit_handlers_def bind_act_def get_act_def ret_act_def)

lemma emit_nobody:
  "hn_handlers h ''*'' = [] \<Longrightarrow> he_set_order E [] = [] \<Longrightarrow> emit_own E ev h = (Inr (), h)"
  "hn_handlers h ty = [] \<Longrightarrow> he_set_order E [] = [] \<Longrightarrow> emit_hook E ty f h = (Inr None, h)"
  by (simp_all add: emit_own_def emit_hook_def visit_nobody)

text \<open>Nobody is told of anything, and asking for the key changes nothing.\<close>

definition undisturbed :: "('s, 'o) harness_env \<Rightarrow> ('s, 'o) harness \<Rightarrow> bool" where
  "undisturbed E h \<longleftrightarrow> hn_handlers h ''*'' = [] \<and> hn_handlers h ''session_before_compact'' = [] \<and>
     hn_handlers h ''session_before_tree'' = [] \<and> he_set_order E [] = [] \<and>
     (\<forall>f m. he_get_api_key_and_headers E = Some f \<longrightarrow> (\<exists>r. f m h = (r, h)))"

lemma get_auth_same:
  assumes "undisturbed E h" "get_auth E model refusal h = (r, h')"
  shows "h' = h"
proof (cases "he_get_api_key_and_headers E")
  case None
  with assms(2) show ?thesis by (auto simp: get_auth_def bind_act_def ret_act_def raise_act_def)
next
  case (Some f)
  with assms(1) obtain a where "f (Some model) h = (a, h)" unfolding undisturbed_def by blast
  with assms(2) Some show ?thesis
    by (auto simp: get_auth_def bind_act_def ret_act_def raise_act_def split: sum.splits option.splits)
qed

section \<open>Compaction\<close>

text \<open>
  C9. A compaction that nobody disturbs, of a branch with something to compact, with a model that answers
  and a storage that keeps the laws of the protocol and whose next id is free: it returns the summary, and
  appends one entry with it to the branch of the session, from which the storage gives it back.
\<close>

theorem compaction_appended:
  assumes "session_storage ops ok id_free" "he_ops E = ops" "ok (hn_session h)" "id_free (hn_session h)"
    and "get_branch ops (hn_session h) None = Some (Inr path)" "hn_phase h = IdlePhase"
    and "undisturbed E (set_phase CompactionPhase h)"
    and "hn_model h = Some model" "fst (get_auth E model [] (set_phase CompactionPhase h)) = Inr auth"
    and "prepare_compaction (he_lib E) path DEFAULT_COMPACTION_SETTINGS = Inr (Some p)"
    and "compact (he_lib E) (he_llm_runtime E) (he_llm_model E model)
      (le_now_ms (he_loop E) (set_phase CompactionPhase h)) (call_options_of auth) (he_second_first E) p custom = Inr c"
  shows "\<exists>h' e. harness_compact E custom h = Some (Inr (own_result c), h') \<and>
    get_branch ops (hn_session h') None = Some (Inr (path @ [e])) \<and>
    so_getEntry ops (hn_session h') (e_id e) = Inr (Some e) \<and>
    e_body e = CompactionE (cr_summary c) (cr_firstKeptEntryId c) (cr_tokensBefore c) (details_value (cr_details c))
      (Some False) \<and> hn_phase h' = IdlePhase"
proof -
  let ?h = "set_phase CompactionPhase h"
  let ?body = "CompactionE (cr_summary c) (cr_firstKeptEntryId c) (cr_tokensBefore c) (details_value (cr_details c)) (Some False)"
  have s: "hn_session ?h = hn_session h" "hn_model ?h = Some model" using assms(8) by (simp_all add: set_phase_def)
  have "\<not> is_leaf \<lparr>e_id = [], e_parentId = None, e_timestamp = he_now E ?h, e_appendMode = None, e_body = ?body\<rparr>"
    by (simp add: is_leaf_iff)
  from session_storage.append_extends_branch [OF assms(1,3-5) this] obtain k q t e where
    t: "append_typed_entry ops (he_now E ?h) ?body (hn_session h) = (Inr k, t)"
      "e = \<lparr>e_id = k, e_parentId = q, e_timestamp = he_now E ?h, e_appendMode = None, e_body = ?body\<rparr>"
      "so_getEntry ops t k = Inr (Some e)" "get_branch ops t None = Some (Inr (path @ [e]))"
    by blast
  let ?h2 = "?h\<lparr>hn_session := t\<rparr>"
  have "emit_own E ev ?h2 = (Inr (), ?h2)" for ev
    using assms(7) by (simp add: emit_nobody undisturbed_def)
  then have rec: "record_compaction E (own_result c) False ?h = (Inr (), ?h2)"
    using t assms(2) s by (auto simp: record_compaction_def bind_act_def get_act_def on_session_def read_session_def
        append_compaction_def own_result_def ret_act_def split: option.split)
  have none: "emit_hook E ''session_before_compact'' f ?h = (Inr None, ?h)" for f :: "nat \<Rightarrow> _"
    using assms(7) by (simp add: undisturbed_def emit_nobody)
  have auth: "get_auth E model m ?h = (Inr auth, ?h)" for m
    using assms(9) get_auth_same [OF assms(7), of model m]
    by (cases "get_auth E model m ?h") (auto simp: get_auth_def bind_act_def raise_act_def ret_act_def
        split: option.splits sum.splits prod.splits)
  have "compact_prepared E model auth custom path ?h = (Inr (own_result c), ?h2)"
    using assms(10,11) rec
    by (simp add: compact_prepared_def compact_with_model_def bind_act_def of_res_def none get_act_def catch_act_def
        ret_act_def then_act_def Let_def)
  then have "harness_compact E custom h = Some (Inr (own_result c), set_phase IdlePhase ?h2)"
    using assms(2,5,6) s auth
    by (simp add: harness_compact_def when_idle_def finally_run_def catch_run_def bind_run_def run_act_def need_model_def
        bind_act_def get_act_def ret_act_def finally_phase)
  moreover have "hn_session (set_phase IdlePhase ?h2) = t" "hn_phase (set_phase IdlePhase ?h2) = IdlePhase"
    by (simp_all add: set_phase_def)
  ultimately show ?thesis using t(2-4)
    by (intro exI [of _ "set_phase IdlePhase ?h2"] exI [of _ e]) auto
qed

section \<open>Moving in the tree\<close>

text \<open>A summary by the model is never had: the call raises, or the model was stopped.\<close>

lemma summarize_branch_fails:
  assumes "undisturbed E h" "summarize_branch E entries hook opts h = (r, h')"
  shows "h' = h \<and> (case r of Inr x \<Rightarrow> x = None | Inl e \<Rightarrow> True)"
proof (cases "hn_model h")
  case None
  with assms(2) show ?thesis
    by (auto simp: summarize_branch_def need_model_def bind_act_def get_act_def raise_act_def)
next
  case (Some model)
  obtain a h1 where a: "get_auth E model ''No auth available for branch summary'' h = (a, h1)" by force
  from get_auth_same [OF assms(1) a] have h1: "h1 = h" .
  show ?thesis
  proof (cases a)
    case (Inl e)
    with a h1 Some assms(2) show ?thesis
      by (auto simp: summarize_branch_def need_model_def bind_act_def get_act_def ret_act_def)
  next
    case (Inr auth)
    obtain e where "generate_branch_summary (he_lib E) (le_now_ms (he_loop E) h) entries
        (branch_summary_options E model auth hook opts) = Inl e"
      using generate_branch_summary_raises by blast
    with a h1 Some Inr assms(2) show ?thesis
      by (auto simp: summarize_branch_def need_model_def bind_act_def get_act_def ret_act_def raise_act_def of_res_def
          exn_message_def split: pyexn.splits compaction_error_code.splits)
  qed
qed

text \<open>What a move without a summary answers: the text of a message of the user to edit.\<close>

definition moved :: "string option \<Rightarrow> navigate_result" where
  "moved t = \<lparr>nv_cancelled = False, nv_editorText = t, nv_summaryEntry = None\<rparr>"

lemma move_in_tree_session:
  assumes "session_storage ops ok id_free" "undisturbed E h" "he_ops E = ops" "ok (hn_session h)" "id_free (hn_session h)"
    and "get_branch ops (hn_session h) (Some k) = Some (Inr path)"
    and "so_getEntry ops (hn_session h) k = Inr (Some d)"
    and "destination entry target = Inr (Some k, t)"
  shows "\<exists>h'. move_in_tree E old_leaf entry target None from_hook h = (Inr (moved t), h') \<and> ok (hn_session h') \<and>
    get_branch ops (hn_session h') None = Some (Inr path)"
proof -
  from session_storage.move_to_switches_branch [OF assms(1,4-7), of "he_now E h"] obtain s where
    s: "move_to ops (he_now E h) (Some k) None (hn_session h) = (Inr None, s)" "ok s"
      "get_branch ops s None = Some (Inr path)" by blast
  let ?h = "h\<lparr>hn_session := s\<rparr>"
  have emit: "emit_own E ev ?h = (Inr (), ?h)" for ev
    using assms(2) by (simp add: emit_nobody undisturbed_def)
  obtain leaf where "so_getLeafId ops s = Inr leaf" using session_storage.leaf [OF assms(1) s(2)] by blast
  then have "move_in_tree E old_leaf entry target None from_hook h = (Inr (moved t), ?h)"
    using s(1) assms(8)
    by (simp add: move_in_tree_def assms(3) bind_act_def of_res_def get_act_def on_session_def read_session_def
        filled_text_def then_act_def emit ret_act_def moved_def)
  with s(2,3) show ?thesis by auto
qed

lemma collect_returns:
  assumes "get_branch ops s None = Some (Inr old)" "so_getLeafId ops s = Inr leaf"
    and "get_branch ops s (Some target) = Some (Inr path)"
  shows "\<exists>es anc. collect_entries_for_branch_summary ops s leaf target = Some (Inr (es, anc))"
proof (cases leaf)
  case (Some k)
  with assms(1,2) have "get_branch ops s leaf = Some (Inr old)" by (simp add: get_branch_def)
  with assms(3) show ?thesis by (simp add: collect_entries_for_branch_summary_def Let_def)
qed (simp add: collect_entries_for_branch_summary_def)


section \<open>Examples\<close>

definition quiet_harness :: "(storage \<times> id_gen, nat) harness" where
  "quiet_harness = trial_harness (demo_storage, \<lparr>ig_state = initial_uuid_state, ig_calls = 0\<rparr>) (\<lambda>ty. [])"

definition quiet_env :: "(storage \<times> id_gen, nat) harness_env" where
  "quiet_env = trial_harness_env (memory_ops demo_supply ''now'')"

lemma quiet_facts:
  "he_ops quiet_env = memory_ops demo_supply ''now''" "memory_inv (hn_session quiet_harness)"
  "memory_id_free demo_supply (hn_session quiet_harness)" "hn_phase quiet_harness = IdlePhase"
  "undisturbed quiet_env (set_phase p quiet_harness)"
  using demo_id_fresh [of demo_supply "\<lparr>ig_state = initial_uuid_state, ig_calls = 0\<rparr>"] demo_storage_reachable
  by (auto simp: quiet_env_def quiet_harness_def trial_harness_env_def trial_harness_def memory_inv_def
      demo_storage_fields memory_id_free_def undisturbed_def set_phase_def ret_act_def)

text \<open>
  A summary of the branch that is left, asked for from the model, is never written: the call raises or is
  cancelled, and the harness and its session are as before.
\<close>

theorem summarized_navigation_stays:
  assumes "undisturbed E h" "no_summarize opts" "tp_entriesToSummarize p \<noteq> []"
    and "navigate_prepared E old_leaf entry p opts h = (r, h')"
  shows "h' = h \<and> (case r of Inr v \<Rightarrow> nv_cancelled v | Inl e \<Rightarrow> True)"
proof -
  have none: "emit_hook E ''session_before_tree'' f h = (Inr None, h)" for f :: "nat \<Rightarrow> _"
    using assms(1) by (simp add: undisturbed_def emit_nobody)
  obtain a h1 where a: "summarize_branch E (tp_entriesToSummarize p) None opts h = (a, h1)" by force
  from summarize_branch_fails [OF assms(1) a] have "h1 = h" "case a of Inr x \<Rightarrow> x = None | Inl e \<Rightarrow> True" by blast+
  with assms(2-4) a show ?thesis
    by (cases a) (auto simp: navigate_prepared_def bind_act_def none filled_text_def Let_def ret_act_def cancelled_result_def)
qed


definition no_options :: navigate_options where
  "no_options = \<lparr>no_summarize = False, no_customInstructions = None, no_replaceInstructions = False, no_label = None\<rparr>"

lemma demo_path_d:
  "get_path_to_root demo_storage (Some ''d'') = Some (Inr [demo_message ''a'' None ''one'', demo_message ''d'' (Some ''a'') ''three''])"
proof -
  have "walk_parent Map.empty (demo_message ''a'' None ''one'') = None" "\<not> is_leaf (demo_message ''a'' None ''one'')"
    "walk_parent Map.empty (demo_message ''d'' (Some ''a'') ''three'') = Some ''a''" "\<not> is_leaf (demo_message ''d'' (Some ''a'') ''three'')"
    "e_id (demo_message ''d'' (Some ''a'') ''three'') = ''d''" "e_id (demo_message ''a'' None ''one'') = ''a''"
    by (simp_all add: walk_parent_def demo_message_def is_leaf_def)
  then show ?thesis
    by (subst get_path_to_root_def)
       (simp add: demo_storage_fields demo_logical_parents path_loop.simps [of _ _ "{}"] path_loop.simps [of _ _ "{''d''}"])
qed

lemma demo_branches:
  "so_getLeafId (memory_ops rnd now) (demo_storage, g) = Inr (Some ''d'')"
  "get_branch (memory_ops rnd now) (demo_storage, g) (Some ''a'') = Some (Inr [demo_message ''a'' None ''one''])"
  "get_branch (memory_ops rnd now) (demo_storage, g) None =
     Some (Inr [demo_message ''a'' None ''one'', demo_message ''d'' (Some ''a'') ''three''])"
  by (simp_all add: get_branch_def memory_ops_def get_leaf_id_def demo_storage_fields missing_def demo_path_a demo_path_d)

theorem compaction_appended_witness:
  "\<exists>h' c e. harness_compact quiet_env None quiet_harness = Some (Inr (own_result c), h') \<and>
     get_branch (memory_ops demo_supply ''now'') (hn_session h') None =
       Some (Inr [demo_message ''a'' None ''one'', demo_message ''d'' (Some ''a'') ''three'', e]) \<and> is_compaction e"
proof -
  let ?path = "[demo_message ''a'' None ''one'', demo_message ''d'' (Some ''a'') ''three'']"
  let ?p = "\<lparr>pr_firstKeptEntryId = ''a'', pr_messagesToSummarize = [], pr_turnPrefixMessages = [], pr_isSplitTurn = False,
     pr_tokensBefore = 2, pr_previousSummary = None, pr_fileOps = \<lparr>fo_read = [], fo_written = [], fo_edited = []\<rparr>,
     pr_settings = \<lparr>cs_enabled = True, cs_reserveTokens = 16384, cs_keepRecentTokens = 20000\<rparr>\<rparr>"
  let ?auth = "\<lparr>au_apiKey = Some ''k'', au_headers = None\<rparr>"
  have prep: "prepare_compaction (he_lib quiet_env) ?path DEFAULT_COMPACTION_SETTINGS = Inr (Some ?p)"
    unfolding quiet_env_def by code_simp
  obtain c where c: "compact (he_lib quiet_env) (he_llm_runtime quiet_env) (he_llm_model quiet_env trial_model)
      (le_now_ms (he_loop quiet_env) (set_phase CompactionPhase quiet_harness)) (call_options_of ?auth)
      (he_second_first quiet_env) ?p None = Inr c"
    by (simp add: quiet_env_def trial_harness_env_def compact_def generate_summary_def serialize_conversation_def
        complete_summarization_def resolve_agent_core_complete_fn_def demo_runtime_def summary_text_def message_field_def
        compute_file_lists_def Let_def)
  have "hn_model quiet_harness = Some trial_model"
    "fst (get_auth quiet_env trial_model [] (set_phase CompactionPhase quiet_harness)) = Inr ?auth"
    "get_branch (memory_ops demo_supply ''now'') (hn_session quiet_harness) None = Some (Inr ?path)"
    by (simp_all add: quiet_harness_def quiet_env_def trial_harness_def trial_harness_env_def get_auth_def bind_act_def
        ret_act_def demo_branches)
  from compaction_appended [OF memory.session_storage_axioms quiet_facts(1-3) this(3) quiet_facts(4,5) this(1,2) prep c]
  show ?thesis by (auto simp: is_compaction_iff)
qed

lemma demo_path_b:
  "get_path_to_root demo_storage (Some ''b'') = Some (Inr [demo_message ''a'' None ''one'', demo_message ''b'' (Some ''a'') ''two''])"
proof -
  have "walk_parent Map.empty (demo_message ''a'' None ''one'') = None" "\<not> is_leaf (demo_message ''a'' None ''one'')"
    "walk_parent Map.empty (demo_message ''b'' (Some ''a'') ''two'') = Some ''a''" "\<not> is_leaf (demo_message ''b'' (Some ''a'') ''two'')"
    "e_id (demo_message ''b'' (Some ''a'') ''two'') = ''b''" "e_id (demo_message ''a'' None ''one'') = ''a''"
    by (simp_all add: walk_parent_def demo_message_def is_leaf_def)
  then show ?thesis
    by (subst get_path_to_root_def)
       (simp add: demo_storage_fields demo_logical_parents path_loop.simps [of _ _ "{}"] path_loop.simps [of _ _ "{''b''}"])
qed


theorem summarized_navigation_stays_witness:
  "\<exists>r. navigate_prepared quiet_env (Some ''d'') (demo_message ''a'' None ''one'')
       \<lparr>tp_targetId = ''a'', tp_oldLeafId = Some ''d'', tp_commonAncestorId = Some ''a'',
        tp_entriesToSummarize = [demo_message ''d'' (Some ''a'') ''three''], tp_userWantsSummary = True,
        tp_customInstructions = None, tp_replaceInstructions = False, tp_label = None\<rparr>
       (no_options\<lparr>no_summarize := True\<rparr>) (set_phase BranchSummaryPhase quiet_harness) =
     (r, set_phase BranchSummaryPhase quiet_harness)" (is "\<exists>r. ?run = (r, ?h)")
proof -
  obtain r h' where r: "?run = (r, h')" by force
  from summarized_navigation_stays [OF quiet_facts(5) _ _ r] r show ?thesis by simp
qed

end
