(* ===== verification/ToolPolicy.thy ===== *)
theory ToolPolicy
  imports RegExp PyVal
begin

text \<open>
  Which tools an agent in a sandbox may call: \<^verbatim>\<open>agents/glob_pattern.py\<close>, \<^verbatim>\<open>agents/tool_policy_shared.py\<close>
  and \<^verbatim>\<open>agents/sandbox/tool_policy.py\<close>. A policy has an allow list and a deny list of patterns, which the
  configuration of the agent, the global configuration and the defaults give; the last section shows what
  the resolved policy means for a tool in terms of the configured lists.
\<close>

section \<open>Patterns\<close>

datatype glob_pattern = AllPattern | ExactPattern string | RegexPattern rexp

text \<open>\<^verbatim>\<open>re.escape\<close> with every escaped asterisk replaced by \<^verbatim>\<open>.*\<close>; the full stop is any character but a newline.\<close>

definition DOT :: rexp where
  "DOT = Class [(0, 9), (11, 255)]"

fun escape_regex :: "string \<Rightarrow> rexp" where
  "escape_regex [] = Empty"
| "escape_regex (c # s) = Then (if c = CHR ''*'' then Many DOT else char_re c) (escape_regex s)"

definition compile_glob_pattern :: "'a \<Rightarrow> ('a \<Rightarrow> string) \<Rightarrow> glob_pattern" where
  "compile_glob_pattern raw normal =
     (let normalized = normal raw in
      if normalized = [] then ExactPattern []
      else if normalized = ''*'' then AllPattern
      else if CHR ''*'' \<notin> set normalized then ExactPattern normalized
      else RegexPattern (escape_regex normalized))"

definition compile_glob_patterns :: "'a list option \<Rightarrow> ('a \<Rightarrow> string) \<Rightarrow> glob_pattern list" where
  "compile_glob_patterns raw normal =
     (case raw of
        None \<Rightarrow> []
      | Some items \<Rightarrow> filter (\<lambda>p. p \<noteq> ExactPattern []) (map (\<lambda>r. compile_glob_pattern r normal) items))"

fun matches_glob_pattern :: "string \<Rightarrow> glob_pattern \<Rightarrow> bool" where
  "matches_glob_pattern v AllPattern \<longleftrightarrow> True"
| "matches_glob_pattern v (ExactPattern t) \<longleftrightarrow> v = t"
| "matches_glob_pattern v (RegexPattern r) \<longleftrightarrow> anchored_match r v"

definition matches_any_glob_pattern :: "string \<Rightarrow> glob_pattern list \<Rightarrow> bool" where
  "matches_any_glob_pattern v patterns \<longleftrightarrow> list_ex (matches_glob_pattern v) patterns"

section \<open>Names of tools\<close>

definition TOOL_NAME_ALIASES :: "(string, string) dict" where
  "TOOL_NAME_ALIASES = [(''bash'', ''exec''), (''apply-patch'', ''apply_patch'')]"

definition TOOL_GROUPS :: "(string, string list) dict" where
  "TOOL_GROUPS =
     [(''group:fs'', [''read'', ''write'', ''edit'', ''apply_patch'']),
      (''group:runtime'', [''exec'', ''process'']),
      (''group:sessions'', [''sessions_list'', ''sessions_history'', ''sessions_send'', ''sessions_spawn'',
         ''sessions_yield'', ''session_status'']),
      (''group:agents'', [''subagents'', ''agents_list''])]"

definition normalize_tool_name :: "string \<Rightarrow> string" where
  "normalize_tool_name name =
     (let normalized = py_lower (py_strip name) in
      case dict_get TOOL_NAME_ALIASES normalized of Some a \<Rightarrow> a | None \<Rightarrow> normalized)"

definition normalize_tool_list :: "string list option \<Rightarrow> string list" where
  "normalize_tool_list l =
     (case l of None \<Rightarrow> [] | Some names \<Rightarrow> filter (\<lambda>n. n \<noteq> []) (map normalize_tool_name names))"

fun unique_loop :: "'a list \<Rightarrow> 'a list \<Rightarrow> 'a list" where
  "unique_loop out [] = out"
| "unique_loop out (x # xs) = (if x \<in> set out then unique_loop out xs else unique_loop (out @ [x]) xs)"

definition unique_strings :: "'a list \<Rightarrow> 'a list" where
  "unique_strings items = unique_loop [] items"

definition expand_group :: "string \<Rightarrow> string list" where
  "expand_group value = (case dict_get TOOL_GROUPS value of Some g \<Rightarrow> g | None \<Rightarrow> [value])"

definition expand_tool_groups :: "string list option \<Rightarrow> string list" where
  "expand_tool_groups l = unique_strings (concat (map expand_group (normalize_tool_list l)))"

section \<open>Questions about a policy\<close>

record tool_policy =
  tl_allow :: "string list option"
  tl_deny :: "string list option"

record policy_verdict =
  blockedByDeny :: bool
  blockedByAllow :: bool

definition classify_tool_against_sandbox_tool_policy ::
    "string \<Rightarrow> tool_policy option \<Rightarrow> policy_verdict" where
  "classify_tool_against_sandbox_tool_policy name policy =
     (case policy of
        None \<Rightarrow> \<lparr> blockedByDeny = False, blockedByAllow = False \<rparr>
      | Some p \<Rightarrow>
          let normalized = normalize_tool_name name;
              deny = compile_glob_patterns (Some (expand_tool_groups (tl_deny p))) normalize_tool_name;
              blocked_by_deny = matches_any_glob_pattern normalized deny;
              allow = compile_glob_patterns (Some (expand_tool_groups (tl_allow p))) normalize_tool_name
          in \<lparr> blockedByDeny = blocked_by_deny,
               blockedByAllow = \<not> blocked_by_deny \<and> allow \<noteq> [] \<and> \<not> matches_any_glob_pattern normalized allow \<rparr>)"

definition is_tool_allowed :: "tool_policy \<Rightarrow> string \<Rightarrow> bool" where
  "is_tool_allowed policy name \<longleftrightarrow>
     (let result = classify_tool_against_sandbox_tool_policy name (Some policy)
      in \<not> blockedByDeny result \<and> \<not> blockedByAllow result)"

section \<open>The policy of an agent\<close>

definition DEFAULT_TOOL_ALLOW :: "string list" where
  "DEFAULT_TOOL_ALLOW =
     [''exec'', ''process'', ''read'', ''write'', ''edit'', ''apply_patch'', ''image'', ''sessions_list'',
      ''sessions_history'', ''sessions_send'', ''sessions_spawn'', ''sessions_yield'', ''subagents'',
      ''session_status'']"

definition DEFAULT_TOOL_DENY :: "string list" where
  "DEFAULT_TOOL_DENY =
     [''browser'', ''canvas'', ''nodes'', ''cron'', ''gateway'', ''telegram'', ''discord'', ''slack'',
      ''signal'', ''imessage'', ''whatsapp'', ''line'', ''feishu'', ''googlechat'']"

datatype policy_scope = AgentScope | GlobalScope | DefaultScope

record policy_source =
  ps_source :: policy_scope
  ps_key :: string

record resolved_tool_policy =
  rt_allow :: "string list"
  rt_deny :: "string list"
  rt_allow_source :: policy_source
  rt_deny_source :: policy_source

definition pick_configured_list :: "pyval \<Rightarrow> pyval \<Rightarrow> string \<Rightarrow> pyval list option \<times> policy_source" where
  "pick_configured_list agent global allow_key =
     (case agent of
        VList l \<Rightarrow> (Some l, \<lparr> ps_source = AgentScope, ps_key = ''agents.list[].tools.sandbox.tools.'' @ allow_key \<rparr>)
      | _ \<Rightarrow>
          (case global of
             VList l \<Rightarrow> (Some l, \<lparr> ps_source = GlobalScope, ps_key = ''tools.sandbox.tools.'' @ allow_key \<rparr>)
           | _ \<Rightarrow> (None, \<lparr> ps_source = DefaultScope, ps_key = ''tools.sandbox.tools.'' @ allow_key \<rparr>)))"

text \<open>
  The items of a configured list may be of any type: a list or a dictionary cannot be put into the set of
  the items seen, and the normalisation of a name calls a method that only strings have. Numbers of
  different types that are equal stay apart here, and raise when they are normalised as they do in the code.
\<close>

fun hashable :: "pyval \<Rightarrow> bool" where
  "hashable (VList l) \<longleftrightarrow> False"
| "hashable (VDict d) \<longleftrightarrow> False"
| "hashable v \<longleftrightarrow> True"

definition unique_values :: "pyval list \<Rightarrow> pyval list res" where
  "unique_values items = (if list_all hashable items then Inr (unique_strings items) else Inl PyTypeError)"

fun need_name :: "pyval \<Rightarrow> string res" where
  "need_name (VStr s) = Inr s"
| "need_name v = Inl (PyAttributeError ''strip'')"

definition expand_tool_values :: "pyval list \<Rightarrow> string list res" where
  "expand_tool_values items = bind_res (map_res need_name items) (\<lambda>names. Inr (expand_tool_groups (Some names)))"

definition merge_allowlist :: "pyval list option \<Rightarrow> pyval list option \<Rightarrow> pyval list res" where
  "merge_allowlist base extra =
     (case base of
        Some b \<Rightarrow>
          (if b = [] then Inr []
           else if extra = None \<or> extra = Some [] then Inr b
           else unique_values (b @ the extra))
      | None \<Rightarrow>
          (if extra = None \<or> extra = Some [] then Inr (map VStr DEFAULT_TOOL_ALLOW)
           else unique_values (map VStr DEFAULT_TOOL_ALLOW @ the extra)))"

definition resolve_explicit_reallow :: "pyval list option \<Rightarrow> pyval list option \<Rightarrow> pyval list res" where
  "resolve_explicit_reallow allow also_allow =
     unique_values ((case allow of None \<Rightarrow> [] | Some a \<Rightarrow> a) @ (case also_allow of None \<Rightarrow> [] | Some a \<Rightarrow> a))"

definition filter_default_deny_for_explicit_allows :: "string list \<Rightarrow> pyval list \<Rightarrow> string list res" where
  "filter_default_deny_for_explicit_allows deny explicit =
     (if explicit = [] then Inr deny
      else bind_res (expand_tool_values explicit) (\<lambda>expanded.
        let allow_patterns = compile_glob_patterns (Some expanded) normalize_tool_name in
        if allow_patterns = [] then Inr deny
        else Inr (filter (\<lambda>tool. \<not> matches_any_glob_pattern (normalize_tool_name tool) allow_patterns) deny)))"

definition expand_resolved_policy :: "pyval list \<Rightarrow> pyval list \<Rightarrow> (string list \<times> string list) res" where
  "expand_resolved_policy allow deny =
     bind_res (expand_tool_values deny) (\<lambda>expanded_deny.
     bind_res (expand_tool_values allow) (\<lambda>expanded_allow.
       let deny_lower = map normalize_tool_name expanded_deny;
           allow_lower = map normalize_tool_name expanded_allow
       in Inr (if expanded_allow \<noteq> [] \<and> ''image'' \<notin> set deny_lower \<and> ''image'' \<notin> set allow_lower
               then expanded_allow @ [''image''] else expanded_allow,
               expanded_deny)))"

definition pick_allow_source :: "policy_source \<Rightarrow> bool \<Rightarrow> policy_source option \<Rightarrow> policy_source" where
  "pick_allow_source allow allow_defined also_allow =
     (if allow_defined \<and> ps_source allow = AgentScope then allow
      else case also_allow of
        None \<Rightarrow> allow
      | Some also \<Rightarrow>
          if ps_source also = AgentScope then also
          else if allow_defined \<and> ps_source allow = GlobalScope then allow
          else if ps_source also = GlobalScope then also
          else allow)"

text \<open>\<^verbatim>\<open>d.get(k)\<close> when the value is a dictionary, as the code tests it before.\<close>

definition sub_dict :: "(string \<times> pyval) list \<Rightarrow> string \<Rightarrow> (string \<times> pyval) list option" where
  "sub_dict d k = (case map_of d k of Some (VDict e) \<Rightarrow> Some e | _ \<Rightarrow> None)"

definition sandbox_tools :: "(string \<times> pyval) list \<Rightarrow> (string \<times> pyval) list option" where
  "sandbox_tools d =
     Option.bind (sub_dict d ''tools'') (\<lambda>tools. Option.bind (sub_dict tools ''sandbox'') (\<lambda>sandbox. sub_dict sandbox ''tools''))"

fun agent_entry_loop :: "pyval list \<Rightarrow> string \<Rightarrow> (string \<times> pyval) list option" where
  "agent_entry_loop [] agent_id = None"
| "agent_entry_loop (VDict entry # rest) agent_id =
     (if py_strip (case map_of entry ''id'' of Some v \<Rightarrow> py_str v | None \<Rightarrow> []) = py_strip agent_id then
        (case sandbox_tools entry of
           Some inner \<Rightarrow> Some inner
         | None \<Rightarrow> agent_entry_loop rest agent_id)
      else agent_entry_loop rest agent_id)"
| "agent_entry_loop (_ # rest) agent_id = agent_entry_loop rest agent_id"

definition resolve_agent_sandbox_tools ::
    "(string \<times> pyval) list option \<Rightarrow> string option \<Rightarrow> (string \<times> pyval) list option" where
  "resolve_agent_sandbox_tools cfg agent_id =
     (case (cfg, agent_id) of
        (Some c, Some a) \<Rightarrow>
          if c = [] \<or> a = [] then None
          else Option.bind (sub_dict c ''agents'')
            (\<lambda>agents. case map_of agents ''list'' of Some (VList l) \<Rightarrow> agent_entry_loop l a | _ \<Rightarrow> None)
      | _ \<Rightarrow> None)"

definition global_sandbox_tools :: "(string \<times> pyval) list option \<Rightarrow> (string \<times> pyval) list option" where
  "global_sandbox_tools cfg = Option.bind cfg sandbox_tools"

definition entry_of :: "(string \<times> pyval) list option \<Rightarrow> string \<Rightarrow> pyval" where
  "entry_of policy k =
     (case policy of None \<Rightarrow> VNone | Some d \<Rightarrow> (case map_of d k of Some v \<Rightarrow> v | None \<Rightarrow> VNone))"

definition configured ::
    "(string \<times> pyval) list option \<Rightarrow> string option \<Rightarrow> string \<Rightarrow> pyval list option \<times> policy_source" where
  "configured cfg agent_id k =
     pick_configured_list (entry_of (resolve_agent_sandbox_tools cfg agent_id) k)
       (entry_of (global_sandbox_tools cfg) k) k"

definition resolve_sandbox_tool_policy_for_agent ::
    "(string \<times> pyval) list option \<Rightarrow> string option \<Rightarrow> resolved_tool_policy res" where
  "resolve_sandbox_tool_policy_for_agent cfg agent_id =
     (let (allow_vals, allow_src) = configured cfg agent_id ''allow'';
          (also_vals, also_src) = configured cfg agent_id ''alsoAllow'';
          (deny_vals, deny_src) = configured cfg agent_id ''deny''
      in bind_res (resolve_explicit_reallow allow_vals also_vals) (\<lambda>explicit.
         bind_res (merge_allowlist allow_vals also_vals) (\<lambda>resolved_allow.
         bind_res
           (case deny_vals of
              Some d \<Rightarrow> Inr d
            | None \<Rightarrow> bind_res (filter_default_deny_for_explicit_allows DEFAULT_TOOL_DENY explicit)
                (\<lambda>d. Inr (map VStr d))) (\<lambda>resolved_deny.
         bind_res (expand_resolved_policy resolved_allow resolved_deny) (\<lambda>(allow, deny).
           Inr \<lparr> rt_allow = allow, rt_deny = deny,
                 rt_allow_source = pick_allow_source allow_src (allow_vals \<noteq> None)
                   (if also_vals \<noteq> None then Some also_src else None),
                 rt_deny_source = deny_src \<rparr>)))))"

section \<open>Patterns as wildcards\<close>

text \<open>An asterisk stands for any text without a newline.\<close>

fun wildcard :: "string \<Rightarrow> string \<Rightarrow> bool" where
  "wildcard [] s \<longleftrightarrow> s = []"
| "wildcard (p # ps) [] \<longleftrightarrow> p = CHR ''*'' \<and> wildcard ps []"
| "wildcard (p # ps) (c # s) \<longleftrightarrow>
     (if p = CHR ''*'' then wildcard ps (c # s) \<or> (c \<noteq> newline \<and> wildcard (p # ps) s)
      else p = c \<and> wildcard ps s)"

lemma in_class_DOT [simp]: "in_class [(0, 9), (11, 255)] c \<longleftrightarrow> c \<noteq> newline"
proof -
  have "c \<noteq> newline \<longleftrightarrow> ord_char c \<noteq> ord_char newline" by simp
  moreover have "ord_char newline = 10" by (simp add: ord_char_def)
  moreover have "ord_char c \<le> 255" using ord_char_less [of c] by linarith
  ultimately show ?thesis by (auto simp: in_class_def simp del: ord_char_inject)
qed

lemma lang_DOTs: "s \<in> lang (Many DOT) \<longleftrightarrow> newline \<notin> set s"
proof
  assume "s \<in> lang (Many DOT)"
  then obtain ss where "set ss \<subseteq> {[c] | c. c \<noteq> newline}" "s = concat ss" by (auto simp: DOT_def)
  then show "newline \<notin> set s" by (fastforce simp: subset_iff)
next
  assume "newline \<notin> set s"
  then show "s \<in> lang (Many DOT)"
    by (auto simp: DOT_def intro!: exI [of _ "map (\<lambda>c. [c]) s"])
qed

lemma star_texts:
  "wildcard (CHR ''*'' # ps) s \<longleftrightarrow> (\<exists>u t. s = u @ t \<and> newline \<notin> set u \<and> wildcard ps t)"
proof (induction s)
  case (Cons c s)
  show ?case
  proof
    assume "wildcard (CHR ''*'' # ps) (c # s)"
    then consider "wildcard ps (c # s)" | "c \<noteq> newline" "wildcard (CHR ''*'' # ps) s" by auto
    then show "\<exists>u t. c # s = u @ t \<and> newline \<notin> set u \<and> wildcard ps t"
    proof cases
      case 1
      then show ?thesis by (metis append_Nil empty_iff list.set(1))
    next
      case 2
      then obtain u t where "s = u @ t" "newline \<notin> set u" "wildcard ps t" using Cons by blast
      with 2 show ?thesis by (intro exI [of _ "c # u"] exI [of _ t]) auto
    qed
  next
    assume "\<exists>u t. c # s = u @ t \<and> newline \<notin> set u \<and> wildcard ps t"
    then obtain u t where ut: "c # s = u @ t" "newline \<notin> set u" "wildcard ps t" by blast
    show "wildcard (CHR ''*'' # ps) (c # s)"
    proof (cases u)
      case Nil
      with ut have "wildcard ps (c # s)" by simp
      then show ?thesis by simp
    next
      case (Cons d v)
      with ut have "s = v @ t \<and> newline \<notin> set v \<and> wildcard ps t" "c \<noteq> newline" by auto
      with Cons.IH show ?thesis by auto
    qed
  qed
qed auto

lemma lang_escape_regex: "s \<in> lang (escape_regex p) \<longleftrightarrow> wildcard p s"
proof (induction p arbitrary: s)
  case (Cons c p)
  show ?case
  proof (cases "c = CHR ''*''")
    case True
    then have "s \<in> lang (escape_regex (c # p)) \<longleftrightarrow>
        (\<exists>u t. s = u @ t \<and> u \<in> lang (Many DOT) \<and> t \<in> lang (escape_regex p))" by auto
    then show ?thesis unfolding True star_texts lang_DOTs Cons by blast
  next
    case False
    with Cons show ?thesis by (cases s) auto
  qed
qed simp

lemma wildcard_plain: "CHR ''*'' \<notin> set p \<Longrightarrow> wildcard p s \<longleftrightarrow> p = s"
  by (induction p s rule: wildcard.induct) auto

lemma wildcard_star: "newline \<notin> set s \<Longrightarrow> wildcard ''*'' s"
  by (induction s) auto

lemma anchored_escape: "newline \<notin> set s \<Longrightarrow> anchored_match (escape_regex p) s \<longleftrightarrow> wildcard p s"
  by (cases s rule: rev_cases) (auto simp: anchored_match_def chop_newline_def full_match_lang lang_escape_regex)

lemma compiled_pattern_covers:
  assumes "newline \<notin> set s" "normal raw \<noteq> []"
  shows "matches_glob_pattern s (compile_glob_pattern raw normal) \<longleftrightarrow> wildcard (normal raw) s"
  using assms
  by (auto simp: compile_glob_pattern_def Let_def wildcard_star wildcard_plain anchored_escape)

lemma compile_drops: "compile_glob_pattern raw normal = ExactPattern [] \<longleftrightarrow> normal raw = []"
  by (simp add: compile_glob_pattern_def Let_def)

lemma glob_patterns_cover:
  assumes "newline \<notin> set s"
  shows "matches_any_glob_pattern s (compile_glob_patterns (Some raws) normal) \<longleftrightarrow>
    (\<exists>raw\<in>set raws. normal raw \<noteq> [] \<and> wildcard (normal raw) s)"
  by (auto simp: matches_any_glob_pattern_def compile_glob_patterns_def list_ex_iff compile_drops
      compiled_pattern_covers [where normal = normal, OF assms])

lemma glob_patterns_empty:
  "compile_glob_patterns (Some raws) normal = [] \<longleftrightarrow> (\<forall>raw\<in>set raws. normal raw = [])"
  by (auto simp: compile_glob_patterns_def filter_empty_conv compile_drops)

section \<open>What a policy means\<close>

text \<open>A list entry covers a tool when it names its group or a wildcard for its name.\<close>

definition covers :: "string \<Rightarrow> string \<Rightarrow> bool" where
  "covers item name \<longleftrightarrow>
     (\<exists>v\<in>set (expand_group (normalize_tool_name item)). v \<noteq> [] \<and> wildcard v (normalize_tool_name name))"

lemma set_unique_strings [simp]: "set (unique_strings xs) = set xs"
proof -
  have "set (unique_loop out xs) = set out \<union> set xs" for out by (induction xs arbitrary: out) auto
  then show ?thesis by (simp add: unique_strings_def)
qed

lemma normalize_tool_name_idem [simp]: "normalize_tool_name (normalize_tool_name n) = normalize_tool_name n"
proof -
  have "py_lower (py_strip x) = x \<Longrightarrow> normalize_tool_name x = (case dict_get TOOL_NAME_ALIASES x of Some a \<Rightarrow> a | None \<Rightarrow> x)" for x
    by (simp add: normalize_tool_name_def Let_def)
  moreover have "py_lower (py_strip ''exec'') = ''exec''" "py_lower (py_strip ''apply_patch'') = ''apply_patch''"
    by code_simp+
  moreover have "py_lower (py_strip (py_lower (py_strip n))) = py_lower (py_strip n)" by (simp add: py_strip_lower)
  ultimately show ?thesis
    by (simp add: normalize_tool_name_def [of n] TOOL_NAME_ALIASES_def Let_def)
qed

lemma group_members:
  "list_all (\<lambda>(k, g). list_all (\<lambda>t. normalize_tool_name t = t \<and> t \<noteq> [] \<and> dict_get TOOL_GROUPS t = None) g) TOOL_GROUPS"
  by code_simp

lemma expand_group_member:
  assumes "v \<in> set (expand_group x)" "normalize_tool_name x = x" "x \<noteq> []"
  shows "normalize_tool_name v = v" "v \<noteq> []" "expand_group v = [v]"
proof -
  have "v = x \<and> dict_get TOOL_GROUPS x = None \<or> normalize_tool_name v = v \<and> v \<noteq> [] \<and> dict_get TOOL_GROUPS v = None"
  proof (cases "dict_get TOOL_GROUPS x")
    case (Some g)
    with assms(1) have "(x, g) \<in> set TOOL_GROUPS" "v \<in> set g" by (simp_all add: expand_group_def dict_get_in_set)
    then show ?thesis using group_members unfolding list_all_iff by fastforce
  qed (use assms(1) in \<open>simp add: expand_group_def\<close>)
  with assms show "normalize_tool_name v = v" "v \<noteq> []" "expand_group v = [v]" by (auto simp: expand_group_def)
qed

lemma set_expand_tool_groups:
  "set (expand_tool_groups (Some l)) =
     {v. \<exists>item\<in>set l. normalize_tool_name item \<noteq> [] \<and> v \<in> set (expand_group (normalize_tool_name item))}"
  by (auto simp: expand_tool_groups_def normalize_tool_list_def)

lemma expanded_normal:
  assumes "v \<in> set (expand_tool_groups (Some l))"
  shows "normalize_tool_name v = v" "v \<noteq> []" "expand_group v = [v]"
  using assms by (auto simp: set_expand_tool_groups dest: expand_group_member)

lemma covers_empty: "normalize_tool_name item = [] \<Longrightarrow> \<not> covers item name"
  by (simp add: covers_def expand_group_def TOOL_GROUPS_def)

text \<open>Expanding a list, once or twice, keeps what it covers.\<close>

lemma covered_expanded:
  "(\<exists>v\<in>set (expand_tool_groups (Some l)). covers v name) \<longleftrightarrow> (\<exists>item\<in>set l. covers item name)"
proof -
  have "covers v name \<longleftrightarrow> wildcard v (normalize_tool_name name)" if "v \<in> set (expand_tool_groups (Some l))" for v
    using expanded_normal [OF that] by (simp add: covers_def)
  then have "(\<exists>v\<in>set (expand_tool_groups (Some l)). covers v name) \<longleftrightarrow>
      (\<exists>v\<in>set (expand_tool_groups (Some l)). wildcard v (normalize_tool_name name))" by blast
  also have "\<dots> \<longleftrightarrow> (\<exists>item\<in>set l. covers item name)"
    using covers_empty expanded_normal(2) [of _ l] unfolding covers_def set_expand_tool_groups by blast
  finally show ?thesis .
qed

lemma list_covers:
  assumes "newline \<notin> set (normalize_tool_name name)"
  shows "matches_any_glob_pattern (normalize_tool_name name)
      (compile_glob_patterns (Some (expand_tool_groups (Some l))) normalize_tool_name) \<longleftrightarrow>
    (\<exists>item\<in>set l. covers item name)"
proof -
  have "covers v name \<longleftrightarrow> normalize_tool_name v \<noteq> [] \<and> wildcard (normalize_tool_name v) (normalize_tool_name name)"
    if "v \<in> set (expand_tool_groups (Some l))" for v
    using expanded_normal [OF that] by (simp add: covers_def)
  then have "(\<exists>v\<in>set (expand_tool_groups (Some l)). covers v name) \<longleftrightarrow>
      (\<exists>v\<in>set (expand_tool_groups (Some l)). normalize_tool_name v \<noteq> [] \<and> wildcard (normalize_tool_name v) (normalize_tool_name name))"
    by blast
  then show ?thesis using glob_patterns_cover [OF assms, where normal = normalize_tool_name] covered_expanded by simp
qed

lemma expand_nothing: "expand_tool_groups (Some l) = [] \<longleftrightarrow> (\<forall>item\<in>set l. normalize_tool_name item = [])"
proof -
  have "\<exists>v. v \<in> set (expand_group x)" for x
  proof (cases "dict_get TOOL_GROUPS x")
    case (Some g)
    then have "(x, g) \<in> set TOOL_GROUPS" by (rule dict_get_in_set)
    moreover have "list_all (\<lambda>(k, g). g \<noteq> []) TOOL_GROUPS" by code_simp
    ultimately have "g \<noteq> []" by (auto simp: list_all_iff)
    then show ?thesis using Some by (auto simp: expand_group_def intro: hd_in_set)
  qed (simp add: expand_group_def)
  then have "(\<exists>v. v \<in> set (expand_tool_groups (Some l))) \<longleftrightarrow> (\<exists>item\<in>set l. normalize_tool_name item \<noteq> [])"
    unfolding set_expand_tool_groups by blast
  then show ?thesis by (cases "expand_tool_groups (Some l)") auto
qed

lemma expanded_nothing:
  "(\<forall>v\<in>set (expand_tool_groups (Some l)). normalize_tool_name v = []) \<longleftrightarrow> expand_tool_groups (Some l) = []"
  using expanded_normal(1,2) [of "hd (expand_tool_groups (Some l))" l]
  by (cases "expand_tool_groups (Some l)") simp_all

lemma expanded_empty:
  "compile_glob_patterns (Some (expand_tool_groups (Some l))) normalize_tool_name = [] \<longleftrightarrow>
    (\<forall>item\<in>set l. normalize_tool_name item = [])"
  by (simp add: glob_patterns_empty expanded_nothing expand_nothing)

lemma is_tool_allowed_iff:
  assumes "newline \<notin> set (normalize_tool_name name)"
  shows "is_tool_allowed \<lparr> tl_allow = Some allow, tl_deny = Some deny \<rparr> name \<longleftrightarrow>
    \<not> (\<exists>item\<in>set deny. covers item name) \<and>
    ((\<forall>item\<in>set allow. normalize_tool_name item = []) \<or> (\<exists>item\<in>set allow. covers item name))"
  by (simp add: is_tool_allowed_def classify_tool_against_sandbox_tool_policy_def Let_def list_covers [OF assms]
      expanded_empty) blast

section \<open>What the configuration means\<close>

text \<open>The lists that hold for an agent, and the entries that allow a tool explicitly.\<close>

definition configured_list ::
    "(string \<times> pyval) list option \<Rightarrow> string option \<Rightarrow> string \<Rightarrow> pyval list option" where
  "configured_list cfg agent_id k = fst (configured cfg agent_id k)"

definition listed_values :: "pyval list option \<Rightarrow> pyval list" where
  "listed_values l = (case l of None \<Rightarrow> [] | Some vs \<Rightarrow> vs)"

definition some_covers :: "pyval list \<Rightarrow> string \<Rightarrow> bool" where
  "some_covers vs name \<longleftrightarrow> (\<exists>v\<in>set vs. covers (the_str v) name)"

definition explicit_entries :: "(string \<times> pyval) list option \<Rightarrow> string option \<Rightarrow> pyval list" where
  "explicit_entries cfg agent_id =
     listed_values (configured_list cfg agent_id ''allow'') @ listed_values (configured_list cfg agent_id ''alsoAllow'')"

definition tool_denied :: "(string \<times> pyval) list option \<Rightarrow> string option \<Rightarrow> string \<Rightarrow> bool" where
  "tool_denied cfg agent_id name \<longleftrightarrow>
     (case configured_list cfg agent_id ''deny'' of
        Some deny \<Rightarrow> some_covers deny name
      | None \<Rightarrow> normalize_tool_name name \<in> set DEFAULT_TOOL_DENY \<and>
          \<not> some_covers (explicit_entries cfg agent_id) name)"

definition allowing_entries :: "(string \<times> pyval) list option \<Rightarrow> string option \<Rightarrow> pyval list" where
  "allowing_entries cfg agent_id =
     (case configured_list cfg agent_id ''allow'' of
        Some allow \<Rightarrow> if allow = [] then [] else allow @ listed_values (configured_list cfg agent_id ''alsoAllow'')
      | None \<Rightarrow> map VStr DEFAULT_TOOL_ALLOW @ listed_values (configured_list cfg agent_id ''alsoAllow''))"

definition tool_listed :: "(string \<times> pyval) list option \<Rightarrow> string option \<Rightarrow> string \<Rightarrow> bool" where
  "tool_listed cfg agent_id name \<longleftrightarrow>
     (\<forall>v\<in>set (allowing_entries cfg agent_id). normalize_tool_name (the_str v) = []) \<or>
     some_covers (allowing_entries cfg agent_id) name \<or> normalize_tool_name name = ''image''"

lemma need_names: "map_res need_name vs = Inr names \<Longrightarrow> names = map the_str vs"
proof (induction vs arbitrary: names)
  case (Cons v vs)
  then show ?case by (cases v) (auto simp: bind_res_eq_Inr)
qed simp

lemma expand_tool_values_Inr: "expand_tool_values vs = Inr e \<Longrightarrow> e = expand_tool_groups (Some (map the_str vs))"
  by (auto simp: expand_tool_values_def bind_res_eq_Inr dest: need_names)

lemma merge_allowlist_set:
  "merge_allowlist (configured_list cfg a ''allow'') (configured_list cfg a ''alsoAllow'') = Inr allow \<Longrightarrow>
   set allow = set (allowing_entries cfg a)"
  by (auto simp: merge_allowlist_def allowing_entries_def unique_values_def listed_values_def
      split: option.splits if_splits)

lemma some_covers_set: "set vs = set ws \<Longrightarrow> some_covers vs name = some_covers ws name"
  by (simp add: some_covers_def)

lemma unique_values_set: "unique_values vs = Inr ws \<Longrightarrow> set ws = set vs"
  by (auto simp: unique_values_def split: if_splits)

lemma explicit_set:
  "resolve_explicit_reallow (configured_list cfg a ''allow'') (configured_list cfg a ''alsoAllow'') = Inr explicit \<Longrightarrow>
   set explicit = set (explicit_entries cfg a)"
  unfolding resolve_explicit_reallow_def explicit_entries_def listed_values_def by (rule unique_values_set)

lemma plain_covers:
  "normalize_tool_name t = t \<Longrightarrow> dict_get TOOL_GROUPS t = None \<Longrightarrow> t \<noteq> [] \<Longrightarrow> CHR ''*'' \<notin> set t \<Longrightarrow>
   covers t name \<longleftrightarrow> normalize_tool_name name = t"
  by (auto simp: covers_def expand_group_def wildcard_plain)

lemma default_deny_plain:
  "list_all (\<lambda>t. normalize_tool_name t = t \<and> dict_get TOOL_GROUPS t = None \<and> t \<noteq> [] \<and> CHR ''*'' \<notin> set t \<and>
      newline \<notin> set t) DEFAULT_TOOL_DENY"
  by code_simp

lemma default_deny_meaning:
  assumes "filter_default_deny_for_explicit_allows DEFAULT_TOOL_DENY explicit = Inr deny"
    and "newline \<notin> set (normalize_tool_name name)"
  shows "some_covers (map VStr deny) name \<longleftrightarrow>
    normalize_tool_name name \<in> set DEFAULT_TOOL_DENY \<and> \<not> some_covers explicit name"
proof -
  have plain: "covers t name \<longleftrightarrow> normalize_tool_name name = t" if "t \<in> set DEFAULT_TOOL_DENY" for t
    using default_deny_plain that by (intro plain_covers) (auto simp: list_all_iff)
  have "deny = filter (\<lambda>t. \<not> some_covers explicit t) DEFAULT_TOOL_DENY"
  proof (cases "explicit = []")
    case True
    with assms(1) show ?thesis by (simp add: filter_default_deny_for_explicit_allows_def some_covers_def)
  next
    case False
    let ?p = "compile_glob_patterns (Some (expand_tool_groups (Some (map the_str explicit)))) normalize_tool_name"
    have p: "matches_any_glob_pattern (normalize_tool_name t) ?p \<longleftrightarrow> some_covers explicit t"
      if "t \<in> set DEFAULT_TOOL_DENY" for t
      using default_deny_plain that by (subst list_covers) (auto simp: list_all_iff some_covers_def)
    have "deny = (if ?p = [] then DEFAULT_TOOL_DENY
        else filter (\<lambda>t. \<not> matches_any_glob_pattern (normalize_tool_name t) ?p) DEFAULT_TOOL_DENY)"
      using False assms(1) by (auto simp: filter_default_deny_for_explicit_allows_def bind_res_eq_Inr Let_def
          dest!: expand_tool_values_Inr split: if_splits)
    also have "\<dots> = filter (\<lambda>t. \<not> matches_any_glob_pattern (normalize_tool_name t) ?p) DEFAULT_TOOL_DENY"
      by (simp add: matches_any_glob_pattern_def)
    also have "\<dots> = filter (\<lambda>t. \<not> some_covers explicit t) DEFAULT_TOOL_DENY"
      by (rule filter_cong) (simp_all add: p)
    finally show ?thesis .
  qed
  moreover have "some_covers explicit t \<longleftrightarrow> some_covers explicit name"
    if "t \<in> set DEFAULT_TOOL_DENY" "normalize_tool_name name = t" for t
    using default_deny_plain that by (auto simp: some_covers_def covers_def list_all_iff)
  ultimately show ?thesis using plain unfolding some_covers_def by auto
qed


definition demo_policy_config :: "(string \<times> pyval) list" where
  "demo_policy_config =
     [(''agents'', VDict [(''list'', VList [VDict [(''id'', VStr ''ops''), (''tools'', VDict [(''sandbox'', VDict
         [(''tools'', VDict [(''alsoAllow'', VList [VStr ''mail*''])])])])]])]),
      (''tools'', VDict [(''sandbox'', VDict [(''tools'', VDict
         [(''allow'', VList [VStr ''read'']), (''deny'', VList [VStr ''bash''])])])])]"

definition demo_policy :: resolved_tool_policy where
  "demo_policy =
     \<lparr> rt_allow = [''read'', ''mail*'', ''image''], rt_deny = [''exec''],
       rt_allow_source = \<lparr> ps_source = AgentScope, ps_key = ''agents.list[].tools.sandbox.tools.alsoAllow'' \<rparr>,
       rt_deny_source = \<lparr> ps_source = GlobalScope, ps_key = ''tools.sandbox.tools.deny'' \<rparr> \<rparr>"

lemma demo_policy_resolved:
  "resolve_sandbox_tool_policy_for_agent (Some demo_policy_config) (Some ''ops'') = Inr demo_policy"
  by code_simp


end
