(* ===== verification/ContextPruning.thy ===== *)
theory ContextPruning
  imports ToolPolicy
begin

text \<open>
  The pruning of old tool results from the context of the model: \<^verbatim>\<open>pruner.py\<close>, \<^verbatim>\<open>tools.py\<close> and
  \<^verbatim>\<open>extension.py\<close> of \<^verbatim>\<open>agents/agent_hooks/context_pruning\<close>, and the estimates of \<^verbatim>\<open>utils/cjk_chars.py\<close>.
  A ratio of the settings is a fraction, and a quotient is compared with it exactly; the code divides
  floats, which agrees as long as the estimate times the denominator is below \<^verbatim>\<open>2^51\<close>. How the
  settings are read from the configuration is not modelled.
\<close>

section \<open>Estimates\<close>

definition CHARS_PER_TOKEN_ESTIMATE :: int where
  "CHARS_PER_TOKEN_ESTIMATE = 4"

definition NON_LATIN_RE :: "nat \<Rightarrow> bool" where
  "NON_LATIN_RE n \<longleftrightarrow>
     (0x2E80 \<le> n \<and> n \<le> 0x9FFF) \<or> (0xA000 \<le> n \<and> n \<le> 0xA4FF) \<or> (0xAC00 \<le> n \<and> n \<le> 0xD7AF) \<or>
     (0xF900 \<le> n \<and> n \<le> 0xFAFF) \<or> (0x20000 \<le> n \<and> n \<le> 0x2FA1F)"

fun cjk_surrogates :: "nat list \<Rightarrow> nat" where
  "cjk_surrogates (h # l # ps) =
     (if 0xD840 \<le> h \<and> h \<le> 0xD87E \<and> 0xDC00 \<le> l \<and> l \<le> 0xDFFF then Suc (cjk_surrogates ps)
      else cjk_surrogates (l # ps))"
| "cjk_surrogates _ = 0"

definition count_code_points :: "nat list \<Rightarrow> nat \<Rightarrow> int" where
  "count_code_points ps non_latin_count =
     (if non_latin_count = 0 then int (length ps) else int (length ps) - int (cjk_surrogates ps))"

definition estimate_code_points :: "nat list \<Rightarrow> int" where
  "estimate_code_points ps =
     (if ps = [] then 0
      else let non_latin_count = length (filter NON_LATIN_RE ps)
           in count_code_points ps non_latin_count + int non_latin_count * (CHARS_PER_TOKEN_ESTIMATE - 1))"

definition estimate_string_chars :: "string \<Rightarrow> int" where
  "estimate_string_chars s = estimate_code_points (map ord_char s)"

text \<open>On the strings of the model, whose code points are below 256, the estimate is the length.\<close>

lemma estimate_string_chars_length [simp]: "estimate_string_chars s = int (length s)"
proof -
  have "\<not> NON_LATIN_RE (ord_char c)" for c using ord_char_less [of c] unfolding NON_LATIN_RE_def by linarith
  then have "filter NON_LATIN_RE (map ord_char s) = []" by (simp add: filter_empty_conv)
  then show ?thesis by (simp add: estimate_string_chars_def estimate_code_points_def count_code_points_def)
qed

definition estimate_tokens_from_chars :: "int \<Rightarrow> int" where
  "estimate_tokens_from_chars chars = (max 0 chars + CHARS_PER_TOKEN_ESTIMATE - 1) div CHARS_PER_TOKEN_ESTIMATE"

section \<open>Messages\<close>

text \<open>
  A message is an instance of one of three classes or a dictionary, and a block of its content likewise.
  A dictionary holds plain values. The fields of an assistant message that pruning never reads are one value.
\<close>

datatype content_item =
    TextContent string
  | ImageContent string string
  | ToolCallContent string string "(string \<times> pyval) list"
  | ItemValue pyval

datatype user_content = UserText string | UserItems "content_item list"

record tool_result_model =
  tr_tool_call_id :: string
  tr_tool_name :: string
  tr_content :: "content_item list"
  tr_is_error :: bool
  tr_timestamp :: int

datatype context_message =
    UserMessage user_content int
  | AssistantMessage "content_item list" pyval
  | ToolResultMessage tool_result_model
  | DictMessage "(string \<times> pyval) list"

definition dict_value :: "(string \<times> pyval) list \<Rightarrow> string \<Rightarrow> pyval" where
  "dict_value d k = (case map_of d k of None \<Rightarrow> VNone | Some v \<Rightarrow> v)"

fun context_role :: "context_message \<Rightarrow> string option" where
  "context_role (DictMessage d) = (case dict_value d ''role'' of VStr r \<Rightarrow> Some r | _ \<Rightarrow> None)"
| "context_role (UserMessage c t) = Some ''user''"
| "context_role (AssistantMessage c r) = Some ''assistant''"
| "context_role (ToolResultMessage t) = Some ''toolResult''"

definition is_thinking :: "pyval \<Rightarrow> bool" where
  "is_thinking b \<longleftrightarrow>
     (case b of VDict d \<Rightarrow> dict_value d ''type'' \<in> {VStr ''thinking'', VStr ''redacted_thinking''} | _ \<Rightarrow> False)"

fun drop_thinking_of :: "context_message \<Rightarrow> context_message" where
  "drop_thinking_of (DictMessage d) =
     (if dict_value d ''role'' \<noteq> VStr ''assistant'' then DictMessage d
      else case dict_value d ''content'' of
        VList content \<Rightarrow>
          (let filtered = filter (\<lambda>b. \<not> is_thinking b) content in
           if length filtered = length content then DictMessage d
           else DictMessage (dict_set d ''content'' (VList filtered)))
      | _ \<Rightarrow> DictMessage d)"
| "drop_thinking_of m = m"

definition drop_thinking_blocks :: "context_message list \<Rightarrow> context_message list" where
  "drop_thinking_blocks messages = map drop_thinking_of messages"

section \<open>Content\<close>

definition IMAGE_CHAR_ESTIMATE :: int where
  "IMAGE_CHAR_ESTIMATE = 8000"

definition PRUNED_CONTEXT_IMAGE_MARKER :: string where
  "PRUNED_CONTEXT_IMAGE_MARKER = ''[image removed during context pruning]''"

fun coerce_text_block :: "content_item \<Rightarrow> string option" where
  "coerce_text_block (TextContent t) = Some t"
| "coerce_text_block (ItemValue (VDict d)) =
     (if d = [] \<or> dict_value d ''type'' \<noteq> VStr ''text'' then None
      else case dict_value d ''text'' of
        VStr t \<Rightarrow> Some t
      | _ \<Rightarrow> (case json_dumps (VDict d) of Inr t \<Rightarrow> Some t | Inl e \<Rightarrow> Some ''[malformed text block]''))"
| "coerce_text_block _ = None"

fun is_image_block :: "content_item \<Rightarrow> bool" where
  "is_image_block (ImageContent d m) \<longleftrightarrow> True"
| "is_image_block (ItemValue (VDict d)) \<longleftrightarrow> d \<noteq> [] \<and> dict_value d ''type'' = VStr ''image''"
| "is_image_block _ \<longleftrightarrow> False"

definition dict_items :: "(string \<times> pyval) list \<Rightarrow> content_item list" where
  "dict_items d = (case dict_value d ''content'' of VList c \<Rightarrow> map ItemValue c | _ \<Rightarrow> [])"

text \<open>Only called on tool results.\<close>

fun tool_result_content :: "context_message \<Rightarrow> content_item list" where
  "tool_result_content (DictMessage d) = dict_items d"
| "tool_result_content (ToolResultMessage t) = tr_content t"
| "tool_result_content _ = []"

definition collect_text_segments :: "content_item list \<Rightarrow> string list" where
  "collect_text_segments content = List.map_filter coerce_text_block content"

definition prunable_segment :: "content_item \<Rightarrow> string option" where
  "prunable_segment b =
     (case coerce_text_block b of
        Some t \<Rightarrow> Some t
      | None \<Rightarrow> if is_image_block b then Some PRUNED_CONTEXT_IMAGE_MARKER else None)"

definition collect_prunable_tool_result_segments :: "content_item list \<Rightarrow> string list" where
  "collect_prunable_tool_result_segments content = List.map_filter prunable_segment content"

definition estimate_joined_text_length :: "string list \<Rightarrow> int" where
  "estimate_joined_text_length parts =
     (if parts = [] then 0 else sum_list (map (int \<circ> length) parts) + max 0 (int (length parts) - 1))"

text \<open>The loop of \<^verbatim>\<open>_take_head_from_joined_text\<close>; the flag is \<^verbatim>\<open>i > 0\<close>.\<close>

fun take_head_loop :: "bool \<Rightarrow> int \<Rightarrow> string list \<Rightarrow> string" where
  "take_head_loop later remaining [] = []"
| "take_head_loop later remaining (p # ps) =
     (let sep = (if later then nl else []); remaining' = (if later then remaining - 1 else remaining) in
      if later \<and> remaining' \<le> 0 then sep
      else if int (length p) \<le> remaining' then sep @ p @ take_head_loop True (remaining' - int (length p)) ps
      else sep @ take (nat remaining') p)"

definition take_head_from_joined_text :: "string list \<Rightarrow> int \<Rightarrow> string" where
  "take_head_from_joined_text parts max_chars =
     (if max_chars \<le> 0 \<or> parts = [] then [] else take_head_loop False max_chars parts)"

text \<open>
  The loop of \<^verbatim>\<open>_take_tail_from_joined_text\<close> over the parts from the last one on; the chunks are joined in
  reverse, so that each goes in front of what was taken before.
\<close>

fun take_tail_loop :: "int \<Rightarrow> string list \<Rightarrow> string \<Rightarrow> string" where
  "take_tail_loop remaining [] taken = taken"
| "take_tail_loop remaining (p # ps) taken =
     (if int (length p) \<le> remaining then
        (let remaining' = remaining - int (length p) in
         if 0 < remaining' \<and> ps \<noteq> [] then take_tail_loop (remaining' - 1) ps (nl @ p @ taken)
         else take_tail_loop remaining' ps (p @ taken))
      else drop (length p - nat remaining) p @ taken)"

definition take_tail_from_joined_text :: "string list \<Rightarrow> int \<Rightarrow> string" where
  "take_tail_from_joined_text parts max_chars =
     (if max_chars \<le> 0 \<or> parts = [] then [] else take_tail_loop max_chars (rev parts) [])"

definition has_image_blocks :: "content_item list \<Rightarrow> bool" where
  "has_image_blocks content \<longleftrightarrow> list_ex is_image_block content"

definition text_and_image_chars :: "content_item \<Rightarrow> int" where
  "text_and_image_chars b =
     (case coerce_text_block b of
        Some t \<Rightarrow> estimate_string_chars t
      | None \<Rightarrow> if is_image_block b then IMAGE_CHAR_ESTIMATE else 0)"

definition estimate_text_and_image_chars :: "content_item list \<Rightarrow> int" where
  "estimate_text_and_image_chars content = sum_list (map text_and_image_chars content)"

definition text_chars :: "pyval \<Rightarrow> int" where
  "text_chars v = (case v of VStr t \<Rightarrow> estimate_string_chars t | _ \<Rightarrow> 0)"

definition arguments_chars :: "pyval \<Rightarrow> int" where
  "arguments_chars v = (case json_dumps v of Inr t \<Rightarrow> int (length t) | Inl e \<Rightarrow> 128)"

fun assistant_item_chars :: "content_item \<Rightarrow> int" where
  "assistant_item_chars (ToolCallContent i n arguments) = arguments_chars (VDict arguments)"
| "assistant_item_chars (TextContent t) = estimate_string_chars t"
| "assistant_item_chars (ItemValue (VDict d)) =
     (let btype = dict_value d ''type'' in
      (if btype = VStr ''text'' then text_chars (dict_value d ''text'') else 0)
      + (if btype \<in> {VStr ''thinking'', VStr ''redacted_thinking''} then
           text_chars (dict_value d ''thinking'')
           + (if btype = VStr ''redacted_thinking'' then text_chars (dict_value d ''data'') else 0)
           + text_chars (dict_value d ''thinkingSignature'')
         else 0)
      + (if btype = VStr ''toolCall'' then arguments_chars (py_or (dict_value d ''arguments'') (VDict [])) else 0))"
| "assistant_item_chars _ = 0"

definition estimate_message_chars :: "context_message \<Rightarrow> int" where
  "estimate_message_chars message =
     (if context_role message = Some ''user'' then
        (case message of
           UserMessage (UserText t) _ \<Rightarrow> estimate_string_chars t
         | UserMessage (UserItems c) _ \<Rightarrow> estimate_text_and_image_chars c
         | DictMessage d \<Rightarrow>
             (case dict_value d ''content'' of
                VStr t \<Rightarrow> estimate_string_chars t
              | VList c \<Rightarrow> estimate_text_and_image_chars (map ItemValue c)
              | _ \<Rightarrow> 256)
         | _ \<Rightarrow> 256)
      else if context_role message = Some ''assistant'' then
        (case message of
           AssistantMessage c _ \<Rightarrow> sum_list (map assistant_item_chars c)
         | DictMessage d \<Rightarrow> sum_list (map assistant_item_chars (dict_items d))
         | _ \<Rightarrow> 256)
      else if context_role message = Some ''toolResult'' then
        estimate_text_and_image_chars (tool_result_content message)
      else 256)"

section \<open>Settings\<close>

record tool_match =
  tm_allow :: "string list option"
  tm_deny :: "string list option"

record soft_trim_settings =
  st_max_chars :: int
  st_head_chars :: int
  st_tail_chars :: int

record hard_clear_settings =
  hc_enabled :: bool
  hc_placeholder :: string

text \<open>The mode has one value. A ratio is a numerator and a positive denominator.\<close>

record pruning_settings =
  pr_ttl_ms :: int
  pr_keep_last_assistants :: int
  pr_soft_trim_ratio :: "int \<times> int"
  pr_hard_clear_ratio :: "int \<times> int"
  pr_min_prunable_tool_chars :: int
  pr_tools :: tool_match
  pr_soft_trim :: soft_trim_settings
  pr_hard_clear :: hard_clear_settings

definition DEFAULT_CONTEXT_PRUNING_SETTINGS :: pruning_settings where
  "DEFAULT_CONTEXT_PRUNING_SETTINGS =
     \<lparr> pr_ttl_ms = 300000, pr_keep_last_assistants = 3, pr_soft_trim_ratio = (3, 10),
       pr_hard_clear_ratio = (5, 10), pr_min_prunable_tool_chars = 50000,
       pr_tools = \<lparr> tm_allow = None, tm_deny = None \<rparr>,
       pr_soft_trim = \<lparr> st_max_chars = 4000, st_head_chars = 1500, st_tail_chars = 1500 \<rparr>,
       pr_hard_clear = \<lparr> hc_enabled = True, hc_placeholder = ''[Old tool result content cleared]'' \<rparr> \<rparr>"

definition ratio_less :: "int \<Rightarrow> int \<Rightarrow> int \<times> int \<Rightarrow> bool" where
  "ratio_less total_chars char_window r \<longleftrightarrow> total_chars * snd r < fst r * char_window"

definition normalize_glob :: "string \<Rightarrow> string" where
  "normalize_glob value = py_lower (py_strip value)"

definition make_tool_prunable_predicate :: "tool_match \<Rightarrow> string \<Rightarrow> bool" where
  "make_tool_prunable_predicate match tool_name \<longleftrightarrow>
     (let deny = compile_glob_patterns (tm_deny match) normalize_glob;
          allow = compile_glob_patterns (tm_allow match) normalize_glob;
          normalized = normalize_glob tool_name
      in if matches_any_glob_pattern normalized deny then False
         else if allow = [] then True
         else matches_any_glob_pattern normalized allow)"

section \<open>Pruning\<close>

text \<open>The index of the assistant message at which the count runs out, from the end.\<close>

fun cutoff_loop :: "int \<Rightarrow> context_message list \<Rightarrow> nat option" where
  "cutoff_loop remaining [] = None"
| "cutoff_loop remaining (m # earlier) =
     (if context_role m \<noteq> Some ''assistant'' then cutoff_loop remaining earlier
      else if remaining - 1 = 0 then Some (length earlier)
      else cutoff_loop (remaining - 1) earlier)"

definition find_assistant_cutoff_index :: "context_message list \<Rightarrow> int \<Rightarrow> nat option" where
  "find_assistant_cutoff_index messages keep_last_assistants =
     (if keep_last_assistants \<le> 0 then Some (length messages)
      else cutoff_loop keep_last_assistants (rev messages))"

definition find_first_user_index :: "context_message list \<Rightarrow> nat option" where
  "find_first_user_index messages = find_index (\<lambda>m. context_role m = Some ''user'') messages"

text \<open>A tool result with one block of text for its content.\<close>

fun with_text :: "context_message \<Rightarrow> string \<Rightarrow> context_message" where
  "with_text (DictMessage d) t =
     DictMessage (dict_set d ''content'' (VList [VDict [(''type'', VStr ''text''), (''text'', VStr t)]]))"
| "with_text (ToolResultMessage r) t = ToolResultMessage (r\<lparr> tr_content := [TextContent t] \<rparr>)"
| "with_text m t = m"

definition trim_note :: "int \<Rightarrow> int \<Rightarrow> int \<Rightarrow> string" where
  "trim_note head_chars tail_chars raw_len =
     nl @ nl @ ''[Tool result trimmed: kept first '' @ str_of_int head_chars @ '' chars and last ''
     @ str_of_int tail_chars @ '' chars of '' @ str_of_int raw_len @ '' chars.]''"

definition soft_trim_tool_result_message :: "context_message \<Rightarrow> pruning_settings \<Rightarrow> context_message option" where
  "soft_trim_tool_result_message msg settings =
     (let content = tool_result_content msg;
          has_images = has_image_blocks content;
          parts = (if has_images then collect_prunable_tool_result_segments content else collect_text_segments content);
          raw_len = estimate_joined_text_length parts;
          st = pr_soft_trim settings;
          head_chars = max 0 (st_head_chars st);
          tail_chars = max 0 (st_tail_chars st)
      in if raw_len \<le> st_max_chars st then (if has_images then Some (with_text msg (py_join nl parts)) else None)
         else if raw_len \<le> head_chars + tail_chars then
           (if has_images then Some (with_text msg (py_join nl parts)) else None)
         else
           let head = take_head_from_joined_text parts head_chars;
               tail = take_tail_from_joined_text parts tail_chars
           in Some (with_text msg (head @ nl @ ''...'' @ nl @ tail @ trim_note head_chars tail_chars raw_len)))"

definition get_tool_name :: "context_message \<Rightarrow> string" where
  "get_tool_name msg =
     (case msg of
        ToolResultMessage t \<Rightarrow> tr_tool_name t
      | DictMessage d \<Rightarrow>
          (case py_or (dict_value d ''toolName'') (dict_value d ''tool_name'') of VStr n \<Rightarrow> n | _ \<Rightarrow> [])
      | _ \<Rightarrow> [])"

text \<open>
  The state of the loops: the running estimate, the positions that may be pruned, and the copy of the
  list once there is one.
\<close>

record prune_state =
  ps_total :: int
  ps_indexes :: "nat list"
  ps_next :: "context_message list option"

definition current_messages :: "context_message list \<Rightarrow> prune_state \<Rightarrow> context_message list" where
  "current_messages messages s = (case ps_next s of Some l \<Rightarrow> l | None \<Rightarrow> messages)"

definition replace_message :: "context_message list \<Rightarrow> nat \<Rightarrow> context_message \<Rightarrow> context_message \<Rightarrow> prune_state \<Rightarrow> prune_state" where
  "replace_message messages i before after s =
     s\<lparr> ps_total := ps_total s + (estimate_message_chars after - estimate_message_chars before),
        ps_next := Some ((current_messages messages s)[i := after]) \<rparr>"

definition soft_step ::
    "context_message list \<Rightarrow> pruning_settings \<Rightarrow> (string \<Rightarrow> bool) \<Rightarrow> nat \<Rightarrow> prune_state \<Rightarrow> prune_state" where
  "soft_step messages settings tool_prunable i s =
     (if \<not> i < length messages \<or> context_role (messages ! i) \<noteq> Some ''toolResult'' then s
      else if \<not> tool_prunable (get_tool_name (messages ! i)) then s
      else let s' = s\<lparr> ps_indexes := ps_indexes s @ [i] \<rparr> in
        case soft_trim_tool_result_message (messages ! i) settings of
          None \<Rightarrow> s'
        | Some updated \<Rightarrow> replace_message messages i (messages ! i) updated s')"

definition soft_phase ::
    "context_message list \<Rightarrow> pruning_settings \<Rightarrow> (string \<Rightarrow> bool) \<Rightarrow> nat list \<Rightarrow> int \<Rightarrow> prune_state" where
  "soft_phase messages settings tool_prunable positions total_chars =
     fold (soft_step messages settings tool_prunable) positions
       \<lparr> ps_total = total_chars, ps_indexes = [], ps_next = None \<rparr>"

definition prunable_chars :: "context_message list \<Rightarrow> nat list \<Rightarrow> int" where
  "prunable_chars messages indexes =
     sum_list (map (\<lambda>i. if i < length messages \<and> context_role (messages ! i) = Some ''toolResult''
                        then estimate_message_chars (messages ! i) else 0) indexes)"

fun clear_loop :: "context_message list \<Rightarrow> pruning_settings \<Rightarrow> int \<Rightarrow> nat list \<Rightarrow> prune_state \<Rightarrow> prune_state" where
  "clear_loop messages settings char_window [] s = s"
| "clear_loop messages settings char_window (i # is) s =
     (if ratio_less (ps_total s) char_window (pr_hard_clear_ratio settings) then s
      else
        let source = current_messages messages s in
        if \<not> i < length source \<or> context_role (source ! i) \<noteq> Some ''toolResult''
        then clear_loop messages settings char_window is s
        else clear_loop messages settings char_window is
               (replace_message messages i (source ! i)
                  (with_text (source ! i) (hc_placeholder (pr_hard_clear settings))) s))"

definition hard_phase :: "context_message list \<Rightarrow> pruning_settings \<Rightarrow> int \<Rightarrow> prune_state \<Rightarrow> prune_state" where
  "hard_phase messages settings char_window s =
     (if ratio_less (ps_total s) char_window (pr_hard_clear_ratio settings) then s
      else if \<not> hc_enabled (pr_hard_clear settings) then s
      else if prunable_chars (current_messages messages s) (ps_indexes s) < pr_min_prunable_tool_chars settings then s
      else clear_loop messages settings char_window (ps_indexes s) s)"

text \<open>
  The window comes from the override when it is positive and from the model otherwise. The result is
  \<^term>\<open>None\<close> when the code returns the list it was given.
\<close>

definition prune_context_messages ::
    "context_message list \<Rightarrow> pruning_settings \<Rightarrow> int option \<Rightarrow> (string \<Rightarrow> bool) option \<Rightarrow> int option \<Rightarrow> bool
      \<Rightarrow> context_message list option" where
  "prune_context_messages messages settings model_window is_tool_prunable override drop_thinking =
     (let window = (case override of Some w \<Rightarrow> if 0 < w then Some w else model_window | None \<Rightarrow> model_window) in
      case window of
        None \<Rightarrow> None
      | Some context_window_tokens \<Rightarrow>
          if context_window_tokens \<le> 0 then None
          else
            let char_window = context_window_tokens * CHARS_PER_TOKEN_ESTIMATE in
            case find_assistant_cutoff_index messages (pr_keep_last_assistants settings) of
              None \<Rightarrow> None
            | Some cutoff_index \<Rightarrow>
                let prune_start_index =
                      (case find_first_user_index messages of None \<Rightarrow> length messages | Some i \<Rightarrow> i);
                    tool_prunable =
                      (case is_tool_prunable of Some p \<Rightarrow> p | None \<Rightarrow> make_tool_prunable_predicate (pr_tools settings));
                    estimated_messages = (if drop_thinking then drop_thinking_blocks messages else messages);
                    total_chars = sum_list (map estimate_message_chars estimated_messages)
                in if ratio_less total_chars char_window (pr_soft_trim_ratio settings) then None
                   else ps_next (hard_phase messages settings char_window
                     (soft_phase messages settings tool_prunable [prune_start_index..<cutoff_index] total_chars)))"

section \<open>The handler of the session\<close>

record pruning_runtime =
  rv_settings :: pruning_settings
  rv_is_tool_prunable :: "string \<Rightarrow> bool"
  rv_drop_thinking_blocks :: bool
  rv_context_window_tokens :: "int option"
  rv_last_cache_touch_at :: "int option"

text \<open>
  Times are whole milliseconds: the difference to the last touch is compared with a whole number, for
  which the fraction that the clock has in the code is of no account. The clock is read twice.
\<close>

definition on_context ::
    "int \<Rightarrow> int \<Rightarrow> context_message list \<Rightarrow> int option \<Rightarrow> pruning_runtime option
      \<Rightarrow> context_message list option \<times> pruning_runtime option" where
  "on_context now later messages model_window runtime =
     (case runtime of
        None \<Rightarrow> (None, None)
      | Some r \<Rightarrow>
          let ttl_ms = pr_ttl_ms (rv_settings r) in
          case rv_last_cache_touch_at r of
            None \<Rightarrow> (None, Some r)
          | Some last_touch \<Rightarrow>
              if last_touch = 0 \<or> ttl_ms \<le> 0 then (None, Some r)
              else if now - last_touch < ttl_ms then (None, Some r)
              else
                case prune_context_messages messages (rv_settings r) model_window (Some (rv_is_tool_prunable r))
                    (rv_context_window_tokens r) (rv_drop_thinking_blocks r) of
                  None \<Rightarrow> (None, Some r)
                | Some next_messages \<Rightarrow> (Some next_messages, Some (r\<lparr> rv_last_cache_touch_at := Some later \<rparr>)))"

section \<open>What pruning touches\<close>

lemma dict_set_set [simp]: "dict_set (dict_set d k v) k w = dict_set d k w"
  by (induction d k v rule: dict_set.induct) auto

lemma dict_value_set [simp]: "dict_value (dict_set d k v) k' = (if k' = k then v else dict_value d k')"
  using dict_get_set [of d k v k'] by (simp add: dict_value_def dict_get_def)

lemma with_text_twice [simp]: "with_text (with_text m t) u = with_text m u"
  by (cases m) simp_all

lemma role_with_text [simp]: "context_role (with_text m t) = context_role m"
  by (cases m) simp_all

lemma soft_trim_text:
  "soft_trim_tool_result_message msg settings = Some m \<Longrightarrow> \<exists>t. m = with_text msg t"
  by (auto simp: soft_trim_tool_result_message_def Let_def split: if_splits)

definition prunable :: "context_message list \<Rightarrow> (string \<Rightarrow> bool) \<Rightarrow> nat \<Rightarrow> bool" where
  "prunable messages p i \<longleftrightarrow>
     i < length messages \<and> context_role (messages ! i) = Some ''toolResult'' \<and> p (get_tool_name (messages ! i))"

definition chars_of :: "context_message list \<Rightarrow> int" where
  "chars_of messages = sum_list (map estimate_message_chars messages)"

text \<open>
  What holds between the steps: the list keeps its length, a message that differs is one of the positions
  seen with another text, and the running estimate is off from that of the list by what it was at first.
\<close>

definition prune_ok :: "context_message list \<Rightarrow> int \<Rightarrow> prune_state \<Rightarrow> bool" where
  "prune_ok messages sum0 s \<longleftrightarrow>
     length (current_messages messages s) = length messages \<and>
     (\<forall>i<length messages. current_messages messages s ! i = messages ! i \<or>
        i \<in> set (ps_indexes s) \<and> (\<exists>t. current_messages messages s ! i = with_text (messages ! i) t)) \<and>
     ps_total s - chars_of (current_messages messages s) = sum0 - chars_of messages"

lemma chars_of_update:
  "i < length l \<Longrightarrow> chars_of (l[i := m]) = chars_of l + (estimate_message_chars m - estimate_message_chars (l ! i))"
proof (induction l arbitrary: i)
  case (Cons x l)
  then show ?case by (cases i) (auto simp: chars_of_def)
qed simp

lemma current_replace [simp]:
  "current_messages messages (replace_message messages i b m s) = (current_messages messages s)[i := m]"
  "ps_indexes (replace_message messages i b m s) = ps_indexes s"
  "ps_total (replace_message messages i b m s) = ps_total s + (estimate_message_chars m - estimate_message_chars b)"
  by (simp_all add: replace_message_def current_messages_def)

lemma replace_ok:
  assumes "prune_ok messages sum0 s" "i < length messages" "i \<in> set (ps_indexes s)"
    and "b = current_messages messages s ! i"
  shows "prune_ok messages sum0 (replace_message messages i b (with_text b t) s)"
proof -
  have "\<exists>u. with_text b t = with_text (messages ! i) u" using assms unfolding prune_ok_def by (metis with_text_twice)
  then show ?thesis using assms by (auto simp: prune_ok_def chars_of_update nth_list_update)
qed

lemma soft_step_ok:
  assumes "prune_ok messages sum0 s" "i < length messages \<Longrightarrow> current_messages messages s ! i = messages ! i"
  shows "prune_ok messages sum0 (soft_step messages settings p i s)"
proof -
  let ?s = "s\<lparr> ps_indexes := ps_indexes s @ [i] \<rparr>"
  have s: "current_messages messages ?s = current_messages messages s" by (simp add: current_messages_def)
  then have "prune_ok messages sum0 ?s" using assms(1) unfolding prune_ok_def by auto
  then show ?thesis
    using assms s by (auto simp: soft_step_def Let_def dest!: soft_trim_text split: option.split intro: replace_ok)
qed

lemma soft_step_indexes: "ps_indexes (soft_step messages settings p i s) = ps_indexes s @ (if prunable messages p i then [i] else [])"
  by (auto simp: soft_step_def prunable_def Let_def split: option.split)

lemma soft_step_other: "j \<noteq> i \<Longrightarrow> current_messages messages (soft_step messages settings p i s) ! j = current_messages messages s ! j"
  by (auto simp: soft_step_def Let_def current_messages_def replace_message_def split: option.split)

lemma soft_fold:
  assumes "prune_ok messages sum0 s" "distinct is"
    and "\<And>i. i \<in> set is \<Longrightarrow> i < length messages \<Longrightarrow> current_messages messages s ! i = messages ! i"
  shows "prune_ok messages sum0 (fold (soft_step messages settings p) is s) \<and>
    ps_indexes (fold (soft_step messages settings p) is s) = ps_indexes s @ filter (prunable messages p) is"
  using assms
proof (induction "is" arbitrary: s)
  case (Cons i "is")
  have "prune_ok messages sum0 (soft_step messages settings p i s)"
    using Cons.prems by (intro soft_step_ok) auto
  moreover have "current_messages messages (soft_step messages settings p i s) ! j = messages ! j"
    if "j \<in> set is" "j < length messages" for j
    using that Cons.prems by (subst soft_step_other) auto
  ultimately show ?case using Cons.IH [of "soft_step messages settings p i s"] Cons.prems(2)
    by (simp add: soft_step_indexes)
qed simp

lemma soft_phase_ok:
  "prune_ok messages sum0 (soft_phase messages settings p [a..<b] sum0)"
  "ps_indexes (soft_phase messages settings p [a..<b] sum0) = filter (prunable messages p) [a..<b]"
proof -
  let ?s = "\<lparr> ps_total = sum0, ps_indexes = [], ps_next = None \<rparr>"
  have "prune_ok messages sum0 ?s" by (simp add: prune_ok_def current_messages_def)
  moreover have "current_messages messages ?s = messages" by (simp add: current_messages_def)
  ultimately show "prune_ok messages sum0 (soft_phase messages settings p [a..<b] sum0)"
    "ps_indexes (soft_phase messages settings p [a..<b] sum0) = filter (prunable messages p) [a..<b]"
    unfolding soft_phase_def using soft_fold [of messages sum0 ?s "[a..<b]" settings p] by auto
qed

lemma clear_loop_ok:
  assumes "prune_ok messages sum0 s" "set is \<subseteq> set (ps_indexes s)" "\<forall>i\<in>set is. prunable messages p i" "distinct is"
  shows "prune_ok messages sum0 (clear_loop messages settings w is s) \<and>
    ps_indexes (clear_loop messages settings w is s) = ps_indexes s \<and>
    (\<forall>j. j \<notin> set is \<longrightarrow> current_messages messages (clear_loop messages settings w is s) ! j = current_messages messages s ! j) \<and>
    (ratio_less (ps_total (clear_loop messages settings w is s)) w (pr_hard_clear_ratio settings) \<or>
     (\<forall>i\<in>set is. current_messages messages (clear_loop messages settings w is s) ! i =
        with_text (messages ! i) (hc_placeholder (pr_hard_clear settings))))"
  using assms
proof (induction "is" arbitrary: s)
  case (Cons i "is")
  let ?b = "current_messages messages s ! i" and ?t = "hc_placeholder (pr_hard_clear settings)"
  let ?s = "replace_message messages i ?b (with_text ?b ?t) s"
  have i: "i < length messages" "context_role (messages ! i) = Some ''toolResult''"
    using Cons.prems by (auto simp: prunable_def)
  have b: "\<exists>u. ?b = with_text (messages ! i) u \<or> ?b = messages ! i" and len: "length (current_messages messages s) = length messages"
    using Cons.prems(1) i by (auto simp: prune_ok_def)
  then have role: "context_role ?b = Some ''toolResult''" and cleared: "with_text ?b ?t = with_text (messages ! i) ?t"
    using i by (metis role_with_text, metis with_text_twice)
  show ?case
  proof (cases "ratio_less (ps_total s) w (pr_hard_clear_ratio settings)")
    case False
    then have step: "clear_loop messages settings w (i # is) s = clear_loop messages settings w is ?s"
      using role i len by (simp add: Let_def)
    have "prune_ok messages sum0 ?s" using Cons.prems i by (intro replace_ok) auto
    from Cons.IH [OF this] Cons.prems show ?thesis unfolding step
      using len i cleared by (auto simp: nth_list_update)
  qed (use Cons.prems in auto)
qed simp

lemma cutoff_loop_counts:
  "cutoff_loop k l = Some c \<Longrightarrow> 0 < k \<Longrightarrow>
     c \<le> length l \<and> k = int (length (filter (\<lambda>m. context_role m = Some ''assistant'') (take (length l - c) l)))"
proof (induction l arbitrary: k)
  case (Cons m l)
  show ?case
  proof (cases "context_role m = Some ''assistant'' \<and> k - 1 = 0")
    case False
    with Cons.prems have c: "cutoff_loop (if context_role m = Some ''assistant'' then k - 1 else k) l = Some c"
        "0 < (if context_role m = Some ''assistant'' then k - 1 else k)"
      by (auto split: if_splits)
    from Cons.IH [OF this] show ?thesis by (auto simp: Suc_diff_le split: if_splits)
  qed (use Cons.prems in auto)
qed simp

section \<open>Properties\<close>

definition tool_predicate :: "pruning_settings \<Rightarrow> (string \<Rightarrow> bool) option \<Rightarrow> string \<Rightarrow> bool" where
  "tool_predicate settings p = (case p of Some q \<Rightarrow> q | None \<Rightarrow> make_tool_prunable_predicate (pr_tools settings))"

definition prune_start :: "context_message list \<Rightarrow> nat" where
  "prune_start messages = (case find_first_user_index messages of None \<Rightarrow> length messages | Some i \<Rightarrow> i)"

definition result_messages :: "context_message list \<Rightarrow> context_message list option \<Rightarrow> context_message list" where
  "result_messages messages r = (case r of Some out \<Rightarrow> out | None \<Rightarrow> messages)"

definition assistants :: "context_message list \<Rightarrow> nat" where
  "assistants messages = length (filter (\<lambda>m. context_role m = Some ''assistant'') messages)"

lemma cutoff_counts:
  assumes "find_assistant_cutoff_index messages keep = Some c"
  shows "c \<le> length messages \<and> (0 < keep \<longrightarrow> keep = int (assistants (drop c messages)))"
proof (cases "keep \<le> 0")
  case True
  with assms show ?thesis by (simp add: find_assistant_cutoff_index_def)
next
  case False
  with assms have "cutoff_loop keep (rev messages) = Some c" by (simp add: find_assistant_cutoff_index_def)
  from cutoff_loop_counts [OF this] False show ?thesis by (simp add: assistants_def take_rev rev_filter [symmetric])
qed

text \<open>The two ways a call ends: nothing was done, or both phases ran.\<close>

lemma prune_cases:
  fixes p :: "(string \<Rightarrow> bool) option"
  assumes "find_assistant_cutoff_index messages (pr_keep_last_assistants settings) = Some c"
  defines "final w total_chars \<equiv> hard_phase messages settings (w * CHARS_PER_TOKEN_ESTIMATE)
    (soft_phase messages settings (tool_predicate settings p) [prune_start messages..<c] total_chars)"
  shows "prune_context_messages messages settings model_window p override d =
    (case (case override of Some w \<Rightarrow> if 0 < w then Some w else model_window | None \<Rightarrow> model_window) of
       None \<Rightarrow> None
     | Some w \<Rightarrow>
         (let total_chars = chars_of (if d then drop_thinking_blocks messages else messages) in
          if w \<le> 0 \<or> ratio_less total_chars (w * CHARS_PER_TOKEN_ESTIMATE) (pr_soft_trim_ratio settings) then None
          else ps_next (final w total_chars)))"
  using assms(1) unfolding final_def
  by (simp add: prune_context_messages_def Let_def chars_of_def tool_predicate_def prune_start_def split: option.split)

lemma hard_phase_ok:
  assumes "prune_ok messages sum0 s" "ps_indexes s = filter (prunable messages p) [a..<b]"
  shows "prune_ok messages sum0 (hard_phase messages settings w s) \<and>
    ps_indexes (hard_phase messages settings w s) = ps_indexes s"
proof -
  have "set (ps_indexes s) \<subseteq> set (ps_indexes s)" "\<forall>i\<in>set (ps_indexes s). prunable messages p i"
    "distinct (ps_indexes s)" by (simp_all add: assms(2))
  from clear_loop_ok [OF assms(1) this, of settings w] assms(1) show ?thesis by (simp add: hard_phase_def)
qed

lemma result_current: "result_messages messages (ps_next s) = current_messages messages s"
  by (simp add: result_messages_def current_messages_def)

text \<open>
  C30. Pruning keeps the number of messages and their order, and a message that it changes is a tool result of
  a tool that may be pruned, comes after a message of the user and before the last assistant messages that
  are to be kept, and only has its content replaced by one block of text.
\<close>

theorem pruning_touches_old_tool_results:
  assumes r: "prune_context_messages messages settings model_window p override d = Some out"
  shows "length out = length messages \<and>
    (\<forall>i<length messages. out ! i \<noteq> messages ! i \<longrightarrow>
      (\<exists>t. out ! i = with_text (messages ! i) t) \<and>
      context_role (messages ! i) = Some ''toolResult'' \<and> tool_predicate settings p (get_tool_name (messages ! i)) \<and>
      (\<exists>u\<le>i. context_role (messages ! u) = Some ''user'') \<and>
      pr_keep_last_assistants settings \<le> int (assistants (drop i messages)))"
proof (intro conjI [of "length out = _"] allI impI)
  from r obtain c where c: "find_assistant_cutoff_index messages (pr_keep_last_assistants settings) = Some c"
    by (auto simp: prune_context_messages_def Let_def split: option.splits if_splits)
  let ?p = "tool_predicate settings p"
  obtain w sum0 where out: "ps_next (hard_phase messages settings w
      (soft_phase messages settings ?p [prune_start messages..<c] sum0)) = Some out"
    using r unfolding prune_cases [OF c] by (auto simp: Let_def split: option.splits if_splits)
  let ?s = "hard_phase messages settings w (soft_phase messages settings ?p [prune_start messages..<c] sum0)"
  have ok: "prune_ok messages sum0 ?s" "ps_indexes ?s = filter (prunable messages ?p) [prune_start messages..<c]"
    using hard_phase_ok [OF soft_phase_ok] soft_phase_ok(2) by metis+
  have cur: "current_messages messages ?s = out" using out by (simp add: current_messages_def)
  show "length out = length messages" using ok(1) by (simp add: prune_ok_def cur)
  fix i assume i: "i < length messages" "out ! i \<noteq> messages ! i"
  from ok i have pos: "prune_start messages \<le> i" "i < c" "prunable messages ?p i" and one_text: "\<exists>t. out ! i = with_text (messages ! i) t"
    unfolding prune_ok_def cur by auto
  obtain u where "find_first_user_index messages = Some u"
    using pos i by (cases "find_first_user_index messages") (auto simp: prune_start_def)
  with pos have user: "\<exists>u\<le>i. context_role (messages ! u) = Some ''user''"
    by (auto simp: prune_start_def find_first_user_index_def dest: find_index_Some)
  have "drop i messages = take (c - i) (drop i messages) @ drop c messages"
    using pos cutoff_counts [OF c] by (metis append_take_drop_id drop_drop le_add_diff_inverse2 less_imp_le)
  then have "assistants (drop c messages) \<le> assistants (drop i messages)"
    unfolding assistants_def by (metis filter_append le_add2 length_append)
  with cutoff_counts [OF c] have "pr_keep_last_assistants settings \<le> int (assistants (drop i messages))" by linarith
  with one_text user pos(3)
  show "(\<exists>t. out ! i = with_text (messages ! i) t) \<and>
      context_role (messages ! i) = Some ''toolResult'' \<and> tool_predicate settings p (get_tool_name (messages ! i)) \<and>
      (\<exists>u\<le>i. context_role (messages ! u) = Some ''user'') \<and>
      pr_keep_last_assistants settings \<le> int (assistants (drop i messages))"
    by (auto simp: prunable_def)
qed

text \<open>
  Clearing reaches its goal or runs out of what it may clear: when thinking blocks count and clearing is
  enabled, the estimate of the messages that the call hands on is below the threshold for clearing, unless
  it was below the one for trimming before, or the tool results that may be pruned are too small to be worth
  it, or all of them were cleared.
\<close>

theorem pruning_reaches_goal:
  fixes p :: "(string \<Rightarrow> bool) option" and model_window :: "int option"
  assumes c: "find_assistant_cutoff_index messages (pr_keep_last_assistants settings) = Some c"
    and w: "0 < w" and enabled: "hc_enabled (pr_hard_clear settings)"
  defines "out \<equiv> result_messages messages (prune_context_messages messages settings model_window p (Some w) False)"
    and "window \<equiv> w * CHARS_PER_TOKEN_ESTIMATE"
    and "positions \<equiv> filter (prunable messages (tool_predicate settings p)) [prune_start messages..<c]"
  shows "ratio_less (chars_of out) window (pr_hard_clear_ratio settings) \<or>
    ratio_less (chars_of messages) window (pr_soft_trim_ratio settings) \<or>
    prunable_chars out positions < pr_min_prunable_tool_chars settings \<or>
    (\<forall>i\<in>set positions. out ! i = with_text (messages ! i) (hc_placeholder (pr_hard_clear settings)))"
proof (cases "ratio_less (chars_of messages) window (pr_soft_trim_ratio settings)")
  case False
  let ?soft = "soft_phase messages settings (tool_predicate settings p) [prune_start messages..<c] (chars_of messages)"
  let ?s = "hard_phase messages settings window ?soft"
  have out: "out = current_messages messages ?s"
    using False w unfolding out_def prune_cases [OF c] by (simp add: Let_def window_def result_current)
  have soft: "prune_ok messages (chars_of messages) ?soft" "ps_indexes ?soft = positions"
    unfolding positions_def by (rule soft_phase_ok)+
  have chars: "chars_of (current_messages messages s) = ps_total s" if "prune_ok messages (chars_of messages) s" for s
    using that by (simp add: prune_ok_def)
  have "set positions \<subseteq> set (ps_indexes ?soft)" "\<forall>i\<in>set positions. prunable messages (tool_predicate settings p) i"
    "distinct positions" using soft(2) by (auto simp: positions_def)
  note cleared = clear_loop_ok [OF soft(1) this, of settings window]
  then have clear: "prune_ok messages (chars_of messages) (clear_loop messages settings window positions ?soft)" by blast
  show ?thesis
  proof (cases "ratio_less (ps_total ?soft) window (pr_hard_clear_ratio settings)")
    case True
    then have "?s = ?soft" by (simp add: hard_phase_def)
    then show ?thesis using True chars [OF soft(1)] by (simp add: out)
  next
    case no: False
    show ?thesis
    proof (cases "prunable_chars (current_messages messages ?soft) positions < pr_min_prunable_tool_chars settings")
      case True
      then have "?s = ?soft" using no enabled soft(2) by (simp add: hard_phase_def)
      with True show ?thesis by (simp add: out)
    next
      case False
      then have "?s = clear_loop messages settings window positions ?soft"
        using no enabled soft(2) by (simp add: hard_phase_def)
      then show ?thesis using cleared chars [OF clear] by (auto simp: out)
    qed
  qed
qed simp

section \<open>The text that trimming keeps\<close>

definition joined_rest :: "bool \<Rightarrow> string list \<Rightarrow> string" where
  "joined_rest later ps = (if ps = [] then [] else (if later then nl else []) @ py_join nl ps)"

lemma joined_rest_Cons: "joined_rest later (p # ps) = (if later then nl else []) @ p @ joined_rest True ps"
  by (cases ps) (simp_all add: joined_rest_def)

lemma take_head_loop:
  "0 \<le> r \<Longrightarrow> \<exists>k. nat r \<le> k \<and> k \<le> Suc (nat r) \<and> take_head_loop later r ps = take k (joined_rest later ps)"
proof (induction later r ps rule: take_head_loop.induct)
  case (1 later r)
  then show ?case by (auto simp: joined_rest_def)
next
  case (2 later r p ps)
  let ?sep = "if later then nl else []" and ?r = "if later then r - 1 else r"
  consider "later \<and> ?r \<le> 0" | "\<not> (later \<and> ?r \<le> 0)" "int (length p) \<le> ?r"
    | "\<not> (later \<and> ?r \<le> 0)" "\<not> int (length p) \<le> ?r" by blast
  then show ?case
  proof cases
    case 1
    then have "later" "r \<le> 1" by (auto split: if_splits)
    then have "take_head_loop later r (p # ps) = take 1 (joined_rest later (p # ps))"
      by (simp add: joined_rest_Cons Let_def)
    with 1 "2.prems" show ?thesis by (intro exI [of _ 1]) auto
  next
    case 2
    from "2.IH" [OF refl refl 2] obtain k where k: "nat (?r - int (length p)) \<le> k" "k \<le> Suc (nat (?r - int (length p)))"
      "take_head_loop True (?r - int (length p)) ps = take k (joined_rest True ps)" using 2(2) by auto
    then have "take_head_loop later r (p # ps) = take (length ?sep + length p + k) (joined_rest later (p # ps))"
      using 2 by (auto simp: joined_rest_Cons Let_def)
    moreover have "nat r \<le> length ?sep + length p + k" "length ?sep + length p + k \<le> Suc (nat r)"
      using k(1,2) 2 by (auto split: if_splits)
    ultimately show ?thesis by blast
  next
    case 3
    then have "take_head_loop later r (p # ps) = take (nat r) (joined_rest later (p # ps))"
      using "2.prems" by (auto simp: joined_rest_Cons Let_def nat_diff_distrib take_Cons' split: if_splits)
    then show ?thesis by (intro exI [of _ "nat r"]) simp
  qed
qed

lemma take_head:
  "\<exists>k\<le>Suc (nat n). take_head_from_joined_text parts n = take k (py_join nl parts)"
proof (cases "n \<le> 0 \<or> parts = []")
  case False
  then have "0 \<le> n" by simp
  from take_head_loop [OF this, of False parts] show ?thesis
    using False by (auto simp: take_head_from_joined_text_def joined_rest_def)
qed (auto simp: take_head_from_joined_text_def intro: exI [of _ 0])

lemma py_join_snoc: "ys \<noteq> [] \<Longrightarrow> py_join sep (ys @ [p]) = py_join sep ys @ sep @ p"
proof (induction ys rule: induct_list012)
  case (3 x y zs)
  then show ?case by simp
qed simp_all

lemma take_tail_loop:
  "0 \<le> r \<Longrightarrow> take_tail_loop r ps taken =
     drop (length (py_join nl (rev ps)) - nat r) (py_join nl (rev ps)) @ taken"
proof (induction r ps taken rule: take_tail_loop.induct)
  case (2 r p ps taken)
  show ?case
  proof (cases "int (length p) \<le> r")
    case True
    show ?thesis
    proof (cases "0 < r - int (length p) \<and> ps \<noteq> []")
      case more: True
      let ?y = "py_join nl (rev ps)"
      have "take_tail_loop r (p # ps) taken = drop (length ?y - nat (r - int (length p) - 1)) ?y @ nl @ p @ taken"
        using True more "2.IH"(1) [OF True refl] by (simp add: Let_def)
      moreover have "length ?y - nat (r - int (length p) - 1) = Suc (length ?y + length p) - nat r \<or>
          length ?y \<le> nat (r - int (length p) - 1) \<and> Suc (length ?y + length p) \<le> nat r"
        using more by linarith
      ultimately show ?thesis using more True by (auto simp: py_join_snoc)
    next
      case False
      then have "take_tail_loop r (p # ps) taken = take_tail_loop (r - int (length p)) ps (p @ taken)"
        using True by (auto simp: Let_def)
      also have "\<dots> = drop (length (py_join nl (rev ps)) - nat (r - int (length p))) (py_join nl (rev ps)) @ p @ taken"
        using "2.IH"(2) [OF True refl] False True by simp
      finally show ?thesis using False True by (cases "ps = []") (auto simp: py_join_snoc nat_diff_distrib)
    qed
  next
    case False
    with "2.prems" have "Suc (length p) - nat r = Suc (length p - nat r)" "nat r < length p" by linarith+
    with False 2 show ?thesis by (cases "ps = []") (auto simp: py_join_snoc)
  qed
qed simp

lemma take_tail:
  "take_tail_from_joined_text parts n = drop (length (py_join nl parts) - nat n) (py_join nl parts)"
  using take_tail_loop [of n "rev parts" "[]"] by (auto simp: take_tail_from_joined_text_def)

lemma joined_length: "estimate_joined_text_length parts = int (length (py_join nl parts))"
proof -
  have "sum_list (map (int \<circ> length) parts) = int (sum_list (map length parts))" by (induction parts) simp_all
  then show ?thesis by (cases parts) (simp_all add: estimate_joined_text_length_def length_py_join)
qed

text \<open>
  A trimmed tool result is the beginning of the joined text, at most one character more than the head
  that was asked for, then dots, then the end of the joined text with exactly the length that was asked for,
  and a note; when an image forced the rewriting of a short result, it is the joined text.
\<close>

theorem soft_trim_keeps_ends:
  assumes "soft_trim_tool_result_message msg settings = Some m"
  defines "content \<equiv> tool_result_content msg"
  defines "joined \<equiv> py_join nl (if has_image_blocks content then collect_prunable_tool_result_segments content
      else collect_text_segments content)"
    and "head \<equiv> nat (st_head_chars (pr_soft_trim settings))"
    and "tail \<equiv> nat (st_tail_chars (pr_soft_trim settings))"
  shows "(has_image_blocks content \<and> m = with_text msg joined \<and>
      length joined \<le> max (nat (st_max_chars (pr_soft_trim settings))) (head + tail)) \<or>
    (head + tail < length joined \<and>
     (\<exists>k\<le>Suc head. m = with_text msg (take k joined @ nl @ ''...'' @ nl @ drop (length joined - tail) joined @
        trim_note (int head) (int tail) (int (length joined)))))"
proof -
  let ?parts = "if has_image_blocks content then collect_prunable_tool_result_segments content
      else collect_text_segments content"
  let ?h = "st_head_chars (pr_soft_trim settings)" and ?t = "st_tail_chars (pr_soft_trim settings)"
  have len: "estimate_joined_text_length ?parts = int (length joined)" unfolding joined_def by (rule joined_length)
  obtain k where k: "k \<le> Suc (nat (max 0 ?h))" "take_head_from_joined_text ?parts (max 0 ?h) = take k joined"
    using take_head [of "max 0 ?h" ?parts] unfolding joined_def by blast
  have tail: "take_tail_from_joined_text ?parts (max 0 ?t) = drop (length joined - tail) joined"
    unfolding joined_def tail_def take_tail by (simp add: max_def)
  have ints: "max 0 ?h = int head" "max 0 ?t = int tail" by (simp_all add: head_def tail_def)
  note soft = assms(1) [unfolded soft_trim_tool_result_message_def, folded content_def, unfolded Let_def len k(2) tail]
  show ?thesis using soft k(1) unfolding ints joined_def [symmetric] by (auto split: if_splits)
qed

definition text_block :: "string \<Rightarrow> pyval" where
  "text_block t = VDict [(''type'', VStr ''text''), (''text'', VStr t)]"

definition demo_tool_result :: context_message where
  "demo_tool_result =
     DictMessage [(''role'', VStr ''toolResult''), (''toolName'', VStr ''exec''),
       (''content'', VList [text_block ''abc'', text_block ''def''])]"

definition demo_pruning_settings :: pruning_settings where
  "demo_pruning_settings = DEFAULT_CONTEXT_PRUNING_SETTINGS
     \<lparr> pr_keep_last_assistants := 1, pr_soft_trim_ratio := (0, 1), pr_hard_clear_ratio := (1, 2),
       pr_min_prunable_tool_chars := 0,
       pr_soft_trim := \<lparr> st_max_chars = 5, st_head_chars = 3, st_tail_chars = 2 \<rparr> \<rparr>"

definition demo_trimmed :: context_message where
  "demo_trimmed =
     with_text demo_tool_result (''abc'' @ nl @ nl @ ''...'' @ nl @ ''ef'' @ nl @ nl @
       ''[Tool result trimmed: kept first 3 chars and last 2 chars of 7 chars.]'')"

lemma demo_soft_trim: "soft_trim_tool_result_message demo_tool_result demo_pruning_settings = Some demo_trimmed"
  by code_simp

lemma demo_chars:
  "estimate_message_chars demo_tool_result = 6" "estimate_message_chars demo_trimmed = 83"
  "estimate_message_chars (with_text demo_tool_result ''[Old tool result content cleared]'') = 33"
  by (simp_all add: estimate_message_chars_def demo_trimmed_def demo_tool_result_def estimate_text_and_image_chars_def
      text_and_image_chars_def dict_items_def dict_value_def text_block_def)

text \<open>The head has one character more than was asked for, and the trimmed result is longer than the original.\<close>

lemma trimming_may_grow:
  "length (take_head_from_joined_text [''abc'', ''def''] 3) = 4"
  "estimate_message_chars demo_tool_result < estimate_message_chars demo_trimmed"
  by (code_simp, simp add: demo_chars)

theorem soft_trim_keeps_ends_witness:
  "\<exists>k\<le>Suc 3. demo_trimmed = with_text demo_tool_result (take k (''abc'' @ nl @ ''def'') @ nl @ ''...'' @ nl @ ''ef'' @ trim_note 3 2 7)"
  using soft_trim_keeps_ends [OF demo_soft_trim]
  by (simp add: demo_tool_result_def demo_pruning_settings_def DEFAULT_CONTEXT_PRUNING_SETTINGS_def has_image_blocks_def
      dict_items_def dict_value_def text_block_def collect_text_segments_def List.map_filter_def numeral_3_eq_3)

definition demo_pruned_context :: "context_message list" where
  "demo_pruned_context =
     [UserMessage (UserText ''hi'') 1, demo_tool_result,
      AssistantMessage [TextContent ''ok''] VNone, demo_tool_result]"

lemma demo_pruned:
  "prune_context_messages demo_pruned_context demo_pruning_settings (Some 1) (Some (\<lambda>t. True)) None False =
     Some (demo_pruned_context[1 := with_text demo_tool_result ''[Old tool result content cleared]''])"
proof -
  have roles: "context_role demo_tool_result = Some ''toolResult''" "context_role demo_trimmed = Some ''toolResult''"
    by code_simp+
  have cleared: "with_text demo_trimmed t = with_text demo_tool_result t" for t by (simp add: demo_trimmed_def)
  have settings: "pr_keep_last_assistants demo_pruning_settings = 1" "pr_soft_trim_ratio demo_pruning_settings = (0, 1)"
    "pr_hard_clear_ratio demo_pruning_settings = (1, 2)" "pr_min_prunable_tool_chars demo_pruning_settings = 0"
    "hc_enabled (pr_hard_clear demo_pruning_settings)"
    "hc_placeholder (pr_hard_clear demo_pruning_settings) = ''[Old tool result content cleared]''"
    by (simp_all add: demo_pruning_settings_def DEFAULT_CONTEXT_PRUNING_SETTINGS_def)
  show ?thesis
    by (simp add: prune_context_messages_def demo_pruned_context_def settings find_assistant_cutoff_index_def roles
        find_first_user_index_def ratio_less_def soft_phase_def soft_step_def demo_soft_trim replace_message_def
        hard_phase_def current_messages_def prunable_chars_def demo_chars cleared CHARS_PER_TOKEN_ESTIMATE_def
        estimate_message_chars_def [of "UserMessage u t" for u t] estimate_message_chars_def [of "AssistantMessage u t" for u t]
        upt_rec Let_def)
qed

theorem pruning_touches_old_tool_results_witness:
  "pr_keep_last_assistants demo_pruning_settings \<le> int (assistants (drop 1 demo_pruned_context))"
  using pruning_touches_old_tool_results [OF demo_pruned, THEN conjunct2, THEN spec, of 1]
  by (simp add: demo_pruned_context_def demo_tool_result_def text_block_def)

theorem pruning_reaches_goal_witness:
  "let out = result_messages demo_pruned_context (prune_context_messages demo_pruned_context demo_pruning_settings None None (Some 1) False);
       positions = filter (prunable demo_pruned_context (tool_predicate demo_pruning_settings None)) [prune_start demo_pruned_context..<2] in
   ratio_less (chars_of out) (1 * CHARS_PER_TOKEN_ESTIMATE) (pr_hard_clear_ratio demo_pruning_settings) \<or>
   ratio_less (chars_of demo_pruned_context) (1 * CHARS_PER_TOKEN_ESTIMATE) (pr_soft_trim_ratio demo_pruning_settings) \<or>
   prunable_chars out positions < pr_min_prunable_tool_chars demo_pruning_settings \<or>
   (\<forall>i\<in>set positions. out ! i = with_text (demo_pruned_context ! i) (hc_placeholder (pr_hard_clear demo_pruning_settings)))"
  unfolding Let_def
  by (rule pruning_reaches_goal)
    (simp_all add: demo_pruned_context_def demo_tool_result_def demo_pruning_settings_def DEFAULT_CONTEXT_PRUNING_SETTINGS_def
      find_assistant_cutoff_index_def dict_value_def)

end
