(* ===== verification/ReplyQueue.thy ===== *)
theory ReplyQueue
  imports RoutingIds ToolPolicy PyEffects "HOL-Library.Sublist"
begin

text \<open>
  The queues of messages that arrive while an agent is busy, one for each session:
  \<^verbatim>\<open>openclaw/auto_reply/reply/queue\<close>. The singleton is a state that the operations are given and return;
  a run is a dictionary, and the handler of a drained run acts on a world that holds the queues. Identifiers
  of messages are compared as values, so that numbers of different types stay apart.
\<close>

section \<open>Settings\<close>

datatype queue_mode = SteerMode | FollowupMode | CollectMode | InterruptMode

datatype queue_drop_policy = DropOld | DropNew | DropSummarize

text \<open>A \<^verbatim>\<open>TypedDict\<close> whose keys may be missing.\<close>

record queue_settings =
  qs_mode :: "queue_mode option"
  qs_debounceMs :: "int option"
  qs_cap :: "int option"
  qs_dropPolicy :: "queue_drop_policy option"

definition DEFAULT_QUEUE_SETTINGS :: queue_settings where
  "DEFAULT_QUEUE_SETTINGS =
     \<lparr> qs_mode = Some FollowupMode, qs_debounceMs = Some 500, qs_cap = Some 10, qs_dropPolicy = Some DropOld \<rparr>"

definition mode_of_name :: "pyval \<Rightarrow> queue_mode option" where
  "mode_of_name v =
     (if v = VStr ''steer'' then Some SteerMode else if v = VStr ''followup'' then Some FollowupMode
      else if v = VStr ''collect'' then Some CollectMode else if v = VStr ''interrupt'' then Some InterruptMode
      else None)"

definition policy_of_name :: "pyval \<Rightarrow> queue_drop_policy option" where
  "policy_of_name v =
     (if v = VStr ''old'' then Some DropOld else if v = VStr ''new'' then Some DropNew
      else if v = VStr ''summarize'' then Some DropSummarize else None)"

text \<open>\<^verbatim>\<open>int(v)\<close>\<close>

fun int_of_value :: "pylib \<Rightarrow> pyval \<Rightarrow> int res" where
  "int_of_value L (VInt i) = Inr i"
| "int_of_value L (VBool b) = Inr (if b then 1 else 0)"
| "int_of_value L (VFloat r) = lib_float_trunc L r"
| "int_of_value L (VStr s) = (case py_int s of Some i \<Rightarrow> Inr i | None \<Rightarrow> Inl PyValueError)"
| "int_of_value L v = Inl PyTypeError"

definition int_setting :: "pylib \<Rightarrow> (string \<times> pyval) list \<Rightarrow> string \<Rightarrow> int option \<Rightarrow> int option res" where
  "int_setting L queue_config k fallback =
     (case map_of queue_config k of
        None \<Rightarrow> Inr fallback
      | Some v \<Rightarrow> bind_res (int_of_value L v) (\<lambda>i. Inr (Some i)))"

definition resolve_queue_settings :: "pylib \<Rightarrow> (string \<times> pyval) list option \<Rightarrow> queue_settings res" where
  "resolve_queue_settings L config =
     (let settings = DEFAULT_QUEUE_SETTINGS in
      case config of
        None \<Rightarrow> Inr settings
      | Some c \<Rightarrow>
          (case Option.bind (sub_dict c ''autoReply'') (\<lambda>auto_reply. sub_dict auto_reply ''queue'') of
             None \<Rightarrow> Inr settings
           | Some queue_config \<Rightarrow>
               let mode = (case map_of queue_config ''mode'' of
                             Some m \<Rightarrow> (case mode_of_name m of Some x \<Rightarrow> Some x | None \<Rightarrow> qs_mode settings)
                           | None \<Rightarrow> qs_mode settings);
                   policy = (case map_of queue_config ''dropPolicy'' of
                               Some p \<Rightarrow> (case policy_of_name p of Some x \<Rightarrow> Some x | None \<Rightarrow> qs_dropPolicy settings)
                             | None \<Rightarrow> qs_dropPolicy settings)
               in bind_res (int_setting L queue_config ''debounceMs'' (qs_debounceMs settings)) (\<lambda>debounce.
                  bind_res (int_setting L queue_config ''cap'' (qs_cap settings)) (\<lambda>cap.
                    Inr \<lparr> qs_mode = mode, qs_debounceMs = debounce, qs_cap = cap, qs_dropPolicy = policy \<rparr>))))"

definition default_to :: "'a \<Rightarrow> 'a option \<Rightarrow> 'a" where
  "default_to d v = (case v of Some x \<Rightarrow> x | None \<Rightarrow> d)"

definition normalize_queue_settings :: "queue_settings \<Rightarrow> queue_settings" where
  "normalize_queue_settings settings =
     \<lparr> qs_mode = Some (default_to FollowupMode (qs_mode settings)),
       qs_debounceMs = Some (max 0 (default_to 500 (qs_debounceMs settings))),
       qs_cap = Some (max 1 (default_to 10 (qs_cap settings))),
       qs_dropPolicy = Some (default_to DropOld (qs_dropPolicy settings)) \<rparr>"

section \<open>Runs\<close>

type_synonym followup_run = "(string \<times> pyval) list"

definition run_keys :: "string list" where
  "run_keys =
     [''admissionSessionId'', ''transcriptPrompt'', ''messageId'', ''summaryLine'', ''images'', ''imageOrder'',
      ''originatingChannel'', ''originatingTo'', ''originatingAccountId'', ''originatingThreadId'',
      ''deliveryCorrelations'', ''queuedLifecycle'']"

definition run_value :: "followup_run \<Rightarrow> string \<Rightarrow> pyval" where
  "run_value run k = (case map_of run k of Some v \<Rightarrow> v | None \<Rightarrow> VNone)"

definition normalize_followup_run :: "int \<Rightarrow> followup_run \<Rightarrow> followup_run res" where
  "normalize_followup_run now run =
     bind_res (need_name (py_or (run_value run ''prompt'') (VStr []))) (\<lambda>prompt.
       Inr ([(''prompt'', VStr (py_strip prompt)), (''enqueuedAt'', py_or (run_value run ''enqueuedAt'') (VInt now))]
         @ map (\<lambda>k. (k, run_value run k)) (filter (\<lambda>k. run_value run k \<noteq> VNone) run_keys)))"

datatype queue_dedupe_mode = ByMessageId | ByPrompt | NoDedupe

definition dedupe_key :: "queue_dedupe_mode \<Rightarrow> followup_run \<Rightarrow> pyval" where
  "dedupe_key mode run =
     (case map_of run (if mode = ByMessageId then ''messageId'' else ''prompt'') of Some v \<Rightarrow> v | None \<Rightarrow> VStr [])"

fun dedupe_loop :: "queue_dedupe_mode \<Rightarrow> pyval set \<Rightarrow> followup_run list \<Rightarrow> followup_run list res" where
  "dedupe_loop mode seen [] = Inr []"
| "dedupe_loop mode seen (run # queue) =
     (let key = dedupe_key mode run in
      if truthy key then
        if \<not> hashable key then Inl PyTypeError
        else if key \<in> seen then dedupe_loop mode seen queue
        else bind_res (dedupe_loop mode (insert key seen) queue) (\<lambda>result. Inr (run # result))
      else bind_res (dedupe_loop mode seen queue) (\<lambda>result. Inr (run # result)))"

definition dedupe_queue :: "followup_run list \<Rightarrow> queue_dedupe_mode \<Rightarrow> followup_run list res" where
  "dedupe_queue queue mode = (if mode = NoDedupe then Inr queue else dedupe_loop mode {} queue)"

definition apply_drop_policy :: "'a list \<Rightarrow> int \<Rightarrow> queue_drop_policy \<Rightarrow> 'a list" where
  "apply_drop_policy queue cap policy =
     (if int (length queue) \<le> cap then queue
      else case policy of
        DropOld \<Rightarrow> slice_from queue (- cap)
      | DropNew \<Rightarrow> slice_upto queue cap
      | DropSummarize \<Rightarrow>
          (if cap \<le> 2 then slice_from queue (- cap)
           else [queue ! 0] @ slice_from queue (- (cap - 1))))"

section \<open>The state\<close>

record queue_state =
  qu_queues :: "(string, followup_run list) dict"
  qu_active_run :: "(string, followup_run option) dict"

definition new_queue_state :: queue_state where
  "new_queue_state = \<lparr> qu_queues = [], qu_active_run = [] \<rparr>"

text \<open>\<^verbatim>\<open>d.pop(k, default)\<close>\<close>

definition dict_pop :: "('k, 'v) dict \<Rightarrow> 'k \<Rightarrow> ('k, 'v) dict" where
  "dict_pop d k = filter (\<lambda>(k', v). k' \<noteq> k) d"

definition get_queue :: "string \<Rightarrow> queue_state \<Rightarrow> followup_run list" where
  "get_queue session_key s = (case dict_get (qu_queues s) session_key of Some q \<Rightarrow> q | None \<Rightarrow> [])"

definition set_session_queue :: "string \<Rightarrow> followup_run list \<Rightarrow> queue_state \<Rightarrow> queue_state" where
  "set_session_queue session_key queue s = s\<lparr> qu_queues := dict_set (qu_queues s) session_key queue \<rparr>"

definition clear_queue :: "string \<Rightarrow> queue_state \<Rightarrow> followup_run list \<times> queue_state" where
  "clear_queue session_key s = (get_queue session_key s, s\<lparr> qu_queues := dict_pop (qu_queues s) session_key \<rparr>)"

definition get_active_run :: "string \<Rightarrow> queue_state \<Rightarrow> followup_run option" where
  "get_active_run session_key s = (case dict_get (qu_active_run s) session_key of Some r \<Rightarrow> r | None \<Rightarrow> None)"

definition set_active_run :: "string \<Rightarrow> followup_run option \<Rightarrow> queue_state \<Rightarrow> queue_state" where
  "set_active_run session_key run s = s\<lparr> qu_active_run := dict_set (qu_active_run s) session_key run \<rparr>"

definition has_pending :: "string \<Rightarrow> queue_state \<Rightarrow> bool" where
  "has_pending session_key s \<longleftrightarrow> 0 < length (get_queue session_key s)"

definition clear_all :: "queue_state \<Rightarrow> queue_state" where
  "clear_all s = s\<lparr> qu_queues := [], qu_active_run := [] \<rparr>"

section \<open>Queueing\<close>

definition enqueue_followup ::
    "pylib \<Rightarrow> int \<Rightarrow> string \<Rightarrow> followup_run \<Rightarrow> (string \<times> pyval) list option \<Rightarrow> queue_settings option
      \<Rightarrow> queue_state \<Rightarrow> followup_run list res \<times> queue_state" where
  "enqueue_followup L now session_key run config settings s =
     (case (case settings of Some x \<Rightarrow> Inr x | None \<Rightarrow> resolve_queue_settings L config) of
        Inl e \<Rightarrow> (Inl e, s)
      | Inr settings' \<Rightarrow>
          (case normalize_followup_run now run of
             Inl e \<Rightarrow> (Inl e, s)
           | Inr normalized \<Rightarrow>
               (case dedupe_queue (get_queue session_key s @ [normalized]) ByMessageId of
                  Inl e \<Rightarrow> (Inl e, s)
                | Inr queue \<Rightarrow>
                    let cap = default_to 10 (qs_cap settings');
                        drop_policy = default_to DropOld (qs_dropPolicy settings');
                        queue' = apply_drop_policy queue cap drop_policy
                    in (Inr queue', set_session_queue session_key queue' s))))"

definition dequeue_followup :: "string \<Rightarrow> queue_state \<Rightarrow> followup_run option \<times> queue_state" where
  "dequeue_followup session_key s =
     (case get_queue session_key s of
        [] \<Rightarrow> (None, s)
      | next_run # queue \<Rightarrow> (Some next_run, set_session_queue session_key queue s))"

definition peek_followup :: "string \<Rightarrow> queue_state \<Rightarrow> followup_run option" where
  "peek_followup session_key s = (case get_queue session_key s of [] \<Rightarrow> None | next_run # queue \<Rightarrow> Some next_run)"

definition clear_session_queue :: "string \<Rightarrow> queue_state \<Rightarrow> followup_run list \<times> queue_state" where
  "clear_session_queue session_key s = clear_queue session_key s"

section \<open>Cleaning up\<close>

definition STALE_QUEUE_TIMEOUT_MS :: int where
  "STALE_QUEUE_TIMEOUT_MS = 30 * 60 * 1000"

text \<open>
  The age is a subtraction, for which the time of a run has to be a number; a float is compared by the
  parameter.
\<close>

definition is_stale :: "(string \<Rightarrow> int \<Rightarrow> bool) \<Rightarrow> int \<Rightarrow> int \<Rightarrow> pyval \<Rightarrow> bool res" where
  "is_stale float_below now_ms max_age_ms enqueued_at =
     (if \<not> truthy enqueued_at then Inr False
      else case enqueued_at of
        VInt t \<Rightarrow> Inr (max_age_ms < now_ms - t)
      | VBool b \<Rightarrow> Inr (max_age_ms < now_ms - 1)
      | VFloat r \<Rightarrow> Inr (float_below r (now_ms - max_age_ms))
      | _ \<Rightarrow> Inl PyTypeError)"

fun prune_loop ::
    "(string \<Rightarrow> int \<Rightarrow> bool) \<Rightarrow> int \<Rightarrow> int \<Rightarrow> string list \<Rightarrow> int \<Rightarrow> queue_state \<Rightarrow> int res \<times> queue_state" where
  "prune_loop float_below now_ms max_age_ms [] pruned s = (Inr pruned, s)"
| "prune_loop float_below now_ms max_age_ms (session_key # rest) pruned s =
     (case get_queue session_key s of
        [] \<Rightarrow> prune_loop float_below now_ms max_age_ms rest (pruned + 1)
                (s\<lparr> qu_queues := dict_pop (qu_queues s) session_key \<rparr>)
      | oldest # queue \<Rightarrow>
          (case is_stale float_below now_ms max_age_ms
              (case map_of oldest ''enqueuedAt'' of Some v \<Rightarrow> v | None \<Rightarrow> VInt 0) of
             Inl e \<Rightarrow> (Inl e, s)
           | Inr True \<Rightarrow> prune_loop float_below now_ms max_age_ms rest (pruned + 1)
               (s\<lparr> qu_queues := dict_pop (qu_queues s) session_key,
                   qu_active_run := dict_pop (qu_active_run s) session_key \<rparr>)
           | Inr False \<Rightarrow> prune_loop float_below now_ms max_age_ms rest pruned s))"

definition prune_stale_queues ::
    "(string \<Rightarrow> int \<Rightarrow> bool) \<Rightarrow> int \<Rightarrow> int \<Rightarrow> queue_state \<Rightarrow> int res \<times> queue_state" where
  "prune_stale_queues float_below now_ms max_age_ms s =
     prune_loop float_below now_ms max_age_ms (dict_keys (qu_queues s)) 0 s"

definition clear_every_queue :: "queue_state \<Rightarrow> nat \<times> queue_state" where
  "clear_every_queue s = (length (qu_queues s), clear_all s)"

record queue_stats =
  totalSessions :: nat
  totalPending :: nat
  activeRuns :: nat

definition get_queue_stats :: "queue_state \<Rightarrow> queue_stats" where
  "get_queue_stats s =
     \<lparr> totalSessions = length (qu_queues s),
       totalPending = sum_list (map (length \<circ> snd) (qu_queues s)),
       activeRuns = length (filter (\<lambda>(k, v). v \<noteq> None) (qu_active_run s)) \<rparr>"

section \<open>Draining\<close>

record drain_result =
  dr_run :: followup_run
  dr_result :: "pyval option"
  dr_error :: "string option"

text \<open>
  The handler, the sleep between two runs, in which other tasks may act, and the text of an exception are
  parameters; the first two act on a world that holds the queues.
\<close>

record 'w reply_world =
  rw_queues :: queue_state
  rw_rest :: 'w

record 'w drain_env =
  de_handler :: "followup_run \<Rightarrow> ('w reply_world, pyval) act"
  de_sleep :: "'w reply_world \<Rightarrow> 'w reply_world"
  de_exn_text :: "pyexn \<Rightarrow> string"

definition handle_run :: "'w drain_env \<Rightarrow> followup_run \<Rightarrow> 'w reply_world \<Rightarrow> drain_result \<times> 'w reply_world" where
  "handle_run E run w =
     (case de_handler E run w of
        (Inr result, w') \<Rightarrow> (\<lparr> dr_run = run, dr_result = Some result, dr_error = None \<rparr>, w')
      | (Inl err, w') \<Rightarrow> (\<lparr> dr_run = run, dr_result = None, dr_error = Some (de_exn_text E err) \<rparr>, w'))"

partial_function (option) drain_loop ::
    "'w drain_env \<Rightarrow> int \<Rightarrow> string \<Rightarrow> drain_result list \<Rightarrow> 'w reply_world \<Rightarrow> (drain_result list \<times> 'w reply_world) option" where
  "drain_loop E debounce_ms session_key results w =
     (case dequeue_followup session_key (rw_queues w) of
        (None, q) \<Rightarrow> Some (results, w)
      | (Some run, q) \<Rightarrow>
          (case handle_run E run (w\<lparr> rw_queues := q \<rparr>) of
             (result, w') \<Rightarrow>
               drain_loop E debounce_ms session_key (results @ [result])
                 (if 0 < debounce_ms then de_sleep E w' else w')))"

definition drain_queue ::
    "'w drain_env \<Rightarrow> pylib \<Rightarrow> string \<Rightarrow> (string \<times> pyval) list option \<Rightarrow> 'w reply_world
      \<Rightarrow> (drain_result list res \<times> 'w reply_world) option" where
  "drain_queue E L session_key config w =
     (case resolve_queue_settings L config of
        Inl e \<Rightarrow> Some (Inl e, w)
      | Inr settings \<Rightarrow>
          map_option (\<lambda>(results, w'). (Inr results, w'))
            (drain_loop E (default_to 500 (qs_debounceMs settings)) session_key [] w))"

definition drain_single :: "'w drain_env \<Rightarrow> string \<Rightarrow> 'w reply_world \<Rightarrow> drain_result option \<times> 'w reply_world" where
  "drain_single E session_key w =
     (case dequeue_followup session_key (rw_queues w) of
        (None, q) \<Rightarrow> (None, w)
      | (Some run, q) \<Rightarrow> (case handle_run E run (w\<lparr> rw_queues := q \<rparr>) of (result, w') \<Rightarrow> (Some result, w')))"

definition has_queued_followups :: "string \<Rightarrow> queue_state \<Rightarrow> bool" where
  "has_queued_followups session_key s = has_pending session_key s"

section \<open>Directives\<close>

definition queue_modes :: "(string \<times> queue_mode) list" where
  "queue_modes =
     [(''steer'', SteerMode), (''followup'', FollowupMode), (''collect'', CollectMode), (''interrupt'', InterruptMode)]"

text \<open>The modes and, with names that the pattern never finds, their aliases.\<close>

definition MODE_ALIASES :: "(string \<times> queue_mode) list" where
  "MODE_ALIASES = queue_modes @ [(''next'', FollowupMode), (''queue'', CollectMode), (''cancel'', InterruptMode)]"

text \<open>\<open>/(steer|...)(?=$|\s)\<close>, without regard to case: the word behind the slash.\<close>

definition directive_word :: "string \<Rightarrow> string option" where
  "directive_word s =
     (case s of
        [] \<Rightarrow> None
      | c # r \<Rightarrow>
          if c \<noteq> CHR ''/'' then None
          else map_option fst (List.find (\<lambda>(w, m). py_startswith (py_lower r) w \<and>
            (length r = length w \<or> is_space (r ! length w))) queue_modes))"

text \<open>The position of the slash and the word of the first match; the flag is the start of the text.\<close>

fun find_directive :: "bool \<Rightarrow> nat \<Rightarrow> string \<Rightarrow> (nat \<times> string) option" where
  "find_directive at_start i [] = None"
| "find_directive at_start i (c # r) =
     (case (if at_start then directive_word (c # r) else None) of
        Some w \<Rightarrow> Some (i, w)
      | None \<Rightarrow>
          (case (if is_space c then directive_word r else None) of
             Some w \<Rightarrow> Some (Suc i, w)
           | None \<Rightarrow> find_directive False (Suc i) r))"

text \<open>\<^verbatim>\<open>re.sub(r"\s+", " ", text)\<close>; the flag says that the last character was white space.\<close>

fun collapse_space :: "bool \<Rightarrow> string \<Rightarrow> string" where
  "collapse_space after [] = []"
| "collapse_space after (c # s) =
     (if is_space c then (if after then collapse_space True s else CHR '' '' # collapse_space True s)
      else c # collapse_space False s)"

record queue_directive =
  qd_mode :: "queue_mode option"
  qd_cleaned :: string
  qd_hasDirective :: bool

definition extract_queue_directive :: "string option \<Rightarrow> queue_directive" where
  "extract_queue_directive body =
     (case body of
        None \<Rightarrow> \<lparr> qd_mode = None, qd_cleaned = [], qd_hasDirective = False \<rparr>
      | Some t \<Rightarrow>
          (case find_directive True 0 t of
             None \<Rightarrow> \<lparr> qd_mode = None, qd_cleaned = py_strip t, qd_hasDirective = False \<rparr>
           | Some (start, w) \<Rightarrow>
               (case map_of MODE_ALIASES w of
                  None \<Rightarrow> \<lparr> qd_mode = None, qd_cleaned = py_strip t, qd_hasDirective = False \<rparr>
                | Some mode \<Rightarrow>
                    \<lparr> qd_mode = Some mode,
                      qd_cleaned = collapse_space False (py_strip (take start t @ '' '' @ drop (start + 1 + length w) t)),
                      qd_hasDirective = True \<rparr>)))"

definition resolve_queue_mode :: "string option \<Rightarrow> queue_mode \<Rightarrow> queue_mode" where
  "resolve_queue_mode t fallback = default_to fallback (qd_mode (extract_queue_directive t))"

section \<open>Bounds and identifiers\<close>

definition message_ids :: "followup_run list \<Rightarrow> pyval list" where
  "message_ids queue = filter truthy (map (dedupe_key ByMessageId) queue)"

definition queue_ok :: "int \<Rightarrow> followup_run list \<Rightarrow> bool" where
  "queue_ok cap queue \<longleftrightarrow> int (length queue) \<le> cap \<and> distinct (message_ids queue)"

lemma message_ids_simps [simp]:
  "message_ids [] = []"
  "message_ids (r # q) = (if truthy (dedupe_key ByMessageId r) then [dedupe_key ByMessageId r] else []) @ message_ids q"
  "message_ids (q @ q') = message_ids q @ message_ids q'"
  by (simp_all add: message_ids_def)

lemma subseq_message_ids: "subseq q q' \<Longrightarrow> subseq (message_ids q) (message_ids q')"
  unfolding message_ids_def by (intro subseq_filter subseq_map)

lemma subseq_distinct: "subseq q q' \<Longrightarrow> distinct q' \<Longrightarrow> distinct q"
  by (induction rule: list_emb.induct) (auto dest: list_emb_set)

lemma queue_ok_subseq: "queue_ok cap q' \<Longrightarrow> subseq q q' \<Longrightarrow> queue_ok cap q"
  unfolding queue_ok_def
  using list_emb_length [of "(=)" q q'] by (auto intro: subseq_distinct [OF subseq_message_ids])

lemma dedupe_loop_ids:
  assumes "dedupe_loop ByMessageId seen queue = Inr result"
  shows "distinct (message_ids result) \<and> set (message_ids result) \<inter> seen = {} \<and> subseq result queue"
  using assms
proof (induction queue arbitrary: seen result)
  case (Cons run queue)
  let ?k = "dedupe_key ByMessageId run"
  consider (none) "\<not> truthy ?k" | (dup) "truthy ?k" "hashable ?k" "?k \<in> seen" | (new) "truthy ?k" "hashable ?k" "?k \<notin> seen"
    using Cons.prems by (auto simp: Let_def split: if_splits)
  then show ?case
  proof cases
    case none
    with Cons.prems obtain r where "result = run # r" "dedupe_loop ByMessageId seen queue = Inr r"
      by (auto simp: Let_def bind_res_eq_Inr)
    with none Cons.IH [of seen r] show ?thesis by simp
  next
    case dup
    with Cons.prems have "dedupe_loop ByMessageId seen queue = Inr result" by (simp add: Let_def)
    with Cons.IH show ?thesis by auto
  next
    case new
    with Cons.prems obtain r where "result = run # r" "dedupe_loop ByMessageId (insert ?k seen) queue = Inr r"
      by (auto simp: Let_def bind_res_eq_Inr)
    with new Cons.IH [of "insert ?k seen" r] show ?thesis by auto
  qed
qed simp

text \<open>On a queue without repetitions only the last run can be dropped.\<close>

lemma dedupe_loop_last:
  assumes "dedupe_loop ByMessageId seen (queue @ [run]) = Inr result"
    and "distinct (message_ids queue)" "set (message_ids queue) \<inter> seen = {}"
  shows "result = (if truthy (dedupe_key ByMessageId run) \<and>
      dedupe_key ByMessageId run \<in> set (message_ids queue) \<union> seen then queue else queue @ [run])"
  using assms
proof (induction queue arbitrary: seen result)
  case (Cons r queue)
  let ?k = "dedupe_key ByMessageId r"
  let ?seen = "if truthy ?k then insert ?k seen else seen"
  from Cons.prems obtain u where u: "result = r # u" "dedupe_loop ByMessageId ?seen (queue @ [run]) = Inr u"
    by (auto simp: Let_def bind_res_eq_Inr split: if_splits)
  moreover have "distinct (message_ids queue)" "set (message_ids queue) \<inter> ?seen = {}"
    using Cons.prems(2,3) by (auto split: if_splits)
  ultimately show ?case using Cons.IH [of ?seen u] by (auto split: if_splits)
qed (auto simp: Let_def split: if_splits)

lemma drop_policy_bound:
  assumes "1 \<le> cap"
  shows "int (length (apply_drop_policy queue cap policy)) \<le> cap" "subseq (apply_drop_policy queue cap policy) queue"
proof -
  have from_end: "int (length (slice_from queue (- c))) = c \<and> subseq (slice_from queue (- c)) queue"
    if "0 < c" "c < int (length queue)" for c
    using that by (auto simp: slice_from_def intro: list_emb_suffix suffix_drop)
  have upto: "int (length (slice_upto queue cap)) \<le> cap \<and> subseq (slice_upto queue cap) queue"
    using assms by (auto simp: slice_upto_def intro: prefix_imp_subseq take_is_prefix)
  have middle: "subseq ([queue ! 0] @ slice_from queue (- (cap - 1))) queue"
    if "2 < cap" "cap < int (length queue)"
  proof (cases queue)
    case (Cons x xs)
    then have "slice_from queue (- (cap - 1)) = drop (length xs - nat (cap - 1)) xs"
      using that by (simp add: slice_from_def Suc_diff_le)
    then show ?thesis using Cons by (simp add: suffix_drop suffix_imp_subseq)
  qed (use that in simp)
  show "int (length (apply_drop_policy queue cap policy)) \<le> cap" "subseq (apply_drop_policy queue cap policy) queue"
    using from_end [of cap] from_end [of "cap - 1"] upto middle assms
    by (auto simp: apply_drop_policy_def split: queue_drop_policy.split)
qed

lemma dict_get_pop [simp]: "dict_get (dict_pop d k) k' = (if k' = k then None else dict_get d k')"
  by (induction d) (auto simp: dict_pop_def)

lemma get_set_queue [simp]: "get_queue k' (set_session_queue k q s) = (if k' = k then q else get_queue k' s)"
  by (simp add: get_queue_def set_session_queue_def)

lemma enqueue_followup_Inr:
  assumes "enqueue_followup L now k run config settings s = (Inr queue, s')"
  obtains st n d where "(case settings of Some x \<Rightarrow> Inr x | None \<Rightarrow> resolve_queue_settings L config) = Inr st"
    "normalize_followup_run now run = Inr n" "dedupe_loop ByMessageId {} (get_queue k s @ [n]) = Inr d"
    "queue = apply_drop_policy d (default_to 10 (qs_cap st)) (default_to DropOld (qs_dropPolicy st))"
    "s' = set_session_queue k queue s"
  using assms by (auto simp: enqueue_followup_def dedupe_queue_def Let_def split: sum.splits)

lemma enqueue_followup_Inl:
  "enqueue_followup L now k run config settings s = (Inl e, s') \<Longrightarrow> s' = s"
  by (auto simp: enqueue_followup_def Let_def split: sum.splits)

section \<open>Every state that the operations reach\<close>

inductive reply_queue_step :: "int \<Rightarrow> queue_state \<Rightarrow> queue_state \<Rightarrow> bool" for cap :: int where
  enqueue_step: "enqueue_followup L now k run config settings s = (r, s') \<Longrightarrow>
     (\<And>st. (case settings of Some x \<Rightarrow> Inr x | None \<Rightarrow> resolve_queue_settings L config) = Inr st \<Longrightarrow>
        1 \<le> default_to 10 (qs_cap st) \<and> default_to 10 (qs_cap st) \<le> cap) \<Longrightarrow>
     reply_queue_step cap s s'"
| dequeue_step: "dequeue_followup k s = (r, s') \<Longrightarrow> reply_queue_step cap s s'"
| clear_step: "clear_session_queue k s = (q, s') \<Longrightarrow> reply_queue_step cap s s'"
| prune_step: "prune_stale_queues fb now age s = (n, s') \<Longrightarrow> reply_queue_step cap s s'"
| clear_all_step: "clear_every_queue s = (n, s') \<Longrightarrow> reply_queue_step cap s s'"
| active_step: "reply_queue_step cap s (set_active_run k run s)"

lemma prune_keeps: "prune_loop fb now age ks n s = (r, s') \<Longrightarrow> get_queue k s' = get_queue k s \<or> get_queue k s' = []"
proof (induction fb now age ks n s arbitrary: s' rule: prune_loop.induct)
  case (2 fb now age key rest n s)
  have pop: "get_queue k (s\<lparr> qu_queues := dict_pop (qu_queues s) key \<rparr>) \<in> {get_queue k s, []}"
    "get_queue k (s\<lparr> qu_queues := dict_pop (qu_queues s) key, qu_active_run := a \<rparr>) \<in> {get_queue k s, []}" for a
    by (auto simp: get_queue_def)
  from 2 pop show ?case by (fastforce split: list.splits sum.splits bool.splits)
qed simp

lemma queue_step_ok:
  assumes "reply_queue_step cap s s'" "\<forall>k. queue_ok cap (get_queue k s)" "0 \<le> cap"
  shows "\<forall>k. queue_ok cap (get_queue k s')"
  using assms
proof induction
  case (enqueue_step L now k run config settings s r s')
  show ?case
  proof (cases r)
    case (Inl e)
    with enqueue_step show ?thesis by (auto dest: enqueue_followup_Inl)
  next
    case (Inr queue)
    with enqueue_step.hyps(1) have "enqueue_followup L now k run config settings s = (Inr queue, s')" by simp
    then obtain st n d where st: "(case settings of Some x \<Rightarrow> Inr x | None \<Rightarrow> resolve_queue_settings L config) = Inr st"
      and d: "dedupe_loop ByMessageId {} (get_queue k s @ [n]) = Inr d"
      and q: "queue = apply_drop_policy d (default_to 10 (qs_cap st)) (default_to DropOld (qs_dropPolicy st))"
      and s': "s' = set_session_queue k queue s" by (rule enqueue_followup_Inr)
    from enqueue_step.hyps(2) [OF st] have c: "1 \<le> default_to 10 (qs_cap st)" "default_to 10 (qs_cap st) \<le> cap"
      by blast+
    have "int (length queue) \<le> cap" "subseq queue d"
      using order_trans [OF drop_policy_bound(1) [OF c(1)] c(2)] drop_policy_bound(2) [OF c(1)] by (simp_all add: q)
    moreover have "distinct (message_ids d)" using dedupe_loop_ids [OF d] by simp
    ultimately have "queue_ok cap queue"
      unfolding queue_ok_def using subseq_message_ids subseq_distinct by blast
    with enqueue_step.prems s' show ?thesis by simp
  qed
next
  case (dequeue_step k s r s')
  have "subseq (get_queue j s') (get_queue j s)" for j
    using dequeue_step.hyps by (auto simp: dequeue_followup_def split: list.splits)
  with dequeue_step.prems show ?case using queue_ok_subseq by blast
next
  case (clear_step k s q s')
  then have "get_queue j s' = get_queue j s \<or> get_queue j s' = []" for j
    by (auto simp: clear_session_queue_def clear_queue_def get_queue_def)
  with clear_step.prems show ?case by (metis queue_ok_subseq list_emb_Nil)
next
  case (prune_step fb now age s n s')
  then have "get_queue j s' = get_queue j s \<or> get_queue j s' = []" for j
    unfolding prune_stale_queues_def by (intro prune_keeps)
  with prune_step.prems show ?case by (metis queue_ok_subseq list_emb_Nil)
next
  case (clear_all_step s n s')
  then show ?case by (auto simp: clear_every_queue_def clear_all_def get_queue_def queue_ok_def)
next
  case (active_step s k run)
  then show ?case by (simp add: get_queue_def set_active_run_def)
qed

text \<open>
  In every state that enqueuing, dequeuing, clearing and pruning reach from the empty one, with whatever
  exceptions, a queue is within the largest cap that was in force and holds no message twice.
\<close>

theorem reply_queues_bounded:
  assumes "(reply_queue_step cap)\<^sup>*\<^sup>* new_queue_state s" "0 \<le> cap"
  shows "int (length (get_queue k s)) \<le> cap \<and> distinct (message_ids (get_queue k s))"
proof -
  have "\<forall>k. queue_ok cap (get_queue k s)"
    using assms(1)
  proof (induction rule: rtranclp_induct)
    case base
    show ?case using assms(2) by (simp add: new_queue_state_def get_queue_def queue_ok_def)
  next
    case (step t u)
    then show ?case using queue_step_ok [OF step.hyps(2)] assms(2) by blast
  qed
  then show ?thesis by (simp add: queue_ok_def)
qed

section \<open>What enqueuing does\<close>

lemma drop_policy_one_over:
  assumes "1 \<le> cap" "int (length q) = cap"
  shows "apply_drop_policy (q @ [n]) cap policy =
    (case policy of
       DropOld \<Rightarrow> tl q @ [n]
     | DropNew \<Rightarrow> q
     | DropSummarize \<Rightarrow> if cap \<le> 2 then tl q @ [n] else hd q # drop 2 q @ [n])"
proof -
  from assms obtain x xs where q: "q = x # xs" by (cases q) auto
  with assms have "nat cap = Suc (length xs)" "nat (cap - 1) = length xs" by auto
  then show ?thesis using assms q
    by (auto simp: apply_drop_policy_def slice_from_def slice_upto_def drop_Suc Suc_diff_le numeral_2_eq_2
        split: queue_drop_policy.split)
qed



section \<open>Concrete queues\<close>

definition queue_lib :: pylib where
  "queue_lib = \<lparr> lib_iso_ms = (\<lambda>s. None), lib_float_trunc = (\<lambda>r. Inl PyValueError) \<rparr>"

definition demo_run :: "string \<Rightarrow> followup_run" where
  "demo_run i = [(''prompt'', VStr ''hi''), (''enqueuedAt'', VInt 5), (''messageId'', VStr i)]"

definition demo_settings_cap :: "int \<Rightarrow> queue_settings" where
  "demo_settings_cap c = DEFAULT_QUEUE_SETTINGS\<lparr> qs_cap := Some c \<rparr>"

definition demo_queues :: "followup_run list \<Rightarrow> queue_state" where
  "demo_queues q = \<lparr> qu_queues = [(''s'', q)], qu_active_run = [] \<rparr>"

lemma demo_normalized: "normalize_followup_run 9 (demo_run i) = Inr (demo_run i)"
proof -
  have "py_strip ''hi'' = ''hi''" by code_simp
  then show ?thesis by (simp add: normalize_followup_run_def demo_run_def run_value_def run_keys_def py_or_def)
qed

lemma demo_dedupe:
  "dedupe_queue [demo_run ''a'', demo_run ''b'', demo_run ''c''] ByMessageId =
     Inr [demo_run ''a'', demo_run ''b'', demo_run ''c'']"
  "dedupe_queue [demo_run ''a''] ByMessageId = Inr [demo_run ''a'']"
  by (simp_all add: dedupe_queue_def demo_run_def dedupe_key_def)

lemma demo_enqueue:
  "enqueue_followup queue_lib 9 ''s'' (demo_run ''c'') None (Some (demo_settings_cap 2)) (demo_queues [demo_run ''a'', demo_run ''b'']) =
     (Inr [demo_run ''b'', demo_run ''c''], demo_queues [demo_run ''b'', demo_run ''c''])"
  by (simp add: enqueue_followup_def demo_normalized demo_settings_cap_def DEFAULT_QUEUE_SETTINGS_def demo_dedupe
      demo_queues_def get_queue_def set_session_queue_def default_to_def apply_drop_policy_def slice_from_def Let_def)

text \<open>A cap of zero, which the configuration may set, does not bound the queue at all.\<close>

lemma zero_cap_is_no_cap: "apply_drop_policy queue 0 DropOld = queue" "apply_drop_policy queue 0 DropSummarize = queue"
  by (simp_all add: apply_drop_policy_def slice_from_def)

theorem reply_queues_bounded_witness:
  "int (length (get_queue ''s'' (set_session_queue ''s'' [demo_run ''a''] new_queue_state))) \<le> 2"
proof -
  have "enqueue_followup queue_lib 9 ''s'' (demo_run ''a'') None (Some (demo_settings_cap 2)) new_queue_state =
      (Inr [demo_run ''a''], set_session_queue ''s'' [demo_run ''a''] new_queue_state)"
    by (simp add: enqueue_followup_def demo_normalized demo_settings_cap_def demo_dedupe new_queue_state_def
        get_queue_def default_to_def apply_drop_policy_def Let_def)
  then have "reply_queue_step 2 new_queue_state (set_session_queue ''s'' [demo_run ''a''] new_queue_state)"
    by (rule enqueue_step) (simp add: demo_settings_cap_def default_to_def)
  then show ?thesis using reply_queues_bounded [of 2 "set_session_queue ''s'' [demo_run ''a''] new_queue_state" "''s''"] by auto
qed


definition demo_drain :: "unit drain_env" where
  "demo_drain =
     \<lparr> de_handler = (\<lambda>run w. (if run_value run ''messageId'' = VStr ''a'' then Inl PyKeyError else Inr VNone, w)),
       de_sleep = (\<lambda>w. w), de_exn_text = (\<lambda>e. ''error'') \<rparr>"


text \<open>Directives at the beginning, in the middle and with another case; a word that goes on is none.\<close>

lemma demo_directives:
  "extract_queue_directive (Some ''hey /Steer  now'') =
     \<lparr> qd_mode = Some SteerMode, qd_cleaned = ''hey now'', qd_hasDirective = True \<rparr>"
  "resolve_queue_mode (Some ''/collect'') FollowupMode = CollectMode"
  "resolve_queue_mode (Some ''/steering x'') FollowupMode = FollowupMode"
  by code_simp+

end
