(* ===== verification/Spec2Isabelle.thy ===== *)
theory Spec2Isabelle
  imports BranchSummary TextTruncate RouteCaching AgentRuns IpCidr
    LoopTermination AgentStream ToolPlanner JsonlStorage HarnessMoves ContextPruning ReplyQueue
begin

text \<open>
  A verification development for OpenClaw, an assistant that connects chat channels to language
  models. It models the parts of the program that carry its own logic: which agent a message is
  routed to and under which session key, how an agent runs its loop of model turns and tool calls,
  how the conversation is stored as a tree of entries, in memory and in a file, how a long
  conversation is compacted and pruned, the harness that joins these, which tools are offered and which
  a sandbox permits, how messages wait while an agent is busy, and which network addresses may be reached. Everything is a shallow embedding: a function of the code is a function
  here, with the name it has in the code where the name is free, exceptions are values, and mutable
  state is passed explicitly.

  \<^bold>\<open>How the parts interact.\<close> An incoming message is routed (\<^verbatim>\<open>src/openclaw/routing\<close>) to an agent and a
  session key. The agent (\<^verbatim>\<open>src/openclaw_packages/agent_core/agent.py\<close>) runs the agent loop
  (\<^verbatim>\<open>agent_loop.py\<close>) on its messages; the loop sends events, from which the agent builds its memory.
  A session (\<^verbatim>\<open>agent_core/harness/session\<close>) keeps the messages as entries of a tree; the branch of the
  current leaf is the context of the model, and compaction and branch summaries
  (\<^verbatim>\<open>agent_core/harness/compaction\<close>) replace parts of it by summaries. The harness
  (\<^verbatim>\<open>agent_core/harness/agent_harness.py\<close>) owns a session and runs the same loop: its configuration of
  the loop reads the session, its handler of the events writes it, and while a turn runs, the writes of
  other callers and the steering messages wait in its queues. Before a request the context may be pruned
  (\<^verbatim>\<open>agents/agent_hooks/context_pruning\<close>), the tools of a sandbox pass its policy
  (\<^verbatim>\<open>agents/sandbox\<close>), and messages for a session that is busy wait in the reply queue
  (\<^verbatim>\<open>auto_reply/reply/queue\<close>).

  \<^bold>\<open>The library.\<close> \<open>PyPrelude\<close> has the exceptions (\<open>pyexn\<close>), results (\<open>res\<close>) and what the code uses of
  the standard library on strings and lists. \<open>PyVal\<close> has the dynamically typed values, with truth,
  \<^verbatim>\<open>get\<close>, \<^verbatim>\<open>getattr\<close>, \<^verbatim>\<open>repr\<close> and JSON output. \<open>PyEffects\<close> has the computations with a state that may
  raise, and three ways to reason about them: relations that they keep (\<open>keeps\<close>), triples (\<open>valid\<close>) and
  facts about the values they return (\<open>yields\<close>).

  \<^bold>\<open>Sessions.\<close>
  \<^item> \<open>EntryIds\<close>: \<^verbatim>\<open>session/uuid.py\<close> and the short identifiers of \<^verbatim>\<open>storage_base.py\<close>. The clock and the
    random bytes are arguments. Distinctness and the shape of identifiers.
  \<^item> \<open>HarnessTypes\<close>: the entries of \<^verbatim>\<open>harness_types.py\<close>, the conversions of \<^verbatim>\<open>messages.py\<close>, timestamps.
  \<^item> \<open>SessionStorage\<close>, \<open>SessionTree\<close>: \<^verbatim>\<open>storage_base.py\<close> and \<^verbatim>\<open>memory_storage.py\<close>, one record and one
    definition per method; the walk to the root, the reachable storages, reopening, moving the leaf.
  \<^item> \<open>AgentSession\<close>: \<^verbatim>\<open>session/session.py\<close>. A session is given a storage that implements the protocol
    \<^verbatim>\<open>SessionStorage\<close> of \<^verbatim>\<open>harness_types.py\<close>; no class of the repository does, since its storages name
    their operations in snake case, and \<open>session_on_repository_storage\<close> shows what a session does on
    them. The operations of the protocol are therefore parameters (\<open>session_ops\<close>), which thread the state of
    the storage also where they raise, and the locale \<open>session_storage\<close> has the laws that the protocol
    documents. What is proved of sessions holds for every storage that keeps the laws; \<open>memory_ops\<close>, the
    operations of the storage in memory under the names of the protocol, is an instance that shows that
    the laws can be kept, and is used by the witnesses only.
  \<^item> \<open>CompactionPrompts\<close>, \<open>CompactionUtils\<close>, \<open>Compaction\<close>, \<open>BranchSummary\<close>: the prompts, the files that
    the tools touched, token estimates, cut points, and the two kinds of summaries.
  \<^item> \<open>TextTruncate\<close>: \<^verbatim>\<open>utils/truncate.py\<close>; text is a list of code points, surrogates included.
  \<^item> \<open>PyJson\<close>, \<open>JsonlStorage\<close>: reading JSON, and \<^verbatim>\<open>session/jsonl_storage.py\<close>, the storage in a file with
    one entry a line. An operation on the file refines the operation in memory and the header reads back,
    but a file to which the code appended an entry never opens again.

  \<^bold>\<open>Routing.\<close>
  \<^item> \<open>StringCoerce\<close>: the normalisers of \<^verbatim>\<open>normalization_core/string_coerce.py\<close>.
  \<^item> \<open>RoutingIds\<close>: account and agent identifiers, session keys, their construction and parsing.
  \<^item> \<open>RouteBindings\<close>: bindings, scopes, bound accounts.
  \<^item> \<open>ResolveRoute\<close>: \<^verbatim>\<open>resolve_route.py\<close> with its three module-level caches as one state.
    \<open>RouteSpec\<close> has the specification, a scan of the bindings in source order, and that buckets,
    merge and index implement it; \<open>RouteCaching\<close> has that the caches cannot be observed, except for
    the collision of keys that it exhibits.

  \<^bold>\<open>Agents.\<close>
  \<^item> \<open>AgentLoop\<close>, \<open>ToolCalls\<close>, \<open>TurnLoop\<close>: \<^verbatim>\<open>agent_loop.py\<close>, \<^verbatim>\<open>reasoning.py\<close>: the data, the response of
    the model, the tool calls of a message in both modes, the turns and the two loops. What the loop
    calls but does not define acts on a world about which nothing is assumed.
  \<^item> \<open>LoopProtocol\<close>, \<open>LoopRelations\<close>, \<open>LoopRuns\<close>: the automaton of the events, the assertion that carries
    it through the code, the interface \<open>loop_relation\<close> of relations that every run keeps, and the
    properties of complete runs.
  \<^item> \<open>PendingQueue\<close>, \<open>AgentState\<close>, \<open>AgentRuns\<close>: \<^verbatim>\<open>agent.py\<close>. The world of the loop is the state of the
    agent, so that the properties of the two compose: the memory of the agent is the context of the loop.
  \<^item> \<open>LoopTermination\<close>: when runs end, and a stream that is never left.
  \<^item> \<open>EventStream\<close>, \<open>AgentStream\<close>: \<^verbatim>\<open>llm/event_stream.py\<close>, a queue of events with its waiting readers as a
    step relation, and the two functions that start a run in a task which feeds such a stream.
  \<^item> \<open>ToolPlanner\<close>: \<^verbatim>\<open>openclaw/tools\<close>, the availability of tools as formulas and the plan built from them.

  \<^bold>\<open>The harness.\<close>
  \<^item> \<open>PromptTemplates\<close>: the arguments of a template, their substitution, and the text of a skill.
  \<^item> \<open>HarnessState\<close>: the object, its queues, its handlers and what they may answer, the writes that wait,
    and the setters. \<open>HarnessRuns\<close>: the state a turn starts from, the configuration of the loop, the
    handling of the events of the loop, a turn and the ways to start one. \<open>HarnessTree\<close>: \<open>compact\<close> and
    \<open>navigate_tree\<close>. The clock, the provider, the tools, the handlers and the storage are fields of one
    record of parameters; a handler may call the harness again, which is a change of its state.
  \<^item> \<open>HarnessFacts\<close>: calls leave the harness settled and raise only exceptions of the harness; writes that
    were not made stay queued in their order, whatever the storage does; a run of the harness raises or
    is aborted, since the code iterates over a coroutine where a stream is needed. \<open>HarnessQueues\<close>: a prompt returns, the queues are delivered or restored,
    and aborting a turn. \<open>HarnessSession\<close>: the messages that a run announces are the ones stored; the
    relation is an instance of \<open>loop_relation\<close> and the storage an instance of the locale \<open>message_log\<close>.
    \<open>HarnessMoves\<close>: what compaction and navigation do to a session whose storage keeps the laws of
    \<open>session_storage\<close>.

  \<^bold>\<open>Around a turn.\<close>
  \<^item> \<open>ToolPolicy\<close>: \<^verbatim>\<open>agents/glob_pattern.py\<close>, \<^verbatim>\<open>tool_policy_shared.py\<close> and \<^verbatim>\<open>sandbox/tool_policy.py\<close>: glob
    patterns as the regular expressions the code compiles, groups of tools, the policy that a
    configuration gives an agent, and that the resolved policy decides as its lists say.
  \<^item> \<open>ContextPruning\<close>: \<^verbatim>\<open>context_pruning/pruner.py\<close> with the estimates of \<^verbatim>\<open>utils/cjk_chars.py\<close>: trimming and
    clearing of old tool results; which messages may change, and what a trimmed one holds.
  \<^item> \<open>ReplyQueue\<close>: \<^verbatim>\<open>auto_reply/reply/queue\<close>: enqueuing with its cap and drop policies, draining, pruning
    and the directives; the bound of the queues and the order of draining.

  \<^bold>\<open>Network policy.\<close> \<open>RegExp\<close> has the regular expressions that the code compiles, as terms with a
  matcher. \<open>IpAddress\<close>, \<open>IpRanges\<close>, \<open>IpPolicy\<close> are \<^verbatim>\<open>net_policy/ip.py\<close>: parsing, tables of special
  ranges, and the questions asked of a text. \<open>IpBlocks\<close>, \<open>IpTexts\<close>, \<open>IpCidr\<close> show which addresses are
  blocked, that no question raises, which texts denote an address, and what matching a prefix means.

  \<^bold>\<open>Bounds, loops and parameters.\<close> Python integers are \<^typ>\<open>int\<close>; words are used where the code masks.
  A float is its text, and the two computations with floats (a tenth of a budget, four fifths of a
  reserve) are done exactly, which the code's arithmetic agrees with below \<^verbatim>\<open>2^50\<close>. Loops over data are
  recursive functions with a termination proof; the loop over the events of a stream and the loop over
  the turns may run forever and are partial functions into options: what is proved of their results
  holds of every run that returns or raises, \<open>LoopTermination\<close> proves that runs end when the host runs
  dry and \<open>HarnessQueues\<close> that a prompt of the harness ends, and the runs of the witnesses return. The
  JSON reader counts the depth of its recursion down from twice the length of the text; \<open>json_fuel\<close> shows
  that more gives the same result. Parameters stand for what is not under \<^verbatim>\<open>src\<close> or is a service: the
  clock, randomness, the model's stream, the tools, the hooks. Their names and fields are documented where they are declared.

  \<^bold>\<open>Text.\<close> A \<^typ>\<open>string\<close> has code points below 256, for which case mapping and white space are exact; the
  classes of the regular expressions are too on such texts, but beyond them \<^verbatim>\<open>\d\<close> also takes the digits
  of other scripts, and \<^verbatim>\<open>IGNORECASE\<close> four more letters for \<^verbatim>\<open>i\<close>, \<^verbatim>\<open>s\<close> and \<^verbatim>\<open>k\<close>. What is proved
  of agent identifiers, session keys, addresses and tool names holds of texts in that range, and the
  manifest lists what happens outside it; \<open>TextTruncate\<close> and \<open>estimate_code_points\<close> take lists of code
  points instead.

  \<^bold>\<open>Not modelled.\<close> The gateway, the command line, the channels and the extensions, which are input and
  output through services; the embedded runner; the migration data. Of the harness, the callbacks of
  \<^verbatim>\<open>_stream_fn\<close> around the request, which the provider calls, and a set of handlers that is replaced by
  another of the same size while it is iterated; how the settings of context pruning are read and where its
  runtime is registered. A storage whose walk to the root does not end leaves
  the state of a turn unspecified; storages that are reached by the operations always end it.
  Concurrency is only modelled inside a run: every call of the surroundings may change the world, so
  that other tasks may act between two steps of a run, but the lists that the loop itself owns are
  changed by the loop alone.
\<close>

end
